(* ===== verification/Prelude.thy ===== *)
theory Prelude
  imports Main "HOL-Library.Word" "HOL-Library.Multiset"
begin

text \<open>
  Shared vocabulary of the hector\_core development: the failure type of the C++ code (a failed
  \<^verbatim>\<open>assert\<close>, a call through a null pointer, an out-of-range read), the collections of rewrite
  rules the component theories fill, and generic facts on lists and sums that several components
  need.  Nothing here models a particular source file.
\<close>

section \<open>Failures as values\<close>

text \<open>
  The program has no exceptions of its own.  What it has are aborts and undefined behaviour: each
  becomes the left injection of a sum, so that an operation which may fail has the result type
  \<open>failure + 'a\<close>.
\<close>

datatype failure =
    AssertFailed        \<comment> \<open>an \<^verbatim>\<open>assert\<close> of the source is false\<close>
  | NullDeref           \<comment> \<open>a member call through a null pointer\<close>
  | OutOfRange          \<comment> \<open>a read outside of an array or a vector\<close>
  | BadShift            \<comment> \<open>a shift by a negative amount or by at least the width\<close>
  | Uninitialised       \<comment> \<open>a call through a pointer that was never set\<close>
  | Overflow            \<comment> \<open>a number the type cannot hold\<close>
  | UseAfterFree        \<comment> \<open>a call through a pointer to a deleted object\<close>
  | SelfDeadlock        \<comment> \<open>a lock taken again by the thread that left it locked\<close>
  | WrongMember         \<comment> \<open>a union read through another member than the one written\<close>

section \<open>Time\<close>

text \<open>The \<^verbatim>\<open>struct timeval\<close> of the deadlines.\<close>

record timeval =
  tv_sec :: int
  tv_usec :: int

section \<open>Collections of rewrite rules\<close>

named_theorems simple_queue_defs "the operations of SimpleQueue"
named_theorems sync_queue_defs "the operations of SyncQueue"
named_theorems heap_defs "the heap algorithms of heapplus.h"
named_theorems engine_defs "the bookkeeping of ProcessingEngine and Server"

section \<open>Bytes and words\<close>

unbundle bit_operations_syntax

type_synonym byte = "8 word"

text \<open>A 32-bit word in the memory of a little-endian machine, and back.\<close>

definition le_word :: "byte \<Rightarrow> byte \<Rightarrow> byte \<Rightarrow> byte \<Rightarrow> 32 word" where
  "le_word a b c d = ucast a OR push_bit 8 (ucast b) OR push_bit 16 (ucast c) OR push_bit 24 (ucast d)"

definition le_bytes :: "32 word \<Rightarrow> byte list" where
  "le_bytes w = [ucast w, ucast (drop_bit 8 w), ucast (drop_bit 16 w), ucast (drop_bit 24 w)]"

lemma bit_le_word:
  "bit (le_word a b c d) n \<longleftrightarrow>
     (n < 8 \<and> bit a n) \<or> (8 \<le> n \<and> n < 16 \<and> bit b (n - 8)) \<or>
     (16 \<le> n \<and> n < 24 \<and> bit c (n - 16)) \<or> (24 \<le> n \<and> n < 32 \<and> bit d (n - 24))"
  using bit_imp_le_length [of a n] bit_imp_le_length [of b "n - 8"] bit_imp_le_length [of c "n - 16"]
    bit_imp_le_length [of d "n - 24"]
  by (auto simp: le_word_def bit_simps)

lemma le_bytes_le_word: "le_bytes (le_word a b c d) = [a, b, c, d]"
  by (auto simp: le_bytes_def intro!: bit_word_eqI simp: bit_ucast_iff bit_drop_bit_eq bit_le_word)

lemma le_word_bytes: "le_word (ucast w) (ucast (drop_bit 8 w)) (ucast (drop_bit 16 w)) (ucast (drop_bit 24 w)) = w"
proof (rule bit_word_eqI)
  fix n assume "n < LENGTH(32)"
  then consider "n < 8" | "8 \<le> n" "n < 16" | "16 \<le> n" "n < 24" | "24 \<le> n" "n < 32" by fastforce
  then show "bit (le_word (ucast w) (ucast (drop_bit 8 w)) (ucast (drop_bit 16 w)) (ucast (drop_bit 24 w))) n = bit w n"
    by cases (auto simp: bit_le_word bit_ucast_iff bit_drop_bit_eq)
qed

section \<open>Lists\<close>

lemma nth_update_eq_if:
  "i < length xs \<Longrightarrow> xs[i := v] ! j = (if i = j then v else xs ! j)"
  by (cases "i = j") auto

lemma nth_list_update_if:
  "xs[i := v] ! j = (if i = j \<and> i < length xs then v else xs ! j)"
  by (cases "i < length xs") (auto simp: list_update_beyond)

lemma sum_list_map_split:
  "xs \<noteq> [] \<Longrightarrow> sum_list (map f xs) = f (hd xs) + sum_list (map f (tl xs))"
  by (cases xs) auto

lemma sum_list_nonneg_int:
  "(\<And>x. x \<in> set xs \<Longrightarrow> (0::int) \<le> f x) \<Longrightarrow> 0 \<le> sum_list (map f xs)"
  by (induction xs) auto

lemma mset_update_swap:
  assumes "i < length xs"
  shows "add_mset (xs ! i) (mset (xs[i := v])) = add_mset v (mset xs)"
proof -
  have "xs ! i \<in># mset xs" using assms by simp
  then show ?thesis using assms by (simp add: mset_update)
qed

lemma filter_Cons_hd_take:
  "filter P xs = y # ys \<Longrightarrow> \<exists>us vs. xs = us @ y # vs \<and> (\<forall>u\<in>set us. \<not> P u) \<and> P y"
  by (auto simp: filter_eq_Cons_iff)

section \<open>Sums as results\<close>

text \<open>Sequencing of operations that may fail.\<close>

fun bind_result :: "failure + 'a \<Rightarrow> ('a \<Rightarrow> failure + 'b) \<Rightarrow> failure + 'b" where
  "bind_result (Inl e) f = Inl e"
| "bind_result (Inr x) f = f x"

lemma bind_result_Inr_iff:
  "bind_result m f = Inr y \<longleftrightarrow> (\<exists>x. m = Inr x \<and> f x = Inr y)"
  by (cases m) auto

lemma bind_result_Inl_iff:
  "bind_result m f = Inl e \<longleftrightarrow> m = Inl e \<or> (\<exists>x. m = Inr x \<and> f x = Inl e)"
  by (cases m) auto

end
