(* ===== verification/SyncQueue.thy ===== *)
theory SyncQueue
  imports Prelude
begin

text \<open>
  \<^verbatim>\<open>lib/SyncQueue.h\<close> and \<^verbatim>\<open>lib/CondLock.h\<close>: the bounded FIFO \<open>SimpleQueue\<close>, the family of such
  queues ordered by priority in \<open>SyncQueue\<close>, and the operations on it as the code runs them between
  two points where \<open>queueLock\<close> is released.  The interleaving of several threads is the subject of
  theory \<open>SyncQueueThreads\<close>.  Items are of an arbitrary type; \<open>T::GetSize()\<close> is the argument \<open>sz\<close>.
\<close>

section \<open>SimpleQueue: one bounded sub-queue\<close>

record 'a simple_queue =
  sq_priority :: int
  sq_maxItems :: int
  sq_maxSize :: int
  sq_queueSize :: int
  sq_queue :: "'a list"

definition SimpleQueue_new :: "int \<Rightarrow> int \<Rightarrow> int \<Rightarrow> 'a simple_queue" where
  "SimpleQueue_new priority maxItems maxSize =
     \<lparr>sq_priority = priority, sq_maxItems = maxItems, sq_maxSize = maxSize,
      sq_queueSize = 0, sq_queue = []\<rparr>"

definition SimpleQueue_deleteAllItems :: "'a simple_queue \<Rightarrow> 'a simple_queue" where
  "SimpleQueue_deleteAllItems q = q\<lparr>sq_queue := []\<rparr>"

definition SimpleQueue_IsSpaceFor :: "'a simple_queue \<Rightarrow> int \<Rightarrow> bool" where
  "SimpleQueue_IsSpaceFor q itemSize \<longleftrightarrow>
     (sq_maxItems q = 0 \<or> int (length (sq_queue q)) < sq_maxItems q) \<and>
     (sq_maxSize q = 0 \<or> sq_queueSize q + itemSize \<le> sq_maxSize q)"

definition SimpleQueue_PutItem :: "('a \<Rightarrow> int) \<Rightarrow> 'a \<Rightarrow> 'a simple_queue \<Rightarrow> 'a simple_queue" where
  "SimpleQueue_PutItem sz r q =
     q\<lparr>sq_queue := sq_queue q @ [r], sq_queueSize := sq_queueSize q + sz r\<rparr>"

definition SimpleQueue_IsReady :: "'a simple_queue \<Rightarrow> bool" where
  "SimpleQueue_IsReady q \<longleftrightarrow> 0 < length (sq_queue q)"

definition SimpleQueue_GetItem :: "('a \<Rightarrow> int) \<Rightarrow> 'a simple_queue \<Rightarrow> 'a option \<times> 'a simple_queue" where
  "SimpleQueue_GetItem sz q =
     (case sq_queue q of
        [] \<Rightarrow> (None, q)
      | r # rest \<Rightarrow> (Some r, q\<lparr>sq_queue := rest, sq_queueSize := sq_queueSize q - sz r\<rparr>))"

definition SimpleQueue_GetCurrentItems :: "'a simple_queue \<Rightarrow> int" where
  "SimpleQueue_GetCurrentItems q = int (length (sq_queue q))"

definition SimpleQueue_comp :: "'a simple_queue \<Rightarrow> 'a simple_queue \<Rightarrow> bool" where
  "SimpleQueue_comp a b \<longleftrightarrow> sq_priority a > sq_priority b"

declare SimpleQueue_new_def [simple_queue_defs] SimpleQueue_deleteAllItems_def [simple_queue_defs]
  SimpleQueue_IsSpaceFor_def [simple_queue_defs] SimpleQueue_PutItem_def [simple_queue_defs]
  SimpleQueue_IsReady_def [simple_queue_defs] SimpleQueue_GetItem_def [simple_queue_defs]
  SimpleQueue_GetCurrentItems_def [simple_queue_defs] SimpleQueue_comp_def [simple_queue_defs]

section \<open>SyncQueue: sub-queues ordered by priority\<close>

text \<open>
  \<open>queues\<close> and \<open>priority2queue\<close> hold pointers to the same \<open>SimpleQueue\<close> objects.  The objects live
  in \<open>objs\<close>, in the order of their allocation, and a pointer is an index into that list; so an
  update through one of the two is seen through the other.  \<open>queueLock\<close> is held by whoever runs one
  of the sections below.
\<close>

record 'a sync_queue =
  objs :: "'a simple_queue list"
  queues :: "nat list"
  priority2queue :: "int \<Rightarrow> nat option"
  waitingReaders :: int
  waitingWriters :: int
  cancel :: bool

definition SyncQueue_new :: "'a sync_queue" where
  "SyncQueue_new = \<lparr>objs = [], queues = [], priority2queue = (\<lambda>_. None),
     waitingReaders = 0, waitingWriters = 0, cancel = False\<rparr>"

text \<open>
  \<open>std::sort\<close> with \<open>SimpleQueue::comp\<close>; the priorities are distinct (the \<^verbatim>\<open>assert\<close>), so the order
  is determined.
\<close>

definition SyncQueue_addQueue ::
  "int \<Rightarrow> int \<Rightarrow> int \<Rightarrow> 'a sync_queue \<Rightarrow> failure + 'a sync_queue" where
  "SyncQueue_addQueue priority maxItems maxSize s =
     (let a = length (objs s); os = objs s @ [SimpleQueue_new priority maxItems maxSize] in
      if priority2queue s priority \<noteq> None then Inl AssertFailed
      else Inr (s\<lparr>objs := os,
                  priority2queue := (priority2queue s)(priority \<mapsto> a),
                  queues := sort_key (\<lambda>b. - sq_priority (os ! b)) (queues s @ [a])\<rparr>))"

definition SyncQueue_hasQueue :: "int \<Rightarrow> 'a sync_queue \<Rightarrow> bool" where
  "SyncQueue_hasQueue priority s \<longleftrightarrow> priority2queue s priority \<noteq> None"

definition SyncQueue_GetQueuesCount :: "'a sync_queue \<Rightarrow> int" where
  "SyncQueue_GetQueuesCount s = int (length (queues s))"

definition SyncQueue_queueItems :: "int \<Rightarrow> 'a sync_queue \<Rightarrow> failure + int" where
  "SyncQueue_queueItems priority s =
     (case priority2queue s priority of
        None \<Rightarrow> Inl AssertFailed
      | Some a \<Rightarrow> Inr (SimpleQueue_GetCurrentItems (objs s ! a)))"

fun firstNonEmpty_loop :: "'a simple_queue list \<Rightarrow> nat list \<Rightarrow> int \<Rightarrow> int" where
  "firstNonEmpty_loop os [] i = -1"
| "firstNonEmpty_loop os (a # as) i =
     (if SimpleQueue_GetCurrentItems (os ! a) > 0 then i else firstNonEmpty_loop os as (i + 1))"

definition firstNonEmptyQueueIndex :: "'a sync_queue \<Rightarrow> int" where
  "firstNonEmptyQueueIndex s = firstNonEmpty_loop (objs s) (queues s) 0"

definition SyncQueue_IsReady :: "'a sync_queue \<Rightarrow> bool" where
  "SyncQueue_IsReady s \<longleftrightarrow> firstNonEmptyQueueIndex s \<ge> 0"

definition SyncQueue_IsSpace :: "('a \<Rightarrow> int) \<Rightarrow> 'a \<Rightarrow> int \<Rightarrow> 'a sync_queue \<Rightarrow> failure + bool" where
  "SyncQueue_IsSpace sz r priority s =
     (case priority2queue s priority of
        None \<Rightarrow> Inl AssertFailed
      | Some a \<Rightarrow> Inr (SimpleQueue_IsSpaceFor (objs s ! a) (sz r)))"

subsection \<open>Waiting\<close>

text \<open>
  \<open>timeout == NULL\<close> means "do not wait"; a timeout with \<open>tv_sec == 0\<close> makes \<open>CondLock::WaitSend\<close>
  and \<open>WaitRecv\<close> call \<open>pthread_cond_wait\<close>, which never times out; any other timeout is an absolute
  time handed to \<open>pthread_cond_timedwait\<close>.
\<close>

datatype wait_mode = WaitForever | WaitUntil int int

definition CondLock_wait :: "timeval option \<Rightarrow> wait_mode" where
  "CondLock_wait timeout =
     (case timeout of
        None \<Rightarrow> WaitForever
      | Some tv \<Rightarrow> if tv_sec tv = 0 then WaitForever else WaitUntil (tv_sec tv) (tv_usec tv * 1000))"

text \<open>
  A section ends with \<open>queueLock\<close> released: either the call returns, or it waits on a condition
  variable.  \<open>SignalSend\<close> and \<open>SignalRecv\<close> are broadcasts; a section does at most one.
\<close>

datatype 'r outcome = Returns 'r | Waits

datatype signal = NoSignal | SignalRecv | SignalSend

type_synonym ('r, 'a) lock_section = "'r outcome \<times> signal \<times> 'a sync_queue"

subsection \<open>PutItem\<close>

text \<open>The \<open>while (!q->IsSpaceFor(itemSize))\<close> test and what follows it, up to the next release.\<close>

definition PutItem_section ::
  "('a \<Rightarrow> int) \<Rightarrow> 'a \<Rightarrow> timeval option \<Rightarrow> nat \<Rightarrow> 'a sync_queue \<Rightarrow> (bool, 'a) lock_section" where
  "PutItem_section sz r timeout a s =
     (let q = objs s ! a in
      if \<not> SimpleQueue_IsSpaceFor q (sz r) then
        (if timeout = None then (Returns False, NoSignal, s)
         else (Waits, NoSignal, s\<lparr>waitingWriters := waitingWriters s + 1\<rparr>))
      else (Returns True, SignalRecv, s\<lparr>objs := (objs s)[a := SimpleQueue_PutItem sz r q]\<rparr>))"

definition PutItem_enter ::
  "('a \<Rightarrow> int) \<Rightarrow> 'a \<Rightarrow> timeval option \<Rightarrow> int \<Rightarrow> 'a sync_queue \<Rightarrow> failure + (bool, 'a) lock_section" where
  "PutItem_enter sz r timeout priority s =
     (if cancel s then Inr (Returns False, NoSignal, s)
      else case priority2queue s priority of
             None \<Rightarrow> Inl AssertFailed
           | Some a \<Rightarrow> Inr (PutItem_section sz r timeout a s))"

definition PutItem_resume ::
  "('a \<Rightarrow> int) \<Rightarrow> 'a \<Rightarrow> timeval option \<Rightarrow> nat \<Rightarrow> bool \<Rightarrow> 'a sync_queue \<Rightarrow> (bool, 'a) lock_section" where
  "PutItem_resume sz r timeout a timedOut s =
     (let s' = s\<lparr>waitingWriters := waitingWriters s - 1\<rparr> in
      if cancel s' \<or> timedOut then (Returns False, NoSignal, s')
      else PutItem_section sz r timeout a s')"

text \<open>
  The whole call.  Each element of the list is one wake-up: what the other threads did to the queue
  while the caller waited, and whether the wait timed out.  An exhausted list leaves the caller
  waiting.
\<close>

fun PutItem_waits ::
  "('a \<Rightarrow> int) \<Rightarrow> 'a \<Rightarrow> timeval option \<Rightarrow> nat \<Rightarrow> (('a sync_queue \<Rightarrow> 'a sync_queue) \<times> bool) list
     \<Rightarrow> (bool, 'a) lock_section \<Rightarrow> (bool, 'a) lock_section" where
  "PutItem_waits sz r timeout a ((env, timedOut) # ws) (Waits, sig, s) =
     PutItem_waits sz r timeout a ws (PutItem_resume sz r timeout a timedOut (env s))"
| "PutItem_waits sz r timeout a ws res = res"

definition SyncQueue_PutItem ::
  "('a \<Rightarrow> int) \<Rightarrow> 'a \<Rightarrow> timeval option \<Rightarrow> int \<Rightarrow> (('a sync_queue \<Rightarrow> 'a sync_queue) \<times> bool) list
     \<Rightarrow> 'a sync_queue \<Rightarrow> failure + (bool, 'a) lock_section" where
  "SyncQueue_PutItem sz r timeout priority ws s =
     bind_result (PutItem_enter sz r timeout priority s)
       (\<lambda>res. case priority2queue s priority of
                None \<Rightarrow> Inr res
              | Some a \<Rightarrow> Inr (PutItem_waits sz r timeout a ws res))"

subsection \<open>PutItems\<close>

fun PutItems_loop :: "('a \<Rightarrow> int) \<Rightarrow> int \<Rightarrow> 'a list \<Rightarrow> int \<Rightarrow> 'a simple_queue \<Rightarrow> int \<times> 'a simple_queue" where
  "PutItems_loop sz mx [] i q = (i, q)"
| "PutItems_loop sz mx (r # rs) i q =
     (if i < mx \<and> sq_queueSize q + sz r \<le> sq_maxSize q
      then PutItems_loop sz mx rs (i + 1) (SimpleQueue_PutItem sz r q)
      else (i, q))"

definition PutItems_full :: "'a simple_queue \<Rightarrow> int \<Rightarrow> bool" where
  "PutItems_full q itemSize \<longleftrightarrow>
     (sq_maxItems q > 0 \<and> SimpleQueue_GetCurrentItems q = sq_maxItems q) \<or>
     (sq_maxSize q > 0 \<and> sq_queueSize q + itemSize > sq_maxSize q)"

definition PutItems_max :: "'a simple_queue \<Rightarrow> int \<Rightarrow> int" where
  "PutItems_max q n =
     (let m = (if sq_maxItems q > 0 then sq_maxItems q - SimpleQueue_GetCurrentItems q else 0)
      in if m = 0 \<or> m > n then n else m)"

definition PutItems_section ::
  "('a \<Rightarrow> int) \<Rightarrow> 'a list \<Rightarrow> timeval option \<Rightarrow> nat \<Rightarrow> 'a sync_queue \<Rightarrow> (int, 'a) lock_section" where
  "PutItems_section sz rs timeout a s =
     (let q = objs s ! a in
      if PutItems_full q (sz (hd rs)) then
        (if timeout = None then (Returns 0, NoSignal, s)
         else (Waits, NoSignal, s\<lparr>waitingWriters := waitingWriters s + 1\<rparr>))
      else
        let (i, q') = PutItems_loop sz (PutItems_max q (int (length rs))) rs 0 q
        in (Returns i, SignalRecv, s\<lparr>objs := (objs s)[a := q']\<rparr>))"

definition PutItems_enter ::
  "('a \<Rightarrow> int) \<Rightarrow> 'a list \<Rightarrow> timeval option \<Rightarrow> int \<Rightarrow> 'a sync_queue \<Rightarrow> failure + (int, 'a) lock_section" where
  "PutItems_enter sz rs timeout priority s =
     (if cancel s then Inr (Returns 0, NoSignal, s)
      else case priority2queue s priority of
             None \<Rightarrow> Inl AssertFailed
           | Some a \<Rightarrow> if rs = [] then Inl OutOfRange else Inr (PutItems_section sz rs timeout a s))"

definition PutItems_resume ::
  "('a \<Rightarrow> int) \<Rightarrow> 'a list \<Rightarrow> timeval option \<Rightarrow> nat \<Rightarrow> bool \<Rightarrow> 'a sync_queue \<Rightarrow> (int, 'a) lock_section" where
  "PutItems_resume sz rs timeout a timedOut s =
     (let s' = s\<lparr>waitingWriters := waitingWriters s - 1\<rparr> in
      if cancel s' \<or> timedOut then (Returns 0, NoSignal, s')
      else PutItems_section sz rs timeout a s')"

subsection \<open>GetItem\<close>

definition GetItem_section ::
  "('a \<Rightarrow> int) \<Rightarrow> timeval option \<Rightarrow> 'a sync_queue \<Rightarrow> ('a option, 'a) lock_section" where
  "GetItem_section sz timeout s =
     (if firstNonEmptyQueueIndex s < 0 then
        (if timeout = None then (Returns None, NoSignal, s)
         else (Waits, NoSignal, s\<lparr>waitingReaders := waitingReaders s + 1\<rparr>))
      else
        let a = queues s ! nat (firstNonEmptyQueueIndex s);
            (r, q') = SimpleQueue_GetItem sz (objs s ! a)
        in (Returns r, SignalSend, s\<lparr>objs := (objs s)[a := q']\<rparr>))"

definition GetItem_enter ::
  "('a \<Rightarrow> int) \<Rightarrow> timeval option \<Rightarrow> 'a sync_queue \<Rightarrow> ('a option, 'a) lock_section" where
  "GetItem_enter sz timeout s =
     (if cancel s then (Returns None, NoSignal, s) else GetItem_section sz timeout s)"

definition GetItem_resume ::
  "('a \<Rightarrow> int) \<Rightarrow> timeval option \<Rightarrow> bool \<Rightarrow> 'a sync_queue \<Rightarrow> ('a option, 'a) lock_section" where
  "GetItem_resume sz timeout timedOut s =
     (let s' = s\<lparr>waitingReaders := waitingReaders s - 1\<rparr> in
      if cancel s' \<or> timedOut then (Returns None, NoSignal, s')
      else GetItem_section sz timeout s')"

fun GetItem_waits ::
  "('a \<Rightarrow> int) \<Rightarrow> timeval option \<Rightarrow> (('a sync_queue \<Rightarrow> 'a sync_queue) \<times> bool) list
     \<Rightarrow> ('a option, 'a) lock_section \<Rightarrow> ('a option, 'a) lock_section" where
  "GetItem_waits sz timeout ((env, timedOut) # ws) (Waits, sig, s) =
     GetItem_waits sz timeout ws (GetItem_resume sz timeout timedOut (env s))"
| "GetItem_waits sz timeout ws res = res"

definition SyncQueue_GetItem ::
  "('a \<Rightarrow> int) \<Rightarrow> timeval option \<Rightarrow> (('a sync_queue \<Rightarrow> 'a sync_queue) \<times> bool) list
     \<Rightarrow> 'a sync_queue \<Rightarrow> ('a option, 'a) lock_section" where
  "SyncQueue_GetItem sz timeout ws s = GetItem_waits sz timeout ws (GetItem_enter sz timeout s)"

subsection \<open>GetItems\<close>

text \<open>The inner \<^verbatim>\<open>while\<close>: at most \<open>n\<close> items are taken from one sub-queue.\<close>

fun take_items :: "('q \<Rightarrow> 'a option \<times> 'q) \<Rightarrow> nat \<Rightarrow> 'q \<Rightarrow> 'a list \<times> 'q" where
  "take_items get 0 q = ([], q)"
| "take_items get (Suc n) q =
     (case get q of
        (None, q') \<Rightarrow> ([], q')
      | (Some r, q') \<Rightarrow> (let (rs, q'') = take_items get n q' in (r # rs, q'')))"

fun GetItems_loop ::
  "('a \<Rightarrow> int) \<Rightarrow> nat \<Rightarrow> nat list \<Rightarrow> 'a simple_queue list \<Rightarrow> 'a list \<times> 'a simple_queue list" where
  "GetItems_loop sz n [] os = ([], os)"
| "GetItems_loop sz n (a # as) os =
     (let (rs, q') = take_items (SimpleQueue_GetItem sz) n (os ! a);
          (rs', os') = GetItems_loop sz (n - length rs) as (os[a := q'])
      in (rs @ rs', os'))"

definition GetItems_section ::
  "('a \<Rightarrow> int) \<Rightarrow> nat \<Rightarrow> timeval option \<Rightarrow> 'a sync_queue \<Rightarrow> ('a list, 'a) lock_section" where
  "GetItems_section sz n timeout s =
     (if firstNonEmptyQueueIndex s < 0 then
        (if timeout = None then (Returns [], NoSignal, s)
         else (Waits, NoSignal, s\<lparr>waitingReaders := waitingReaders s + 1\<rparr>))
      else
        let (rs, os) = GetItems_loop sz n (queues s) (objs s)
        in (Returns rs, SignalSend, s\<lparr>objs := os\<rparr>))"

definition GetItems_enter ::
  "('a \<Rightarrow> int) \<Rightarrow> nat \<Rightarrow> timeval option \<Rightarrow> 'a sync_queue \<Rightarrow> ('a list, 'a) lock_section" where
  "GetItems_enter sz n timeout s =
     (if cancel s then (Returns [], NoSignal, s) else GetItems_section sz n timeout s)"

definition GetItems_resume ::
  "('a \<Rightarrow> int) \<Rightarrow> nat \<Rightarrow> timeval option \<Rightarrow> bool \<Rightarrow> 'a sync_queue \<Rightarrow> ('a list, 'a) lock_section" where
  "GetItems_resume sz n timeout timedOut s =
     (let s' = s\<lparr>waitingReaders := waitingReaders s - 1\<rparr> in
      if cancel s' \<or> timedOut then (Returns [], NoSignal, s')
      else GetItems_section sz n timeout s')"

subsection \<open>Start and Stop\<close>

text \<open>
  \<open>Stop\<close> sets \<open>cancel\<close> and then waits, with the lock released in between, until no reader and then
  no writer waits; the last section deletes the items.  \<open>Stop_section\<close> runs from one acquisition of
  the lock to the next release; \<open>StopReaders\<close> and \<open>StopWriters\<close> are the two loops.
\<close>

datatype stop_phase = StopReaders | StopWriters

definition SyncQueue_deleteAll :: "'a sync_queue \<Rightarrow> 'a sync_queue" where
  "SyncQueue_deleteAll s = s\<lparr>objs := map SimpleQueue_deleteAllItems (objs s)\<rparr>"

definition Stop_begin :: "'a sync_queue \<Rightarrow> 'a sync_queue" where
  "Stop_begin s = s\<lparr>cancel := True\<rparr>"

definition Stop_section :: "stop_phase \<Rightarrow> 'a sync_queue \<Rightarrow> stop_phase option \<times> signal \<times> 'a sync_queue" where
  "Stop_section ph s =
     (if ph = StopReaders \<and> waitingReaders s > 0 then (Some StopReaders, SignalRecv, s)
      else if waitingWriters s > 0 then (Some StopWriters, SignalSend, s)
      else (None, NoSignal, SyncQueue_deleteAll s))"

definition SyncQueue_Start :: "'a sync_queue \<Rightarrow> 'a sync_queue" where
  "SyncQueue_Start s = s\<lparr>cancel := False\<rparr>"

declare SyncQueue_new_def [sync_queue_defs] SyncQueue_hasQueue_def [sync_queue_defs]
  SyncQueue_GetQueuesCount_def [sync_queue_defs] SyncQueue_queueItems_def [sync_queue_defs]
  firstNonEmptyQueueIndex_def [sync_queue_defs] SyncQueue_IsReady_def [sync_queue_defs]
  SyncQueue_IsSpace_def [sync_queue_defs]
  PutItem_section_def [sync_queue_defs] PutItem_enter_def [sync_queue_defs]
  PutItem_resume_def [sync_queue_defs] GetItem_section_def [sync_queue_defs]
  GetItem_enter_def [sync_queue_defs] GetItem_resume_def [sync_queue_defs]
  PutItems_section_def [sync_queue_defs] PutItems_enter_def [sync_queue_defs]
  PutItems_resume_def [sync_queue_defs] GetItems_section_def [sync_queue_defs]
  GetItems_enter_def [sync_queue_defs] GetItems_resume_def [sync_queue_defs]
  SyncQueue_deleteAll_def [sync_queue_defs] Stop_begin_def [sync_queue_defs]
  Stop_section_def [sync_queue_defs] SyncQueue_Start_def [sync_queue_defs]

section \<open>The FIFO contract of a sub-queue\<close>

text \<open>
  What \<open>SyncQueue\<close> relies on: a sub-queue is a list, \<open>put\<close> appends to it and \<open>get\<close> takes its head.
  The batch loops are verified against this contract once, and \<open>SimpleQueue\<close> is shown to keep it.
\<close>

locale fifo_queue =
  fixes put :: "'a \<Rightarrow> 'q \<Rightarrow> 'q"
    and get :: "'q \<Rightarrow> 'a option \<times> 'q"
    and content :: "'q \<Rightarrow> 'a list"
  assumes content_put: "content (put x q) = content q @ [x]"
    and get_empty: "content q = [] \<Longrightarrow> get q = (None, q)"
    and get_head: "content q = x # xs \<Longrightarrow> \<exists>q'. get q = (Some x, q') \<and> content q' = xs"
begin

lemma content_fold_put: "content (fold put xs q) = content q @ xs"
  by (induction xs arbitrary: q) (auto simp: content_put)

lemma take_items_fifo:
  "fst (take_items get n q) = take n (content q) \<and>
   content (snd (take_items get n q)) = drop n (content q)"
proof (induction n arbitrary: q)
  case 0
  then show ?case by simp
next
  case (Suc n)
  show ?case
  proof (cases "content q")
    case Nil
    then show ?thesis by (simp add: get_empty)
  next
    case (Cons x xs)
    then obtain q' where "get q = (Some x, q')" "content q' = xs" using get_head by blast
    then show ?thesis using Suc.IH [of q'] Cons by (simp add: split_beta)
  qed
qed

lemma put_then_take:
  "content q = [] \<Longrightarrow> fst (take_items get (length xs) (fold put xs q)) = xs"
  by (simp add: take_items_fifo content_fold_put)

end

text \<open>Accounting: the queue keeps a running total of the sizes of its items.\<close>

locale accounted_queue = fifo_queue put get content
  for put :: "'a \<Rightarrow> 'q \<Rightarrow> 'q" and get :: "'q \<Rightarrow> 'a option \<times> 'q" and content :: "'q \<Rightarrow> 'a list" +
  fixes sz :: "'a \<Rightarrow> int" and used :: "'q \<Rightarrow> int"
  assumes used_put: "used (put x q) = used q + sz x"
    and used_get: "get q = (Some x, q') \<Longrightarrow> used q' = used q - sz x"
begin

lemma surplus_put:
  "used (put x q) - sum_list (map sz (content (put x q))) =
   used q - sum_list (map sz (content q))"
  by (simp add: used_put content_put)

lemma surplus_take_items:
  "used (snd (take_items get n q)) - sum_list (map sz (content (snd (take_items get n q)))) =
   used q - sum_list (map sz (content q))"
proof (induction n arbitrary: q)
  case 0
  then show ?case by simp
next
  case (Suc n)
  show ?case
  proof (cases "content q")
    case Nil
    then show ?thesis by (simp add: get_empty)
  next
    case (Cons x xs)
    then obtain q' where q': "get q = (Some x, q')" "content q' = xs" using get_head by blast
    then show ?thesis using Suc.IH [of q'] Cons used_get [OF q'(1)] by (simp add: split_beta)
  qed
qed

end

interpretation sq: accounted_queue "SimpleQueue_PutItem sz" "SimpleQueue_GetItem sz" sq_queue sz sq_queueSize
  for sz :: "'a \<Rightarrow> int"
  by unfold_locales (auto simp: simple_queue_defs split: list.splits)

section \<open>The invariant of a sub-queue\<close>

text \<open>
  Both limits are respected, and the recorded size is never below the size of what is queued.  It
  is not in general equal to it: see \<open>deleteAllItems\<close> below.
\<close>

definition simple_queue_ok :: "('a \<Rightarrow> int) \<Rightarrow> 'a simple_queue \<Rightarrow> bool" where
  "simple_queue_ok sz q \<longleftrightarrow>
     (sq_maxItems q \<noteq> 0 \<longrightarrow> int (length (sq_queue q)) \<le> max 0 (sq_maxItems q)) \<and>
     (sq_maxSize q \<noteq> 0 \<longrightarrow> sq_queueSize q \<le> max 0 (sq_maxSize q)) \<and>
     sum_list (map sz (sq_queue q)) \<le> sq_queueSize q"

lemma simple_queue_ok_new: "simple_queue_ok sz (SimpleQueue_new p mi ms)"
  by (simp add: simple_queue_ok_def simple_queue_defs)

lemma simple_queue_ok_put:
  "simple_queue_ok sz q \<Longrightarrow> SimpleQueue_IsSpaceFor q (sz r) \<Longrightarrow> simple_queue_ok sz (SimpleQueue_PutItem sz r q)"
  by (auto simp: simple_queue_ok_def simple_queue_defs)

lemma simple_queue_ok_get:
  assumes "\<forall>x. 0 \<le> sz x" and "simple_queue_ok sz q"
  shows "simple_queue_ok sz (snd (SimpleQueue_GetItem sz q))"
proof (cases "sq_queue q")
  case (Cons r rest)
  then show ?thesis using assms(1) [rule_format, of r] assms(2)
    by (auto simp: simple_queue_ok_def simple_queue_defs)
qed (use assms in \<open>simp add: simple_queue_defs\<close>)

lemma simple_queue_ok_deleteAll:
  assumes "\<forall>x. 0 \<le> sz x" and "simple_queue_ok sz q"
  shows "simple_queue_ok sz (SimpleQueue_deleteAllItems q)"
  using assms sum_list_nonneg_int [of "sq_queue q" sz]
  by (auto simp: simple_queue_ok_def simple_queue_defs)

lemma take_items_preserves:
  assumes "\<And>q. f (snd (get q)) = f q"
  shows "f (snd (take_items get n q)) = f q"
proof (induction n arbitrary: q)
  case (Suc n)
  obtain r q' where g: "get q = (r, q')" by (cases "get q")
  show ?case
  proof (cases r)
    case None
    then show ?thesis using assms [of q] g by simp
  next
    case (Some x)
    then show ?thesis using assms [of q] g Suc.IH [of q'] by (simp add: split_beta)
  qed
qed simp

lemma SimpleQueue_GetItem_frame [simp]:
  "sq_priority (snd (SimpleQueue_GetItem sz q)) = sq_priority q"
  "sq_maxItems (snd (SimpleQueue_GetItem sz q)) = sq_maxItems q"
  "sq_maxSize (snd (SimpleQueue_GetItem sz q)) = sq_maxSize q"
  by (simp_all add: SimpleQueue_GetItem_def split: list.splits)

lemma take_items_frame [simp]:
  "sq_priority (snd (take_items (SimpleQueue_GetItem sz) n q)) = sq_priority q"
  "sq_maxItems (snd (take_items (SimpleQueue_GetItem sz) n q)) = sq_maxItems q"
  "sq_maxSize (snd (take_items (SimpleQueue_GetItem sz) n q)) = sq_maxSize q"
  by (rule take_items_preserves, simp)+

lemma simple_queue_ok_take_items:
  assumes "\<forall>x. 0 \<le> sz x" and "simple_queue_ok sz q"
  shows "simple_queue_ok sz (snd (take_items (SimpleQueue_GetItem sz) n q))"
proof -
  let ?q = "snd (take_items (SimpleQueue_GetItem sz) n q)"
  have content: "sq_queue ?q = drop n (sq_queue q)" using sq.take_items_fifo by blast
  have surplus: "sq_queueSize ?q - sum_list (map sz (sq_queue ?q)) =
      sq_queueSize q - sum_list (map sz (sq_queue q))" by (rule sq.surplus_take_items)
  have "sum_list (map sz (take n (sq_queue q))) + sum_list (map sz (drop n (sq_queue q))) =
      sum_list (map sz (sq_queue q))"
    by (metis append_take_drop_id map_append sum_list_append)
  moreover have "0 \<le> sum_list (map sz (take n (sq_queue q)))" by (rule sum_list_nonneg_int) (simp add: assms(1))
  ultimately show ?thesis using assms(2) surplus content
    by (auto simp: simple_queue_ok_def)
qed

section \<open>The invariant of SyncQueue\<close>

abbreviation prio_at :: "'a sync_queue \<Rightarrow> nat \<Rightarrow> int" where
  "prio_at s a \<equiv> sq_priority (objs s ! a)"

text \<open>
  The vector enumerates the objects in strictly descending priority, and the hash finds the object
  of each priority.
\<close>

definition sync_queue_wf :: "'a sync_queue \<Rightarrow> bool" where
  "sync_queue_wf s \<longleftrightarrow>
     set (queues s) = {..<length (objs s)} \<and> distinct (queues s) \<and>
     sorted_wrt (\<lambda>a b. prio_at s a > prio_at s b) (queues s) \<and>
     (\<forall>p a. priority2queue s p = Some a \<longleftrightarrow> a < length (objs s) \<and> prio_at s a = p)"

definition sync_queue_ok :: "('a \<Rightarrow> int) \<Rightarrow> 'a sync_queue \<Rightarrow> bool" where
  "sync_queue_ok sz s \<longleftrightarrow> sync_queue_wf s \<and> (\<forall>q\<in>set (objs s). simple_queue_ok sz q)"

lemma sync_queue_wfD:
  assumes "sync_queue_wf s" and "priority2queue s p = Some a"
  shows "a < length (objs s)" and "prio_at s a = p" and "a \<in> set (queues s)"
  using assms by (auto simp: sync_queue_wf_def)

lemma sync_queue_wf_lookup:
  assumes "sync_queue_wf s" and "a < length (objs s)"
  shows "priority2queue s (prio_at s a) = Some a"
  using assms by (simp add: sync_queue_wf_def)

text \<open>The shape depends on the objects through their priorities only.\<close>

lemma sync_queue_wf_cong:
  assumes "map sq_priority (objs s') = map sq_priority (objs s)"
    and "queues s' = queues s" and "priority2queue s' = priority2queue s"
  shows "sync_queue_wf s' = sync_queue_wf s"
proof -
  have len: "length (objs s') = length (objs s)" using assms(1) by (metis length_map)
  have nth: "a < length (objs s) \<Longrightarrow> prio_at s' a = prio_at s a" for a
    using assms(1) len by (metis nth_map)
  have "set (queues s) = {..<length (objs s)} \<Longrightarrow>
      sorted_wrt (\<lambda>a b. prio_at s' a > prio_at s' b) (queues s) =
      sorted_wrt (\<lambda>a b. prio_at s a > prio_at s b) (queues s)"
    by (auto intro: sorted_wrt_mono_rel [rotated] simp: nth)
  then show ?thesis using assms len nth by (auto simp: sync_queue_wf_def)
qed

lemma sync_queue_ok_update:
  assumes "sync_queue_ok sz s" and "simple_queue_ok sz q"
    and "sq_priority q = prio_at s a"
    and "objs s' = (objs s)[a := q]" and "queues s' = queues s"
    and "priority2queue s' = priority2queue s"
  shows "sync_queue_ok sz s'"
proof (cases "a < length (objs s)")
  case True
  have "map sq_priority (objs s') = map sq_priority (objs s)"
    using assms(3,4) by (simp add: map_update list_update_same_conv True)
  then have "sync_queue_wf s'" using assms sync_queue_wf_cong [of s' s]
    by (simp add: sync_queue_ok_def)
  moreover have "\<forall>q\<in>set (objs s'). simple_queue_ok sz q"
    using assms(1,2,4) set_update_subset_insert [of "objs s" a q] by (auto simp: sync_queue_ok_def)
  ultimately show ?thesis by (simp add: sync_queue_ok_def)
next
  case False
  then have "objs s' = objs s" using assms(4) by (simp add: list_update_beyond)
  then show ?thesis using assms sync_queue_wf_cong [of s' s] by (simp add: sync_queue_ok_def)
qed

lemma sync_queue_ok_frame:
  "sync_queue_ok sz s \<Longrightarrow> objs s' = objs s \<Longrightarrow> queues s' = queues s \<Longrightarrow>
   priority2queue s' = priority2queue s \<Longrightarrow> sync_queue_ok sz s'"
  using sync_queue_wf_cong [of s' s] by (simp add: sync_queue_ok_def)

section \<open>addQueue\<close>

lemma sort_key_neg_sorted:
  assumes "inj_on k (set xs)" and "distinct xs"
  shows "sorted_wrt (\<lambda>a b. k a > (k b :: int)) (sort_key (\<lambda>x. - k x) xs)"
proof -
  let ?ys = "sort_key (\<lambda>x. - k x) xs"
  have "sorted_wrt (\<lambda>a b. - k a \<le> - k b) ?ys"
    using sorted_sort_key [of "\<lambda>x. - k x" xs] by (simp add: sorted_map)
  moreover have "distinct ?ys" using assms(2) by simp
  ultimately have "sorted_wrt (\<lambda>a b. - k a \<le> - k b \<and> a \<noteq> b) ?ys"
    by (simp add: sorted_wrt_iff_nth_less nth_eq_iff_index_eq)
  moreover have "a \<in> set ?ys \<Longrightarrow> b \<in> set ?ys \<Longrightarrow> - k a \<le> - k b \<and> a \<noteq> b \<Longrightarrow> k a > k b" for a b
    using assms(1) by (auto simp: inj_on_def order.order_iff_strict)
  ultimately show ?thesis by (rule sorted_wrt_mono_rel [rotated])
qed

lemma sync_queue_wf_inj: "sync_queue_wf s \<Longrightarrow> inj_on (prio_at s) {..<length (objs s)}"
  by (auto simp: sync_queue_wf_def intro!: inj_onI) (metis option.inject)

lemma addQueue_wf:
  assumes wf: "sync_queue_wf s" and add: "SyncQueue_addQueue p mi ms s = Inr s'"
  shows "sync_queue_wf s'"
proof -
  let ?a = "length (objs s)"
  let ?os = "objs s @ [SimpleQueue_new p mi ms]"
  have fresh: "priority2queue s p = None"
    and s': "s' = s\<lparr>objs := ?os, priority2queue := (priority2queue s)(p \<mapsto> ?a),
                 queues := sort_key (\<lambda>b. - sq_priority (?os ! b)) (queues s @ [?a])\<rparr>"
    using add by (auto simp: SyncQueue_addQueue_def Let_def split: if_splits)
  have old: "b < ?a \<Longrightarrow> sq_priority (?os ! b) = prio_at s b" for b by (simp add: nth_append)
  have new: "sq_priority (?os ! ?a) = p" by (simp add: SimpleQueue_new_def)
  have notp: "\<forall>b<?a. prio_at s b \<noteq> p" using sync_queue_wf_lookup [OF wf] fresh by force
  have inj: "inj_on (\<lambda>b. sq_priority (?os ! b)) (set (queues s @ [?a]))"
  proof -
    have "set (queues s @ [?a]) = insert ?a {..<?a}" using wf by (simp add: sync_queue_wf_def)
    moreover have "inj_on (\<lambda>b. sq_priority (?os ! b)) {..<?a}"
      using sync_queue_wf_inj [OF wf] by (simp add: inj_on_def old)
    ultimately show ?thesis using new old notp by (auto simp: inj_on_def)
  qed
  have qs: "queues s' = sort_key (\<lambda>b. - sq_priority (?os ! b)) (queues s @ [?a])" by (simp add: s')
  have "distinct (queues s @ [?a])" using wf by (simp add: sync_queue_wf_def)
  from sort_key_neg_sorted [OF inj this]
  have "sorted_wrt (\<lambda>a b. sq_priority (?os ! a) > sq_priority (?os ! b)) (queues s')"
    unfolding qs .
  then show ?thesis using wf notp old new
    by (auto simp: sync_queue_wf_def s' nth_append SimpleQueue_new_def less_Suc_eq)
qed

lemma addQueue_ok:
  assumes "sync_queue_ok sz s" and "SyncQueue_addQueue p mi ms s = Inr s'"
  shows "sync_queue_ok sz s'"
proof -
  have "objs s' = objs s @ [SimpleQueue_new p mi ms]"
    using assms(2) by (auto simp: SyncQueue_addQueue_def Let_def split: if_splits)
  then show ?thesis using assms addQueue_wf simple_queue_ok_new [of sz p mi ms]
    by (auto simp: sync_queue_ok_def)
qed

lemma SyncQueue_new_ok: "sync_queue_ok sz SyncQueue_new"
  by (simp add: sync_queue_ok_def sync_queue_wf_def SyncQueue_new_def)

section \<open>firstNonEmptyQueueIndex\<close>

lemma firstNonEmpty_loop_neg:
  "0 \<le> i \<Longrightarrow> firstNonEmpty_loop os as i < 0 \<longleftrightarrow> (\<forall>a\<in>set as. sq_queue (os ! a) = [])"
  by (induction as arbitrary: i) (auto simp: SimpleQueue_GetCurrentItems_def)

lemma firstNonEmpty_loop_nonneg:
  assumes "0 \<le> i" and "0 \<le> firstNonEmpty_loop os as i"
  shows "\<exists>us a vs. as = us @ a # vs \<and> (\<forall>u\<in>set us. sq_queue (os ! u) = []) \<and> sq_queue (os ! a) \<noteq> [] \<and>
           firstNonEmpty_loop os as i = i + int (length us)"
  using assms
proof (induction as arbitrary: i)
  case (Cons b as)
  show ?case
  proof (cases "sq_queue (os ! b) = []")
    case True
    then have step: "firstNonEmpty_loop os (b # as) i = firstNonEmpty_loop os as (i + 1)"
      by (simp add: SimpleQueue_GetCurrentItems_def)
    then obtain us a vs where "as = us @ a # vs" "\<forall>u\<in>set us. sq_queue (os ! u) = []"
        "sq_queue (os ! a) \<noteq> []" "firstNonEmpty_loop os as (i + 1) = (i + 1) + int (length us)"
      using Cons.IH [of "i + 1"] Cons.prems by auto
    then have "b # as = (b # us) @ a # vs \<and> (\<forall>u\<in>set (b # us). sq_queue (os ! u) = []) \<and>
        sq_queue (os ! a) \<noteq> [] \<and> firstNonEmpty_loop os (b # as) i = i + int (length (b # us))"
      using True step by simp
    then show ?thesis by blast
  next
    case False
    then have "b # as = [] @ b # as \<and> (\<forall>u\<in>set []. sq_queue (os ! u) = []) \<and>
        sq_queue (os ! b) \<noteq> [] \<and> firstNonEmpty_loop os (b # as) i = i + int (length [])"
      by (simp add: SimpleQueue_GetCurrentItems_def)
    then show ?thesis by blast
  qed
qed simp

lemma firstNonEmptyQueueIndex_neg:
  "firstNonEmptyQueueIndex s < 0 \<longleftrightarrow> (\<forall>a\<in>set (queues s). sq_queue (objs s ! a) = [])"
  by (simp add: firstNonEmptyQueueIndex_def firstNonEmpty_loop_neg)

lemma firstNonEmptyQueueIndex_nonneg:
  assumes "0 \<le> firstNonEmptyQueueIndex s"
  obtains us a vs where "queues s = us @ a # vs" and "\<forall>u\<in>set us. sq_queue (objs s ! u) = []"
    and "sq_queue (objs s ! a) \<noteq> []" and "queues s ! nat (firstNonEmptyQueueIndex s) = a"
proof -
  obtain us a vs where d: "queues s = us @ a # vs" "\<forall>u\<in>set us. sq_queue (objs s ! u) = []"
      "sq_queue (objs s ! a) \<noteq> []" "firstNonEmptyQueueIndex s = 0 + int (length us)"
    using firstNonEmpty_loop_nonneg [of 0 "objs s" "queues s"] assms
    by (auto simp: firstNonEmptyQueueIndex_def)
  then have "queues s ! nat (firstNonEmptyQueueIndex s) = a" by simp
  then show ?thesis using that d by blast
qed

section \<open>The queue as a family of lists\<close>

text \<open>The abstract state: for each priority, the items queued under it.\<close>

definition queue_content :: "'a sync_queue \<Rightarrow> int \<Rightarrow> 'a list" where
  "queue_content s p = (case priority2queue s p of None \<Rightarrow> [] | Some a \<Rightarrow> sq_queue (objs s ! a))"

text \<open>Abstract operations: \<open>None\<close> when the operation cannot take effect now.\<close>

definition spec_put :: "int \<Rightarrow> 'a \<Rightarrow> (int \<Rightarrow> 'a list) \<Rightarrow> (int \<Rightarrow> 'a list)" where
  "spec_put p r c = c(p := c p @ [r])"

definition spec_get :: "(int \<Rightarrow> 'a list) \<Rightarrow> 'a \<Rightarrow> (int \<Rightarrow> 'a list) \<Rightarrow> bool" where
  "spec_get c r c' \<longleftrightarrow> (\<exists>p. c p = r # c' p \<and> (\<forall>p'>p. c p' = []) \<and> (\<forall>p'. p' \<noteq> p \<longrightarrow> c' p' = c p'))"

lemma queue_content_upd:
  assumes "sync_queue_wf s" and "priority2queue s p = Some a"
    and "objs s' = (objs s)[a := q]" and "priority2queue s' = priority2queue s"
  shows "queue_content s' = (queue_content s)(p := sq_queue q)"
proof
  fix p'
  show "queue_content s' p' = ((queue_content s)(p := sq_queue q)) p'"
  proof (cases "p' = p")
    case True
    then show ?thesis using assms sync_queue_wfD(1) [OF assms(1,2)] by (simp add: queue_content_def)
  next
    case False
    then have "priority2queue s p' \<noteq> Some a" using sync_queue_wfD(2) [OF assms(1)] assms(2) by blast
    then show ?thesis using False assms(3,4)
      by (auto simp: queue_content_def split: option.splits)
  qed
qed

lemma queue_content_empty_iff:
  "sync_queue_wf s \<Longrightarrow> (\<forall>a\<in>set (queues s). sq_queue (objs s ! a) = []) \<longleftrightarrow> (\<forall>p. queue_content s p = [])"
  by (auto simp: sync_queue_wf_def queue_content_def split: option.splits)

lemma PutItem_section_content:
  assumes wf: "sync_queue_wf s" and a: "priority2queue s p = Some a"
    and put: "PutItem_section sz r t a s = (Returns True, sig, s')"
  shows "queue_content s' = spec_put p r (queue_content s)"
proof -
  have "objs s' = (objs s)[a := SimpleQueue_PutItem sz r (objs s ! a)]"
    and "priority2queue s' = priority2queue s"
    using put by (auto simp: PutItem_section_def Let_def split: if_splits)
  then show ?thesis using queue_content_upd [OF wf a] a
    by (simp add: spec_put_def queue_content_def [of s] SimpleQueue_PutItem_def)
qed

lemma GetItem_section_content:
  assumes wf: "sync_queue_wf s"
    and get: "GetItem_section sz t s = (Returns (Some r), sig, s')"
  shows "spec_get (queue_content s) r (queue_content s')"
proof -
  have ready: "0 \<le> firstNonEmptyQueueIndex s"
    using get by (auto simp: GetItem_section_def split: if_splits)
  then obtain us a vs where d: "queues s = us @ a # vs" "\<forall>u\<in>set us. sq_queue (objs s ! u) = []"
      "sq_queue (objs s ! a) \<noteq> []" "queues s ! nat (firstNonEmptyQueueIndex s) = a"
    by (rule firstNonEmptyQueueIndex_nonneg)
  let ?p = "prio_at s a"
  have pa: "priority2queue s ?p = Some a" using wf d(1) by (auto simp: sync_queue_wf_def)
  obtain rest where rest: "sq_queue (objs s ! a) = r # rest" "objs s' = (objs s)[a :=
      (objs s ! a)\<lparr>sq_queue := rest, sq_queueSize := sq_queueSize (objs s ! a) - sz r\<rparr>]"
      "priority2queue s' = priority2queue s"
    using get ready d(3,4)
    by (auto simp: GetItem_section_def Let_def SimpleQueue_GetItem_def split: if_splits list.splits)
  have upd: "queue_content s' = (queue_content s)(?p := rest)"
    using queue_content_upd [OF wf pa rest(2,3)] by simp
  have higher: "queue_content s p' = []" if "p' > ?p" for p'
  proof (cases "priority2queue s p'")
    case (Some b)
    then have b: "prio_at s b = p'" "b \<in> set (queues s)" using wf by (auto simp: sync_queue_wf_def)
    have "b \<notin> set (a # vs)" using wf d(1) b(1) that by (auto simp: sync_queue_wf_def sorted_wrt_append)
    then have "b \<in> set us" using b(2) d(1) by auto
    then show ?thesis using d(2) Some by (simp add: queue_content_def)
  qed (simp add: queue_content_def)
  show ?thesis unfolding spec_get_def
  proof (intro exI conjI allI impI)
    show "queue_content s ?p = r # queue_content s' ?p"
      using upd rest(1) pa by (simp add: queue_content_def [of s])
  qed (use higher upd in auto)
qed

section \<open>Every section keeps the invariant\<close>

lemma PutItem_section_ok:
  assumes "sync_queue_ok sz s" and "a < length (objs s)"
    and "PutItem_section sz r t a s = (res, sig, s')"
  shows "sync_queue_ok sz s'"
proof (cases "SimpleQueue_IsSpaceFor (objs s ! a) (sz r)")
  case True
  have "simple_queue_ok sz (SimpleQueue_PutItem sz r (objs s ! a))"
    using assms(1,2) True by (auto simp: sync_queue_ok_def intro: simple_queue_ok_put)
  moreover have "sq_priority (SimpleQueue_PutItem sz r (objs s ! a)) = prio_at s a"
    by (simp add: SimpleQueue_PutItem_def)
  moreover have "objs s' = (objs s)[a := SimpleQueue_PutItem sz r (objs s ! a)]"
      "queues s' = queues s" "priority2queue s' = priority2queue s"
    using assms(3) True by (auto simp: PutItem_section_def)
  ultimately show ?thesis by (rule sync_queue_ok_update [OF assms(1)])
next
  case False
  then have "objs s' = objs s" "queues s' = queues s" "priority2queue s' = priority2queue s"
    using assms(3) by (auto simp: PutItem_section_def split: if_splits)
  then show ?thesis by (rule sync_queue_ok_frame [OF assms(1)])
qed

lemma PutItem_enter_ok:
  assumes "sync_queue_ok sz s" and "PutItem_enter sz r t p s = Inr (res, sig, s')"
  shows "sync_queue_ok sz s'"
  using assms PutItem_section_ok [OF assms(1)] sync_queue_wfD(1) [of s p]
  by (auto simp: PutItem_enter_def sync_queue_ok_def split: if_splits option.splits)

lemma PutItem_resume_ok:
  assumes "sync_queue_ok sz s" and "a < length (objs s)"
    and "PutItem_resume sz r t a timedOut s = (res, sig, s')"
  shows "sync_queue_ok sz s'"
proof -
  let ?s = "s\<lparr>waitingWriters := waitingWriters s - 1\<rparr>"
  have "sync_queue_ok sz ?s" by (rule sync_queue_ok_frame [OF assms(1)]) simp_all
  then show ?thesis using assms(2,3) PutItem_section_ok [of sz ?s a r t]
    by (auto simp: PutItem_resume_def Let_def split: if_splits)
qed

lemma GetItem_section_ok:
  assumes "\<forall>x. 0 \<le> sz x" and "sync_queue_ok sz s" and "GetItem_section sz t s = (res, sig, s')"
  shows "sync_queue_ok sz s'"
proof (cases "firstNonEmptyQueueIndex s < 0")
  case True
  then have "objs s' = objs s" "queues s' = queues s" "priority2queue s' = priority2queue s"
    using assms(3) by (auto simp: GetItem_section_def split: if_splits)
  then show ?thesis by (rule sync_queue_ok_frame [OF assms(2)])
next
  case False
  define a where "a = queues s ! nat (firstNonEmptyQueueIndex s)"
  have "a \<in> set (queues s)" using False unfolding a_def
    by (metis firstNonEmptyQueueIndex_nonneg in_set_conv_decomp not_le)
  then have "objs s ! a \<in> set (objs s)" using assms(2) by (auto simp: sync_queue_ok_def sync_queue_wf_def)
  then have "simple_queue_ok sz (snd (SimpleQueue_GetItem sz (objs s ! a)))"
    using assms(1,2) by (auto simp: sync_queue_ok_def intro: simple_queue_ok_get)
  moreover have "objs s' = (objs s)[a := snd (SimpleQueue_GetItem sz (objs s ! a))]"
      "queues s' = queues s" "priority2queue s' = priority2queue s"
    using assms(3) False by (auto simp: GetItem_section_def a_def Let_def split: prod.splits)
  ultimately show ?thesis by (rule sync_queue_ok_update [OF assms(2) _ SimpleQueue_GetItem_frame(1)])
qed

lemma GetItem_enter_ok:
  assumes "\<forall>x. 0 \<le> sz x" and "sync_queue_ok sz s" and "GetItem_enter sz t s = (res, sig, s')"
  shows "sync_queue_ok sz s'"
  using assms(2,3) GetItem_section_ok [OF assms(1,2)] by (auto simp: GetItem_enter_def split: if_splits)

lemma GetItem_resume_ok:
  assumes "\<forall>x. 0 \<le> sz x" and "sync_queue_ok sz s" and "GetItem_resume sz t timedOut s = (res, sig, s')"
  shows "sync_queue_ok sz s'"
proof -
  let ?s = "s\<lparr>waitingReaders := waitingReaders s - 1\<rparr>"
  have "sync_queue_ok sz ?s" by (rule sync_queue_ok_frame [OF assms(2)]) simp_all
  then show ?thesis using assms(3) GetItem_section_ok [OF assms(1), of ?s t]
    by (auto simp: GetItem_resume_def Let_def split: if_splits)
qed

lemma deleteAll_ok:
  assumes "\<forall>x. 0 \<le> sz x" and "sync_queue_ok sz s"
  shows "sync_queue_ok sz (SyncQueue_deleteAll s)"
proof -
  have "sync_queue_wf (SyncQueue_deleteAll s) = sync_queue_wf s"
    by (rule sync_queue_wf_cong)
       (simp_all add: SyncQueue_deleteAll_def SimpleQueue_deleteAllItems_def)
  then show ?thesis using assms simple_queue_ok_deleteAll [OF assms(1)]
    by (auto simp: sync_queue_ok_def SyncQueue_deleteAll_def)
qed

lemma Stop_section_ok:
  assumes "\<forall>x. 0 \<le> sz x" and "sync_queue_ok sz s" and "Stop_section ph s = (res, sig, s')"
  shows "sync_queue_ok sz s'"
  using assms deleteAll_ok [OF assms(1,2)] by (auto simp: Stop_section_def split: if_splits)

subsection \<open>The batch operations\<close>

lemma PutItems_loop_ok:
  assumes "simple_queue_ok sz q" and "\<forall>x. 0 \<le> sz x"
    and "sq_maxItems q > 0 \<Longrightarrow> mx - i \<le> sq_maxItems q - int (length (sq_queue q))"
    and "0 \<le> sq_maxItems q"
    and "PutItems_loop sz mx rs i q = (n, q')"
  shows "simple_queue_ok sz q' \<and> sq_priority q' = sq_priority q"
  using assms
proof (induction rs arbitrary: i q)
  case (Cons r rs)
  show ?case
  proof (cases "i < mx \<and> sq_queueSize q + sz r \<le> sq_maxSize q")
    case True
    let ?q = "SimpleQueue_PutItem sz r q"
    have "simple_queue_ok sz ?q" using Cons.prems(1,3,4) True
      by (auto simp: simple_queue_ok_def SimpleQueue_PutItem_def)
    then show ?thesis using Cons.IH [of ?q "i + 1"] Cons.prems True
      by (auto simp: SimpleQueue_PutItem_def)
  next
    case False
    then show ?thesis using Cons.prems by (auto split: if_splits)
  qed
qed simp

lemma PutItems_section_ok:
  assumes ok: "sync_queue_ok sz s" and a: "a < length (objs s)" and nn: "\<forall>x. 0 \<le> sz x"
    and lim: "0 \<le> sq_maxItems (objs s ! a)"
    and sect: "PutItems_section sz rs t a s = (res, sig, s')"
  shows "sync_queue_ok sz s'"
proof (cases "PutItems_full (objs s ! a) (sz (hd rs))")
  case True
  then have "objs s' = objs s" "queues s' = queues s" "priority2queue s' = priority2queue s"
    using sect by (auto simp: PutItems_section_def split: if_splits)
  then show ?thesis by (rule sync_queue_ok_frame [OF ok])
next
  case False
  let ?q = "objs s ! a"
  let ?mx = "PutItems_max ?q (int (length rs))"
  obtain i q' where loop: "PutItems_loop sz ?mx rs 0 ?q = (i, q')"
    by (cases "PutItems_loop sz ?mx rs 0 ?q")
  have q: "simple_queue_ok sz ?q" using ok a by (simp add: sync_queue_ok_def)
  have "?mx - 0 \<le> sq_maxItems ?q - int (length (sq_queue ?q))" if "sq_maxItems ?q > 0"
  proof -
    have "int (length (sq_queue ?q)) \<le> sq_maxItems ?q" using q that by (auto simp: simple_queue_ok_def)
    moreover have "int (length (sq_queue ?q)) \<noteq> sq_maxItems ?q"
      using False that by (simp add: PutItems_full_def SimpleQueue_GetCurrentItems_def)
    ultimately show ?thesis using that
      by (auto simp: PutItems_max_def SimpleQueue_GetCurrentItems_def Let_def)
  qed
  with PutItems_loop_ok [OF q nn _ lim loop]
  have q': "simple_queue_ok sz q'" "sq_priority q' = prio_at s a" by auto
  have "objs s' = (objs s)[a := q']" "queues s' = queues s" "priority2queue s' = priority2queue s"
    using sect False loop by (auto simp: PutItems_section_def Let_def)
  then show ?thesis by (rule sync_queue_ok_update [OF ok q'])
qed

lemma GetItems_loop_spec:
  assumes "distinct as" and "\<forall>a\<in>set as. a < length os" and "GetItems_loop sz n as os = (rs, os')"
  shows "rs = take n (concat (map (\<lambda>a. sq_queue (os ! a)) as)) \<and>
         concat (map (\<lambda>a. sq_queue (os' ! a)) as) = drop n (concat (map (\<lambda>a. sq_queue (os ! a)) as)) \<and>
         length os' = length os \<and> (\<forall>b. b \<notin> set as \<longrightarrow> os' ! b = os ! b)"
  using assms
proof (induction as arbitrary: n os rs os')
  case (Cons a as)
  let ?xs = "sq_queue (os ! a)"
  obtain rs1 q where t: "take_items (SimpleQueue_GetItem sz) n (os ! a) = (rs1, q)"
    by (cases "take_items (SimpleQueue_GetItem sz) n (os ! a)")
  have q: "rs1 = take n ?xs" "sq_queue q = drop n ?xs"
    using sq.take_items_fifo [of sz n "os ! a"] t by auto
  obtain rs2 where l: "GetItems_loop sz (n - length rs1) as (os[a := q]) = (rs2, os')" and rs: "rs = rs1 @ rs2"
    using Cons.prems(3) t by (auto split: prod.splits)
  have same: "map (\<lambda>b. sq_queue (os[a := q] ! b)) as = map (\<lambda>b. sq_queue (os ! b)) as"
    using Cons.prems(1) by (intro map_cong refl) (metis distinct.simps(2) nth_list_update_neq)
  have "n - length rs1 = n - length ?xs" using q(1) by auto
  with Cons.IH [OF _ _ l] Cons.prems(1,2) same
  have IH: "rs2 = take (n - length ?xs) (concat (map (\<lambda>b. sq_queue (os ! b)) as))"
      "concat (map (\<lambda>b. sq_queue (os' ! b)) as) = drop (n - length ?xs) (concat (map (\<lambda>b. sq_queue (os ! b)) as))"
      "length os' = length os" "\<forall>b. b \<notin> set as \<longrightarrow> os' ! b = os[a := q] ! b"
    by auto
  have "os' ! a = q" using IH(4) Cons.prems(1,2) by simp
  then show ?case using IH q rs Cons.prems by auto
qed simp

section \<open>Properties of the operations\<close>

lemma PutItem_waits_returned: "PutItem_waits sz r t a ws (Returns b, sig, s) = (Returns b, sig, s)"
  by (cases ws) auto

lemma GetItem_waits_returned: "GetItem_waits sz t ws (Returns b, sig, s) = (Returns b, sig, s)"
  by (cases ws) auto

lemma GetItem_section_None:
  assumes wf: "sync_queue_wf s"
  shows "(\<exists>r sig s'. GetItem_section sz None s = (Returns (Some r), sig, s')) \<or>
         GetItem_section sz None s = (Returns None, NoSignal, s) \<and> (\<forall>p. queue_content s p = [])"
proof (cases "firstNonEmptyQueueIndex s < 0")
  case True
  then show ?thesis using queue_content_empty_iff [OF wf]
    by (simp add: GetItem_section_def firstNonEmptyQueueIndex_neg)
next
  case False
  then obtain us a vs where "sq_queue (objs s ! a) \<noteq> []" "queues s ! nat (firstNonEmptyQueueIndex s) = a"
    by (metis firstNonEmptyQueueIndex_nonneg not_le)
  then have "\<exists>r sig s'. GetItem_section sz None s = (Returns (Some r), sig, s')" using False
    by (auto simp: GetItem_section_def SimpleQueue_GetItem_def Let_def split: list.splits)
  then show ?thesis by blast
qed

text \<open>
  C5: a \<open>PutItem\<close> that must not wait (\<open>timeout == NULL\<close>) returns at once whatever the other threads
  would do.  It returns true exactly when the queue is not cancelled and the sub-queue has space, and
  then the item is the new last element of its sub-queue and nothing else changes; otherwise the
  queue is untouched.
\<close>

theorem PutItem_nonblocking:
  assumes "sync_queue_wf s" and "SyncQueue_hasQueue p s"
  shows "\<exists>b sig s'. SyncQueue_PutItem sz r None p ws s = Inr (Returns b, sig, s') \<and>
     (b \<longleftrightarrow> \<not> cancel s \<and> SyncQueue_IsSpace sz r p s = Inr True) \<and>
     (b \<longrightarrow> queue_content s' = spec_put p r (queue_content s)) \<and> (\<not> b \<longrightarrow> s' = s)"
proof -
  obtain a where a: "priority2queue s p = Some a" using assms(2) by (auto simp: SyncQueue_hasQueue_def)
  obtain res sig s' where sect: "PutItem_section sz r None a s = (res, sig, s')"
    by (cases "PutItem_section sz r None a s")
  show ?thesis
  proof (cases "\<not> cancel s \<and> SimpleQueue_IsSpaceFor (objs s ! a) (sz r)")
    case True
    then have res: "res = Returns True" using sect by (simp add: PutItem_section_def)
    then have "SyncQueue_PutItem sz r None p ws s = Inr (Returns True, sig, s')" using True a sect
      by (simp add: SyncQueue_PutItem_def PutItem_enter_def PutItem_waits_returned)
    moreover have "queue_content s' = spec_put p r (queue_content s)"
      using PutItem_section_content [OF assms(1) a] sect res by blast
    ultimately show ?thesis using True a
      by (intro exI [of _ True] exI [of _ sig] exI [of _ s']) (simp add: SyncQueue_IsSpace_def)
  next
    case False
    then show ?thesis using a
      by (auto simp: SyncQueue_PutItem_def PutItem_enter_def PutItem_section_def PutItem_waits_returned
          SyncQueue_IsSpace_def)
  qed
qed

text \<open>
  C6: a \<open>GetItem\<close> that must not wait refines the abstract operation: if any sub-queue has an item it
  removes and returns the oldest item of the highest non-empty priority, otherwise it returns null and
  the queue is untouched.
\<close>

theorem GetItem_highest_priority:
  assumes "sync_queue_wf s" and "\<not> cancel s"
  shows "(\<exists>r sig s'. SyncQueue_GetItem sz None ws s = (Returns (Some r), sig, s') \<and>
            spec_get (queue_content s) r (queue_content s')) \<or>
         (SyncQueue_GetItem sz None ws s = (Returns None, NoSignal, s) \<and> (\<forall>p. queue_content s p = []))"
  using GetItem_section_None [OF assms(1), of sz] GetItem_section_content [OF assms(1), of sz None] assms(2)
  by (auto simp: SyncQueue_GetItem_def GetItem_enter_def GetItem_waits_returned)

text \<open>
  \<open>GetItems\<close> returns the first \<open>n\<close> items in the order of descending priority, oldest first, and
  leaves exactly the others.
\<close>

theorem GetItems_in_order:
  assumes "sync_queue_wf s" and "\<not> cancel s" and "0 \<le> firstNonEmptyQueueIndex s"
    and "GetItems_enter sz n t s = (res, sig, s')"
  shows "res = Returns (take n (concat (map (\<lambda>a. sq_queue (objs s ! a)) (queues s)))) \<and>
         concat (map (\<lambda>a. sq_queue (objs s' ! a)) (queues s')) =
           drop n (concat (map (\<lambda>a. sq_queue (objs s ! a)) (queues s)))"
proof -
  obtain rs os where loop: "GetItems_loop sz n (queues s) (objs s) = (rs, os)"
    by (cases "GetItems_loop sz n (queues s) (objs s)")
  then have "res = Returns rs" "s' = s\<lparr>objs := os\<rparr>"
    using assms(2-4) by (auto simp: GetItems_enter_def GetItems_section_def)
  then show ?thesis using GetItems_loop_spec [OF _ _ loop] assms(1) by (simp add: sync_queue_wf_def)
qed

text \<open>The state the witnesses use: priorities 5 and 0, with two and one items.\<close>

definition sample_queue :: "nat sync_queue" where
  "sample_queue =
     \<lparr>objs = [\<lparr>sq_priority = 0, sq_maxItems = 2, sq_maxSize = 0, sq_queueSize = 1, sq_queue = [10]\<rparr>,
              \<lparr>sq_priority = 5, sq_maxItems = 0, sq_maxSize = 9, sq_queueSize = 2, sq_queue = [20, 21]\<rparr>],
      queues = [1, 0], priority2queue = [0 \<mapsto> 0, 5 \<mapsto> 1],
      waitingReaders = 0, waitingWriters = 0, cancel = False\<rparr>"

lemma sample_queue_wf: "sync_queue_wf sample_queue"
  by (auto simp: sync_queue_wf_def sample_queue_def less_2_cases_iff less_Suc_eq numeral_2_eq_2 nth_Cons'
      split: if_splits)

theorem PutItem_nonblocking_witness:
  "\<exists>b sig s'. SyncQueue_PutItem (\<lambda>_. 1) 30 None 5 [] sample_queue = Inr (Returns b, sig, s') \<and>
     (b \<longrightarrow> queue_content s' = spec_put 5 30 (queue_content sample_queue))"
  using PutItem_nonblocking [OF sample_queue_wf, of 5 "\<lambda>_. 1" 30 "[]"]
  by (fastforce simp: SyncQueue_hasQueue_def sample_queue_def)

theorem GetItem_highest_priority_witness:
  "\<exists>r sig s'. SyncQueue_GetItem (\<lambda>_. 1) None [] sample_queue = (Returns (Some r), sig, s') \<and>
     spec_get (queue_content sample_queue) r (queue_content s')"
proof -
  have "queue_content sample_queue 0 \<noteq> []" "\<not> cancel sample_queue"
    by (simp_all add: queue_content_def sample_queue_def)
  then show ?thesis using GetItem_highest_priority [OF sample_queue_wf, of "\<lambda>_. 1" "[]"] by metis
qed

theorem GetItems_in_order_witness:
  "fst (GetItems_enter (\<lambda>_. 1) 2 None sample_queue) = Returns [20, 21]"
proof -
  obtain res sig s' where g: "GetItems_enter (\<lambda>_. 1) 2 None sample_queue = (res, sig, s')"
    by (cases "GetItems_enter (\<lambda>_. 1) 2 None sample_queue")
  have "0 \<le> firstNonEmptyQueueIndex sample_queue" "\<not> cancel sample_queue"
    by (simp_all add: firstNonEmptyQueueIndex_def sample_queue_def SimpleQueue_GetCurrentItems_def)
  from GetItems_in_order [OF sample_queue_wf this(2,1) g] g show ?thesis by (simp add: sample_queue_def)
qed

text \<open>
  \<open>deleteAllItems\<close>, which \<open>Stop\<close> calls, empties a sub-queue but keeps its recorded size; a
  sub-queue with a size limit can then be empty and refuse every item of positive size, also after
  \<open>Start\<close>.
\<close>

theorem Stop_keeps_recorded_size:
  assumes "a < length (objs s)" and "sq_maxSize (objs s ! a) > 0"
    and "sq_queueSize (objs s ! a) = sq_maxSize (objs s ! a)"
    and "Stop_section StopWriters (Stop_begin s) = (None, sig, s')" and "0 < n"
  shows "sq_queue (objs (SyncQueue_Start s') ! a) = [] \<and>
         \<not> SimpleQueue_IsSpaceFor (objs (SyncQueue_Start s') ! a) n"
  using assms
  by (auto simp: sync_queue_defs simple_queue_defs split: if_splits)

theorem Stop_keeps_recorded_size_witness:
  "\<not> SimpleQueue_IsSpaceFor (objs (SyncQueue_Start (SyncQueue_deleteAll (Stop_begin
      (sample_queue\<lparr>objs := [\<lparr>sq_priority = 0, sq_maxItems = 0, sq_maxSize = 3, sq_queueSize = 3, sq_queue = [10]\<rparr>]\<rparr>)))) ! 0) 1"
  using Stop_keeps_recorded_size [of 0 "sample_queue\<lparr>objs := [\<lparr>sq_priority = 0, sq_maxItems = 0,
      sq_maxSize = 3, sq_queueSize = 3, sq_queue = [10]\<rparr>]\<rparr>" NoSignal
      "SyncQueue_deleteAll (Stop_begin (sample_queue\<lparr>objs := [\<lparr>sq_priority = 0, sq_maxItems = 0,
      sq_maxSize = 3, sq_queueSize = 3, sq_queue = [10]\<rparr>]\<rparr>))" 1]
  by (simp add: Stop_section_def Stop_begin_def sample_queue_def)

end
