(* ===== verification/SyncQueueThreads.thy ===== *)
theory SyncQueueThreads
  imports SyncQueue
begin

text \<open>
  Any number of threads on one \<open>SyncQueue\<close>: each calls \<open>PutItem\<close>, \<open>GetItem\<close>, \<open>Stop\<close>, \<open>Start\<close>,
  \<open>Pause\<close> or \<open>Resume\<close>.  A step is one section of one call, from taking \<open>queueLock\<close> to releasing it;
  which thread moves is not determined.  (\<open>PutItems\<close> and \<open>GetItems\<close> have no caller in the program.)
  A thread that waits on a condition variable may resume at any moment, as POSIX allows; whether it
  has been signalled is recorded, so that lost wake-ups can be excluded.  \<open>accepted\<close> and \<open>removed\<close>
  are history variables: what went into and what left each sub-queue, in order.
\<close>

section \<open>Threads and steps\<close>

datatype 'a thread_state =
    Idle
  | PutWaiting 'a "timeval option" nat bool
  | GetWaiting "timeval option" bool
  | Stopping stop_phase

record 'a sys =
  sq :: "'a sync_queue"
  paused :: bool
  thr :: "nat \<Rightarrow> 'a thread_state"
  accepted :: "int \<Rightarrow> 'a list"
  removed :: "int \<Rightarrow> 'a list"

text \<open>\<open>pthread_cond_broadcast\<close> on one of the two condition variables.\<close>

fun wake :: "signal \<Rightarrow> 'a thread_state \<Rightarrow> 'a thread_state" where
  "wake SignalSend (PutWaiting r t a w) = PutWaiting r t a True"
| "wake SignalRecv (GetWaiting t w) = GetWaiting t True"
| "wake _ th = th"

fun after_put :: "bool outcome \<Rightarrow> 'a \<Rightarrow> timeval option \<Rightarrow> nat \<Rightarrow> 'a thread_state" where
  "after_put (Returns b) r t a = Idle"
| "after_put Waits r t a = PutWaiting r t a False"

fun after_get :: "'a option outcome \<Rightarrow> timeval option \<Rightarrow> 'a thread_state" where
  "after_get (Returns x) t = Idle"
| "after_get Waits t = GetWaiting t False"

fun after_stop :: "stop_phase option \<Rightarrow> 'a thread_state" where
  "after_stop None = Idle"
| "after_stop (Some ph) = Stopping ph"

definition note_put :: "int \<Rightarrow> 'a \<Rightarrow> bool outcome \<Rightarrow> (int \<Rightarrow> 'a list) \<Rightarrow> (int \<Rightarrow> 'a list)" where
  "note_put p r res h = (if res = Returns True then h(p := h p @ [r]) else h)"

definition first_priority :: "'a sync_queue \<Rightarrow> int" where
  "first_priority s = prio_at s (queues s ! nat (firstNonEmptyQueueIndex s))"

fun note_get :: "int \<Rightarrow> 'a option outcome \<Rightarrow> (int \<Rightarrow> 'a list) \<Rightarrow> (int \<Rightarrow> 'a list)" where
  "note_get p (Returns (Some r)) h = h(p := h p @ [r])"
| "note_get p _ h = h"

fun note_stop :: "stop_phase option \<Rightarrow> (int \<Rightarrow> 'a list) \<Rightarrow> (int \<Rightarrow> 'a list) \<Rightarrow> (int \<Rightarrow> 'a list)" where
  "note_stop None c h = (\<lambda>p. h p @ c p)"
| "note_stop (Some ph) c h = h"

text \<open>Only a wait with a deadline can time out.\<close>

definition may_time_out :: "timeval option \<Rightarrow> bool \<Rightarrow> bool" where
  "may_time_out t timedOut \<longleftrightarrow> \<not> timedOut \<or> CondLock_wait t \<noteq> WaitForever"

inductive sys_step :: "('a \<Rightarrow> int) \<Rightarrow> 'a sys \<Rightarrow> 'a sys \<Rightarrow> bool" for sz where
  put_cancelled: "thr c i = Idle \<Longrightarrow> \<not> paused c \<Longrightarrow> cancel (sq c) \<Longrightarrow>
     PutItem_enter sz r t p (sq c) = Inr (res, sig, s') \<Longrightarrow>
     sys_step sz c (c\<lparr>sq := s'\<rparr>)"
| put_enter: "thr c i = Idle \<Longrightarrow> \<not> paused c \<Longrightarrow> \<not> cancel (sq c) \<Longrightarrow>
     PutItem_enter sz r t p (sq c) = Inr (res, sig, s') \<Longrightarrow> priority2queue (sq c) p = Some a \<Longrightarrow>
     sys_step sz c (c\<lparr>sq := s', thr := (wake sig \<circ> thr c)(i := after_put res r t a),
       accepted := note_put p r res (accepted c)\<rparr>)"
| put_resume: "thr c i = PutWaiting r t a w \<Longrightarrow> may_time_out t timedOut \<Longrightarrow>
     PutItem_resume sz r t a timedOut (sq c) = (res, sig, s') \<Longrightarrow>
     sys_step sz c (c\<lparr>sq := s', thr := (wake sig \<circ> thr c)(i := after_put res r t a),
       accepted := note_put (prio_at (sq c) a) r res (accepted c)\<rparr>)"
| get_enter: "thr c i = Idle \<Longrightarrow> \<not> paused c \<Longrightarrow>
     GetItem_enter sz t (sq c) = (res, sig, s') \<Longrightarrow>
     sys_step sz c (c\<lparr>sq := s', thr := (wake sig \<circ> thr c)(i := after_get res t),
       removed := note_get (first_priority (sq c)) res (removed c)\<rparr>)"
| get_resume: "thr c i = GetWaiting t w \<Longrightarrow> may_time_out t timedOut \<Longrightarrow>
     GetItem_resume sz t timedOut (sq c) = (res, sig, s') \<Longrightarrow>
     sys_step sz c (c\<lparr>sq := s', thr := (wake sig \<circ> thr c)(i := after_get res t),
       removed := note_get (first_priority (sq c)) res (removed c)\<rparr>)"
| stop_enter: "thr c i = Idle \<Longrightarrow>
     Stop_section StopReaders (Stop_begin (sq c)) = (res, sig, s') \<Longrightarrow>
     sys_step sz c (c\<lparr>sq := s', thr := (wake sig \<circ> thr c)(i := after_stop res),
       removed := note_stop res (queue_content (sq c)) (removed c)\<rparr>)"
| stop_continue: "thr c i = Stopping ph \<Longrightarrow>
     Stop_section ph (sq c) = (res, sig, s') \<Longrightarrow>
     sys_step sz c (c\<lparr>sq := s', thr := (wake sig \<circ> thr c)(i := after_stop res),
       removed := note_stop res (queue_content (sq c)) (removed c)\<rparr>)"
| start: "thr c i = Idle \<Longrightarrow> sys_step sz c (c\<lparr>sq := SyncQueue_Start (sq c)\<rparr>)"
| pause: "thr c i = Idle \<Longrightarrow> \<not> paused c \<Longrightarrow> sys_step sz c (c\<lparr>paused := True\<rparr>)"
| resume: "thr c i = Idle \<Longrightarrow> paused c \<Longrightarrow> sys_step sz c (c\<lparr>paused := False\<rparr>)"

text \<open>
  A queue is configured by \<open>addQueue\<close> calls before any thread uses it.
\<close>

inductive configured :: "'a sync_queue \<Rightarrow> bool" where
  new: "configured SyncQueue_new"
| add: "configured s \<Longrightarrow> SyncQueue_addQueue p mi ms s = Inr s' \<Longrightarrow> configured s'"

definition init_sys :: "'a sync_queue \<Rightarrow> 'a sys" where
  "init_sys s = \<lparr>sq = s, paused = False, thr = (\<lambda>_. Idle), accepted = (\<lambda>_. []), removed = (\<lambda>_. [])\<rparr>"

inductive reach :: "('a \<Rightarrow> int) \<Rightarrow> 'a sys \<Rightarrow> bool" for sz where
  init: "configured s \<Longrightarrow> reach sz (init_sys s)"
| step: "reach sz c \<Longrightarrow> sys_step sz c c' \<Longrightarrow> reach sz c'"

section \<open>The invariant of the system\<close>

fun is_putting :: "'a thread_state \<Rightarrow> bool" where
  "is_putting (PutWaiting r t a w) = True"
| "is_putting _ = False"

fun is_getting :: "'a thread_state \<Rightarrow> bool" where
  "is_getting (GetWaiting t w) = True"
| "is_getting _ = False"

definition putters :: "'a sys \<Rightarrow> nat set" where
  "putters c = {i. is_putting (thr c i)}"

definition getters :: "'a sys \<Rightarrow> nat set" where
  "getters c = {i. is_getting (thr c i)}"

definition counts_ok :: "'a sys \<Rightarrow> bool" where
  "counts_ok c \<longleftrightarrow> finite (putters c) \<and> waitingWriters (sq c) = int (card (putters c)) \<and>
     finite (getters c) \<and> waitingReaders (sq c) = int (card (getters c))"

definition history_ok :: "'a sys \<Rightarrow> bool" where
  "history_ok c \<longleftrightarrow> (\<forall>p. accepted c p = removed c p @ queue_content (sq c) p)"

definition no_lost_wakeup :: "('a \<Rightarrow> int) \<Rightarrow> 'a sys \<Rightarrow> bool" where
  "no_lost_wakeup sz c \<longleftrightarrow>
     (\<forall>i t. thr c i = GetWaiting t False \<longrightarrow> firstNonEmptyQueueIndex (sq c) < 0) \<and>
     (\<forall>i r t a. thr c i = PutWaiting r t a False \<longrightarrow> \<not> SimpleQueue_IsSpaceFor (objs (sq c) ! a) (sz r))"

definition pointers_ok :: "'a sys \<Rightarrow> bool" where
  "pointers_ok c \<longleftrightarrow> (\<forall>i r t a w. thr c i = PutWaiting r t a w \<longrightarrow> a < length (objs (sq c)))"

definition sys_inv :: "('a \<Rightarrow> int) \<Rightarrow> 'a sys \<Rightarrow> bool" where
  "sys_inv sz c \<longleftrightarrow> sync_queue_ok sz (sq c) \<and> counts_ok c \<and> history_ok c \<and> no_lost_wakeup sz c \<and> pointers_ok c"

section \<open>What a section does\<close>

lemma PutItem_section_cases:
  assumes "PutItem_section sz r t a s = (res, sig, s')"
  obtains (refused) "res = Returns False" "sig = NoSignal" "s' = s"
      "\<not> SimpleQueue_IsSpaceFor (objs s ! a) (sz r)"
  | (waits) "res = Waits" "sig = NoSignal" "s' = s\<lparr>waitingWriters := waitingWriters s + 1\<rparr>"
      "\<not> SimpleQueue_IsSpaceFor (objs s ! a) (sz r)"
  | (puts) "res = Returns True" "sig = SignalRecv"
      "s' = s\<lparr>objs := (objs s)[a := SimpleQueue_PutItem sz r (objs s ! a)]\<rparr>"
  using assms by (auto simp: PutItem_section_def Let_def split: if_splits)

lemma GetItem_section_cases:
  assumes "GetItem_section sz t s = (res, sig, s')"
  obtains (refused) "res = Returns None" "sig = NoSignal" "s' = s" "firstNonEmptyQueueIndex s < 0"
  | (waits) "res = Waits" "sig = NoSignal" "s' = s\<lparr>waitingReaders := waitingReaders s + 1\<rparr>"
      "firstNonEmptyQueueIndex s < 0"
  | (gets) r where "res = Returns (Some r)" "sig = SignalSend" "0 \<le> firstNonEmptyQueueIndex s"
      "s' = s\<lparr>objs := (objs s)[queues s ! nat (firstNonEmptyQueueIndex s) :=
           snd (SimpleQueue_GetItem sz (objs s ! (queues s ! nat (firstNonEmptyQueueIndex s))))]\<rparr>"
proof (cases "firstNonEmptyQueueIndex s < 0")
  case True
  then show ?thesis using assms refused waits by (auto simp: GetItem_section_def split: if_splits)
next
  case False
  then obtain us a vs where "sq_queue (objs s ! a) \<noteq> []" "queues s ! nat (firstNonEmptyQueueIndex s) = a"
    by (metis firstNonEmptyQueueIndex_nonneg not_le)
  then show ?thesis using assms False gets
    by (auto simp: GetItem_section_def SimpleQueue_GetItem_def Let_def split: if_splits list.splits)
qed

lemma Stop_section_cases:
  assumes "Stop_section ph s = (res, sig, s')"
  obtains (loop) ph' where "res = Some ph'" "s' = s"
  | (finish) "res = None" "sig = NoSignal" "s' = SyncQueue_deleteAll s" "waitingWriters s \<le> 0"
  using assms by (auto simp: Stop_section_def split: if_splits)

lemma is_putting_wake [simp]: "is_putting (wake sig th) = is_putting th"
  by (cases "(sig, th)" rule: wake.cases) auto

lemma is_getting_wake [simp]: "is_getting (wake sig th) = is_getting th"
  by (cases "(sig, th)" rule: wake.cases) auto

lemma wake_PutWaiting: "wake sig th = PutWaiting r t a w \<longleftrightarrow>
    (\<exists>w'. th = PutWaiting r t a w' \<and> (w \<longleftrightarrow> w' \<or> sig = SignalSend))"
  by (cases "(sig, th)" rule: wake.cases) auto

lemma wake_GetWaiting: "wake sig th = GetWaiting t w \<longleftrightarrow>
    (\<exists>w'. th = GetWaiting t w' \<and> (w \<longleftrightarrow> w' \<or> sig = SignalRecv))"
  by (cases "(sig, th)" rule: wake.cases) auto

section \<open>Generic preservation lemmas\<close>

text \<open>All steps of a call have the shape: new queue, a broadcast, and a new state of the caller.\<close>

lemma counts_ok_update:
  assumes "counts_ok c" and "thr c' = (wake sig \<circ> thr c)(i := th)"
    and "waitingWriters (sq c') =
      waitingWriters (sq c) + of_bool (is_putting th) - of_bool (is_putting (thr c i))"
    and "waitingReaders (sq c') =
      waitingReaders (sq c) + of_bool (is_getting th) - of_bool (is_getting (thr c i))"
  shows "counts_ok c'"
proof -
  have "putters c' = (if is_putting th then insert i (putters c) else putters c - {i})"
    and "getters c' = (if is_getting th then insert i (getters c) else getters c - {i})"
    using assms(2) by (auto simp: putters_def getters_def)
  moreover have "i \<in> putters c \<longleftrightarrow> is_putting (thr c i)" "i \<in> getters c \<longleftrightarrow> is_getting (thr c i)"
    by (auto simp: putters_def getters_def)
  ultimately show ?thesis using assms(1,3,4) card_Suc_Diff1 [of "putters c" i] card_Suc_Diff1 [of "getters c" i]
    by (auto simp: counts_ok_def card_insert_if)
qed

lemma no_lost_wakeup_update:
  assumes inv: "no_lost_wakeup sz c" "pointers_ok c" and th: "thr c' = (wake sig \<circ> thr c)(i := th)"
    and readers: "sig = SignalRecv \<or>
      (firstNonEmptyQueueIndex (sq c) < 0 \<longrightarrow> firstNonEmptyQueueIndex (sq c') < 0)"
    and writers: "sig = SignalSend \<or> (\<forall>a n. a < length (objs (sq c)) \<longrightarrow>
      \<not> SimpleQueue_IsSpaceFor (objs (sq c) ! a) n \<longrightarrow> \<not> SimpleQueue_IsSpaceFor (objs (sq c') ! a) n)"
    and new_reader: "\<And>t. th = GetWaiting t False \<Longrightarrow> firstNonEmptyQueueIndex (sq c') < 0"
    and new_writer: "\<And>r t a. th = PutWaiting r t a False \<Longrightarrow> \<not> SimpleQueue_IsSpaceFor (objs (sq c') ! a) (sz r)"
  shows "no_lost_wakeup sz c'"
  unfolding no_lost_wakeup_def
proof (intro conjI allI impI)
  fix j t assume "thr c' j = GetWaiting t False"
  then show "firstNonEmptyQueueIndex (sq c') < 0"
    using inv(1) th readers new_reader
    by (cases "j = i") (auto simp: wake_GetWaiting no_lost_wakeup_def)
next
  fix j r t a assume j: "thr c' j = PutWaiting r t a False"
  show "\<not> SimpleQueue_IsSpaceFor (objs (sq c') ! a) (sz r)"
  proof (cases "j = i")
    case True
    then show ?thesis using j th new_writer by simp
  next
    case False
    then have "thr c j = PutWaiting r t a False" "sig \<noteq> SignalSend"
      using j th by (auto simp: wake_PutWaiting)
    then show ?thesis using inv writers unfolding no_lost_wakeup_def pointers_ok_def by metis
  qed
qed

lemma pointers_ok_update:
  assumes "pointers_ok c" and "thr c' = (wake sig \<circ> thr c)(i := th)"
    and "length (objs (sq c')) = length (objs (sq c))"
    and "\<And>r t a w. th = PutWaiting r t a w \<Longrightarrow> a < length (objs (sq c))"
  shows "pointers_ok c'"
  using assms by (auto simp: pointers_ok_def wake_PutWaiting)

lemma PutItem_no_space:
  assumes "0 \<le> sz r" and "\<not> SimpleQueue_IsSpaceFor q n"
  shows "\<not> SimpleQueue_IsSpaceFor (SimpleQueue_PutItem sz r q) n"
  using assms by (auto simp: SimpleQueue_IsSpaceFor_def SimpleQueue_PutItem_def)

lemma firstNonEmpty_cong:
  "objs s' = objs s \<Longrightarrow> queues s' = queues s \<Longrightarrow> firstNonEmptyQueueIndex s' = firstNonEmptyQueueIndex s"
  by (simp add: firstNonEmptyQueueIndex_def)

lemma queue_content_cong:
  "objs s' = objs s \<Longrightarrow> priority2queue s' = priority2queue s \<Longrightarrow> queue_content s' = queue_content s"
  by (simp add: queue_content_def fun_eq_iff split: option.splits)

section \<open>Every step keeps the invariant\<close>

text \<open>
  \<open>PutItem\<close>: both the entering and the resuming caller run \<open>PutItem_section\<close>, on a queue whose
  counter of waiting writers no longer includes the caller.
\<close>

lemma put_section_inv:
  assumes nn: "\<forall>x. 0 \<le> sz x" and inv: "sys_inv sz c"
    and s0: "objs s0 = objs (sq c)" "queues s0 = queues (sq c)" "priority2queue s0 = priority2queue (sq c)"
      "waitingReaders s0 = waitingReaders (sq c)" "cancel s0 = cancel (sq c)"
      "waitingWriters s0 = waitingWriters (sq c) - of_bool (is_putting (thr c i))"
    and th: "\<not> is_getting (thr c i)" and a: "a < length (objs (sq c))"
    and sect: "PutItem_section sz r t a s0 = (res, sig, s')"
  shows "sys_inv sz (c\<lparr>sq := s', thr := (wake sig \<circ> thr c)(i := after_put res r t a),
       accepted := note_put (prio_at (sq c) a) r res (accepted c)\<rparr>)" (is "sys_inv sz ?c")
proof -
  have ok: "sync_queue_ok sz s0" using inv s0 by (auto simp: sys_inv_def intro: sync_queue_ok_frame)
  have wf: "sync_queue_wf s0" using ok by (simp add: sync_queue_ok_def)
  have look: "priority2queue s0 (prio_at (sq c) a) = Some a"
    using sync_queue_wf_lookup [OF wf, of a] a s0(1) by simp
  have cont: "queue_content s0 = queue_content (sq c)" by (rule queue_content_cong) (simp_all add: s0)
  have first: "firstNonEmptyQueueIndex s0 = firstNonEmptyQueueIndex (sq c)"
    by (rule firstNonEmpty_cong) (simp_all add: s0)
  have thr: "thr ?c = (wake sig \<circ> thr c)(i := after_put res r t a)" by simp
  have 1: "sync_queue_ok sz (sq ?c)" using PutItem_section_ok [OF ok _ sect] a s0(1) by simp
  have 2: "counts_ok ?c"
    by (rule counts_ok_update [OF _ thr], use inv in \<open>simp add: sys_inv_def\<close>)
       (use sect th s0 in \<open>auto elim!: PutItem_section_cases\<close>)
  have 3: "history_ok ?c"
    using sect
  proof (cases rule: PutItem_section_cases)
    case puts
    from PutItem_section_content [OF wf look sect [unfolded puts(1)]]
    have "queue_content s' = spec_put (prio_at (sq c) a) r (queue_content (sq c))" by (simp add: cont)
    then show ?thesis using inv puts(1) by (auto simp: sys_inv_def history_ok_def spec_put_def note_put_def)
  next
    case waits
    then have "queue_content s' = queue_content s0" by (intro queue_content_cong) auto
    then show ?thesis using inv waits cont by (auto simp: sys_inv_def history_ok_def note_put_def)
  qed (use inv cont in \<open>auto simp: sys_inv_def history_ok_def note_put_def\<close>)
  have 4: "no_lost_wakeup sz ?c"
  proof (rule no_lost_wakeup_update [OF _ _ thr])
    show "no_lost_wakeup sz c" "pointers_ok c" using inv by (auto simp: sys_inv_def)
    show "sig = SignalRecv \<or>
        (firstNonEmptyQueueIndex (sq c) < 0 \<longrightarrow> firstNonEmptyQueueIndex (sq ?c) < 0)"
      using sect first by (cases rule: PutItem_section_cases) (auto simp: firstNonEmptyQueueIndex_def)
    show "sig = SignalSend \<or> (\<forall>a n. a < length (objs (sq c)) \<longrightarrow>
        \<not> SimpleQueue_IsSpaceFor (objs (sq c) ! a) n \<longrightarrow> \<not> SimpleQueue_IsSpaceFor (objs (sq ?c) ! a) n)"
      using sect
    proof (cases rule: PutItem_section_cases)
      case puts
      then show ?thesis using PutItem_no_space [of sz r] nn s0(1)
        by (auto simp: nth_list_update_if)
    qed (auto simp: s0(1))
  qed (use sect in \<open>auto elim!: PutItem_section_cases\<close>)
  have 5: "pointers_ok ?c"
    by (rule pointers_ok_update [OF _ thr], use inv in \<open>simp add: sys_inv_def\<close>)
       (use sect a s0 in \<open>auto elim!: PutItem_section_cases\<close>)
  show ?thesis unfolding sys_inv_def using 1 2 3 4 5 by blast
qed

lemma GetItem_section_first:
  assumes wf: "sync_queue_wf s" and get: "GetItem_section sz t s = (Returns (Some r), sig, s')"
  shows "queue_content s (first_priority s) = r # queue_content s' (first_priority s)"
    and "p \<noteq> first_priority s \<Longrightarrow> queue_content s' p = queue_content s p"
proof -
  have first: "0 \<le> firstNonEmptyQueueIndex s" using get by (auto elim!: GetItem_section_cases)
  then obtain us a vs where a: "queues s = us @ a # vs" "sq_queue (objs s ! a) \<noteq> []"
      "queues s ! nat (firstNonEmptyQueueIndex s) = a" by (rule firstNonEmptyQueueIndex_nonneg)
  have look: "priority2queue s (first_priority s) = Some a"
    using sync_queue_wf_lookup [OF wf] wf a by (auto simp: first_priority_def sync_queue_wf_def)
  let ?q = "snd (SimpleQueue_GetItem sz (objs s ! a))"
  have s': "objs s' = (objs s)[a := ?q]" "priority2queue s' = priority2queue s"
    and r: "fst (SimpleQueue_GetItem sz (objs s ! a)) = Some r"
    using get first a(3) by (auto simp: GetItem_section_def Let_def split: prod.splits)
  have upd: "queue_content s' = (queue_content s)(first_priority s := sq_queue ?q)"
    by (rule queue_content_upd [OF wf look s'])
  show "queue_content s (first_priority s) = r # queue_content s' (first_priority s)"
    using upd look r by (auto simp: queue_content_def [of s] SimpleQueue_GetItem_def split: list.splits)
  show "p \<noteq> first_priority s \<Longrightarrow> queue_content s' p = queue_content s p" using upd by simp
qed

lemma get_section_inv:
  assumes nn: "\<forall>x. 0 \<le> sz x" and inv: "sys_inv sz c"
    and s0: "objs s0 = objs (sq c)" "queues s0 = queues (sq c)" "priority2queue s0 = priority2queue (sq c)"
      "waitingWriters s0 = waitingWriters (sq c)" "cancel s0 = cancel (sq c)"
      "waitingReaders s0 = waitingReaders (sq c) - of_bool (is_getting (thr c i))"
    and th: "\<not> is_putting (thr c i)"
    and sect: "GetItem_section sz t s0 = (res, sig, s')"
  shows "sys_inv sz (c\<lparr>sq := s', thr := (wake sig \<circ> thr c)(i := after_get res t),
       removed := note_get (first_priority (sq c)) res (removed c)\<rparr>)" (is "sys_inv sz ?c")
proof -
  have ok: "sync_queue_ok sz s0" using inv s0 by (auto simp: sys_inv_def intro: sync_queue_ok_frame)
  have wf: "sync_queue_wf s0" using ok by (simp add: sync_queue_ok_def)
  have cont: "queue_content s0 = queue_content (sq c)" by (rule queue_content_cong) (simp_all add: s0)
  have first: "firstNonEmptyQueueIndex s0 = firstNonEmptyQueueIndex (sq c)"
    by (rule firstNonEmpty_cong) (simp_all add: s0)
  have fp: "first_priority s0 = first_priority (sq c)" by (simp add: first_priority_def first s0)
  have thr: "thr ?c = (wake sig \<circ> thr c)(i := after_get res t)" by simp
  have 1: "sync_queue_ok sz (sq ?c)" using GetItem_section_ok [OF nn ok sect] by simp
  have 2: "counts_ok ?c"
    by (rule counts_ok_update [OF _ thr], use inv in \<open>simp add: sys_inv_def\<close>)
       (use sect th s0 in \<open>auto elim!: GetItem_section_cases\<close>)
  have 3: "history_ok ?c"
    using sect
  proof (cases rule: GetItem_section_cases)
    case (gets r)
    note f = GetItem_section_first [OF wf sect [unfolded gets(1)], unfolded fp cont]
    have "accepted c p = note_get (first_priority (sq c)) res (removed c) p @ queue_content s' p" for p
    proof (cases "p = first_priority (sq c)")
      case True
      then show ?thesis using inv f(1) gets(1) by (simp add: sys_inv_def history_ok_def)
    next
      case False
      then show ?thesis using inv f(2) gets(1) by (simp add: sys_inv_def history_ok_def)
    qed
    then show ?thesis by (simp add: history_ok_def)
  next
    case waits
    then have "queue_content s' = queue_content s0" by (intro queue_content_cong) auto
    then show ?thesis using inv waits cont by (auto simp: sys_inv_def history_ok_def)
  qed (use inv cont in \<open>auto simp: sys_inv_def history_ok_def\<close>)
  have 4: "no_lost_wakeup sz ?c"
  proof (rule no_lost_wakeup_update [OF _ _ thr])
    show "no_lost_wakeup sz c" "pointers_ok c" using inv by (auto simp: sys_inv_def)
    show "sig = SignalRecv \<or>
        (firstNonEmptyQueueIndex (sq c) < 0 \<longrightarrow> firstNonEmptyQueueIndex (sq ?c) < 0)"
      using sect first by (cases rule: GetItem_section_cases) (auto simp: firstNonEmptyQueueIndex_def)
    show "sig = SignalSend \<or> (\<forall>a n. a < length (objs (sq c)) \<longrightarrow>
        \<not> SimpleQueue_IsSpaceFor (objs (sq c) ! a) n \<longrightarrow> \<not> SimpleQueue_IsSpaceFor (objs (sq ?c) ! a) n)"
      using sect s0(1) by (cases rule: GetItem_section_cases) auto
    show "firstNonEmptyQueueIndex (sq ?c) < 0" if "after_get res t = GetWaiting t' False" for t'
      using sect that by (cases rule: GetItem_section_cases) (auto simp: firstNonEmptyQueueIndex_def)
    show "\<not> SimpleQueue_IsSpaceFor (objs (sq ?c) ! a) (sz r)" if "after_get res t = PutWaiting r t' a False" for r t' a
      using that by (cases res) auto
  qed
  have 5: "pointers_ok ?c"
    by (rule pointers_ok_update [OF _ thr], use inv in \<open>simp add: sys_inv_def\<close>)
       (use sect s0 in \<open>auto elim!: GetItem_section_cases\<close>)
  show ?thesis unfolding sys_inv_def using 1 2 3 4 5 by blast
qed

text \<open>A caller that returns without touching the items: the cancelled and the timed-out calls.\<close>

lemma leave_inv:
  assumes inv: "sys_inv sz c"
    and s': "objs s' = objs (sq c)" "queues s' = queues (sq c)" "priority2queue s' = priority2queue (sq c)"
      "waitingWriters s' = waitingWriters (sq c) - of_bool (is_putting (thr c i))"
      "waitingReaders s' = waitingReaders (sq c) - of_bool (is_getting (thr c i))"
    and c': "sq c' = s'" "thr c' = (wake sig \<circ> thr c)(i := th)" "accepted c' = accepted c" "removed c' = removed c"
    and th: "\<not> is_putting th" "\<not> is_getting th"
  shows "sys_inv sz c'"
proof -
  have first: "firstNonEmptyQueueIndex s' = firstNonEmptyQueueIndex (sq c)"
    by (rule firstNonEmpty_cong) (simp_all add: s')
  have 1: "sync_queue_ok sz (sq c')" using inv s' c' by (auto simp: sys_inv_def intro: sync_queue_ok_frame)
  have 2: "counts_ok c'"
    by (rule counts_ok_update [OF _ c'(2)]) (use inv s' c' th in \<open>simp_all add: sys_inv_def\<close>)
  have 3: "history_ok c'" using inv c' queue_content_cong [OF s'(1,3)]
    by (simp add: sys_inv_def history_ok_def)
  have 4: "no_lost_wakeup sz c'"
    by (rule no_lost_wakeup_update [OF _ _ c'(2)])
       (use inv s' c' first th in \<open>auto simp: sys_inv_def\<close>)
  have 5: "pointers_ok c'"
    by (rule pointers_ok_update [OF _ c'(2)]) (use inv s' c' th in \<open>auto simp: sys_inv_def\<close>)
  show ?thesis unfolding sys_inv_def using 1 2 3 4 5 by blast
qed

lemma deleteAll_content:
  "sync_queue_wf s \<Longrightarrow> queue_content (SyncQueue_deleteAll s) p = []"
  by (auto simp: queue_content_def SyncQueue_deleteAll_def SimpleQueue_deleteAllItems_def
      dest: sync_queue_wfD(1) split: option.splits)

lemma stop_section_inv:
  assumes nn: "\<forall>x. 0 \<le> sz x" and inv: "sys_inv sz c"
    and s0: "objs s0 = objs (sq c)" "queues s0 = queues (sq c)" "priority2queue s0 = priority2queue (sq c)"
      "waitingWriters s0 = waitingWriters (sq c)" "waitingReaders s0 = waitingReaders (sq c)"
    and th: "\<not> is_putting (thr c i)" "\<not> is_getting (thr c i)"
    and sect: "Stop_section ph s0 = (res, sig, s')"
  shows "sys_inv sz (c\<lparr>sq := s', thr := (wake sig \<circ> thr c)(i := after_stop res),
       removed := note_stop res (queue_content (sq c)) (removed c)\<rparr>)" (is "sys_inv sz ?c")
  using sect
proof (cases rule: Stop_section_cases)
  case (loop ph')
  show ?thesis by (rule leave_inv [OF inv, of s' i _ sig "Stopping ph'"]) (use loop s0 th in auto)
next
  case finish
  have "card (putters c) = 0" using inv finish(4) s0(4) by (simp add: sys_inv_def counts_ok_def)
  then have "\<not> is_putting (thr c j)" for j using inv by (auto simp: sys_inv_def counts_ok_def putters_def)
  then have none: "thr c j \<noteq> PutWaiting r t a w" for j r t a w by (metis is_putting.simps(1))
  have wf: "sync_queue_wf s0" "sync_queue_wf s'" "sync_queue_ok sz s'"
    using deleteAll_ok [OF nn, of s0] finish(3) inv s0 sync_queue_ok_frame [of sz "sq c" s0]
    by (auto simp: sys_inv_def sync_queue_ok_def)
  then have empty: "firstNonEmptyQueueIndex s' < 0"
    using queue_content_empty_iff [of s'] finish(3) deleteAll_content [OF wf(1)]
    by (simp add: firstNonEmptyQueueIndex_neg)
  have thr: "thr ?c = (wake sig \<circ> thr c)(i := after_stop res)" by simp
  have len: "length (objs s') = length (objs s0)" using finish(3) by (simp add: SyncQueue_deleteAll_def)
  have 2: "counts_ok ?c"
    by (rule counts_ok_update [OF _ thr], use inv in \<open>simp add: sys_inv_def\<close>)
       (use finish th s0 in \<open>auto simp: SyncQueue_deleteAll_def\<close>)
  have 3: "history_ok ?c" using inv finish deleteAll_content [OF wf(1)]
    by (simp add: sys_inv_def history_ok_def)
  have 4: "no_lost_wakeup sz ?c"
    using none empty finish(1) by (auto simp: no_lost_wakeup_def wake_PutWaiting)
  have 5: "pointers_ok ?c" using none finish(1) by (auto simp: pointers_ok_def wake_PutWaiting)
  show ?thesis unfolding sys_inv_def using wf 2 3 4 5 by simp
qed

lemma sys_inv_frame:
  assumes "sys_inv sz c" and "objs (sq c') = objs (sq c)" and "queues (sq c') = queues (sq c)"
    and "priority2queue (sq c') = priority2queue (sq c)"
    and "waitingWriters (sq c') = waitingWriters (sq c)" and "waitingReaders (sq c') = waitingReaders (sq c)"
    and "thr c' = thr c" and "accepted c' = accepted c" and "removed c' = removed c"
  shows "sys_inv sz c'"
  using assms queue_content_cong [of "sq c'" "sq c"] firstNonEmpty_cong [of "sq c'" "sq c"]
    sync_queue_ok_frame [of sz "sq c" "sq c'"]
  by (simp add: sys_inv_def counts_ok_def putters_def getters_def history_ok_def no_lost_wakeup_def pointers_ok_def)

lemma sys_step_inv:
  assumes nn: "\<forall>x. 0 \<le> sz x" and "sys_step sz c c'" and inv: "sys_inv sz c"
  shows "sys_inv sz c'"
  using assms(2)
proof cases
  case (put_cancelled i r t p res sig s')
  then show ?thesis using inv by (auto simp: PutItem_enter_def intro: sys_inv_frame)
next
  case (put_enter i r t p res sig s' a)
  then have sect: "PutItem_section sz r t a (sq c) = (res, sig, s')" by (simp add: PutItem_enter_def)
  have a: "a < length (objs (sq c))" "prio_at (sq c) a = p"
    using put_enter(6) inv sync_queue_wfD by (auto simp: sys_inv_def sync_queue_ok_def)
  show ?thesis using put_section_inv [OF nn inv _ _ _ _ _ _ _ a(1) sect, of i] put_enter a(2) by simp
next
  case (put_resume i r t a w timedOut res sig s')
  let ?s0 = "(sq c)\<lparr>waitingWriters := waitingWriters (sq c) - 1\<rparr>"
  have a: "a < length (objs (sq c))" using put_resume(2) inv unfolding sys_inv_def pointers_ok_def by metis
  show ?thesis
  proof (cases "cancel (sq c) \<or> timedOut")
    case True
    then have "s' = ?s0" "res = Returns False" "sig = NoSignal"
      using put_resume by (auto simp: PutItem_resume_def)
    then show ?thesis using put_resume by (intro leave_inv [OF inv, of s' i]) (auto simp: note_put_def)
  next
    case False
    then have sect: "PutItem_section sz r t a ?s0 = (res, sig, s')"
      using put_resume by (auto simp: PutItem_resume_def)
    show ?thesis using put_section_inv [OF nn inv _ _ _ _ _ _ _ a sect, of i] put_resume by simp
  qed
next
  case (get_enter i t res sig s')
  show ?thesis
  proof (cases "cancel (sq c)")
    case True
    then have "s' = sq c" "res = Returns None" "sig = NoSignal"
      using get_enter by (auto simp: GetItem_enter_def)
    then show ?thesis using get_enter by (intro leave_inv [OF inv, of s' i]) auto
  next
    case False
    then have sect: "GetItem_section sz t (sq c) = (res, sig, s')" using get_enter by (auto simp: GetItem_enter_def)
    show ?thesis using get_section_inv [OF nn inv _ _ _ _ _ _ _ sect, of i] get_enter by simp
  qed
next
  case (get_resume i t w timedOut res sig s')
  let ?s0 = "(sq c)\<lparr>waitingReaders := waitingReaders (sq c) - 1\<rparr>"
  show ?thesis
  proof (cases "cancel (sq c) \<or> timedOut")
    case True
    then have "s' = ?s0" "res = Returns None" "sig = NoSignal"
      using get_resume by (auto simp: GetItem_resume_def)
    then show ?thesis using get_resume by (intro leave_inv [OF inv, of s' i]) auto
  next
    case False
    then have sect: "GetItem_section sz t ?s0 = (res, sig, s')" using get_resume by (auto simp: GetItem_resume_def)
    show ?thesis using get_section_inv [OF nn inv _ _ _ _ _ _ _ sect, of i] get_resume by simp
  qed
next
  case (stop_enter i res sig s')
  then show ?thesis using stop_section_inv [OF nn inv _ _ _ _ _ _ _ stop_enter(3), of i]
    by (simp add: Stop_begin_def)
next
  case (stop_continue i ph res sig s')
  then show ?thesis using stop_section_inv [OF nn inv _ _ _ _ _ _ _ stop_continue(3), of i] by simp
qed (use inv in \<open>auto simp: SyncQueue_Start_def intro: sys_inv_frame\<close>)

lemma configured_ok:
  "configured s \<Longrightarrow> sync_queue_ok sz s \<and> waitingReaders s = 0 \<and> waitingWriters s = 0 \<and> (\<forall>q\<in>set (objs s). sq_queue q = [])"
proof (induction rule: configured.induct)
  case new
  then show ?case using SyncQueue_new_ok by (simp add: SyncQueue_new_def)
next
  case (add s p mi ms s')
  then have "sync_queue_ok sz s'" using addQueue_ok by blast
  then show ?case using add by (auto simp: SyncQueue_addQueue_def SimpleQueue_new_def Let_def split: if_splits)
qed

lemma init_inv:
  assumes "configured s"
  shows "sys_inv sz (init_sys s)"
proof -
  note ok = configured_ok [OF assms, of sz]
  have "queue_content s p = []" for p
    using ok sync_queue_wfD(1) [of s p] by (auto simp: queue_content_def sync_queue_ok_def split: option.splits)
  then show ?thesis using ok
    by (simp add: sys_inv_def init_sys_def counts_ok_def putters_def getters_def history_ok_def
        no_lost_wakeup_def pointers_ok_def)
qed

lemma reach_inv:
  assumes "\<forall>x. 0 \<le> sz x" and "reach sz c"
  shows "sys_inv sz c"
  using assms(2) by (induction rule: reach.induct) (auto intro: init_inv sys_step_inv [OF assms(1)])

section \<open>Properties\<close>

text \<open>A small system used by the witnesses: one sub-queue of priority 0 for at most two items.\<close>

definition demo_queue :: "nat sync_queue" where
  "demo_queue = \<lparr>objs = [SimpleQueue_new 0 2 0], queues = [0], priority2queue = [0 \<mapsto> 0],
     waitingReaders = 0, waitingWriters = 0, cancel = False\<rparr>"

definition demo_sys :: "nat sys" where
  "demo_sys = (init_sys demo_queue)\<lparr>
     sq := demo_queue\<lparr>objs := [SimpleQueue_PutItem (\<lambda>_. 1) 7 (SimpleQueue_new 0 2 0)]\<rparr>,
     accepted := (\<lambda>_. [])(0 := [7])\<rparr>"

lemma demo_configured: "configured demo_queue"
  by (rule configured.add [OF configured.new, of 0 2 0])
     (simp add: SyncQueue_addQueue_def SyncQueue_new_def demo_queue_def)

lemma demo_step: "sys_step (\<lambda>_. 1) (init_sys demo_queue) demo_sys"
proof -
  let ?s = "demo_queue\<lparr>objs := [SimpleQueue_PutItem (\<lambda>_. 1) 7 (SimpleQueue_new 0 2 0)]\<rparr>"
  have "PutItem_enter (\<lambda>_. 1) 7 None 0 (sq (init_sys demo_queue)) = Inr (Returns True, SignalRecv, ?s)"
    by (simp add: PutItem_enter_def PutItem_section_def init_sys_def demo_queue_def simple_queue_defs)
  then have "sys_step (\<lambda>_. 1) (init_sys demo_queue)
      ((init_sys demo_queue)\<lparr>sq := ?s, thr := (wake SignalRecv \<circ> thr (init_sys demo_queue))(0 := after_put (Returns True) 7 None 0),
       accepted := note_put 0 7 (Returns True) (accepted (init_sys demo_queue))\<rparr>)"
    by (rule sys_step.put_enter [rotated 3]) (simp_all add: init_sys_def demo_queue_def)
  also have "(init_sys demo_queue)\<lparr>sq := ?s, thr := (wake SignalRecv \<circ> thr (init_sys demo_queue))(0 := after_put (Returns True) 7 None 0),
       accepted := note_put 0 7 (Returns True) (accepted (init_sys demo_queue))\<rparr> = demo_sys"
    by (auto simp: demo_sys_def init_sys_def note_put_def)
  finally show ?thesis .
qed

lemma demo_reach: "reach (\<lambda>_. 1) demo_sys"
  by (rule reach.step [OF reach.init [OF demo_configured] demo_step])



text \<open>
  C2: under any interleaving each sub-queue is FIFO and loses nothing: what was accepted under a
  priority is what left it (taken by readers or discarded by \<open>Stop\<close>), in the same order, followed by
  what is still queued.
\<close>

theorem reachable_fifo:
  assumes "\<forall>x. 0 \<le> sz x" and "reach sz c"
  shows "accepted c p = removed c p @ queue_content (sq c) p"
  using reach_inv [OF assms] by (simp add: sys_inv_def history_ok_def)

theorem reachable_fifo_witness:
  "accepted demo_sys 0 = removed demo_sys 0 @ queue_content (sq demo_sys) 0 \<and> accepted demo_sys 0 = [7]"
  using reachable_fifo [OF _ demo_reach, of 0] by (simp add: demo_sys_def)

text \<open>
  C3: no wake-up is lost.  A reader that waits and has not been signalled waits on an empty queue; a
  writer that waits and has not been signalled waits for a sub-queue without space for its item.
\<close>

theorem reachable_no_lost_wakeup:
  assumes "\<forall>x. 0 \<le> sz x" and "reach sz c"
  shows "(\<forall>i t p. thr c i = GetWaiting t False \<longrightarrow> queue_content (sq c) p = []) \<and>
     (\<forall>i r t a. thr c i = PutWaiting r t a False \<longrightarrow> \<not> SimpleQueue_IsSpaceFor (objs (sq c) ! a) (sz r))"
proof -
  note inv = reach_inv [OF assms]
  then have "sync_queue_wf (sq c)" by (simp add: sys_inv_def sync_queue_ok_def)
  then show ?thesis using inv queue_content_empty_iff firstNonEmptyQueueIndex_neg
    by (metis no_lost_wakeup_def sys_inv_def)
qed

lemma demo_waiting:
  "reach (\<lambda>_. 1) ((init_sys demo_queue)\<lparr>sq := demo_queue\<lparr>waitingReaders := 1\<rparr>,
     thr := (\<lambda>_. Idle)(3 := GetWaiting (Some \<lparr>tv_sec = 0, tv_usec = 0\<rparr>) False)\<rparr>)"
proof -
  let ?t = "Some \<lparr>tv_sec = 0, tv_usec = 0\<rparr>"
  have "GetItem_enter (\<lambda>_. 1) ?t (sq (init_sys demo_queue)) = (Waits, NoSignal, demo_queue\<lparr>waitingReaders := 1\<rparr>)"
    by (simp add: GetItem_enter_def GetItem_section_def init_sys_def demo_queue_def
        firstNonEmptyQueueIndex_def simple_queue_defs)
  from sys_step.get_enter [OF _ _ this, of 3] show ?thesis
    by (intro reach.step [OF reach.init [OF demo_configured]]) (simp add: init_sys_def comp_def)
qed

theorem reachable_no_lost_wakeup_witness: "queue_content (demo_queue\<lparr>waitingReaders := 1\<rparr>) 0 = []"
  using reachable_no_lost_wakeup [OF _ demo_waiting] by simp

text \<open>
  \<open>waitingReaders\<close> and \<open>waitingWriters\<close> are exactly the numbers of threads inside \<open>WaitRecv\<close> and
  \<open>WaitSend\<close>; this is what the loops of \<open>Stop\<close> rely on.
\<close>

theorem reachable_wait_counters:
  assumes "\<forall>x. 0 \<le> sz x" and "reach sz c"
  shows "waitingReaders (sq c) = int (card {i. is_getting (thr c i)}) \<and>
         waitingWriters (sq c) = int (card {i. is_putting (thr c i)})"
  using reach_inv [OF assms] by (simp add: sys_inv_def counts_ok_def putters_def getters_def)

theorem reachable_wait_counters_witness:
  "int (card {i. is_getting (((\<lambda>_. Idle)(3 := GetWaiting (Some \<lparr>tv_sec = 0, tv_usec = 0\<rparr>) False)) i :: nat thread_state)}) = 1"
  using reachable_wait_counters [OF _ demo_waiting] by simp



end
