(* ===== verification/Common.thy ===== *)
theory Common
  imports Prelude
begin

text \<open>
  The helpers of \<^verbatim>\<open>src/lib/common.cc\<close> and \<^verbatim>\<open>src/lib/common.h\<close>: trimming, splitting and joining of
  strings, replacement of substrings, full reads and writes on a descriptor, the conversions between
  numbers and strings and the construction of a deadline.  A \<^verbatim>\<open>std::string\<close> is a list of characters
  (bytes); the indices of the loops are natural numbers, which is exact for strings shorter than
  4 GB.  The conversions of floating-point numbers are not modelled.
\<close>

section \<open>Trimming\<close>

text \<open>The characters of the literal \<^verbatim>\<open>" \t\n\r"\<close> and those of \<^verbatim>\<open>isspace\<close> in the C locale.\<close>

definition ws_chars :: "char list" where
  "ws_chars = [CHR 0x20, CHR 0x09, CHR 0x0A, CHR 0x0D]"

definition isspace :: "char \<Rightarrow> bool" where
  "isspace c \<longleftrightarrow> c \<in> set [CHR 0x20, CHR 0x09, CHR 0x0A, CHR 0x0B, CHR 0x0C, CHR 0x0D]"

fun find_first_not_of :: "string \<Rightarrow> char list \<Rightarrow> nat option" where
  "find_first_not_of [] cs = None"
| "find_first_not_of (x # xs) cs =
     (if x \<in> set cs then map_option Suc (find_first_not_of xs cs) else Some 0)"

fun find_last_not_of :: "string \<Rightarrow> char list \<Rightarrow> nat option" where
  "find_last_not_of [] cs = None"
| "find_last_not_of (x # xs) cs =
     (case find_last_not_of xs cs of
        Some i \<Rightarrow> Some (Suc i)
      | None \<Rightarrow> if x \<in> set cs then None else Some 0)"

definition skipWs :: "string \<Rightarrow> string" where
  "skipWs data =
     (case find_first_not_of data ws_chars of
        Some offset \<Rightarrow> drop offset data
      | None \<Rightarrow> [])"

definition chomp :: "string \<Rightarrow> string" where
  "chomp data =
     (case find_last_not_of data ws_chars of
        Some offset \<Rightarrow> take (offset + 1) data
      | None \<Rightarrow> [])"

section \<open>Splitting and joining\<close>

definition substr :: "string \<Rightarrow> nat \<Rightarrow> nat \<Rightarrow> string" where
  "substr data pos n = take n (drop pos data)"

text \<open>The inner loops of \<^verbatim>\<open>splitOnWs\<close> advance an index while a test holds.\<close>

function advance :: "(char \<Rightarrow> bool) \<Rightarrow> string \<Rightarrow> nat \<Rightarrow> nat" where
  "advance P data i = (if i < length data \<and> P (data ! i) then advance P data (Suc i) else i)"
  by pat_completeness auto
termination by (relation "measure (\<lambda>(P, data, i). length data - i)") auto

declare advance.simps [simp del]

lemma advance_le: "i \<le> length data \<Longrightarrow> i \<le> advance P data i \<and> advance P data i \<le> length data"
  by (induction P data i rule: advance.induct) (subst (1 2) advance.simps, auto)

lemma advance_takeWhile:
  "substr data i (advance P data i - i) = takeWhile P (drop i data) \<and>
   drop (advance P data i) data = dropWhile P (drop i data)"
proof (induction P data i rule: advance.induct)
  case (1 P data i)
  show ?case
  proof (cases "i < length data \<and> P (data ! i)")
    case True
    then have "Suc i \<le> advance P data (Suc i)" using advance_le [of "Suc i" data P] by simp
    then have "advance P data (Suc i) - i = Suc (advance P data (Suc i) - Suc i)" by simp
    with 1 [OF True] True show ?thesis
      by (simp add: advance.simps [of P data i] substr_def Cons_nth_drop_Suc [symmetric])
  next
    case False
    then show ?thesis
      by (cases "i < length data")
        (auto simp: advance.simps [of P data i] substr_def Cons_nth_drop_Suc [symmetric])
  qed
qed

lemma advance_Suc:
  "i < length data \<Longrightarrow> P (data ! i) \<Longrightarrow> i < advance P data i"
  using advance_le [of "Suc i" data P] by (simp add: advance.simps [of P data i])

lemma advance_stop:
  "advance P data i < length data \<Longrightarrow> \<not> P (data ! advance P data i)"
  by (induction P data i rule: advance.induct) (metis advance.simps)

function splitOnWs_loop :: "string \<Rightarrow> nat \<Rightarrow> string list \<Rightarrow> string list" where
  "splitOnWs_loop data b result =
     (if b < length data then
        let b1 = advance isspace data b;
            e = advance (\<lambda>c. \<not> isspace c) data b1
        in if b1 < length data then splitOnWs_loop data e (result @ [substr data b1 (e - b1)])
           else splitOnWs_loop data b1 result
      else result)"
  by pat_completeness auto
termination
proof (relation "measure (\<lambda>(data, b, result). length data - b)", goal_cases)
  case (2 data b result b1 e)
  then have "b \<le> b1" "b1 < e" using advance_le [of b data] advance_stop [of isspace data b]
    by (auto intro: advance_Suc)
  with 2 show ?case by simp
next
  case (3 data b result b1 e)
  then show ?case using advance_le [of b data] by simp
qed simp

declare splitOnWs_loop.simps [simp del]

definition splitOnWs :: "string \<Rightarrow> string list" where
  "splitOnWs data = splitOnWs_loop data 0 []"

function split_loop :: "char \<Rightarrow> string \<Rightarrow> nat \<Rightarrow> nat \<Rightarrow> string list \<Rightarrow> nat \<times> string list" where
  "split_loop c data i b result =
     (if i < length data then
        if data ! i = c then split_loop c data (Suc i) (Suc i) (result @ [substr data b (i - b)])
        else split_loop c data (Suc i) b result
      else (b, result))"
  by pat_completeness auto
termination by (relation "measure (\<lambda>(c, data, i, b, result). length data - i)") auto

declare split_loop.simps [simp del]

definition split :: "char \<Rightarrow> string \<Rightarrow> string list" where
  "split c data =
     (case split_loop c data 0 0 [] of
        (b, result) \<Rightarrow> if b < length data then result @ [drop b data] else result)"

text \<open>Both overloads of \<^verbatim>\<open>join\<close>: the first appends a string between the items, the second one character.\<close>

fun join_loop :: "string \<Rightarrow> bool \<Rightarrow> string list \<Rightarrow> string \<Rightarrow> string" where
  "join_loop glue first [] result = result"
| "join_loop glue first (d # data) result =
     join_loop glue False data ((if first then result else result @ glue) @ d)"

definition join :: "string \<Rightarrow> string list \<Rightarrow> string" where
  "join glue data = join_loop glue True data []"

definition join_char :: "char \<Rightarrow> string list \<Rightarrow> string" where
  "join_char glue data = join_loop [glue] True data []"

section \<open>Replacement\<close>

text \<open>\<^verbatim>\<open>s.find(sub, offset)\<close> and the loop of \<^verbatim>\<open>replace_all\<close>, which never ends for an empty \<^verbatim>\<open>sub\<close>.\<close>

function find_from :: "string \<Rightarrow> string \<Rightarrow> nat \<Rightarrow> nat option" where
  "find_from s sub offset =
     (if offset \<le> length s then
        if take (length sub) (drop offset s) = sub then Some offset else find_from s sub (Suc offset)
      else None)"
  by pat_completeness auto
termination by (relation "measure (\<lambda>(s, sub, offset). Suc (length s) - offset)") auto

declare find_from.simps [simp del]

partial_function (option) replace_all_loop :: "string \<Rightarrow> string \<Rightarrow> nat \<Rightarrow> string \<Rightarrow> string option" where
  "replace_all_loop sub other offset s =
     (case find_from s sub offset of
        None \<Rightarrow> Some s
      | Some off \<Rightarrow>
          replace_all_loop sub other (off + length other)
            (take off s @ other @ drop (off + length sub) s))"

definition replace_all :: "string \<Rightarrow> string \<Rightarrow> string \<Rightarrow> string option" where
  "replace_all s sub other = replace_all_loop sub other 0 s"

section \<open>Full reads and writes\<close>

text \<open>
  What one system call answers: interrupted (\<^verbatim>\<open>EINTR\<close>), failed, or a transfer.  The answers of the
  kernel are a list the loop consumes; \<open>None\<close> is a loop that still waits for the next answer.
\<close>

datatype 'a io_result = Interrupted | IoFailed | Transferred 'a

fun WriteBytes_loop :: "nat io_result list \<Rightarrow> string \<Rightarrow> nat \<Rightarrow> int \<Rightarrow> string \<Rightarrow> (int \<times> string) option" where
  "WriteBytes_loop rs data offset n sent =
     (if n > 0 then
        case rs of
          [] \<Rightarrow> None
        | Interrupted # rs' \<Rightarrow> WriteBytes_loop rs' data offset n sent
        | IoFailed # rs' \<Rightarrow> Some (- 1, sent)
        | Transferred wr # rs' \<Rightarrow>
            if wr = 0 then Some (0, sent)
            else WriteBytes_loop rs' data (offset + wr) (n - int wr) (sent @ substr data offset wr)
      else Some (int offset, sent))"

definition WriteBytes :: "nat io_result list \<Rightarrow> string \<Rightarrow> int \<Rightarrow> (int \<times> string) option" where
  "WriteBytes rs data n = WriteBytes_loop rs data 0 n []"

fun ReadBytes_loop :: "string io_result list \<Rightarrow> nat \<Rightarrow> int \<Rightarrow> string \<Rightarrow> (int \<times> string) option" where
  "ReadBytes_loop rs offset n buf =
     (if n > 0 then
        case rs of
          [] \<Rightarrow> None
        | Interrupted # rs' \<Rightarrow> ReadBytes_loop rs' offset n buf
        | IoFailed # rs' \<Rightarrow> Some (- 1, buf)
        | Transferred bs # rs' \<Rightarrow>
            if bs = [] then Some (int offset, buf)
            else ReadBytes_loop rs' (offset + length bs) (n - int (length bs)) (buf @ bs)
      else Some (int offset, buf))"

definition ReadBytes :: "string io_result list \<Rightarrow> int \<Rightarrow> (int \<times> string) option" where
  "ReadBytes rs n = ReadBytes_loop rs 0 n []"

declare WriteBytes_loop.simps [simp del] ReadBytes_loop.simps [simp del]

section \<open>Conversions\<close>

definition str2bool :: "string \<Rightarrow> int" where
  "str2bool value =
     (let first = (case value of [] \<Rightarrow> CHR 0x00 | c # _ \<Rightarrow> c) in
      if value = ''0'' \<or> first = CHR ''f'' \<or> first = CHR ''F'' then 0
      else if value = ''1'' \<or> first = CHR ''t'' \<or> first = CHR ''T'' then 1
      else - 1)"

definition bool2str :: "bool \<Rightarrow> string" where
  "bool2str value = (if value then ''1'' else ''0'')"

text \<open>
  The decimal formats of \<^verbatim>\<open>snprintf\<close>, and \<^verbatim>\<open>atoi\<close> and \<^verbatim>\<open>sscanf\<close>: leading space, a sign, the longest run
  of digits, 0 without a digit.  A value the type cannot hold is undefined behaviour, \<open>None\<close> here.
\<close>

definition digit_of :: "nat \<Rightarrow> char" where
  "digit_of d = char_of (48 + d)"

definition is_digit :: "char \<Rightarrow> bool" where
  "is_digit c \<longleftrightarrow> 48 \<le> (of_char c :: nat) \<and> (of_char c :: nat) \<le> 57"

fun show_nat :: "nat \<Rightarrow> string" where
  "show_nat n = (if n < 10 then [digit_of n] else show_nat (n div 10) @ [digit_of (n mod 10)])"

definition show_int :: "int \<Rightarrow> string" where
  "show_int v = (if v < 0 then CHR ''-'' # show_nat (nat (- v)) else show_nat (nat v))"

definition digits_value :: "nat \<Rightarrow> string \<Rightarrow> nat" where
  "digits_value acc ds = foldl (\<lambda>v c. 10 * v + (of_char c - 48)) acc ds"

definition read_int :: "string \<Rightarrow> int" where
  "read_int value =
     (case dropWhile isspace value of
        [] \<Rightarrow> 0
      | c # cs \<Rightarrow>
          if c = CHR ''-'' then - int (digits_value 0 (takeWhile is_digit cs))
          else if c = CHR ''+'' then int (digits_value 0 (takeWhile is_digit cs))
          else int (digits_value 0 (takeWhile is_digit (c # cs))))"

definition fits :: "nat \<Rightarrow> int \<Rightarrow> bool" where
  "fits w v \<longleftrightarrow> - (2 ^ (w - 1)) \<le> v \<and> v < 2 ^ (w - 1)"

definition str2int :: "string \<Rightarrow> int option" where
  "str2int value = (if fits 32 (read_int value) then Some (read_int value) else None)"

definition int2str :: "int \<Rightarrow> string" where
  "int2str value = show_int value"

definition str2long :: "string \<Rightarrow> int option" where
  "str2long value = (if fits 64 (read_int value) then Some (read_int value) else None)"

definition long2str :: "int \<Rightarrow> string" where
  "long2str value = show_int value"

text \<open>What a C string made from a string contains: everything before the first null character.\<close>

definition c_str :: "string \<Rightarrow> string" where
  "c_str s = takeWhile (\<lambda>c. c \<noteq> CHR 0x00) s"

text \<open>\<^verbatim>\<open>snprintf\<close> into a buffer of \<open>n\<close> characters.\<close>

definition snprintf :: "nat \<Rightarrow> string \<Rightarrow> string" where
  "snprintf n s = take (n - 1) s"

text \<open>\<^verbatim>\<open>strcasecmp\<close> is not zero when the strings differ.\<close>

definition to_lower :: "char \<Rightarrow> char" where
  "to_lower ch = (let n = of_char ch :: nat in if 65 \<le> n \<and> n \<le> 90 then char_of (n + 32) else ch)"

definition strcasecmp :: "string \<Rightarrow> string \<Rightarrow> bool" where
  "strcasecmp s t = (map to_lower (c_str s) \<noteq> map to_lower (c_str t))"

text \<open>Conversions to a signed and to an unsigned integer type of \<open>w\<close> bits.\<close>

definition wrap_signed :: "nat \<Rightarrow> int \<Rightarrow> int" where
  "wrap_signed w i = (i + 2 ^ (w - 1)) mod 2 ^ w - 2 ^ (w - 1)"

definition wrap_unsigned :: "nat \<Rightarrow> int \<Rightarrow> int" where
  "wrap_unsigned w i = i mod 2 ^ w"

section \<open>Deadlines\<close>

text \<open>C's division truncates towards zero.\<close>

definition c_div :: "int \<Rightarrow> int \<Rightarrow> int" where
  "c_div a b = sgn a * sgn b * (\<bar>a\<bar> div \<bar>b\<bar>)"

definition c_mod :: "int \<Rightarrow> int \<Rightarrow> int" where
  "c_mod a b = a - b * c_div a b"

text \<open>The first argument is what \<^verbatim>\<open>gettimeofday\<close> answers.\<close>

definition ConstructTimeout :: "timeval \<Rightarrow> int \<Rightarrow> timeval" where
  "ConstructTimeout now usec =
     (let tv = now\<lparr>tv_sec := tv_sec now + c_div usec 1000000, tv_usec := tv_usec now + c_mod usec 1000000\<rparr>
      in if tv_usec tv > 1000000 then tv\<lparr>tv_usec := tv_usec tv - 1000000, tv_sec := tv_sec tv + 1\<rparr> else tv)"

section \<open>Lemmas on trimming and splitting\<close>

lemma skipWs_dropWhile: "skipWs data = dropWhile (\<lambda>c. c \<in> set ws_chars) data"
  unfolding skipWs_def by (induction data) (auto split: option.splits)

lemma chomp_rev: "chomp data = rev (dropWhile (\<lambda>c. c \<in> set ws_chars) (rev data))"
proof -
  have "(find_last_not_of data cs = None \<longleftrightarrow> set data \<subseteq> set cs) \<and>
    (\<forall>i. find_last_not_of data cs = Some i \<longrightarrow>
       take (i + 1) data = rev (dropWhile (\<lambda>c. c \<in> set cs) (rev data)))" for cs
    by (induction data) (auto simp: dropWhile_append split: option.splits if_splits)
  then show ?thesis by (auto simp: chomp_def split: option.splits)
qed

text \<open>The reference: the maximal runs of non-space characters.\<close>

function words :: "string \<Rightarrow> string list" where
  "words [] = []"
| "words (c # cs) =
     (if isspace c then words cs
      else takeWhile (\<lambda>c. \<not> isspace c) (c # cs) # words (dropWhile (\<lambda>c. \<not> isspace c) (c # cs)))"
  by pat_completeness auto
termination by (relation "measure length") (auto simp: le_imp_less_Suc length_dropWhile_le)

lemma words_dropWhile_space: "words (dropWhile isspace s) = words s"
  by (induction s) auto

lemma splitOnWs_loop_words: "splitOnWs_loop data b result = result @ words (drop b data)"
proof (induction data b result rule: splitOnWs_loop.induct)
  case (1 data b result)
  define b1 where "b1 = advance isspace data b"
  define e where "e = advance (\<lambda>c. \<not> isspace c) data b1"
  have b1: "drop b1 data = dropWhile isspace (drop b data)"
    using advance_takeWhile by (simp add: b1_def)
  have e: "substr data b1 (e - b1) = takeWhile (\<lambda>c. \<not> isspace c) (drop b1 data)"
      "drop e data = dropWhile (\<lambda>c. \<not> isspace c) (drop b1 data)"
    using advance_takeWhile [of data b1 "\<lambda>c. \<not> isspace c"] by (simp_all add: e_def)
  show ?case
  proof (cases "b < length data")
    case False
    then show ?thesis by (simp add: splitOnWs_loop.simps [of data b])
  next
    case b: True
    show ?thesis
    proof (cases "b1 < length data")
      case True
      then have "\<not> isspace (data ! b1)" using advance_stop [of isspace data b] by (simp add: b1_def)
      then have "words (drop b1 data) = substr data b1 (e - b1) # words (drop e data)"
        using True e by (simp add: Cons_nth_drop_Suc [symmetric])
      then show ?thesis
        using 1(1) [OF b b1_def e_def True] b True words_dropWhile_space [of "drop b data"]
        by (simp add: splitOnWs_loop.simps [of data b] b1 [symmetric] flip: b1_def e_def)
    next
      case False
      then show ?thesis using 1(2) [OF b b1_def e_def False] b words_dropWhile_space [of "drop b data"]
        by (simp add: splitOnWs_loop.simps [of data b] b1 [symmetric] flip: b1_def e_def)
    qed
  qed
qed

text \<open>The reference for \<^verbatim>\<open>split\<close>: the fields between the separators, without an empty last one.\<close>

function fields :: "char \<Rightarrow> string \<Rightarrow> string list" where
  "fields c [] = []"
| "fields c (x # xs) =
     takeWhile (\<lambda>y. y \<noteq> c) (x # xs) # fields c (drop 1 (dropWhile (\<lambda>y. y \<noteq> c) (x # xs)))"
  by pat_completeness auto
termination
  by (relation "measure (\<lambda>(c, s). length s)")
    (auto intro!: le_imp_less_Suc intro: le_trans [OF diff_le_self length_dropWhile_le])

lemma fields_sep: "c \<notin> set f \<Longrightarrow> fields c (f @ c # s) = f # fields c s"
  by (cases f) (auto simp: takeWhile_append dropWhile_append takeWhile_eq_all_conv)

lemma fields_last: "c \<notin> set f \<Longrightarrow> f \<noteq> [] \<Longrightarrow> fields c f = [f]"
  using fields.simps(2) [of c "hd f" "tl f"]
    takeWhile_eq_all_conv [of "\<lambda>y. y \<noteq> c" f] dropWhile_eq_Nil_conv [of "\<lambda>y. y \<noteq> c" f]
  by (metis drop_Nil fields.simps(1) list.collapse)

lemma split_loop_fields:
  assumes "b \<le> i" and "i \<le> length data" and "c \<notin> set (substr data b (i - b))"
    and "split_loop c data i b result = (b', r)"
  shows "result @ fields c (drop b data) = (if b' < length data then r @ [drop b' data] else r)"
  using assms
proof (induction c data i b result arbitrary: b' r rule: split_loop.induct)
  case (1 c data i b result)
  show ?case
  proof (cases "i < length data")
    case False
    then have "i = length data" using 1 by simp
    then have "substr data b (i - b) = drop b data" by (simp add: substr_def)
    then show ?thesis using 1(5,6) False by (cases "b < length data") (auto simp: fields_last split_loop.simps [of c data i])
  next
    case True
    have S: "substr data b (Suc i - b) = substr data b (i - b) @ [data ! i]"
      using 1(3) True by (simp add: substr_def Suc_diff_le take_Suc_conv_app_nth)
    show ?thesis
    proof (cases "data ! i = c")
      case sep: True
      have "drop b data = substr data b (i - b) @ c # drop (Suc i) data"
        using 1(3) True sep by (metis Cons_nth_drop_Suc append_take_drop_id drop_drop le_add_diff_inverse2 substr_def)
      then have "fields c (drop b data) = substr data b (i - b) # fields c (drop (Suc i) data)"
        using 1(5) fields_sep by metis
      then show ?thesis using 1(1) [OF True sep, of b' r] 1(6) True sep
        by (simp add: split_loop.simps [of c data i] substr_def)
    next
      case False
      then show ?thesis using 1(2) [OF True False, of b' r] 1(3,5,6) True S
        by (simp add: split_loop.simps [of c data i])
    qed
  qed
qed

lemma split_fields: "split c data = fields c data"
  using split_loop_fields [of 0 0 data c "[]"]
  by (auto simp: split_def substr_def split: prod.splits)

lemma join_loop_append: "join_loop glue first data result = result @ join_loop glue first data []"
proof (induction data arbitrary: first result)
  case (Cons d data)
  from Cons [of False "(if first then result else result @ glue) @ d"]
    Cons [of False "(if first then [] else glue) @ d"]
  show ?case by (cases first) simp_all
qed simp

lemma join_loop_False: "join_loop glue False data [] = concat (map (\<lambda>d. glue @ d) data)"
proof (induction data)
  case (Cons d data)
  then show ?case using join_loop_append [of glue False data "glue @ d"] by simp
qed simp

lemma join_loop_True:
  "join_loop glue True data [] = (case data of [] \<Rightarrow> [] | d # ds \<Rightarrow> d @ concat (map (\<lambda>d. glue @ d) ds))"
  using join_loop_append [of glue False _ "hd data"] by (auto simp: join_loop_False split: list.split)

lemma join_char_simps [simp]:
  "join_char c [] = []" "join_char c [d] = d"
  "join_char c (d # e # ds) = d @ c # join_char c (e # ds)"
  by (simp_all add: join_char_def join_loop_True del: join_loop.simps)

lemma fields_eq_Nil_iff [simp]: "fields c s = [] \<longleftrightarrow> s = []"
  by (cases s) auto

lemma join_fields:
  "join_char c (fields c s) = (if s \<noteq> [] \<and> last s = c then butlast s else s)"
proof (induction "length s" arbitrary: s rule: less_induct)
  case less
  show ?case
  proof (cases "c \<in> set s")
    case False
    then show ?thesis using fields_last [of c s] last_in_set [of s] by (cases "s = []") auto
  next
    case True
    then obtain f t where s: "s = f @ c # t" "c \<notin> set f" using split_list_first by fast
    then have IH: "join_char c (fields c t) = (if t \<noteq> [] \<and> last t = c then butlast t else t)"
      using less by simp
    show ?thesis
    proof (cases "fields c t")
      case Nil
      then show ?thesis using s by (simp add: fields_sep)
    next
      case (Cons e es)
      then have "t \<noteq> []" by auto
      then show ?thesis using s IH Cons by (simp add: fields_sep butlast_append)
    qed
  qed
qed

section \<open>Lemmas on replacement\<close>

text \<open>The reference: scan from the left, replace every occurrence met, continue behind it.\<close>

function replace_ref :: "string \<Rightarrow> string \<Rightarrow> string \<Rightarrow> string" where
  "replace_ref sub other [] = []"
| "replace_ref sub other (c # cs) =
     (if sub \<noteq> [] \<and> take (length sub) (c # cs) = sub
      then other @ replace_ref sub other (drop (length sub) (c # cs))
      else c # replace_ref sub other cs)"
  by pat_completeness auto
termination by (relation "measure (\<lambda>(sub, other, s). length s)") (auto simp: Suc_le_eq diff_less_Suc)

lemma replace_all_loop_ref:
  assumes "sub \<noteq> []"
  shows "replace_all_loop sub other (length pre) (pre @ s) = Some (pre @ replace_ref sub other s)"
  using assms
proof (induction sub other s arbitrary: pre rule: replace_ref.induct)
  case (1 sub other)
  then show ?case
    by (simp add: replace_all_loop.simps [of sub] find_from.simps [of _ _ "length pre"] find_from.simps [of _ _ "Suc (length pre)"])
next
  case (2 sub other c cs)
  show ?case
  proof (cases "take (length sub) (c # cs) = sub")
    case True
    then show ?thesis using 2(1) [of "pre @ other"] 2(3)
      by (simp add: replace_all_loop.simps [of sub _ "length pre"] find_from.simps [of _ _ "length pre"])
  next
    case False
    then have "find_from (pre @ c # cs) sub (length pre) = find_from (pre @ c # cs) sub (Suc (length pre))"
      by (simp add: find_from.simps [of _ _ "length pre"])
    then have "replace_all_loop sub other (length pre) (pre @ c # cs) =
        replace_all_loop sub other (Suc (length pre)) (pre @ c # cs)"
      by (simp add: replace_all_loop.simps [of sub])
    then show ?thesis using 2(2) [of "pre @ [c]"] 2(3) False by simp
  qed
qed

section \<open>Lemmas on numbers\<close>

declare show_nat.simps [simp del]

lemma of_char_digit_of [simp]: "d < 10 \<Longrightarrow> (of_char (digit_of d) :: nat) = 48 + d"
  by (simp add: digit_of_def)

lemma is_digit_digit_of [simp]: "d < 10 \<Longrightarrow> is_digit (digit_of d)"
  by (simp add: is_digit_def)

lemma show_nat_digits: "list_all is_digit (show_nat n) \<and> show_nat n \<noteq> []"
  by (induction n rule: show_nat.induct) (subst (1 2) show_nat.simps, simp)

lemma digits_value_show_nat: "digits_value 0 (show_nat n) = n"
  by (induction n rule: show_nat.induct) (subst show_nat.simps, simp add: digits_value_def)

lemma is_digit_not_space: "is_digit c \<Longrightarrow> \<not> isspace c \<and> c \<noteq> CHR ''-'' \<and> c \<noteq> CHR ''+''"
  by (auto simp: is_digit_def isspace_def)

lemma takeWhile_show_nat [simp]: "takeWhile is_digit (show_nat n) = show_nat n"
  using show_nat_digits [of n] by (simp add: takeWhile_eq_all_conv list_all_iff)

lemma read_show_int: "read_int (show_int v) = v"
proof (cases "v < 0")
  case True
  then show ?thesis using digits_value_show_nat [of "nat (- v)"]
    by (simp add: read_int_def show_int_def isspace_def)
next
  case False
  obtain d ds where d: "show_nat (nat v) = d # ds" "is_digit d"
    using show_nat_digits [of "nat v"] by (cases "show_nat (nat v)") auto
  then have "read_int (show_int v) = int (digits_value 0 (takeWhile is_digit (show_nat (nat v))))"
    using False is_digit_not_space [OF d(2)] by (simp add: read_int_def show_int_def)
  then show ?thesis using False by (simp add: digits_value_show_nat)
qed

section \<open>Lemmas on input and output\<close>

text \<open>The contract of the system calls: a transfer is at most as long as the request.\<close>

fun write_contract :: "nat io_result list \<Rightarrow> int \<Rightarrow> bool" where
  "write_contract [] n = True"
| "write_contract (Interrupted # rs) n = write_contract rs n"
| "write_contract (IoFailed # rs) n = True"
| "write_contract (Transferred wr # rs) n = (int wr \<le> n \<and> write_contract rs (n - int wr))"

fun read_contract :: "string io_result list \<Rightarrow> string \<Rightarrow> int \<Rightarrow> bool" where
  "read_contract [] stream n = True"
| "read_contract (Interrupted # rs) stream n = read_contract rs stream n"
| "read_contract (IoFailed # rs) stream n = True"
| "read_contract (Transferred bs # rs) stream n =
     (int (length bs) \<le> n \<and> bs = take (length bs) stream \<and> (bs = [] \<and> n > 0 \<longrightarrow> stream = []) \<and>
      read_contract rs (drop (length bs) stream) (n - int (length bs)))"

lemma WriteBytes_loop_sent:
  assumes "write_contract rs n" and "0 \<le> n" and "offset + nat n \<le> length data"
    and "WriteBytes_loop rs data offset n (take offset data) = Some (r, sent)"
  shows "(r = int offset + n \<and> sent = take (offset + nat n) data) \<or>
         (r \<le> 0 \<and> (\<exists>k. k < offset + nat n \<and> sent = take k data))"
  using assms
proof (induction rs n arbitrary: offset rule: write_contract.induct)
  case (1 n)
  then show ?case by (subst (asm) WriteBytes_loop.simps) (auto split: if_splits)
next
  case (2 rs n)
  then show ?case by (subst (asm) (2) WriteBytes_loop.simps) (auto split: if_splits)
next
  case (3 rs n)
  then show ?case
    by (subst (asm) WriteBytes_loop.simps) (auto split: if_splits intro: exI [of _ offset])
next
  case (4 wr rs n)
  have t: "take offset data @ substr data offset wr = take (offset + wr) data"
    by (simp add: substr_def take_add)
  show ?case
  proof (cases "n > 0 \<and> wr \<noteq> 0")
    case True
    then show ?thesis using 4(1) [of "offset + wr"] 4(2-5) t
      by (subst (asm) (2) WriteBytes_loop.simps) (auto simp: nat_diff_distrib')
  next
    case False
    then show ?thesis using 4(2-5)
      by (subst (asm) WriteBytes_loop.simps) (auto split: if_splits intro: exI [of _ offset])
  qed
qed

lemma ReadBytes_loop_read:
  assumes "read_contract rs stream n" and "0 \<le> n" and "ReadBytes_loop rs (length buf) n buf = Some (r, buf')"
  shows "(r = - 1 \<and> length buf' < length buf + nat n) \<or>
         (r = int (length buf') \<and> buf' = buf @ take (nat n) stream)"
  using assms
proof (induction rs stream n arbitrary: buf rule: read_contract.induct)
  case (1 stream n)
  then show ?case by (subst (asm) ReadBytes_loop.simps) (auto split: if_splits)
next
  case (2 rs stream n)
  then show ?case by (subst (asm) (2) ReadBytes_loop.simps) (auto split: if_splits)
next
  case (3 rs stream n)
  then show ?case by (subst (asm) ReadBytes_loop.simps) (auto split: if_splits)
next
  case (4 bs rs stream n)
  have bs: "int (length bs) \<le> n" "take (length bs) stream = bs" using 4(2) by simp_all
  show ?case
  proof (cases "n > 0 \<and> bs \<noteq> []")
    case True
    have "length bs \<le> nat n" and "stream = bs @ drop (length bs) stream"
      using bs append_take_drop_id [of "length bs" stream] by simp_all
    then have "take (nat n) stream = bs @ take (nat n - length bs) (drop (length bs) stream)"
      by (metis take_all take_append)
    then show ?thesis using True 4(1) [of "buf @ bs"] 4(2-4)
      by (subst (asm) (2) ReadBytes_loop.simps) (auto simp: nat_diff_distrib')
  next
    case False
    then show ?thesis using 4(2-4) by (subst (asm) ReadBytes_loop.simps) (auto split: if_splits)
  qed
qed

text \<open>How much a sequence of answers transfers.\<close>

definition transferred :: "nat io_result list \<Rightarrow> int" where
  "transferred rs = sum_list (map (\<lambda>r. case r of Transferred k \<Rightarrow> int k | _ \<Rightarrow> 0) rs)"

lemma transferred_simps [simp]:
  "transferred [] = 0" "transferred (Interrupted # rs) = transferred rs"
  "transferred (IoFailed # rs) = transferred rs" "transferred (Transferred k # rs) = int k + transferred rs"
  by (simp_all add: transferred_def)

lemma WriteBytes_loop_returns:
  assumes "write_contract rs n" and "0 \<le> n" and "n \<le> transferred rs"
    and "IoFailed \<notin> set rs" and "Transferred 0 \<notin> set rs"
  shows "\<exists>sent. WriteBytes_loop rs data offset n s = Some (int offset + n, sent)"
  using assms
proof (induction rs n arbitrary: offset s rule: write_contract.induct)
  case (4 wr rs n)
  then show ?case
    using 4(1) [of "offset + wr" "s @ substr data offset wr"]
    by (cases "n > 0") (simp_all add: WriteBytes_loop.simps [of "Transferred wr # rs"])
qed (auto simp: WriteBytes_loop.simps [of "[]"] WriteBytes_loop.simps [of "Interrupted # _"])

section \<open>Properties\<close>

text \<open>
  \<open>splitOnWs\<close> returns exactly the maximal runs of non-space characters, in order: together they
  are the input without its spaces, and none of them is empty or has a space.
\<close>

theorem splitOnWs_words:
  "splitOnWs data = words data \<and> concat (splitOnWs data) = filter (\<lambda>c. \<not> isspace c) data \<and>
   list_all (\<lambda>w. w \<noteq> [] \<and> list_all (\<lambda>c. \<not> isspace c) w) (splitOnWs data)"
proof -
  have "concat (words data) = filter (\<lambda>c. \<not> isspace c) data \<and>
    list_all (\<lambda>w. w \<noteq> [] \<and> list_all (\<lambda>c. \<not> isspace c) w) (words data)"
  proof (induction data rule: words.induct)
    case (2 c cs)
    have "filter (\<lambda>c. \<not> isspace c) cs =
        takeWhile (\<lambda>c. \<not> isspace c) cs @ filter (\<lambda>c. \<not> isspace c) (dropWhile (\<lambda>c. \<not> isspace c) cs)"
      by (induction cs) auto
    moreover have "list_all (\<lambda>c. \<not> isspace c) (takeWhile (\<lambda>c. \<not> isspace c) cs)"
      by (auto simp: list_all_iff dest: set_takeWhileD)
    ultimately show ?case using 2 by (cases "isspace c") auto
  qed simp
  then show ?thesis by (simp add: splitOnWs_def splitOnWs_loop_words)
qed

text \<open>
  Joining what \<open>split\<close> returned with the same separator gives the input back, but for one trailing
  separator, which \<open>split\<close> drops.
\<close>

theorem join_split:
  "join_char c (split c data) = (if data \<noteq> [] \<and> last data = c then butlast data else data)"
  by (simp add: split_fields join_fields)

text \<open>
  For a non-empty pattern \<open>replace_all\<close> returns, and its in-place loop computes the left-to-right
  replacement of the non-overlapping occurrences; the inserted text is never searched again.
\<close>

theorem replace_all_terminates:
  assumes "sub \<noteq> []"
  shows "replace_all s sub other = Some (replace_ref sub other s)"
  using replace_all_loop_ref [OF assms, of other "[]"] by (simp add: replace_all_def)

theorem replace_all_terminates_witness:
  "replace_all ''aXbX'' ''X'' ''XX'' = Some ''aXXbXX''"
proof -
  have "replace_ref ''X'' ''XX'' ''aXbX'' = ''aXXbXX''" by simp
  then show ?thesis using replace_all_terminates [of "''X''" "''aXbX''" "''XX''"] by simp
qed

text \<open>
  The decimal conversions round-trip over the whole range of their types: \<open>str2int\<close> reads what
  \<open>int2str\<close> printed for every 32-bit value and \<open>str2long\<close> what \<open>long2str\<close> printed for every 64-bit one.
\<close>

theorem number_string_roundtrip:
  assumes "fits 32 v" and "fits 64 w"
  shows "str2int (int2str v) = Some v \<and> str2long (long2str w) = Some w"
  using assms by (simp add: str2int_def int2str_def str2long_def long2str_def read_show_int)

theorem number_string_roundtrip_witness:
  "str2int (int2str (- 2147483648)) = Some (- 2147483648) \<and> str2long (long2str 4294967296) = Some 4294967296"
  using number_string_roundtrip [of "- 2147483648" 4294967296] by (simp add: fits_def)

text \<open>
  \<open>WriteBytes\<close> returns the full size after having written every byte in order, however the kernel
  splits the transfer and however often it is interrupted.
\<close>

theorem WriteBytes_complete:
  assumes "write_contract rs (int n)" and "n \<le> length data" and "int n \<le> transferred rs"
    and "IoFailed \<notin> set rs" and "Transferred 0 \<notin> set rs" and "0 < n"
  shows "WriteBytes rs data (int n) = Some (int n, take n data)"
proof -
  obtain sent where "WriteBytes_loop rs data 0 (int n) [] = Some (int n, sent)"
    using WriteBytes_loop_returns [of rs "int n" data 0 "[]"] assms by auto
  with WriteBytes_loop_sent [of rs "int n" 0 data "int n" sent] show ?thesis
    using assms by (simp add: WriteBytes_def)
qed

theorem WriteBytes_complete_witness:
  "WriteBytes [Interrupted, Transferred 2, Interrupted, Transferred 1] ''abcd'' (int 3) = Some (int 3, take 3 ''abcd'')"
  using WriteBytes_complete [of "[Interrupted, Transferred 2, Interrupted, Transferred 1]" 3 "''abcd''"]
  by simp

text \<open>
  \<open>ReadBytes\<close> fails only with \<open>-1\<close>; otherwise the buffer holds the first bytes of the stream, all
  that were asked for unless the stream ended before, and the result is their number.
\<close>

theorem ReadBytes_prefix:
  assumes "read_contract rs stream (int n)" and "ReadBytes rs (int n) = Some (r, buf)"
  shows "r = - 1 \<or> (r = int (min n (length stream)) \<and> buf = take n stream)"
  using ReadBytes_loop_read [of rs stream "int n" "[]" r buf] assms by (auto simp: ReadBytes_def min.commute)

theorem ReadBytes_prefix_witness:
  "ReadBytes [Transferred ''ab'', Interrupted, Transferred ''c'', Transferred []] (int 5) = Some (3, ''abc'') \<and>
   (3::int) = int (min 5 (length ''abc''))"
proof -
  let ?rs = "[Transferred ''ab'', Interrupted, Transferred ''c'', Transferred []]"
  have r: "ReadBytes ?rs (int 5) = Some (3, ''abc'')" by (simp add: ReadBytes_def ReadBytes_loop.simps)
  moreover have "read_contract ?rs ''abc'' (int 5)" by simp
  from ReadBytes_prefix [OF this r] show ?thesis using r by simp
qed

text \<open>
  C40: a deadline is the current time plus the delay, for every non-negative delay; its microseconds stay
  within 0 and 1000000, but the upper bound, which is not a valid \<^verbatim>\<open>struct timeval\<close>, is reached exactly
  when the microseconds add up to a full second.
\<close>

theorem ConstructTimeout_time:
  assumes "0 \<le> usec" and "0 \<le> tv_usec now" and "tv_usec now < 1000000"
  shows "tv_sec (ConstructTimeout now usec) * 1000000 + tv_usec (ConstructTimeout now usec) =
           tv_sec now * 1000000 + tv_usec now + usec \<and>
         0 \<le> tv_usec (ConstructTimeout now usec) \<and> tv_usec (ConstructTimeout now usec) \<le> 1000000 \<and>
         (tv_usec (ConstructTimeout now usec) = 1000000 \<longleftrightarrow> tv_usec now + usec mod 1000000 = 1000000)"
proof -
  have d: "c_div usec 1000000 = usec div 1000000" "c_mod usec 1000000 = usec mod 1000000"
    using assms(1) by (auto simp: c_mod_def c_div_def minus_mult_div_eq_mod sgn_if)
  have "0 \<le> usec mod 1000000" "usec mod 1000000 < 1000000" by simp_all
  then show ?thesis using assms(2,3) mult_div_mod_eq [of 1000000 usec]
    by (auto simp: ConstructTimeout_def Let_def d algebra_simps)
qed

theorem ConstructTimeout_time_witness:
  "tv_usec (ConstructTimeout \<lparr>tv_sec = 7, tv_usec = 400000\<rparr> 2600000) = 1000000"
  using ConstructTimeout_time [of 2600000 "\<lparr>tv_sec = 7, tv_usec = 400000\<rparr>"] by simp


text \<open>The length of a number that was printed.\<close>

lemma length_show_nat: "0 < k \<Longrightarrow> n < 10 ^ k \<Longrightarrow> length (show_nat n) \<le> k"
proof (induction n arbitrary: k rule: show_nat.induct)
  case (1 n)
  show ?case
  proof (cases "n < 10")
    case False
    then obtain j where k: "k = Suc j" "0 < j" using 1(2,3) by (cases k; cases "k - 1") auto
    then have "length (show_nat (n div 10)) \<le> j" using 1(1) [OF False, of j] 1(3) by (simp add: less_mult_imp_div_less mult.commute)
    then show ?thesis using False by (subst show_nat.simps) (simp add: k)
  qed (use 1 in \<open>subst show_nat.simps, simp\<close>)
qed

lemma show_id:
  assumes "0 \<le> i" "i < 2 ^ 31"
  shows "length (show_int i) \<le> 10" "CHR 0x20 \<notin> set (show_int i)"
proof -
  show "length (show_int i) \<le> 10" using assms length_show_nat [of 10 "nat i"] by (simp add: show_int_def)
  have "\<not> is_digit (CHR 0x20)" by (simp add: is_digit_def)
  then show "CHR 0x20 \<notin> set (show_int i)"
    using assms show_nat_digits [of "nat i"] by (auto simp: show_int_def list_all_iff simp del: show_nat.simps)
qed

end
