(* ===== verification/HeapPlus.thy ===== *)
theory HeapPlus
  imports Prelude
begin

text \<open>
  The heap algorithms of \<^verbatim>\<open>src/lib/processing_engine/heapplus.h\<close>, which keep a vector ordered as a
  binary heap and tell every element its position through a callback.  A state is the vector and the
  positions the callback recorded.  The algorithms are generic in the comparison; what they need of it
  is the locale \<open>strict_weak_order\<close>, and what they guarantee is proved once there.
\<close>

section \<open>The algorithms\<close>

type_synonym 'a heap = "'a list \<times> ('a \<Rightarrow> nat)"

text \<open>The assignment \<^verbatim>\<open>*(first + i) = x; updatepos(x, i)\<close> that every loop is made of.\<close>

definition heap_write :: "nat \<Rightarrow> 'a \<Rightarrow> 'a heap \<Rightarrow> 'a heap" where
  "heap_write i x hp = ((fst hp)[i := x], (snd hp)(x := i))"

definition parent :: "nat \<Rightarrow> nat" where
  "parent i = (i - 1) div 2"

lemma parent_less [simp]: "0 < i \<Longrightarrow> parent i < i"
  by (simp add: parent_def)

function push_heap_loop :: "('a \<Rightarrow> 'a \<Rightarrow> bool) \<Rightarrow> nat \<Rightarrow> 'a \<Rightarrow> nat \<Rightarrow> 'a heap \<Rightarrow> 'a heap" where
  "push_heap_loop cmp topi value hole hp =
     (if hole > topi \<and> cmp (fst hp ! parent hole) value
      then push_heap_loop cmp topi value (parent hole) (heap_write hole (fst hp ! parent hole) hp)
      else heap_write hole value hp)"
  by pat_completeness auto
termination by (relation "measure (\<lambda>(cmp, topi, value, hole, hp). hole)") auto

declare push_heap_loop.simps [simp del]

definition push_heap :: "('a \<Rightarrow> 'a \<Rightarrow> bool) \<Rightarrow> 'a heap \<Rightarrow> 'a heap" where
  "push_heap cmp hp =
     push_heap_loop cmp 0 (fst hp ! (length (fst hp) - 1)) (length (fst hp) - 1) hp"

function adjust_heap_loop :: "('a \<Rightarrow> 'a \<Rightarrow> bool) \<Rightarrow> nat \<Rightarrow> nat \<Rightarrow> nat \<Rightarrow> 'a heap \<Rightarrow> nat \<times> nat \<times> 'a heap" where
  "adjust_heap_loop cmp len hole secondChild hp =
     (if secondChild < len then
        let c = (if cmp (fst hp ! secondChild) (fst hp ! (secondChild - 1)) then secondChild - 1 else secondChild)
        in adjust_heap_loop cmp len c (2 * (c + 1)) (heap_write hole (fst hp ! c) hp)
      else (hole, secondChild, hp))"
  by pat_completeness auto
termination
  by (relation "measure (\<lambda>(cmp, len, hole, secondChild, hp). len - secondChild)") (auto simp: Let_def)

declare adjust_heap_loop.simps [simp del]

definition adjust_heap :: "('a \<Rightarrow> 'a \<Rightarrow> bool) \<Rightarrow> nat \<Rightarrow> nat \<Rightarrow> 'a \<Rightarrow> 'a heap \<Rightarrow> 'a heap" where
  "adjust_heap cmp topi len value hp =
     (case adjust_heap_loop cmp len topi (2 * topi + 2) hp of
        (hole, secondChild, hp1) \<Rightarrow>
          if secondChild = len
          then push_heap_loop cmp topi value (secondChild - 1) (heap_write hole (fst hp1 ! (secondChild - 1)) hp1)
          else push_heap_loop cmp topi value hole hp1)"

text \<open>\<^verbatim>\<open>pop_heap\<close> on the first \<open>n\<close> elements: the greatest goes to the last place, without a callback.\<close>

definition pop_heap :: "('a \<Rightarrow> 'a \<Rightarrow> bool) \<Rightarrow> nat \<Rightarrow> 'a heap \<Rightarrow> 'a heap" where
  "pop_heap cmp n hp =
     adjust_heap cmp 0 (n - 1) (fst hp ! (n - 1)) ((fst hp)[n - 1 := fst hp ! 0], snd hp)"

fun update_positions :: "nat list \<Rightarrow> 'a heap \<Rightarrow> 'a heap" where
  "update_positions [] hp = hp"
| "update_positions (i # is) hp = update_positions is (fst hp, (snd hp)(fst hp ! i := i))"

fun make_heap_loop :: "('a \<Rightarrow> 'a \<Rightarrow> bool) \<Rightarrow> nat \<Rightarrow> nat \<Rightarrow> 'a heap \<Rightarrow> 'a heap" where
  "make_heap_loop cmp len 0 hp = adjust_heap cmp 0 len (fst hp ! 0) hp"
| "make_heap_loop cmp len (Suc p) hp =
     make_heap_loop cmp len p (adjust_heap cmp (Suc p) len (fst hp ! Suc p) hp)"

definition make_heap :: "('a \<Rightarrow> 'a \<Rightarrow> bool) \<Rightarrow> 'a heap \<Rightarrow> 'a heap" where
  "make_heap cmp hp =
     (let len = length (fst hp) in
      if len < 2 then update_positions [0..<len] hp
      else update_positions [0..<len] (make_heap_loop cmp len ((len - 2) div 2) hp))"

function up_heap_loop :: "('a \<Rightarrow> 'a \<Rightarrow> bool) \<Rightarrow> 'a \<Rightarrow> nat \<Rightarrow> 'a heap \<Rightarrow> nat \<times> 'a heap" where
  "up_heap_loop cmp value index hp =
     (if index > 0 \<and> cmp (fst hp ! parent index) value
      then up_heap_loop cmp value (parent index) (heap_write index (fst hp ! parent index) hp)
      else (index, hp))"
  by pat_completeness auto
termination by (relation "measure (\<lambda>(cmp, value, index, hp). index)") auto

declare up_heap_loop.simps [simp del]

definition up_heap :: "('a \<Rightarrow> 'a \<Rightarrow> bool) \<Rightarrow> nat \<Rightarrow> 'a \<Rightarrow> 'a heap \<Rightarrow> 'a heap" where
  "up_heap cmp pos value hp =
     (case up_heap_loop cmp value pos hp of
        (index, hp1) \<Rightarrow> if pos \<noteq> index then heap_write index value hp1 else hp1)"

definition largest_child :: "('a \<Rightarrow> 'a \<Rightarrow> bool) \<Rightarrow> nat \<Rightarrow> nat \<Rightarrow> 'a list \<Rightarrow> nat" where
  "largest_child cmp len index h =
     (if index * 2 + 2 < len then
        if cmp (h ! (index * 2 + 1)) (h ! (index * 2 + 2)) then index * 2 + 2 else index * 2 + 1
      else if index * 2 + 1 < len then index * 2 + 1
      else len)"

lemma largest_child_gt: "largest_child cmp len index h < len \<Longrightarrow> index < largest_child cmp len index h"
  by (simp add: largest_child_def split: if_splits)

function down_heap_loop :: "('a \<Rightarrow> 'a \<Rightarrow> bool) \<Rightarrow> nat \<Rightarrow> 'a \<Rightarrow> nat \<Rightarrow> 'a heap \<Rightarrow> nat \<times> 'a heap" where
  "down_heap_loop cmp len value index hp =
     (if index < len then
        let largest = largest_child cmp len index (fst hp) in
        if largest < len \<and> cmp value (fst hp ! largest)
        then down_heap_loop cmp len value largest (heap_write index (fst hp ! largest) hp)
        else (index, hp)
      else (index, hp))"
  by pat_completeness auto
termination
  by (relation "measure (\<lambda>(cmp, len, value, index, hp). len - index)")
    (auto dest: largest_child_gt)

declare down_heap_loop.simps [simp del]

definition down_heap :: "('a \<Rightarrow> 'a \<Rightarrow> bool) \<Rightarrow> nat \<Rightarrow> 'a \<Rightarrow> 'a heap \<Rightarrow> 'a heap" where
  "down_heap cmp pos value hp =
     (case down_heap_loop cmp (length (fst hp)) value pos hp of
        (index, hp1) \<Rightarrow> if pos \<noteq> index then heap_write index value hp1 else hp1)"

text \<open>\<^verbatim>\<open>__update_heap\<close> with a new value for the position, and for a value changed in place.\<close>

definition update_heap :: "('a \<Rightarrow> 'a \<Rightarrow> bool) \<Rightarrow> nat \<Rightarrow> 'a \<Rightarrow> 'a heap \<Rightarrow> 'a heap" where
  "update_heap cmp pos value hp =
     (let hp1 = ((fst hp)[pos := value], snd hp) in
      if pos > 0 \<and> cmp (fst hp1 ! parent pos) value then up_heap cmp pos value hp1
      else down_heap cmp pos value hp1)"

definition update_heap_pos :: "('a \<Rightarrow> 'a \<Rightarrow> bool) \<Rightarrow> nat \<Rightarrow> 'a heap \<Rightarrow> 'a heap" where
  "update_heap_pos cmp pos hp =
     (if pos > 0 \<and> cmp (fst hp ! parent pos) (fst hp ! pos) then up_heap cmp pos (fst hp ! pos) hp
      else down_heap cmp pos (fst hp ! pos) hp)"

section \<open>The heap order, with a hole\<close>

text \<open>\<open>heap_from topi n\<close>: no element is above its parent, for the parents from \<open>topi\<close> on.\<close>

definition heap_from :: "('a \<Rightarrow> 'a \<Rightarrow> bool) \<Rightarrow> nat \<Rightarrow> nat \<Rightarrow> 'a list \<Rightarrow> bool" where
  "heap_from cmp topi n h \<longleftrightarrow>
     (\<forall>i<n. 0 < i \<longrightarrow> topi \<le> parent i \<longrightarrow> \<not> cmp (h ! parent i) (h ! i))"

text \<open>The same with the position \<open>k\<close> left out, its children below its parent; and the two sides of \<open>k\<close>.\<close>

definition heap_except :: "('a \<Rightarrow> 'a \<Rightarrow> bool) \<Rightarrow> nat \<Rightarrow> nat \<Rightarrow> nat \<Rightarrow> 'a list \<Rightarrow> bool" where
  "heap_except cmp topi n k h \<longleftrightarrow>
     (\<forall>i<n. 0 < i \<longrightarrow> topi \<le> parent i \<longrightarrow> i \<noteq> k \<longrightarrow> parent i \<noteq> k \<longrightarrow> \<not> cmp (h ! parent i) (h ! i)) \<and>
     (\<forall>c<n. topi < k \<longrightarrow> 0 < c \<longrightarrow> parent c = k \<longrightarrow> \<not> cmp (h ! parent k) (h ! c))"

definition above_children :: "('a \<Rightarrow> 'a \<Rightarrow> bool) \<Rightarrow> nat \<Rightarrow> nat \<Rightarrow> 'a \<Rightarrow> 'a list \<Rightarrow> bool" where
  "above_children cmp n k v h \<longleftrightarrow> (\<forall>c<n. 0 < c \<longrightarrow> parent c = k \<longrightarrow> \<not> cmp v (h ! c))"

lemma parent_eq_iff: "0 < c \<Longrightarrow> parent c = k \<longleftrightarrow> c = k * 2 + 1 \<or> c = k * 2 + 2"
  by (auto simp: parent_def)

lemma above_children_iff:
  "above_children cmp n k v h \<longleftrightarrow>
     (k * 2 + 1 < n \<longrightarrow> \<not> cmp v (h ! (k * 2 + 1))) \<and> (k * 2 + 2 < n \<longrightarrow> \<not> cmp v (h ! (k * 2 + 2)))"
  by (auto simp: above_children_def parent_eq_iff)

lemma no_child_of_last: "c < n \<Longrightarrow> 0 < c \<Longrightarrow> parent c \<noteq> n - 1"
  using parent_less [of c] by linarith

definition below_parent :: "('a \<Rightarrow> 'a \<Rightarrow> bool) \<Rightarrow> nat \<Rightarrow> nat \<Rightarrow> 'a \<Rightarrow> 'a list \<Rightarrow> bool" where
  "below_parent cmp topi k v h \<longleftrightarrow> (topi < k \<longrightarrow> \<not> cmp (h ! parent k) v)"

text \<open>The positions below \<open>topi\<close>.\<close>

function descends :: "nat \<Rightarrow> nat \<Rightarrow> bool" where
  "descends topi i = (if topi < i then descends topi (parent i) else i = topi)"
  by pat_completeness auto
termination by (relation "measure (\<lambda>(topi, i). i)") auto

declare descends.simps [simp del]

lemma descends_ge: "descends topi i \<Longrightarrow> topi \<le> i"
  using descends.simps [of topi i] by (auto split: if_splits)

lemma descends_refl [simp]: "descends topi topi"
  by (simp add: descends.simps [of topi topi])

lemma descends_0 [simp]: "descends 0 i"
proof (induction i rule: less_induct)
  case (less i)
  then show ?case by (cases "0 < i") (simp_all add: descends.simps [of 0 i])
qed

lemma descends_parent: "descends topi i \<Longrightarrow> topi < i \<Longrightarrow> descends topi (parent i)"
  using descends.simps [of topi i] by auto

lemma descends_child: "descends topi (parent i) \<Longrightarrow> 0 < i \<Longrightarrow> descends topi i"
proof -
  assume "descends topi (parent i)" "0 < i"
  moreover from this have "topi < i" using descends_ge [of topi "parent i"] parent_less [of i] by linarith
  ultimately show "descends topi i" by (simp add: descends.simps [of topi i])
qed

text \<open>The bookkeeping of a loop that holds \<open>v\<close> in its hand while position \<open>k\<close> is free.\<close>

definition tracks :: "nat \<Rightarrow> 'a multiset \<Rightarrow> 'a list \<Rightarrow> 'a \<Rightarrow> nat \<Rightarrow> 'a heap \<Rightarrow> bool" where
  "tracks n M rest v k hp \<longleftrightarrow>
     k < n \<and> n \<le> length (fst hp) \<and> mset ((fst hp)[k := v]) = M \<and> distinct ((fst hp)[k := v]) \<and>
     drop n (fst hp) = rest \<and> (\<forall>i<n. i \<noteq> k \<longrightarrow> snd hp (fst hp ! i) = i)"

definition tracked :: "nat \<Rightarrow> 'a multiset \<Rightarrow> 'a list \<Rightarrow> 'a heap \<Rightarrow> bool" where
  "tracked n M rest hp \<longleftrightarrow>
     n \<le> length (fst hp) \<and> mset (fst hp) = M \<and> distinct (fst hp) \<and> drop n (fst hp) = rest \<and>
     (\<forall>i<n. snd hp (fst hp ! i) = i)"

lemma tracks_neq:
  assumes "tracks n M rest v k hp" and "i < n" and "j < n" and "i \<noteq> j"
  shows "(fst hp)[k := v] ! i \<noteq> (fst hp)[k := v] ! j"
proof -
  have "distinct ((fst hp)[k := v])" "i < length (fst hp)" "j < length (fst hp)"
    using assms by (simp_all add: tracks_def)
  then show ?thesis using assms(4) nth_eq_iff_index_eq [of "(fst hp)[k := v]" i j] by simp
qed

lemma tracks_move:
  assumes "tracks n M rest v k hp" and "j < n" and "j \<noteq> k"
  shows "tracks n M rest v j (heap_write k (fst hp ! j) hp)"
proof -
  let ?h = "fst hp" and ?h' = "(fst hp)[k := fst hp ! j]"
  have b: "k < length ?h" "j < length ?h" using assms by (auto simp: tracks_def)
  have sw: "?h'[j := v] = (?h[k := v])[k := ?h[k := v] ! j, j := ?h[k := v] ! k]"
    using b assms(3) by (simp add: list_update_swap)
  have "mset (?h'[j := v]) = mset (?h[k := v])"
    unfolding sw by (rule mset_swap) (use b in simp_all)
  moreover have "distinct (?h'[j := v])"
    using calculation assms(1) by (metis mset_eq_imp_distinct_iff tracks_def)
  moreover have "snd (heap_write k (?h ! j) hp) (?h' ! i) = i" if i: "i < n" "i \<noteq> j" for i
  proof -
    have "?h[k := v] ! i \<noteq> ?h[k := v] ! j" using tracks_neq [OF assms(1) i(1) assms(2) i(2)] .
    then show ?thesis using assms i b
      by (cases "i = k") (auto simp: heap_write_def tracks_def)
  qed
  ultimately show ?thesis using assms b by (simp add: tracks_def heap_write_def)
qed

lemma tracks_write:
  assumes "tracks n M rest v k hp"
  shows "tracked n M rest (heap_write k v hp)"
proof -
  have "snd (heap_write k v hp) ((fst hp)[k := v] ! i) = i" if i: "i < n" for i
  proof (cases "i = k")
    case False
    then have "(fst hp)[k := v] ! i \<noteq> (fst hp)[k := v] ! k"
      using tracks_neq [OF assms i _ False] assms by (simp add: tracks_def)
    then show ?thesis using assms i False by (auto simp: heap_write_def tracks_def)
  qed (use assms in \<open>auto simp: heap_write_def tracks_def\<close>)
  then show ?thesis using assms by (simp add: tracks_def tracked_def heap_write_def)
qed

lemma tracked_tracks:
  "tracked n M rest hp \<Longrightarrow> k < n \<Longrightarrow> v = fst hp ! k \<Longrightarrow> tracks n M rest v k hp"
  by (simp add: tracked_def tracks_def)

lemma tracks_same:
  "tracks n M rest v k hp \<Longrightarrow> fst hp ! k = v \<Longrightarrow> snd hp v = k \<Longrightarrow> tracked n M rest hp"
  by (auto simp: tracks_def tracked_def)

section \<open>Correctness for every strict weak order\<close>

locale strict_weak_order =
  fixes cmp :: "'a \<Rightarrow> 'a \<Rightarrow> bool"
  assumes cmp_irrefl: "\<not> cmp a a"
    and cmp_trans: "cmp a b \<Longrightarrow> cmp b c \<Longrightarrow> cmp a c"
    and cmp_neg_trans: "\<not> cmp a b \<Longrightarrow> \<not> cmp b c \<Longrightarrow> \<not> cmp a c"
begin

lemma cmp_asym: "cmp a b \<Longrightarrow> \<not> cmp b a"
  using cmp_irrefl cmp_trans by blast

lemma heap_exceptD:
  assumes "heap_except cmp topi n k h" and "i < n" and "0 < i" and "topi \<le> parent i" and "i \<noteq> k" and "parent i \<noteq> k"
  shows "\<not> cmp (h ! parent i) (h ! i)"
  using assms by (simp add: heap_except_def)

lemma heap_from_fill:
  assumes "heap_except cmp topi n k h" and "above_children cmp n k v h" and "below_parent cmp topi k v h"
    and "descends topi k" and "k < length h"
  shows "heap_from cmp topi n (h[k := v])"
proof -
  have "\<not> cmp (h[k := v] ! parent i) (h[k := v] ! i)" if i: "i < n" "0 < i" "topi \<le> parent i" for i
  proof -
    have "parent i < i" using i by simp
    then show ?thesis using assms i
      by (cases "i = k"; cases "parent i = k")
        (auto simp: heap_except_def above_children_def below_parent_def)
  qed
  then show ?thesis by (auto simp: heap_from_def)
qed

lemma heap_except_up:
  assumes "heap_except cmp topi n k h" and "above_children cmp n k v h" and "topi < k" and "k < n"
    and "n \<le> length h" and "descends topi k" and "cmp (h ! parent k) v"
  shows "heap_except cmp topi n (parent k) (h[k := h ! parent k]) \<and>
         above_children cmp n (parent k) v (h[k := h ! parent k])"
proof -
  let ?p = "parent k"
  have pk: "?p < k" using assms(3) by simp
  have ge: "topi \<le> ?p" using descends_ge [OF descends_parent [OF assms(6,3)]] .
  have sib: "\<not> cmp (h ! ?p) (h ! i)" if "i < n" "0 < i" "parent i = ?p" "i \<noteq> k" for i
    using assms(1) that ge pk by (auto simp: heap_except_def)
  have grand: "\<not> cmp (h ! parent ?p) (h ! ?p)" if "topi < ?p"
  proof -
    have "topi \<le> parent ?p" using that assms(3,6) descends_ge descends_parent by blast
    moreover have "parent ?p \<noteq> k" using that pk parent_less [of ?p] by linarith
    ultimately show ?thesis using assms(4) that pk by (intro heap_exceptD [OF assms(1)]) auto
  qed
  have "above_children cmp n ?p v (h[k := h ! ?p])"
    using assms sib cmp_asym [OF assms(7)] cmp_trans [OF assms(7)]
    by (auto simp: above_children_def nth_update_eq_if)
  moreover have "heap_except cmp topi n ?p (h[k := h ! ?p])"
    unfolding heap_except_def
  proof (intro conjI allI impI)
    fix i assume i: "i < n" "0 < i" "topi \<le> parent i" "i \<noteq> ?p" "parent i \<noteq> ?p"
    then have "i \<noteq> k" "parent i < i" by auto
    then show "\<not> cmp (h[k := h ! ?p] ! parent i) (h[k := h ! ?p] ! i)"
      using assms(1,3-5) i by (cases "parent i = k") (auto simp: heap_except_def nth_update_eq_if)
  next
    fix c assume c: "c < n" "topi < ?p" "0 < c" "parent c = ?p"
    have "parent ?p \<noteq> k" using c pk parent_less [of ?p] by linarith
    then show "\<not> cmp (h[k := h ! ?p] ! parent ?p) (h[k := h ! ?p] ! c)"
      using cmp_neg_trans [OF grand sib] grand c pk assms(4,5) by (cases "c = k") (auto simp: nth_update_eq_if)
  qed
  ultimately show ?thesis by blast
qed

lemma heap_except_down:
  assumes "heap_except cmp topi n k h" and "c < n" and "0 < c" and "parent c = k" and "n \<le> length h"
    and "above_children cmp n k (h ! c) h" and "descends topi k"
  shows "heap_except cmp topi n c (h[k := h ! c])"
  unfolding heap_except_def
proof (intro conjI allI impI)
  have kc: "k < c" using assms(3,4) parent_less by blast
  fix i assume i: "i < n" "0 < i" "topi \<le> parent i" "i \<noteq> c" "parent i \<noteq> c"
  have pi: "parent i < i" using i by simp
  show "\<not> cmp (h[k := h ! c] ! parent i) (h[k := h ! c] ! i)"
  proof (cases "parent i = k")
    case True
    then show ?thesis using assms i pi kc by (auto simp: above_children_def nth_update_eq_if)
  next
    case False
    then show ?thesis using assms i pi kc descends_ge [OF assms(7)]
      by (cases "i = k") (auto simp: heap_except_def nth_update_eq_if)
  qed
next
  have kc: "k < c" using assms(3,4) parent_less by blast
  fix d assume d: "d < n" "topi < c" "0 < d" "parent d = c"
  have "parent d < d" using d parent_less by blast
  then show "\<not> cmp (h[k := h ! c] ! parent c) (h[k := h ! c] ! d)"
    using assms d kc by (auto simp: heap_except_def nth_update_eq_if)
qed

lemma push_heap_loop_ok:
  assumes "tracks n M rest v k hp" and "heap_except cmp topi n k (fst hp)"
    and "above_children cmp n k v (fst hp)" and "descends topi k"
  shows "tracked n M rest (push_heap_loop cmp topi v k hp) \<and>
         heap_from cmp topi n (fst (push_heap_loop cmp topi v k hp))"
  using assms
proof (induction k arbitrary: hp rule: less_induct)
  case (less k)
  have b: "k < n" "n \<le> length (fst hp)" using less.prems(1) by (auto simp: tracks_def)
  show ?case
  proof (cases "k > topi \<and> cmp (fst hp ! parent k) v")
    case True
    then have pk: "parent k < k" by simp
    let ?hp = "heap_write k (fst hp ! parent k) hp"
    have "heap_except cmp topi n (parent k) (fst ?hp) \<and> above_children cmp n (parent k) v (fst ?hp)"
      using heap_except_up [OF less.prems(2,3) _ b less.prems(4)] True by (simp add: heap_write_def)
    moreover have "tracks n M rest v (parent k) ?hp"
      using tracks_move [OF less.prems(1)] pk b(1) by simp
    moreover have "descends topi (parent k)" using descends_parent less.prems(4) True by blast
    ultimately show ?thesis using less.IH [OF pk, of ?hp] True
      by (simp add: push_heap_loop.simps [of cmp topi v k hp])
  next
    case False
    then have "below_parent cmp topi k v (fst hp)" by (auto simp: below_parent_def)
    then have "heap_from cmp topi n (fst (heap_write k v hp))"
      using heap_from_fill [OF less.prems(2,3) _ less.prems(4)] b by (simp add: heap_write_def)
    moreover have "push_heap_loop cmp topi v k hp = heap_write k v hp"
      using False by (subst push_heap_loop.simps) auto
    ultimately show ?thesis using tracks_write [OF less.prems(1)] by simp
  qed
qed

lemma up_heap_loop_push:
  "push_heap_loop cmp 0 v k hp = (case up_heap_loop cmp v k hp of (i, hp1) \<Rightarrow> heap_write i v hp1)"
  by (induction cmp v k hp rule: up_heap_loop.induct)
    (simp add: push_heap_loop.simps [of _ 0] up_heap_loop.simps split: prod.splits)

lemma up_heap_loop_le: "fst (up_heap_loop cmp v k hp) \<le> k"
proof (induction k arbitrary: hp rule: less_induct)
  case (less k)
  show ?case
  proof (cases "k > 0 \<and> cmp (fst hp ! parent k) v")
    case True
    then have pk: "parent k < k" by simp
    from less [OF pk, of "heap_write k (fst hp ! parent k) hp"] pk True
    show ?thesis by (subst up_heap_loop.simps) (simp del: parent_less)
  qed (auto simp: up_heap_loop.simps [of cmp v k hp])
qed

lemma up_heap_loop_stays: "up_heap_loop cmp v k hp = (k, hp1) \<Longrightarrow> hp1 = hp"
  using up_heap_loop_le [of v "parent k"] parent_less [of k]
  by (subst (asm) up_heap_loop.simps) (metis fst_conv linorder_not_less prod.inject)

lemma heap_write_id: "fst hp ! k = v \<Longrightarrow> snd hp v = k \<Longrightarrow> heap_write k v hp = hp"
  by (auto simp: heap_write_def prod_eq_iff)

lemma up_heap_push:
  "fst hp ! k = v \<Longrightarrow> snd hp v = k \<Longrightarrow> up_heap cmp k v hp = push_heap_loop cmp 0 v k hp"
  by (auto simp: up_heap_def up_heap_loop_push heap_write_id dest: up_heap_loop_stays split: prod.split)

lemma largest_child_cases:
  assumes "largest_child cmp n k h < n"
  shows "parent (largest_child cmp n k h) = k \<and> 0 < largest_child cmp n k h \<and>
         above_children cmp n k (h ! largest_child cmp n k h) h"
  using assms cmp_irrefl cmp_asym
  by (simp add: largest_child_def parent_def above_children_iff mult.commute split: if_splits)

lemma above_children_mono: "above_children cmp n k u h \<Longrightarrow> \<not> cmp v u \<Longrightarrow> above_children cmp n k v h"
  unfolding above_children_def using cmp_neg_trans by blast

lemma largest_child_none:
  assumes "\<not> largest_child cmp n k h < n"
  shows "above_children cmp n k v h"
  using assms by (simp add: largest_child_def above_children_iff split: if_splits)

lemma down_heap_loop_ok:
  assumes "tracks n M rest v k hp" and "heap_except cmp 0 n k (fst hp)" and "below_parent cmp 0 k v (fst hp)"
    and "down_heap_loop cmp n v k hp = (i, hp1)"
  shows "tracked n M rest (heap_write i v hp1) \<and> heap_from cmp 0 n (fst (heap_write i v hp1)) \<and>
         k \<le> i \<and> (i = k \<longrightarrow> hp1 = hp)"
  using assms
proof (induction "n - k" arbitrary: k hp rule: less_induct)
  case less
  define l where "l = largest_child cmp n k (fst hp)"
  have b: "k < n" "n \<le> length (fst hp)" using less.prems(1) by (auto simp: tracks_def)
  show ?case
  proof (cases "l < n \<and> cmp v (fst hp ! l)")
    case True
    let ?hp = "heap_write k (fst hp ! l) hp"
    have l: "parent l = k" "0 < l" "above_children cmp n k (fst hp ! l) (fst hp)" "k < l"
      using largest_child_cases [of n k "fst hp"] largest_child_gt [of cmp n k "fst hp"] True
      by (auto simp: l_def)
    have "heap_except cmp 0 n l (fst ?hp)"
      using heap_except_down [OF less.prems(2) _ l(2,1) b(2) l(3)] True by (simp add: heap_write_def)
    moreover have "tracks n M rest v l ?hp" using tracks_move [OF less.prems(1)] True l(4) by simp
    moreover have "below_parent cmp 0 l v (fst ?hp)"
      using cmp_asym True l(1) b by (simp add: below_parent_def heap_write_def)
    moreover have "down_heap_loop cmp n v l ?hp = (i, hp1)"
      using less.prems(4) True b unfolding l_def by (subst (asm) down_heap_loop.simps) (simp add: Let_def)
    moreover have "n - l < n - k" using l(4) True by linarith
    ultimately show ?thesis using less.hyps [of l ?hp] l(4) by auto
  next
    case False
    then have eq: "i = k" "hp1 = hp"
      using less.prems(4) b unfolding l_def by (subst (asm) down_heap_loop.simps, auto simp: Let_def)+
    have "above_children cmp n k v (fst hp)"
    proof (cases "l < n")
      case True
      then show ?thesis using False largest_child_cases [of n k "fst hp"] above_children_mono
        unfolding l_def by blast
    qed (simp add: largest_child_none l_def)
    then have "heap_from cmp 0 n (fst (heap_write k v hp))"
      using heap_from_fill [OF less.prems(2) _ less.prems(3)] b by (simp add: heap_write_def)
    then show ?thesis using tracks_write [OF less.prems(1)] eq by simp
  qed
qed

text \<open>\<open>update_heap_pos\<close> restores the heap after the element at one position changed its rank.\<close>

lemma update_heap_pos_ok:
  assumes "tracked (length (fst hp)) M [] hp" and "k < length (fst hp)"
    and "heap_except cmp 0 (length (fst hp)) k (fst hp)"
  shows "tracked (length (fst hp)) M [] (update_heap_pos cmp k hp) \<and>
         heap_from cmp 0 (length (fst hp)) (fst (update_heap_pos cmp k hp))"
proof -
  let ?n = "length (fst hp)" and ?v = "fst hp ! k"
  have t: "tracks ?n M [] ?v k hp" using tracked_tracks [OF assms(1,2)] by simp
  have p: "snd hp ?v = k" using assms(1,2) by (simp add: tracked_def)
  show ?thesis
  proof (cases "k > 0 \<and> cmp (fst hp ! parent k) ?v")
    case True
    then have "above_children cmp ?n k ?v (fst hp)"
      using assms(3) cmp_trans [of "fst hp ! parent k" ?v] by (auto simp: above_children_def heap_except_def)
    from push_heap_loop_ok [OF t assms(3) this] True up_heap_push [OF refl p] show ?thesis
      by (simp add: update_heap_pos_def)
  next
    case False
    then have "below_parent cmp 0 k ?v (fst hp)" by (auto simp: below_parent_def)
    moreover obtain i hp1 where d: "down_heap_loop cmp ?n ?v k hp = (i, hp1)"
      by (cases "down_heap_loop cmp ?n ?v k hp")
    ultimately have "tracked ?n M [] (heap_write i ?v hp1) \<and> heap_from cmp 0 ?n (fst (heap_write i ?v hp1)) \<and>
        (i = k \<longrightarrow> hp1 = hp)"
      using down_heap_loop_ok [OF t assms(3)] by blast
    moreover have "update_heap_pos cmp k hp = (if k \<noteq> i then heap_write i ?v hp1 else hp1)"
      using False d by (auto simp: update_heap_pos_def down_heap_def)
    ultimately show ?thesis using heap_write_id [OF refl p] by (cases "i = k") auto
  qed
qed

lemma push_heap_ok:
  assumes "fst hp \<noteq> []" and "heap_from cmp 0 (length (fst hp) - 1) (fst hp)" and "distinct (fst hp)"
    and "\<forall>i < length (fst hp) - 1. snd hp (fst hp ! i) = i"
  shows "tracked (length (fst hp)) (mset (fst hp)) [] (push_heap cmp hp) \<and>
         heap_from cmp 0 (length (fst hp)) (fst (push_heap cmp hp))"
proof -
  let ?n = "length (fst hp)"
  have n: "0 < ?n" using assms(1) by simp
  have "tracks ?n (mset (fst hp)) [] (fst hp ! (?n - 1)) (?n - 1) hp"
    using assms n by (auto simp: tracks_def)
  moreover have "heap_except cmp 0 ?n (?n - 1) (fst hp)"
    using assms(2) no_child_of_last by (auto simp: heap_except_def heap_from_def)
  moreover have "above_children cmp ?n (?n - 1) (fst hp ! (?n - 1)) (fst hp)"
    using no_child_of_last by (auto simp: above_children_def)
  ultimately show ?thesis using push_heap_loop_ok [of ?n _ "[]" _ "?n - 1" hp 0] by (simp add: push_heap_def)
qed

lemma adjust_heap_loop_step:
  assumes "2 * k + 2 < n"
  shows "adjust_heap_loop cmp n k (2 * k + 2) hp =
    adjust_heap_loop cmp n (if cmp (fst hp ! (2 * k + 2)) (fst hp ! (2 * k + 1)) then 2 * k + 1 else 2 * k + 2)
      (2 * (if cmp (fst hp ! (2 * k + 2)) (fst hp ! (2 * k + 1)) then 2 * k + 1 else 2 * k + 2) + 2)
      (heap_write k (fst hp ! (if cmp (fst hp ! (2 * k + 2)) (fst hp ! (2 * k + 1)) then 2 * k + 1 else 2 * k + 2)) hp)"
  using assms
  by (cases "cmp (fst hp ! (2 * k + 2)) (fst hp ! (2 * k + 1))")
    (simp_all add: adjust_heap_loop.simps [of cmp n k] Let_def)

lemma adjust_heap_loop_ok:
  assumes "tracks n M rest v k hp" and "heap_except cmp topi n k (fst hp)" and "descends topi k"
    and "adjust_heap_loop cmp n k (2 * k + 2) hp = (k1, s, hp1)"
  shows "tracks n M rest v k1 hp1 \<and> heap_except cmp topi n k1 (fst hp1) \<and> descends topi k1 \<and>
         s = 2 * k1 + 2 \<and> n \<le> s"
  using assms
proof (induction "n - k" arbitrary: k hp rule: less_induct)
  case less
  have b: "k < n" "n \<le> length (fst hp)" using less.prems(1) by (auto simp: tracks_def)
  show ?case
  proof (cases "2 * k + 2 < n")
    case True
    define c where "c = (if cmp (fst hp ! (2 * k + 2)) (fst hp ! (2 * k + 1)) then 2 * k + 1 else 2 * k + 2)"
    let ?hp = "heap_write k (fst hp ! c) hp"
    have c: "c < n" "0 < c" "parent c = k" "k < c" using True by (auto simp: c_def parent_def)
    have ac: "above_children cmp n k (fst hp ! c) (fst hp)"
      using cmp_irrefl cmp_asym by (auto simp: c_def above_children_iff mult.commute)
    have "heap_except cmp topi n c (fst ?hp)"
      using heap_except_down [OF less.prems(2) c(1-3) b(2) ac less.prems(3)] by (simp add: heap_write_def)
    moreover have "tracks n M rest v c ?hp" using tracks_move [OF less.prems(1)] c by simp
    moreover have "descends topi c" using descends_child c(2,3) less.prems(3) by blast
    moreover have "adjust_heap_loop cmp n c (2 * c + 2) ?hp = (k1, s, hp1)"
      using less.prems(4) unfolding adjust_heap_loop_step [OF True] c_def [symmetric] .
    moreover have "n - c < n - k" using c by linarith
    ultimately show ?thesis using less.hyps [of c ?hp] by blast
  next
    case False
    then have "k1 = k" "s = 2 * k + 2" "hp1 = hp"
      using less.prems(4) by (auto simp: adjust_heap_loop.simps [of cmp n k])
    then show ?thesis using less.prems False by simp
  qed
qed

lemma adjust_heap_ok:
  assumes "tracks n M rest v k hp" and "heap_except cmp k n k (fst hp)"
  shows "tracked n M rest (adjust_heap cmp k n v hp) \<and> heap_from cmp k n (fst (adjust_heap cmp k n v hp))"
proof -
  obtain k1 s hp1 where l: "adjust_heap_loop cmp n k (2 * k + 2) hp = (k1, s, hp1)" by (metis prod_cases3)
  note ok = adjust_heap_loop_ok [OF assms(1,2) descends_refl l]
  have b: "k1 < n" "n \<le> length (fst hp1)" using ok by (auto simp: tracks_def)
  show ?thesis
  proof (cases "s = n")
    case False
    then have "above_children cmp n k1 v (fst hp1)" using ok by (auto simp: above_children_iff)
    with push_heap_loop_ok [of n M rest v k1 hp1 k] ok False l show ?thesis by (simp add: adjust_heap_def)
  next
    case True
    let ?c = "n - 1" and ?hp = "heap_write k1 (fst hp1 ! (n - 1)) hp1"
    have c: "?c < n" "0 < ?c" "parent ?c = k1" "k1 < ?c" using ok True by (auto simp: parent_def)
    have ac: "above_children cmp n k1 (fst hp1 ! ?c) (fst hp1)"
    proof -
      have "?c = k1 * 2 + 1" using ok True by simp
      then show ?thesis using cmp_irrefl ok True by (simp add: above_children_iff mult.commute)
    qed
    have "heap_except cmp k n ?c (fst ?hp)"
      using heap_except_down [OF _ c(1-3) b(2) ac] ok by (simp add: heap_write_def)
    moreover have "above_children cmp n ?c v (fst ?hp)"
      using no_child_of_last [of _ n] by (auto simp: above_children_def)
    moreover have "tracks n M rest v ?c ?hp" using tracks_move [of n M rest v k1 hp1 ?c] ok c by simp
    moreover have "descends k ?c" using descends_child [of k ?c] c ok by simp
    ultimately show ?thesis using push_heap_loop_ok [of n M rest v ?c ?hp k] True l
      by (simp add: adjust_heap_def)
  qed
qed

text \<open>\<open>pop_heap\<close> moves the first element behind the remaining heap.\<close>

lemma pop_heap_ok:
  assumes "tracked n M [] hp" and "n = length (fst hp)" and "1 < n" and "heap_from cmp 0 n (fst hp)"
  shows "tracked (n - 1) M [fst hp ! 0] (pop_heap cmp n hp) \<and> heap_from cmp 0 (n - 1) (fst (pop_heap cmp n hp))"
proof -
  let ?hp = "((fst hp)[n - 1 := fst hp ! 0], snd hp)" and ?v = "fst hp ! (n - 1)"
  have ne: "0 < length (fst hp)" "n - 1 < length (fst hp)" using assms(2,3) by linarith+
  have sw: "mset ((fst ?hp)[0 := ?v]) = M" "distinct ((fst ?hp)[0 := ?v])"
    using mset_swap [OF ne] distinct_swap [OF ne(2,1)] assms(1) by (simp_all add: tracked_def)
  have "drop (n - 1) ((fst hp)[n - 1 := fst hp ! 0]) = [fst hp ! 0]"
    using assms(2) ne(2) by (intro nth_equalityI) auto
  then have "tracks (n - 1) M [fst hp ! 0] ?v 0 ?hp"
    using sw assms(1-3) by (simp add: tracks_def tracked_def)
  moreover have "heap_except cmp 0 (n - 1) 0 (fst ?hp)"
    unfolding heap_except_def
  proof (intro conjI allI impI)
    fix i assume "i < n - 1" "0 < i"
    moreover from this have "parent i < n - 1" using parent_less [of i] by linarith
    ultimately show "\<not> cmp (fst ?hp ! parent i) (fst ?hp ! i)"
      using assms(4) by (simp add: heap_from_def)
  qed simp
  ultimately show ?thesis using adjust_heap_ok unfolding pop_heap_def by blast
qed

text \<open>\<open>make_heap\<close> needs no positions to start with: the vector it builds does not depend on them.\<close>

lemma fst_push_heap_loop: "fst hp = fst hp' \<Longrightarrow> fst (push_heap_loop cmp topi v k hp) = fst (push_heap_loop cmp topi v k hp')"
proof (induction k arbitrary: hp hp' rule: less_induct)
  case (less k)
  have w: "fst (heap_write i x hp) = fst (heap_write i x hp')" for i x using less.prems by (simp add: heap_write_def)
  show ?case
  proof (cases "k > topi \<and> cmp (fst hp ! parent k) v")
    case True
    then have "parent k < k" by simp
    from less.IH [OF this w] True less.prems show ?thesis by (simp add: push_heap_loop.simps [of cmp topi v k])
  qed (use w less.prems in \<open>auto simp: push_heap_loop.simps [of cmp topi v k]\<close>)
qed

lemma fst_adjust_heap_loop:
  "fst hp = fst hp' \<Longrightarrow> adjust_heap_loop cmp n k s hp = (k1, s1, hp1) \<Longrightarrow>
   \<exists>hp1'. adjust_heap_loop cmp n k s hp' = (k1, s1, hp1') \<and> fst hp1' = fst hp1"
proof (induction cmp n k s hp arbitrary: hp' rule: adjust_heap_loop.induct)
  case (1 cmp n k s hp)
  have w: "fst (heap_write i x hp) = fst (heap_write i x hp')" for i x using 1(2) by (simp add: heap_write_def)
  show ?case
  proof (cases "s < n")
    case True
    with 1(1) [OF True refl w] 1(2,3) show ?thesis by (simp add: adjust_heap_loop.simps [of cmp n k s] Let_def)
  next
    case False
    then have "adjust_heap_loop cmp n k s g = (k, s, g)" for g
      by (simp add: adjust_heap_loop.simps [of cmp n k s g])
    then show ?thesis using 1(2,3) by auto
  qed
qed

lemma fst_adjust_heap: "fst hp = fst hp' \<Longrightarrow> fst (adjust_heap cmp k n v hp) = fst (adjust_heap cmp k n v hp')"
proof -
  assume eq: "fst hp = fst hp'"
  obtain k1 s hp1 where l: "adjust_heap_loop cmp n k (2 * k + 2) hp = (k1, s, hp1)" by (metis prod_cases3)
  then obtain hp1' where l': "adjust_heap_loop cmp n k (2 * k + 2) hp' = (k1, s, hp1')" "fst hp1' = fst hp1"
    using fst_adjust_heap_loop [OF eq] by blast
  show ?thesis unfolding adjust_heap_def l l'(1) prod.case
    using l'(2) by (auto intro!: fst_push_heap_loop simp: heap_write_def)
qed

lemma adjust_heap_order:
  assumes "distinct h" and "k < length h" and "heap_from cmp (Suc k) (length h) h"
  shows "mset (fst (adjust_heap cmp k (length h) (h ! k) (h, p))) = mset h \<and>
         heap_from cmp k (length h) (fst (adjust_heap cmp k (length h) (h ! k) (h, p)))"
proof -
  define q where "q = (\<lambda>x. THE i. i < length h \<and> h ! i = x)"
  have "q (h ! i) = i" if "i < length h" for i
    unfolding q_def using that assms(1) by (intro the_equality) (auto simp: nth_eq_iff_index_eq)
  then have "tracks (length h) (mset h) [] (h ! k) k (h, q)" using assms(1,2) by (simp add: tracks_def)
  moreover have "heap_except cmp k (length h) k h"
    using assms(3) by (auto simp: heap_from_def heap_except_def)
  ultimately show ?thesis using adjust_heap_ok [of "length h" "mset h" "[]" "h ! k" k "(h, q)"]
      fst_adjust_heap [of "(h, q)" "(h, p)"] by (simp add: tracked_def)
qed

lemma make_heap_loop_order:
  assumes "distinct (fst hp)" and "k < length (fst hp)" and "heap_from cmp (Suc k) (length (fst hp)) (fst hp)"
  shows "mset (fst (make_heap_loop cmp (length (fst hp)) k hp)) = mset (fst hp) \<and>
         heap_from cmp 0 (length (fst hp)) (fst (make_heap_loop cmp (length (fst hp)) k hp))"
  using assms
proof (induction k arbitrary: hp)
  case 0
  then show ?case using adjust_heap_order [of "fst hp" 0 "snd hp"] by simp
next
  case (Suc k)
  let ?hp = "adjust_heap cmp (Suc k) (length (fst hp)) (fst hp ! Suc k) hp"
  have a: "mset (fst ?hp) = mset (fst hp)" "heap_from cmp (Suc k) (length (fst hp)) (fst ?hp)"
    using adjust_heap_order [of "fst hp" "Suc k" "snd hp"] Suc.prems by simp_all
  then have "length (fst ?hp) = length (fst hp)" "distinct (fst ?hp)"
    using mset_eq_length mset_eq_imp_distinct_iff Suc.prems(1) by blast+
  then show ?case using Suc.IH [of ?hp] Suc.prems a by simp
qed

lemma update_positions_fst [simp]: "fst (update_positions is hp) = fst hp"
  by (induction "is" hp rule: update_positions.induct) auto

lemma update_positions_ok:
  assumes "distinct (fst hp)" and "j < length (fst hp)" and "\<forall>i\<in>set is. i < length (fst hp)"
  shows "snd (update_positions is hp) (fst hp ! j) = (if j \<in> set is then j else snd hp (fst hp ! j))"
  using assms by (induction "is" hp rule: update_positions.induct) (auto simp: nth_eq_iff_index_eq)

lemma make_heap_ok:
  assumes "distinct (fst hp)"
  shows "tracked (length (fst hp)) (mset (fst hp)) [] (make_heap cmp hp) \<and>
         heap_from cmp 0 (length (fst hp)) (fst (make_heap cmp hp))"
proof -
  let ?n = "length (fst hp)" and ?hp = "make_heap_loop cmp (length (fst hp)) ((length (fst hp) - 2) div 2) hp"
  show ?thesis
  proof (cases "?n < 2")
    case True
    then show ?thesis using assms
      by (auto simp: make_heap_def tracked_def update_positions_ok heap_from_def parent_def)
  next
    case False
    have "\<not> (i < ?n \<and> 0 < i \<and> Suc ((?n - 2) div 2) \<le> parent i)" for i
      using False by (auto simp: parent_def)
    then have "heap_from cmp (Suc ((?n - 2) div 2)) ?n (fst hp)" by (auto simp: heap_from_def)
    moreover have "(?n - 2) div 2 < ?n" using False by linarith
    ultimately have m: "mset (fst ?hp) = mset (fst hp)" "heap_from cmp 0 ?n (fst ?hp)"
      using make_heap_loop_order [OF assms] by blast+
    then have "length (fst ?hp) = ?n" "distinct (fst ?hp)"
      using mset_eq_length mset_eq_imp_distinct_iff assms by blast+
    then show ?thesis using m False by (simp add: make_heap_def Let_def tracked_def update_positions_ok)
  qed
qed

end

end
