(* ===== verification/PerlInterpreters.thy ===== *)
theory PerlInterpreters
  imports HeapPlus
begin

text \<open>
  The pool of Perl interpreters of \<^verbatim>\<open>src/lib/processing_engine/PerlInterpreters.cc\<close>, the client of
  \<^verbatim>\<open>heapplus.h\<close>: at most 100 interpreters, each with the number of its users, kept in a heap ordered
  by that number.  The objects (\<^verbatim>\<open>PerlResourceInterpreter.h\<close>) are numbered in the order of their
  creation; each operation holds the pool's lock from its first line to its last.  Whether the embedded
  interpreter of a new object starts (\<^verbatim>\<open>EmbeddedPerl::Init\<close>) is an argument.
\<close>

section \<open>The pool\<close>

record perl_pool =
  interpreters :: "nat list"
  count :: "nat \<Rightarrow> int"
  position :: "nat \<Rightarrow> nat"
  created :: nat

definition MAX_PERL_INTERPRETERS :: nat where
  "MAX_PERL_INTERPRETERS = 100"

definition PerlInterpreters_new :: perl_pool where
  "PerlInterpreters_new = \<lparr>interpreters = [], count = (\<lambda>_. 0), position = (\<lambda>_. 0), created = 0\<rparr>"

definition PerlResourceInterpreter_Compare :: "(nat \<Rightarrow> int) \<Rightarrow> nat \<Rightarrow> nat \<Rightarrow> bool" where
  "PerlResourceInterpreter_Compare cnt a b \<longleftrightarrow> cnt a < cnt b"

abbreviation pool_heap :: "perl_pool \<Rightarrow> nat heap" where
  "pool_heap s \<equiv> (interpreters s, position s)"

definition set_heap :: "nat heap \<Rightarrow> perl_pool \<Rightarrow> perl_pool" where
  "set_heap hp s = s\<lparr>interpreters := fst hp, position := snd hp\<rparr>"

text \<open>A new interpreter has no user and position 0; it enters the vector at the end and the heap.\<close>

definition create_interpreter :: "perl_pool \<Rightarrow> nat \<times> perl_pool" where
  "create_interpreter s =
     (let pi = created s;
          s1 = s\<lparr>created := Suc pi, count := (count s)(pi := 0), position := (position s)(pi := 0),
                 interpreters := interpreters s @ [pi]\<rparr>
      in (pi, set_heap (push_heap (PerlResourceInterpreter_Compare (count s1)) (pool_heap s1)) s1))"

definition update_pos :: "nat \<Rightarrow> perl_pool \<Rightarrow> perl_pool" where
  "update_pos pi s =
     set_heap (update_heap_pos (PerlResourceInterpreter_Compare (count s)) (position s pi) (pool_heap s)) s"

definition AcquirePerl :: "bool \<Rightarrow> perl_pool \<Rightarrow> nat option \<times> perl_pool" where
  "AcquirePerl init_ok s =
     (if length (interpreters s) < MAX_PERL_INTERPRETERS \<and> \<not> init_ok
      then (None, s\<lparr>created := Suc (created s)\<rparr>)
      else
        let (pi, s1) = (if length (interpreters s) < MAX_PERL_INTERPRETERS then create_interpreter s
                        else (interpreters s ! 0, s));
            s2 = s1\<lparr>count := (count s1)(pi := count s1 pi + 1)\<rparr>
        in (Some pi, update_pos pi s2))"

definition ReleasePerl :: "nat \<Rightarrow> perl_pool \<Rightarrow> failure + perl_pool" where
  "ReleasePerl pi s =
     (let s1 = update_pos pi (s\<lparr>count := (count s)(pi := count s pi - 1)\<rparr>)
      in if count s1 pi \<ge> 0 then Inr s1 else Inl AssertFailed)"

section \<open>The invariant\<close>

definition pool_inv :: "perl_pool \<Rightarrow> bool" where
  "pool_inv s \<longleftrightarrow>
     distinct (interpreters s) \<and> length (interpreters s) \<le> MAX_PERL_INTERPRETERS \<and>
     (\<forall>pi\<in>set (interpreters s). pi < created s \<and> 0 \<le> count s pi) \<and>
     (\<forall>i<length (interpreters s). position s (interpreters s ! i) = i) \<and>
     heap_from (PerlResourceInterpreter_Compare (count s)) 0 (length (interpreters s)) (interpreters s)"

interpretation by_count: strict_weak_order "PerlResourceInterpreter_Compare cnt" for cnt
  by unfold_locales (auto simp: PerlResourceInterpreter_Compare_def)

lemma set_heap_simps [simp]:
  "interpreters (set_heap hp s) = fst hp" "position (set_heap hp s) = snd hp"
  "count (set_heap hp s) = count s" "created (set_heap hp s) = created s"
  by (simp_all add: set_heap_def)

text \<open>A changed count at one position leaves the heap intact everywhere else.\<close>

lemma heap_except_count:
  assumes "heap_from (PerlResourceInterpreter_Compare cnt) 0 (length h) h" and "distinct h" and "k < length h"
  shows "heap_except (PerlResourceInterpreter_Compare (cnt(h ! k := x))) 0 (length h) k h"
proof -
  have p: "\<not> cnt (h ! parent i) < cnt (h ! i)" if "i < length h" "0 < i" for i
    using assms(1) that by (simp add: heap_from_def PerlResourceInterpreter_Compare_def)
  have ne: "h ! i \<noteq> h ! k" if "i < length h" "i \<noteq> k" for i
    using assms(2,3) that by (simp add: nth_eq_iff_index_eq)
  have pl: "parent i < length h" if "i < length h" for i
    using that parent_less [of i] by (cases "i = 0") (auto simp: parent_def)
  show ?thesis
    unfolding heap_except_def PerlResourceInterpreter_Compare_def
  proof (intro conjI allI impI)
    fix i assume "i < length h" "0 < i" "i \<noteq> k" "parent i \<noteq> k"
    then show "\<not> (cnt(h ! k := x)) (h ! parent i) < (cnt(h ! k := x)) (h ! i)"
      using p [of i] ne [of i] ne [OF pl] by simp
  next
    fix c assume c: "c < length h" "0 < k" "0 < c" "parent c = k"
    have "c \<noteq> k" "parent k \<noteq> k" using c parent_less [of c] parent_less [of k] by linarith+
    then show "\<not> (cnt(h ! k := x)) (h ! parent k) < (cnt(h ! k := x)) (h ! c)"
      using p [of c] p [of k] ne [of c] ne [OF pl [OF assms(3)]] c assms(3) by simp
  qed
qed

lemma update_pos_inv:
  assumes "pool_inv s" and "pi \<in> set (interpreters s)" and "0 \<le> x"
  shows "pool_inv (update_pos pi (s\<lparr>count := (count s)(pi := x)\<rparr>)) \<and>
         mset (interpreters (update_pos pi (s\<lparr>count := (count s)(pi := x)\<rparr>))) = mset (interpreters s)"
proof -
  let ?h = "interpreters s" and ?s = "s\<lparr>count := (count s)(pi := x)\<rparr>"
  obtain k where k: "k < length ?h" "?h ! k = pi" using assms(2) by (auto simp: in_set_conv_nth)
  then have pos: "position s pi = k" using assms(1) by (auto simp: pool_inv_def)
  have "heap_except (PerlResourceInterpreter_Compare ((count s)(pi := x))) 0 (length ?h) k ?h"
    using heap_except_count [of "count s" ?h k x] assms(1) k by (simp add: pool_inv_def)
  moreover have "tracked (length ?h) (mset ?h) [] (pool_heap s)"
    using assms(1) by (auto simp: tracked_def pool_inv_def)
  ultimately have u: "tracked (length ?h) (mset ?h) [] (pool_heap (update_pos pi ?s)) \<and>
      heap_from (PerlResourceInterpreter_Compare ((count s)(pi := x))) 0 (length ?h) (interpreters (update_pos pi ?s))"
    using by_count.update_heap_pos_ok [of "pool_heap s" "mset ?h" k "(count s)(pi := x)"] k(1) pos
    by (simp add: update_pos_def)
  then have m: "mset (interpreters (update_pos pi ?s)) = mset ?h" by (simp add: tracked_def)
  then have "set (interpreters (update_pos pi ?s)) = set ?h" "length (interpreters (update_pos pi ?s)) = length ?h"
    using mset_eq_setD mset_eq_length by blast+
  then show ?thesis using u m assms by (auto simp: pool_inv_def tracked_def update_pos_def)
qed

lemma create_interpreter_inv:
  assumes "pool_inv s" and "length (interpreters s) < MAX_PERL_INTERPRETERS"
    and "create_interpreter s = (pi, s')"
  shows "pool_inv s' \<and> pi = created s \<and> count s' = (count s)(pi := 0) \<and>
         mset (interpreters s') = add_mset pi (mset (interpreters s))"
proof -
  let ?h = "interpreters s @ [pi]"
  define c where "c = (count s)(pi := 0)"
  define p where "p = (position s)(pi := 0)"
  have pi: "pi = created s" using assms(3) by (auto simp: create_interpreter_def Let_def)
  have new: "pi \<notin> set (interpreters s)" using assms(1) pi by (auto simp: pool_inv_def)
  have nth: "?h ! i = interpreters s ! i" "interpreters s ! i \<noteq> pi" if "i < length (interpreters s)" for i
    using that new by (auto simp: nth_append)
  have s': "s' = set_heap (push_heap (PerlResourceInterpreter_Compare c) (?h, p))
      (s\<lparr>created := Suc pi, count := c, position := p, interpreters := ?h\<rparr>)"
    using assms(3) pi by (simp add: create_interpreter_def Let_def c_def p_def)
  have pl: "parent i < length (interpreters s)" if "i < length (interpreters s)" for i
    using that parent_less [of i] by (cases "i = 0") (auto simp: parent_def)
  have "heap_from (PerlResourceInterpreter_Compare c) 0 (length ?h - 1) ?h"
    using assms(1) nth pl by (simp add: heap_from_def pool_inv_def PerlResourceInterpreter_Compare_def c_def)
  then have u: "tracked (length ?h) (mset ?h) [] (pool_heap s') \<and>
      heap_from (PerlResourceInterpreter_Compare c) 0 (length ?h) (interpreters s')"
    using by_count.push_heap_ok [of "(?h, p)" c] assms(1) new nth s'
    by (simp add: pool_inv_def p_def)
  then have m: "mset (interpreters s') = mset ?h" by (simp add: tracked_def)
  then have "set (interpreters s') = set ?h" "length (interpreters s') = length ?h"
    using mset_eq_setD mset_eq_length by blast+
  then show ?thesis using u m assms(1,2) pi
    by (auto simp: pool_inv_def tracked_def s' c_def MAX_PERL_INTERPRETERS_def)
qed

lemma heap_top:
  assumes "heap_from (PerlResourceInterpreter_Compare cnt) 0 (length h) h" and "i < length h"
  shows "cnt (h ! i) \<le> cnt (h ! 0)"
  using assms(2)
proof (induction i rule: less_induct)
  case (less i)
  show ?case
  proof (cases "i = 0")
    case False
    then have "parent i < i" by simp
    moreover from this have "cnt (h ! parent i) \<le> cnt (h ! 0)" using less by simp
    moreover have "cnt (h ! i) \<le> cnt (h ! parent i)"
      using assms(1) less.prems False by (simp add: heap_from_def PerlResourceInterpreter_Compare_def not_less)
    ultimately show ?thesis by simp
  qed simp
qed

section \<open>Sequences of operations\<close>

text \<open>
  The states the pool can be in, with the multiset of the interpreters that are handed out: every
  acquired interpreter is released at most once (\<open>PerlResource\<close> and \<open>PerlModule\<close> release in their
  destructors what their constructors acquired).
\<close>

inductive pool_reach :: "perl_pool \<Rightarrow> nat multiset \<Rightarrow> bool" where
  pool_new: "pool_reach PerlInterpreters_new {#}"
| pool_acquire: "pool_reach s U \<Longrightarrow> AcquirePerl b s = (Some pi, s') \<Longrightarrow> pool_reach s' (add_mset pi U)"
| pool_acquire_fail: "pool_reach s U \<Longrightarrow> AcquirePerl b s = (None, s') \<Longrightarrow> pool_reach s' U"
| pool_release: "pool_reach s U \<Longrightarrow> pi \<in># U \<Longrightarrow> ReleasePerl pi s = Inr s' \<Longrightarrow> pool_reach s' (U - {#pi#})"

lemma AcquirePerl_None: "AcquirePerl b s = (None, s') \<Longrightarrow> s' = s\<lparr>created := Suc (created s)\<rparr>"
  by (auto simp: AcquirePerl_def Let_def split: if_splits prod.splits)

lemma update_pos_count [simp]: "count (update_pos pi s) = count s"
  by (simp add: update_pos_def)

lemma AcquirePerl_Some:
  assumes "pool_inv s" and "AcquirePerl b s = (Some pi, s')"
  shows "pool_inv s' \<and>
    (if length (interpreters s) < MAX_PERL_INTERPRETERS
     then pi = created s \<and> count s' = (count s)(pi := 1) \<and> mset (interpreters s') = add_mset pi (mset (interpreters s))
     else pi = interpreters s ! 0 \<and> count s' = (count s)(pi := count s pi + 1) \<and>
          mset (interpreters s') = mset (interpreters s))"
proof (cases "length (interpreters s) < MAX_PERL_INTERPRETERS")
  case True
  obtain s1 where c: "create_interpreter s = (pi, s1)" "s' = update_pos pi (s1\<lparr>count := (count s1)(pi := count s1 pi + 1)\<rparr>)"
    using assms(2) True by (auto simp: AcquirePerl_def Let_def split: if_splits prod.splits)
  note i = create_interpreter_inv [OF assms(1) True c(1)]
  then have "pi \<in> set (interpreters s1)" by (simp flip: set_mset_mset)
  then show ?thesis using update_pos_inv [of s1 pi "count s1 pi + 1"] i c True by simp
next
  case False
  then have "interpreters s \<noteq> []" by (auto simp: MAX_PERL_INTERPRETERS_def)
  then have "interpreters s ! 0 \<in> set (interpreters s)" by simp
  moreover have "0 \<le> count s (interpreters s ! 0)" using calculation assms(1) by (auto simp: pool_inv_def)
  ultimately show ?thesis using update_pos_inv [OF assms(1), of "interpreters s ! 0" "count s (interpreters s ! 0) + 1"]
      assms(2) False by (auto simp: AcquirePerl_def)
qed

lemma ReleasePerl_Inr:
  assumes "pool_inv s" and "pi \<in> set (interpreters s)" and "0 < count s pi"
  shows "\<exists>s'. ReleasePerl pi s = Inr s' \<and> pool_inv s' \<and> count s' = (count s)(pi := count s pi - 1) \<and>
    mset (interpreters s') = mset (interpreters s)"
  using update_pos_inv [OF assms(1,2), of "count s pi - 1"] assms(3) by (simp add: ReleasePerl_def Let_def)

definition users_ok :: "perl_pool \<Rightarrow> nat multiset \<Rightarrow> bool" where
  "users_ok s U \<longleftrightarrow>
     pool_inv s \<and> set_mset U \<subseteq> set (interpreters s) \<and>
     (\<forall>pi\<in>set (interpreters s). count s pi = int (Multiset.count U pi))"

lemma pool_inv_new: "pool_inv PerlInterpreters_new"
  by (simp add: pool_inv_def PerlInterpreters_new_def heap_from_def)

lemma pool_reach_users: "pool_reach s U \<Longrightarrow> users_ok s U"
proof (induction rule: pool_reach.induct)
  case pool_new
  then show ?case using pool_inv_new by (simp add: users_ok_def) (simp add: PerlInterpreters_new_def)
next
  case (pool_acquire s U b pi s')
  then have inv: "pool_inv s" by (simp add: users_ok_def)
  note a = AcquirePerl_Some [OF inv pool_acquire.hyps(2)]
  then have st: "set (interpreters s') = insert pi (set (interpreters s))"
    using mset_eq_setD [of "interpreters s'" "pi # interpreters s"] mset_eq_setD [of "interpreters s'" "interpreters s"]
      nth_mem [of 0 "interpreters s"]
    by (cases "length (interpreters s) < MAX_PERL_INTERPRETERS"; cases "interpreters s")
      (auto simp: MAX_PERL_INTERPRETERS_def)
  have new: "Multiset.count U pi = 0" if "length (interpreters s) < MAX_PERL_INTERPRETERS"
    using that a pool_acquire.IH by (auto simp: users_ok_def pool_inv_def count_eq_zero_iff)
  have "interpreters s ! 0 \<in> set (interpreters s)" if "\<not> length (interpreters s) < MAX_PERL_INTERPRETERS"
    using that by (cases "interpreters s") (auto simp: MAX_PERL_INTERPRETERS_def)
  then show ?case using a st new pool_acquire.IH
    by (cases "length (interpreters s) < MAX_PERL_INTERPRETERS") (auto simp: users_ok_def)
next
  case (pool_acquire_fail s U b s')
  then show ?case using AcquirePerl_None [OF pool_acquire_fail.hyps(2)] by (auto simp: users_ok_def pool_inv_def)
next
  case (pool_release s U pi s')
  then have p: "pi \<in> set (interpreters s)" "0 < count s pi"
    by (auto simp: users_ok_def)
  then obtain s1 where "ReleasePerl pi s = Inr s1" "pool_inv s1" "count s1 = (count s)(pi := count s pi - 1)"
      "mset (interpreters s1) = mset (interpreters s)"
    using ReleasePerl_Inr [of s pi] pool_release.IH by (auto simp: users_ok_def)
  then show ?case using pool_release p mset_eq_setD [of "interpreters s1" "interpreters s"]
    by (auto simp: users_ok_def dest: in_diffD)
qed

section \<open>Properties\<close>

text \<open>
  C29: in every state the pool can reach there are at most 100 interpreters, they form a heap by their
  number of users in which every interpreter knows its own position, each count is exactly the number of
  its users, and releasing an interpreter somebody holds never fails the assertion.
\<close>

theorem pool_counts_users:
  assumes "pool_reach s U"
  shows "length (interpreters s) \<le> 100 \<and>
    heap_from (PerlResourceInterpreter_Compare (count s)) 0 (length (interpreters s)) (interpreters s) \<and>
    (\<forall>i<length (interpreters s). position s (interpreters s ! i) = i \<and>
        count s (interpreters s ! i) = int (Multiset.count U (interpreters s ! i))) \<and>
    (\<forall>pi. pi \<in># U \<longrightarrow> (\<exists>s'. ReleasePerl pi s = Inr s'))"
  using pool_reach_users [OF assms] ReleasePerl_Inr [of s]
  by (fastforce simp: users_ok_def pool_inv_def MAX_PERL_INTERPRETERS_def)

theorem pool_counts_users_witness:
  "\<exists>s. AcquirePerl True PerlInterpreters_new = (Some 0, s) \<and> (\<exists>s'. ReleasePerl 0 s = Inr s')"
proof -
  obtain s where s: "AcquirePerl True PerlInterpreters_new = (Some 0, s)"
    by (simp add: AcquirePerl_def PerlInterpreters_new_def create_interpreter_def Let_def MAX_PERL_INTERPRETERS_def)
  then have "pool_reach s {#0#}" using pool_acquire [OF pool_new] by simp
  from pool_counts_users [OF this] s show ?thesis by simp
qed

text \<open>
  When all 100 interpreters exist, \<open>AcquirePerl\<close> hands out one with the greatest number of users,
  not the least occupied one the class describes.
\<close>

theorem AcquirePerl_most_used:
  assumes "pool_inv s" and "\<not> length (interpreters s) < 100" and "AcquirePerl b s = (Some pi, s')"
  shows "\<forall>i<length (interpreters s). count s (interpreters s ! i) \<le> count s pi"
proof -
  have "pi = interpreters s ! 0"
    using AcquirePerl_Some [OF assms(1,3)] assms(2) by (simp add: MAX_PERL_INTERPRETERS_def)
  then show ?thesis using heap_top assms(1) by (simp add: pool_inv_def)
qed

definition full_pool :: perl_pool where
  "full_pool = \<lparr>interpreters = [0..<100], count = (\<lambda>i. if i = 0 then 5 else 1), position = id, created = 100\<rparr>"

theorem AcquirePerl_most_used_witness:
  "\<exists>pi s'. AcquirePerl True full_pool = (Some pi, s') \<and> 1 \<le> count full_pool pi"
proof -
  obtain s' where a: "AcquirePerl True full_pool = (Some 0, s')"
    by (simp add: AcquirePerl_def full_pool_def MAX_PERL_INTERPRETERS_def)
  have "pool_inv full_pool"
    by (auto simp: pool_inv_def full_pool_def MAX_PERL_INTERPRETERS_def heap_from_def
        PerlResourceInterpreter_Compare_def)
  from AcquirePerl_most_used [OF this _ a] have "count full_pool (interpreters full_pool ! 1) \<le> count full_pool 0"
    by (simp add: full_pool_def)
  then show ?thesis using a by (auto simp: full_pool_def)
qed

end
