(* ===== verification/QueueInterface.thy ===== *)
theory QueueInterface
  imports SyncQueue
begin

text \<open>
  What the processors and the engine rely on when they call a \<open>SyncQueue\<close>: an accepted item is the last of
  its priority, a refused one changes nothing, an item taken was the first of the highest non-empty
  priority.  The contract is two locales over any queue type, one for the writer and one for the reader;
  their client lemmas speak about a store of queues, which is how the callers see them (pointers).  At the
  end both are interpreted on \<open>SyncQueue\<close>.
\<close>

section \<open>The writer's view\<close>

type_synonym ('r, 'q) put_op = "timeval option \<Rightarrow> 'r \<Rightarrow> int \<Rightarrow> 'q \<Rightarrow> failure + bool outcome \<times> signal \<times> 'q"

text \<open>Updating one queue of a store.\<close>

definition store_put :: "('r, 'q) put_op \<Rightarrow> timeval option \<Rightarrow> 'r \<Rightarrow> int \<Rightarrow> nat \<Rightarrow> (nat \<Rightarrow> 'q) \<Rightarrow> failure + bool outcome \<times> (nat \<Rightarrow> 'q)" where
  "store_put put t r p a qs =
     bind_result (put t r p (qs a)) (\<lambda>(res, sig, q). Inr (res, qs(a := q)))"

text \<open>The abstract effect of one accepted item on the contents of a store.\<close>

definition deliver :: "nat \<times> int \<times> 'r \<Rightarrow> (nat \<Rightarrow> int \<Rightarrow> 'r list) \<Rightarrow> (nat \<Rightarrow> int \<Rightarrow> 'r list)" where
  "deliver d c = (case d of (a, p, r) \<Rightarrow> c(a := spec_put p r (c a)))"

locale item_sink =
  fixes put :: "('r, 'q) put_op" and content :: "'q \<Rightarrow> int \<Rightarrow> 'r list" and valid :: "'q \<Rightarrow> bool"
  assumes put_accept: "valid q \<Longrightarrow> put t r p q = Inr (Returns True, sig, q') \<Longrightarrow> content q' = spec_put p r (content q)"
    and put_refuse: "valid q \<Longrightarrow> put t r p q = Inr (Returns False, sig, q') \<Longrightarrow> content q' = content q"
    and put_valid: "valid q \<Longrightarrow> put t r p q = Inr (res, sig, q') \<Longrightarrow> valid q'"
begin

abbreviation contents :: "(nat \<Rightarrow> 'q) \<Rightarrow> nat \<Rightarrow> int \<Rightarrow> 'r list" where
  "contents qs \<equiv> (\<lambda>a. content (qs a))"

lemma store_put_valid:
  "\<forall>a. valid (qs a) \<Longrightarrow> store_put put t r p a qs = Inr (res, qs') \<Longrightarrow> \<forall>a. valid (qs' a)"
  using put_valid by (fastforce simp: store_put_def bind_result_Inr_iff)

lemma store_put_accept:
  "\<forall>a. valid (qs a) \<Longrightarrow> store_put put t r p a qs = Inr (Returns True, qs') \<Longrightarrow>
   contents qs' = deliver (a, p, r) (contents qs)"
  using put_accept by (fastforce simp: store_put_def deliver_def bind_result_Inr_iff)

lemma store_put_refuse:
  "\<forall>a. valid (qs a) \<Longrightarrow> store_put put t r p a qs = Inr (Returns False, qs') \<Longrightarrow> contents qs' = contents qs"
  using put_refuse by (fastforce simp: store_put_def bind_result_Inr_iff)

end

section \<open>The reader's view\<close>

type_synonym ('r, 'q) get_op = "timeval option \<Rightarrow> 'q \<Rightarrow> 'r option outcome \<times> signal \<times> 'q"

locale item_source =
  fixes get :: "('r, 'q) get_op" and content :: "'q \<Rightarrow> int \<Rightarrow> 'r list" and valid :: "'q \<Rightarrow> bool"
  assumes get_some: "valid q \<Longrightarrow> get t q = (Returns (Some r), sig, q') \<Longrightarrow> spec_get (content q) r (content q')"
    and get_none: "valid q \<Longrightarrow> get t q = (res, sig, q') \<Longrightarrow> \<forall>r. res \<noteq> Returns (Some r) \<Longrightarrow> content q' = content q"
    and get_valid: "valid q \<Longrightarrow> get t q = (res, sig, q') \<Longrightarrow> valid q'"
begin

text \<open>Reading until the queue answers null, as the engine does without a timeout.\<close>

fun drain :: "nat \<Rightarrow> 'q \<Rightarrow> 'r list \<times> 'q" where
  "drain 0 q = ([], q)"
| "drain (Suc n) q =
     (case get None q of
        (Returns (Some r), _, q') \<Rightarrow> (case drain n q' of (rs, q'') \<Rightarrow> (r # rs, q''))
      | (_, _, q') \<Rightarrow> ([], q'))"

lemma drain_valid: "valid q \<Longrightarrow> valid (snd (drain n q))"
proof (induction n arbitrary: q)
  case (Suc n)
  obtain res sig q' where g: "get None q = (res, sig, q')" by (metis prod_cases3)
  have "valid q'" using get_valid [OF Suc.prems g] .
  then show ?case using Suc.IH [of q'] g by (auto split: prod.splits outcome.splits option.splits)
qed simp

text \<open>Of one priority the items come out in the order they were in, from the front.\<close>

lemma spec_get_single: "spec_get c r c' \<Longrightarrow> \<forall>p'. p' \<noteq> p \<longrightarrow> c p' = [] \<Longrightarrow> c p = r # c' p \<and> (\<forall>p'. p' \<noteq> p \<longrightarrow> c' p' = [])"
  by (metis list.distinct(1) spec_get_def)

lemma drain_in_order:
  "valid q \<Longrightarrow> \<forall>p'. p' \<noteq> p \<longrightarrow> content q p' = [] \<Longrightarrow>
   content q p = fst (drain n q) @ content (snd (drain n q)) p"
proof (induction n arbitrary: q)
  case (Suc n)
  obtain res sig q' where g: "get None q = (res, sig, q')" by (metis prod_cases3)
  have v: "valid q'" using get_valid [OF Suc.prems(1) g] .
  show ?case
  proof (cases "\<exists>r. res = Returns (Some r)")
    case True
    then obtain r where r: "res = Returns (Some r)" by blast
    then have "spec_get (content q) r (content q')" using get_some [OF Suc.prems(1)] g by simp
    from spec_get_single [OF this Suc.prems(2)] Suc.IH [OF v] g r show ?thesis
      by (simp split: prod.splits)
  next
    case False
    then have "content q' = content q" using get_none [OF Suc.prems(1) g] by blast
    then show ?thesis using g False by (auto split: outcome.splits option.splits)
  qed
qed simp

end

section \<open>SyncQueue keeps both contracts\<close>

lemma sync_queue_wf_upd:
  assumes "sync_queue_wf s" and "sq_priority q = prio_at s a" and "objs s' = (objs s)[a := q]"
    and "queues s' = queues s" and "priority2queue s' = priority2queue s"
  shows "sync_queue_wf s'"
proof -
  have "map sq_priority (objs s') = map sq_priority (objs s)"
    using assms(2,3) by (intro nth_equalityI) (auto simp: nth_list_update_if)
  then show ?thesis using sync_queue_wf_cong assms by blast
qed

lemma PutItem_section_wf:
  assumes "sync_queue_wf s" and "PutItem_section sz r t a s = (res, sig, s')"
  shows "sync_queue_wf s'"
proof -
  have "\<exists>q. sq_priority q = prio_at s a \<and> objs s' = (objs s)[a := q] \<and> queues s' = queues s \<and>
      priority2queue s' = priority2queue s"
    using assms(2)
    by (intro exI [of _ "if SimpleQueue_IsSpaceFor (objs s ! a) (sz r) then SimpleQueue_PutItem sz r (objs s ! a)
          else objs s ! a"]) (auto simp: PutItem_section_def Let_def SimpleQueue_PutItem_def split: if_splits)
  then show ?thesis using sync_queue_wf_upd [OF assms(1)] by blast
qed

lemma GetItem_section_wf:
  assumes "sync_queue_wf s" and "GetItem_section sz t s = (res, sig, s')"
  shows "sync_queue_wf s'"
proof -
  let ?a = "queues s ! nat (firstNonEmptyQueueIndex s)"
  have "\<exists>q. sq_priority q = prio_at s ?a \<and> objs s' = (objs s)[?a := q] \<and> queues s' = queues s \<and>
      priority2queue s' = priority2queue s"
    using assms(2)
    by (intro exI [of _ "if firstNonEmptyQueueIndex s < 0 then objs s ! ?a else snd (SimpleQueue_GetItem sz (objs s ! ?a))"])
      (auto simp: GetItem_section_def Let_def SimpleQueue_GetItem_def split: if_splits list.splits)
  then show ?thesis using sync_queue_wf_upd [OF assms(1)] by blast
qed

lemma SyncQueue_PutItem_now:
  assumes "sync_queue_wf s" and "SyncQueue_PutItem sz r t p [] s = Inr (res, sig, s')"
  shows "sync_queue_wf s' \<and> (res = Returns True \<longrightarrow> queue_content s' = spec_put p r (queue_content s)) \<and>
         (res = Returns False \<longrightarrow> s' = s)"
proof (cases "priority2queue s p")
  case None
  then show ?thesis using assms by (auto simp: SyncQueue_PutItem_def PutItem_enter_def split: if_splits)
next
  case (Some a)
  have w: "PutItem_waits sz r t a [] x = x" for x by (cases x) simp
  show ?thesis
  proof (cases "cancel s")
    case True
    then show ?thesis using assms Some w by (auto simp: SyncQueue_PutItem_def PutItem_enter_def)
  next
    case False
    then have sect: "PutItem_section sz r t a s = (res, sig, s')"
      using assms(2) Some w by (simp add: SyncQueue_PutItem_def PutItem_enter_def)
    moreover have "res = Returns False \<longrightarrow> s' = s"
      using sect by (auto simp: PutItem_section_def Let_def split: if_splits)
    ultimately show ?thesis using PutItem_section_content [OF assms(1) Some] PutItem_section_wf [OF assms(1)]
      by blast
  qed
qed

interpretation sync_sink: item_sink "\<lambda>t r p q. SyncQueue_PutItem sz r t p [] q" queue_content sync_queue_wf for sz
  by unfold_locales (auto dest: SyncQueue_PutItem_now)

lemma SyncQueue_GetItem_now:
  assumes "sync_queue_wf s" and "SyncQueue_GetItem sz t [] s = (res, sig, s')"
  shows "sync_queue_wf s' \<and> (\<forall>r. res = Returns (Some r) \<longrightarrow> spec_get (queue_content s) r (queue_content s')) \<and>
         ((\<forall>r. res \<noteq> Returns (Some r)) \<longrightarrow> queue_content s' = queue_content s)"
proof -
  have w: "GetItem_waits sz t [] x = x" for x by (cases x) simp
  show ?thesis
  proof (cases "cancel s")
    case True
    then show ?thesis using assms w by (auto simp: SyncQueue_GetItem_def GetItem_enter_def)
  next
    case False
    then have g: "GetItem_section sz t s = (res, sig, s')"
      using assms(2) w by (simp add: SyncQueue_GetItem_def GetItem_enter_def)
    moreover have "queue_content s' = queue_content s" if "\<forall>r. res \<noteq> Returns (Some r)"
    proof (cases "firstNonEmptyQueueIndex s < 0")
      case True
      then show ?thesis using g by (auto simp: GetItem_section_def queue_content_def fun_eq_iff split: if_splits option.splits)
    next
      case False
      then have "sq_queue (objs s ! (queues s ! nat (firstNonEmptyQueueIndex s))) \<noteq> []"
        using firstNonEmptyQueueIndex_nonneg [of s] by (metis not_less)
      then show ?thesis using g False that
        by (auto simp: GetItem_section_def SimpleQueue_GetItem_def Let_def split: list.splits)
    qed
    ultimately show ?thesis using GetItem_section_content [OF assms(1)] GetItem_section_wf [OF assms(1)] by blast
  qed
qed

interpretation sync_source: item_source "\<lambda>t q. SyncQueue_GetItem sz t [] q" queue_content sync_queue_wf for sz
  by unfold_locales (auto dest: SyncQueue_GetItem_now)

end
