(* ===== verification/Resources.thy ===== *)
theory Resources
  imports Common
begin

unbundle bit_operations_syntax

text \<open>
  Resources, the items every engine processes (\<^verbatim>\<open>src/lib/processing_engine/Resource.h\<close>), and the registry
  that creates, recycles and numbers them (\<^verbatim>\<open>ResourceRegistry.h\<close>, \<^verbatim>\<open>ResourceRegistry.cc\<close>).  The members every
  resource has are a record; what a subclass adds is its last field, of any type \<open>'d\<close>.  The libraries the
  registry loads (\<^verbatim>\<open>dlopen\<close>) and the Perl resources are an argument: a function from the file name to
  the resource type the file provides.
\<close>

section \<open>A resource\<close>

record 'd resource =
  r_id :: int
  r_status :: int
  r_flags :: "32 word"
  r_attached :: "nat option"
  r_type :: int
  r_data :: 'd

datatype flag = DELETED | SKIP

fun flag_value :: "flag \<Rightarrow> 32 word" where
  "flag_value DELETED = 1"
| "flag_value SKIP = 2"

definition SetFlag :: "flag \<Rightarrow> 'd resource \<Rightarrow> 'd resource" where
  "SetFlag f r = r\<lparr>r_flags := r_flags r OR flag_value f\<rparr>"

definition ResetFlag :: "flag \<Rightarrow> 'd resource \<Rightarrow> 'd resource" where
  "ResetFlag f r = r\<lparr>r_flags := r_flags r AND (0xFFFF XOR flag_value f)\<rparr>"

definition IsSetFlag :: "flag \<Rightarrow> 'd resource \<Rightarrow> bool" where
  "IsSetFlag f r \<longleftrightarrow> r_flags r AND flag_value f \<noteq> 0"

text \<open>The two constructors take the next id of the registry; \<open>Clear\<close> keeps the type and sets the id to 0.\<close>

definition Resource_new :: "int \<Rightarrow> int \<Rightarrow> 'd \<Rightarrow> 'd resource" where
  "Resource_new next typeId blank =
     \<lparr>r_id = next, r_status = 0, r_flags = 0, r_attached = None, r_type = typeId, r_data = blank\<rparr>"

definition Resource_copy :: "int \<Rightarrow> 'd resource \<Rightarrow> 'd resource" where
  "Resource_copy next r = r\<lparr>r_id := next\<rparr>"

definition Resource_Clear :: "'d \<Rightarrow> 'd resource \<Rightarrow> 'd resource" where
  "Resource_Clear blank r = r\<lparr>r_flags := 0, r_status := 0, r_id := 0, r_attached := None, r_data := blank\<rparr>"

definition ToStringShort :: "string \<Rightarrow> 'd resource \<Rightarrow> string" where
  "ToStringShort terse r =
     ''['' @ terse @ '' '' @ show_int (r_id r) @ '' '' @
     show_int (if IsSetFlag DELETED r then - 1 else r_status r) @ '']''"

section \<open>The registry\<close>

text \<open>
  What a loaded library provides: the type, its name, an empty body.  An entry of the registry keeps that
  and the released resources ready for reuse.
\<close>

record 'd resource_lib =
  lib_typeId :: int
  lib_typeStr :: string
  lib_empty :: 'd

record 'd registry_info =
  info_lib :: "'d resource_lib"
  available :: "'d resource list"

record 'd registry =
  nextId :: int
  name2id :: "string \<rightharpoonup> int"
  id2info :: "int \<rightharpoonup> 'd registry_info"
  filenames :: "string list"

definition ResourceRegistry_new :: "string list \<Rightarrow> 'd registry" where
  "ResourceRegistry_new files = \<lparr>nextId = 1, name2id = Map.empty, id2info = Map.empty, filenames = files\<rparr>"

definition NextResourceId :: "'d registry \<Rightarrow> int \<times> 'd registry" where
  "NextResourceId s = (nextId s, s\<lparr>nextId := nextId s + 1\<rparr>)"

text \<open>\<^verbatim>\<open>ParsePath\<close>: the pointer moves to the next colon and over it until the string ends.\<close>

function ParsePath :: "string \<Rightarrow> string list" where
  "ParsePath s =
     (if s = [] then []
      else takeWhile (\<lambda>c. c \<noteq> CHR '':'') s # ParsePath (drop 1 (dropWhile (\<lambda>c. c \<noteq> CHR '':'') s)))"
  by pat_completeness auto
termination
  by (relation "measure length")
    (simp_all add: diff_less_mono2 le_less_trans [OF diff_le_mono [OF length_dropWhile_le]])

declare ParsePath.simps [simp del]

text \<open>The file name tests of the constructor: at least four characters and the right ending.\<close>

definition candidate_file :: "string \<Rightarrow> string \<Rightarrow> bool" where
  "candidate_file ext name \<longleftrightarrow> \<not> length name < 4 \<and> drop (length name - 3) name = ext"

text \<open>Loading one library registers its type, if new, and keeps the resource it created.\<close>

definition register_library :: "'d resource_lib \<Rightarrow> 'd registry \<Rightarrow> 'd registry_info \<times> 'd registry" where
  "register_library lib s =
     (let (new, s1) = NextResourceId s;
          r = Resource_new new (lib_typeId lib) (lib_empty lib)
      in case id2info s1 (lib_typeId lib) of
           None \<Rightarrow>
             let info = \<lparr>info_lib = lib, available = [r]\<rparr>
             in (info, s1\<lparr>name2id := (name2id s1)(lib_typeStr lib \<mapsto> lib_typeId lib),
                          id2info := (id2info s1)(lib_typeId lib \<mapsto> info)\<rparr>)
         | Some info \<Rightarrow>
             let info1 = info\<lparr>available := available info @ [r]\<rparr>
             in (info1, s1\<lparr>id2info := (id2info s1)(lib_typeId lib \<mapsto> info1)\<rparr>))"

fun LoadResourceLibrary_loop ::
  "(string \<rightharpoonup> 'd resource_lib) \<Rightarrow> string option \<Rightarrow> int \<Rightarrow> string list \<Rightarrow> 'd registry \<Rightarrow> 'd registry_info option \<times> 'd registry" where
  "LoadResourceLibrary_loop load typeString typeId [] s = (None, s\<lparr>filenames := []\<rparr>)"
| "LoadResourceLibrary_loop load typeString typeId (f # fs) s =
     (case load f of
        None \<Rightarrow> LoadResourceLibrary_loop load typeString typeId fs s
      | Some lib \<Rightarrow>
          (case register_library lib s of
             (info, s1) \<Rightarrow>
               if (typeId \<noteq> 0 \<and> lib_typeId (info_lib info) = typeId) \<or>
                  typeString = Some (lib_typeStr (info_lib info))
               then (Some info, s1\<lparr>filenames := fs\<rparr>)
               else LoadResourceLibrary_loop load typeString typeId fs s1))"

definition LoadResourceLibrary ::
  "(string \<rightharpoonup> 'd resource_lib) \<Rightarrow> string option \<Rightarrow> int \<Rightarrow> 'd registry \<Rightarrow> failure + 'd registry_info option \<times> 'd registry" where
  "LoadResourceLibrary load typeString typeId s =
     (if typeString = None \<and> typeId = 0 then Inl AssertFailed
      else Inr (LoadResourceLibrary_loop load typeString typeId (filenames s) s))"

definition GetInfo :: "(string \<rightharpoonup> 'd resource_lib) \<Rightarrow> int \<Rightarrow> 'd registry \<Rightarrow> failure + 'd registry_info option \<times> 'd registry" where
  "GetInfo load typeId s =
     (case id2info s typeId of
        Some info \<Rightarrow> Inr (Some info, s)
      | None \<Rightarrow> LoadResourceLibrary load None typeId s)"

definition NameToId :: "(string \<rightharpoonup> 'd resource_lib) \<Rightarrow> string \<Rightarrow> 'd registry \<Rightarrow> failure + int \<times> 'd registry" where
  "NameToId load name s =
     (case name2id s name of
        Some i \<Rightarrow> Inr (i, s)
      | None \<Rightarrow>
          bind_result (LoadResourceLibrary load (Some name) 0 s) (\<lambda>(info, s1).
            Inr (case info of None \<Rightarrow> - 1 | Some i \<Rightarrow> lib_typeId (info_lib i), s1)))"

definition AcquireResource ::
  "(string \<rightharpoonup> 'd resource_lib) \<Rightarrow> int \<Rightarrow> 'd registry \<Rightarrow> failure + 'd resource option \<times> 'd registry" where
  "AcquireResource load typeId s =
     (if typeId < 0 then Inr (None, s)
      else bind_result (GetInfo load typeId s) (\<lambda>(oinfo, s1).
        case oinfo of
          None \<Rightarrow> Inr (None, s1)
        | Some info \<Rightarrow>
            if available info \<noteq> [] then
              let r = last (available info);
                  s2 = s1\<lparr>id2info := (id2info s1)(typeId \<mapsto> info\<lparr>available := butlast (available info)\<rparr>)\<rparr>;
                  (next, s3) = NextResourceId s2
              in Inr (Some (r\<lparr>r_id := next\<rparr>), s3)
            else
              let (next, s2) = NextResourceId s1
              in Inr (Some (Resource_new next (lib_typeId (info_lib info)) (lib_empty (info_lib info))), s2)))"

definition AcquireResource_name ::
  "(string \<rightharpoonup> 'd resource_lib) \<Rightarrow> string \<Rightarrow> 'd registry \<Rightarrow> failure + 'd resource option \<times> 'd registry" where
  "AcquireResource_name load typeString s =
     bind_result (NameToId load typeString s) (\<lambda>(typeId, s1).
       if typeId \<noteq> - 1 then AcquireResource load typeId s1 else Inr (None, s1))"

definition AVAILABLE_SIZE_MAX :: nat where
  "AVAILABLE_SIZE_MAX = 10000"

definition ReleaseResource ::
  "(string \<rightharpoonup> 'd resource_lib) \<Rightarrow> 'd resource option \<Rightarrow> 'd registry \<Rightarrow> failure + 'd registry" where
  "ReleaseResource load ores s =
     (case ores of
        None \<Rightarrow> Inr s
      | Some r \<Rightarrow>
          bind_result (GetInfo load (r_type r) s) (\<lambda>(oinfo, s1).
            case oinfo of
              None \<Rightarrow> Inr s1
            | Some info \<Rightarrow>
                if length (available info) < AVAILABLE_SIZE_MAX then
                  Inr (s1\<lparr>id2info := (id2info s1)(r_type r \<mapsto>
                         info\<lparr>available := available info @ [Resource_Clear (lib_empty (info_lib info)) r]\<rparr>)\<rparr>)
                else Inr s1))"

section \<open>The invariant of the registry\<close>

text \<open>Libraries of one type create the same empty resource.\<close>

definition libs_agree :: "(string \<rightharpoonup> 'd resource_lib) \<Rightarrow> bool" where
  "libs_agree load \<longleftrightarrow>
     (\<forall>f g a b. load f = Some a \<longrightarrow> load g = Some b \<longrightarrow> lib_typeId a = lib_typeId b \<longrightarrow> lib_empty a = lib_empty b)"

definition info_ok :: "(string \<rightharpoonup> 'd resource_lib) \<Rightarrow> int \<Rightarrow> 'd registry_info \<Rightarrow> bool" where
  "info_ok load t info \<longleftrightarrow>
     lib_typeId (info_lib info) = t \<and> (\<exists>f. load f = Some (info_lib info)) \<and>
     list_all (\<lambda>r. r = Resource_new (r_id r) t (lib_empty (info_lib info))) (available info)"

definition registry_ok :: "(string \<rightharpoonup> 'd resource_lib) \<Rightarrow> 'd registry \<Rightarrow> bool" where
  "registry_ok load s \<longleftrightarrow> (\<forall>t info. id2info s t = Some info \<longrightarrow> info_ok load t info)"

lemma registry_ok_upd:
  "registry_ok load s \<Longrightarrow> info_ok load t info \<Longrightarrow> id2info s' = (id2info s)(t \<mapsto> info) \<Longrightarrow> registry_ok load s'"
  by (auto simp: registry_ok_def)

lemma registry_ok_cong: "id2info s' = id2info s \<Longrightarrow> registry_ok load s' = registry_ok load s"
  by (simp add: registry_ok_def)

lemma register_library_ok:
  assumes "registry_ok load s" and "libs_agree load" and "load f = Some lib"
    and "register_library lib s = (info, s')"
  shows "registry_ok load s' \<and> info_ok load (lib_typeId lib) info \<and> id2info s' (lib_typeId lib) = Some info \<and>
         nextId s \<le> nextId s'"
proof (cases "id2info s (lib_typeId lib)")
  case None
  then have i: "info = \<lparr>info_lib = lib, available = [Resource_new (nextId s) (lib_typeId lib) (lib_empty lib)]\<rparr>"
    and s': "id2info s' = (id2info s)(lib_typeId lib \<mapsto> info)" "nextId s' = nextId s + 1"
    using assms(4) by (auto simp: register_library_def NextResourceId_def Let_def)
  have "info_ok load (lib_typeId lib) info" using assms(3) by (auto simp: i info_ok_def Resource_new_def)
  then show ?thesis using registry_ok_upd [OF assms(1) _ s'(1)] s' by simp
next
  case (Some old)
  then have i: "info = old\<lparr>available := available old @ [Resource_new (nextId s) (lib_typeId lib) (lib_empty lib)]\<rparr>"
    and s': "id2info s' = (id2info s)(lib_typeId lib \<mapsto> info)" "nextId s' = nextId s + 1"
    using assms(4) by (auto simp: register_library_def NextResourceId_def Let_def)
  have old: "info_ok load (lib_typeId lib) old" using assms(1) Some by (simp add: registry_ok_def)
  then have "lib_empty (info_lib old) = lib_empty lib"
    using assms(2,3) unfolding libs_agree_def info_ok_def by metis
  then have "info_ok load (lib_typeId lib) info" using old by (auto simp: i info_ok_def Resource_new_def)
  then show ?thesis using registry_ok_upd [OF assms(1) _ s'(1)] s' by simp
qed

lemma LoadResourceLibrary_loop_ok:
  assumes "registry_ok load s" and "libs_agree load"
    and "LoadResourceLibrary_loop load name t fs s = (oinfo, s')"
  shows "registry_ok load s' \<and> nextId s \<le> nextId s' \<and>
    (\<forall>info. oinfo = Some info \<longrightarrow> info_ok load (lib_typeId (info_lib info)) info \<and>
       (lib_typeId (info_lib info) = t \<or> name = Some (lib_typeStr (info_lib info))))"
  using assms
proof (induction load name t fs s rule: LoadResourceLibrary_loop.induct)
  case (1 load name t s)
  then show ?case using registry_ok_cong [of s' s load] by auto
next
  case (2 load name t f fs s)
  show ?case
  proof (cases "load f")
    case None
    then show ?thesis using 2 by simp
  next
    case (Some lib)
    obtain info s1 where r: "register_library lib s = (info, s1)" by fastforce
    note ok = register_library_ok [OF 2(3,4) Some r]
    then have t: "lib_typeId (info_lib info) = lib_typeId lib" by (simp add: info_ok_def)
    show ?thesis
    proof (cases "(t \<noteq> 0 \<and> lib_typeId (info_lib info) = t) \<or> name = Some (lib_typeStr (info_lib info))")
      case True
      then have "oinfo = Some info" "s' = s1\<lparr>filenames := fs\<rparr>" using 2(5) Some r by auto
      then show ?thesis using ok t True registry_ok_cong [of s' s1 load] by auto
    next
      case False
      then show ?thesis using 2(2) [OF Some r [symmetric] False] 2(4,5) ok Some r False by auto
    qed
  qed
qed

lemma GetInfo_ok:
  assumes "registry_ok load s" and "libs_agree load" and "GetInfo load t s = Inr (oinfo, s')"
  shows "registry_ok load s' \<and> nextId s \<le> nextId s' \<and> (\<forall>info. oinfo = Some info \<longrightarrow> info_ok load t info)"
proof (cases "id2info s t")
  case None
  then have "LoadResourceLibrary_loop load None t (filenames s) s = (oinfo, s')"
    using assms(3) by (simp add: GetInfo_def LoadResourceLibrary_def split: if_splits)
  from LoadResourceLibrary_loop_ok [OF assms(1,2) this] show ?thesis by auto
next
  case (Some info)
  then show ?thesis using assms(1,3) by (auto simp: GetInfo_def registry_ok_def)
qed

lemma AcquireResource_ok:
  assumes "registry_ok load s" and "libs_agree load" and "AcquireResource load t s = Inr (Some r, s')"
  shows "registry_ok load s' \<and> nextId s \<le> r_id r \<and> r_id r < nextId s' \<and>
         (\<exists>f lib. load f = Some lib \<and> lib_typeId lib = t \<and> r = Resource_new (r_id r) t (lib_empty lib))"
proof -
  obtain info s1 where g: "GetInfo load t s = Inr (Some info, s1)"
    using assms(3)
    by (auto simp: AcquireResource_def bind_result_Inr_iff split: if_splits option.splits)
  note ok = GetInfo_ok [OF assms(1,2) g]
  then have i: "info_ok load t info" by simp
  show ?thesis
  proof (cases "available info = []")
    case True
    then have r: "r = Resource_new (nextId s1) (lib_typeId (info_lib info)) (lib_empty (info_lib info))"
      and s': "s' = s1\<lparr>nextId := nextId s1 + 1\<rparr>"
      using assms(3) g by (auto simp: AcquireResource_def NextResourceId_def Let_def split: if_splits)
    then show ?thesis using ok i registry_ok_cong [of s' s1 load] by (auto simp: info_ok_def Resource_new_def)
  next
    case False
    let ?info = "info\<lparr>available := butlast (available info)\<rparr>"
    have r: "r = (last (available info))\<lparr>r_id := nextId s1\<rparr>"
      and s': "s' = s1\<lparr>id2info := (id2info s1)(t \<mapsto> ?info), nextId := nextId s1 + 1\<rparr>"
      using assms(3) g False by (auto simp: AcquireResource_def NextResourceId_def Let_def split: if_splits)
    have "info_ok load t ?info" using i False by (auto simp: info_ok_def list_all_iff dest: in_set_butlastD)
    then have "registry_ok load s'" using registry_ok_upd [of load s1 t ?info s'] ok s' by simp
    moreover obtain k where "last (available info) = Resource_new k t (lib_empty (info_lib info))"
      using i False last_in_set [OF False] unfolding info_ok_def list_all_iff by blast
    then have "r = Resource_new (nextId s1) t (lib_empty (info_lib info))"
      by (simp add: r Resource_new_def)
    ultimately show ?thesis using ok i s' by (auto simp: Resource_new_def info_ok_def)
  qed
qed

lemma ReleaseResource_ok:
  assumes "registry_ok load s" and "libs_agree load" and "ReleaseResource load (Some r) s = Inr s'"
  shows "registry_ok load s' \<and> nextId s \<le> nextId s'"
proof -
  obtain oinfo s1 where g: "GetInfo load (r_type r) s = Inr (oinfo, s1)"
    using assms(3) by (auto simp: ReleaseResource_def bind_result_Inr_iff)
  note ok = GetInfo_ok [OF assms(1,2) g]
  show ?thesis
  proof (cases oinfo)
    case None
    then show ?thesis using ok assms(3) g by (simp add: ReleaseResource_def)
  next
    case (Some info)
    let ?info = "info\<lparr>available := available info @ [Resource_Clear (lib_empty (info_lib info)) r]\<rparr>"
    have "info_ok load (r_type r) ?info"
      using ok Some by (auto simp: info_ok_def Resource_Clear_def Resource_new_def)
    then show ?thesis using ok Some assms(3) g registry_ok_upd [of load s1 "r_type r" ?info s']
      by (auto simp: ReleaseResource_def split: if_splits)
  qed
qed

section \<open>Properties\<close>

text \<open>The states of the registry after any sequence of its operations.\<close>

inductive registry_reach :: "(string \<rightharpoonup> 'd resource_lib) \<Rightarrow> 'd registry \<Rightarrow> bool" for load where
  registry_new: "registry_reach load (ResourceRegistry_new files)"
| registry_acquire: "registry_reach load s \<Longrightarrow> AcquireResource load t s = Inr (o', s') \<Longrightarrow> registry_reach load s'"
| registry_release: "registry_reach load s \<Longrightarrow> ReleaseResource load (Some r) s = Inr s' \<Longrightarrow> registry_reach load s'"
| registry_name: "registry_reach load s \<Longrightarrow> NameToId load n s = Inr (i, s') \<Longrightarrow> registry_reach load s'"

lemma AcquireResource_None_ok:
  assumes "registry_ok load s" and "libs_agree load" and "AcquireResource load t s = Inr (None, s')"
  shows "registry_ok load s'"
  using assms GetInfo_ok [OF assms(1,2), of t]
  by (fastforce simp: AcquireResource_def bind_result_Inr_iff Let_def split: if_splits option.splits prod.splits)

lemma NameToId_ok:
  assumes "registry_ok load s" and "libs_agree load" and "NameToId load n s = Inr (i, s')"
  shows "registry_ok load s'"
  using assms LoadResourceLibrary_loop_ok [OF assms(1,2), of "Some n" 0 "filenames s"]
  by (auto simp: NameToId_def LoadResourceLibrary_def split: option.splits prod.splits)

lemma registry_reach_ok: "registry_reach load s \<Longrightarrow> libs_agree load \<Longrightarrow> registry_ok load s"
proof (induction rule: registry_reach.induct)
  case (registry_acquire s t o' s')
  then show ?case using AcquireResource_ok AcquireResource_None_ok by (cases o') blast+
qed (auto simp: ResourceRegistry_new_def registry_ok_def [of _ "\<lparr>nextId = _, name2id = _, id2info = _, filenames = _\<rparr>"]
       dest: ReleaseResource_ok NameToId_ok)


definition demo_load :: "string \<rightharpoonup> string resource_lib" where
  "demo_load f = (if f = ''t.la'' then Some \<lparr>lib_typeId = 1, lib_typeStr = ''TestResource'', lib_empty = []\<rparr> else None)"


text \<open>
  The processor's flags are independent: setting one makes it set and leaves the other as it was, and
  resetting one clears it and leaves the other as it was.
\<close>

theorem flags_independent:
  "IsSetFlag f (SetFlag f r) \<and> \<not> IsSetFlag f (ResetFlag f r) \<and>
   (g \<noteq> f \<longrightarrow> IsSetFlag g (SetFlag f r) = IsSetFlag g r \<and> IsSetFlag g (ResetFlag f r) = IsSetFlag g r)"
proof -
  have b: "(w AND 1 \<noteq> 0) = bit w 0" "(w AND 2 \<noteq> 0) = bit w 1" for w :: "32 word"
    by (simp_all add: and_exp_eq_0_iff_not_bit [of w 0, simplified] and_exp_eq_0_iff_not_bit [of w 1, simplified])
  show ?thesis
    by (cases f; cases g) (simp_all add: IsSetFlag_def SetFlag_def ResetFlag_def b bit_simps)
qed

theorem flags_independent_witness:
  "IsSetFlag SKIP (SetFlag DELETED (SetFlag SKIP (Resource_new 1 1 ())))"
  using flags_independent [of DELETED "SetFlag SKIP (Resource_new 1 1 ())" SKIP]
    flags_independent [of SKIP "Resource_new 1 1 ()" DELETED] by simp

text \<open>
  A request for type 0, which a damaged file or connection can carry, aborts the process: the
  assertion of \<open>LoadResourceLibrary\<close> fails unless some library registered the type 0.
\<close>

theorem AcquireResource_type0_aborts:
  assumes "id2info s 0 = None"
  shows "AcquireResource load 0 s = Inl AssertFailed"
  using assms by (simp add: AcquireResource_def GetInfo_def LoadResourceLibrary_def)

theorem AcquireResource_type0_aborts_witness:
  "AcquireResource demo_load 0 (ResourceRegistry_new [''t.la'']) = Inl AssertFailed"
  using AcquireResource_type0_aborts [of "ResourceRegistry_new [''t.la'']" demo_load]
  by (simp add: ResourceRegistry_new_def)

end
