(* ===== verification/BatchSleep.thy ===== *)
theory BatchSleep
  imports Prelude
begin

text \<open>
  How a batch run detects that all work is done.  A processor counts its threads waiting for input and
  tells its engine when all of them wait (\<^verbatim>\<open>Processor::UpdateSleeping\<close>, \<^verbatim>\<open>ThreadFinished\<close>); an engine counts such
  processors and the resources in flight and tells the server (\<^verbatim>\<open>ProcessingEngine::CheckSleeping\<close>); the
  server counts sleeping engines and ends the run (\<^verbatim>\<open>Server::ProcessingEngineSleeping\<close>).  Every counter is
  changed under its object's lock, but a report to the next level is made after the lock is released, so
  reports of different threads interleave in any order.  The transition system below has one step per
  locked region and keeps the reports that are on their way.
\<close>

section \<open>One level at a time\<close>

datatype report = NoReport | ReportWakeup | ReportSleeping

record proc_sleep =
  runningThreads :: int
  sleepingThreads :: int
  proc_sleeping :: bool

definition proc_sleep_new :: proc_sleep where
  "proc_sleep_new = \<lparr>runningThreads = 0, sleepingThreads = 0, proc_sleeping = False\<rparr>"

definition UpdateSleeping :: "int \<Rightarrow> proc_sleep \<Rightarrow> failure + proc_sleep \<times> report" where
  "UpdateSleeping d p =
     (if d = 0 then Inl AssertFailed
      else
        let p1 = p\<lparr>sleepingThreads := sleepingThreads p + d\<rparr> in
        Inr (if proc_sleeping p1 then
               if sleepingThreads p1 < runningThreads p1 then (p1\<lparr>proc_sleeping := False\<rparr>, ReportWakeup)
               else (p1, NoReport)
             else
               if sleepingThreads p1 = runningThreads p1 then (p1\<lparr>proc_sleeping := True\<rparr>, ReportSleeping)
               else (p1, NoReport)))"

definition ThreadStarted :: "proc_sleep \<Rightarrow> proc_sleep" where
  "ThreadStarted p = p\<lparr>runningThreads := runningThreads p + 1\<rparr>"

definition ThreadFinished :: "bool \<Rightarrow> proc_sleep \<Rightarrow> proc_sleep \<times> report" where
  "ThreadFinished batch p =
     (let p1 = p\<lparr>runningThreads := runningThreads p - 1\<rparr>
      in (p1, if batch \<and> runningThreads p1 = 0 then ReportSleeping else NoReport))"

record engine_sleep =
  processorsSleeping :: int
  resourceCount :: int
  eng_sleeping :: bool
  processors_size :: nat

definition CheckSleeping :: "engine_sleep \<Rightarrow> engine_sleep \<times> report" where
  "CheckSleeping e =
     (if \<not> eng_sleeping e then
        if processorsSleeping e = int (processors_size e) \<and> resourceCount e = 0
        then (e\<lparr>eng_sleeping := True\<rparr>, ReportSleeping) else (e, NoReport)
      else
        if processorsSleeping e \<noteq> int (processors_size e) \<or> resourceCount e > 0
        then (e\<lparr>eng_sleeping := False\<rparr>, ReportWakeup) else (e, NoReport))"

text \<open>The locked part of \<^verbatim>\<open>ProcessorSleeping\<close>, \<^verbatim>\<open>ProcessorWakeup\<close> and \<^verbatim>\<open>UpdateResourceCount\<close>; each then calls \<^verbatim>\<open>CheckSleeping\<close>.\<close>

definition ProcessorSleeping :: "engine_sleep \<Rightarrow> engine_sleep" where
  "ProcessorSleeping e = e\<lparr>processorsSleeping := processorsSleeping e + 1\<rparr>"

definition ProcessorWakeup :: "engine_sleep \<Rightarrow> engine_sleep" where
  "ProcessorWakeup e = e\<lparr>processorsSleeping := processorsSleeping e - 1\<rparr>"

definition AddResourceCount :: "int \<Rightarrow> engine_sleep \<Rightarrow> engine_sleep" where
  "AddResourceCount n e = e\<lparr>resourceCount := resourceCount e + n\<rparr>"

text \<open>
  The server.  \<open>usingWokenUp\<close> and the object lock are held across the yields, so both are part of its
  state: \<open>in_window\<close> is a caller between the two locked regions, which holds \<open>usingWokenUp\<close>; \<open>lock_blocked\<close>
  is a caller that holds the object lock and waits for \<open>usingWokenUp\<close>.
\<close>

record server_sleep =
  sleepingProcessingEngines :: int
  wokenUp :: bool
  in_window :: bool
  lock_blocked :: bool
  finished :: bool
  engines_size :: nat

definition server_enter_window :: "server_sleep \<Rightarrow> server_sleep" where
  "server_enter_window s = (if in_window s then s\<lparr>lock_blocked := True\<rparr> else s\<lparr>wokenUp := False, in_window := True\<rparr>)"

definition ProcessingEngineSleeping :: "server_sleep \<Rightarrow> server_sleep" where
  "ProcessingEngineSleeping s =
     (let s1 = s\<lparr>sleepingProcessingEngines := sleepingProcessingEngines s + 1\<rparr>
      in if sleepingProcessingEngines s1 = int (engines_size s1) then server_enter_window s1 else s1)"

definition server_confirm :: "server_sleep \<Rightarrow> server_sleep" where
  "server_confirm s = s\<lparr>in_window := False, finished := finished s \<or> \<not> wokenUp s\<rparr>"

definition ProcessingEngineWakeup :: "server_sleep \<Rightarrow> server_sleep" where
  "ProcessingEngineWakeup s = s\<lparr>sleepingProcessingEngines := sleepingProcessingEngines s - 1, wokenUp := True\<rparr>"

section \<open>The interleaved system\<close>

text \<open>
  \<open>on_way e\<close>: sleeping and wake-up reports of processors that have not reached engine \<open>e\<close>; \<open>checks e\<close>: calls
  of \<^verbatim>\<open>CheckSleeping\<close> still to come; \<open>srv_way\<close>: reports of engines on their way.  \<open>exits\<close> counts for each
  processor how often \<^verbatim>\<open>ThreadFinished\<close> reported.
\<close>

record batch_sys =
  procs :: "nat \<Rightarrow> nat \<Rightarrow> proc_sleep"
  engines :: "nat \<Rightarrow> engine_sleep"
  server :: server_sleep
  on_way :: "nat \<Rightarrow> nat \<times> nat"
  checks :: "nat \<Rightarrow> nat"
  srv_way :: "nat \<times> nat"
  exits :: "nat \<Rightarrow> nat \<Rightarrow> nat"

fun add_report :: "report \<Rightarrow> nat \<times> nat \<Rightarrow> nat \<times> nat" where
  "add_report NoReport w = w"
| "add_report ReportSleeping (s, k) = (Suc s, k)"
| "add_report ReportWakeup (s, k) = (s, Suc k)"

definition set_proc :: "nat \<Rightarrow> nat \<Rightarrow> proc_sleep \<Rightarrow> batch_sys \<Rightarrow> batch_sys" where
  "set_proc e i p y = y\<lparr>procs := (procs y)(e := (procs y e)(i := p))\<rparr>"

definition set_engine :: "nat \<Rightarrow> engine_sleep \<Rightarrow> batch_sys \<Rightarrow> batch_sys" where
  "set_engine e g y = y\<lparr>engines := (engines y)(e := g)\<rparr>"

definition send_engine :: "nat \<Rightarrow> report \<Rightarrow> batch_sys \<Rightarrow> batch_sys" where
  "send_engine e r y = y\<lparr>on_way := (on_way y)(e := add_report r (on_way y e))\<rparr>"

definition need_check :: "nat \<Rightarrow> batch_sys \<Rightarrow> batch_sys" where
  "need_check e y = y\<lparr>checks := (checks y)(e := Suc (checks y e))\<rparr>"

inductive batch_step :: "nat \<Rightarrow> (nat \<Rightarrow> nat) \<Rightarrow> batch_sys \<Rightarrow> batch_sys \<Rightarrow> bool" for m n where
  thread_start: "e < m \<Longrightarrow> i < n e \<Longrightarrow> batch_step m n y (set_proc e i (ThreadStarted (procs y e i)) y)"
| thread_sleep: "e < m \<Longrightarrow> i < n e \<Longrightarrow> UpdateSleeping c (procs y e i) = Inr (p, r) \<Longrightarrow>
    batch_step m n y (send_engine e r (set_proc e i p y))"
| thread_finish: "e < m \<Longrightarrow> i < n e \<Longrightarrow> ThreadFinished True (procs y e i) = (p, r) \<Longrightarrow>
    batch_step m n y (send_engine e r (set_proc e i p
      (y\<lparr>exits := (exits y)(e := (exits y e)(i := exits y e i + of_bool (r = ReportSleeping)))\<rparr>)))"
| get_sleeping: "e < m \<Longrightarrow> on_way y e = (Suc s, k) \<Longrightarrow>
    batch_step m n y (need_check e (set_engine e (ProcessorSleeping (engines y e)) (y\<lparr>on_way := (on_way y)(e := (s, k))\<rparr>)))"
| get_wakeup: "e < m \<Longrightarrow> on_way y e = (s, Suc k) \<Longrightarrow>
    batch_step m n y (need_check e (set_engine e (ProcessorWakeup (engines y e)) (y\<lparr>on_way := (on_way y)(e := (s, k))\<rparr>)))"
| count_change: "e < m \<Longrightarrow> 0 \<le> resourceCount (engines y e) + d \<Longrightarrow>
    batch_step m n y (need_check e (set_engine e (AddResourceCount d (engines y e)) y))"
| check: "e < m \<Longrightarrow> checks y e = Suc k \<Longrightarrow> CheckSleeping (engines y e) = (g, r) \<Longrightarrow>
    batch_step m n y (set_engine e g (y\<lparr>checks := (checks y)(e := k), srv_way := add_report r (srv_way y)\<rparr>))"
| server_sleep: "srv_way y = (Suc s, k) \<Longrightarrow> \<not> lock_blocked (server y) \<Longrightarrow>
    batch_step m n y (y\<lparr>srv_way := (s, k), server := ProcessingEngineSleeping (server y)\<rparr>)"
| server_wake: "srv_way y = (s, Suc k) \<Longrightarrow> \<not> lock_blocked (server y) \<Longrightarrow>
    batch_step m n y (y\<lparr>srv_way := (s, k), server := ProcessingEngineWakeup (server y)\<rparr>)"
| server_end: "in_window (server y) \<Longrightarrow> \<not> lock_blocked (server y) \<Longrightarrow>
    batch_step m n y (y\<lparr>server := server_confirm (server y)\<rparr>)"

definition batch_init :: "nat \<Rightarrow> (nat \<Rightarrow> nat) \<Rightarrow> batch_sys" where
  "batch_init m n =
     \<lparr>procs = (\<lambda>_ _. proc_sleep_new),
      engines = (\<lambda>e. \<lparr>processorsSleeping = 0, resourceCount = 0, eng_sleeping = False, processors_size = n e\<rparr>),
      server = \<lparr>sleepingProcessingEngines = 0, wokenUp = False, in_window = False, lock_blocked = False,
                finished = False, engines_size = m\<rparr>,
      on_way = (\<lambda>_. (0, 0)), checks = (\<lambda>_. 0), srv_way = (0, 0), exits = (\<lambda>_ _. 0)\<rparr>"

inductive batch_reach :: "nat \<Rightarrow> (nat \<Rightarrow> nat) \<Rightarrow> batch_sys \<Rightarrow> bool" for m n where
  batch_start: "(\<And>e. e < m \<Longrightarrow> 0 < n e) \<Longrightarrow> batch_reach m n (batch_init m n)"
| batch_next: "batch_reach m n y \<Longrightarrow> batch_step m n y y' \<Longrightarrow> batch_reach m n y'"

section \<open>The invariant\<close>

definition net :: "nat \<times> nat \<Rightarrow> int" where
  "net w = int (fst w) - int (snd w)"

fun report_value :: "report \<Rightarrow> int" where
  "report_value NoReport = 0"
| "report_value ReportSleeping = 1"
| "report_value ReportWakeup = - 1"

definition idle_reports :: "batch_sys \<Rightarrow> nat \<Rightarrow> nat \<Rightarrow> int" where
  "idle_reports y e i = of_bool (proc_sleeping (procs y e i)) + int (exits y e i)"

definition engine_level :: "(nat \<Rightarrow> nat) \<Rightarrow> batch_sys \<Rightarrow> nat \<Rightarrow> bool" where
  "engine_level n y e \<longleftrightarrow>
     processorsSleeping (engines y e) + net (on_way y e) = (\<Sum>i<n e. idle_reports y e i) \<and>
     processors_size (engines y e) = n e \<and> 0 \<le> resourceCount (engines y e)"

definition engine_flag :: "(nat \<Rightarrow> nat) \<Rightarrow> batch_sys \<Rightarrow> nat \<Rightarrow> bool" where
  "engine_flag n y e \<longleftrightarrow>
     (checks y e = 0 \<longrightarrow>
        eng_sleeping (engines y e) = (processorsSleeping (engines y e) = int (n e) \<and> resourceCount (engines y e) = 0))"

definition server_level :: "nat \<Rightarrow> batch_sys \<Rightarrow> bool" where
  "server_level m y \<longleftrightarrow>
     sleepingProcessingEngines (server y) + net (srv_way y) = (\<Sum>e<m. of_bool (eng_sleeping (engines y e)))"

definition batch_inv :: "nat \<Rightarrow> (nat \<Rightarrow> nat) \<Rightarrow> batch_sys \<Rightarrow> bool" where
  "batch_inv m n y \<longleftrightarrow> (\<forall>e<m. engine_level n y e \<and> engine_flag n y e) \<and> server_level m y"

lemma net_add_report [simp]:
  "net (add_report r w) = net w + report_value r"
  by (cases r; cases w) (auto simp: net_def)

lemma net_Suc [simp]: "net (Suc s, k) = net (s, k) + 1" "net (s, Suc k) = net (s, k) - 1"
  by (simp_all add: net_def)

lemma sum_change:
  fixes f g :: "nat \<Rightarrow> int"
  assumes "i < n" and "\<forall>j. j \<noteq> i \<longrightarrow> g j = f j"
  shows "(\<Sum>j<n. g j) = (\<Sum>j<n. f j) + (g i - f i)"
proof -
  have "(\<Sum>j<n. g j) = g i + (\<Sum>j\<in>{..<n} - {i}. g j)" "(\<Sum>j<n. f j) = f i + (\<Sum>j\<in>{..<n} - {i}. f j)"
    using assms(1) by (simp_all add: sum.remove)
  moreover have "(\<Sum>j\<in>{..<n} - {i}. g j) = (\<Sum>j\<in>{..<n} - {i}. f j)" using assms(2) by (intro sum.cong) auto
  ultimately show ?thesis by simp
qed

lemma UpdateSleeping_report:
  "UpdateSleeping c p = Inr (p', r) \<Longrightarrow>
   of_bool (proc_sleeping p') = of_bool (proc_sleeping p) + report_value r"
  by (auto simp: UpdateSleeping_def Let_def split: if_splits)

lemma CheckSleeping_report:
  "CheckSleeping g = (g', r) \<Longrightarrow>
   of_bool (eng_sleeping g') = of_bool (eng_sleeping g) + report_value r"
  by (auto simp: CheckSleeping_def split: if_splits)

lemma CheckSleeping_flag:
  "CheckSleeping g = (g', r) \<Longrightarrow> 0 \<le> resourceCount g \<Longrightarrow>
   eng_sleeping g' = (processorsSleeping g = int (processors_size g) \<and> resourceCount g = 0) \<and>
   processorsSleeping g' = processorsSleeping g \<and> resourceCount g' = resourceCount g \<and> processors_size g' = processors_size g"
  by (auto simp: CheckSleeping_def split: if_splits)

lemmas batch_updates = set_proc_def set_engine_def send_engine_def need_check_def

lemma idle_reports_sum:
  assumes "i < n e" and "procs y' e = (procs y e)(i := p)" and "\<forall>j. j \<noteq> i \<longrightarrow> exits y' e j = exits y e j"
  shows "(\<Sum>j<n e. idle_reports y' e j) = (\<Sum>j<n e. idle_reports y e j) +
    (of_bool (proc_sleeping p) + int (exits y' e i) - idle_reports y e i)"
  using sum_change [OF assms(1), of "idle_reports y' e" "idle_reports y e"] assms(2,3)
  by (simp add: idle_reports_def)

lemma idle_reports_cong:
  "procs y' e = procs y e \<Longrightarrow> exits y' e = exits y e \<Longrightarrow> idle_reports y' e = idle_reports y e"
  by (auto simp: idle_reports_def fun_eq_iff)

lemma engine_level_cong:
  "procs y' e = procs y e \<Longrightarrow> exits y' e = exits y e \<Longrightarrow> on_way y' e = on_way y e \<Longrightarrow>
   engines y' e = engines y e \<Longrightarrow> engine_level n y' e = engine_level n y e"
  using idle_reports_cong [of y' e y] by (simp add: engine_level_def)

lemma engine_level_step:
  assumes "batch_step m n y y'" and "\<forall>e<m. engine_level n y e" and "e < m"
  shows "engine_level n y' e"
  using assms(1)
proof cases
  case (thread_start e' i)
  have "idle_reports y' e = idle_reports y e"
    by (auto simp: idle_reports_def fun_eq_iff batch_updates ThreadStarted_def thread_start(1))
  then show ?thesis using assms(2,3) thread_start(1) by (simp add: engine_level_def batch_updates)
next
  case (thread_sleep e' i c p r)
  then show ?thesis
  proof (cases "e = e'")
    case True
    then have "(\<Sum>j<n e. idle_reports y' e j) = (\<Sum>j<n e. idle_reports y e j) +
        (of_bool (proc_sleeping p) + int (exits y' e i) - idle_reports y e i)"
      using idle_reports_sum [of i n e y' y p] thread_sleep by (simp add: batch_updates)
    then show ?thesis using assms(2,3) thread_sleep True UpdateSleeping_report [OF thread_sleep(4)]
      by (simp add: engine_level_def batch_updates idle_reports_def [of y])
  next
    case False
    then have "engine_level n y' e = engine_level n y e"
      by (intro engine_level_cong) (simp_all add: thread_sleep(1) batch_updates)
    then show ?thesis using assms(2,3) by simp
  qed
next
  case (thread_finish e' i p r)
  then show ?thesis
  proof (cases "e = e'")
    case True
    then have s: "(\<Sum>j<n e. idle_reports y' e j) = (\<Sum>j<n e. idle_reports y e j) +
        (of_bool (proc_sleeping p) + int (exits y' e i) - idle_reports y e i)"
      using idle_reports_sum [of i n e y' y p] thread_finish by (simp add: batch_updates)
    have "proc_sleeping p = proc_sleeping (procs y e i)" "r = NoReport \<or> r = ReportSleeping"
      using thread_finish(4) True by (auto simp: ThreadFinished_def Let_def split: if_splits)
    then show ?thesis using s assms(2,3) thread_finish True
      by (auto simp: engine_level_def batch_updates idle_reports_def [of y])
  next
    case False
    then have "engine_level n y' e = engine_level n y e"
      by (intro engine_level_cong) (simp_all add: thread_finish(1) batch_updates)
    then show ?thesis using assms(2,3) by simp
  qed
next
  case (get_sleeping e' s k)
  then show ?thesis using assms(2,3)
    by (cases "e = e'") (auto simp: engine_level_def batch_updates ProcessorSleeping_def idle_reports_def)
next
  case (get_wakeup e' s k)
  then show ?thesis using assms(2,3)
    by (cases "e = e'") (auto simp: engine_level_def batch_updates ProcessorWakeup_def idle_reports_def)
next
  case (count_change e' d)
  then show ?thesis using assms(2,3)
    by (cases "e = e'") (auto simp: engine_level_def batch_updates AddResourceCount_def idle_reports_def)
next
  case (check e' k g r)
  then show ?thesis using assms(2,3) CheckSleeping_flag [OF check(4)]
    by (cases "e = e'") (auto simp: engine_level_def batch_updates idle_reports_def)
qed (use assms(2,3) in \<open>auto simp: engine_level_def idle_reports_def\<close>)

lemma engine_flag_step:
  assumes "batch_step m n y y'" and "\<forall>e<m. engine_level n y e" and "\<forall>e<m. engine_flag n y e" and "e < m"
  shows "engine_flag n y' e"
  using assms(1)
proof cases
  case (check e' k g r)
  then show ?thesis
  proof (cases "e = e'")
    case True
    have "0 \<le> resourceCount (engines y e)" "processors_size (engines y e) = n e"
      using assms(2,4) by (auto simp: engine_level_def)
    then show ?thesis using check True CheckSleeping_flag [OF check(4)] by (simp add: engine_flag_def batch_updates)
  qed (use assms(3,4) check in \<open>auto simp: engine_flag_def batch_updates\<close>)
qed (use assms(3,4) in \<open>auto simp: engine_flag_def batch_updates\<close>)

lemma server_level_cong:
  "\<forall>e. eng_sleeping (engines y' e) = eng_sleeping (engines y e) \<Longrightarrow> srv_way y' = srv_way y \<Longrightarrow>
   server y' = server y \<Longrightarrow> server_level m y' = server_level m y"
  by (simp add: server_level_def)

lemma server_level_step:
  assumes "batch_step m n y y'" and "server_level m y"
  shows "server_level m y'"
  using assms(1)
proof cases
  case (check e k g r)
  have "(\<Sum>e<m. of_bool (eng_sleeping (engines y' e))) =
      (\<Sum>e<m. of_bool (eng_sleeping (engines y e))) + (of_bool (eng_sleeping g) - of_bool (eng_sleeping (engines y e)) :: int)"
    using sum_change [OF check(2), of "\<lambda>e. of_bool (eng_sleeping (engines y' e))"
        "\<lambda>e. of_bool (eng_sleeping (engines y e))"] check by (simp add: batch_updates)
  then show ?thesis using assms(2) check CheckSleeping_report [OF check(4)]
    by (simp add: server_level_def batch_updates)
next
  case (server_sleep s k)
  then show ?thesis using assms(2)
    by (simp add: server_level_def ProcessingEngineSleeping_def server_enter_window_def Let_def)
next
  case (server_wake s k)
  then show ?thesis using assms(2) by (simp add: server_level_def ProcessingEngineWakeup_def)
next
  case server_end
  then show ?thesis using assms(2) by (simp add: server_level_def server_confirm_def)
qed ((subst server_level_cong [of y' y];
      use assms(2) in \<open>simp add: batch_updates ProcessorSleeping_def ProcessorWakeup_def AddResourceCount_def\<close>)+)

lemma batch_reach_inv: "batch_reach m n y \<Longrightarrow> batch_inv m n y"
proof (induction rule: batch_reach.induct)
  case batch_start
  then show ?case
    by (auto simp: batch_inv_def engine_level_def engine_flag_def server_level_def batch_init_def idle_reports_def
        net_def proc_sleep_new_def)
next
  case (batch_next y y')
  then show ?case using engine_level_step engine_flag_step server_level_step unfolding batch_inv_def by blast
qed

section \<open>Runs\<close>

text \<open>The same steps as a function, to build concrete runs.\<close>

datatype batch_action =
  Start nat nat | Sleep nat nat int | Finish nat nat | GetSleeping nat | GetWakeup nat | Count nat int | Check nat
  | ServerSleeping | ServerWakeup | ServerEnd

fun batch_exec :: "nat \<Rightarrow> (nat \<Rightarrow> nat) \<Rightarrow> batch_action \<Rightarrow> batch_sys \<Rightarrow> batch_sys option" where
  "batch_exec m n (Start e i) y =
     (if e < m \<and> i < n e then Some (set_proc e i (ThreadStarted (procs y e i)) y) else None)"
| "batch_exec m n (Sleep e i c) y =
     (if e < m \<and> i < n e then
        case UpdateSleeping c (procs y e i) of Inl _ \<Rightarrow> None | Inr (p, r) \<Rightarrow> Some (send_engine e r (set_proc e i p y))
      else None)"
| "batch_exec m n (Finish e i) y =
     (if e < m \<and> i < n e then
        case ThreadFinished True (procs y e i) of
          (p, r) \<Rightarrow> Some (send_engine e r (set_proc e i p
            (y\<lparr>exits := (exits y)(e := (exits y e)(i := exits y e i + of_bool (r = ReportSleeping)))\<rparr>)))
      else None)"
| "batch_exec m n (GetSleeping e) y =
     (case on_way y e of
        (Suc s, k) \<Rightarrow>
          if e < m
          then Some (need_check e (set_engine e (ProcessorSleeping (engines y e)) (y\<lparr>on_way := (on_way y)(e := (s, k))\<rparr>)))
          else None
      | _ \<Rightarrow> None)"
| "batch_exec m n (GetWakeup e) y =
     (case on_way y e of
        (s, Suc k) \<Rightarrow>
          if e < m
          then Some (need_check e (set_engine e (ProcessorWakeup (engines y e)) (y\<lparr>on_way := (on_way y)(e := (s, k))\<rparr>)))
          else None
      | _ \<Rightarrow> None)"
| "batch_exec m n (Count e d) y =
     (if e < m \<and> 0 \<le> resourceCount (engines y e) + d
      then Some (need_check e (set_engine e (AddResourceCount d (engines y e)) y)) else None)"
| "batch_exec m n (Check e) y =
     (case checks y e of
        Suc k \<Rightarrow>
          if e < m then
            case CheckSleeping (engines y e) of
              (g, r) \<Rightarrow> Some (set_engine e g (y\<lparr>checks := (checks y)(e := k), srv_way := add_report r (srv_way y)\<rparr>))
          else None
      | 0 \<Rightarrow> None)"
| "batch_exec m n ServerSleeping y =
     (case srv_way y of
        (Suc s, k) \<Rightarrow>
          if lock_blocked (server y) then None
          else Some (y\<lparr>srv_way := (s, k), server := ProcessingEngineSleeping (server y)\<rparr>)
      | _ \<Rightarrow> None)"
| "batch_exec m n ServerWakeup y =
     (case srv_way y of
        (s, Suc k) \<Rightarrow>
          if lock_blocked (server y) then None
          else Some (y\<lparr>srv_way := (s, k), server := ProcessingEngineWakeup (server y)\<rparr>)
      | _ \<Rightarrow> None)"
| "batch_exec m n ServerEnd y =
     (if in_window (server y) \<and> \<not> lock_blocked (server y)
      then Some (y\<lparr>server := server_confirm (server y)\<rparr>) else None)"

lemma batch_exec_step: "batch_exec m n a y = Some y' \<Longrightarrow> batch_step m n y y'"
  by (cases a) (auto split: if_splits sum.splits prod.splits nat.splits intro: batch_step.intros)

fun batch_run :: "nat \<Rightarrow> (nat \<Rightarrow> nat) \<Rightarrow> batch_action list \<Rightarrow> batch_sys \<Rightarrow> batch_sys option" where
  "batch_run m n [] y = Some y"
| "batch_run m n (a # as) y = (case batch_exec m n a y of None \<Rightarrow> None | Some y1 \<Rightarrow> batch_run m n as y1)"

lemma batch_run_reach: "batch_reach m n y \<Longrightarrow> batch_run m n as y = Some y' \<Longrightarrow> batch_reach m n y'"
  by (induction as arbitrary: y) (auto split: option.splits, metis batch_next batch_exec_step)

lemmas batch_eval = batch_init_def proc_sleep_new_def set_proc_def set_engine_def send_engine_def need_check_def
  ThreadStarted_def ThreadFinished_def UpdateSleeping_def CheckSleeping_def ProcessorSleeping_def ProcessorWakeup_def
  AddResourceCount_def ProcessingEngineSleeping_def ProcessingEngineWakeup_def server_enter_window_def server_confirm_def
  Let_def

section \<open>Properties\<close>



text \<open>
  C19: the run can be declared finished too early.  A processor whose threads end one after the other
  reports once for every moment its number of running threads is 0, so the engine can count two idle
  processors while one of its two is still working.
\<close>

theorem batch_finishes_early:
  "\<exists>y. batch_reach 1 (\<lambda>_. 2) y \<and> finished (server y) \<and>
       runningThreads (procs y 0 1) = 1 \<and> sleepingThreads (procs y 0 1) = 0 \<and> idle_reports y 0 1 = 0"
proof -
  have "\<exists>y. batch_run 1 (\<lambda>_. 2) [Start 0 1, Start 0 0, Finish 0 0, Start 0 0, Finish 0 0, GetSleeping 0, GetSleeping 0,
      Check 0, ServerSleeping, ServerEnd] (batch_init 1 (\<lambda>_. 2)) = Some y \<and> finished (server y) \<and>
      runningThreads (procs y 0 1) = 1 \<and> sleepingThreads (procs y 0 1) = 0 \<and> idle_reports y 0 1 = 0"
    by (simp add: batch_eval idle_reports_def)
  moreover have "batch_reach 1 (\<lambda>_. 2) (batch_init 1 (\<lambda>_. 2))" by (rule batch_start) simp
  ultimately show ?thesis using batch_run_reach by blast
qed


end
