(* ===== verification/Processor.thy ===== *)
theory Processor
  imports QueueInterface Resources BatchSleep
begin

text \<open>
  One thread of a processor (\<^verbatim>\<open>src/lib/processing_engine/Processor.cc\<close>): the checks of \<^verbatim>\<open>Init\<close> and \<^verbatim>\<open>Connect\<close>,
  the routing of a processed resource through the output filters (\<^verbatim>\<open>OutputFilter.h\<close>, \<^verbatim>\<open>QueueResource\<close>), the
  application of the modules (\<^verbatim>\<open>ApplyModules\<close>) and one turn of the loop of \<^verbatim>\<open>RunThread\<close>.  The queues are a
  store of \<open>SyncQueue\<close>s indexed by their address; the engine's resource counter, the registry's next id
  and the resources given back to the registry are the rest of the environment.  Modules are virtual:
  what a module does is an argument (a record of functions on the module's own state).  The log messages
  are left out.
\<close>

section \<open>Output filters\<close>

record output_filter =
  of_filter :: int
  of_emptyFilter :: bool
  of_priority :: int
  of_processor :: "string option"
  of_copy :: bool
  of_queue :: "nat option"

definition OutputFilter_new :: output_filter where
  "OutputFilter_new =
     \<lparr>of_filter = 0, of_emptyFilter = True, of_priority = 0, of_processor = None, of_copy = False, of_queue = None\<rparr>"

definition OutputFilter_SetFilter :: "int \<Rightarrow> output_filter \<Rightarrow> output_filter" where
  "OutputFilter_SetFilter v f = f\<lparr>of_filter := v, of_emptyFilter := False\<rparr>"

definition OutputFilter_SetQueue :: "nat \<Rightarrow> output_filter \<Rightarrow> output_filter" where
  "OutputFilter_SetQueue q f = f\<lparr>of_queue := Some q\<rparr>"

section \<open>The environment of a thread\<close>

type_synonym 'd rqueue = "'d resource sync_queue"

record 'd proc_env =
  env_queues :: "nat \<Rightarrow> 'd rqueue"
  env_count :: int
  env_nextId :: int
  env_released :: "'d resource list"
  env_deleted :: "'d resource list"
  env_sleep :: proc_sleep
  env_reports :: "report list"

definition UpdateResourceCount :: "int \<Rightarrow> 'd proc_env \<Rightarrow> 'd proc_env" where
  "UpdateResourceCount n env = env\<lparr>env_count := env_count env + n\<rparr>"

definition env_release :: "'d resource option \<Rightarrow> 'd proc_env \<Rightarrow> 'd proc_env" where
  "env_release ores env =
     (case ores of None \<Rightarrow> env | Some r \<Rightarrow> env\<lparr>env_released := env_released env @ [r]\<rparr>)"

definition env_clone :: "'d resource \<Rightarrow> 'd proc_env \<Rightarrow> 'd resource \<times> 'd proc_env" where
  "env_clone r env = (Resource_copy (env_nextId env) r, env\<lparr>env_nextId := env_nextId env + 1\<rparr>)"

definition env_UpdateSleeping :: "int \<Rightarrow> 'd proc_env \<Rightarrow> failure + 'd proc_env" where
  "env_UpdateSleeping d env =
     bind_result (UpdateSleeping d (env_sleep env))
       (\<lambda>(p, r). Inr (env\<lparr>env_sleep := p, env_reports := env_reports env @ [r]\<rparr>))"

text \<open>\<^verbatim>\<open>PutItem\<close> on a queue of the store, with what the other threads do while it waits.\<close>

type_synonym 'd script = "(('d rqueue \<Rightarrow> 'd rqueue) \<times> bool) list"

definition env_put ::
  "('d resource \<Rightarrow> int) \<Rightarrow> 'd resource \<Rightarrow> timeval option \<Rightarrow> int \<Rightarrow> 'd script \<Rightarrow> nat \<Rightarrow> 'd proc_env \<Rightarrow> failure + bool outcome \<times> 'd proc_env" where
  "env_put sz r t p ws a env =
     bind_result (store_put (\<lambda>t r p q. SyncQueue_PutItem sz r t p ws q) t r p a (env_queues env))
       (\<lambda>(res, qs). Inr (res, env\<lparr>env_queues := qs\<rparr>))"

definition OutputFilter_ProcessResource ::
  "('d resource \<Rightarrow> int) \<Rightarrow> 'd resource \<Rightarrow> timeval option \<Rightarrow> 'd script \<Rightarrow> output_filter \<Rightarrow> 'd proc_env \<Rightarrow> failure + bool outcome \<times> 'd proc_env" where
  "OutputFilter_ProcessResource sz r t ws f env =
     (case of_queue f of
        None \<Rightarrow> Inl NullDeref
      | Some a \<Rightarrow> env_put sz r t (of_priority f) ws a env)"

definition filter_matches :: "output_filter \<Rightarrow> 'd resource \<Rightarrow> bool" where
  "filter_matches f r \<longleftrightarrow> of_emptyFilter f \<or> of_filter f = r_status r"

text \<open>
  The loop of \<^verbatim>\<open>QueueResource\<close>.  \<^verbatim>\<open>*filterIndex++\<close> moves the pointer, not the integer, so the caller's index
  stays as it was.
\<close>

fun QueueResource_loop ::
  "('d resource \<Rightarrow> int) \<Rightarrow> nat option \<Rightarrow> timeval option \<Rightarrow> (nat \<Rightarrow> 'd script) \<Rightarrow> nat \<Rightarrow> output_filter list
     \<Rightarrow> 'd resource \<Rightarrow> 'd proc_env \<Rightarrow> failure + bool outcome \<times> 'd proc_env" where
  "QueueResource_loop sz engineOut t ws i [] r env =
     Inr (Returns True, UpdateResourceCount (- 1) (env_release (Some r) env))"
| "QueueResource_loop sz engineOut t ws i (f # fs) r env =
     (if filter_matches f r then
        let (item, env1) = (if of_copy f then env_clone r env else (r, env)) in
        bind_result (OutputFilter_ProcessResource sz item t (ws i) f env1) (\<lambda>(res, env2).
          case res of
            Returns True \<Rightarrow>
              if of_copy f then QueueResource_loop sz engineOut t ws (Suc i) fs r (UpdateResourceCount 1 env2)
              else Inr (Returns True, if of_queue f = engineOut then UpdateResourceCount (- 1) env2 else env2)
          | _ \<Rightarrow> Inr (res, env2))
      else QueueResource_loop sz engineOut t ws (Suc i) fs r env)"

definition QueueResource ::
  "('d resource \<Rightarrow> int) \<Rightarrow> output_filter list \<Rightarrow> nat option \<Rightarrow> timeval option \<Rightarrow> (nat \<Rightarrow> 'd script) \<Rightarrow> nat option
     \<Rightarrow> 'd resource \<Rightarrow> 'd proc_env \<Rightarrow> failure + bool outcome \<times> 'd proc_env" where
  "QueueResource sz outputFilters engineOut t ws filterIndex r env =
     (let i = (case filterIndex of None \<Rightarrow> 0 | Some k \<Rightarrow> k)
      in QueueResource_loop sz engineOut t ws i (drop i outputFilters) r env)"

section \<open>Correctness of the routing\<close>

text \<open>The reference: where copies of the resource and the resource itself go.\<close>

fun deliveries :: "int \<Rightarrow> 'd resource \<Rightarrow> output_filter list \<Rightarrow> (nat \<times> int \<times> 'd resource) list" where
  "deliveries next r [] = []"
| "deliveries next r (f # fs) =
     (if filter_matches f r then
        if of_copy f then (the (of_queue f), of_priority f, Resource_copy next r) # deliveries (next + 1) r fs
        else [(the (of_queue f), of_priority f, r)]
      else deliveries next r fs)"

text \<open>The first filter that takes the resource itself, if any.\<close>

fun final_filter :: "'d resource \<Rightarrow> output_filter list \<Rightarrow> output_filter option" where
  "final_filter r [] = None"
| "final_filter r (f # fs) = (if filter_matches f r \<and> \<not> of_copy f then Some f else final_filter r fs)"

abbreviation env_contents :: "'d proc_env \<Rightarrow> nat \<Rightarrow> int \<Rightarrow> 'd resource list" where
  "env_contents env \<equiv> (\<lambda>a. queue_content (env_queues env a))"

abbreviation env_ok :: "'d proc_env \<Rightarrow> bool" where
  "env_ok env \<equiv> (\<forall>a. sync_queue_wf (env_queues env a))"

definition leaves_engine :: "nat option \<Rightarrow> output_filter option \<Rightarrow> bool" where
  "leaves_engine engineOut dest \<longleftrightarrow> (case dest of None \<Rightarrow> True | Some f \<Rightarrow> of_queue f = engineOut)"

lemma env_put_ok:
  assumes "env_ok env" and "env_put sz r t p [] a env = Inr (res, env')"
  shows "env_ok env' \<and> env_count env' = env_count env \<and> env_nextId env' = env_nextId env \<and>
    env_released env' = env_released env \<and> env_deleted env' = env_deleted env \<and>
    (res = Returns True \<longrightarrow> env_contents env' = deliver (a, p, r) (env_contents env)) \<and>
    (res = Returns False \<longrightarrow> env_contents env' = env_contents env)"
proof -
  obtain qs where s: "store_put (\<lambda>t r p q. SyncQueue_PutItem sz r t p [] q) t r p a (env_queues env) = Inr (res, qs)"
    and e: "env' = env\<lparr>env_queues := qs\<rparr>"
    using assms(2) by (auto simp: env_put_def bind_result_Inr_iff)
  show ?thesis
    using sync_sink.store_put_valid [OF assms(1) s] sync_sink.store_put_accept [OF assms(1)]
      sync_sink.store_put_refuse [OF assms(1)] s e by auto
qed

text \<open>What \<^verbatim>\<open>QueueResource\<close> guarantees when it returns true, and when it returns false.\<close>

definition routed :: "nat option \<Rightarrow> 'd resource \<Rightarrow> output_filter list \<Rightarrow> 'd proc_env \<Rightarrow> bool \<Rightarrow> 'd proc_env \<Rightarrow> bool" where
  "routed eo r fs env b env' \<longleftrightarrow>
     (let ds = deliveries (env_nextId env) r fs in
      if b then
        env_contents env' = fold deliver ds (env_contents env) \<and>
        env_count env' = env_count env + int (length ds) - of_bool (final_filter r fs \<noteq> None)
          - of_bool (leaves_engine eo (final_filter r fs)) \<and>
        env_released env' = env_released env @ (if final_filter r fs = None then [r] else [])
      else
        (\<exists>k<length ds. env_contents env' = fold deliver (take k ds) (env_contents env) \<and>
           env_count env' = env_count env + int k \<and> env_released env' = env_released env))"

lemma routed_skip: "\<not> filter_matches f r \<Longrightarrow> routed eo r (f # fs) env b env' = routed eo r fs env b env'"
  by (simp only: routed_def deliveries.simps final_filter.simps if_False simp_thms)

lemma routed_copy:
  assumes "filter_matches f r" and "of_copy f" and "of_queue f = Some a"
    and "env_contents env1 = deliver (a, of_priority f, Resource_copy (env_nextId env) r) (env_contents env)"
    and "env_count env1 = env_count env + 1" and "env_released env1 = env_released env"
    and "env_nextId env1 = env_nextId env + 1" and "routed eo r fs env1 b env'"
  shows "routed eo r (f # fs) env b env'"
proof (cases b)
  case True
  then show ?thesis using assms by (simp add: routed_def Let_def)
next
  case False
  then obtain k where "k < length (deliveries (env_nextId env1) r fs)"
      "env_contents env' = fold deliver (take k (deliveries (env_nextId env1) r fs)) (env_contents env1)"
      "env_count env' = env_count env1 + int k" "env_released env' = env_released env1"
    using assms(8) by (auto simp: routed_def Let_def)
  then show ?thesis using assms False by (auto simp: routed_def Let_def intro!: exI [of _ "Suc k"])
qed

lemma QueueResource_loop_ok:
  assumes "env_ok env" and "QueueResource_loop sz eo t (\<lambda>_. []) i fs r env = Inr (Returns b, env')"
  shows "env_ok env' \<and> routed eo r fs env b env'"
  using assms
proof (induction fs arbitrary: env i)
  case Nil
  then show ?case by (auto simp: routed_def UpdateResourceCount_def env_release_def leaves_engine_def)
next
  case (Cons f fs)
  show ?case
  proof (cases "filter_matches f r")
    case False
    then show ?thesis using Cons.IH [OF Cons.prems(1), of "Suc i"] Cons.prems(2) by (simp add: routed_skip)
  next
    case True
    obtain item env1 where ie: "(if of_copy f then env_clone r env else (r, env)) = (item, env1)" by fastforce
    then have e1: "env_ok env1" "env_contents env1 = env_contents env" "env_count env1 = env_count env"
        "env_released env1 = env_released env" "env_nextId env1 = env_nextId env + of_bool (of_copy f)"
        "item = (if of_copy f then Resource_copy (env_nextId env) r else r)"
      using Cons.prems(1) by (auto simp: env_clone_def split: if_splits)
    obtain a res env2 where a: "of_queue f = Some a" and p: "env_put sz item t (of_priority f) [] a env1 = Inr (res, env2)"
      and rest: "(case res of
            Returns True \<Rightarrow>
              if of_copy f then QueueResource_loop sz eo t (\<lambda>_. []) (Suc i) fs r (UpdateResourceCount 1 env2)
              else Inr (Returns True, if of_queue f = eo then UpdateResourceCount (- 1) env2 else env2)
          | _ \<Rightarrow> Inr (res, env2)) = Inr (Returns b, env')"
      using Cons.prems(2) True ie
      by (auto simp: OutputFilter_ProcessResource_def bind_result_Inr_iff Let_def split: option.splits)
    note put = env_put_ok [OF e1(1) p]
    consider "res = Returns False" "b = False" "env' = env2" | "res = Returns True"
      using rest by (cases res) (auto split: bool.splits)
    then show ?thesis
    proof cases
      case 1
      then show ?thesis using put e1 True by (auto simp: routed_def Let_def intro!: exI [of _ 0])
    next
      case 2
      show ?thesis
      proof (cases "of_copy f")
        case False
        then have "env' = (if of_queue f = eo then UpdateResourceCount (- 1) env2 else env2)" "b" using rest 2 by auto
        then show ?thesis using put e1 True False a 2
          by (auto simp: routed_def UpdateResourceCount_def leaves_engine_def)
      next
        case copy: True
        let ?e = "UpdateResourceCount 1 env2"
        have e: "env_ok ?e" "env_contents ?e = deliver (a, of_priority f, item) (env_contents env)"
            "env_count ?e = env_count env + 1" "env_released ?e = env_released env" "env_nextId ?e = env_nextId env + 1"
          using put 2 e1 copy by (auto simp: UpdateResourceCount_def)
        have "QueueResource_loop sz eo t (\<lambda>_. []) (Suc i) fs r ?e = Inr (Returns b, env')"
          using rest 2 copy by simp
        note IH = Cons.IH [OF e(1) this]
        then show ?thesis
          using routed_copy [OF True copy a, of ?e env eo fs b env'] e e1 copy by simp
      qed
    qed
  qed
qed

section \<open>Modules\<close>

datatype module_type = INVALID | INPUT | OUTPUT | SIMPLE | MULTI

text \<open>
  The virtual functions of a module, on its own state \<open>'m\<close>.  \<open>processMulti\<close> gets the input and output
  queues and the number of resources the module works on, and returns whether it is busy, the two
  queues, how many resources it expects and how many it works on.
\<close>

record ('d, 'm) module_ops =
  processInput :: "bool \<Rightarrow> 'm \<Rightarrow> 'd resource option \<times> 'm"
  processOutput :: "'d resource option \<Rightarrow> 'm \<Rightarrow> 'd resource option \<times> 'm"
  processSimple :: "'d resource \<Rightarrow> 'm \<Rightarrow> 'd resource option \<times> 'm"
  processMulti :: "'d resource list \<Rightarrow> 'd resource list \<Rightarrow> int \<Rightarrow> 'm \<Rightarrow>
    bool \<times> 'd resource list \<times> 'd resource list \<times> int \<times> int \<times> 'm"

record ('d, 'm) module_info =
  mi_ops :: "('d, 'm) module_ops"
  mi_state :: 'm
  mi_type :: module_type
  mi_processing :: int
  mi_input :: "'d resource list"
  mi_output :: "'d resource list"

type_synonym ('d, 'm) modules = "('d, 'm) module_info list"

text \<open>How a part of the thread's loop ends: it goes on, the thread function returns, it waits, or it fails.\<close>

datatype ('x, 'e) run = Continue 'x | ReturnThread 'e | Blocked 'e | Fail failure | Diverges

fun bind_run :: "('x, 'e) run \<Rightarrow> ('x \<Rightarrow> ('y, 'e) run) \<Rightarrow> ('y, 'e) run" where
  "bind_run (Continue x) f = f x"
| "bind_run (ReturnThread e) f = ReturnThread e"
| "bind_run (Blocked e) f = Blocked e"
| "bind_run (Fail x) f = Fail x"
| "bind_run Diverges f = Diverges"

lemma bind_run_Continue_iff: "bind_run m f = Continue y \<longleftrightarrow> (\<exists>x. m = Continue x \<and> f x = Continue y)"
  by (cases m) auto

function NextMultiModuleIndex_loop :: "('d, 'm) modules \<Rightarrow> nat \<Rightarrow> nat" where
  "NextMultiModuleIndex_loop mis index =
     (if index < length mis \<and> mi_type (mis ! index) \<noteq> MULTI then NextMultiModuleIndex_loop mis (Suc index) else index)"
  by pat_completeness auto
termination by (relation "measure (\<lambda>(mis, index). length mis - index)") auto

declare NextMultiModuleIndex_loop.simps [simp del]

definition NextMultiModuleIndex :: "('d, 'm) modules \<Rightarrow> nat \<Rightarrow> nat option" where
  "NextMultiModuleIndex mis index =
     (let i = NextMultiModuleIndex_loop mis index in if i = length mis then None else Some i)"

text \<open>The endless loop of the INPUT case: read until null or a resource that is not marked deleted.\<close>

partial_function (option) input_loop ::
  "(bool \<Rightarrow> 'm \<Rightarrow> 'd resource option \<times> 'm) \<Rightarrow> bool \<Rightarrow> 'm \<Rightarrow> 'd resource list
     \<Rightarrow> ('d resource option \<times> 'm \<times> 'd resource list) option" where
  "input_loop pin sleep st dels =
     (case pin sleep st of
        (None, st1) \<Rightarrow> Some (None, st1, dels)
      | (Some r, st1) \<Rightarrow>
          if IsSetFlag DELETED r then input_loop pin sleep st1 (dels @ [r]) else Some (Some r, st1, dels))"

definition add_deleted :: "'d resource list \<Rightarrow> 'd proc_env \<Rightarrow> 'd proc_env" where
  "add_deleted rs env = env\<lparr>env_deleted := env_deleted env @ rs\<rparr>"

definition set_module_state :: "nat \<Rightarrow> 'm \<Rightarrow> ('d, 'm) modules \<Rightarrow> ('d, 'm) modules" where
  "set_module_state i st mis = mis[i := (mis ! i)\<lparr>mi_state := st\<rparr>]"

lemma length_set_module_state [simp]: "length (set_module_state i st mis) = length mis"
  by (simp add: set_module_state_def)

text \<open>
  One pass of the loop of \<^verbatim>\<open>ApplyModules\<close>: the switch over the type of one module.  The first component says
  whether the loop goes on or the function returns.
\<close>

definition apply_module ::
  "('d, 'm) module_info \<Rightarrow> 'd resource option \<Rightarrow> bool \<Rightarrow> 'd proc_env
     \<Rightarrow> (bool \<times> 'd resource option \<times> bool \<times> 'm \<times> 'd proc_env, 'd proc_env) run" where
  "apply_module mi res sleep env =
     (case mi_type mi of
        INPUT \<Rightarrow>
          if res \<noteq> None then Fail AssertFailed
          else (case input_loop (processInput (mi_ops mi)) sleep (mi_state mi) [] of
                  None \<Rightarrow> Diverges
                | Some (None, st, dels) \<Rightarrow> Continue (False, None, True, st, add_deleted dels env)
                | Some (Some r, st, dels) \<Rightarrow>
                    Continue (True, Some r, False, st, UpdateResourceCount 1 (add_deleted dels env)))
      | OUTPUT \<Rightarrow>
          (case processOutput (mi_ops mi) res (mi_state mi) of
             (out, st) \<Rightarrow> Continue (True, None, False, st, UpdateResourceCount (- 1) (env_release out env)))
      | SIMPLE \<Rightarrow>
          (case res of
             None \<Rightarrow> Fail NullDeref
           | Some r \<Rightarrow>
               (case (if IsSetFlag SKIP r then (Some r, mi_state mi) else processSimple (mi_ops mi) r (mi_state mi)) of
                  (None, st) \<Rightarrow> Continue (False, None, False, st, env)
                | (Some r1, st) \<Rightarrow>
                    if IsSetFlag DELETED r1 then Continue (False, None, False, st, add_deleted [r1] env)
                    else Continue (True, Some r1, False, st, env)))
      | _ \<Rightarrow> Continue (True, res, False, mi_state mi, env))"

function ApplyModules ::
  "('d, 'm) modules \<Rightarrow> 'd resource option \<Rightarrow> nat \<Rightarrow> bool \<Rightarrow> 'd proc_env
     \<Rightarrow> ('d resource option \<times> bool \<times> ('d, 'm) modules \<times> 'd proc_env, 'd proc_env) run" where
  "ApplyModules mis res index sleep env =
     (if index < length mis \<and> mi_type (mis ! index) \<noteq> MULTI then
        case apply_module (mis ! index) res sleep env of
          Continue (goes_on, res1, stop, st, env1) \<Rightarrow>
            if goes_on then ApplyModules (set_module_state index st mis) res1 (Suc index) sleep env1
            else Continue (res1, stop, set_module_state index st mis, env1)
        | ReturnThread e \<Rightarrow> ReturnThread e
        | Blocked e \<Rightarrow> Blocked e
        | Fail x \<Rightarrow> Fail x
        | Diverges \<Rightarrow> Diverges
      else Continue (res, False, mis, env))"
  by pat_completeness auto
termination by (relation "measure (\<lambda>(mis, res, index, sleep, env). length mis - index)") auto

declare ApplyModules.simps [simp del]

text \<open>
  The last part of a turn: hand the resources marked deleted to the engine's output queue, or release
  them.  The result says whether all of them could be handed over (otherwise no more input is read).
\<close>

fun drain_deleted ::
  "('d resource \<Rightarrow> int) \<Rightarrow> nat option \<Rightarrow> 'd resource list \<Rightarrow> 'd proc_env \<Rightarrow> (bool \<times> 'd proc_env, 'd proc_env) run" where
  "drain_deleted sz engineOut [] env = Continue (True, env\<lparr>env_deleted := []\<rparr>)"
| "drain_deleted sz engineOut (r # rs) env =
     (case engineOut of
        Some a \<Rightarrow>
          (case env_put sz r None 0 [] a env of
             Inl e \<Rightarrow> Fail e
           | Inr (Returns True, env1) \<Rightarrow> drain_deleted sz engineOut rs (UpdateResourceCount (- 1) env1)
           | Inr (Returns False, env1) \<Rightarrow> Continue (False, env1\<lparr>env_deleted := r # rs\<rparr>)
           | Inr (Waits, env1) \<Rightarrow> Blocked env1)
      | None \<Rightarrow> drain_deleted sz engineOut rs (UpdateResourceCount (- 1) (env_release (Some r) env)))"

section \<open>The thread\<close>

record proc_cfg =
  cfg_filters :: "output_filter list"
  cfg_engineOut :: "nat option"
  cfg_inputQueue :: nat
  cfg_engineIn :: "nat option"
  cfg_batch :: bool

record ('d, 'm) thread =
  th_mis :: "('d, 'm) modules"
  th_readMax :: int
  th_outIdx :: nat
  th_outRes :: "'d resource option"
  th_block :: bool
  th_env :: "'d proc_env"

text \<open>
  What the other threads do meanwhile, for the \<open>k\<close>-th resource of a turn: to the queue the thread reads
  from, to the queues it writes to, and to the pause flag of the input.
\<close>

datatype pause = NotPaused | PausedThenCleared | PausedThenStopped

record 'd surroundings =
  sur_get :: "nat \<Rightarrow> 'd script"
  sur_put :: "nat \<Rightarrow> nat \<Rightarrow> 'd script"
  sur_pause :: "nat \<Rightarrow> pause"

definition forever :: timeval where
  "forever = \<lparr>tv_sec = 0, tv_usec = 0\<rparr>"

definition env_get ::
  "('d resource \<Rightarrow> int) \<Rightarrow> timeval option \<Rightarrow> 'd script \<Rightarrow> nat \<Rightarrow> 'd proc_env \<Rightarrow> 'd resource option outcome \<times> 'd proc_env" where
  "env_get sz t ws a env =
     (case SyncQueue_GetItem sz t ws (env_queues env a) of
        (res, sig, q) \<Rightarrow> (res, env\<lparr>env_queues := (env_queues env)(a := q)\<rparr>))"

definition to_run :: "failure + 'x \<Rightarrow> ('x, 'e) run" where
  "to_run m = (case m of Inl e \<Rightarrow> Fail e | Inr x \<Rightarrow> Continue x)"

text \<open>Reading from the input queue; \<open>first\<close> is \<^verbatim>\<open>block && resourcesRead == 0\<close>.\<close>

definition read_queue ::
  "('d resource \<Rightarrow> int) \<Rightarrow> proc_cfg \<Rightarrow> 'd script \<Rightarrow> bool \<Rightarrow> 'd proc_env \<Rightarrow> ('d resource option \<times> 'd proc_env, 'd proc_env) run" where
  "read_queue sz cfg ws first env =
     bind_run (if cfg_batch cfg \<and> first then to_run (env_UpdateSleeping 1 env) else Continue env) (\<lambda>env1.
       case env_get sz (if first then Some forever else None) ws (cfg_inputQueue cfg) env1 of
         (Waits, env2) \<Rightarrow> Blocked env2
       | (Returns res, env2) \<Rightarrow>
           bind_run (if cfg_batch cfg \<and> first then to_run (env_UpdateSleeping (- 1) env2) else Continue env2) (\<lambda>env3.
             case res of
               None \<Rightarrow> if first then ReturnThread env3 else Continue (None, env3)
             | Some r \<Rightarrow>
                 Continue (Some r, if Some (cfg_inputQueue cfg) = cfg_engineIn cfg then UpdateResourceCount 1 env3 else env3)))"

text \<open>Obtaining a resource; \<open>None\<close> is a \<^verbatim>\<open>break\<close> of the reading loop.\<close>

definition obtain_resource ::
  "('d resource \<Rightarrow> int) \<Rightarrow> proc_cfg \<Rightarrow> 'd surroundings \<Rightarrow> nat \<Rightarrow> int \<Rightarrow> ('d, 'm) thread
     \<Rightarrow> (('d resource option \<times> int \<times> 'd proc_env) option \<times> 'd proc_env, 'd proc_env) run" where
  "obtain_resource sz cfg sur k got th =
     (if th_mis th = [] then Fail OutOfRange
      else if mi_type (th_mis th ! 0) \<noteq> INPUT then
        bind_run (read_queue sz cfg (sur_get sur k) (th_block th \<and> got = 0) (th_env th)) (\<lambda>(res, env1).
          Continue (case res of None \<Rightarrow> None | Some r \<Rightarrow> Some (Some r, got + 1, env1), env1))
      else if sur_pause sur k = NotPaused then Continue (Some (None, got, th_env th), th_env th)
      else if \<not> th_block th then Continue (None, th_env th)
      else if sur_pause sur k = PausedThenStopped then ReturnThread (th_env th)
      else Continue (Some (None, got, th_env th), th_env th))"

definition push_input :: "nat \<Rightarrow> 'd resource \<Rightarrow> ('d, 'm) modules \<Rightarrow> ('d, 'm) modules" where
  "push_input j r mis = mis[j := (mis ! j)\<lparr>mi_input := mi_input (mis ! j) @ [r]\<rparr>]"

definition push_output :: "nat \<Rightarrow> 'd resource \<Rightarrow> ('d, 'm) modules \<Rightarrow> ('d, 'm) modules" where
  "push_output j r mis = mis[j := (mis ! j)\<lparr>mi_output := mi_output (mis ! j) @ [r]\<rparr>]"

text \<open>Where a resource goes that passed the modules up to the first multi module.\<close>

definition store_resource ::
  "('d resource \<Rightarrow> int) \<Rightarrow> proc_cfg \<Rightarrow> (nat \<Rightarrow> 'd script) \<Rightarrow> 'd resource \<Rightarrow> ('d, 'm) thread \<Rightarrow> (('d, 'm) thread, 'd proc_env) run" where
  "store_resource sz cfg ws r th =
     (case NextMultiModuleIndex (th_mis th) 0 of
        Some j \<Rightarrow> Continue (th\<lparr>th_mis := push_input j r (th_mis th)\<rparr>)
      | None \<Rightarrow>
          (case QueueResource sz (cfg_filters cfg) (cfg_engineOut cfg) (Some forever) ws None r (th_env th) of
             Inl e \<Rightarrow> Fail e
           | Inr (Waits, env) \<Rightarrow> Blocked env
           | Inr (Returns False, env) \<Rightarrow> ReturnThread env
           | Inr (Returns True, env) \<Rightarrow> Continue (th\<lparr>th_env := env, th_outIdx := 0\<rparr>)))"

text \<open>One pass of the reading loop; the first component is false when the loop ends by \<^verbatim>\<open>break\<close>.\<close>

definition read_one ::
  "('d resource \<Rightarrow> int) \<Rightarrow> proc_cfg \<Rightarrow> 'd surroundings \<Rightarrow> nat \<Rightarrow> int \<Rightarrow> ('d, 'm) thread
     \<Rightarrow> (bool \<times> int \<times> ('d, 'm) thread, 'd proc_env) run" where
  "read_one sz cfg sur k got th =
     bind_run (obtain_resource sz cfg sur k got th) (\<lambda>(o', env).
       case o' of
         None \<Rightarrow> Continue (False, got, th\<lparr>th_env := env\<rparr>)
       | Some (res, got1, env1) \<Rightarrow>
           bind_run (ApplyModules (th_mis th) res 0 (th_block th \<and> got1 = 0) env1) (\<lambda>(res1, stop, mis1, env2).
             let th1 = th\<lparr>th_mis := mis1, th_env := env2\<rparr> in
             case res1 of
               None \<Rightarrow> if th_block th \<and> got1 = 0 \<and> stop then ReturnThread env2 else Continue (False, got1, th1)
             | Some r \<Rightarrow> bind_run (store_resource sz cfg (sur_put sur k) r th1) (\<lambda>th2. Continue (True, got1 + 1, th2))))"

lemma obtain_resource_got:
  "obtain_resource sz cfg sur k got th = Continue (Some (res, got1, env1), env) \<Longrightarrow> got \<le> got1"
  by (auto simp: obtain_resource_def bind_run_Continue_iff split: if_splits option.splits)

lemma store_resource_readMax:
  "store_resource sz cfg ws r th = Continue th' \<Longrightarrow> th_readMax th' = th_readMax th"
  by (auto simp: store_resource_def split: option.splits sum.splits outcome.splits bool.splits)

lemma read_one_progress:
  assumes "read_one sz cfg sur k got th = Continue (True, got', th')"
  shows "got < got' \<and> th_readMax th' = th_readMax th"
proof -
  obtain o' env where o: "obtain_resource sz cfg sur k got th = Continue (o', env)"
    using assms by (auto simp: read_one_def bind_run_Continue_iff)
  obtain res got1 env1 where s: "o' = Some (res, got1, env1)"
    using assms o by (cases o') (auto simp: read_one_def)
  obtain res1 stop mis1 env2 where a: "ApplyModules (th_mis th) res 0 (th_block th \<and> got1 = 0) env1 = Continue (res1, stop, mis1, env2)"
    using assms o s by (auto simp: read_one_def bind_run_Continue_iff)
  obtain r where r: "res1 = Some r"
    using assms o s a by (cases res1) (auto simp: read_one_def Let_def split: if_splits)
  have "bind_run (store_resource sz cfg (sur_put sur k) r (th\<lparr>th_mis := mis1, th_env := env2\<rparr>))
      (\<lambda>th2. Continue (True, got1 + 1, th2)) = Continue (True, got', th')"
    using assms o s a r by (simp add: read_one_def Let_def)
  then have "got' = got1 + 1" "store_resource sz cfg (sur_put sur k) r (th\<lparr>th_mis := mis1, th_env := env2\<rparr>) = Continue th'"
    by (auto simp: bind_run_Continue_iff)
  then show ?thesis using obtain_resource_got [OF o [unfolded s]] store_resource_readMax by fastforce
qed

function read_loop ::
  "('d resource \<Rightarrow> int) \<Rightarrow> proc_cfg \<Rightarrow> 'd surroundings \<Rightarrow> nat \<Rightarrow> int \<Rightarrow> ('d, 'm) thread
     \<Rightarrow> (('d, 'm) thread, 'd proc_env) run" where
  "read_loop sz cfg sur k got th =
     (if got < th_readMax th then
        case read_one sz cfg sur k got th of
          Continue (goes_on, got1, th1) \<Rightarrow>
            if goes_on then read_loop sz cfg sur (Suc k) got1 th1 else Continue th1
        | ReturnThread e \<Rightarrow> ReturnThread e
        | Blocked e \<Rightarrow> Blocked e
        | Fail x \<Rightarrow> Fail x
        | Diverges \<Rightarrow> Diverges
      else Continue th)"
  by pat_completeness auto
termination
  by (relation "measure (\<lambda>(sz, cfg, sur, k, got, th). nat (th_readMax th - got))") (auto dest: read_one_progress)

subsection \<open>The multi modules\<close>

text \<open>The call of \<^verbatim>\<open>ProcessMulti\<close> with its bookkeeping; \<open>minN\<close> is the least number of resources a module still accepts.\<close>

definition multi_process :: "nat \<Rightarrow> int \<Rightarrow> ('d, 'm) thread \<Rightarrow> (int \<times> ('d, 'm) thread, 'd proc_env) run" where
  "multi_process j minN th =
     (let mi = th_mis th ! j in
      case processMulti (mi_ops mi) (mi_input mi) (mi_output mi) (mi_processing mi) (mi_state mi) of
        (busy, inp, out, n, proc, st) \<Rightarrow>
          let delta = int (length (mi_input mi)) + int (length (mi_output mi)) + mi_processing mi
                - (int (length inp) + int (length out) + proc);
              mi1 = mi\<lparr>mi_input := inp, mi_output := out, mi_processing := proc, mi_state := st\<rparr>
          in if delta > 0 then Fail AssertFailed
             else Continue (min minN (n - int (length inp)),
                    th\<lparr>th_mis := (th_mis th)[j := mi1], th_block := th_block th \<and> \<not> busy,
                       th_env := (if delta \<noteq> 0 then UpdateResourceCount (- delta) (th_env th) else th_env th)\<rparr>))"

definition try_queue ::
  "('d resource \<Rightarrow> int) \<Rightarrow> proc_cfg \<Rightarrow> (nat \<Rightarrow> 'd script) \<Rightarrow> nat \<Rightarrow> 'd resource \<Rightarrow> ('d, 'm) thread \<Rightarrow> (bool \<times> ('d, 'm) thread, 'd proc_env) run" where
  "try_queue sz cfg ws queued r th =
     (case QueueResource sz (cfg_filters cfg) (cfg_engineOut cfg)
             (if th_block th \<and> queued = 0 then Some forever else None) ws (Some (th_outIdx th)) r (th_env th) of
        Inl e \<Rightarrow> Fail e
      | Inr (Waits, env) \<Rightarrow> Blocked env
      | Inr (Returns b, env) \<Rightarrow> Continue (b, th\<lparr>th_env := env\<rparr>))"

text \<open>
  Handing an output of the last modules over: first the resource that could not be queued before.  The
  first component of the result is true when the loop over the outputs is left by \<^verbatim>\<open>break\<close>.
\<close>

definition queue_new ::
  "('d resource \<Rightarrow> int) \<Rightarrow> proc_cfg \<Rightarrow> (nat \<Rightarrow> 'd script) \<Rightarrow> nat \<Rightarrow> 'd resource \<Rightarrow> ('d, 'm) thread \<Rightarrow> (bool \<times> nat \<times> ('d, 'm) thread, 'd proc_env) run" where
  "queue_new sz cfg ws queued r th =
     bind_run (try_queue sz cfg ws queued r th) (\<lambda>(ok, th1).
       if ok then Continue (False, Suc queued, th1) else Continue (True, queued, th1\<lparr>th_outRes := Some r\<rparr>))"

definition route_output ::
  "('d resource \<Rightarrow> int) \<Rightarrow> proc_cfg \<Rightarrow> (nat \<Rightarrow> 'd script) \<Rightarrow> (nat \<Rightarrow> 'd script) \<Rightarrow> nat \<Rightarrow> 'd resource \<Rightarrow> ('d, 'm) thread
     \<Rightarrow> (bool \<times> nat \<times> ('d, 'm) thread, 'd proc_env) run" where
  "route_output sz cfg ws0 ws1 queued r th =
     (case th_outRes th of
        Some p \<Rightarrow>
          bind_run (try_queue sz cfg ws0 queued p th) (\<lambda>(ok, th1).
            if ok then queue_new sz cfg ws1 (Suc queued) r (th1\<lparr>th_outIdx := 0, th_outRes := None\<rparr>)
            else Continue (True, queued, th1))
      | None \<Rightarrow> queue_new sz cfg ws1 queued r th)"

primrec output_loop ::
  "('d resource \<Rightarrow> int) \<Rightarrow> proc_cfg \<Rightarrow> 'd surroundings \<Rightarrow> nat \<Rightarrow> 'd resource list \<Rightarrow> nat \<Rightarrow> nat \<Rightarrow> ('d, 'm) thread
     \<Rightarrow> ('d resource list \<times> nat \<times> ('d, 'm) thread, 'd proc_env) run" where
  "output_loop sz cfg sur j [] k queued th = Continue ([], queued, th)"
| "output_loop sz cfg sur j (r # rs) k queued th =
     (if IsSetFlag DELETED r then output_loop sz cfg sur j rs k queued (th\<lparr>th_env := add_deleted [r] (th_env th)\<rparr>)
      else
        bind_run (ApplyModules (th_mis th) (Some r) (Suc j) False (th_env th)) (\<lambda>(res, stop, mis1, env1).
          let th1 = th\<lparr>th_mis := mis1, th_env := env1\<rparr> in
          case res of
            None \<Rightarrow> output_loop sz cfg sur j rs k queued th1
          | Some r1 \<Rightarrow>
              (case NextMultiModuleIndex (th_mis th1) (Suc j) of
                 Some j2 \<Rightarrow>
                   output_loop sz cfg sur j rs k queued
                     (th1\<lparr>th_mis := (if \<not> IsSetFlag SKIP r1 then push_input j2 r1 else push_output j2 r1) (th_mis th1)\<rparr>)
               | None \<Rightarrow>
                   bind_run (route_output sz cfg (sur_put sur k) (sur_put sur (Suc k)) queued r1 th1)
                     (\<lambda>(broke, queued1, th2).
                        if broke then Continue (rs, queued1, th2)
                        else output_loop sz cfg sur j rs (Suc (Suc k)) queued1 th2))))"

text \<open>
  One pass over the multi module at position \<open>j\<close>.  If outputs are left over, the assertion
  \<^verbatim>\<open>multiIndex == -1\<close> is reached with \<open>multiIndex = j\<close> and fails.
\<close>

definition multi_one ::
  "('d resource \<Rightarrow> int) \<Rightarrow> proc_cfg \<Rightarrow> 'd surroundings \<Rightarrow> nat \<Rightarrow> int \<Rightarrow> ('d, 'm) thread \<Rightarrow> (int \<times> ('d, 'm) thread, 'd proc_env) run" where
  "multi_one sz cfg sur j minN th =
     bind_run (multi_process j minN th) (\<lambda>(minN1, th1).
       bind_run (output_loop sz cfg sur j (mi_output (th_mis th1 ! j)) 0 0 th1) (\<lambda>(rest, queued, th2).
         let th3 = th2\<lparr>th_mis := (th_mis th2)[j := (th_mis th2 ! j)\<lparr>mi_output := rest\<rparr>]\<rparr> in
         if rest = [] then Continue (minN1, th3)
         else if th_block th3 \<and> queued = 0 then ReturnThread (th_env th3)
         else Fail AssertFailed))"

lemma NextMultiModuleIndex_loop_ge: "index \<le> NextMultiModuleIndex_loop mis index"
  by (induction mis index rule: NextMultiModuleIndex_loop.induct) (subst NextMultiModuleIndex_loop.simps, auto)

lemma NextMultiModuleIndex_loop_bound:
  "index \<le> length mis \<Longrightarrow> NextMultiModuleIndex_loop mis index \<le> length mis"
  by (induction mis index rule: NextMultiModuleIndex_loop.induct) (subst NextMultiModuleIndex_loop.simps, auto)

function multi_positions :: "('d, 'm) modules \<Rightarrow> nat \<Rightarrow> nat list" where
  "multi_positions mis i =
     (if i < length mis then
        case NextMultiModuleIndex mis i of None \<Rightarrow> [] | Some j \<Rightarrow> j # multi_positions mis (Suc j)
      else [])"
  by pat_completeness auto
termination
proof (relation "measure (\<lambda>(mis, i). length mis - i)", goal_cases)
  case (2 mis i j)
  then have "i \<le> j" using NextMultiModuleIndex_loop_ge [of i mis]
    by (auto simp: NextMultiModuleIndex_def Let_def split: if_splits)
  then show ?case using 2 by simp
qed simp

primrec multi_loop ::
  "('d resource \<Rightarrow> int) \<Rightarrow> proc_cfg \<Rightarrow> (nat \<Rightarrow> 'd surroundings) \<Rightarrow> nat list \<Rightarrow> int \<Rightarrow> ('d, 'm) thread \<Rightarrow> (int \<times> ('d, 'm) thread, 'd proc_env) run" where
  "multi_loop sz cfg sur [] minN th = Continue (minN, th)"
| "multi_loop sz cfg sur (j # js) minN th =
     bind_run (multi_one sz cfg (sur j) j minN th) (\<lambda>(minN1, th1). multi_loop sz cfg sur js minN1 th1)"

subsection \<open>A turn, and the thread function\<close>

definition RunThread_turn ::
  "('d resource \<Rightarrow> int) \<Rightarrow> proc_cfg \<Rightarrow> 'd surroundings \<Rightarrow> (nat \<Rightarrow> 'd surroundings) \<Rightarrow> ('d, 'm) thread \<Rightarrow> (('d, 'm) thread, 'd proc_env) run" where
  "RunThread_turn sz cfg rsur msur th =
     bind_run (read_loop sz cfg rsur 0 0 th) (\<lambda>th1.
       let js = multi_positions (th_mis th1) 0 in
       bind_run (multi_loop sz cfg msur js (if js \<noteq> [] then 1000000 else 1) (th1\<lparr>th_block := True\<rparr>)) (\<lambda>(minN, th2).
         bind_run (drain_deleted sz (cfg_engineOut cfg) (env_deleted (th_env th2)) (th_env th2)) (\<lambda>(all, env3).
           Continue (th2\<lparr>th_env := env3, th_readMax := (if all then minN else 0)\<rparr>))))"

text \<open>The thread function: one turn for each time \<^verbatim>\<open>IsRunning()\<close> answers true.\<close>

primrec RunThread_loop ::
  "('d resource \<Rightarrow> int) \<Rightarrow> proc_cfg \<Rightarrow> ('d surroundings \<times> (nat \<Rightarrow> 'd surroundings)) list \<Rightarrow> ('d, 'm) thread \<Rightarrow> (('d, 'm) thread, 'd proc_env) run" where
  "RunThread_loop sz cfg [] th = ReturnThread (th_env th)"
| "RunThread_loop sz cfg (t # ts) th =
     bind_run (RunThread_turn sz cfg (fst t) (snd t) th) (\<lambda>th1. RunThread_loop sz cfg ts th1)"

definition RunThread ::
  "('d resource \<Rightarrow> int) \<Rightarrow> proc_cfg \<Rightarrow> ('d surroundings \<times> (nat \<Rightarrow> 'd surroundings)) list \<Rightarrow> ('d, 'm) modules \<Rightarrow> 'd proc_env
     \<Rightarrow> (('d, 'm) thread, 'd proc_env) run" where
  "RunThread sz cfg turns mis env =
     RunThread_loop sz cfg turns
       \<lparr>th_mis = mis, th_readMax = 1, th_outIdx = 0, th_outRes = None, th_block = True,
        th_env = env\<lparr>env_sleep := ThreadStarted (env_sleep env)\<rparr>\<rparr>"

section \<open>The checks of Init and the connection of the filters\<close>

text \<open>The loop over the modules at the end of \<^verbatim>\<open>Init\<close>; the first wrong module makes it fail.\<close>

datatype init_error =
  InputNotFirst | QueueAndInputModule | OutputNotLast | NextProcessorAndOutputModule | NoInputQueue | NoOutputQueue

definition check_module :: "nat \<Rightarrow> nat \<Rightarrow> nat \<Rightarrow> nat \<Rightarrow> module_type \<Rightarrow> init_error option" where
  "check_module n queuesCount filtersCount i ty =
     (case ty of
        INPUT \<Rightarrow>
          if i \<noteq> 0 then Some InputNotFirst
          else if queuesCount > 0 then Some QueueAndInputModule else None
      | OUTPUT \<Rightarrow>
          if i \<noteq> n - 1 then Some OutputNotLast
          else if filtersCount > 0 then Some NextProcessorAndOutputModule else None
      | INVALID \<Rightarrow> None
      | _ \<Rightarrow>
          if i = 0 \<and> queuesCount = 0 then Some NoInputQueue
          else if i = n - 1 \<and> filtersCount = 0 then Some NoOutputQueue else None)"

fun check_modules_loop :: "nat \<Rightarrow> nat \<Rightarrow> nat \<Rightarrow> nat \<Rightarrow> module_type list \<Rightarrow> init_error option" where
  "check_modules_loop n nq nf i [] = None"
| "check_modules_loop n nq nf i (ty # tys) =
     (case check_module n nq nf i ty of Some e \<Rightarrow> Some e | None \<Rightarrow> check_modules_loop n nq nf (Suc i) tys)"

definition check_modules :: "nat \<Rightarrow> nat \<Rightarrow> module_type list \<Rightarrow> init_error option" where
  "check_modules nq nf tys = check_modules_loop (length tys) nq nf 0 tys"

text \<open>
  \<^verbatim>\<open>Connect\<close>: every filter gets the input queue of the processor or the output queue of the engine it
  names, which must have a sub-queue of the filter's priority.  The lookup of the object registry is an
  argument: a processor's input queue, or an engine with its output queue, created on demand.
\<close>

datatype endpoint = ProcessorQueue nat | EngineQueue nat | NoObject

fun Connect :: "(string \<Rightarrow> endpoint) \<Rightarrow> (nat \<Rightarrow> int \<Rightarrow> bool) \<Rightarrow> output_filter list \<Rightarrow> failure + output_filter list option" where
  "Connect obj has [] = Inr (Some [])"
| "Connect obj has (f # fs) =
     (case of_processor f of
        None \<Rightarrow> Inl AssertFailed
      | Some ref \<Rightarrow>
          (case (case obj ref of ProcessorQueue a \<Rightarrow> Some a | EngineQueue a \<Rightarrow> Some a | NoObject \<Rightarrow> None) of
             None \<Rightarrow> Inr None
           | Some a \<Rightarrow>
               if has a (of_priority f) then
                 bind_result (Connect obj has fs) (\<lambda>ofs. Inr (map_option (\<lambda>gs. OutputFilter_SetQueue a f # gs) ofs))
               else Inr None))"

lemma check_modules_loop_None:
  "check_modules_loop n nq nf i tys = None \<longleftrightarrow> (\<forall>k<length tys. check_module n nq nf (i + k) (tys ! k) = None)"
proof (induction tys arbitrary: i)
  case (Cons ty tys)
  show ?case
    by (auto simp: Cons less_Suc_eq_0_disj split: option.splits)
qed simp

lemma check_modules_None:
  "check_modules nq nf tys = None \<longleftrightarrow> (\<forall>k<length tys. check_module (length tys) nq nf k (tys ! k) = None)"
  by (simp add: check_modules_def check_modules_loop_None)

end
