(* ===== verification/Conservation.thy ===== *)
theory Conservation
  imports Processor
begin

text \<open>
  Properties of a processor's thread: resources are routed to the right queues, none is lost or counted
  twice on its way through the modules, and the resources marked deleted reach the engine's output queue
  in order.
\<close>

section \<open>Accounting\<close>

text \<open>What the thread holds of a resource on its way: the resource itself and those marked deleted.\<close>

definition held :: "'d resource option \<Rightarrow> 'd proc_env \<Rightarrow> int" where
  "held res env = of_bool (res \<noteq> None) + int (length (env_deleted env))"

text \<open>
  A module that neither loses a resource nor lets one in that is already marked deleted, in the states it can be in:
  there is an invariant of its state that its functions keep.
\<close>

definition careful :: "('d, 'm) module_info \<Rightarrow> ('m \<Rightarrow> bool) \<Rightarrow> bool" where
  "careful mi I \<longleftrightarrow>
     (mi_type mi = SIMPLE \<longrightarrow>
        (\<forall>r st. I st \<longrightarrow> fst (processSimple (mi_ops mi) r st) \<noteq> None \<and> I (snd (processSimple (mi_ops mi) r st)))) \<and>
     (mi_type mi = INPUT \<longrightarrow>
        (\<forall>b st. I st \<longrightarrow> I (snd (processInput (mi_ops mi) b st)) \<and>
           (\<forall>r. fst (processInput (mi_ops mi) b st) = Some r \<longrightarrow> \<not> IsSetFlag DELETED r)))"

definition lossless :: "('d, 'm) modules \<Rightarrow> bool" where
  "lossless mis \<longleftrightarrow> (\<forall>mi\<in>set mis. \<exists>I. I (mi_state mi) \<and> careful mi I)"

lemma lossless_each: "lossless mis \<longleftrightarrow> (\<forall>i<length mis. lossless [mis ! i])"
  by (simp add: lossless_def all_set_conv_all_nth)

lemma lossless_set:
  "i < length mis \<Longrightarrow> lossless mis \<Longrightarrow> lossless [(mis ! i)\<lparr>mi_state := st\<rparr>] \<Longrightarrow> lossless (set_module_state i st mis)"
  by (subst lossless_each, subst (asm) lossless_each [of mis]) (simp add: set_module_state_def nth_list_update_if)

lemma lossless_nth: "lossless mis \<Longrightarrow> i < length mis \<Longrightarrow> lossless [mis ! i]"
  by (subst (asm) lossless_each) simp

lemma careful_state [simp]: "careful (mi\<lparr>mi_state := st\<rparr>) I = careful mi I"
  by (simp add: careful_def)

lemma lossless_state: "careful mi I \<Longrightarrow> I st \<Longrightarrow> lossless [mi\<lparr>mi_state := st\<rparr>]"
  by (auto simp: lossless_def)

lemma lossless_other: "mi_type mi \<noteq> SIMPLE \<Longrightarrow> mi_type mi \<noteq> INPUT \<Longrightarrow> lossless [mi\<lparr>mi_state := st\<rparr>]"
  using lossless_state [of mi "\<lambda>_. True" st] by (simp add: careful_def)

lemma types_set [simp]: "map mi_type (set_module_state i st mis) = map mi_type mis"
  by (intro nth_equalityI) (auto simp: set_module_state_def nth_list_update_if)

lemma input_loop_lossless:
  assumes "careful mi I" "mi_type mi = INPUT" "I st"
    and "input_loop (processInput (mi_ops mi)) sleep st [] = Some (res, st', dels)"
  shows "dels = [] \<and> I st'"
proof -
  obtain out st1 where p: "processInput (mi_ops mi) sleep st = (out, st1)" by fastforce
  then have "I st1 \<and> (\<forall>r. out = Some r \<longrightarrow> \<not> IsSetFlag DELETED r)"
    using assms(1-3) unfolding careful_def by (metis fst_conv snd_conv)
  then show ?thesis using assms(4) p
    by (subst (asm) input_loop.simps) (auto split: option.splits)
qed

lemma apply_module_accounting:
  assumes "lossless [mi]" and "mi_type mi = OUTPUT \<Longrightarrow> res \<noteq> None" and "mi_type mi \<noteq> MULTI"
    and "apply_module mi res sleep env = Continue (goes_on, res1, stop, st, env1)"
  shows "env_count env1 - env_count env = held res1 env1 - held res env \<and> lossless [mi\<lparr>mi_state := st\<rparr>] \<and>
    (goes_on \<longrightarrow> res1 = None \<longrightarrow> mi_type mi = OUTPUT \<or> (res = None \<and> mi_type mi = INVALID))"
proof (cases "mi_type mi")
  case INPUT
  obtain I where I: "I (mi_state mi)" "careful mi I" using assms(1) by (auto simp: lossless_def)
  have "res = None" using assms(4) INPUT by (auto simp: apply_module_def split: if_splits)
  then obtain res2 st2 dels where i: "input_loop (processInput (mi_ops mi)) sleep (mi_state mi) [] = Some (res2, st2, dels)"
    using assms(4) INPUT by (auto simp: apply_module_def split: option.splits)
  then have "dels = []" "lossless [mi\<lparr>mi_state := st2\<rparr>]"
    using input_loop_lossless [OF I(2) INPUT I(1)] lossless_state [OF I(2)] by blast+
  then show ?thesis using assms(4) INPUT i \<open>res = None\<close>
    by (cases res2) (auto simp: apply_module_def held_def UpdateResourceCount_def add_deleted_def)
next
  case OUTPUT
  then obtain out st2 where o: "processOutput (mi_ops mi) res (mi_state mi) = (out, st2)" by fastforce
  then have "env1 = UpdateResourceCount (- 1) (env_release out env)" "res1 = None"
    using assms(4) OUTPUT by (auto simp: apply_module_def)
  then show ?thesis using assms(2) OUTPUT
    by (cases out) (auto simp: held_def UpdateResourceCount_def env_release_def lossless_other)
next
  case SIMPLE
  then obtain r where r: "res = Some r" using assms(4) by (cases res) (auto simp: apply_module_def)
  obtain I where I: "I (mi_state mi)" "careful mi I" using assms(1) by (auto simp: lossless_def)
  obtain r1 st2 where s: "(if IsSetFlag SKIP r then (Some r, mi_state mi) else processSimple (mi_ops mi) r (mi_state mi)) = (Some r1, st2)"
    and "I st2"
  proof (cases "IsSetFlag SKIP r")
    case False
    have "fst (processSimple (mi_ops mi) r (mi_state mi)) \<noteq> None \<and> I (snd (processSimple (mi_ops mi) r (mi_state mi)))"
      using I SIMPLE by (simp add: careful_def)
    then show ?thesis using that False by (cases "processSimple (mi_ops mi) r (mi_state mi)") auto
  qed (use I that in auto)
  then show ?thesis using assms(4) SIMPLE r s lossless_state [OF I(2)]
    by (auto simp: apply_module_def held_def add_deleted_def split: if_splits)
next
  case INVALID
  then show ?thesis using assms(4) by (auto simp: apply_module_def lossless_other)
next
  case MULTI
  then show ?thesis using assms(3) by simp
qed

lemma check_output_last:
  "check_modules nq nf (map mi_type mis) = None \<Longrightarrow> i < length mis \<Longrightarrow> mi_type (mis ! i) = OUTPUT \<Longrightarrow> Suc i = length mis"
proof -
  assume c: "check_modules nq nf (map mi_type mis) = None" and i: "i < length mis" and o: "mi_type (mis ! i) = OUTPUT"
  have "check_module (length mis) nq nf i (mi_type (mis ! i)) = None"
    using c i unfolding check_modules_None by simp
  then show "Suc i = length mis" using i o by (auto simp: check_module_def split: if_splits)
qed

lemma ApplyModules_accounting:
  assumes "lossless mis" and "check_modules nq nf (map mi_type mis) = None" and "INVALID \<notin> mi_type ` set mis"
    and "res \<noteq> None \<or> length mis \<le> index \<or> mi_type (mis ! index) = INPUT"
    and "ApplyModules mis res index sleep env = Continue (res', stop, mis', env')"
  shows "env_count env' - env_count env = held res' env' - held res env"
  using assms
proof (induction "length mis - index" arbitrary: mis res index env rule: less_induct)
  case less
  show ?case
  proof (cases "index < length mis \<and> mi_type (mis ! index) \<noteq> MULTI")
    case False
    then have "ApplyModules mis res index sleep env = Continue (res, False, mis, env)"
      by (subst ApplyModules.simps) auto
    then show ?thesis using less.prems(5) by simp
  next
    case True
    let ?mi = "mis ! index"
    obtain goes_on res1 stop1 st env1 where a: "apply_module ?mi res sleep env = Continue (goes_on, res1, stop1, st, env1)"
      using less.prems(5) True by (subst (asm) ApplyModules.simps) (auto split: run.splits)
    have l: "lossless [?mi]" using less.prems(1) True lossless_nth by blast
    have nv: "mi_type ?mi \<noteq> INVALID" using less.prems(3) True by (metis image_eqI nth_mem)
    have "mi_type ?mi = OUTPUT \<Longrightarrow> res \<noteq> None" using less.prems(4) True by auto
    note acc = apply_module_accounting [OF l this _ a]
    let ?mis = "set_module_state index st mis"
    show ?thesis
    proof (cases goes_on)
      case False
      then have "res' = res1" "env' = env1" using less.prems(5) True a by (subst (asm) ApplyModules.simps, simp)+
      then show ?thesis using acc True by simp
    next
      case go: True
      then have rec: "ApplyModules ?mis res1 (Suc index) sleep env1 = Continue (res', stop, mis', env')"
        using less.prems(5) True a by (subst (asm) ApplyModules.simps) simp
      have "res1 \<noteq> None \<or> length ?mis \<le> Suc index"
        using acc go True nv check_output_last [OF less.prems(2)] by fastforce
      moreover have "mi_type ` set ?mis = mi_type ` set mis" by (metis list.set_map types_set)
      ultimately have "env_count env' - env_count env1 = held res' env' - held res1 env1"
        using less.hyps [of ?mis "Suc index" res1 env1] rec less.prems(2,3) True lossless_set [OF _ less.prems(1)] acc by auto
      then show ?thesis using acc True by simp
    qed
  qed
qed

lemma drain_deleted_accounting:
  assumes "env_ok env" and "drain_deleted sz eo rs env = Continue (all, env')"
  shows "env_ok env' \<and> env_count env' = env_count env - int (length rs) + int (length (env_deleted env')) \<and>
    (\<exists>sent. rs = sent @ env_deleted env' \<and> (all \<longrightarrow> env_deleted env' = []) \<and>
       (case eo of
          None \<Rightarrow> env_released env' = env_released env @ sent
        | Some a \<Rightarrow> env_contents env' = fold (\<lambda>r. deliver (a, 0, r)) sent (env_contents env)))"
  using assms
proof (induction rs arbitrary: env)
  case Nil
  then show ?case by (auto split: option.splits)
next
  case (Cons r rs)
  show ?case
  proof (cases eo)
    case None
    let ?env = "UpdateResourceCount (- 1) (env_release (Some r) env)"
    have e: "env_ok ?env" using Cons.prems(1) by (simp add: UpdateResourceCount_def env_release_def)
    have "drain_deleted sz eo rs ?env = Continue (all, env')" using Cons.prems(2) None by simp
    from Cons.IH [OF e this] show ?thesis using None
      by (auto simp: UpdateResourceCount_def env_release_def)
  next
    case (Some a)
    then obtain b env1 where p: "env_put sz r None 0 [] a env = Inr (Returns b, env1)"
      using Cons.prems(2) by (auto split: sum.splits outcome.splits)
    note put = env_put_ok [OF Cons.prems(1) p]
    show ?thesis
    proof (cases b)
      case False
      then have "all = False" "env' = env1\<lparr>env_deleted := r # rs\<rparr>" using Cons.prems(2) Some p by auto
      then show ?thesis using put Some False by auto
    next
      case True
      let ?env = "UpdateResourceCount (- 1) env1"
      have e: "env_ok ?env" using put by (simp add: UpdateResourceCount_def)
      have "drain_deleted sz eo rs ?env = Continue (all, env')" using Cons.prems(2) Some p True by simp
      from Cons.IH [OF e this] show ?thesis using put Some True
        by (auto simp: UpdateResourceCount_def)
    qed
  qed
qed

section \<open>Properties\<close>

text \<open>
  C7: \<open>QueueResource\<close> routes a resource exactly as the filters say: every matching copy filter before the
  first matching filter without copy gets a clone with a new id, that filter gets the resource itself,
  each as the last item of the filter's priority, and nothing else changes in any queue.  The engine's
  counter grows by the number of clones and falls by one if the resource went to the engine's output
  queue or matched no filter, in which case it is released.  When the function returns false, the
  clones of a proper prefix of these deliveries have been made and counted and the resource has not
  been handed over.
\<close>

theorem QueueResource_routes:
  assumes "env_ok env" and "QueueResource sz fs eo t (\<lambda>_. []) idx r env = Inr (Returns b, env')"
  shows "env_ok env' \<and> routed eo r (drop (case idx of None \<Rightarrow> 0 | Some k \<Rightarrow> k) fs) env b env'"
  using QueueResource_loop_ok [OF assms(1)] assms(2) by (simp add: QueueResource_def Let_def)

text \<open>
  C8: a configuration \<open>Init\<close> accepts conserves resources: whatever the modules do, as long as they do
  not drop a resource and the input module does not deliver resources that are already marked deleted,
  the engine's counter changes by exactly the number of resources that entered or left the thread while
  \<open>ApplyModules\<close> ran.
\<close>

theorem ApplyModules_conserves:
  assumes "check_modules nq nf (map mi_type mis) = None" and "INVALID \<notin> mi_type ` set mis" and "lossless mis"
    and "res \<noteq> None \<or> length mis \<le> index \<or> mi_type (mis ! index) = INPUT"
    and "ApplyModules mis res index sleep env = Continue (res', stop, mis', env')"
  shows "env_count env' - env_count env = held res' env' - held res env"
  using ApplyModules_accounting [OF assms(3,1,2,4,5)] .


section \<open>Witnesses\<close>

definition one_queue :: "int \<Rightarrow> 'a list \<Rightarrow> 'a sync_queue" where
  "one_queue mx items =
     \<lparr>objs = [\<lparr>sq_priority = 0, sq_maxItems = mx, sq_maxSize = 0, sq_queueSize = 0, sq_queue = items\<rparr>],
      queues = [0], priority2queue = [0 \<mapsto> 0], waitingReaders = 0, waitingWriters = 0, cancel = False\<rparr>"

definition demo_res :: "unit resource" where
  "demo_res = Resource_new 7 1 ()"

definition demo_env :: "unit resource list \<Rightarrow> unit proc_env" where
  "demo_env full =
     \<lparr>env_queues = (\<lambda>a. if a = 0 then one_queue 1 full else one_queue 0 []), env_count = 1, env_nextId = 100,
      env_released = [], env_deleted = [], env_sleep = proc_sleep_new, env_reports = []\<rparr>"

definition demo_filters :: "output_filter list" where
  "demo_filters =
     [OutputFilter_new\<lparr>of_copy := True, of_queue := Some 1\<rparr>, OutputFilter_new\<lparr>of_queue := Some 0\<rparr>]"

lemma one_queue_wf: "sync_queue_wf (one_queue mx items)"
  by (auto simp: one_queue_def sync_queue_wf_def split: if_splits)

lemma demo_env_ok: "env_ok (demo_env full)"
  by (simp add: demo_env_def one_queue_wf)

lemmas queue_eval = QueueResource_def demo_filters_def OutputFilter_new_def filter_matches_def env_clone_def
  OutputFilter_ProcessResource_def env_put_def store_put_def SyncQueue_PutItem_def PutItem_enter_def
  PutItem_section_def SimpleQueue_IsSpaceFor_def SimpleQueue_PutItem_def UpdateResourceCount_def
  one_queue_def demo_env_def demo_res_def Resource_new_def Resource_copy_def Let_def

theorem QueueResource_routes_witness:
  "\<exists>env'. QueueResource (\<lambda>_. 0) demo_filters (Some 0) None (\<lambda>_. []) (Some 0) demo_res (demo_env []) = Inr (Returns True, env') \<and>
     env_count env' = 1 \<and> env_contents env' 1 0 = [Resource_copy 100 demo_res] \<and> env_contents env' 0 0 = [demo_res]"
proof -
  obtain env' where q: "QueueResource (\<lambda>_. 0) demo_filters (Some 0) None (\<lambda>_. []) (Some 0) demo_res (demo_env []) = Inr (Returns True, env')"
    by (simp add: queue_eval)
  let ?ds = "[(1, 0, Resource_copy 100 demo_res), (0, 0, demo_res)]"
  have "env_contents env' = fold deliver ?ds (env_contents (demo_env [])) \<and> env_count env' = 1"
    using QueueResource_routes [OF demo_env_ok q]
    by (simp add: routed_def Let_def demo_filters_def filter_matches_def OutputFilter_new_def leaves_engine_def)
      (simp add: demo_env_def)
  moreover have "fold deliver ?ds (env_contents (demo_env [])) 1 0 = [Resource_copy 100 demo_res]"
      "fold deliver ?ds (env_contents (demo_env [])) 0 0 = [demo_res]"
    by (simp_all add: deliver_def spec_put_def demo_env_def one_queue_def queue_content_def)
  ultimately show ?thesis using q by metis
qed

text \<open>
  A retry duplicates clones.  \<open>QueueResource\<close> is called again with the same filter index after it failed,
  because \<^verbatim>\<open>*filterIndex++\<close> advances the pointer and not the index: with a copy filter followed by a filter
  whose queue is full, the first attempt fails after the clone was queued and counted, and the second
  attempt, when there is room, queues and counts another clone.
\<close>

theorem QueueResource_retry_duplicates:
  "\<exists>env1 env2. QueueResource (\<lambda>_. 0) demo_filters None None (\<lambda>_. []) (Some 0) demo_res (demo_env [demo_res])
       = Inr (Returns False, env1) \<and>
     QueueResource (\<lambda>_. 0) demo_filters None None (\<lambda>_. []) (Some 0) demo_res
       (env1\<lparr>env_queues := (env_queues env1)(0 := one_queue 1 [])\<rparr>) = Inr (Returns True, env2) \<and>
     env_contents env2 1 0 = [Resource_copy 100 demo_res, Resource_copy 101 demo_res] \<and> env_count env2 = 3"
  by (simp add: queue_eval queue_content_def)

definition demo_ops :: "(unit, nat) module_ops" where
  "demo_ops = \<lparr>processInput = (\<lambda>sleep n. (if n < 3 then Some demo_res else None, Suc n)),
     processOutput = (\<lambda>r n. (r, n)), processSimple = (\<lambda>r n. (Some (SetFlag DELETED r), n)),
     processMulti = (\<lambda>i out p n. (False, i, out, 0, p, n))\<rparr>"

definition demo_module :: "module_type \<Rightarrow> (unit, nat) module_info" where
  "demo_module ty = \<lparr>mi_ops = demo_ops, mi_state = 0, mi_type = ty, mi_processing = 0, mi_input = [], mi_output = []\<rparr>"

theorem ApplyModules_conserves_witness:
  "\<exists>res stop mis env. ApplyModules [demo_module INPUT, demo_module SIMPLE, demo_module OUTPUT] None 0 True (demo_env [])
      = Continue (res, stop, mis, env) \<and> env_count env - 1 = held res env - held None (demo_env [])"
proof -
  let ?mis = "[demo_module INPUT, demo_module SIMPLE, demo_module OUTPUT]"
  have flag: "\<not> IsSetFlag DELETED demo_res" "\<not> IsSetFlag SKIP demo_res" by (simp_all add: IsSetFlag_def demo_res_def Resource_new_def)
  have "\<exists>res stop mis env. ApplyModules ?mis None 0 True (demo_env []) = Continue (res, stop, mis, env)"
    using flag by (auto simp: ApplyModules.simps apply_module_def demo_module_def demo_ops_def input_loop.simps set_module_state_def)
  then obtain res stop mis env where a: "ApplyModules ?mis None 0 True (demo_env []) = Continue (res, stop, mis, env)" by blast
  have "check_modules 0 0 (map mi_type ?mis) = None" by (simp add: check_modules_def check_module_def demo_module_def)
  moreover have "lossless ?mis" using flag
    by (auto simp: lossless_def careful_def demo_module_def demo_ops_def split: if_splits intro!: exI [of _ "\<lambda>_. True"])
  moreover have "INVALID \<notin> mi_type ` set ?mis" by (simp add: demo_module_def)
  ultimately show ?thesis using ApplyModules_conserves [OF _ _ _ _ a, of 0 0] a by (simp add: demo_module_def) (simp add: demo_env_def)
qed


end
