(* ===== verification/Engine.thy ===== *)
theory Engine
  imports Processor
begin

text \<open>
  The processing engine (\<^verbatim>\<open>src/lib/processing_engine/ProcessingEngine.cc\<close>): its run and pause switches, the
  output queue it creates on demand, and the two functions through which callers fetch the resources they
  sent, \<^verbatim>\<open>GetProcessedResources\<close> and \<^verbatim>\<open>GetProcessedResourcesOrdered\<close>.  Several callers share the output queue:
  one of them reads it and leaves what belongs to the others in \<open>finishedResources\<close>.  The answers a caller
  gets when it waits (from the queue, or from another caller's signal) are a list it consumes.
\<close>

section \<open>The threads of a processor\<close>

text \<open>
  What \<open>Start\<close>, \<open>Stop\<close>, \<open>Pause\<close> and \<open>Resume\<close> of a processor change: \<open>threads\<close> is the array of thread ids,
  \<open>NULL\<close> when the processor is stopped; \<open>p_created\<close> counts the threads that were created and not joined; the
  input queue is cancelled or not, and its pause lock held or not; the modules, those of all threads
  together, were started and paused or not.
\<close>

record proc_run =
  p_nThreads :: nat
  p_running :: bool
  p_threads :: "nat list option"
  p_created :: nat
  p_queueCancel :: bool
  p_queuePaused :: bool
  p_modulesStarted :: "bool list"
  p_modulesPaused :: "bool list"
  p_pauseInput :: bool
  p_inputSignals :: nat

definition set_all :: "bool \<Rightarrow> bool list \<Rightarrow> bool list" where
  "set_all b = map (\<lambda>_. b)"

definition Processor_Start :: "proc_run \<Rightarrow> proc_run" where
  "Processor_Start p =
     p\<lparr>p_running := True, p_queueCancel := False, p_modulesStarted := set_all True (p_modulesStarted p),
       p_threads := Some [0..<p_nThreads p], p_created := p_created p + p_nThreads p\<rparr>"

definition Processor_Stop :: "proc_run \<Rightarrow> proc_run" where
  "Processor_Stop p =
     (let copy = p_threads p; p1 = p\<lparr>p_running := False, p_threads := None\<rparr> in
      case copy of
        None \<Rightarrow> p1
      | Some ids \<Rightarrow>
          p1\<lparr>p_queueCancel := True, p_inputSignals := p_inputSignals p1 + 1,
             p_modulesStarted := set_all False (p_modulesStarted p1), p_created := p_created p1 - length ids\<rparr>)"

definition Processor_Pause :: "proc_run \<Rightarrow> proc_run" where
  "Processor_Pause p = p\<lparr>p_queuePaused := True, p_modulesPaused := set_all True (p_modulesPaused p)\<rparr>"

definition Processor_Resume :: "proc_run \<Rightarrow> proc_run" where
  "Processor_Resume p = p\<lparr>p_queuePaused := False, p_modulesPaused := set_all False (p_modulesPaused p)\<rparr>"

definition GetPauseInput :: "proc_run \<Rightarrow> string" where
  "GetPauseInput p = bool2str (p_pauseInput p)"

text \<open>\<^verbatim>\<open>pauseInput = str2bool(value)\<close>: any non-zero result, also the \<open>-1\<close> of an invalid value, is true.\<close>

definition SetPauseInput :: "string \<Rightarrow> proc_run \<Rightarrow> proc_run" where
  "SetPauseInput value p =
     (let new = (str2bool value \<noteq> 0) in
      p\<lparr>p_pauseInput := new,
        p_inputSignals := (if p_pauseInput p \<and> \<not> new then p_inputSignals p + 1 else p_inputSignals p)\<rparr>)"

section \<open>Run and pause\<close>

text \<open>
  The engine: \<open>output_cancel\<close> and \<open>output_paused\<close> are \<open>None\<close> when there is no output queue.  \<open>eng_waiting\<close>
  is \<open>waiting\<close>, the number of callers in \<^verbatim>\<open>finishedLock.WaitSend\<close>.
\<close>

record engine =
  propRun :: bool
  propPause :: bool
  eng_cancel :: bool
  eng_waiting :: nat
  eng_count :: int
  eng_processors :: "proc_run list"
  output_cancel :: "bool option"
  output_paused :: "bool option"
  pauseLock_held :: bool

definition ProcessingEngine_new :: "proc_run list \<Rightarrow> int \<Rightarrow> engine" where
  "ProcessingEngine_new ps garbage = \<lparr>propRun = False, propPause = False, eng_cancel = False, eng_waiting = 0,
     eng_count = garbage, eng_processors = ps, output_cancel = None, output_paused = None, pauseLock_held = False\<rparr>"

definition CreateOutputQueue :: "engine \<Rightarrow> engine" where
  "CreateOutputQueue e =
     (if output_cancel e = None then e\<lparr>output_cancel := Some False, output_paused := Some False\<rparr> else e)"

definition DoPause :: "engine \<Rightarrow> engine" where
  "DoPause e = e\<lparr>pauseLock_held := True, output_paused := map_option (\<lambda>_. True) (output_paused e),
                 eng_processors := map Processor_Pause (eng_processors e)\<rparr>"

definition DoResume :: "engine \<Rightarrow> engine" where
  "DoResume e = e\<lparr>pauseLock_held := False, output_paused := map_option (\<lambda>_. False) (output_paused e),
                  eng_processors := map Processor_Resume (eng_processors e)\<rparr>"

definition StartSync :: "engine \<Rightarrow> engine" where
  "StartSync e =
     (if \<not> propRun e then
        e\<lparr>eng_cancel := False, eng_count := 0, output_cancel := map_option (\<lambda>_. False) (output_cancel e),
          eng_processors := map Processor_Start (eng_processors e), propRun := True\<rparr>
      else e)"

text \<open>
  \<open>StopSync\<close> spins until no caller waits.  It signals the condition \<open>recv\<close> while the callers wait for
  \<open>send\<close>, so its signals wake nobody: in each round \<open>waiting\<close> falls only by the number of callers whose own
  deadline passes.  The rounds are a list of these numbers; \<open>None\<close> is a stop that still spins.
\<close>

fun Stop_spin :: "nat \<Rightarrow> nat list \<Rightarrow> nat option" where
  "Stop_spin 0 rounds = Some 0"
| "Stop_spin (Suc w) [] = None"
| "Stop_spin (Suc w) (expired # rounds) = Stop_spin (Suc w - expired) rounds"

definition StopSync :: "nat list \<Rightarrow> engine \<Rightarrow> engine option" where
  "StopSync rounds e =
     (if propRun e then
        let e1 = (if propPause e then (DoResume e)\<lparr>propPause := False\<rparr> else e);
            e2 = e1\<lparr>eng_cancel := True\<rparr> in
        (case Stop_spin (eng_waiting e2) rounds of
           None \<Rightarrow> None
         | Some w \<Rightarrow>
             Some (e2\<lparr>eng_waiting := w, output_cancel := map_option (\<lambda>_. True) (output_cancel e2),
                      eng_processors := map Processor_Stop (eng_processors e2), propRun := False\<rparr>))
      else Some e)"

definition PauseSync :: "engine \<Rightarrow> engine" where
  "PauseSync e = (if propRun e \<and> \<not> propPause e then (DoPause e)\<lparr>propPause := True\<rparr> else e)"

definition ResumeSync :: "engine \<Rightarrow> engine" where
  "ResumeSync e = (if propPause e then (DoResume e)\<lparr>propPause := False\<rparr> else e)"

text \<open>The properties \<open>run\<close>, \<open>pause\<close> and \<open>resourceCount\<close> as strings.\<close>

definition GetRun :: "engine \<Rightarrow> string" where
  "GetRun e = bool2str (propRun e)"

definition GetPause :: "engine \<Rightarrow> string" where
  "GetPause e = bool2str (propPause e)"

definition GetResourceCount :: "engine \<Rightarrow> string" where
  "GetResourceCount e = int2str (eng_count e)"

definition SetRun :: "nat list \<Rightarrow> string \<Rightarrow> engine \<Rightarrow> engine option" where
  "SetRun rounds value e =
     (if str2bool value = 0 then StopSync rounds e
      else if str2bool value = 1 then Some (StartSync e) else Some e)"

definition SetPause :: "string \<Rightarrow> engine \<Rightarrow> engine" where
  "SetPause value e = (if str2bool value = 0 then ResumeSync e else if str2bool value = 1 then PauseSync e else e)"

subsection \<open>The invariant of the run and pause machine\<close>

text \<open>A processor agrees with the switches of its engine.\<close>

definition proc_agrees :: "bool \<Rightarrow> bool \<Rightarrow> proc_run \<Rightarrow> bool" where
  "proc_agrees run paused p \<longleftrightarrow>
     p_running p = run \<and> p_threads p = (if run then Some [0..<p_nThreads p] else None) \<and>
     p_created p = (if run then p_nThreads p else 0) \<and> (run \<longrightarrow> \<not> p_queueCancel p) \<and>
     p_queuePaused p = paused \<and> list_all (\<lambda>b. b = run) (p_modulesStarted p) \<and>
     list_all (\<lambda>b. b = paused) (p_modulesPaused p)"

definition engine_inv :: "engine \<Rightarrow> bool" where
  "engine_inv e \<longleftrightarrow>
     (propPause e \<longrightarrow> propRun e) \<and> pauseLock_held e = propPause e \<and>
     list_all (proc_agrees (propRun e) (propPause e)) (eng_processors e) \<and>
     (output_paused e = None) = (output_cancel e = None) \<and>
     output_paused e \<in> {None, Some (propPause e)} \<and> (propRun e \<longrightarrow> output_cancel e \<noteq> Some True)"

text \<open>The requests the engine gets, from its owner or through its properties.\<close>

datatype engine_op = Start | Stop | Pause | Resume | PropertyRun string | PropertyPause string

fun engine_do :: "nat list \<Rightarrow> engine_op \<Rightarrow> engine \<Rightarrow> engine option" where
  "engine_do rounds Start e = Some (StartSync e)"
| "engine_do rounds Stop e = StopSync rounds e"
| "engine_do rounds Pause e = Some (PauseSync e)"
| "engine_do rounds Resume e = Some (ResumeSync e)"
| "engine_do rounds (PropertyRun v) e = SetRun rounds v e"
| "engine_do rounds (PropertyPause v) e = Some (SetPause v e)"

lemmas engine_op_defs = StartSync_def StopSync_def PauseSync_def ResumeSync_def DoPause_def DoResume_def
  SetRun_def SetPause_def

lemmas proc_op_defs = Processor_Start_def Processor_Stop_def Processor_Pause_def Processor_Resume_def set_all_def

lemma proc_agrees_Start: "proc_agrees False paused p \<Longrightarrow> proc_agrees True paused (Processor_Start p)"
  by (auto simp: proc_agrees_def proc_op_defs list_all_iff)

lemma proc_agrees_Stop: "proc_agrees True paused p \<Longrightarrow> proc_agrees False paused (Processor_Stop p)"
  by (auto simp: proc_agrees_def proc_op_defs list_all_iff)

lemma proc_agrees_Pause: "proc_agrees run False p \<Longrightarrow> proc_agrees run True (Processor_Pause p)"
  by (auto simp: proc_agrees_def proc_op_defs list_all_iff)

lemma proc_agrees_Resume: "proc_agrees run True p \<Longrightarrow> proc_agrees run False (Processor_Resume p)"
  by (auto simp: proc_agrees_def proc_op_defs list_all_iff)

lemma list_all_map_mono: "list_all P xs \<Longrightarrow> (\<And>x. P x \<Longrightarrow> Q (f x)) \<Longrightarrow> list_all Q (map f xs)"
  by (auto simp: list_all_iff)

lemma StartSync_inv: "engine_inv e \<Longrightarrow> engine_inv (StartSync e)"
  by (auto simp: engine_inv_def StartSync_def elim!: list_all_map_mono intro: proc_agrees_Start)

lemma PauseSync_inv: "engine_inv e \<Longrightarrow> engine_inv (PauseSync e)"
  by (auto simp: engine_inv_def PauseSync_def DoPause_def elim!: list_all_map_mono intro: proc_agrees_Pause)

lemma ResumeSync_inv: "engine_inv e \<Longrightarrow> engine_inv (ResumeSync e)"
  by (auto simp: engine_inv_def ResumeSync_def DoResume_def elim!: list_all_map_mono intro: proc_agrees_Resume)

lemma StopSync_inv:
  assumes "engine_inv e" "StopSync rounds e = Some e'"
  shows "engine_inv e'"
proof -
  define e1 where "e1 = ResumeSync e"
  have i: "engine_inv e1" unfolding e1_def by (rule ResumeSync_inv) (rule assms(1))
  have np: "\<not> propPause e1" "propRun e1 = propRun e"
    by (auto simp: e1_def ResumeSync_def DoResume_def)
  show ?thesis
  proof (cases "propRun e")
    case True
    then obtain w where "e' = e1\<lparr>eng_cancel := True, eng_waiting := w,
        output_cancel := map_option (\<lambda>_. True) (output_cancel e1),
        eng_processors := map Processor_Stop (eng_processors e1), propRun := False\<rparr>"
      using assms(2) by (auto simp: StopSync_def e1_def ResumeSync_def Let_def split: option.splits if_splits)
    then show ?thesis using i np True
      by (auto simp: engine_inv_def elim!: list_all_map_mono intro: proc_agrees_Stop)
  next
    case False
    then show ?thesis using assms by (simp add: StopSync_def)
  qed
qed

lemma engine_do_inv: "engine_inv e \<Longrightarrow> engine_do rounds op e = Some e' \<Longrightarrow> engine_inv e'"
  by (cases op) (auto simp: SetRun_def SetPause_def split: if_splits
      intro: StartSync_inv PauseSync_inv ResumeSync_inv StopSync_inv)

lemma Stop_spin_iff: "(\<exists>w. Stop_spin n rounds = Some w) \<longleftrightarrow> n \<le> sum_list rounds"
proof (induction n rounds rule: Stop_spin.induct)
  case (3 w expired rounds)
  then show ?case by (simp add: le_diff_conv add.commute)
qed auto

fun engine_dos :: "(nat list \<times> engine_op) list \<Rightarrow> engine \<Rightarrow> engine option" where
  "engine_dos [] e = Some e"
| "engine_dos ((rounds, op) # ops) e = (case engine_do rounds op e of None \<Rightarrow> None | Some e1 \<Rightarrow> engine_dos ops e1)"

lemma engine_dos_inv: "engine_inv e \<Longrightarrow> engine_dos ops e = Some e' \<Longrightarrow> engine_inv e'"
  by (induction ops e rule: engine_dos.induct) (auto split: option.splits dest: engine_do_inv)


definition sample_proc :: proc_run where
  "sample_proc = \<lparr>p_nThreads = 2, p_running = False, p_threads = None, p_created = 0, p_queueCancel = False,
     p_queuePaused = False, p_modulesStarted = [False, False], p_modulesPaused = [False, False],
     p_pauseInput = False, p_inputSignals = 0\<rparr>"



section \<open>Fetching processed resources\<close>

type_synonym 'd finished = "int \<rightharpoonup> 'd resource"

text \<open>
  What a waiting caller is told when it gets \<open>finishedLock\<close> back, with the \<open>finishedResources\<close> the others left
  meanwhile: another caller holds the queue and either signalled, or the wait ended by timeout or
  cancellation; or the caller read the queue itself and got nothing (timeout or cancellation) or a first
  resource and those that followed.
\<close>

datatype 'd answer =
    Signalled "'d finished"
  | WaitEnded "'d finished"
  | QueueEnded "'d finished"
  | QueueItems "'d finished" "'d resource" "'d resource list"

text \<open>The loop over what the queue delivered: own resources go to the output, the others are left for their callers.\<close>

fun absorb :: "'d resource list \<Rightarrow> int list \<Rightarrow> 'd resource list \<Rightarrow> 'd finished \<Rightarrow> bool
    \<Rightarrow> int list \<times> 'd resource list \<times> 'd finished \<times> bool" where
  "absorb [] ids out fin found_my = (ids, out, fin, found_my)"
| "absorb (r # rs) ids out fin found_my =
     (if r_id r \<in> set ids then absorb rs (remove1 (r_id r) ids) (out @ [r]) fin True
      else absorb rs ids out (fin(r_id r \<mapsto> r)) found_my)"

text \<open>\<open>waits\<close> is \<^verbatim>\<open>timeout != NULL\<close>; \<open>None\<close> is a caller that still waits.\<close>

function GetProcessedResources_loop ::
  "int list \<Rightarrow> nat \<Rightarrow> 'd finished \<Rightarrow> 'd resource list \<Rightarrow> bool \<Rightarrow> bool \<Rightarrow> 'd answer list
     \<Rightarrow> (bool \<times> int list \<times> 'd resource list \<times> 'd finished) option" where
  "GetProcessedResources_loop ids pos fin out waits result answers =
     (if pos < length ids then
        case fin (ids ! pos) of
          Some r \<Rightarrow>
            GetProcessedResources_loop (take pos ids @ drop (Suc pos) ids) pos (fin(ids ! pos := None)) (out @ [r]) waits result answers
        | None \<Rightarrow>
            if \<not> waits then GetProcessedResources_loop ids (Suc pos) fin out waits result answers
            else (case answers of
                    [] \<Rightarrow> None
                  | Signalled fin1 # as \<Rightarrow> GetProcessedResources_loop ids pos fin1 out waits result as
                  | WaitEnded fin1 # as \<Rightarrow> GetProcessedResources_loop ids 0 fin1 out False False as
                  | QueueEnded fin1 # as \<Rightarrow> GetProcessedResources_loop ids 0 fin1 out False False as
                  | QueueItems fin1 r rs # as \<Rightarrow>
                      (case absorb (r # rs) ids out fin1 False of
                         (ids1, out1, fin2, found_my) \<Rightarrow>
                           GetProcessedResources_loop ids1 (if found_my then 0 else pos) fin2 out1 waits result as))
      else Some (result, ids, out, fin))"
  by pat_completeness auto
termination
proof (relation "measures [\<lambda>(ids, pos, fin, out, waits, result, answers). length answers,
    \<lambda>(ids, pos, fin, out, waits, result, answers). length ids,
    \<lambda>(ids, pos, fin, out, waits, result, answers). length ids - pos]", goal_cases)
qed auto

declare GetProcessedResources_loop.simps [simp del]

definition GetProcessedResources ::
  "bool \<Rightarrow> int list \<Rightarrow> 'd finished \<Rightarrow> bool \<Rightarrow> 'd answer list \<Rightarrow> (bool \<times> int list \<times> 'd resource list \<times> 'd finished) option" where
  "GetProcessedResources has_output ids fin waits answers =
     (if \<not> has_output then Some (False, ids, [], fin)
      else GetProcessedResources_loop ids 0 fin [] waits True answers)"

text \<open>The ordered variant reads \<^verbatim>\<open>(*ids)[index]\<close> for every resource of a batch, also behind the end.\<close>

fun absorb_ordered :: "int list \<Rightarrow> 'd resource list \<Rightarrow> nat \<Rightarrow> 'd resource list \<Rightarrow> 'd finished
    \<Rightarrow> failure + nat \<times> 'd resource list \<times> 'd finished" where
  "absorb_ordered ids [] index out fin = Inr (index, out, fin)"
| "absorb_ordered ids (r # rs) index out fin =
     (if index < length ids then
        if ids ! index = r_id r then absorb_ordered ids rs (Suc index) (out @ [r]) fin
        else absorb_ordered ids rs index out (fin(r_id r \<mapsto> r))
      else Inl OutOfRange)"

function GetProcessedResourcesOrdered_loop ::
  "int list \<Rightarrow> nat \<Rightarrow> 'd finished \<Rightarrow> 'd resource list \<Rightarrow> bool \<Rightarrow> 'd answer list
     \<Rightarrow> (failure + bool \<times> 'd resource list \<times> 'd finished) option" where
  "GetProcessedResourcesOrdered_loop ids index fin out waits answers =
     (if index < length ids then
        case fin (ids ! index) of
          Some r \<Rightarrow> GetProcessedResourcesOrdered_loop ids (Suc index) (fin(ids ! index := None)) (out @ [r]) waits answers
        | None \<Rightarrow>
            if \<not> waits then Some (Inr (True, out, fin))
            else (case answers of
                    [] \<Rightarrow> None
                  | Signalled fin1 # as \<Rightarrow> GetProcessedResourcesOrdered_loop ids index fin1 out waits as
                  | WaitEnded fin1 # as \<Rightarrow> Some (Inr (False, out, fin1))
                  | QueueEnded fin1 # as \<Rightarrow> Some (Inr (False, out, fin1))
                  | QueueItems fin1 r rs # as \<Rightarrow>
                      (case absorb_ordered ids (r # rs) index out fin1 of
                         Inl e \<Rightarrow> Some (Inl e)
                       | Inr (index1, out1, fin2) \<Rightarrow> GetProcessedResourcesOrdered_loop ids index1 fin2 out1 waits as))
      else Some (Inr (True, out, fin)))"
  by pat_completeness auto
termination
proof (relation "measures [\<lambda>(ids, index, fin, out, waits, answers). length answers,
    \<lambda>(ids, index, fin, out, waits, answers). length ids - index]", goal_cases)
qed auto

declare GetProcessedResourcesOrdered_loop.simps [simp del]

definition GetProcessedResourcesOrdered ::
  "bool \<Rightarrow> int list \<Rightarrow> 'd finished \<Rightarrow> bool \<Rightarrow> 'd answer list \<Rightarrow> (failure + bool \<times> 'd resource list \<times> 'd finished) option" where
  "GetProcessedResourcesOrdered has_output ids fin waits answers =
     (if \<not> has_output then Some (Inr (False, [], fin))
      else GetProcessedResourcesOrdered_loop ids 0 fin [] waits answers)"

subsection \<open>What the callers get\<close>

definition sample_resource :: "int \<Rightarrow> unit resource" where
  "sample_resource i = \<lparr>r_id = i, r_status = 0, r_flags = 0, r_attached = None, r_type = 1, r_data = ()\<rparr>"

text \<open>\<open>finishedResources\<close> files every resource under its id.\<close>

definition fin_ok :: "'d finished \<Rightarrow> bool" where
  "fin_ok fin \<longleftrightarrow> (\<forall>i r. fin i = Some r \<longrightarrow> r_id r = i)"

fun answer_ok :: "'d answer \<Rightarrow> bool" where
  "answer_ok (Signalled fin) = fin_ok fin"
| "answer_ok (WaitEnded fin) = fin_ok fin"
| "answer_ok (QueueEnded fin) = fin_ok fin"
| "answer_ok (QueueItems fin r rs) = fin_ok fin"

lemma fin_okD: "fin_ok fin \<Longrightarrow> fin i = Some r \<Longrightarrow> r_id r = i"
  by (simp add: fin_ok_def)

lemma fin_ok_upd [simp, intro]: "fin_ok fin \<Longrightarrow> fin_ok (fin(r_id r \<mapsto> r))" "fin_ok fin \<Longrightarrow> fin_ok (fin(i := None))"
  by (auto simp: fin_ok_def)

lemma absorb_accounts:
  "absorb rs ids out fin found = (ids1, out1, fin1, found1) \<Longrightarrow> fin_ok fin \<Longrightarrow>
   fin_ok fin1 \<and> mset (map r_id out1) + mset ids1 = mset (map r_id out) + mset ids"
proof (induction rs arbitrary: ids out fin found)
  case (Cons r rs)
  show ?case
  proof (cases "r_id r \<in> set ids")
    case True
    then show ?thesis
      using Cons.IH [of "remove1 (r_id r) ids" "out @ [r]" fin True] Cons.prems by simp
  next
    case False
    then have "absorb rs ids out (fin(r_id r \<mapsto> r)) found = (ids1, out1, fin1, found1)"
      using Cons.prems(1) by simp
    then show ?thesis using Cons.IH fin_ok_upd(1) [OF Cons.prems(2)] by blast
  qed
qed auto

lemma take_drop_mset:
  "pos < length ids \<Longrightarrow> add_mset (ids ! pos) (mset (take pos ids @ drop (Suc pos) ids)) = mset ids"
  by (metis (no_types, lifting) id_take_nth_drop mset.simps(2) mset_append union_mset_add_mset_right)

text \<open>The branches of the loop as rewrite rules.\<close>

lemma loop_branches:
  "\<not> pos < length ids \<Longrightarrow> GetProcessedResources_loop ids pos fin out waits result answers = Some (result, ids, out, fin)"
  "pos < length ids \<Longrightarrow> fin (ids ! pos) = Some r \<Longrightarrow>
   GetProcessedResources_loop ids pos fin out waits result answers =
   GetProcessedResources_loop (take pos ids @ drop (Suc pos) ids) pos (fin(ids ! pos := None)) (out @ [r]) waits result answers"
  "pos < length ids \<Longrightarrow> fin (ids ! pos) = None \<Longrightarrow>
   GetProcessedResources_loop ids pos fin out False result answers =
   GetProcessedResources_loop ids (Suc pos) fin out False result answers"
  "pos < length ids \<Longrightarrow> fin (ids ! pos) = None \<Longrightarrow>
   GetProcessedResources_loop ids pos fin out True result [] = None"
  "pos < length ids \<Longrightarrow> fin (ids ! pos) = None \<Longrightarrow>
   GetProcessedResources_loop ids pos fin out True result (Signalled fin1 # as) =
   GetProcessedResources_loop ids pos fin1 out True result as"
  "pos < length ids \<Longrightarrow> fin (ids ! pos) = None \<Longrightarrow>
   GetProcessedResources_loop ids pos fin out True result (WaitEnded fin1 # as) =
   GetProcessedResources_loop ids 0 fin1 out False False as"
  "pos < length ids \<Longrightarrow> fin (ids ! pos) = None \<Longrightarrow>
   GetProcessedResources_loop ids pos fin out True result (QueueEnded fin1 # as) =
   GetProcessedResources_loop ids 0 fin1 out False False as"
  "pos < length ids \<Longrightarrow> fin (ids ! pos) = None \<Longrightarrow> absorb (q # qs) ids out fin1 False = (ids1, out1, fin2, found) \<Longrightarrow>
   GetProcessedResources_loop ids pos fin out True result (QueueItems fin1 q qs # as) =
   GetProcessedResources_loop ids1 (if found then 0 else pos) fin2 out1 True result as"
  by (subst GetProcessedResources_loop.simps; simp del: absorb.simps)+

lemma loop_accounts:
  "GetProcessedResources_loop ids pos fin out waits result answers = Some (res, rest, out', fin') \<Longrightarrow>
   fin_ok fin \<Longrightarrow> list_all answer_ok answers \<Longrightarrow> (waits \<longrightarrow> pos = 0) \<Longrightarrow>
   fin_ok fin' \<and> mset (map r_id out') + mset rest = mset (map r_id out) + mset ids \<and>
   (res \<longrightarrow> result \<and> (waits \<longrightarrow> rest = []))"
proof (induction ids pos fin out waits result answers rule: GetProcessedResources_loop.induct)
  case (1 ids pos fin out waits result answers)
  show ?case
  proof (cases "pos < length ids")
    case False
    then show ?thesis using "1.prems" by (auto simp: loop_branches)
  next
    case inside: True
    show ?thesis
    proof (cases "fin (ids ! pos)")
      case (Some r)
      have id: "r_id r = ids ! pos" using "1.prems"(2) Some fin_okD by blast
      have step: "GetProcessedResources_loop (take pos ids @ drop (Suc pos) ids) pos (fin(ids ! pos := None)) (out @ [r])
          waits result answers = Some (res, rest, out', fin')"
        using "1.prems"(1) inside Some by (simp add: loop_branches)
      have "mset (map r_id (out @ [r])) + mset (take pos ids @ drop (Suc pos) ids) = mset (map r_id out) + mset ids"
        using id take_drop_mset [OF inside] by (simp add: ac_simps)
      then show ?thesis
        using "1.IH"(6) [OF inside Some step fin_ok_upd(2) [OF "1.prems"(2)] "1.prems"(3,4)] by simp
    next
      case None
      show ?thesis
      proof (cases waits)
        case False
        then show ?thesis using "1.IH"(1) [OF inside None] "1.prems"(1) inside None "1.prems"(2-4) by (simp add: loop_branches)
      next
        case True
        then have p0: "pos = 0" using "1.prems"(4) by simp
        show ?thesis
        proof (cases answers)
          case Nil
          then show ?thesis using "1.prems"(1) inside None True by (simp add: loop_branches)
        next
          case (Cons a as)
          show ?thesis
          proof (cases a)
            case (Signalled fin1)
            then show ?thesis
              using "1.IH"(2) [OF inside None _ Cons Signalled] "1.prems"(1) inside None True Cons "1.prems"(2-4) by (simp add: loop_branches)
          next
            case (WaitEnded fin1)
            then show ?thesis
              using "1.IH"(3) [OF inside None _ Cons WaitEnded] "1.prems"(1) inside None True Cons "1.prems"(2-4) by (auto simp: loop_branches)
          next
            case (QueueEnded fin1)
            then show ?thesis
              using "1.IH"(4) [OF inside None _ Cons QueueEnded] "1.prems"(1) inside None True Cons "1.prems"(2-4) by (auto simp: loop_branches)
          next
            case (QueueItems fin1 r rs)
            obtain ids1 out1 fin2 found where ab: "absorb (r # rs) ids out fin1 False = (ids1, out1, fin2, found)"
              by (metis prod_cases4)
            then show ?thesis
              using "1.IH"(5) [OF inside None _ Cons QueueItems ab [symmetric] refl refl] absorb_accounts [OF ab]
                "1.prems"(1) inside None True Cons QueueItems "1.prems"(2-4) p0
              by (simp add: loop_branches del: absorb.simps)
          qed
        qed
      qed
    qed
  qed
qed

text \<open>A poll takes what is there.\<close>

lemma poll_loop:
  assumes "distinct (pre @ ids)" "list_all (\<lambda>i. fin i = None) pre"
  shows "GetProcessedResources_loop (pre @ ids) (length pre) fin out False result answers =
    Some (result, pre @ [i\<leftarrow>ids. fin i = None], out @ map (\<lambda>i. the (fin i)) [i\<leftarrow>ids. fin i \<noteq> None], fin |` (- set ids))"
  using assms
proof (induction ids arbitrary: pre fin out)
  case Nil
  then show ?case by (simp add: loop_branches restrict_map_def)
next
  case (Cons i ids)
  show ?case
  proof (cases "fin i")
    case None
    then show ?thesis
      using Cons.IH [of "pre @ [i]" fin out] Cons.prems
      by (auto simp: loop_branches restrict_map_def fun_eq_iff)
  next
    case (Some r)
    have fil: "[j\<leftarrow>ids. (fin(i := None)) j = None] = [j\<leftarrow>ids. fin j = None]"
      "[j\<leftarrow>ids. (fin(i := None)) j \<noteq> None] = [j\<leftarrow>ids. fin j \<noteq> None]"
      "map (\<lambda>j. the ((fin(i := None)) j)) [j\<leftarrow>ids. fin j \<noteq> None] = map (\<lambda>j. the (fin j)) [j\<leftarrow>ids. fin j \<noteq> None]"
      using Cons.prems(1) by (auto intro!: filter_cong)
    have "list_all (\<lambda>j. (fin(i := None)) j = None) pre" using Cons.prems(2) by (auto simp: list_all_iff)
    moreover have "distinct (pre @ ids)" using Cons.prems(1) by simp
    ultimately have "GetProcessedResources_loop (pre @ ids) (length pre) (fin(i := None)) (out @ [r]) False result answers =
      Some (result, pre @ [j\<leftarrow>ids. fin j = None], (out @ [r]) @ map (\<lambda>j. the (fin j)) [j\<leftarrow>ids. fin j \<noteq> None],
        (fin(i := None)) |` (- set ids))"
      using Cons.IH [of pre "fin(i := None)" "out @ [r]"] unfolding fil by blast
    moreover have "(fin(i := None)) |` (- set ids) = fin |` (- set (i # ids))"
      by (auto simp: restrict_map_def fun_eq_iff)
    ultimately show ?thesis using Some by (simp add: loop_branches del: fun_upd_apply)
  qed
qed

text \<open>
  Without a timeout \<open>GetProcessedResources\<close> never blocks and takes exactly what is finished: it
  delivers the requested resources that are in \<open>finishedResources\<close>, removes these and no others from it, and
  leaves in the request the ids that were not there.
\<close>
theorem GetProcessedResources_poll:
  assumes "distinct ids"
  shows "GetProcessedResources True ids fin False answers =
    Some (True, [i\<leftarrow>ids. fin i = None], map (\<lambda>i. the (fin i)) [i\<leftarrow>ids. fin i \<noteq> None], fin |` (- set ids))"
  using poll_loop [of "[]" ids fin "[]" True answers] assms by (simp add: GetProcessedResources_def)

theorem GetProcessedResources_poll_witness:
  "GetProcessedResources True [3, 5] [5 \<mapsto> sample_resource 5] False [] =
   Some (True, [3], [sample_resource 5], Map.empty)"
  using GetProcessedResources_poll [of "[3, 5]" "[5 \<mapsto> sample_resource 5]" "[]"]
  by (auto simp: restrict_map_def fun_eq_iff)

text \<open>
  C26: whatever the queue and the other callers do, a call of \<open>GetProcessedResources\<close> that returns has
  delivered resources whose ids, together with the ids it leaves in the request, are exactly the ids
  requested, each once; if it was allowed to wait and reports success, nothing is left.
\<close>
theorem GetProcessedResources_complete:
  assumes "fin_ok fin" "list_all answer_ok answers"
    and "GetProcessedResources True ids fin waits answers = Some (res, rest, out, fin')"
  shows "mset (map r_id out) + mset rest = mset ids \<and> fin_ok fin' \<and> (waits \<and> res \<longrightarrow> rest = [])"
  using loop_accounts [of ids 0 fin "[]" waits True answers res rest out fin'] assms
  by (simp add: GetProcessedResources_def)

theorem GetProcessedResources_complete_witness:
  "\<exists>out fin'. GetProcessedResources True [3, 5] Map.empty True
       [Signalled [5 \<mapsto> sample_resource 5], QueueItems Map.empty (sample_resource 8) [sample_resource 5, sample_resource 3]] =
     Some (True, [], out, fin') \<and> mset (map r_id out) = {#3, 5#}"
proof -
  let ?as = "[Signalled [5 \<mapsto> sample_resource 5],
    QueueItems Map.empty (sample_resource 8) [sample_resource 5, sample_resource 3]]"
  have e: "GetProcessedResources True [3, 5] Map.empty True ?as =
      Some (True, [], [sample_resource 5, sample_resource 3], [8 \<mapsto> sample_resource 8])"
    by (simp add: GetProcessedResources_def GetProcessedResources_loop.simps sample_resource_def)
  have ok: "fin_ok Map.empty" "list_all answer_ok ?as" by (auto simp: fin_ok_def sample_resource_def)
  have "mset (map r_id [sample_resource 5, sample_resource 3]) = {#3, 5#}"
    using conjunct1 [OF GetProcessedResources_complete [OF ok e]] by (simp only: mset.simps add_0_right)
  with e show ?thesis by blast
qed

subsection \<open>The ordered variant\<close>

lemma absorb_ordered_in_order:
  "absorb_ordered ids rs index out fin = Inr (index1, out1, fin1) \<Longrightarrow>
   map r_id out = take index ids \<Longrightarrow> index \<le> length ids \<Longrightarrow> fin_ok fin \<Longrightarrow>
   map r_id out1 = take index1 ids \<and> index1 \<le> length ids \<and> fin_ok fin1"
proof (induction rs arbitrary: index out fin)
  case (Cons r rs)
  have inside: "index < length ids" using Cons.prems(1) by (simp split: if_splits)
  show ?case
  proof (cases "ids ! index = r_id r")
    case True
    then have "map r_id (out @ [r]) = take (Suc index) ids"
      using Cons.prems(2) inside by (simp add: take_Suc_conv_app_nth)
    then show ?thesis using Cons.IH [of "Suc index" "out @ [r]" fin] Cons.prems inside True by simp
  next
    case False
    then have "absorb_ordered ids rs index out (fin(r_id r \<mapsto> r)) = Inr (index1, out1, fin1)"
      using Cons.prems(1) inside by simp
    then show ?thesis using Cons.IH Cons.prems(2,3) fin_ok_upd(1) [OF Cons.prems(4)] by blast
  qed
qed auto

lemma ordered_branches:
  "\<not> index < length ids \<Longrightarrow> GetProcessedResourcesOrdered_loop ids index fin out waits answers = Some (Inr (True, out, fin))"
  "index < length ids \<Longrightarrow> fin (ids ! index) = Some r \<Longrightarrow>
   GetProcessedResourcesOrdered_loop ids index fin out waits answers =
   GetProcessedResourcesOrdered_loop ids (Suc index) (fin(ids ! index := None)) (out @ [r]) waits answers"
  "index < length ids \<Longrightarrow> fin (ids ! index) = None \<Longrightarrow>
   GetProcessedResourcesOrdered_loop ids index fin out False answers = Some (Inr (True, out, fin))"
  "index < length ids \<Longrightarrow> fin (ids ! index) = None \<Longrightarrow> GetProcessedResourcesOrdered_loop ids index fin out True [] = None"
  "index < length ids \<Longrightarrow> fin (ids ! index) = None \<Longrightarrow>
   GetProcessedResourcesOrdered_loop ids index fin out True (Signalled fin1 # as) =
   GetProcessedResourcesOrdered_loop ids index fin1 out True as"
  "index < length ids \<Longrightarrow> fin (ids ! index) = None \<Longrightarrow>
   GetProcessedResourcesOrdered_loop ids index fin out True (WaitEnded fin1 # as) = Some (Inr (False, out, fin1))"
  "index < length ids \<Longrightarrow> fin (ids ! index) = None \<Longrightarrow>
   GetProcessedResourcesOrdered_loop ids index fin out True (QueueEnded fin1 # as) = Some (Inr (False, out, fin1))"
  "index < length ids \<Longrightarrow> fin (ids ! index) = None \<Longrightarrow> absorb_ordered ids (q # qs) index out fin1 = Inl e \<Longrightarrow>
   GetProcessedResourcesOrdered_loop ids index fin out True (QueueItems fin1 q qs # as) = Some (Inl e)"
  "index < length ids \<Longrightarrow> fin (ids ! index) = None \<Longrightarrow> absorb_ordered ids (q # qs) index out fin1 = Inr (index1, out1, fin2) \<Longrightarrow>
   GetProcessedResourcesOrdered_loop ids index fin out True (QueueItems fin1 q qs # as) =
   GetProcessedResourcesOrdered_loop ids index1 fin2 out1 True as"
  by (subst GetProcessedResourcesOrdered_loop.simps; simp del: absorb_ordered.simps)+

text \<open>One turn of the ordered loop keeps the output in the order of the request.\<close>

lemma ordered_loop_in_order:
  "GetProcessedResourcesOrdered_loop ids index fin out waits answers = Some (Inr (res, out', fin')) \<Longrightarrow>
   fin_ok fin \<Longrightarrow> list_all answer_ok answers \<Longrightarrow> map r_id out = take index ids \<Longrightarrow> index \<le> length ids \<Longrightarrow>
   map r_id out' = take (length out') ids \<and> (waits \<and> res \<longrightarrow> length out' = length ids)"
proof (induction ids index fin out waits answers rule: GetProcessedResourcesOrdered_loop.induct)
  case (1 ids index fin out waits answers)
  note ok = "1.prems"(2-5)
  have len: "length out = index" using ok(3,4) by (metis length_map length_take min_absorb2)
  show ?case
  proof (cases "index < length ids")
    case False
    then show ?thesis using "1.prems"(1) ok len by (auto simp: ordered_branches)
  next
    case inside: True
    show ?thesis
    proof (cases "fin (ids ! index)")
      case (Some r)
      have step: "GetProcessedResourcesOrdered_loop ids (Suc index) (fin(ids ! index := None)) (out @ [r]) waits answers =
          Some (Inr (res, out', fin'))"
        using "1.prems"(1) inside Some by (simp add: ordered_branches)
      have "map r_id (out @ [r]) = take (Suc index) ids"
        using ok(3) fin_okD [OF ok(1) Some] inside by (simp add: take_Suc_conv_app_nth)
      then show ?thesis
        using "1.IH"(3) [OF inside Some step fin_ok_upd(2) [OF ok(1)] ok(2)] inside by simp
    next
      case None
      note here = inside None
      show ?thesis
      proof (cases "waits \<and> answers \<noteq> []")
        case False
        then show ?thesis using "1.prems"(1) here ok len by (cases waits) (auto simp: ordered_branches)
      next
        case True
        then obtain a as where as: "answers = a # as" by (cases answers) auto
        show ?thesis
        proof (cases a)
          case (Signalled fin1)
          then show ?thesis
            using "1.IH"(1) [OF here _ as Signalled] "1.prems"(1) here True as ok by (simp add: ordered_branches)
        next
          case (QueueItems fin1 r rs)
          obtain index1 out1 fin2 where ab: "absorb_ordered ids (r # rs) index out fin1 = Inr (index1, out1, fin2)"
            using "1.prems"(1) here True as QueueItems
            by (cases "absorb_ordered ids (r # rs) index out fin1") (auto simp: ordered_branches simp del: absorb_ordered.simps)
          then show ?thesis
            using "1.IH"(2) [OF here _ as QueueItems ab refl refl] absorb_ordered_in_order [OF ab ok(3,4)]
              "1.prems"(1) here True as QueueItems ok
            by (simp add: ordered_branches del: absorb_ordered.simps)
        qed (use "1.prems"(1) here True as ok len in \<open>auto simp: ordered_branches\<close>)
      qed
    qed
  qed
qed

text \<open>
  \<open>GetProcessedResourcesOrdered\<close> delivers in the order of the request, whatever order the resources come
  in: the output is always a prefix of what was requested, and all of it when the call was allowed to
  wait and reports success.
\<close>
theorem GetProcessedResourcesOrdered_prefix:
  assumes "fin_ok fin" "list_all answer_ok answers"
    and "GetProcessedResourcesOrdered True ids fin waits answers = Some (Inr (res, out, fin'))"
  shows "map r_id out = take (length out) ids \<and> (waits \<and> res \<longrightarrow> length out = length ids)"
  using ordered_loop_in_order [of ids 0 fin "[]" waits answers res out fin'] assms
  by (simp add: GetProcessedResourcesOrdered_def)

theorem GetProcessedResourcesOrdered_prefix_witness:
  "\<exists>out fin'. GetProcessedResourcesOrdered True [3, 5] Map.empty True
       [QueueItems Map.empty (sample_resource 5) [sample_resource 3]] = Some (Inr (True, out, fin')) \<and> map r_id out = [3, 5]"
proof -
  have e: "GetProcessedResourcesOrdered True [3, 5] Map.empty True
       [QueueItems Map.empty (sample_resource 5) [sample_resource 3]] =
     Some (Inr (True, [sample_resource 3, sample_resource 5], Map.empty))"
    by (simp add: GetProcessedResourcesOrdered_def GetProcessedResourcesOrdered_loop.simps sample_resource_def fun_eq_iff)
  show ?thesis
    using GetProcessedResourcesOrdered_prefix [OF _ _ e] e by (simp add: fin_ok_def)
qed

lemma absorb_ordered_past_end:
  "map r_id rs = drop index ids \<Longrightarrow> index \<le> length ids \<Longrightarrow>
   absorb_ordered ids (rs @ x # xs) index out fin = Inl OutOfRange"
proof (induction rs arbitrary: index out)
  case (Cons r rs)
  then have "index < length ids" by (metis drop_all leI list.distinct(1) list.simps(9))
  then have "drop index ids = ids ! index # drop (Suc index) ids" by (simp add: Cons_nth_drop_Suc)
  then show ?case using Cons \<open>index < length ids\<close> by simp
qed auto

text \<open>
  The ordered variant reads past the end of the request: when the batch that completes it is followed by
  one more resource (another caller's), \<^verbatim>\<open>(*ids)[index]\<close> is evaluated with \<open>index\<close> equal to the size of the vector.
\<close>
theorem GetProcessedResourcesOrdered_past_end:
  assumes "map r_id (r # rs) = ids" "fin (hd ids) = None"
  shows "GetProcessedResourcesOrdered True ids fin True (QueueItems fin1 r (rs @ x # xs) # as) = Some (Inl OutOfRange)"
proof -
  have "0 < length ids" "fin (ids ! 0) = None" using assms by auto
  moreover have "absorb_ordered ids ((r # rs) @ x # xs) 0 [] fin1 = Inl OutOfRange"
    by (rule absorb_ordered_past_end) (use assms in auto)
  ultimately show ?thesis
    by (simp add: GetProcessedResourcesOrdered_def ordered_branches del: absorb_ordered.simps)
qed

theorem GetProcessedResourcesOrdered_past_end_witness:
  "GetProcessedResourcesOrdered True [3] Map.empty True [QueueItems Map.empty (sample_resource 3) [sample_resource 4]] =
   Some (Inl OutOfRange)"
  using GetProcessedResourcesOrdered_past_end [of "sample_resource 3" "[]" "[3]" Map.empty Map.empty "sample_resource 4" "[]" "[]"]
  by (simp add: sample_resource_def)

end
