(* ===== verification/MD5.thy ===== *)
theory MD5
  imports Prelude
begin

text \<open>
  The MD5 digest (\<^verbatim>\<open>src/lib/MD5.cc\<close>, \<^verbatim>\<open>src/lib/MD5.h\<close>): the incremental interface \<open>Update\<close>/\<open>Final\<close> with its
  64 byte buffer and its two-word bit counter, and the compression function with the four rounds of sixteen steps
  as the source writes them.  The specification is the digest of RFC 1321 on a whole message: pad, cut into
  blocks, compress.  The machine is little endian, so \<^verbatim>\<open>ByteReverse\<close> is empty and the bytes of \<open>in\<close> are read as
  words with the low byte first.
\<close>

section \<open>The compression function\<close>

type_synonym md5_buf = "32 word \<times> 32 word \<times> 32 word \<times> 32 word"

definition F1 :: "32 word \<Rightarrow> 32 word \<Rightarrow> 32 word \<Rightarrow> 32 word" where
  "F1 x y z = z XOR (x AND (y XOR z))"

definition F2 :: "32 word \<Rightarrow> 32 word \<Rightarrow> 32 word \<Rightarrow> 32 word" where
  "F2 x y z = F1 z x y"

definition F3 :: "32 word \<Rightarrow> 32 word \<Rightarrow> 32 word \<Rightarrow> 32 word" where
  "F3 x y z = x XOR y XOR z"

definition F4 :: "32 word \<Rightarrow> 32 word \<Rightarrow> 32 word \<Rightarrow> 32 word" where
  "F4 x y z = y XOR (x OR NOT z)"

definition MD5STEP ::
  "(32 word \<Rightarrow> 32 word \<Rightarrow> 32 word \<Rightarrow> 32 word) \<Rightarrow> 32 word \<Rightarrow> 32 word \<Rightarrow> 32 word \<Rightarrow> 32 word \<Rightarrow> 32 word \<Rightarrow> nat \<Rightarrow> 32 word" where
  "MD5STEP f w x y z dat s =
     (let w1 = w + f x y z + dat; w2 = push_bit s w1 OR drop_bit (32 - s) w1 in w2 + x)"

definition Transform_round1 :: "32 word list \<Rightarrow> md5_buf \<Rightarrow> md5_buf" where
  "Transform_round1 x buf = (case buf of (a, b, c, d) \<Rightarrow>
     let a = MD5STEP F1 a b c d (x ! 0 + 0xd76aa478) 7 in
     let d = MD5STEP F1 d a b c (x ! 1 + 0xe8c7b756) 12 in
     let c = MD5STEP F1 c d a b (x ! 2 + 0x242070db) 17 in
     let b = MD5STEP F1 b c d a (x ! 3 + 0xc1bdceee) 22 in
     let a = MD5STEP F1 a b c d (x ! 4 + 0xf57c0faf) 7 in
     let d = MD5STEP F1 d a b c (x ! 5 + 0x4787c62a) 12 in
     let c = MD5STEP F1 c d a b (x ! 6 + 0xa8304613) 17 in
     let b = MD5STEP F1 b c d a (x ! 7 + 0xfd469501) 22 in
     let a = MD5STEP F1 a b c d (x ! 8 + 0x698098d8) 7 in
     let d = MD5STEP F1 d a b c (x ! 9 + 0x8b44f7af) 12 in
     let c = MD5STEP F1 c d a b (x ! 10 + 0xffff5bb1) 17 in
     let b = MD5STEP F1 b c d a (x ! 11 + 0x895cd7be) 22 in
     let a = MD5STEP F1 a b c d (x ! 12 + 0x6b901122) 7 in
     let d = MD5STEP F1 d a b c (x ! 13 + 0xfd987193) 12 in
     let c = MD5STEP F1 c d a b (x ! 14 + 0xa679438e) 17 in
     let b = MD5STEP F1 b c d a (x ! 15 + 0x49b40821) 22 in
     (a, b, c, d))"

definition Transform_round2 :: "32 word list \<Rightarrow> md5_buf \<Rightarrow> md5_buf" where
  "Transform_round2 x buf = (case buf of (a, b, c, d) \<Rightarrow>
     let a = MD5STEP F2 a b c d (x ! 1 + 0xf61e2562) 5 in
     let d = MD5STEP F2 d a b c (x ! 6 + 0xc040b340) 9 in
     let c = MD5STEP F2 c d a b (x ! 11 + 0x265e5a51) 14 in
     let b = MD5STEP F2 b c d a (x ! 0 + 0xe9b6c7aa) 20 in
     let a = MD5STEP F2 a b c d (x ! 5 + 0xd62f105d) 5 in
     let d = MD5STEP F2 d a b c (x ! 10 + 0x02441453) 9 in
     let c = MD5STEP F2 c d a b (x ! 15 + 0xd8a1e681) 14 in
     let b = MD5STEP F2 b c d a (x ! 4 + 0xe7d3fbc8) 20 in
     let a = MD5STEP F2 a b c d (x ! 9 + 0x21e1cde6) 5 in
     let d = MD5STEP F2 d a b c (x ! 14 + 0xc33707d6) 9 in
     let c = MD5STEP F2 c d a b (x ! 3 + 0xf4d50d87) 14 in
     let b = MD5STEP F2 b c d a (x ! 8 + 0x455a14ed) 20 in
     let a = MD5STEP F2 a b c d (x ! 13 + 0xa9e3e905) 5 in
     let d = MD5STEP F2 d a b c (x ! 2 + 0xfcefa3f8) 9 in
     let c = MD5STEP F2 c d a b (x ! 7 + 0x676f02d9) 14 in
     let b = MD5STEP F2 b c d a (x ! 12 + 0x8d2a4c8a) 20 in
     (a, b, c, d))"

definition Transform_round3 :: "32 word list \<Rightarrow> md5_buf \<Rightarrow> md5_buf" where
  "Transform_round3 x buf = (case buf of (a, b, c, d) \<Rightarrow>
     let a = MD5STEP F3 a b c d (x ! 5 + 0xfffa3942) 4 in
     let d = MD5STEP F3 d a b c (x ! 8 + 0x8771f681) 11 in
     let c = MD5STEP F3 c d a b (x ! 11 + 0x6d9d6122) 16 in
     let b = MD5STEP F3 b c d a (x ! 14 + 0xfde5380c) 23 in
     let a = MD5STEP F3 a b c d (x ! 1 + 0xa4beea44) 4 in
     let d = MD5STEP F3 d a b c (x ! 4 + 0x4bdecfa9) 11 in
     let c = MD5STEP F3 c d a b (x ! 7 + 0xf6bb4b60) 16 in
     let b = MD5STEP F3 b c d a (x ! 10 + 0xbebfbc70) 23 in
     let a = MD5STEP F3 a b c d (x ! 13 + 0x289b7ec6) 4 in
     let d = MD5STEP F3 d a b c (x ! 0 + 0xeaa127fa) 11 in
     let c = MD5STEP F3 c d a b (x ! 3 + 0xd4ef3085) 16 in
     let b = MD5STEP F3 b c d a (x ! 6 + 0x04881d05) 23 in
     let a = MD5STEP F3 a b c d (x ! 9 + 0xd9d4d039) 4 in
     let d = MD5STEP F3 d a b c (x ! 12 + 0xe6db99e5) 11 in
     let c = MD5STEP F3 c d a b (x ! 15 + 0x1fa27cf8) 16 in
     let b = MD5STEP F3 b c d a (x ! 2 + 0xc4ac5665) 23 in
     (a, b, c, d))"

definition Transform_round4 :: "32 word list \<Rightarrow> md5_buf \<Rightarrow> md5_buf" where
  "Transform_round4 x buf = (case buf of (a, b, c, d) \<Rightarrow>
     let a = MD5STEP F4 a b c d (x ! 0 + 0xf4292244) 6 in
     let d = MD5STEP F4 d a b c (x ! 7 + 0x432aff97) 10 in
     let c = MD5STEP F4 c d a b (x ! 14 + 0xab9423a7) 15 in
     let b = MD5STEP F4 b c d a (x ! 5 + 0xfc93a039) 21 in
     let a = MD5STEP F4 a b c d (x ! 12 + 0x655b59c3) 6 in
     let d = MD5STEP F4 d a b c (x ! 3 + 0x8f0ccc92) 10 in
     let c = MD5STEP F4 c d a b (x ! 10 + 0xffeff47d) 15 in
     let b = MD5STEP F4 b c d a (x ! 1 + 0x85845dd1) 21 in
     let a = MD5STEP F4 a b c d (x ! 8 + 0x6fa87e4f) 6 in
     let d = MD5STEP F4 d a b c (x ! 15 + 0xfe2ce6e0) 10 in
     let c = MD5STEP F4 c d a b (x ! 6 + 0xa3014314) 15 in
     let b = MD5STEP F4 b c d a (x ! 13 + 0x4e0811a1) 21 in
     let a = MD5STEP F4 a b c d (x ! 4 + 0xf7537e82) 6 in
     let d = MD5STEP F4 d a b c (x ! 11 + 0xbd3af235) 10 in
     let c = MD5STEP F4 c d a b (x ! 2 + 0x2ad7d2bb) 15 in
     let b = MD5STEP F4 b c d a (x ! 9 + 0xeb86d391) 21 in
     (a, b, c, d))"

text \<open>\<^verbatim>\<open>Transform\<close>: \<open>x\<close> is the block as sixteen words.\<close>

fun Transform :: "md5_buf \<Rightarrow> 32 word list \<Rightarrow> md5_buf" where
  "Transform (a0, b0, c0, d0) x =
     (let (a, b, c, d) =
        Transform_round4 x (Transform_round3 x (Transform_round2 x (Transform_round1 x (a0, b0, c0, d0))))
      in (a0 + a, b0 + b, c0 + c, d0 + d))"

text \<open>The cast \<^verbatim>\<open>(uint32_t *) in\<close>.\<close>

fun le_words :: "byte list \<Rightarrow> 32 word list" where
  "le_words (a # b # c # d # bs) = le_word a b c d # le_words bs"
| "le_words _ = []"

section \<open>The incremental interface\<close>

record md5 =
  md5_buf :: md5_buf
  md5_lo :: "32 word"
  md5_hi :: "32 word"
  md5_in :: "byte list"

text \<open>The constructor leaves the 64 bytes of \<open>in\<close> as they are.\<close>

definition MD5_new :: "byte list \<Rightarrow> md5" where
  "MD5_new garbage = \<lparr>md5_buf = (0x67452301, 0xefcdab89, 0x98badcfe, 0x10325476), md5_lo = 0, md5_hi = 0,
     md5_in = garbage\<rparr>"

definition memcpy_at :: "nat \<Rightarrow> byte list \<Rightarrow> byte list \<Rightarrow> byte list" where
  "memcpy_at p bytes mem = take p mem @ bytes @ drop (p + length bytes) mem"

definition Transform_in :: "md5 \<Rightarrow> md5" where
  "Transform_in m = m\<lparr>md5_buf := Transform (md5_buf m) (le_words (md5_in m))\<rparr>"

definition Update_bits :: "32 word \<Rightarrow> md5 \<Rightarrow> md5" where
  "Update_bits len m =
     (let t = md5_lo m; lo = t + push_bit 3 len;
          hi = (if lo < t then md5_hi m + 1 else md5_hi m) in
      m\<lparr>md5_lo := lo, md5_hi := hi + drop_bit 29 len\<rparr>)"

fun Update_blocks :: "byte list \<Rightarrow> md5 \<Rightarrow> md5" where
  "Update_blocks buf2 m =
     (if length buf2 \<ge> 64
      then Update_blocks (drop 64 buf2) (Transform_in (m\<lparr>md5_in := memcpy_at 0 (take 64 buf2) (md5_in m)\<rparr>))
      else m\<lparr>md5_in := memcpy_at 0 buf2 (md5_in m)\<rparr>)"

declare Update_blocks.simps [simp del]

definition Update :: "byte list \<Rightarrow> md5 \<Rightarrow> md5" where
  "Update buf2 m =
     (let t = unat (drop_bit 3 (md5_lo m) AND 0x3f); m1 = Update_bits (of_nat (length buf2)) m in
      if t \<noteq> 0 then
        let t1 = 64 - t in
        if length buf2 < t1 then m1\<lparr>md5_in := memcpy_at t buf2 (md5_in m1)\<rparr>
        else Update_blocks (drop t1 buf2) (Transform_in (m1\<lparr>md5_in := memcpy_at t (take t1 buf2) (md5_in m1)\<rparr>))
      else Update_blocks buf2 m1)"

fun buf_bytes :: "md5_buf \<Rightarrow> byte list" where
  "buf_bytes (a, b, c, d) = le_bytes a @ le_bytes b @ le_bytes c @ le_bytes d"

definition Final_pad :: "md5 \<Rightarrow> md5" where
  "Final_pad m =
     (let n = unat (drop_bit 3 (md5_lo m) AND 0x3F);
          m1 = m\<lparr>md5_in := memcpy_at n [0x80] (md5_in m)\<rparr>;
          count = 64 - 1 - n in
      if count < 8 then
        let m2 = Transform_in (m1\<lparr>md5_in := memcpy_at (n + 1) (replicate count 0) (md5_in m1)\<rparr>) in
        m2\<lparr>md5_in := memcpy_at 0 (replicate 56 0) (md5_in m2)\<rparr>
      else m1\<lparr>md5_in := memcpy_at (n + 1) (replicate (count - 8) 0) (md5_in m1)\<rparr>)"

definition Final :: "md5 \<Rightarrow> byte list \<times> md5" where
  "Final m =
     (let m1 = Final_pad m;
          m2 = Transform_in (m1\<lparr>md5_in := memcpy_at 60 (le_bytes (md5_hi m1)) (memcpy_at 56 (le_bytes (md5_lo m1)) (md5_in m1))\<rparr>)
      in (buf_bytes (md5_buf m2), m2))"

definition HashBuffer :: "byte list \<Rightarrow> byte list \<Rightarrow> byte list" where
  "HashBuffer garbage buffer = fst (Final (Update buffer (MD5_new garbage)))"

section \<open>The digest of a whole message\<close>

text \<open>The blocks of 64 bytes, and what is left over.\<close>

fun blocks :: "byte list \<Rightarrow> byte list list" where
  "blocks bs = (if length bs < 64 then [] else take 64 bs # blocks (drop 64 bs))"

declare blocks.simps [simp del]

definition leftover :: "byte list \<Rightarrow> byte list" where
  "leftover bs = drop (64 * (length bs div 64)) bs"

definition compress :: "byte list \<Rightarrow> md5_buf \<Rightarrow> md5_buf" where
  "compress bs = fold (\<lambda>b s. Transform s (le_words b)) (blocks bs)"

definition md5_iv :: md5_buf where
  "md5_iv = (0x67452301, 0xefcdab89, 0x98badcfe, 0x10325476)"

text \<open>Padding: a one bit, zeros up to 56 modulo 64 bytes, and the number of bits modulo \<open>2 ^ 64\<close>, low word first.\<close>

definition md5_padding :: "nat \<Rightarrow> byte list" where
  "md5_padding n =
     0x80 # replicate ((119 - n mod 64) mod 64) 0 @ le_bytes (of_nat (8 * n)) @ le_bytes (of_nat (8 * n div 2 ^ 32))"

definition md5_digest :: "byte list \<Rightarrow> byte list" where
  "md5_digest msg = buf_bytes (compress (msg @ md5_padding (length msg)) md5_iv)"

lemma blocks_less: "length bs < 64 \<Longrightarrow> blocks bs = []"
  by (subst blocks.simps) simp

lemma blocks_append:
  "length xs mod 64 = 0 \<Longrightarrow> blocks (xs @ ys) = blocks xs @ blocks ys"
proof (induction xs rule: blocks.induct)
  case (1 bs)
  show ?case
  proof (cases "length bs < 64")
    case True
    then have "bs = []" using 1(2) by simp
    then show ?thesis by (simp add: blocks_less)
  next
    case False
    then have "(length bs - 64) mod 64 = 0" using 1(2) by (simp add: mod_if [of "length bs"])
    then have "blocks (drop 64 bs @ ys) = blocks (drop 64 bs) @ blocks ys" using 1(1) [OF False] by simp
    then show ?thesis using False by (subst (1 2) blocks.simps) simp
  qed
qed

lemma compress_append: "length xs mod 64 = 0 \<Longrightarrow> compress (xs @ ys) b = compress ys (compress xs b)"
  by (simp add: compress_def blocks_append)

lemma compress_less: "length bs < 64 \<Longrightarrow> compress bs b = b"
  by (simp add: compress_def blocks_less)

lemma compress_one: "length bs = 64 \<Longrightarrow> compress bs b = Transform b (le_words bs)"
  by (simp add: compress_def blocks.simps [of bs] blocks_less)

lemma length_leftover: "length (leftover bs) = length bs mod 64"
  by (simp add: leftover_def minus_mult_div_eq_mod)

lemma leftover_append: "length xs mod 64 = 0 \<Longrightarrow> leftover (xs @ ys) = leftover ys"
  by (auto simp: leftover_def mod_eq_0_iff_dvd elim!: dvdE)

lemma leftover_less: "length bs < 64 \<Longrightarrow> leftover bs = bs"
  by (simp add: leftover_def)

lemma leftover_split:
  fixes bs :: "byte list"
  obtains xs l where "bs = xs @ l" "length xs mod 64 = 0" "length l < 64"
proof
  show "bs = take (64 * (length bs div 64)) bs @ leftover bs" by (simp add: leftover_def)
  show "length (take (64 * (length bs div 64)) bs) mod 64 = 0" by simp
  show "length (leftover bs) < 64" by (simp add: length_leftover)
qed

lemma compress_leftover:
  "compress (bs @ ys) b = compress (leftover bs @ ys) (compress bs b)"
proof -
  obtain xs l where bs: "bs = xs @ l" "length xs mod 64 = 0" "length l < 64" by (rule leftover_split)
  then show ?thesis by (simp add: compress_append compress_less leftover_append leftover_less)
qed

lemma leftover_leftover: "leftover (bs @ ys) = leftover (leftover bs @ ys)"
proof -
  obtain xs l where bs: "bs = xs @ l" "length xs mod 64 = 0" "length l < 64" by (rule leftover_split)
  then show ?thesis by (simp add: leftover_append leftover_less)
qed

section \<open>The incremental interface computes the digest\<close>

text \<open>
  What the state says about the bytes \<open>msg\<close> seen so far: the complete blocks are compressed into \<open>buf\<close>, the rest
  is at the start of \<open>in\<close>, and the two counters are the number of bits modulo \<open>2 ^ 64\<close>.
\<close>

definition md5_inv :: "byte list \<Rightarrow> md5 \<Rightarrow> bool" where
  "md5_inv msg m \<longleftrightarrow>
     length (md5_in m) = 64 \<and> md5_buf m = compress msg md5_iv \<and>
     take (length msg mod 64) (md5_in m) = leftover msg \<and>
     md5_lo m = of_nat (8 * length msg) \<and> md5_hi m = of_nat (8 * length msg div 2 ^ 32)"

lemma length_memcpy_at: "p + length bytes \<le> length mem \<Longrightarrow> length (memcpy_at p bytes mem) = length mem"
  by (simp add: memcpy_at_def)

lemma unat_and_63: "unat (w AND 0x3f :: 32 word) = unat w mod 64"
proof -
  have "w AND 0x3f = take_bit 6 w" by (simp add: take_bit_eq_mask mask_eq_exp_minus_1)
  then show ?thesis by (simp add: take_bit_eq_mod unat_mod_distrib)
qed

lemma byte_count: "unat (drop_bit 3 (of_nat (8 * n) :: 32 word) AND 0x3f) = n mod 64"
proof -
  have "unat (drop_bit 3 (of_nat (8 * n) :: 32 word) AND 0x3f) = unat (drop_bit 3 (of_nat (8 * n) :: 32 word)) mod 64"
    by (rule unat_and_63)
  also have "\<dots> = (8 * n mod 2 ^ 32) div 8 mod 64"
    by (simp add: drop_bit_eq_div unat_div_distrib unat_of_nat del: of_nat_mult)
  also have "\<dots> = n mod 64"
  proof -
    have "(8 * n) mod 2 ^ 32 = 8 * (n mod 2 ^ 29)" using mult_mod_right [of 8 n "2 ^ 29"] by simp
    then show ?thesis by (simp add: mod_mod_cancel)
  qed
  finally show ?thesis .
qed

lemma carry_nat:
  fixes x y N :: nat
  assumes "x < N" "y < N"
  shows "(x + y) mod N = (if N \<le> x + y then x + y - N else x + y)"
    and "(x + y) div N = (if N \<le> x + y then 1 else 0)"
  using assms by (auto simp: le_mod_geq le_div_geq)

lemma word_carry:
  fixes a b :: nat
  shows "((of_nat (a + b) :: 32 word) < of_nat a) = (2 ^ 32 \<le> a mod 2 ^ 32 + b mod 2 ^ 32)"
proof -
  have u: "unat (of_nat k :: 32 word) = k mod 2 ^ 32" for k by (simp add: unat_of_nat)
  have "((of_nat (a + b) :: 32 word) < of_nat a) = ((a + b) mod 2 ^ 32 < a mod 2 ^ 32)"
    unfolding word_less_nat_alt u by (rule refl)
  also have "(a + b) mod 2 ^ 32 = (a mod 2 ^ 32 + b mod 2 ^ 32) mod 2 ^ 32"
    by (simp add: mod_add_eq)
  also have "(\<dots> < a mod 2 ^ 32) = (2 ^ 32 \<le> a mod 2 ^ 32 + b mod 2 ^ 32)"
  proof -
    have "a mod 2 ^ 32 < 2 ^ 32" "b mod 2 ^ 32 < (2 :: nat) ^ 32" by simp_all
    then show ?thesis by (subst carry_nat(1)) (auto split: if_splits)
  qed
  finally show ?thesis .
qed

lemma div_carry:
  fixes a b :: nat
  shows "(a + b) div 2 ^ 32 =
    a div 2 ^ 32 + b div 2 ^ 32 + (if 2 ^ 32 \<le> a mod 2 ^ 32 + b mod 2 ^ 32 then 1 else 0)"
proof -
  have "(a + b) div 2 ^ 32 = a div 2 ^ 32 + b div 2 ^ 32 + (a mod 2 ^ 32 + b mod 2 ^ 32) div 2 ^ 32"
    by (rule div_add1_eq)
  moreover have "(a mod 2 ^ 32 + b mod 2 ^ 32) div 2 ^ 32 = (if 2 ^ 32 \<le> a mod 2 ^ 32 + b mod 2 ^ 32 then 1 else 0)"
  proof -
    have "a mod 2 ^ 32 < 2 ^ 32" "b mod 2 ^ 32 < (2 :: nat) ^ 32" by simp_all
    then show ?thesis by (rule carry_nat(2))
  qed
  ultimately show ?thesis by simp
qed

lemma Update_bits_counts:
  assumes lo: "md5_lo m = of_nat (8 * n)" and hi: "md5_hi m = of_nat (8 * n div 2 ^ 32)" and len: "len < 2 ^ 32"
  shows "Update_bits (of_nat len) m =
    m\<lparr>md5_lo := of_nat (8 * (n + len)), md5_hi := of_nat (8 * (n + len) div 2 ^ 32)\<rparr>"
proof -
  have p: "push_bit 3 (of_nat len :: 32 word) = of_nat (8 * len)"
    by (simp add: push_bit_eq_mult)
  have s: "md5_lo m + push_bit 3 (of_nat len) = of_nat (8 * n + 8 * len)"
    unfolding lo p by (rule of_nat_add [symmetric])
  have "unat (of_nat len :: 32 word) = len" using len by (simp add: unat_of_nat)
  then have "unat (drop_bit 29 (of_nat len :: 32 word)) = len div 2 ^ 29"
    by (simp add: drop_bit_eq_div unat_div_distrib)
  then have "drop_bit 29 (of_nat len :: 32 word) = of_nat (len div 2 ^ 29)" by (metis of_nat_unat ucast_id)
  then have d: "drop_bit 29 (of_nat len :: 32 word) = of_nat (8 * len div 2 ^ 32)" by simp
  have c: "(md5_lo m + push_bit 3 (of_nat len) < md5_lo m) = (2 ^ 32 \<le> 8 * n mod 2 ^ 32 + 8 * len mod 2 ^ 32)"
    unfolding s unfolding lo by (rule word_carry)
  have "of_nat (8 * (n + len) div 2 ^ 32) =
      (of_nat (8 * n div 2 ^ 32 + 8 * len div 2 ^ 32 + (if 2 ^ 32 \<le> 8 * n mod 2 ^ 32 + 8 * len mod 2 ^ 32 then 1 else 0)) :: 32 word)"
    unfolding distrib_left by (rule arg_cong [OF div_carry])
  then show ?thesis
    unfolding Update_bits_def Let_def c unfolding d hi s distrib_left
    by (cases "2 ^ 32 \<le> 8 * n mod 2 ^ 32 + 8 * len mod 2 ^ 32") (simp_all only: if_True if_False of_nat_add of_nat_1 semiring_1_class.of_nat_0 add_0_right add_0_left ac_simps)
qed

lemma Transform_in_simps [simp]:
  "md5_in (Transform_in m) = md5_in m" "md5_lo (Transform_in m) = md5_lo m" "md5_hi (Transform_in m) = md5_hi m"
  "length (md5_in m) = 64 \<Longrightarrow> md5_buf (Transform_in m) = compress (md5_in m) (md5_buf m)"
  by (simp_all add: Transform_in_def compress_one)

lemma memcpy_at_all: "length mem = 64 \<Longrightarrow> length bytes = 64 \<Longrightarrow> memcpy_at 0 bytes mem = bytes"
  by (simp add: memcpy_at_def)

lemma Update_blocks_compress:
  "length (md5_in m) = 64 \<Longrightarrow>
   length (md5_in (Update_blocks bs m)) = 64 \<and> md5_buf (Update_blocks bs m) = compress bs (md5_buf m) \<and>
   take (length bs mod 64) (md5_in (Update_blocks bs m)) = leftover bs \<and>
   md5_lo (Update_blocks bs m) = md5_lo m \<and> md5_hi (Update_blocks bs m) = md5_hi m"
proof (induction bs m rule: Update_blocks.induct)
  case (1 bs m)
  show ?case
  proof (cases "64 \<le> length bs")
    case False
    then show ?thesis using 1(2)
      by (subst (1 2 3 4 5) Update_blocks.simps) (simp add: memcpy_at_def compress_less leftover_less)
  next
    case True
    let ?m = "Transform_in (m\<lparr>md5_in := memcpy_at 0 (take 64 bs) (md5_in m)\<rparr>)"
    have in64: "md5_in ?m = take 64 bs" "length (md5_in ?m) = 64" using True 1(2) by (auto simp: memcpy_at_all)
    have buf: "md5_buf ?m = compress (take 64 bs) (md5_buf m)" using True 1(2) by (simp add: memcpy_at_all)
    have e: "Update_blocks bs m = Update_blocks (drop 64 bs) ?m" using True by (subst Update_blocks.simps) simp
    have len: "length (take 64 bs) mod 64 = 0" "(length bs - 64) mod 64 = length bs mod 64"
      using True by (auto simp: le_mod_geq [symmetric])
    have "compress bs (md5_buf m) = compress (drop 64 bs) (compress (take 64 bs) (md5_buf m))" "leftover bs = leftover (drop 64 bs)"
      using compress_append [OF len(1), of "drop 64 bs" "md5_buf m"] leftover_append [OF len(1), of "drop 64 bs"] by simp_all
    then show ?thesis using 1(1) [OF True in64(2)] len(2) unfolding e buf by simp
  qed
qed

text \<open>Completing the buffered block: the first \<open>64 - t\<close> bytes go to the buffer, which is then compressed.\<close>

lemma Update_completes_block:
  assumes in64: "length (md5_in m) = 64" and buf: "md5_buf m = compress msg md5_iv"
    and left: "take t (md5_in m) = leftover msg" and t: "t = length msg mod 64" and enough: "64 - t \<le> length bs"
  defines "m2 \<equiv> Transform_in (m\<lparr>md5_in := memcpy_at t (take (64 - t) bs) (md5_in m)\<rparr>)"
  shows "length (md5_in m2) = 64" "md5_lo m2 = md5_lo m" "md5_hi m2 = md5_hi m"
    and "compress (msg @ bs) md5_iv = compress (drop (64 - t) bs) (md5_buf m2)"
    and "leftover (msg @ bs) = leftover (drop (64 - t) bs)"
proof -
  have t64: "t < 64" "length (leftover msg) = t" by (auto simp: t length_leftover)
  have full: "memcpy_at t (take (64 - t) bs) (md5_in m) = leftover msg @ take (64 - t) bs"
    using left in64 enough t64 by (simp add: memcpy_at_def)
  have block: "length (leftover msg @ take (64 - t) bs) = 64" using enough t64 by simp
  then show "length (md5_in m2) = 64" "md5_lo m2 = md5_lo m" "md5_hi m2 = md5_hi m"
    unfolding m2_def full by simp_all
  have b2: "md5_buf m2 = compress (leftover msg @ take (64 - t) bs) (md5_buf m)"
    unfolding m2_def full using block by simp
  have whole: "leftover msg @ bs = (leftover msg @ take (64 - t) bs) @ drop (64 - t) bs" by simp
  have mod0: "length (leftover msg @ take (64 - t) bs) mod 64 = 0" using block by simp
  show "compress (msg @ bs) md5_iv = compress (drop (64 - t) bs) (md5_buf m2)"
    unfolding compress_leftover [of msg bs] b2 buf by (subst whole) (rule compress_append [OF mod0])
  show "leftover (msg @ bs) = leftover (drop (64 - t) bs)"
    unfolding leftover_leftover [of msg bs] by (subst whole) (rule leftover_append [OF mod0])
qed

text \<open>One \<open>Update\<close> appends its bytes to the message.\<close>

lemma Update_appends:
  assumes inv: "md5_inv msg m" and len: "length bs < 2 ^ 32"
  shows "md5_inv (msg @ bs) (Update bs m)"
proof -
  define t where "t = length msg mod 64"
  define m1 where "m1 = Update_bits (of_nat (length bs)) m"
  have lo: "md5_lo m = of_nat (8 * length msg)" and hi: "md5_hi m = of_nat (8 * length msg div 2 ^ 32)"
    and in64: "length (md5_in m) = 64" and buf: "md5_buf m = compress msg md5_iv"
    and left: "take t (md5_in m) = leftover msg"
    using inv by (simp_all add: md5_inv_def t_def)
  have m1: "m1 = m\<lparr>md5_lo := of_nat (8 * (length msg + length bs)), md5_hi := of_nat (8 * (length msg + length bs) div 2 ^ 32)\<rparr>"
    unfolding m1_def by (rule Update_bits_counts [OF lo hi len])
  have t: "unat (drop_bit 3 (md5_lo m) AND 0x3f) = t" unfolding lo t_def by (rule byte_count)
  have t64: "t < 64" "length (leftover msg) = t" by (auto simp: t_def length_leftover)
  have comp: "compress (msg @ bs) md5_iv = compress (leftover msg @ bs) (md5_buf m)"
    unfolding buf by (rule compress_leftover)
  have lo1: "length (msg @ bs) mod 64 = length (leftover msg @ bs) mod 64"
    using t64 by (simp add: t_def mod_add_left_eq)
  show ?thesis
  proof (cases "t = 0")
    case True
    then have "leftover msg = []" using t64 by simp
    moreover have "Update bs m = Update_blocks bs m1" using True t by (simp add: Update_def m1_def Let_def)
    ultimately show ?thesis
      using Update_blocks_compress [of m1 bs] in64 comp leftover_leftover [of msg bs] lo1
      by (simp add: md5_inv_def m1)
  next
    case False
    show ?thesis
    proof (cases "length bs < 64 - t")
      case True
      then have e: "Update bs m = m1\<lparr>md5_in := memcpy_at t bs (md5_in m1)\<rparr>"
        using False t by (simp add: Update_def m1_def Let_def)
      have short: "length (leftover msg @ bs) < 64" using True t64 by simp
      have "leftover (msg @ bs) = leftover msg @ bs" "compress (msg @ bs) md5_iv = md5_buf m"
        using leftover_leftover [of msg bs] leftover_less [OF short] comp compress_less [OF short] by simp_all
      then show ?thesis
        using True in64 left lo1 short t64 unfolding md5_inv_def e
        by (simp add: m1 memcpy_at_def)
    next
      case enough: False
      define m2 where "m2 = Transform_in (m1\<lparr>md5_in := memcpy_at t (take (64 - t) bs) (md5_in m1)\<rparr>)"
      have e: "Update bs m = Update_blocks (drop (64 - t) bs) m2"
        using False enough t by (simp add: Update_def m1_def m2_def Let_def)
      have m2: "length (md5_in m2) = 64" "md5_lo m2 = md5_lo m1" "md5_hi m2 = md5_hi m1"
        "compress (msg @ bs) md5_iv = compress (drop (64 - t) bs) (md5_buf m2)"
        "leftover (msg @ bs) = leftover (drop (64 - t) bs)"
        unfolding m2_def using in64 buf left enough by (intro Update_completes_block; simp add: m1 t_def)+
      have "length (msg @ bs) mod 64 = length (drop (64 - t) bs) mod 64" using length_leftover m2(5) by metis
      then show ?thesis
        using Update_blocks_compress [of m2 "drop (64 - t) bs"] m2 unfolding md5_inv_def e by (simp add: m1)
    qed
  qed
qed

text \<open>\<open>Final\<close> on a state for \<open>msg\<close>: the counters are the last eight bytes of the padding.\<close>

definition bit_count_bytes :: "nat \<Rightarrow> byte list" where
  "bit_count_bytes n = le_bytes (of_nat (8 * n)) @ le_bytes (of_nat (8 * n div 2 ^ 32))"

lemma length_bit_count_bytes [simp]: "length (bit_count_bytes n) = 8" "length (le_bytes w) = 4"
  by (simp_all add: bit_count_bytes_def le_bytes_def)

lemma Final_counters:
  "length mem = 64 \<Longrightarrow>
   memcpy_at 60 (le_bytes (of_nat (8 * n div 2 ^ 32))) (memcpy_at 56 (le_bytes (of_nat (8 * n))) mem) =
   take 56 mem @ bit_count_bytes n"
  by (simp add: memcpy_at_def bit_count_bytes_def)

lemma Final_pad_keeps: "md5_lo (Final_pad m) = md5_lo m" "md5_hi (Final_pad m) = md5_hi m"
  by (simp_all add: Final_pad_def Let_def)

lemma Final_count:
  "md5_inv msg m \<Longrightarrow> unat (drop_bit 3 (md5_lo m) AND 0x3F) = length msg mod 64"
  using byte_count by (simp add: md5_inv_def)

lemma memcpy_at_prefix:
  "take n mem = pre \<Longrightarrow> n + length bytes \<le> length mem \<Longrightarrow> take (n + length bytes) (memcpy_at n bytes mem) = pre @ bytes"
  by (auto simp: memcpy_at_def)

lemma Final_pad_bytes:
  assumes "length mem = 64" "take n mem = pre" "length pre = n" "n + 1 + k \<le> 64"
  shows "take (n + 1 + k) (memcpy_at (n + 1) (replicate k 0) (memcpy_at n [0x80] mem)) = pre @ 0x80 # replicate k 0"
proof -
  have "take (n + 1) (memcpy_at n [0x80] mem) = pre @ [0x80]"
    using memcpy_at_prefix [of n mem pre "[0x80]"] assms by simp
  then show ?thesis
    using memcpy_at_prefix [of "n + 1" "memcpy_at n [0x80] mem" "pre @ [0x80]" "replicate k 0"] assms
      length_memcpy_at [of n "[0x80]" mem] by simp
qed

lemma Final_pad_short:
  assumes inv: "md5_inv msg m" and n: "length msg mod 64 < 56"
  shows "md5_buf (Final_pad m) = compress msg md5_iv \<and> length (md5_in (Final_pad m)) = 64 \<and>
    take 56 (md5_in (Final_pad m)) = leftover msg @ 0x80 # replicate (55 - length msg mod 64) 0"
proof -
  define n where "n = length msg mod 64"
  have m: "length (md5_in m) = 64" "take n (md5_in m) = leftover msg" "length (leftover msg) = n" "n < 56"
    using inv assms(2) by (auto simp: md5_inv_def n_def length_leftover)
  have e: "Final_pad m = m\<lparr>md5_in := memcpy_at (n + 1) (replicate (55 - n) 0) (memcpy_at n [0x80] (md5_in m))\<rparr>"
    unfolding Final_pad_def Final_count [OF inv] n_def [symmetric] Let_def using m(4) by simp
  show ?thesis
    using Final_pad_bytes [OF m(1-3), of "55 - n"] m inv unfolding e n_def [symmetric]
    by (simp add: length_memcpy_at md5_inv_def)
qed

lemma Final_pad_long:
  assumes inv: "md5_inv msg m" and n: "56 \<le> length msg mod 64"
  shows "md5_buf (Final_pad m) =
      compress (leftover msg @ 0x80 # replicate (63 - length msg mod 64) 0) (compress msg md5_iv) \<and>
    length (md5_in (Final_pad m)) = 64 \<and> take 56 (md5_in (Final_pad m)) = replicate 56 0"
proof -
  define n where "n = length msg mod 64"
  have m: "length (md5_in m) = 64" "take n (md5_in m) = leftover msg" "length (leftover msg) = n" "56 \<le> n" "n < 64"
    using inv assms(2) by (auto simp: md5_inv_def n_def length_leftover)
  define m1 where "m1 = m\<lparr>md5_in := memcpy_at (n + 1) (replicate (63 - n) 0) (memcpy_at n [0x80] (md5_in m))\<rparr>"
  have e: "Final_pad m = (Transform_in m1)\<lparr>md5_in := memcpy_at 0 (replicate 56 0) (md5_in m1)\<rparr>"
    unfolding Final_pad_def Final_count [OF inv] n_def [symmetric] Let_def m1_def using m(4) by simp
  have l: "length (md5_in m1) = 64" using m by (simp add: m1_def length_memcpy_at)
  have "take 64 (md5_in m1) = leftover msg @ 0x80 # replicate (63 - n) 0"
    using Final_pad_bytes [OF m(1-3), of "63 - n"] m(5) by (simp add: m1_def)
  then have "md5_in m1 = leftover msg @ 0x80 # replicate (63 - n) 0" using l by simp
  moreover have "md5_buf m1 = compress msg md5_iv" using inv by (simp add: m1_def md5_inv_def)
  ultimately show ?thesis using l unfolding e n_def [symmetric] by (simp add: memcpy_at_def)
qed

lemma Final_digest:
  assumes inv: "md5_inv msg m"
  shows "fst (Final m) = md5_digest msg"
proof -
  define n where "n = length msg mod 64"
  define p where "p = Final_pad m"
  have cnt: "md5_lo p = of_nat (8 * length msg)" "md5_hi p = of_nat (8 * length msg div 2 ^ 32)"
    using inv by (simp_all add: p_def Final_pad_keeps md5_inv_def)
  have p64: "length (md5_in p) = 64"
    unfolding p_def using Final_pad_short [OF inv] Final_pad_long [OF inv] by (cases "length msg mod 64 < 56") auto
  have n64: "n < 64" "length (leftover msg) = n" by (auto simp: n_def length_leftover)
  have F: "fst (Final m) = buf_bytes (compress (take 56 (md5_in p) @ bit_count_bytes (length msg)) (md5_buf p))"
    unfolding Final_def Let_def fst_conv p_def [symmetric] cnt Final_counters [OF p64]
    using p64 by simp
  have D: "md5_digest msg = buf_bytes (compress (leftover msg @ 0x80 # replicate ((119 - n) mod 64) 0 @ bit_count_bytes (length msg))
      (compress msg md5_iv))"
    unfolding md5_digest_def compress_leftover [of msg] by (simp add: md5_padding_def bit_count_bytes_def n_def)
  show ?thesis
  proof (cases "n < 56")
    case True
    then have "(119 - n) mod 64 = 55 - n" by (simp add: mod_if [of "119 - n"])
    then show ?thesis using F D Final_pad_short [OF inv] True by (simp add: p_def n_def)
  next
    case False
    define b1 where "b1 = leftover msg @ 0x80 # replicate (63 - n) (0 :: byte)"
    have "(119 - n) mod 64 = (63 - n) + 56" using False n64 by simp
    then have "replicate ((119 - n) mod 64) (0 :: byte) = replicate (63 - n) 0 @ replicate 56 0"
      by (simp only: replicate_add)
    then have split: "leftover msg @ 0x80 # replicate ((119 - n) mod 64) 0 @ bit_count_bytes (length msg) =
        b1 @ replicate 56 0 @ bit_count_bytes (length msg)"
      by (simp only: b1_def append_Cons append_assoc)
    have "length b1 mod 64 = 0" using n64 by (simp add: b1_def)
    then have "md5_digest msg = buf_bytes (compress (replicate 56 0 @ bit_count_bytes (length msg)) (compress b1 (compress msg md5_iv)))"
      unfolding D split by (simp only: compress_append)
    moreover have "take 56 (md5_in p) = replicate 56 0" "md5_buf p = compress b1 (compress msg md5_iv)"
      using Final_pad_long [OF inv] False by (auto simp: p_def n_def b1_def)
    ultimately show ?thesis using F by simp
  qed
qed

lemma MD5_new_inv: "length garbage = 64 \<Longrightarrow> md5_inv [] (MD5_new garbage)"
  by (simp add: md5_inv_def MD5_new_def md5_iv_def compress_less leftover_less)

lemma Update_all: "md5_inv msg m \<Longrightarrow> list_all (\<lambda>p. length p < 2 ^ 32) pieces \<Longrightarrow> md5_inv (msg @ concat pieces) (fold Update pieces m)"
proof (induction pieces arbitrary: msg m)
  case (Cons p pieces)
  then have "md5_inv (msg @ p) (Update p m)" by (auto intro: Update_appends)
  then show ?case using Cons.IH [of "msg @ p" "Update p m"] Cons.prems by simp
qed simp

text \<open>
  C32: feeding a message to \<open>Update\<close> in any pieces, of any sizes a 32-bit length can hold, and calling \<open>Final\<close> gives
  the digest of the concatenated message, defined by padding, blocks and compression, with a length field
  that is right modulo \<open>2 ^ 64\<close> bits; the contents of the buffer at construction do not matter.
\<close>
theorem Update_pieces_digest:
  assumes "length garbage = 64" "list_all (\<lambda>p. length p < 2 ^ 32) pieces"
  shows "fst (Final (fold Update pieces (MD5_new garbage))) = md5_digest (concat pieces)"
  using Final_digest Update_all [OF MD5_new_inv [OF assms(1)] assms(2)] by simp

theorem Update_pieces_digest_witness:
  "fst (Final (fold Update [[97, 98], [], [99]] (MD5_new (replicate 64 7)))) = md5_digest [97, 98, 99]"
  using Update_pieces_digest [of "replicate 64 7" "[[97, 98], [], [99]]"] by simp

section \<open>The compression function of the RFC\<close>

text \<open>
  RFC 1321 gives the 64 steps by tables: the selection function of the round, the word of the block, the shift and
  the constant \<open>T\<close>, the integer part of \<open>2 ^ 32\<close> times the absolute value of the sine of \<open>i + 1\<close>.
\<close>

definition rfc_T :: "32 word list" where
  "rfc_T = [
     0xd76aa478, 0xe8c7b756, 0x242070db, 0xc1bdceee, 0xf57c0faf, 0x4787c62a, 0xa8304613, 0xfd469501,
     0x698098d8, 0x8b44f7af, 0xffff5bb1, 0x895cd7be, 0x6b901122, 0xfd987193, 0xa679438e, 0x49b40821,
     0xf61e2562, 0xc040b340, 0x265e5a51, 0xe9b6c7aa, 0xd62f105d, 0x02441453, 0xd8a1e681, 0xe7d3fbc8,
     0x21e1cde6, 0xc33707d6, 0xf4d50d87, 0x455a14ed, 0xa9e3e905, 0xfcefa3f8, 0x676f02d9, 0x8d2a4c8a,
     0xfffa3942, 0x8771f681, 0x6d9d6122, 0xfde5380c, 0xa4beea44, 0x4bdecfa9, 0xf6bb4b60, 0xbebfbc70,
     0x289b7ec6, 0xeaa127fa, 0xd4ef3085, 0x04881d05, 0xd9d4d039, 0xe6db99e5, 0x1fa27cf8, 0xc4ac5665,
     0xf4292244, 0x432aff97, 0xab9423a7, 0xfc93a039, 0x655b59c3, 0x8f0ccc92, 0xffeff47d, 0x85845dd1,
     0x6fa87e4f, 0xfe2ce6e0, 0xa3014314, 0x4e0811a1, 0xf7537e82, 0xbd3af235, 0x2ad7d2bb, 0xeb86d391]"

definition rfc_select :: "nat \<Rightarrow> 32 word \<Rightarrow> 32 word \<Rightarrow> 32 word \<Rightarrow> 32 word" where
  "rfc_select i x y z =
     (if i < 16 then (x AND y) OR (NOT x AND z)
      else if i < 32 then (x AND z) OR (y AND NOT z)
      else if i < 48 then x XOR y XOR z
      else y XOR (x OR NOT z))"

definition rfc_word :: "nat \<Rightarrow> nat" where
  "rfc_word i =
     (if i < 16 then i else if i < 32 then (5 * i + 1) mod 16
      else if i < 48 then (3 * i + 5) mod 16 else (7 * i) mod 16)"

definition rfc_shift :: "nat \<Rightarrow> nat" where
  "rfc_shift i =
     (if i < 16 then [7, 12, 17, 22] else if i < 32 then [5, 9, 14, 20]
      else if i < 48 then [4, 11, 16, 23] else [6, 10, 15, 21]) ! (i mod 4)"

fun rfc_step :: "32 word list \<Rightarrow> nat \<Rightarrow> md5_buf \<Rightarrow> md5_buf" where
  "rfc_step x i (a, b, c, d) =
     (d, b + word_rotl (rfc_shift i) (a + rfc_select i b c d + x ! rfc_word i + rfc_T ! i), b, c)"

declare rfc_step.simps [simp del]

fun rfc_transform :: "md5_buf \<Rightarrow> 32 word list \<Rightarrow> md5_buf" where
  "rfc_transform (a0, b0, c0, d0) x =
     (let (a, b, c, d) = fold (rfc_step x) [0..<64] (a0, b0, c0, d0) in (a0 + a, b0 + b, c0 + c, d0 + d))"

lemma F1_select: "F1 x y z = (x AND y) OR (NOT x AND z)"
  by (rule bit_word_eqI) (auto simp: F1_def bit_and_iff bit_or_iff bit_xor_iff bit_not_iff)

lemma F2_select: "F2 x y z = (x AND z) OR (y AND NOT z)"
  by (rule bit_word_eqI) (auto simp: F2_def F1_def bit_and_iff bit_or_iff bit_xor_iff bit_not_iff)

lemma rotate_left:
  fixes w :: "32 word"
  assumes "0 < s" "s < 32"
  shows "push_bit s w OR drop_bit (32 - s) w = word_rotl s w"
proof (rule bit_word_eqI)
  fix n assume n: "n < LENGTH(32)"
  show "bit (push_bit s w OR drop_bit (32 - s) w) n = bit (word_rotl s w) n"
  proof (cases "n < s")
    case True
    then have "n + 32 - s < 32" "(n + 32 - s) mod 32 = 32 - s + n" using assms n by simp_all
    then show ?thesis using True n assms by (simp add: bit_word_rotl_iff bit_simps)
  next
    case False
    then have "(n + (32 - s)) mod 32 = n - s" using assms n by (simp add: mod_if)
    then have "(n + 32 - s) mod 32 = n - s" using assms by simp
    moreover have "\<not> bit w (32 - s + n)" using bit_imp_le_length [of w "32 - s + n"] False assms by auto
    ultimately show ?thesis using False n assms by (simp add: bit_word_rotl_iff bit_simps not_less)
  qed
qed

lemma MD5STEP_rotl:
  "0 < s \<Longrightarrow> s < 32 \<Longrightarrow> MD5STEP f w x y z (k + t) s = x + word_rotl s (w + f x y z + k + t)"
  by (simp add: MD5STEP_def Let_def rotate_left ac_simps)

text \<open>One step of the RFC as a step of the source, written with \<^verbatim>\<open>let\<close> so that a round unfolds in linear size.\<close>

definition step_fun :: "nat \<Rightarrow> 32 word \<Rightarrow> 32 word \<Rightarrow> 32 word \<Rightarrow> 32 word" where
  "step_fun i = (if i < 16 then F1 else if i < 32 then F2 else if i < 48 then F3 else F4)"

lemma step_fun_select: "step_fun i = rfc_select i"
  by (intro ext) (simp add: step_fun_def rfc_select_def F1_select F2_select F3_def F4_def)

lemma rfc_shift_range: "0 < rfc_shift i \<and> rfc_shift i < 32"
proof -
  have "i mod 4 \<in> {0, 1, 2, 3}" by auto
  then show ?thesis by (auto simp: rfc_shift_def)
qed

lemma fold_rfc_step:
  "fold (rfc_step x) (i # is) (a, b, c, d) =
   (let w = MD5STEP (step_fun i) a b c d (x ! rfc_word i + rfc_T ! i) (rfc_shift i) in fold (rfc_step x) is (d, w, b, c))"
  using rfc_shift_range [of i] by (simp add: rfc_step.simps MD5STEP_rotl step_fun_select)

lemma round_indices:
  "[0..<64] = [0..<16] @ [16..<32] @ [32..<48] @ [48..<64::nat]"
  "[0..<16] = [0,1,2,3,4,5,6,7,8,9,10,11,12,13,14,15::nat]"
  "[16..<32] = [16,17,18,19,20,21,22,23,24,25,26,27,28,29,30,31::nat]"
  "[32..<48] = [32,33,34,35,36,37,38,39,40,41,42,43,44,45,46,47::nat]"
  "[48..<64] = [48,49,50,51,52,53,54,55,56,57,58,59,60,61,62,63::nat]"
  by (simp_all add: upt_rec)

lemma fold_nil: "fold f [] s = s"
  by simp

lemma rfc_tables1:
  "step_fun 0 = F1" "rfc_word 0 = 0" "rfc_shift 0 = 7" "rfc_T ! 0 = 0xd76aa478"
  "step_fun 1 = F1" "rfc_word 1 = 1" "rfc_shift 1 = 12" "rfc_T ! 1 = 0xe8c7b756"
  "step_fun 2 = F1" "rfc_word 2 = 2" "rfc_shift 2 = 17" "rfc_T ! 2 = 0x242070db"
  "step_fun 3 = F1" "rfc_word 3 = 3" "rfc_shift 3 = 22" "rfc_T ! 3 = 0xc1bdceee"
  "step_fun 4 = F1" "rfc_word 4 = 4" "rfc_shift 4 = 7" "rfc_T ! 4 = 0xf57c0faf"
  "step_fun 5 = F1" "rfc_word 5 = 5" "rfc_shift 5 = 12" "rfc_T ! 5 = 0x4787c62a"
  "step_fun 6 = F1" "rfc_word 6 = 6" "rfc_shift 6 = 17" "rfc_T ! 6 = 0xa8304613"
  "step_fun 7 = F1" "rfc_word 7 = 7" "rfc_shift 7 = 22" "rfc_T ! 7 = 0xfd469501"
  "step_fun 8 = F1" "rfc_word 8 = 8" "rfc_shift 8 = 7" "rfc_T ! 8 = 0x698098d8"
  "step_fun 9 = F1" "rfc_word 9 = 9" "rfc_shift 9 = 12" "rfc_T ! 9 = 0x8b44f7af"
  "step_fun 10 = F1" "rfc_word 10 = 10" "rfc_shift 10 = 17" "rfc_T ! 10 = 0xffff5bb1"
  "step_fun 11 = F1" "rfc_word 11 = 11" "rfc_shift 11 = 22" "rfc_T ! 11 = 0x895cd7be"
  "step_fun 12 = F1" "rfc_word 12 = 12" "rfc_shift 12 = 7" "rfc_T ! 12 = 0x6b901122"
  "step_fun 13 = F1" "rfc_word 13 = 13" "rfc_shift 13 = 12" "rfc_T ! 13 = 0xfd987193"
  "step_fun 14 = F1" "rfc_word 14 = 14" "rfc_shift 14 = 17" "rfc_T ! 14 = 0xa679438e"
  "step_fun 15 = F1" "rfc_word 15 = 15" "rfc_shift 15 = 22" "rfc_T ! 15 = 0x49b40821"
  by (simp_all add: step_fun_def rfc_word_def rfc_shift_def rfc_T_def)

lemma rfc_tables2:
  "step_fun 16 = F2" "rfc_word 16 = 1" "rfc_shift 16 = 5" "rfc_T ! 16 = 0xf61e2562"
  "step_fun 17 = F2" "rfc_word 17 = 6" "rfc_shift 17 = 9" "rfc_T ! 17 = 0xc040b340"
  "step_fun 18 = F2" "rfc_word 18 = 11" "rfc_shift 18 = 14" "rfc_T ! 18 = 0x265e5a51"
  "step_fun 19 = F2" "rfc_word 19 = 0" "rfc_shift 19 = 20" "rfc_T ! 19 = 0xe9b6c7aa"
  "step_fun 20 = F2" "rfc_word 20 = 5" "rfc_shift 20 = 5" "rfc_T ! 20 = 0xd62f105d"
  "step_fun 21 = F2" "rfc_word 21 = 10" "rfc_shift 21 = 9" "rfc_T ! 21 = 0x02441453"
  "step_fun 22 = F2" "rfc_word 22 = 15" "rfc_shift 22 = 14" "rfc_T ! 22 = 0xd8a1e681"
  "step_fun 23 = F2" "rfc_word 23 = 4" "rfc_shift 23 = 20" "rfc_T ! 23 = 0xe7d3fbc8"
  "step_fun 24 = F2" "rfc_word 24 = 9" "rfc_shift 24 = 5" "rfc_T ! 24 = 0x21e1cde6"
  "step_fun 25 = F2" "rfc_word 25 = 14" "rfc_shift 25 = 9" "rfc_T ! 25 = 0xc33707d6"
  "step_fun 26 = F2" "rfc_word 26 = 3" "rfc_shift 26 = 14" "rfc_T ! 26 = 0xf4d50d87"
  "step_fun 27 = F2" "rfc_word 27 = 8" "rfc_shift 27 = 20" "rfc_T ! 27 = 0x455a14ed"
  "step_fun 28 = F2" "rfc_word 28 = 13" "rfc_shift 28 = 5" "rfc_T ! 28 = 0xa9e3e905"
  "step_fun 29 = F2" "rfc_word 29 = 2" "rfc_shift 29 = 9" "rfc_T ! 29 = 0xfcefa3f8"
  "step_fun 30 = F2" "rfc_word 30 = 7" "rfc_shift 30 = 14" "rfc_T ! 30 = 0x676f02d9"
  "step_fun 31 = F2" "rfc_word 31 = 12" "rfc_shift 31 = 20" "rfc_T ! 31 = 0x8d2a4c8a"
  by (simp_all add: step_fun_def rfc_word_def rfc_shift_def rfc_T_def)

lemma rfc_tables3:
  "step_fun 32 = F3" "rfc_word 32 = 5" "rfc_shift 32 = 4" "rfc_T ! 32 = 0xfffa3942"
  "step_fun 33 = F3" "rfc_word 33 = 8" "rfc_shift 33 = 11" "rfc_T ! 33 = 0x8771f681"
  "step_fun 34 = F3" "rfc_word 34 = 11" "rfc_shift 34 = 16" "rfc_T ! 34 = 0x6d9d6122"
  "step_fun 35 = F3" "rfc_word 35 = 14" "rfc_shift 35 = 23" "rfc_T ! 35 = 0xfde5380c"
  "step_fun 36 = F3" "rfc_word 36 = 1" "rfc_shift 36 = 4" "rfc_T ! 36 = 0xa4beea44"
  "step_fun 37 = F3" "rfc_word 37 = 4" "rfc_shift 37 = 11" "rfc_T ! 37 = 0x4bdecfa9"
  "step_fun 38 = F3" "rfc_word 38 = 7" "rfc_shift 38 = 16" "rfc_T ! 38 = 0xf6bb4b60"
  "step_fun 39 = F3" "rfc_word 39 = 10" "rfc_shift 39 = 23" "rfc_T ! 39 = 0xbebfbc70"
  "step_fun 40 = F3" "rfc_word 40 = 13" "rfc_shift 40 = 4" "rfc_T ! 40 = 0x289b7ec6"
  "step_fun 41 = F3" "rfc_word 41 = 0" "rfc_shift 41 = 11" "rfc_T ! 41 = 0xeaa127fa"
  "step_fun 42 = F3" "rfc_word 42 = 3" "rfc_shift 42 = 16" "rfc_T ! 42 = 0xd4ef3085"
  "step_fun 43 = F3" "rfc_word 43 = 6" "rfc_shift 43 = 23" "rfc_T ! 43 = 0x04881d05"
  "step_fun 44 = F3" "rfc_word 44 = 9" "rfc_shift 44 = 4" "rfc_T ! 44 = 0xd9d4d039"
  "step_fun 45 = F3" "rfc_word 45 = 12" "rfc_shift 45 = 11" "rfc_T ! 45 = 0xe6db99e5"
  "step_fun 46 = F3" "rfc_word 46 = 15" "rfc_shift 46 = 16" "rfc_T ! 46 = 0x1fa27cf8"
  "step_fun 47 = F3" "rfc_word 47 = 2" "rfc_shift 47 = 23" "rfc_T ! 47 = 0xc4ac5665"
  by (simp_all add: step_fun_def rfc_word_def rfc_shift_def rfc_T_def)

lemma rfc_tables4:
  "step_fun 48 = F4" "rfc_word 48 = 0" "rfc_shift 48 = 6" "rfc_T ! 48 = 0xf4292244"
  "step_fun 49 = F4" "rfc_word 49 = 7" "rfc_shift 49 = 10" "rfc_T ! 49 = 0x432aff97"
  "step_fun 50 = F4" "rfc_word 50 = 14" "rfc_shift 50 = 15" "rfc_T ! 50 = 0xab9423a7"
  "step_fun 51 = F4" "rfc_word 51 = 5" "rfc_shift 51 = 21" "rfc_T ! 51 = 0xfc93a039"
  "step_fun 52 = F4" "rfc_word 52 = 12" "rfc_shift 52 = 6" "rfc_T ! 52 = 0x655b59c3"
  "step_fun 53 = F4" "rfc_word 53 = 3" "rfc_shift 53 = 10" "rfc_T ! 53 = 0x8f0ccc92"
  "step_fun 54 = F4" "rfc_word 54 = 10" "rfc_shift 54 = 15" "rfc_T ! 54 = 0xffeff47d"
  "step_fun 55 = F4" "rfc_word 55 = 1" "rfc_shift 55 = 21" "rfc_T ! 55 = 0x85845dd1"
  "step_fun 56 = F4" "rfc_word 56 = 8" "rfc_shift 56 = 6" "rfc_T ! 56 = 0x6fa87e4f"
  "step_fun 57 = F4" "rfc_word 57 = 15" "rfc_shift 57 = 10" "rfc_T ! 57 = 0xfe2ce6e0"
  "step_fun 58 = F4" "rfc_word 58 = 6" "rfc_shift 58 = 15" "rfc_T ! 58 = 0xa3014314"
  "step_fun 59 = F4" "rfc_word 59 = 13" "rfc_shift 59 = 21" "rfc_T ! 59 = 0x4e0811a1"
  "step_fun 60 = F4" "rfc_word 60 = 4" "rfc_shift 60 = 6" "rfc_T ! 60 = 0xf7537e82"
  "step_fun 61 = F4" "rfc_word 61 = 11" "rfc_shift 61 = 10" "rfc_T ! 61 = 0xbd3af235"
  "step_fun 62 = F4" "rfc_word 62 = 2" "rfc_shift 62 = 15" "rfc_T ! 62 = 0x2ad7d2bb"
  "step_fun 63 = F4" "rfc_word 63 = 9" "rfc_shift 63 = 21" "rfc_T ! 63 = 0xeb86d391"
  by (simp_all add: step_fun_def rfc_word_def rfc_shift_def rfc_T_def)

lemma rfc_round1: "fold (rfc_step x) [0..<16] s = Transform_round1 x s"
  by (cases s) (simp only: Transform_round1_def prod.case round_indices fold_rfc_step fold_nil rfc_tables1)

lemma rfc_round2: "fold (rfc_step x) [16..<32] s = Transform_round2 x s"
  by (cases s) (simp only: Transform_round2_def prod.case round_indices fold_rfc_step fold_nil rfc_tables2)

lemma rfc_round3: "fold (rfc_step x) [32..<48] s = Transform_round3 x s"
  by (cases s) (simp only: Transform_round3_def prod.case round_indices fold_rfc_step fold_nil rfc_tables3)

lemma rfc_round4: "fold (rfc_step x) [48..<64] s = Transform_round4 x s"
  by (cases s) (simp only: Transform_round4_def prod.case round_indices fold_rfc_step fold_nil rfc_tables4)

text \<open>
  C33: the unrolled compression function of the source, with its optimised selection functions and its constants,
  is the table-driven compression function of RFC 1321, for every chaining value and every block.
\<close>
theorem Transform_rfc: "Transform s x = rfc_transform s x"
  by (cases s) (simp only: Transform.simps rfc_transform.simps round_indices(1) fold_append comp_apply
      rfc_round1 rfc_round2 rfc_round3 rfc_round4)

end
