(* ===== verification/Streams.thy ===== *)
theory Streams
  imports Resources
begin

text \<open>
  The streams resources are saved to and restored from (\<^verbatim>\<open>ResourceOutputStreamText.h\<close>, \<^verbatim>\<open>ResourceInputStreamText.h\<close>,
  \<^verbatim>\<open>ResourceOutputStreamBinary.h\<close>, \<^verbatim>\<open>ResourceInputStreamBinary.h\<close> under \<^verbatim>\<open>src/lib/processing_engine\<close>) and the framing
  of a resource in a stream (\<^verbatim>\<open>Resource.cc\<close>).  The text streams use the standard library's streams, whose state
  (characters left, position, \<open>eofbit\<close>, \<open>failbit\<close>) is a record.  The binary streams use protocol buffers' coded streams,
  which are an argument.  An output stream is the text it appends; a \<open>uint32_t\<close> is an integer below \<open>2 ^ 32\<close>.
\<close>

section \<open>The text output stream\<close>

definition backslash :: char where
  "backslash = CHR 0x5C"

definition newline :: char where
  "newline = CHR 0x0A"

text \<open>\<open>None\<close> never occurs: the pattern is not empty.\<close>

definition WriteStringText :: "string \<Rightarrow> string option" where
  "WriteStringText buffer =
     (case replace_all buffer [backslash] [backslash, backslash] of
        None \<Rightarrow> None
      | Some s \<Rightarrow> (case replace_all s [newline] [backslash, CHR ''n''] of None \<Rightarrow> None | Some s1 \<Rightarrow> Some (s1 @ [newline])))"

definition WriteNumberText :: "int \<Rightarrow> string" where
  "WriteNumberText value = show_int value @ [newline]"

definition WriteRawText :: "string \<Rightarrow> string" where
  "WriteRawText data = data @ [newline]"

definition SerializeMessageText :: "('m \<Rightarrow> string) \<Rightarrow> 'm \<Rightarrow> string" where
  "SerializeMessageText printer msg = printer msg @ [newline]"

section \<open>The text input stream\<close>

record text_in =
  ti_rest :: string
  ti_pos :: nat
  ti_eof :: bool
  ti_fail :: bool

definition ti_good :: "text_in \<Rightarrow> bool" where
  "ti_good t \<longleftrightarrow> \<not> ti_eof t \<and> \<not> ti_fail t"

definition TextIn_new :: "string \<Rightarrow> text_in" where
  "TextIn_new s = \<lparr>ti_rest = s, ti_pos = 0, ti_eof = False, ti_fail = False\<rparr>"

definition ti_advance :: "nat \<Rightarrow> text_in \<Rightarrow> text_in" where
  "ti_advance n t = t\<lparr>ti_rest := drop n (ti_rest t), ti_pos := ti_pos t + min n (length (ti_rest t))\<rparr>"

text \<open>\<^verbatim>\<open>getline(is, value, '\n')\<close>.\<close>

definition getline :: "text_in \<Rightarrow> string \<times> text_in" where
  "getline t =
     (if \<not> ti_good t then ([], t\<lparr>ti_fail := True\<rparr>)
      else
        let line = takeWhile (\<lambda>c. c \<noteq> newline) (ti_rest t) in
        if length line < length (ti_rest t) then (line, ti_advance (length line + 1) t)
        else (line, (ti_advance (length line) t)\<lparr>ti_eof := True, ti_fail := (line = [])\<rparr>))"

text \<open>
  \<^verbatim>\<open>is >> value\<close> for an unsigned type of \<open>w\<close> bits: leading space, a sign, digits; a negative number wraps around, no
  digits or a number that is too large set \<open>failbit\<close>.
\<close>

definition read_unsigned :: "nat \<Rightarrow> text_in \<Rightarrow> int \<times> text_in" where
  "read_unsigned w t =
     (if \<not> ti_good t then (0, t\<lparr>ti_fail := True\<rparr>)
      else
        let t1 = ti_advance (length (takeWhile isspace (ti_rest t))) t;
            neg = (ti_rest t1 \<noteq> [] \<and> hd (ti_rest t1) = CHR ''-'');
            signed = (neg \<or> (ti_rest t1 \<noteq> [] \<and> hd (ti_rest t1) = CHR ''+''));
            t2 = (if signed then ti_advance 1 t1 else t1);
            ds = takeWhile is_digit (ti_rest t2);
            t3 = ti_advance (length ds) t2;
            t4 = t3\<lparr>ti_eof := (ti_rest t3 = [])\<rparr>;
            v = int (digits_value 0 ds)
        in if ds = [] then (0, t4\<lparr>ti_fail := True\<rparr>)
           else if v \<ge> 2 ^ w then (2 ^ w - 1, t4\<lparr>ti_fail := True\<rparr>)
           else (if neg then (- v) mod 2 ^ w else v, t4))"

definition ReadStringText :: "text_in \<Rightarrow> string option \<times> text_in" where
  "ReadStringText t =
     (let (line, t1) = getline t in
      if ti_fail t1 then (None, t1)
      else
        (case replace_all line [backslash, CHR ''n''] [newline] of
           None \<Rightarrow> (None, t1)
         | Some s \<Rightarrow> (replace_all s [backslash, backslash] [backslash], t1)))"

text \<open>\<open>ReadLittleEndian32\<close>, \<open>ReadVarint32\<close> and, with \<open>w = 64\<close>, their 64-bit versions.\<close>

definition ReadNumberText :: "nat \<Rightarrow> text_in \<Rightarrow> int option \<times> text_in" where
  "ReadNumberText w t =
     (let (v, t1) = read_unsigned w t in if ti_fail t1 then (None, t1) else (Some v, snd (getline t1)))"

text \<open>\<open>ReadRaw\<close> tests \<open>badbit\<close>, which reading from memory never sets: a short read is reported as a success.\<close>

definition ReadRawText :: "nat \<Rightarrow> text_in \<Rightarrow> string \<times> bool \<times> text_in" where
  "ReadRawText n t =
     (if \<not> ti_good t then ([], True, snd (getline (t\<lparr>ti_fail := True\<rparr>)))
      else
        let t1 = ti_advance n t;
            t2 = (if length (ti_rest t) < n then t1\<lparr>ti_eof := True, ti_fail := True\<rparr> else t1)
        in (take n (ti_rest t), True, snd (getline t2)))"

definition SkipText :: "nat \<Rightarrow> text_in \<Rightarrow> bool \<times> text_in" where
  "SkipText n t =
     (if \<not> ti_good t then (False, t\<lparr>ti_fail := True\<rparr>)
      else
        let t1 = ti_advance n t;
            t2 = (if length (ti_rest t) < n then t1\<lparr>ti_eof := True\<rparr> else t1)
        in (True, snd (getline t2)))"

definition ByteCountText :: "text_in \<Rightarrow> int \<times> text_in" where
  "ByteCountText t = (if ti_good t then (int (ti_pos t), t) else (- 1, t\<lparr>ti_fail := True\<rparr>))"

definition ParseMessageText :: "(string \<Rightarrow> 'm option) \<Rightarrow> bool \<Rightarrow> text_in \<Rightarrow> bool \<times> 'm option \<times> text_in" where
  "ParseMessageText parser skip t =
     (let (line, t1) = getline t in
      if ti_fail t1 then (False, None, t1)
      else if skip then (True, None, t1)
      else (parser line \<noteq> None, parser line, t1))"

section \<open>Escaping\<close>

fun escape_char :: "char \<Rightarrow> string" where
  "escape_char c = (if c = backslash then [backslash, backslash] else if c = newline then [backslash, CHR ''n''] else [c])"

definition escape :: "string \<Rightarrow> string" where
  "escape s = concat (map escape_char s)"

text \<open>The strings the text format keeps: no backslash is followed by the letter n.\<close>

fun text_safe :: "string \<Rightarrow> bool" where
  "text_safe [] = True"
| "text_safe [c] = True"
| "text_safe (c # d # s) = (\<not> (c = backslash \<and> d = CHR ''n'') \<and> text_safe (d # s))"

lemma special_chars [simp]:
  "backslash \<noteq> newline" "newline \<noteq> backslash" "CHR ''n'' \<noteq> backslash" "backslash \<noteq> CHR ''n''"
  "CHR ''n'' \<noteq> newline" "newline \<noteq> CHR ''n''"
  by (simp_all add: backslash_def newline_def)

lemma replace_all_ref: "sub \<noteq> [] \<Longrightarrow> replace_all s sub other = Some (replace_ref sub other s)"
  using replace_all_loop_ref [of sub other "[]" s] by (simp add: replace_all_def)

lemma replace_ref_single: "replace_ref [c] other s = concat (map (\<lambda>d. if d = c then other else [d]) s)"
  by (induction s) auto

lemma WriteStringText_escape: "WriteStringText s = Some (escape s @ [newline])"
proof -
  have "concat (map (\<lambda>d. if d = newline then [backslash, CHR ''n''] else [d])
      (concat (map (\<lambda>d. if d = backslash then [backslash, backslash] else [d]) s))) = escape s"
    by (induction s) (auto simp: escape_def)
  then show ?thesis by (simp add: WriteStringText_def replace_all_ref replace_ref_single)
qed

lemma escape_no_newline: "newline \<notin> set (escape s)"
  by (induction s) (auto simp: escape_def)

text \<open>Reading undoes the two steps of writing in the same order, not in the opposite one.\<close>

definition half_escape :: "string \<Rightarrow> string" where
  "half_escape s = concat (map (\<lambda>c. if c = backslash then [backslash, backslash] else [c]) s)"

lemma hd_escape: "escape s \<noteq> [] \<and> hd (escape s) = CHR ''n'' \<longleftrightarrow> (\<exists>t. s = CHR ''n'' # t)"
  by (cases s) (auto simp: escape_def)

lemma unescape_newlines: "text_safe s \<Longrightarrow> replace_ref [backslash, CHR ''n''] [newline] (escape s) = half_escape s"
proof (induction s)
  case Nil
  then show ?case by (simp add: escape_def half_escape_def)
next
  case (Cons c s)
  have safe: "text_safe s" using Cons.prems by (cases s) auto
  consider "c = backslash" | "c = newline" | "c \<noteq> backslash" "c \<noteq> newline" by blast
  then show ?case
  proof cases
    case 1
    then have "\<not> (escape s \<noteq> [] \<and> hd (escape s) = CHR ''n'')" using Cons.prems hd_escape [of s] by (cases s) auto
    then have "take (length [backslash, CHR ''n'']) (backslash # escape s) \<noteq> [backslash, CHR ''n'']" by (cases "escape s") auto
    then show ?thesis using 1 Cons.IH [OF safe] by (simp add: escape_def half_escape_def)
  next
    case 2
    then show ?thesis using Cons.IH [OF safe] by (simp add: escape_def half_escape_def)
  next
    case 3
    then show ?thesis using Cons.IH [OF safe] by (simp add: escape_def half_escape_def)
  qed
qed

lemma unescape_backslashes: "replace_ref [backslash, backslash] [backslash] (half_escape s) = s"
  by (induction s) (auto simp: half_escape_def)

lemma takeWhile_line:
  "newline \<notin> set line \<Longrightarrow> takeWhile (\<lambda>c. c \<noteq> newline) (line @ newline # rest) = line"
  by (induction line) auto

lemma getline_line:
  assumes "ti_good t" "ti_rest t = line @ newline # rest" "newline \<notin> set line"
  shows "\<exists>t'. getline t = (line, t') \<and> ti_rest t' = rest \<and> ti_good t' \<and> ti_pos t' = ti_pos t + length line + 1"
  using assms by (simp add: getline_def takeWhile_line ti_advance_def Let_def ti_good_def)

lemma ReadStringText_written:
  assumes "ti_good t" "text_safe s" "WriteStringText s = Some written" "ti_rest t = written @ rest"
  shows "\<exists>t'. ReadStringText t = (Some s, t') \<and> ti_rest t' = rest \<and> ti_good t'"
proof -
  have "ti_rest t = escape s @ newline # rest" using assms(3,4) by (auto simp: WriteStringText_escape)
  from getline_line [OF assms(1) this escape_no_newline] obtain t' where
    "getline t = (escape s, t')" "ti_rest t' = rest" "ti_good t'" by blast
  then show ?thesis
    using assms(2) by (simp add: ReadStringText_def replace_all_ref unescape_newlines unescape_backslashes ti_good_def)
qed

lemma show_nat_no_space: "takeWhile isspace (show_nat n @ rest) = []"
proof -
  obtain c cs where "show_nat n = c # cs" "is_digit c"
    using show_nat_digits [of n] by (cases "show_nat n") auto
  then show ?thesis using is_digit_not_space [of c] by simp
qed

lemma show_nat_no_sign: "show_nat n @ rest \<noteq> [] \<and> hd (show_nat n @ rest) \<notin> {CHR ''-'', CHR ''+''}"
proof -
  obtain c cs where "show_nat n = c # cs" "is_digit c"
    using show_nat_digits [of n] by (cases "show_nat n") auto
  then show ?thesis using is_digit_not_space [of c] by simp
qed

lemma takeWhile_number: "takeWhile is_digit (show_nat n @ newline # rest) = show_nat n"
proof -
  have "\<not> is_digit newline" by (simp add: newline_def is_digit_def)
  then show ?thesis using show_nat_digits [of n] by (simp add: takeWhile_append list_all_iff)
qed

lemma ReadNumberText_written:
  assumes "ti_good t" "0 \<le> v" "v < 2 ^ w" "ti_rest t = WriteNumberText v @ rest"
  shows "\<exists>t'. ReadNumberText w t = (Some v, t') \<and> ti_rest t' = rest \<and> ti_good t'"
proof -
  let ?n = "nat v"
  have r: "ti_rest t = show_nat ?n @ newline # rest" using assms(2,4) by (simp add: WriteNumberText_def show_int_def)
  have s: "\<not> hd (ti_rest t) = CHR ''-''" "\<not> hd (ti_rest t) = CHR ''+''" "ti_rest t \<noteq> []"
    unfolding r using show_nat_no_sign [of ?n "newline # rest"] by auto
  have adv: "ti_advance (length (takeWhile isspace (ti_rest t))) t = t"
    unfolding r show_nat_no_space by (simp add: ti_advance_def)
  define t1 where "t1 = (ti_advance (length (show_nat ?n)) t)\<lparr>ti_eof := False\<rparr>"
  have ds: "takeWhile is_digit (ti_rest t) = show_nat ?n" unfolding r by (rule takeWhile_number)
  have rest1: "ti_rest t1 = newline # rest" using r by (simp add: t1_def ti_advance_def)
  have "read_unsigned w t = (v, t1)"
    using assms(1-3) s rest1 show_nat_digits [of ?n]
    by (simp add: read_unsigned_def Let_def adv ds digits_value_show_nat t1_def)
  moreover have "ti_good t1" using assms(1) by (simp add: t1_def ti_good_def ti_advance_def)
  moreover obtain t' where "getline t1 = ([], t')" "ti_rest t' = rest" "ti_good t'"
    using getline_line [OF \<open>ti_good t1\<close>, of "[]" rest] rest1 by auto
  ultimately show ?thesis by (simp add: ReadNumberText_def ti_good_def)
qed

section \<open>The contract of a pair of streams\<close>

text \<open>
  The virtual functions the serialisation of resources calls.  Writing gives the text appended; reading takes the
  stream and gives the value, or nothing, and the stream after it.
\<close>

record out_ops =
  out_WriteString :: "string \<Rightarrow> string"
  out_WriteVarint32 :: "int \<Rightarrow> string"

record 'i in_ops =
  in_ReadString :: "'i \<Rightarrow> string option \<times> 'i"
  in_ReadVarint32 :: "'i \<Rightarrow> int option \<times> 'i"
  in_ByteCount :: "'i \<Rightarrow> int \<times> 'i"
  in_Refresh :: "'i \<Rightarrow> 'i"

locale resource_stream =
  fixes outs :: out_ops
    and ins :: "'i in_ops"
    and holds :: "'i \<Rightarrow> string \<Rightarrow> bool" \<comment> \<open>the stream is usable and this is what it still has\<close>
    and keeps :: "string \<Rightarrow> bool" \<comment> \<open>the strings the format keeps\<close>
  assumes read_string:
    "holds i (out_WriteString outs s @ rest) \<Longrightarrow> keeps s \<Longrightarrow> \<exists>i'. in_ReadString ins i = (Some s, i') \<and> holds i' rest"
    and read_varint32:
    "holds i (out_WriteVarint32 outs v @ rest) \<Longrightarrow> 0 \<le> v \<Longrightarrow> v < 2 ^ 32 \<Longrightarrow>
     \<exists>i'. in_ReadVarint32 ins i = (Some v, i') \<and> holds i' rest"
    and refresh: "holds i rest \<Longrightarrow> holds (in_Refresh ins i) rest"
    and byte_count: "holds i rest \<Longrightarrow> holds (snd (in_ByteCount ins i)) rest"

definition text_out :: out_ops where
  "text_out = \<lparr>out_WriteString = (\<lambda>s. the (WriteStringText s)), out_WriteVarint32 = WriteNumberText\<rparr>"

definition text_in_ops :: "text_in in_ops" where
  "text_in_ops = \<lparr>in_ReadString = ReadStringText, in_ReadVarint32 = ReadNumberText 32, in_ByteCount = ByteCountText, in_Refresh = id\<rparr>"

definition text_holds :: "text_in \<Rightarrow> string \<Rightarrow> bool" where
  "text_holds t rest \<longleftrightarrow> ti_good t \<and> ti_rest t = rest"

interpretation text_stream: resource_stream text_out text_in_ops text_holds text_safe
proof
  show "\<exists>i'. in_ReadString text_in_ops i = (Some s, i') \<and> text_holds i' rest"
    if "text_holds i (out_WriteString text_out s @ rest)" "text_safe s" for i s rest
    using that ReadStringText_written [of i s "escape s @ [newline]" rest]
    by (simp add: text_in_ops_def text_out_def text_holds_def WriteStringText_escape) blast
  show "\<exists>i'. in_ReadVarint32 text_in_ops i = (Some v, i') \<and> text_holds i' rest"
    if "text_holds i (out_WriteVarint32 text_out v @ rest)" "0 \<le> v" "v < 2 ^ 32" for i v rest
    using that ReadNumberText_written [of i v 32 rest]
    by (simp add: text_in_ops_def text_out_def text_holds_def) blast
qed (simp_all add: text_in_ops_def text_holds_def ByteCountText_def)

section \<open>The binary streams\<close>

text \<open>
  What the binary streams use of protocol buffers' coded streams: an argument.  \<open>c_has\<close> says what an input stream
  still has; \<open>coded_ok\<close> is the documented behaviour: a variable-length integer is read back, a string is written as its
  bytes and read by its length, and re-creating the coded stream does not lose input.
\<close>

record 'c coded_ops =
  c_WriteVarint32 :: "int \<Rightarrow> string"
  c_WriteString :: "string \<Rightarrow> string"
  c_ReadVarint32 :: "'c \<Rightarrow> int option \<times> 'c"
  c_ReadString :: "int \<Rightarrow> 'c \<Rightarrow> string option \<times> 'c"
  c_Skip :: "int \<Rightarrow> 'c \<Rightarrow> bool \<times> 'c"
  c_ByteCount :: "'c \<Rightarrow> int"
  c_recreate :: "'c \<Rightarrow> 'c"

definition coded_ok :: "'c coded_ops \<Rightarrow> ('c \<Rightarrow> string \<Rightarrow> bool) \<Rightarrow> bool" where
  "coded_ok c c_has \<longleftrightarrow>
     (\<forall>i v rest. c_has i (c_WriteVarint32 c v @ rest) \<longrightarrow> 0 \<le> v \<longrightarrow> v < 2 ^ 32 \<longrightarrow>
        (\<exists>i'. c_ReadVarint32 c i = (Some v, i') \<and> c_has i' rest)) \<and>
     (\<forall>i s rest. c_has i (c_WriteString c s @ rest) \<longrightarrow>
        (\<exists>i'. c_ReadString c (int (length s)) i = (Some s, i') \<and> c_has i' rest)) \<and>
     (\<forall>i rest. c_has i rest \<longrightarrow> c_has (c_recreate c i) rest)"

definition WriteStringBinary :: "'c coded_ops \<Rightarrow> string \<Rightarrow> string" where
  "WriteStringBinary c buffer = c_WriteVarint32 c (int (length buffer) mod 2 ^ 32) @ c_WriteString c buffer"

definition ReadStringBinary :: "'c coded_ops \<Rightarrow> 'c \<Rightarrow> string option \<times> 'c" where
  "ReadStringBinary c i =
     (case c_ReadVarint32 c i of (None, i1) \<Rightarrow> (None, i1) | (Some n, i1) \<Rightarrow> c_ReadString c n i1)"

text \<open>A message is framed by its size unless the caller knows it; the protocol buffer functions are arguments.\<close>

definition SerializeMessageBinary :: "'c coded_ops \<Rightarrow> ('m \<Rightarrow> string) \<Rightarrow> bool \<Rightarrow> 'm \<Rightarrow> string" where
  "SerializeMessageBinary c encode saveSize msg =
     (if saveSize then c_WriteVarint32 c (int (length (encode msg))) @ encode msg else encode msg)"

definition ParseMessageBinary ::
  "'c coded_ops \<Rightarrow> (int \<Rightarrow> 'c \<Rightarrow> bool \<times> 'm option \<times> 'c) \<Rightarrow> int \<Rightarrow> bool \<Rightarrow> 'c \<Rightarrow> bool \<times> 'm option \<times> 'c" where
  "ParseMessageBinary c parse_limited sz skip i =
     (case (if sz = 0 then c_ReadVarint32 c i else (Some sz, i)) of
        (None, i1) \<Rightarrow> (False, None, i1)
      | (Some n, i1) \<Rightarrow>
          if skip then (case c_Skip c n i1 of (ok, i2) \<Rightarrow> (ok, None, i2)) else parse_limited n i1)"

definition binary_out :: "'c coded_ops \<Rightarrow> out_ops" where
  "binary_out c = \<lparr>out_WriteString = WriteStringBinary c, out_WriteVarint32 = c_WriteVarint32 c\<rparr>"

definition binary_in_ops :: "'c coded_ops \<Rightarrow> 'c in_ops" where
  "binary_in_ops c = \<lparr>in_ReadString = ReadStringBinary c, in_ReadVarint32 = c_ReadVarint32 c,
     in_ByteCount = (\<lambda>i. (c_ByteCount c i, i)), in_Refresh = c_recreate c\<rparr>"

definition binary_keeps :: "string \<Rightarrow> bool" where
  "binary_keeps s \<longleftrightarrow> int (length s) < 2 ^ 32"

lemma binary_resource_stream:
  assumes "coded_ok c c_has"
  shows "resource_stream (binary_out c) (binary_in_ops c) c_has binary_keeps"
proof
  have varint: "\<exists>i'. c_ReadVarint32 c i = (Some v, i') \<and> c_has i' rest"
    if "c_has i (c_WriteVarint32 c v @ rest)" "0 \<le> v" "v < 2 ^ 32" for i v rest
    using assms that unfolding coded_ok_def by blast
  then show "\<exists>i'. in_ReadVarint32 (binary_in_ops c) i = (Some v, i') \<and> c_has i' rest"
    if "c_has i (out_WriteVarint32 (binary_out c) v @ rest)" "0 \<le> v" "v < 2 ^ 32" for i v rest
    using that by (simp add: binary_in_ops_def binary_out_def)
  have str: "\<exists>i'. c_ReadString c (int (length s)) i = (Some s, i') \<and> c_has i' rest"
    if "c_has i (c_WriteString c s @ rest)" for i s rest
    using assms that unfolding coded_ok_def by blast
  show "\<exists>i'. in_ReadString (binary_in_ops c) i = (Some s, i') \<and> c_has i' rest"
    if h: "c_has i (out_WriteString (binary_out c) s @ rest)" and k: "binary_keeps s" for i s rest
  proof -
    have "int (length s) mod 2 ^ 32 = int (length s)" "int (length s) < 2 ^ 32" using k by (auto simp: binary_keeps_def)
    then obtain i1 where i1: "c_ReadVarint32 c i = (Some (int (length s)), i1)" "c_has i1 (c_WriteString c s @ rest)"
      using varint [of i "int (length s)" "c_WriteString c s @ rest"] h by (auto simp: binary_out_def WriteStringBinary_def)
    from str [OF i1(2)] i1(1) show ?thesis by (auto simp: binary_in_ops_def ReadStringBinary_def)
  qed
qed (use assms in \<open>auto simp: binary_in_ops_def coded_ok_def\<close>)

section \<open>A resource in a stream\<close>

definition to_uint32 :: "int \<Rightarrow> int" where
  "to_uint32 n = n mod 2 ^ 32"

definition to_int32 :: "int \<Rightarrow> int" where
  "to_int32 n = (if n < 2 ^ 31 then n else n - 2 ^ 32)"

text \<open>\<open>ser\<close> and \<open>deser\<close> are the virtual functions of the resource.\<close>

definition SerializeResource ::
  "out_ops \<Rightarrow> ('d resource \<Rightarrow> bool \<times> string) \<Rightarrow> bool \<Rightarrow> bool \<Rightarrow> 'd resource \<Rightarrow> bool \<times> string" where
  "SerializeResource outs ser saveType saveIdStatus r =
     (let header =
        (if saveType then
           out_WriteVarint32 outs (to_uint32 (if saveIdStatus then r_type r OR 0x80 else r_type r)) @
           (if saveIdStatus then out_WriteVarint32 outs (to_uint32 (r_id r)) @ out_WriteVarint32 outs (to_uint32 (r_status r))
            else [])
         else []);
          (ok, body) = ser r
      in (ok, header @ body))"

text \<open>The type: given by the caller, or read from the stream with the flag for id and status; \<open>None\<close> when reading fails.\<close>

definition Deserialize_type :: "'i in_ops \<Rightarrow> int \<Rightarrow> 'i \<Rightarrow> (int \<times> bool) option \<times> 'i" where
  "Deserialize_type ins resourceType i =
     (if resourceType = 0 then
        (case in_ReadVarint32 ins i of
           (None, i1) \<Rightarrow> (None, i1)
         | (Some t, i1) \<Rightarrow> (Some (t AND 0x7f, t AND 0x80 \<noteq> 0), i1))
      else (Some (resourceType, False), i))"

definition Deserialize_id_status :: "'i in_ops \<Rightarrow> 'd resource \<Rightarrow> 'i \<Rightarrow> 'd resource option \<times> 'i" where
  "Deserialize_id_status ins r i =
     (case in_ReadVarint32 ins i of
        (None, i1) \<Rightarrow> (None, i1)
      | (Some rid, i1) \<Rightarrow>
          (case in_ReadVarint32 ins i1 of
             (None, i2) \<Rightarrow> (None, i2)
           | (Some st, i2) \<Rightarrow> (Some (r\<lparr>r_id := to_int32 rid, r_status := to_int32 st\<rparr>), i2)))"

text \<open>The number of bytes read is computed when \<open>wantSize\<close> (\<^verbatim>\<open>totalSize\<close> is not null).\<close>

definition DeserializeResource ::
  "'i in_ops \<Rightarrow> ('d resource \<Rightarrow> 'i \<Rightarrow> bool \<times> 'd resource \<times> 'i) \<Rightarrow> (string \<rightharpoonup> 'd resource_lib) \<Rightarrow> int \<Rightarrow> bool
     \<Rightarrow> 'i \<Rightarrow> 'd registry \<Rightarrow> failure + 'd resource option \<times> int option \<times> 'i \<times> 'd registry" where
  "DeserializeResource ins deser load resourceType wantSize i s =
     (let (start, i0) = (if wantSize then in_ByteCount ins i else (0, i)) in
      case Deserialize_type ins resourceType i0 of
        (None, i1) \<Rightarrow> Inr (None, None, i1, s)
      | (Some (t, readIdStatus), i1) \<Rightarrow>
          bind_result (AcquireResource load t s) (\<lambda>(ores, s1).
            case ores of
              None \<Rightarrow> Inr (None, None, i1, s1)
            | Some r \<Rightarrow>
                (case (if readIdStatus then Deserialize_id_status ins r i1 else (Some r, i1)) of
                   (None, i2) \<Rightarrow> Inr (None, None, i2, s1)
                 | (Some r1, i2) \<Rightarrow>
                     (case deser r1 i2 of
                        (False, r2, i3) \<Rightarrow> bind_result (ReleaseResource load (Some r2) s1) (\<lambda>s2. Inr (None, None, i3, s2))
                      | (True, r2, i3) \<Rightarrow>
                          let (stop, i4) = (if wantSize then in_ByteCount ins i3 else (0, i3))
                          in Inr (Some r2, if wantSize then Some (stop - start) else None, in_Refresh ins i4, s1)))))"

section \<open>Which strings the text format keeps\<close>

definition letter_n :: "string \<Rightarrow> nat" where
  "letter_n s = length (filter (\<lambda>c. c = CHR ''n'') s)"

lemma letter_n_simps [simp]:
  "letter_n [] = 0" "letter_n (c # s) = (if c = CHR ''n'' then Suc (letter_n s) else letter_n s)"
  "letter_n (s @ t) = letter_n s + letter_n t"
  by (simp_all add: letter_n_def)

lemma letter_n_unescape: "letter_n (replace_ref [backslash, backslash] [backslash] s) = letter_n s"
proof (induction "[backslash, backslash]" "[backslash]" s rule: replace_ref.induct)
  case (2 c cs)
  show ?case
  proof (cases "take (length [backslash, backslash]) (c # cs) = [backslash, backslash]")
    case True
    then obtain ds where ds: "c # cs = backslash # backslash # ds" by (cases cs) auto
    then show ?thesis using 2(1) True by simp
  next
    case False
    then show ?thesis using 2(2) by auto
  qed
qed simp

lemma escape_Cons:
  "escape (backslash # s) = backslash # backslash # escape s" "escape (newline # s) = backslash # CHR ''n'' # escape s"
  "c \<noteq> backslash \<Longrightarrow> c \<noteq> newline \<Longrightarrow> escape (c # s) = c # escape s"
  by (simp_all add: escape_def)

lemma unescape_step:
  shows "c \<noteq> backslash \<Longrightarrow> c \<noteq> newline \<Longrightarrow>
   replace_ref [backslash, CHR ''n''] [newline] (escape (c # s)) = c # replace_ref [backslash, CHR ''n''] [newline] (escape s)"
  and "replace_ref [backslash, CHR ''n''] [newline] (escape (newline # s)) = newline # replace_ref [backslash, CHR ''n''] [newline] (escape s)"
  and "\<not> (escape s \<noteq> [] \<and> hd (escape s) = CHR ''n'') \<Longrightarrow>
   replace_ref [backslash, CHR ''n''] [newline] (escape (backslash # s)) =
   backslash # backslash # replace_ref [backslash, CHR ''n''] [newline] (escape s)"
  and "replace_ref [backslash, CHR ''n''] [newline] (escape (backslash # CHR ''n'' # s)) =
   backslash # newline # replace_ref [backslash, CHR ''n''] [newline] (escape s)"
proof -
  show "replace_ref [backslash, CHR ''n''] [newline] (escape (backslash # s)) =
      backslash # backslash # replace_ref [backslash, CHR ''n''] [newline] (escape s)"
    if "\<not> (escape s \<noteq> [] \<and> hd (escape s) = CHR ''n'')"
    using that by (cases "escape s") (simp_all add: escape_Cons)
qed (simp_all add: escape_Cons)

text \<open>Every backslash followed by the letter n costs a letter n.\<close>

lemma letter_n_lost:
  "letter_n (replace_ref [backslash, CHR ''n''] [newline] (escape s)) \<le> letter_n s \<and>
   (\<not> text_safe s \<longrightarrow> letter_n (replace_ref [backslash, CHR ''n''] [newline] (escape s)) < letter_n s)"
proof (induction s rule: text_safe.induct)
  case (2 c)
  then show ?case by (auto simp: escape_def)
next
  case (3 c d s)
  consider "c = backslash" "d = CHR ''n''" | "c = backslash" "d \<noteq> CHR ''n''" | "c = newline" | "c \<noteq> backslash" "c \<noteq> newline"
    by blast
  then show ?case
  proof cases
    case 1
    then show ?thesis using 3 unescape_step(1) [of d s] by (auto simp: unescape_step(4))
  next
    case 2
    then have "\<not> (escape (d # s) \<noteq> [] \<and> hd (escape (d # s)) = CHR ''n'')" using hd_escape [of "d # s"] by auto
    then show ?thesis using 2 3 by (simp add: unescape_step(3))
  next
    case 3
    then show ?thesis using "3.IH" by (simp add: unescape_step(2))
  next
    case 4
    then show ?thesis using 3 by (simp add: unescape_step(1))
  qed
qed (simp add: escape_def)

text \<open>
  A string written to a text stream is read back exactly when it has no backslash followed by the letter n: for all
  other strings, newlines, backslashes and any characters included, reading gives what was written, and leaves the rest;
  with such a pair another string is read, because \<open>ReadString\<close> replaces the pair before it halves the backslashes.
\<close>
theorem text_string_round_trip:
  assumes "ti_good t" "ti_rest t = the (WriteStringText s) @ rest"
  shows "(fst (ReadStringText t) = Some s) = text_safe s \<and> ti_rest (snd (ReadStringText t)) = rest"
proof -
  have "ti_rest t = escape s @ newline # rest" using assms(2) by (simp add: WriteStringText_escape)
  from getline_line [OF assms(1) this escape_no_newline] obtain t' where
    t': "getline t = (escape s, t')" "ti_rest t' = rest" "ti_good t'" by blast
  let ?u = "replace_ref [backslash, CHR ''n''] [newline] (escape s)"
  have read: "ReadStringText t = (Some (replace_ref [backslash, backslash] [backslash] ?u), t')"
    using t' by (simp add: ReadStringText_def replace_all_ref ti_good_def)
  have "replace_ref [backslash, backslash] [backslash] ?u \<noteq> s" if "\<not> text_safe s"
    using letter_n_lost [of s] letter_n_unescape [of ?u] that by auto
  then show ?thesis using read t'(2) unescape_newlines [of s] unescape_backslashes [of s] by auto
qed

theorem text_string_round_trip_witness:
  "fst (ReadStringText (TextIn_new (the (WriteStringText [backslash, CHR ''n''])))) \<noteq> Some [backslash, CHR ''n''] \<and>
   fst (ReadStringText (TextIn_new (the (WriteStringText [CHR ''n'', newline, backslash])))) = Some [CHR ''n'', newline, backslash]"
  using text_string_round_trip [of "TextIn_new (the (WriteStringText [backslash, CHR ''n'']))" "[backslash, CHR ''n'']" "[]"]
    text_string_round_trip [of "TextIn_new (the (WriteStringText [CHR ''n'', newline, backslash]))" "[CHR ''n'', newline, backslash]" "[]"]
  by (simp add: TextIn_new_def ti_good_def)

end
