(* ===== verification/IpAddr.thy ===== *)
theory IpAddr
  imports Common
begin

text \<open>
  IP addresses (\<^verbatim>\<open>src/lib/IpAddr.h\<close>, \<^verbatim>\<open>src/lib/IpAddr.cc\<close>): a flag and the 16 bytes of the union, of which an IPv4
  address uses the first four, in network order.  \<open>inet_pton\<close> for the two families is an argument: it gives the
  bytes of the address, or nothing for a string that is none.  The machine is little endian.
\<close>

record ip_addr =
  ip4Addr :: bool
  ip_bytes :: "byte list"

type_synonym inet_pton = "string \<Rightarrow> byte list option"

definition IpAddr_new :: ip_addr where
  "IpAddr_new = \<lparr>ip4Addr = True, ip_bytes = replicate 16 0\<rparr>"

definition emptyIpAddr :: ip_addr where
  "emptyIpAddr = IpAddr_new"

definition IsEmpty :: "ip_addr \<Rightarrow> bool" where
  "IsEmpty a = (if ip4Addr a then list_all (\<lambda>b. b = 0) (take 4 (ip_bytes a)) else list_all (\<lambda>b. b = 0) (take 16 (ip_bytes a)))"

definition SetEmpty :: "ip_addr \<Rightarrow> ip_addr" where
  "SetEmpty a =
     (if ip4Addr a then a\<lparr>ip_bytes := replicate 4 0 @ drop 4 (ip_bytes a)\<rparr>
      else a\<lparr>ip_bytes := replicate 16 0 @ drop 16 (ip_bytes a)\<rparr>)"

text \<open>\<^verbatim>\<open>addr.ip4.s_addr\<close> as the machine reads it, \<open>ntohl\<close> and \<open>htonl\<close>.\<close>

fun s_addr :: "byte list \<Rightarrow> 32 word" where
  "s_addr (a # b # c # d # bs) = le_word a b c d"
| "s_addr _ = 0"

definition ntohl :: "32 word \<Rightarrow> 32 word" where
  "ntohl w = s_addr (rev (le_bytes w))"

definition set_s_addr :: "32 word \<Rightarrow> byte list \<Rightarrow> byte list" where
  "set_s_addr w bs = le_bytes w @ drop 4 bs"

definition GetIp4Addr :: "ip_addr \<Rightarrow> failure + 32 word" where
  "GetIp4Addr a = (if ip4Addr a then Inr (s_addr (ip_bytes a)) else Inl AssertFailed)"

text \<open>Half of an IPv6 address: a 64-bit word that is only stored and compared, so its eight bytes.\<close>

definition GetIp6Addr :: "bool \<Rightarrow> ip_addr \<Rightarrow> failure + byte list" where
  "GetIp6Addr first a = (if ip4Addr a then Inl AssertFailed else Inr (take 8 (drop (if first then 0 else 8) (ip_bytes a))))"

definition SetIp4Addr :: "32 word \<Rightarrow> ip_addr \<Rightarrow> ip_addr" where
  "SetIp4Addr w a = a\<lparr>ip4Addr := True, ip_bytes := set_s_addr w (ip_bytes a)\<rparr>"

definition SetIp6Addr :: "byte list \<Rightarrow> bool \<Rightarrow> ip_addr \<Rightarrow> ip_addr" where
  "SetIp6Addr half first a =
     a\<lparr>ip4Addr := False,
       ip_bytes := (if first then half @ drop 8 (ip_bytes a) else take 8 (ip_bytes a) @ half @ drop 16 (ip_bytes a))\<rparr>"

definition ParseIp4Addr :: "inet_pton \<Rightarrow> string \<Rightarrow> ip_addr \<Rightarrow> bool \<times> ip_addr" where
  "ParseIp4Addr pton4 s a =
     (let a1 = a\<lparr>ip4Addr := True\<rparr> in
      case pton4 s of
        None \<Rightarrow> (False, SetEmpty a1)
      | Some bs \<Rightarrow> (True, a1\<lparr>ip_bytes := bs @ drop 4 (ip_bytes a1)\<rparr>))"

definition ParseIp6Addr :: "inet_pton \<Rightarrow> string \<Rightarrow> ip_addr \<Rightarrow> bool \<times> ip_addr" where
  "ParseIp6Addr pton6 s a =
     (let a1 = a\<lparr>ip4Addr := False\<rparr> in
      case pton6 s of
        None \<Rightarrow> (False, SetEmpty a1)
      | Some bs \<Rightarrow> (True, a1\<lparr>ip_bytes := bs @ drop 16 (ip_bytes a1)\<rparr>))"

text \<open>The constructor from a string starts from uninitialised memory.\<close>

definition IpAddr_parse :: "inet_pton \<Rightarrow> inet_pton \<Rightarrow> ip_addr \<Rightarrow> bool \<Rightarrow> string \<Rightarrow> ip_addr" where
  "IpAddr_parse pton4 pton6 garbage ip4 s =
     snd (if ip4 then ParseIp4Addr pton4 s garbage else ParseIp6Addr pton6 s garbage)"

text \<open>The loop of \<^verbatim>\<open>ReverseIp6Addr\<close> swaps byte \<open>i\<close> and byte \<open>15 - i\<close>.\<close>

fun Reverse_loop :: "nat \<Rightarrow> nat \<Rightarrow> byte list \<Rightarrow> byte list" where
  "Reverse_loop i 0 bs = bs"
| "Reverse_loop i (Suc n) bs = Reverse_loop (i + 1) n (bs[15 - i := bs ! i, i := bs ! (15 - i)])"

definition ReverseIp6Addr :: "byte list \<Rightarrow> byte list" where
  "ReverseIp6Addr bs = Reverse_loop 0 8 bs"

definition prefix_mask :: "int \<Rightarrow> failure + 32 word" where
  "prefix_mask prefix = (if 0 \<le> 32 - prefix \<and> 32 - prefix < 32 then Inr (push_bit (nat (32 - prefix)) 0xffffffff) else Inl BadShift)"

text \<open>A negative byte index is an access outside of the array; the shift \<^verbatim>\<open>8-b\<close> is at most 15.\<close>

definition ApplyPrefix6 :: "int \<Rightarrow> byte list \<Rightarrow> failure + byte list" where
  "ApplyPrefix6 prefix bs =
     (let p = (if prefix = 0 then 128 else prefix); a = c_div p 8; b = c_mod p 8 in
      if a < 0 then Inl OutOfRange
      else
        let bs1 = (if a < 16 then bs[nat a := bs ! nat a AND push_bit (nat (8 - b)) 0xFF] else bs) in
        Inr (take (nat (a + 1)) bs1 @ replicate (16 - nat (a + 1)) 0))"

definition ApplyPrefix :: "int \<Rightarrow> ip_addr \<Rightarrow> failure + ip_addr" where
  "ApplyPrefix prefix a =
     (if ip4Addr a then
        bind_result (prefix_mask prefix) (\<lambda>mask.
          Inr (a\<lparr>ip_bytes := set_s_addr (ntohl (ntohl (s_addr (ip_bytes a)) AND mask)) (ip_bytes a)\<rparr>))
      else
        bind_result (ApplyPrefix6 prefix (ReverseIp6Addr (ip_bytes a))) (\<lambda>bs.
          Inr (a\<lparr>ip_bytes := ReverseIp6Addr bs\<rparr>)))"

definition Compare :: "ip_addr \<Rightarrow> ip_addr \<Rightarrow> int \<Rightarrow> failure + bool" where
  "Compare a other prefix =
     (if ip4Addr a then
        bind_result (prefix_mask prefix) (\<lambda>mask.
          bind_result (GetIp4Addr other) (\<lambda>o4. Inr ((ntohl (s_addr (ip_bytes a)) AND mask) = (ntohl o4 AND mask))))
      else
        bind_result (GetIp6Addr True other) (\<lambda>h1. bind_result (GetIp6Addr False other) (\<lambda>h2.
          Inr (ReverseIp6Addr (ip_bytes a) = ReverseIp6Addr (h1 @ h2)))))"

definition Match_prefix :: "inet_pton \<Rightarrow> inet_pton \<Rightarrow> ip_addr \<Rightarrow> string \<Rightarrow> int \<Rightarrow> ip_addr \<Rightarrow> failure + bool" where
  "Match_prefix pton4 pton6 garbage addr prefix a =
     Compare a (IpAddr_parse pton4 pton6 garbage (ip4Addr a) addr) prefix"

definition Match :: "inet_pton \<Rightarrow> inet_pton \<Rightarrow> ip_addr \<Rightarrow> string \<Rightarrow> ip_addr \<Rightarrow> failure + bool" where
  "Match pton4 pton6 garbage addr a =
     (let slash = length (takeWhile (\<lambda>c. c \<noteq> CHR ''/'') addr) in
      if slash = length addr \<or> slash < 1 then Match_prefix pton4 pton6 garbage addr (if ip4Addr a then 32 else 128) a
      else
        (case str2int (drop (slash + 1) addr) of
           None \<Rightarrow> Inl Overflow
         | Some prefix \<Rightarrow> Match_prefix pton4 pton6 garbage (take slash addr) prefix a))"

section \<open>IPv4 prefixes\<close>

text \<open>The address as a number, the first byte highest.\<close>

definition host4 :: "ip_addr \<Rightarrow> 32 word" where
  "host4 a = ntohl (s_addr (ip_bytes a))"

lemma ntohl_ntohl [simp]: "ntohl (ntohl w) = w"
proof -
  have "ntohl w = le_word (ucast (drop_bit 24 w)) (ucast (drop_bit 16 w)) (ucast (drop_bit 8 w)) (ucast w)" for w
    by (simp add: ntohl_def le_bytes_def)
  then have e: "ntohl w = le_word (ucast (drop_bit 24 w)) (ucast (drop_bit 16 w)) (ucast (drop_bit 8 w)) (ucast w)" .
  have "ntohl (ntohl w) = s_addr (rev (le_bytes (ntohl w)))" by (rule ntohl_def)
  then show ?thesis unfolding e by (simp add: le_bytes_le_word le_word_bytes)
qed

lemma s_addr_set [simp]: "s_addr (set_s_addr w bs) = w"
  by (simp add: set_s_addr_def le_bytes_def le_word_bytes)

lemma and_high_mask:
  fixes v :: "32 word"
  assumes "k < 32"
  shows "v AND push_bit k 0xffffffff = push_bit k (drop_bit k v)"
proof -
  have m: "(0xffffffff :: 32 word) = mask 32" by (simp add: mask_eq_exp_minus_1)
  show ?thesis unfolding m by (intro bit_word_eqI) (auto simp: bit_simps)
qed

lemma high_bits_eq:
  fixes v w :: "32 word"
  shows "push_bit k (drop_bit k v) = push_bit k (drop_bit k w) \<longleftrightarrow> drop_bit k v = drop_bit k w"
proof
  assume e: "push_bit k (drop_bit k v) = push_bit k (drop_bit k w)"
  have "drop_bit k (push_bit k (drop_bit k x)) = drop_bit k x" for x :: "32 word"
    by (rule bit_word_eqI) (auto simp: bit_simps dest: bit_imp_le_length)
  then show "drop_bit k v = drop_bit k w" using e by metis
qed simp

lemma prefix_mask_ok:
  "1 \<le> p \<Longrightarrow> p \<le> 32 \<Longrightarrow> prefix_mask p = Inr (push_bit (nat (32 - p)) 0xffffffff)"
  by (simp add: prefix_mask_def)

text \<open>
  For IPv4 addresses and prefixes from 1 to 32, \<open>ApplyPrefix\<close> keeps exactly the leading bits of the prefix and
  clears the others, and \<open>Compare\<close> (so \<open>Match\<close>) answers whether the leading bits agree, that is, whether both
  addresses are the same after \<open>ApplyPrefix\<close>; the prefix 0 shifts by the whole width, which is undefined.
\<close>
theorem ip4_prefix:
  assumes "ip4Addr a" "ip4Addr b" "1 \<le> p" "p \<le> 32"
  shows "Compare a b p = Inr (drop_bit (nat (32 - p)) (host4 a) = drop_bit (nat (32 - p)) (host4 b)) \<and>
    map_sum id host4 (ApplyPrefix p a) = Inr (push_bit (nat (32 - p)) (drop_bit (nat (32 - p)) (host4 a))) \<and>
    ApplyPrefix 0 a = Inl BadShift \<and> Compare a b 0 = Inl BadShift"
proof (intro conjI)
  have k: "nat (32 - p) < 32" using assms(3) by simp
  show "Compare a b p = Inr (drop_bit (nat (32 - p)) (host4 a) = drop_bit (nat (32 - p)) (host4 b))"
    using assms by (simp add: Compare_def prefix_mask_ok GetIp4Addr_def host4_def and_high_mask [OF k] high_bits_eq)
  show "map_sum id host4 (ApplyPrefix p a) = Inr (push_bit (nat (32 - p)) (drop_bit (nat (32 - p)) (host4 a)))"
    using assms by (simp add: ApplyPrefix_def prefix_mask_ok host4_def and_high_mask [OF k])
  show "ApplyPrefix 0 a = Inl BadShift" "Compare a b 0 = Inl BadShift"
    using assms by (simp_all add: ApplyPrefix_def Compare_def prefix_mask_def)
qed

definition sample_ip :: "byte list \<Rightarrow> ip_addr" where
  "sample_ip bs = \<lparr>ip4Addr = True, ip_bytes = bs @ replicate 12 0\<rparr>"

theorem ip4_prefix_witness:
  "Compare (sample_ip [10, 1, 2, 3]) (sample_ip [10, 1, 99, 4]) 16 = Inr True"
proof -
  have "host4 (sample_ip [10, 1, 2, 3]) = 0x0A010203" "host4 (sample_ip [10, 1, 99, 4]) = 0x0A016304"
    by (simp_all add: host4_def sample_ip_def ntohl_def le_bytes_le_word) (simp_all add: le_word_def)
  then show ?thesis
    using ip4_prefix [of "sample_ip [10, 1, 2, 3]" "sample_ip [10, 1, 99, 4]" 16]
    by (simp add: sample_ip_def)
qed

section \<open>IPv6 prefixes\<close>

lemma Reverse_rev: "length bs = 16 \<Longrightarrow> ReverseIp6Addr bs = rev bs"
proof -
  assume "length bs = 16"
  then obtain b0 b1 b2 b3 b4 b5 b6 b7 b8 b9 b10 b11 b12 b13 b14 b15 where
    "bs = [b0, b1, b2, b3, b4, b5, b6, b7, b8, b9, b10, b11, b12, b13, b14, b15]"
    by (auto simp: length_Suc_conv eval_nat_numeral)
  then show ?thesis by (simp add: ReverseIp6Addr_def eval_nat_numeral)
qed

text \<open>
  For an IPv6 address a prefix of \<open>8 * n\<close> bits (\<open>0 < n < 16\<close>) keeps the last \<open>n\<close> bytes, the end of the host part,
  and clears the first \<open>16 - n\<close>, the network; and \<open>Compare\<close> ignores its prefix: it answers whether all 16
  bytes agree.
\<close>
theorem ip6_prefix_wrong_end:
  assumes "\<not> ip4Addr a" "\<not> ip4Addr b" "length (ip_bytes a) = 16" "length (ip_bytes b) = 16" "0 < n" "n < 16"
  shows "ApplyPrefix (8 * int n) a = Inr (a\<lparr>ip_bytes := replicate (16 - n) 0 @ drop (16 - n) (ip_bytes a)\<rparr>) \<and>
    Compare a b p = Inr (ip_bytes a = ip_bytes b)"
proof (intro conjI)
  let ?bs = "rev (ip_bytes a)"
  have e: "(65280 :: byte) = 0" by simp
  have "c_div (8 * int n) 8 = int n" "c_mod (8 * int n) 8 = 0" using assms(5) by (auto simp: c_div_def c_mod_def abs_mult)
  then have "ApplyPrefix6 (8 * int n) ?bs = Inr (take (n + 1) (?bs[n := 0]) @ replicate (16 - (n + 1)) 0)"
    using assms by (simp add: ApplyPrefix6_def Let_def e nat_add_distrib)
  also have "take (n + 1) (?bs[n := 0]) @ replicate (16 - (n + 1)) 0 = take n ?bs @ replicate (16 - n) 0"
    using assms by (simp add: take_Suc_conv_app_nth flip: replicate_Suc)
  finally have "ApplyPrefix6 (8 * int n) ?bs = Inr (take n ?bs @ replicate (16 - n) 0)" .
  then show "ApplyPrefix (8 * int n) a = Inr (a\<lparr>ip_bytes := replicate (16 - n) 0 @ drop (16 - n) (ip_bytes a)\<rparr>)"
    using assms by (simp add: ApplyPrefix_def Reverse_rev take_rev)
  have "take 8 (ip_bytes b) @ take 8 (drop 8 (ip_bytes b)) = ip_bytes b" using assms(4) by simp
  then show "Compare a b p = Inr (ip_bytes a = ip_bytes b)"
    using assms by (simp add: Compare_def GetIp6Addr_def Reverse_rev)
qed

theorem ip6_prefix_wrong_end_witness:
  "ApplyPrefix 64 \<lparr>ip4Addr = False, ip_bytes = [0x20, 1, 0xd, 0xb8, 0, 0, 0, 1, 0, 0, 0, 0, 0, 0, 0, 5]\<rparr> =
   Inr \<lparr>ip4Addr = False, ip_bytes = [0, 0, 0, 0, 0, 0, 0, 0, 0, 0, 0, 0, 0, 0, 0, 5]\<rparr>"
  using ip6_prefix_wrong_end [of "\<lparr>ip4Addr = False, ip_bytes = [0x20, 1, 0xd, 0xb8, 0, 0, 0, 1, 0, 0, 0, 0, 0, 0, 0, 5]\<rparr>"
    "\<lparr>ip4Addr = False, ip_bytes = replicate 16 0\<rparr>" 8]
  by (simp add: eval_nat_numeral)

end
