(* ===== verification/Attributes.thy ===== *)
theory Attributes
  imports Resources IpAddr
begin

text \<open>
  Attributes of resources (\<^verbatim>\<open>ResourceAttrInfo.h\<close>, \<^verbatim>\<open>ResourceAttrInfoT.h\<close>, \<^verbatim>\<open>ResourceAttrInfoP.h\<close> and the accessors of
  \<^verbatim>\<open>Resource.h\<close>, under \<^verbatim>\<open>src/lib/processing_engine\<close>): a descriptor holds pointers to the member functions of the
  resource class, in unions with one member for each of the seven element types and the three shapes (scalar, array,
  hash).  The source writes every accessor 21 times; here it is one definition with the shape and the element type as
  arguments, and the union records through which member it was written.  A pointer the constructor and the \<open>Init\<close>
  function leave alone is \<open>Unset\<close>.
\<close>

section \<open>Types and values\<close>

datatype field_type =
    UNKNOWN | INT32 | UINT32 | INT64 | UINT64 | DOUBLE | STRING | IP
  | ARRAY_INT32 | ARRAY_UINT32 | ARRAY_INT64 | ARRAY_UINT64 | ARRAY_DOUBLE | ARRAY_STRING | ARRAY_IP
  | HASH_INT32 | HASH_UINT32 | HASH_INT64 | HASH_UINT64 | HASH_DOUBLE | HASH_STRING | HASH_IP

datatype elem = Int32 | UInt32 | Int64 | UInt64 | Double | String | IpAddress

datatype shape = Scalar | Array | Hash

text \<open>A value; a double is its 64 bits.\<close>

datatype attr_value =
    VInt32 int | VUInt32 int | VInt64 int | VUInt64 int | VDouble "64 word" | VString string | VIp ip_addr

datatype attr_index = NoIndex | At int | Key string

fun elem_of :: "attr_value \<Rightarrow> elem" where
  "elem_of (VInt32 _) = Int32"
| "elem_of (VUInt32 _) = UInt32"
| "elem_of (VInt64 _) = Int64"
| "elem_of (VUInt64 _) = UInt64"
| "elem_of (VDouble _) = Double"
| "elem_of (VString _) = String"
| "elem_of (VIp _) = IpAddress"

text \<open>What a getter without a member function returns: \<open>-1\<close> converted to the type, or the empty value.\<close>

fun default_value :: "elem \<Rightarrow> attr_value" where
  "default_value Int32 = VInt32 (- 1)"
| "default_value UInt32 = VUInt32 (2 ^ 32 - 1)"
| "default_value Int64 = VInt64 (- 1)"
| "default_value UInt64 = VUInt64 (2 ^ 64 - 1)"
| "default_value Double = VDouble 0xBFF0000000000000"
| "default_value String = VString []"
| "default_value IpAddress = VIp emptyIpAddr"

section \<open>Descriptors of native resources\<close>

datatype 'f pointer = Unset | Null | Ptr 'f

record 'd attr_info =
  ai_type :: field_type
  ai_typeId :: int
  ai_name :: string
  get_u :: "(shape \<times> elem \<times> ('d resource \<Rightarrow> attr_index \<Rightarrow> attr_value)) pointer"
  set_u :: "(shape \<times> elem \<times> ('d resource \<Rightarrow> attr_index \<Rightarrow> attr_value \<Rightarrow> 'd resource)) pointer"
  clear_all :: "('d resource \<Rightarrow> 'd resource) pointer"
  count_fn :: "('d resource \<Rightarrow> int) pointer"
  get_hash_keys :: "('d resource \<Rightarrow> string list) pointer"
  get_all_values_u :: "(elem \<times> ('d resource \<Rightarrow> attr_value list)) pointer"
  delete_hash_item :: "('d resource \<Rightarrow> string \<Rightarrow> 'd resource) pointer"

definition AttrInfo_new :: "int \<Rightarrow> 'd attr_info" where
  "AttrInfo_new typeId = \<lparr>ai_type = UNKNOWN, ai_typeId = typeId, ai_name = [], get_u = Unset, set_u = Unset,
     clear_all = Unset, count_fn = Unset, get_hash_keys = Unset, get_all_values_u = Unset, delete_hash_item = Unset\<rparr>"

text \<open>The assertion every accessor starts with.\<close>

definition assert_type :: "'d attr_info \<Rightarrow> 'd resource \<Rightarrow> (failure + 'r) \<Rightarrow> failure + 'r" where
  "assert_type ai r k = (if r_type r = ai_typeId ai then k else Inl AssertFailed)"

text \<open>A call through a pointer with a value for the null pointer.\<close>

fun call_or :: "'r \<Rightarrow> 'f pointer \<Rightarrow> ('f \<Rightarrow> 'r) \<Rightarrow> failure + 'r" where
  "call_or dflt Unset k = Inl Uninitialised"
| "call_or dflt Null k = Inr dflt"
| "call_or dflt (Ptr f) k = Inr (k f)"

definition AttrGet :: "shape \<Rightarrow> elem \<Rightarrow> 'd attr_info \<Rightarrow> 'd resource \<Rightarrow> attr_index \<Rightarrow> failure + attr_value" where
  "AttrGet sh el ai r i = assert_type ai r
     (case get_u ai of
        Unset \<Rightarrow> Inl Uninitialised
      | Null \<Rightarrow> Inr (default_value el)
      | Ptr (sh', el', f) \<Rightarrow> if sh' = sh \<and> el' = el then Inr (f r i) else Inl WrongMember)"

definition AttrSet :: "shape \<Rightarrow> elem \<Rightarrow> 'd attr_info \<Rightarrow> 'd resource \<Rightarrow> attr_index \<Rightarrow> attr_value \<Rightarrow> failure + 'd resource" where
  "AttrSet sh el ai r i v = assert_type ai r
     (case set_u ai of
        Unset \<Rightarrow> Inl Uninitialised
      | Null \<Rightarrow> Inr r
      | Ptr (sh', el', f) \<Rightarrow> if sh' = sh \<and> el' = el then Inr (f r i v) else Inl WrongMember)"

definition AttrClear :: "'d attr_info \<Rightarrow> 'd resource \<Rightarrow> failure + 'd resource" where
  "AttrClear ai r = assert_type ai r (call_or r (clear_all ai) (\<lambda>f. f r))"

definition AttrDeleteHashItem :: "'d attr_info \<Rightarrow> 'd resource \<Rightarrow> string \<Rightarrow> failure + 'd resource" where
  "AttrDeleteHashItem ai r name = assert_type ai r (call_or r (delete_hash_item ai) (\<lambda>f. f r name))"

definition AttrGetCount :: "'d attr_info \<Rightarrow> 'd resource \<Rightarrow> failure + int" where
  "AttrGetCount ai r = assert_type ai r (call_or 0 (count_fn ai) (\<lambda>f. f r))"

definition AttrGetKeys :: "'d attr_info \<Rightarrow> 'd resource \<Rightarrow> failure + string list" where
  "AttrGetKeys ai r = assert_type ai r
     (if ai_type ai \<in> {HASH_STRING, HASH_INT32, HASH_UINT32, HASH_INT64, HASH_UINT64, HASH_IP}
      then call_or [] (get_hash_keys ai) (\<lambda>f. f r) else Inl AssertFailed)"

text \<open>The types \<open>GetValues\<close> of an element type accepts; the one for doubles asserts the types of 64-bit integers.\<close>

fun values_types :: "elem \<Rightarrow> field_type set" where
  "values_types Int32 = {HASH_INT32, ARRAY_INT32}"
| "values_types UInt32 = {HASH_UINT32, ARRAY_UINT32}"
| "values_types Int64 = {HASH_INT64, ARRAY_INT64}"
| "values_types UInt64 = {HASH_UINT64, ARRAY_UINT64}"
| "values_types Double = {HASH_UINT64, ARRAY_UINT64}"
| "values_types String = {HASH_STRING, ARRAY_STRING}"
| "values_types IpAddress = {HASH_IP, ARRAY_IP}"

definition AttrGetValues :: "elem \<Rightarrow> 'd attr_info \<Rightarrow> 'd resource \<Rightarrow> failure + attr_value list" where
  "AttrGetValues el ai r = assert_type ai r
     (if ai_type ai \<in> values_types el
      then (case get_all_values_u ai of
              Unset \<Rightarrow> Inl Uninitialised
            | Null \<Rightarrow> Inr []
            | Ptr (el', f) \<Rightarrow> if el' = el then Inr (f r) else Inl WrongMember)
      else Inl AssertFailed)"

text \<open>The type the \<open>Init\<close> functions record: those for doubles record the type of an unsigned 64-bit integer.\<close>

fun init_type :: "shape \<Rightarrow> elem \<Rightarrow> field_type" where
  "init_type Scalar Int32 = INT32"
| "init_type Scalar UInt32 = UINT32"
| "init_type Scalar Int64 = INT64"
| "init_type Scalar UInt64 = UINT64"
| "init_type Scalar Double = UINT64"
| "init_type Scalar String = STRING"
| "init_type Scalar IpAddress = IP"
| "init_type Array Int32 = ARRAY_INT32"
| "init_type Array UInt32 = ARRAY_UINT32"
| "init_type Array Int64 = ARRAY_INT64"
| "init_type Array UInt64 = ARRAY_UINT64"
| "init_type Array Double = ARRAY_UINT64"
| "init_type Array String = ARRAY_STRING"
| "init_type Array IpAddress = ARRAY_IP"
| "init_type Hash Int32 = HASH_INT32"
| "init_type Hash UInt32 = HASH_UINT32"
| "init_type Hash Int64 = HASH_INT64"
| "init_type Hash UInt64 = HASH_UINT64"
| "init_type Hash Double = HASH_UINT64"
| "init_type Hash String = HASH_STRING"
| "init_type Hash IpAddress = HASH_IP"

definition tagged :: "'t \<Rightarrow> 'f pointer \<Rightarrow> ('t \<times> 'f) pointer" where
  "tagged t p = (case p of Unset \<Rightarrow> Unset | Null \<Rightarrow> Null | Ptr f \<Rightarrow> Ptr (t, f))"

definition tagged2 :: "'t \<Rightarrow> 'u \<Rightarrow> 'f pointer \<Rightarrow> ('t \<times> 'u \<times> 'f) pointer" where
  "tagged2 t u p = (case p of Unset \<Rightarrow> Unset | Null \<Rightarrow> Null | Ptr f \<Rightarrow> Ptr (t, u, f))"

definition InitScalar ::
  "elem \<Rightarrow> string \<Rightarrow> ('d resource \<Rightarrow> attr_index \<Rightarrow> attr_value) pointer
     \<Rightarrow> ('d resource \<Rightarrow> attr_index \<Rightarrow> attr_value \<Rightarrow> 'd resource) pointer \<Rightarrow> 'd attr_info \<Rightarrow> 'd attr_info" where
  "InitScalar el name getf setf ai =
     ai\<lparr>ai_type := init_type Scalar el, ai_name := name, get_u := tagged2 Scalar el getf, set_u := tagged2 Scalar el setf\<rparr>"

definition InitArray ::
  "elem \<Rightarrow> string \<Rightarrow> ('d resource \<Rightarrow> attr_index \<Rightarrow> attr_value) pointer
     \<Rightarrow> ('d resource \<Rightarrow> attr_index \<Rightarrow> attr_value \<Rightarrow> 'd resource) pointer
     \<Rightarrow> ('d resource \<Rightarrow> 'd resource) pointer \<Rightarrow> ('d resource \<Rightarrow> int) pointer \<Rightarrow> 'd attr_info \<Rightarrow> 'd attr_info" where
  "InitArray el name getf setf clear cnt ai =
     ai\<lparr>ai_type := init_type Array el, ai_name := name, get_u := tagged2 Array el getf, set_u := tagged2 Array el setf,
        clear_all := clear, count_fn := cnt\<rparr>"

definition InitHash ::
  "elem \<Rightarrow> string \<Rightarrow> ('d resource \<Rightarrow> attr_index \<Rightarrow> attr_value) pointer
     \<Rightarrow> ('d resource \<Rightarrow> attr_index \<Rightarrow> attr_value \<Rightarrow> 'd resource) pointer
     \<Rightarrow> ('d resource \<Rightarrow> 'd resource) pointer \<Rightarrow> ('d resource \<Rightarrow> string \<Rightarrow> 'd resource) pointer
     \<Rightarrow> ('d resource \<Rightarrow> int) pointer \<Rightarrow> ('d resource \<Rightarrow> string list) pointer
     \<Rightarrow> ('d resource \<Rightarrow> attr_value list) pointer \<Rightarrow> 'd attr_info \<Rightarrow> 'd attr_info" where
  "InitHash el name getf setf clear deleteItem cnt keys vals ai =
     ai\<lparr>ai_type := init_type Hash el, ai_name := name, get_u := tagged2 Hash el getf, set_u := tagged2 Hash el setf,
        clear_all := clear, delete_hash_item := deleteItem, count_fn := cnt, get_hash_keys := keys,
        get_all_values_u := tagged el vals\<rparr>"

section \<open>Descriptors of Perl resources\<close>

text \<open>
  \<^verbatim>\<open>ResourceAttrInfoP\<close> is the same class for resources whose member functions take the name of the attribute as
  their first argument; the accessors pass \<^verbatim>\<open>GetName()\<close>.  In its \<open>GetKeys\<close> two disjuncts of the assertion are constants,
  so that it never fails.
\<close>

record 'd attr_infoP =
  p_type :: field_type
  p_typeId :: int
  p_name :: string
  p_get_u :: "(shape \<times> elem \<times> (string \<Rightarrow> 'd resource \<Rightarrow> attr_index \<Rightarrow> attr_value)) pointer"
  p_set_u :: "(shape \<times> elem \<times> (string \<Rightarrow> 'd resource \<Rightarrow> attr_index \<Rightarrow> attr_value \<Rightarrow> 'd resource)) pointer"
  p_clear_all :: "(string \<Rightarrow> 'd resource \<Rightarrow> 'd resource) pointer"
  p_count_fn :: "(string \<Rightarrow> 'd resource \<Rightarrow> int) pointer"
  p_get_hash_keys :: "(string \<Rightarrow> 'd resource \<Rightarrow> string list) pointer"
  p_get_all_values_u :: "(elem \<times> (string \<Rightarrow> 'd resource \<Rightarrow> attr_value list)) pointer"
  p_delete_hash_item :: "(string \<Rightarrow> 'd resource \<Rightarrow> string \<Rightarrow> 'd resource) pointer"

definition assert_typeP :: "'d attr_infoP \<Rightarrow> 'd resource \<Rightarrow> (failure + 'r) \<Rightarrow> failure + 'r" where
  "assert_typeP ai r k = (if r_type r = p_typeId ai then k else Inl AssertFailed)"

definition AttrGetP :: "shape \<Rightarrow> elem \<Rightarrow> 'd attr_infoP \<Rightarrow> 'd resource \<Rightarrow> attr_index \<Rightarrow> failure + attr_value" where
  "AttrGetP sh el ai r i = assert_typeP ai r
     (case p_get_u ai of
        Unset \<Rightarrow> Inl Uninitialised
      | Null \<Rightarrow> Inr (default_value el)
      | Ptr (sh', el', f) \<Rightarrow> if sh' = sh \<and> el' = el then Inr (f (p_name ai) r i) else Inl WrongMember)"

definition AttrSetP :: "shape \<Rightarrow> elem \<Rightarrow> 'd attr_infoP \<Rightarrow> 'd resource \<Rightarrow> attr_index \<Rightarrow> attr_value \<Rightarrow> failure + 'd resource" where
  "AttrSetP sh el ai r i v = assert_typeP ai r
     (case p_set_u ai of
        Unset \<Rightarrow> Inl Uninitialised
      | Null \<Rightarrow> Inr r
      | Ptr (sh', el', f) \<Rightarrow> if sh' = sh \<and> el' = el then Inr (f (p_name ai) r i v) else Inl WrongMember)"

definition AttrClearP :: "'d attr_infoP \<Rightarrow> 'd resource \<Rightarrow> failure + 'd resource" where
  "AttrClearP ai r = assert_typeP ai r (call_or r (p_clear_all ai) (\<lambda>f. f (p_name ai) r))"

definition AttrDeleteHashItemP :: "'d attr_infoP \<Rightarrow> 'd resource \<Rightarrow> string \<Rightarrow> failure + 'd resource" where
  "AttrDeleteHashItemP ai r name = assert_typeP ai r (call_or r (p_delete_hash_item ai) (\<lambda>f. f (p_name ai) r name))"

definition AttrGetCountP :: "'d attr_infoP \<Rightarrow> 'd resource \<Rightarrow> failure + int" where
  "AttrGetCountP ai r = assert_typeP ai r (call_or 0 (p_count_fn ai) (\<lambda>f. f (p_name ai) r))"

definition AttrGetKeysP :: "'d attr_infoP \<Rightarrow> 'd resource \<Rightarrow> failure + string list" where
  "AttrGetKeysP ai r = assert_typeP ai r
     (if p_type ai = HASH_INT32 \<or> p_type ai = HASH_UINT32 \<or> True \<or> True \<or> p_type ai = HASH_STRING \<or> p_type ai = HASH_IP
      then call_or [] (p_get_hash_keys ai) (\<lambda>f. f (p_name ai) r) else Inl AssertFailed)"

definition AttrGetValuesP :: "elem \<Rightarrow> 'd attr_infoP \<Rightarrow> 'd resource \<Rightarrow> failure + attr_value list" where
  "AttrGetValuesP el ai r = assert_typeP ai r
     (if p_type ai \<in> values_types el
      then (case p_get_all_values_u ai of
              Unset \<Rightarrow> Inl Uninitialised
            | Null \<Rightarrow> Inr []
            | Ptr (el', f) \<Rightarrow> if el' = el then Inr (f (p_name ai) r) else Inl WrongMember)
      else Inl AssertFailed)"

definition InitScalarP ::
  "elem \<Rightarrow> string \<Rightarrow> (string \<Rightarrow> 'd resource \<Rightarrow> attr_index \<Rightarrow> attr_value) pointer
     \<Rightarrow> (string \<Rightarrow> 'd resource \<Rightarrow> attr_index \<Rightarrow> attr_value \<Rightarrow> 'd resource) pointer \<Rightarrow> 'd attr_infoP \<Rightarrow> 'd attr_infoP" where
  "InitScalarP el name getf setf ai =
     ai\<lparr>p_type := init_type Scalar el, p_name := name, p_get_u := tagged2 Scalar el getf, p_set_u := tagged2 Scalar el setf\<rparr>"

definition InitArrayP ::
  "elem \<Rightarrow> string \<Rightarrow> (string \<Rightarrow> 'd resource \<Rightarrow> attr_index \<Rightarrow> attr_value) pointer
     \<Rightarrow> (string \<Rightarrow> 'd resource \<Rightarrow> attr_index \<Rightarrow> attr_value \<Rightarrow> 'd resource) pointer
     \<Rightarrow> (string \<Rightarrow> 'd resource \<Rightarrow> 'd resource) pointer \<Rightarrow> (string \<Rightarrow> 'd resource \<Rightarrow> int) pointer
     \<Rightarrow> 'd attr_infoP \<Rightarrow> 'd attr_infoP" where
  "InitArrayP el name getf setf clear cnt ai =
     ai\<lparr>p_type := init_type Array el, p_name := name, p_get_u := tagged2 Array el getf, p_set_u := tagged2 Array el setf,
        p_clear_all := clear, p_count_fn := cnt\<rparr>"

definition InitHashP ::
  "elem \<Rightarrow> string \<Rightarrow> (string \<Rightarrow> 'd resource \<Rightarrow> attr_index \<Rightarrow> attr_value) pointer
     \<Rightarrow> (string \<Rightarrow> 'd resource \<Rightarrow> attr_index \<Rightarrow> attr_value \<Rightarrow> 'd resource) pointer
     \<Rightarrow> (string \<Rightarrow> 'd resource \<Rightarrow> 'd resource) pointer \<Rightarrow> (string \<Rightarrow> 'd resource \<Rightarrow> string \<Rightarrow> 'd resource) pointer
     \<Rightarrow> (string \<Rightarrow> 'd resource \<Rightarrow> int) pointer \<Rightarrow> (string \<Rightarrow> 'd resource \<Rightarrow> string list) pointer
     \<Rightarrow> (string \<Rightarrow> 'd resource \<Rightarrow> attr_value list) pointer \<Rightarrow> 'd attr_infoP \<Rightarrow> 'd attr_infoP" where
  "InitHashP el name getf setf clear deleteItem cnt keys vals ai =
     ai\<lparr>p_type := init_type Hash el, p_name := name, p_get_u := tagged2 Hash el getf, p_set_u := tagged2 Hash el setf,
        p_clear_all := clear, p_delete_hash_item := deleteItem, p_count_fn := cnt, p_get_hash_keys := keys,
        p_get_all_values_u := tagged el vals\<rparr>"

section \<open>The accessors of a resource\<close>

text \<open>
  The registry keeps for every loaded type a map from names to descriptors, filled from the list the type provides.
  The accessors exist for a name and for a descriptor: two overloads of one function.
\<close>

type_synonym 'd attr_maps = "int \<rightharpoonup> (string \<rightharpoonup> 'd attr_info)"

definition fill_attrMap :: "'d attr_info list \<Rightarrow> string \<rightharpoonup> 'd attr_info" where
  "fill_attrMap ais = fold (\<lambda>ai m. m(ai_name ai \<mapsto> ai)) ais Map.empty"

definition GetAttrInfo :: "'d attr_maps \<Rightarrow> int \<Rightarrow> string \<Rightarrow> 'd attr_info option" where
  "GetAttrInfo maps typeId name = (case maps typeId of None \<Rightarrow> None | Some m \<Rightarrow> m name)"

datatype 'd attr_ref = ByName string | ByInfo "'d attr_info"

fun attr_lookup :: "'d attr_maps \<Rightarrow> 'd attr_ref \<Rightarrow> 'd resource \<Rightarrow> 'd attr_info option" where
  "attr_lookup maps (ByName n) r = GetAttrInfo maps (r_type r) n"
| "attr_lookup maps (ByInfo ai) r = Some ai"

text \<open>Of the getters only the one for a scalar string checks that the descriptor was found.\<close>

definition GetAttr :: "elem \<Rightarrow> 'd attr_maps \<Rightarrow> 'd attr_ref \<Rightarrow> 'd resource \<Rightarrow> failure + attr_value" where
  "GetAttr el maps n r =
     (case attr_lookup maps n r of
        None \<Rightarrow> if el = String then Inr (VString []) else Inl NullDeref
      | Some ai \<Rightarrow> AttrGet Scalar el ai r NoIndex)"

definition GetAttrArray :: "elem \<Rightarrow> 'd attr_maps \<Rightarrow> 'd attr_ref \<Rightarrow> 'd resource \<Rightarrow> int \<Rightarrow> failure + attr_value" where
  "GetAttrArray el maps n r i =
     (case attr_lookup maps n r of None \<Rightarrow> Inl NullDeref | Some ai \<Rightarrow> AttrGet Array el ai r (At i))"

definition GetAttrHash :: "elem \<Rightarrow> 'd attr_maps \<Rightarrow> 'd attr_ref \<Rightarrow> 'd resource \<Rightarrow> string \<Rightarrow> failure + attr_value" where
  "GetAttrHash el maps n r k =
     (case attr_lookup maps n r of None \<Rightarrow> Inl NullDeref | Some ai \<Rightarrow> AttrGet Hash el ai r (Key k))"

definition SetAttr :: "elem \<Rightarrow> 'd attr_maps \<Rightarrow> 'd attr_ref \<Rightarrow> 'd resource \<Rightarrow> attr_value \<Rightarrow> failure + 'd resource" where
  "SetAttr el maps n r v =
     (case attr_lookup maps n r of None \<Rightarrow> Inr r | Some ai \<Rightarrow> AttrSet Scalar el ai r NoIndex v)"

definition SetAttrArray :: "elem \<Rightarrow> 'd attr_maps \<Rightarrow> 'd attr_ref \<Rightarrow> 'd resource \<Rightarrow> int \<Rightarrow> attr_value \<Rightarrow> failure + 'd resource" where
  "SetAttrArray el maps n r i v =
     (case attr_lookup maps n r of None \<Rightarrow> Inr r | Some ai \<Rightarrow> AttrSet Array el ai r (At i) v)"

definition SetAttrHash :: "elem \<Rightarrow> 'd attr_maps \<Rightarrow> 'd attr_ref \<Rightarrow> 'd resource \<Rightarrow> string \<Rightarrow> attr_value \<Rightarrow> failure + 'd resource" where
  "SetAttrHash el maps n r k v =
     (case attr_lookup maps n r of None \<Rightarrow> Inr r | Some ai \<Rightarrow> AttrSet Hash el ai r (Key k) v)"

definition ClearAttr :: "'d attr_maps \<Rightarrow> 'd attr_ref \<Rightarrow> 'd resource \<Rightarrow> failure + 'd resource" where
  "ClearAttr maps n r = (case attr_lookup maps n r of None \<Rightarrow> Inr r | Some ai \<Rightarrow> AttrClear ai r)"

text \<open>\<open>DeleteHashItem\<close> by name hands on the name of the attribute, not the index.\<close>

fun DeleteHashItem :: "'d attr_maps \<Rightarrow> 'd attr_ref \<Rightarrow> 'd resource \<Rightarrow> string \<Rightarrow> failure + 'd resource" where
  "DeleteHashItem maps (ByInfo ai) r name = AttrDeleteHashItem ai r name"
| "DeleteHashItem maps (ByName n) r index =
     (case GetAttrInfo maps (r_type r) n of None \<Rightarrow> Inr r | Some ai \<Rightarrow> AttrDeleteHashItem ai r n)"

definition GetCount :: "'d attr_maps \<Rightarrow> 'd attr_ref \<Rightarrow> 'd resource \<Rightarrow> failure + int" where
  "GetCount maps n r = (case attr_lookup maps n r of None \<Rightarrow> Inr (- 1) | Some ai \<Rightarrow> AttrGetCount ai r)"

definition GetKeys :: "'d attr_maps \<Rightarrow> 'd attr_ref \<Rightarrow> 'd resource \<Rightarrow> failure + string list option" where
  "GetKeys maps n r = (case attr_lookup maps n r of None \<Rightarrow> Inr None | Some ai \<Rightarrow> map_sum id Some (AttrGetKeys ai r))"

definition GetValues :: "elem \<Rightarrow> 'd attr_maps \<Rightarrow> 'd attr_ref \<Rightarrow> 'd resource \<Rightarrow> failure + attr_value list option" where
  "GetValues el maps n r =
     (case attr_lookup maps n r of None \<Rightarrow> Inr None | Some ai \<Rightarrow> map_sum id Some (AttrGetValues el ai r))"

section \<open>A Perl descriptor is a native one with the name filled in\<close>

definition bind_name :: "'d attr_infoP \<Rightarrow> 'd attr_info" where
  "bind_name p = \<lparr>ai_type = p_type p, ai_typeId = p_typeId p, ai_name = p_name p,
     get_u = map_pointer (\<lambda>(sh, el, f). (sh, el, f (p_name p))) (p_get_u p),
     set_u = map_pointer (\<lambda>(sh, el, f). (sh, el, f (p_name p))) (p_set_u p),
     clear_all = map_pointer (\<lambda>f. f (p_name p)) (p_clear_all p),
     count_fn = map_pointer (\<lambda>f. f (p_name p)) (p_count_fn p),
     get_hash_keys = map_pointer (\<lambda>f. f (p_name p)) (p_get_hash_keys p),
     get_all_values_u = map_pointer (\<lambda>(el, f). (el, f (p_name p))) (p_get_all_values_u p),
     delete_hash_item = map_pointer (\<lambda>f. f (p_name p)) (p_delete_hash_item p)\<rparr>"

lemma call_or_map_pointer: "call_or d (map_pointer h p) k = call_or d p (\<lambda>f. k (h f))"
  by (cases p) auto

lemma perl_accessors:
  "AttrGetP sh el p r i = AttrGet sh el (bind_name p) r i"
  "AttrSetP sh el p r i v = AttrSet sh el (bind_name p) r i v"
  "AttrClearP p r = AttrClear (bind_name p) r"
  "AttrDeleteHashItemP p r k = AttrDeleteHashItem (bind_name p) r k"
  "AttrGetCountP p r = AttrGetCount (bind_name p) r"
  "AttrGetValuesP el p r = AttrGetValues el (bind_name p) r"
  by (cases "p_get_u p"; cases "p_set_u p"; cases "p_get_all_values_u p";
      simp add: AttrGetP_def AttrGet_def AttrSetP_def AttrSet_def AttrClearP_def AttrClear_def AttrDeleteHashItemP_def
        AttrDeleteHashItem_def AttrGetCountP_def AttrGetCount_def AttrGetValuesP_def AttrGetValues_def
        assert_typeP_def assert_type_def bind_name_def call_or_map_pointer split: prod.splits)+

lemma perl_keys:
  "ai_type (bind_name p) \<in> {HASH_STRING, HASH_INT32, HASH_UINT32, HASH_INT64, HASH_UINT64, HASH_IP} \<Longrightarrow>
   AttrGetKeysP p r = AttrGetKeys (bind_name p) r"
  by (simp add: AttrGetKeysP_def AttrGetKeys_def assert_typeP_def assert_type_def call_or_map_pointer bind_name_def)

section \<open>The contract between a descriptor and the class it describes\<close>

text \<open>
  What the member functions given to an \<open>Init\<close> function promise: the getter returns values of the element type, a
  value that was set is read back, at the same index, and setting does not change the type of the resource.
\<close>

locale typed_member =
  fixes el :: elem
    and getf :: "'d resource \<Rightarrow> attr_index \<Rightarrow> attr_value"
    and setf :: "'d resource \<Rightarrow> attr_index \<Rightarrow> attr_value \<Rightarrow> 'd resource"
  assumes get_elem: "elem_of (getf r i) = el"
    and get_set: "elem_of v = el \<Longrightarrow> getf (setf r i v) i = v"
    and set_type: "r_type (setf r i v) = r_type r"
begin

lemma scalar_get:
  "r_type r = t \<Longrightarrow> AttrGet Scalar el (InitScalar el n (Ptr getf) (Ptr setf) (AttrInfo_new t)) r i = Inr (getf r i)"
  by (simp add: AttrGet_def InitScalar_def AttrInfo_new_def assert_type_def tagged2_def)

lemma scalar_set:
  "r_type r = t \<Longrightarrow> AttrSet Scalar el (InitScalar el n (Ptr getf) (Ptr setf) (AttrInfo_new t)) r i v = Inr (setf r i v)"
  by (simp add: AttrSet_def InitScalar_def AttrInfo_new_def assert_type_def tagged2_def)

text \<open>Setting an attribute by name and reading it by name.\<close>

lemma set_get_by_name:
  assumes "maps (r_type r) = Some m" "m n = Some (InitScalar el n' (Ptr getf) (Ptr setf) (AttrInfo_new (r_type r)))"
    and "elem_of v = el"
  shows "bind_result (SetAttr el maps (ByName n) r v) (GetAttr el maps (ByName n)) = Inr v"
  using assms by (simp add: SetAttr_def GetAttr_def GetAttrInfo_def scalar_set scalar_get set_type get_set)

end

section \<open>The reported type\<close>

text \<open>What \<open>FieldType\<close> says about an attribute.\<close>

fun accessor_for :: "field_type \<Rightarrow> (shape \<times> elem) option" where
  "accessor_for UNKNOWN = None"
| "accessor_for INT32 = Some (Scalar, Int32)"
| "accessor_for UINT32 = Some (Scalar, UInt32)"
| "accessor_for INT64 = Some (Scalar, Int64)"
| "accessor_for UINT64 = Some (Scalar, UInt64)"
| "accessor_for DOUBLE = Some (Scalar, Double)"
| "accessor_for STRING = Some (Scalar, String)"
| "accessor_for IP = Some (Scalar, IpAddress)"
| "accessor_for ARRAY_INT32 = Some (Array, Int32)"
| "accessor_for ARRAY_UINT32 = Some (Array, UInt32)"
| "accessor_for ARRAY_INT64 = Some (Array, Int64)"
| "accessor_for ARRAY_UINT64 = Some (Array, UInt64)"
| "accessor_for ARRAY_DOUBLE = Some (Array, Double)"
| "accessor_for ARRAY_STRING = Some (Array, String)"
| "accessor_for ARRAY_IP = Some (Array, IpAddress)"
| "accessor_for HASH_INT32 = Some (Hash, Int32)"
| "accessor_for HASH_UINT32 = Some (Hash, UInt32)"
| "accessor_for HASH_INT64 = Some (Hash, Int64)"
| "accessor_for HASH_UINT64 = Some (Hash, UInt64)"
| "accessor_for HASH_DOUBLE = Some (Hash, Double)"
| "accessor_for HASH_STRING = Some (Hash, String)"
| "accessor_for HASH_IP = Some (Hash, IpAddress)"

lemma accessor_init_type:
  "accessor_for (init_type sh el) = Some (sh, if el = Double then UInt64 else el)"
  by (cases sh; cases el) auto

text \<open>A client that reads an attribute with the accessor its reported type names.\<close>

definition read_by_type :: "'d attr_info \<Rightarrow> 'd resource \<Rightarrow> attr_index \<Rightarrow> failure + attr_value" where
  "read_by_type ai r i =
     (case accessor_for (ai_type ai) of None \<Rightarrow> Inl AssertFailed | Some (sh, el) \<Rightarrow> AttrGet sh el ai r i)"

text \<open>
  C35: the reported type of a descriptor leads to the right accessor for every shape and every element type but
  double: on a resource of the descriptor's type the accessor calls the getter the descriptor was initialised with,
  while a double attribute, which reports an unsigned 64-bit integer, is read through the wrong member of the union;
  on a resource of another type the assertion fails.
\<close>
theorem reported_type_selects_accessor:
  "list_all (\<lambda>ai. read_by_type ai r i =
       (if r_type r \<noteq> t then Inl AssertFailed else if el = Double then Inl WrongMember else Inr (g r i)))
     [InitScalar el n (Ptr g) s (AttrInfo_new t), InitArray el n (Ptr g) s c cnt (AttrInfo_new t),
      InitHash el n (Ptr g) s c d cnt ks vs (AttrInfo_new t)]"
  by (cases el)
    (simp_all add: read_by_type_def InitScalar_def InitArray_def InitHash_def accessor_init_type AttrGet_def
      assert_type_def AttrInfo_new_def tagged2_def)

text \<open>
  \<open>GetValues\<close> works for the hash attributes of every element type, doubles included, but never for an array: no
  \<open>Init\<close> function of an array sets the pointer, so the call goes through an uninitialised pointer although the
  assertion lets arrays pass.
\<close>
theorem GetValues_arrays_uninitialised:
  "(if r_type r = t
    then AttrGetValues el (InitArray el n g s c cnt (AttrInfo_new t)) r = Inl Uninitialised \<and>
      AttrGetValues el (InitHash el n g s c d cnt ks (Ptr vs) (AttrInfo_new t)) r = Inr (vs r)
    else AttrGetValues el (InitArray el n g s c cnt (AttrInfo_new t)) r = Inl AssertFailed)"
  by (cases el)
    (simp_all add: AttrGetValues_def InitArray_def InitHash_def assert_type_def AttrInfo_new_def tagged_def)

end
