(* ===== verification/ResourceTypes.thy ===== *)
theory ResourceTypes
  imports Streams Attributes
begin

text \<open>
  The resource classes of the repository (\<^verbatim>\<open>TestResource\<close>, \<^verbatim>\<open>MarkerResource\<close> under \<^verbatim>\<open>src/lib/processing_engine/resource\<close>):
  their attributes and how they are saved and restored.  The contract of a resource class with the streams is a locale;
  the round trip of a framed resource is proved in it and holds for every class and every stream that keep their contracts.
\<close>

section \<open>The contract of a resource class\<close>

lemma to_int32_uint32: "fits 32 n \<Longrightarrow> to_int32 (to_uint32 n) = n"
proof (cases "0 \<le> n")
  case False
  assume "fits 32 n"
  then have "n mod 2 ^ 32 = n + 2 ^ 32" using False mod_pos_pos_trivial [of "n + 2 ^ 32" "2 ^ 32"] by (simp add: fits_def)
  then show ?thesis using False \<open>fits 32 n\<close> by (simp add: to_int32_def to_uint32_def fits_def)
qed (simp add: to_int32_def to_uint32_def fits_def)

lemma type_bits:
  assumes "0 < t" "t < 128"
  shows "(t OR 0x80) AND 0x7f = t" "(t OR 0x80) AND 0x80 \<noteq> 0" "t AND 0x7f = t" "t AND 0x80 = (0 :: int)"
    "to_uint32 (t OR 0x80) = t OR 0x80" "to_uint32 t = t" "0 \<le> t OR 0x80" "t OR 0x80 < 2 ^ 32"
proof -
  have m: "(0x7f :: int) = mask 7" by (simp add: mask_eq_exp_minus_1)
  have t7: "take_bit 7 t = t" using assms by (simp add: take_bit_int_eq_self)
  then have nb: "\<not> bit t 7" by (metis bit_take_bit_iff less_irrefl)
  show a: "t AND 0x7f = t" unfolding m using t7 by (simp add: take_bit_eq_mask)
  show "t AND 0x80 = 0" using nb and_exp_eq_0_iff_not_bit [of t 7] by simp
  show "(t OR 0x80) AND 0x7f = t"
  proof -
    have "(t OR 0x80) AND 0x7f = (t AND 0x7f) OR (0x80 AND 0x7f)" by (rule bit.conj_disj_distrib2)
    then show ?thesis using a by simp
  qed
  show "(t OR 0x80) AND 0x80 \<noteq> 0"
    using and_exp_eq_0_iff_not_bit [of "t OR 0x80" 7] by (simp add: bit_or_iff)
  show p: "0 \<le> t OR 0x80" using assms by simp
  have "t OR 0x80 < 2 ^ 8" by (rule OR_upper) (use assms in auto)
  then show l: "t OR 0x80 < 2 ^ 32" by simp
  show "to_uint32 (t OR 0x80) = t OR 0x80" "to_uint32 t = t" using p l assms by (simp_all add: to_uint32_def)
qed

locale resource_codec = resource_stream outs ins holds keeps
  for outs :: out_ops and ins :: "'i in_ops" and holds :: "'i \<Rightarrow> string \<Rightarrow> bool" and keeps :: "string \<Rightarrow> bool" +
  fixes ser :: "'d resource \<Rightarrow> bool \<times> string"
    and deser :: "'d resource \<Rightarrow> 'i \<Rightarrow> bool \<times> 'd resource \<times> 'i"
    and restored :: "'d \<Rightarrow> 'd" \<comment> \<open>the body that comes back\<close>
    and sound :: "'d \<Rightarrow> bool" \<comment> \<open>the bodies that can be saved\<close>
  assumes ser_ok: "fst (ser r)"
    and deser_ser:
    "sound (r_data r) \<Longrightarrow> holds i (snd (ser r) @ rest) \<Longrightarrow>
     \<exists>i'. deser r0 i = (True, r0\<lparr>r_data := restored (r_data r)\<rparr>, i') \<and> holds i' rest"
begin

lemma read_id_status:
  assumes "holds i (out_WriteVarint32 outs (to_uint32 a) @ out_WriteVarint32 outs (to_uint32 b) @ rest)"
    and "fits 32 a" "fits 32 b"
  shows "\<exists>i'. Deserialize_id_status ins r i = (Some (r\<lparr>r_id := a, r_status := b\<rparr>), i') \<and> holds i' rest"
proof -
  have range: "0 \<le> to_uint32 n" "to_uint32 n < 2 ^ 32" for n by (simp_all add: to_uint32_def)
  obtain i1 where i1: "in_ReadVarint32 ins i = (Some (to_uint32 a), i1)" "holds i1 (out_WriteVarint32 outs (to_uint32 b) @ rest)"
    using read_varint32 [OF assms(1) range] by blast
  obtain i2 where i2: "in_ReadVarint32 ins i1 = (Some (to_uint32 b), i2)" "holds i2 rest"
    using read_varint32 [OF i1(2) range] by blast
  show ?thesis using i1(1) i2 assms(2,3) by (simp add: Deserialize_id_status_def to_int32_uint32)
qed

text \<open>The type in front of a resource.\<close>

lemma read_type:
  assumes "holds i (snd (SerializeResource outs ser True idStatus r) @ rest)" "0 < r_type r" "r_type r < 128"
  shows "\<exists>i'. Deserialize_type ins 0 i = (Some (r_type r, idStatus), i') \<and>
    holds i' ((if idStatus then out_WriteVarint32 outs (to_uint32 (r_id r)) @ out_WriteVarint32 outs (to_uint32 (r_status r)) else []) @
      snd (ser r) @ rest)"
proof -
  note bits = type_bits [OF assms(2,3)]
  let ?t = "if idStatus then r_type r OR 0x80 else r_type r"
  let ?tail = "(if idStatus then out_WriteVarint32 outs (to_uint32 (r_id r)) @ out_WriteVarint32 outs (to_uint32 (r_status r)) else []) @
      snd (ser r) @ rest"
  have "holds i (out_WriteVarint32 outs ?t @ ?tail)"
    using assms(1) bits by (cases idStatus) (simp_all add: SerializeResource_def Let_def split_beta)
  moreover have "0 \<le> ?t" "?t < 2 ^ 32" using bits assms(2,3) by auto
  ultimately obtain i' where "in_ReadVarint32 ins i = (Some ?t, i')" "holds i' ?tail" using read_varint32 by blast
  then show ?thesis using bits by (auto simp: Deserialize_type_def)
qed

text \<open>A framed resource comes back, and the rest of the stream is left.\<close>

lemma framed_round_trip:
  assumes "holds i (snd (SerializeResource outs ser True idStatus r) @ rest)"
    and "0 < r_type r" "r_type r < 128" "fits 32 (r_id r)" "fits 32 (r_status r)" "sound (r_data r)"
    and "AcquireResource load (r_type r) s = Inr (Some r0, s')"
  shows "\<exists>i' n. DeserializeResource ins deser load 0 wantSize i s =
      Inr (Some (r0\<lparr>r_id := (if idStatus then r_id r else r_id r0), r_status := (if idStatus then r_status r else r_status r0),
        r_data := restored (r_data r)\<rparr>), n, i', s') \<and> holds i' rest"
proof -
  define i0 where "i0 = (if wantSize then snd (in_ByteCount ins i) else i)"
  have "holds i0 (snd (SerializeResource outs ser True idStatus r) @ rest)" using assms(1) byte_count by (simp add: i0_def)
  from read_type [OF this assms(2,3)] obtain i1 where i1: "Deserialize_type ins 0 i0 = (Some (r_type r, idStatus), i1)"
    "holds i1 ((if idStatus then out_WriteVarint32 outs (to_uint32 (r_id r)) @ out_WriteVarint32 outs (to_uint32 (r_status r)) else []) @
      snd (ser r) @ rest)" by blast
  define r1 where "r1 = r0\<lparr>r_id := (if idStatus then r_id r else r_id r0), r_status := (if idStatus then r_status r else r_status r0)\<rparr>"
  obtain i2 where i2: "(if idStatus then Deserialize_id_status ins r0 i1 else (Some r0, i1)) = (Some r1, i2)"
    "holds i2 (snd (ser r) @ rest)"
  proof (cases idStatus)
    case True
    then show ?thesis using that read_id_status [of i1 "r_id r" "r_status r" _ r0] i1(2) assms(4,5) by (auto simp: r1_def)
  next
    case False
    then show ?thesis using that i1(2) by (simp add: r1_def)
  qed
  obtain i3 where i3: "deser r1 i2 = (True, r1\<lparr>r_data := restored (r_data r)\<rparr>, i3)" "holds i3 rest"
    using deser_ser [OF assms(6) i2(2)] by blast
  show ?thesis
    using i1(1) i2(1) i3 assms(7) refresh byte_count [OF i3(2)]
    by (auto simp: DeserializeResource_def i0_def r1_def Let_def split_beta)
qed

end

section \<open>Members every resource has\<close>

fun get_id :: "'d resource \<Rightarrow> attr_index \<Rightarrow> attr_value" where
  "get_id r i = VInt32 (r_id r)"

fun set_id :: "'d resource \<Rightarrow> attr_index \<Rightarrow> attr_value \<Rightarrow> 'd resource" where
  "set_id r i (VInt32 n) = r\<lparr>r_id := n\<rparr>"
| "set_id r i _ = r"

fun get_status :: "'d resource \<Rightarrow> attr_index \<Rightarrow> attr_value" where
  "get_status r i = VInt32 (r_status r)"

fun set_status :: "'d resource \<Rightarrow> attr_index \<Rightarrow> attr_value \<Rightarrow> 'd resource" where
  "set_status r i (VInt32 n) = r\<lparr>r_status := n\<rparr>"
| "set_status r i _ = r"

lemma elem_of_Int32: "elem_of v = Int32 \<longleftrightarrow> (\<exists>n. v = VInt32 n)" by (cases v) auto
lemma elem_of_String: "elem_of v = String \<longleftrightarrow> (\<exists>s. v = VString s)" by (cases v) auto

lemma set_members_type [simp]: "r_type (set_id r i v) = r_type r" "r_type (set_status r i v) = r_type r"
  by (cases v; simp)+

interpretation id_member: typed_member Int32 get_id set_id
  by unfold_locales (auto simp: elem_of_Int32)

interpretation status_member: typed_member Int32 get_status set_status
  by unfold_locales (auto simp: elem_of_Int32)

section \<open>TestResource\<close>

text \<open>Its body is the string \<open>str\<close>.\<close>

fun get_str :: "string resource \<Rightarrow> attr_index \<Rightarrow> attr_value" where
  "get_str r i = VString (r_data r)"

fun set_str :: "string resource \<Rightarrow> attr_index \<Rightarrow> attr_value \<Rightarrow> string resource" where
  "set_str r i (VString s) = r\<lparr>r_data := s\<rparr>"
| "set_str r i _ = r"

lemma set_str_type [simp]: "r_type (set_str r i v) = r_type r"
  by (cases v) simp_all

interpretation str_member: typed_member String get_str set_str
  by unfold_locales (auto simp: elem_of_String)

definition TestResource_typeId :: int where
  "TestResource_typeId = 1"

definition TestResource_attributes :: "string attr_info list" where
  "TestResource_attributes =
     [InitScalar Int32 ''id'' (Ptr get_id) (Ptr set_id) (AttrInfo_new TestResource_typeId),
      InitScalar Int32 ''status'' (Ptr get_status) (Ptr set_status) (AttrInfo_new TestResource_typeId),
      InitScalar String ''str'' (Ptr get_str) (Ptr set_str) (AttrInfo_new TestResource_typeId)]"

definition TestResource_Clone :: "int \<Rightarrow> string resource \<Rightarrow> string resource" where
  "TestResource_Clone next r = Resource_copy next r"

definition TestResource_Clear :: "string resource \<Rightarrow> string resource" where
  "TestResource_Clear r = Resource_Clear [] r"

definition TestResource_GetSize :: "string resource \<Rightarrow> int" where
  "TestResource_GetSize r = int (length (r_data r))"

definition TestResource_IsInstance :: "'d resource \<Rightarrow> bool" where
  "TestResource_IsInstance r \<longleftrightarrow> r_type r = TestResource_typeId"

lemma replace_first_newline:
  "newline \<in> set s \<Longrightarrow>
   (\<exists>us vs. newline \<notin> set us \<and> s = us @ newline # vs \<and>
      s[length (takeWhile (\<lambda>c. c \<noteq> newline) s) := CHR '' ''] = us @ CHR '' '' # vs)"
proof -
  assume "newline \<in> set s"
  then obtain us vs where s: "s = us @ newline # vs" "newline \<notin> set us" by (metis split_list_first)
  then have "takeWhile (\<lambda>c. c \<noteq> newline) s = us" using takeWhile_line by simp
  then have "s[length (takeWhile (\<lambda>c. c \<noteq> newline) s) := CHR '' ''] = us @ CHR '' '' # vs" using s by simp
  then show ?thesis using s by blast
qed

text \<open>The loop that replaces the first newline by a space until there is none.\<close>

function blank_newlines :: "string \<Rightarrow> string" where
  "blank_newlines s =
     (if newline \<in> set s then blank_newlines (s[length (takeWhile (\<lambda>c. c \<noteq> newline) s) := CHR '' '']) else s)"
  by pat_completeness auto

termination
proof (relation "measure (\<lambda>s. length (filter (\<lambda>c. c = newline) s))", goal_cases)
  case (2 s)
  from replace_first_newline [OF this] show ?case by (auto simp: newline_def)
qed simp

declare blank_newlines.simps [simp del]

lemma blank_newlines_map: "blank_newlines s = map (\<lambda>c. if c = newline then CHR '' '' else c) s"
proof (induction s rule: blank_newlines.induct)
  case (1 s)
  show ?case
  proof (cases "newline \<in> set s")
    case True
    from replace_first_newline [OF True] obtain us vs where s: "newline \<notin> set us" "s = us @ newline # vs"
      "s[length (takeWhile (\<lambda>c. c \<noteq> newline) s) := CHR '' ''] = us @ CHR '' '' # vs" by blast
    then have "blank_newlines s = map (\<lambda>c. if c = newline then CHR '' '' else c) (us @ CHR '' '' # vs)"
      using 1 [OF True] True by (subst blank_newlines.simps) simp
    then show ?thesis using s by simp
  next
    case False
    then show ?thesis by (subst blank_newlines.simps) (auto intro!: map_idI [symmetric])
  qed
qed

definition TestResource_Serialize :: "out_ops \<Rightarrow> string resource \<Rightarrow> bool \<times> string" where
  "TestResource_Serialize outs r = (True, out_WriteString outs (blank_newlines (r_data r)))"

definition TestResource_Deserialize :: "'i in_ops \<Rightarrow> bool \<Rightarrow> string resource \<Rightarrow> 'i \<Rightarrow> bool \<times> string resource \<times> 'i" where
  "TestResource_Deserialize ins headerOnly r i =
     (if headerOnly then (True, r, i)
      else
        case in_ReadString ins i of
          (None, i1) \<Rightarrow> (False, r\<lparr>r_data := []\<rparr>, i1)
        | (Some s, i1) \<Rightarrow> (True, r\<lparr>r_data := s\<rparr>, i1))"

definition TestResource_Skip :: "'i in_ops \<Rightarrow> 'i \<Rightarrow> bool \<times> 'i" where
  "TestResource_Skip ins i = (case in_ReadString ins i of (os, i1) \<Rightarrow> (os \<noteq> None, i1))"

definition TestResource_ToString :: "string resource \<Rightarrow> string" where
  "TestResource_ToString r =
     take 1023 (''[TR '' @ show_int (r_id r) @ '' '' @ show_int (if IsSetFlag DELETED r then - 1 else r_status r) @ ''] '' @ takeWhile (\<lambda>c. c \<noteq> CHR 0x00) (r_data r))"

lemma TestResource_codec:
  assumes "resource_stream outs ins holds keeps"
  shows "resource_codec outs ins holds keeps (TestResource_Serialize outs) (TestResource_Deserialize ins False)
    blank_newlines (\<lambda>s. keeps (blank_newlines s))"
proof (intro resource_codec.intro assms resource_codec_axioms.intro)
  show "\<exists>i'. TestResource_Deserialize ins False r0 i = (True, r0\<lparr>r_data := blank_newlines (r_data r)\<rparr>, i') \<and> holds i' rest"
    if "keeps (blank_newlines (r_data r))" "holds i (snd (TestResource_Serialize outs r) @ rest)" for r i rest and r0 :: "string resource"
    using resource_stream.read_string [OF assms, of i "blank_newlines (r_data r)" rest] that
    by (auto simp: TestResource_Serialize_def TestResource_Deserialize_def)
qed (simp add: TestResource_Serialize_def)

interpretation test_text: resource_codec text_out text_in_ops text_holds text_safe
  "TestResource_Serialize text_out" "TestResource_Deserialize text_in_ops False" blank_newlines "\<lambda>s. text_safe (blank_newlines s)"
  by (rule TestResource_codec) (rule text_stream.resource_stream_axioms)

section \<open>MarkerResource\<close>

text \<open>Its body is the number \<open>mark\<close>.\<close>

fun get_mark :: "int resource \<Rightarrow> attr_index \<Rightarrow> attr_value" where
  "get_mark r i = VInt32 (r_data r)"

fun set_mark :: "int resource \<Rightarrow> attr_index \<Rightarrow> attr_value \<Rightarrow> int resource" where
  "set_mark r i (VInt32 n) = r\<lparr>r_data := n\<rparr>"
| "set_mark r i _ = r"

lemma set_mark_type [simp]: "r_type (set_mark r i v) = r_type r"
  by (cases v) simp_all

interpretation mark_member: typed_member Int32 get_mark set_mark
  by unfold_locales (auto simp: elem_of_Int32)

definition MarkerResource_typeId :: int where
  "MarkerResource_typeId = 3"

definition MarkerResource_attributes :: "int attr_info list" where
  "MarkerResource_attributes =
     [InitScalar Int32 ''id'' (Ptr get_id) (Ptr set_id) (AttrInfo_new MarkerResource_typeId),
      InitScalar Int32 ''status'' (Ptr get_status) (Ptr set_status) (AttrInfo_new MarkerResource_typeId),
      InitScalar Int32 ''mark'' (Ptr get_mark) (Ptr set_mark) (AttrInfo_new MarkerResource_typeId)]"

definition MarkerResource_Clone :: "int \<Rightarrow> int resource \<Rightarrow> int resource" where
  "MarkerResource_Clone next r = Resource_copy next r"

definition MarkerResource_Clear :: "int resource \<Rightarrow> int resource" where
  "MarkerResource_Clear r = Resource_Clear 0 r"

definition MarkerResource_GetSize :: "int resource \<Rightarrow> int" where
  "MarkerResource_GetSize r = 4"

definition MarkerResource_IsInstance :: "'d resource \<Rightarrow> bool" where
  "MarkerResource_IsInstance r \<longleftrightarrow> r_type r = MarkerResource_typeId"

definition MarkerResource_Serialize :: "out_ops \<Rightarrow> int resource \<Rightarrow> bool \<times> string" where
  "MarkerResource_Serialize outs r = (True, out_WriteVarint32 outs (to_uint32 (r_data r)))"

definition MarkerResource_Deserialize :: "'i in_ops \<Rightarrow> bool \<Rightarrow> int resource \<Rightarrow> 'i \<Rightarrow> bool \<times> int resource \<times> 'i" where
  "MarkerResource_Deserialize ins headerOnly r i =
     (if headerOnly then (True, r, i)
      else
        case in_ReadVarint32 ins i of
          (None, i1) \<Rightarrow> (False, r, i1)
        | (Some v, i1) \<Rightarrow> (True, r\<lparr>r_data := to_int32 v\<rparr>, i1))"

definition MarkerResource_Skip :: "'i in_ops \<Rightarrow> 'i \<Rightarrow> bool \<times> 'i" where
  "MarkerResource_Skip ins i = (case in_ReadVarint32 ins i of (ov, i1) \<Rightarrow> (ov \<noteq> None, i1))"

definition MarkerResource_ToString :: "int resource \<Rightarrow> string" where
  "MarkerResource_ToString r =
     ''[MR '' @ show_int (r_id r) @ '' '' @ show_int (if IsSetFlag DELETED r then - 1 else r_status r) @ ''] '' @ show_int (r_data r)"

lemma MarkerResource_codec:
  assumes "resource_stream outs ins holds keeps"
  shows "resource_codec outs ins holds keeps (MarkerResource_Serialize outs) (MarkerResource_Deserialize ins False) id (fits 32)"
proof (intro resource_codec.intro assms resource_codec_axioms.intro)
  have range: "0 \<le> to_uint32 n" "to_uint32 n < 2 ^ 32" for n by (simp_all add: to_uint32_def)
  show "\<exists>i'. MarkerResource_Deserialize ins False r0 i = (True, r0\<lparr>r_data := id (r_data r)\<rparr>, i') \<and> holds i' rest"
    if "fits 32 (r_data r)" "holds i (snd (MarkerResource_Serialize outs r) @ rest)" for r i rest and r0 :: "int resource"
    using resource_stream.read_varint32 [OF assms, of i "to_uint32 (r_data r)" rest] range that
    by (auto simp: MarkerResource_Serialize_def MarkerResource_Deserialize_def to_int32_uint32)
qed (simp add: MarkerResource_Serialize_def)

interpretation marker_text: resource_codec text_out text_in_ops text_holds text_safe
  "MarkerResource_Serialize text_out" "MarkerResource_Deserialize text_in_ops False" id "fits 32"
  by (rule MarkerResource_codec) (rule text_stream.resource_stream_axioms)

section \<open>The properties\<close>

text \<open>
  A \<open>TestResource\<close> saved to a text stream with its type, and with or without id and status, is restored from it:
  the string comes back with every newline replaced by a space, id and status come back when they were saved, and the
  stream is left at what follows.  The string must not, after that replacement, contain a backslash followed by the letter n.
\<close>
theorem TestResource_text_round_trip:
  assumes "ti_good i" "ti_rest i = snd (SerializeResource text_out (TestResource_Serialize text_out) True idStatus r) @ rest"
    and "r_type r = TestResource_typeId" "fits 32 (r_id r)" "fits 32 (r_status r)" "text_safe (blank_newlines (r_data r))"
    and "AcquireResource load TestResource_typeId s = Inr (Some r0, s')"
  shows "\<exists>i' n. DeserializeResource text_in_ops (TestResource_Deserialize text_in_ops False) load 0 wantSize i s =
      Inr (Some (r0\<lparr>r_id := (if idStatus then r_id r else r_id r0), r_status := (if idStatus then r_status r else r_status r0),
        r_data := map (\<lambda>c. if c = newline then CHR '' '' else c) (r_data r)\<rparr>), n, i', s') \<and>
    ti_good i' \<and> ti_rest i' = rest"
  using test_text.framed_round_trip [of i idStatus r rest load s r0 s' wantSize] assms
  by (simp add: text_holds_def TestResource_typeId_def blank_newlines_map)

theorem TestResource_text_round_trip_witness:
  "\<exists>i' n s'. DeserializeResource text_in_ops (TestResource_Deserialize text_in_ops False) demo_load 0 True
      (TextIn_new (snd (SerializeResource text_out (TestResource_Serialize text_out) True True
        \<lparr>r_id = 7, r_status = - 2, r_flags = 0, r_attached = None, r_type = 1, r_data = ''a b''\<rparr>) @ ''more''))
      (ResourceRegistry_new [''t.la'']) =
    Inr (Some \<lparr>r_id = 7, r_status = - 2, r_flags = 0, r_attached = None, r_type = 1, r_data = ''a b''\<rparr>, n, i', s') \<and>
    ti_rest i' = ''more''"
proof -
  let ?r = "\<lparr>r_id = 7, r_status = - 2, r_flags = 0, r_attached = None, r_type = 1, r_data = ''a b''\<rparr> :: string resource"
  let ?i = "TextIn_new (snd (SerializeResource text_out (TestResource_Serialize text_out) True True ?r) @ ''more'')"
  obtain s' where a: "AcquireResource demo_load TestResource_typeId (ResourceRegistry_new [''t.la'']) =
      Inr (Some (Resource_new 2 1 [] :: string resource), s')"
    by (simp add: AcquireResource_def GetInfo_def LoadResourceLibrary_def ResourceRegistry_new_def demo_load_def
        register_library_def NextResourceId_def Let_def TestResource_typeId_def Resource_new_def)
  have "\<exists>i' n. DeserializeResource text_in_ops (TestResource_Deserialize text_in_ops False) demo_load 0 True ?i (ResourceRegistry_new [''t.la'']) =
      Inr (Some ((Resource_new 2 1 [])\<lparr>r_id := (if True then r_id ?r else 2), r_status := (if True then r_status ?r else 0),
        r_data := map (\<lambda>c. if c = newline then CHR '' '' else c) (r_data ?r)\<rparr>), n, i', s') \<and> ti_good i' \<and> ti_rest i' = ''more''"
    using TestResource_text_round_trip [OF _ _ _ _ _ _ a, of ?i True ?r "''more''" True]
    by (simp add: TextIn_new_def ti_good_def TestResource_typeId_def fits_def blank_newlines_map newline_def backslash_def Resource_new_def)
  then show ?thesis by (auto simp: Resource_new_def newline_def)
qed

text \<open>
  Over binary streams, for any coded stream that behaves as documented, a \<open>MarkerResource\<close> saved with its type comes
  back with the same mark, for every 32-bit value, with id and status when they were saved, and the stream is left at
  what follows.
\<close>
theorem MarkerResource_binary_round_trip:
  assumes "coded_ok c c_has"
    and "c_has i (snd (SerializeResource (binary_out c) (MarkerResource_Serialize (binary_out c)) True idStatus r) @ rest)"
    and "r_type r = MarkerResource_typeId" "fits 32 (r_id r)" "fits 32 (r_status r)" "fits 32 (r_data r)"
    and "AcquireResource load MarkerResource_typeId s = Inr (Some r0, s')"
  shows "\<exists>i' n. DeserializeResource (binary_in_ops c) (MarkerResource_Deserialize (binary_in_ops c) False) load 0 wantSize i s =
      Inr (Some (r0\<lparr>r_id := (if idStatus then r_id r else r_id r0), r_status := (if idStatus then r_status r else r_status r0),
        r_data := r_data r\<rparr>), n, i', s') \<and> c_has i' rest"
  using resource_codec.framed_round_trip [OF MarkerResource_codec [OF binary_resource_stream [OF assms(1)]],
      of i idStatus r rest load s r0 s' wantSize] assms(2-)
  by (simp add: MarkerResource_typeId_def)

text \<open>A coded stream: seven bits to a byte, the low ones first, the high bit set on all bytes but the last.\<close>

fun sample_encode :: "nat \<Rightarrow> string" where
  "sample_encode v = (if v < 128 then [char_of v] else char_of (128 + v mod 128) # sample_encode (v div 128))"

declare sample_encode.simps [simp del]

fun sample_decode :: "string \<Rightarrow> (nat \<times> string) option" where
  "sample_decode [] = None"
| "sample_decode (b # bs) =
     (if (of_char b :: nat) < 128 then Some (of_char b, bs)
      else case sample_decode bs of None \<Rightarrow> None | Some (v, rest) \<Rightarrow> Some (of_char b - 128 + 128 * v, rest))"

lemma sample_decode_encode: "sample_decode (sample_encode v @ rest) = Some (v, rest)"
proof (induction v rule: sample_encode.induct)
  case (1 v)
  have "v mod 128 + 128 * (v div 128) = v" by simp
  then show ?case using 1 by (subst sample_encode.simps) (auto simp: of_char_of)
qed

definition sample_coded :: "string coded_ops" where
  "sample_coded = \<lparr>c_WriteVarint32 = (\<lambda>v. sample_encode (nat v)), c_WriteString = id,
     c_ReadVarint32 = (\<lambda>i. case sample_decode i of None \<Rightarrow> (None, i) | Some (v, rest) \<Rightarrow> (Some (int v), rest)),
     c_ReadString = (\<lambda>n i. if nat n \<le> length i then (Some (take (nat n) i), drop (nat n) i) else (None, [])),
     c_Skip = (\<lambda>n i. (nat n \<le> length i, drop (nat n) i)), c_ByteCount = (\<lambda>i. 0), c_recreate = id\<rparr>"

lemma sample_coded_ok: "coded_ok sample_coded (=)"
  by (auto simp: coded_ok_def sample_coded_def sample_decode_encode)

definition marker_load :: "string \<rightharpoonup> int resource_lib" where
  "marker_load f = (if f = ''m.la'' then Some \<lparr>lib_typeId = 3, lib_typeStr = ''MarkerResource'', lib_empty = 0\<rparr> else None)"

theorem MarkerResource_binary_round_trip_witness:
  "\<exists>r i' n s'. DeserializeResource (binary_in_ops sample_coded) (MarkerResource_Deserialize (binary_in_ops sample_coded) False) marker_load 0 False
      (snd (SerializeResource (binary_out sample_coded) (MarkerResource_Serialize (binary_out sample_coded)) True False
        \<lparr>r_id = 7, r_status = 0, r_flags = 0, r_attached = None, r_type = 3, r_data = - 300\<rparr>) @ ''more''
       )
      (ResourceRegistry_new [''m.la'']) = Inr (Some r, n, i', s') \<and> r_data r = - 300 \<and> i' = ''more''"
proof -
  let ?r = "\<lparr>r_id = 7, r_status = 0, r_flags = 0, r_attached = None, r_type = 3, r_data = - 300\<rparr> :: int resource"
  obtain s' where a: "AcquireResource marker_load MarkerResource_typeId (ResourceRegistry_new [''m.la'']) =
      Inr (Some (Resource_new 2 3 0 :: int resource), s')"
    by (simp add: AcquireResource_def GetInfo_def LoadResourceLibrary_def ResourceRegistry_new_def marker_load_def
        register_library_def NextResourceId_def Let_def MarkerResource_typeId_def Resource_new_def)
  show ?thesis
    using MarkerResource_binary_round_trip [OF sample_coded_ok refl _ _ _ _ a, where r = ?r and rest = "''more''" and idStatus = False and wantSize = False]
    by (auto simp: MarkerResource_typeId_def fits_def)
qed

text \<open>
  A resource whose type id is between 128 and 255 cannot be restored: the top bit of the byte is taken for the flag
  of id and status, and the resource is looked for under its type id less 128.
\<close>
theorem type_id_above_127_misread:
  assumes "ti_good i" "ti_rest i = snd (SerializeResource text_out ser True False r) @ rest"
    and "128 \<le> r_type r" "r_type r < 256" "AcquireResource load (r_type r - 128) s = Inr (None, s')"
  shows "\<exists>i'. DeserializeResource text_in_ops deser load 0 False i s = Inr (None, None, i', s')"
proof -
  let ?t = "r_type r"
  have bits: "?t AND 0x7f = ?t - 128" "?t AND 0x80 \<noteq> 0"
  proof -
    have "?t AND 0x7f = take_bit 7 ?t" by (simp add: take_bit_eq_mask mask_eq_exp_minus_1)
    also have "\<dots> = ?t mod 128" by (simp add: take_bit_eq_mod)
    also have "\<dots> = ?t - 128" using assms(3,4) mod_pos_geq [of 128 ?t] mod_pos_pos_trivial [of "?t - 128" 128] by simp
    finally show "?t AND 0x7f = ?t - 128" .
    have "?t div 128 = 1" using assms(3,4) by (simp add: div_pos_geq)
    then have "bit ?t 7" by (simp add: bit_iff_odd)
    then show "?t AND 0x80 \<noteq> 0" using and_exp_eq_0_iff_not_bit [of ?t 7] by simp
  qed
  have "text_holds i (out_WriteVarint32 text_out ?t @ snd (ser r) @ rest)"
    using assms by (simp add: text_holds_def SerializeResource_def Let_def split_beta to_uint32_def)
  then obtain i1 where "in_ReadVarint32 text_in_ops i = (Some ?t, i1)"
    using text_stream.read_varint32 [of i ?t "snd (ser r) @ rest"] assms(3,4) by auto
  then have "Deserialize_type text_in_ops 0 i = (Some (?t - 128, True), i1)" using bits by (simp add: Deserialize_type_def)
  then show ?thesis using assms(5) by (auto simp: DeserializeResource_def)
qed

theorem type_id_above_127_misread_witness:
  "\<exists>i' s'. DeserializeResource text_in_ops (TestResource_Deserialize text_in_ops False) demo_load 0 False
      (TextIn_new (snd (SerializeResource text_out (TestResource_Serialize text_out) True False
        \<lparr>r_id = 7, r_status = 0, r_flags = 0, r_attached = None, r_type = 200, r_data = ''x''\<rparr>)))
      (ResourceRegistry_new [''t.la'']) = Inr (None, None, i', s')"
proof -
  let ?r = "\<lparr>r_id = 7, r_status = 0, r_flags = 0, r_attached = None, r_type = 200, r_data = ''x''\<rparr> :: string resource"
  obtain s' where a: "AcquireResource demo_load (r_type ?r - 128) (ResourceRegistry_new [''t.la'']) = Inr (None, s')"
    by (simp add: AcquireResource_def GetInfo_def LoadResourceLibrary_def ResourceRegistry_new_def demo_load_def
        register_library_def NextResourceId_def Let_def)
  then show ?thesis
    using type_id_above_127_misread [OF _ _ _ _ a, of "TextIn_new (snd (SerializeResource text_out (TestResource_Serialize text_out) True False ?r))"
        "TestResource_Serialize text_out" "[]" "TestResource_Deserialize text_in_ops False"]
    by (auto simp: TextIn_new_def ti_good_def)
qed

text \<open>Attributes by name: what is set is read back, and unknown names are ignored by setters.\<close>

lemma TestResource_attr_maps:
  "fill_attrMap TestResource_attributes ''id'' = Some (InitScalar Int32 ''id'' (Ptr get_id) (Ptr set_id) (AttrInfo_new TestResource_typeId))"
  "fill_attrMap TestResource_attributes ''status'' = Some (InitScalar Int32 ''status'' (Ptr get_status) (Ptr set_status) (AttrInfo_new TestResource_typeId))"
  "fill_attrMap TestResource_attributes ''str'' = Some (InitScalar String ''str'' (Ptr get_str) (Ptr set_str) (AttrInfo_new TestResource_typeId))"
  by (simp_all add: fill_attrMap_def TestResource_attributes_def InitScalar_def)

lemma TestResource_set_get:
  assumes "r_type r = TestResource_typeId" "maps TestResource_typeId = Some (fill_attrMap TestResource_attributes)"
  shows "elem_of v = Int32 \<Longrightarrow> bind_result (SetAttr Int32 maps (ByName ''id'') r v) (GetAttr Int32 maps (ByName ''id'')) = Inr v"
    and "elem_of v = Int32 \<Longrightarrow> bind_result (SetAttr Int32 maps (ByName ''status'') r v) (GetAttr Int32 maps (ByName ''status'')) = Inr v"
    and "elem_of v = String \<Longrightarrow> bind_result (SetAttr String maps (ByName ''str'') r v) (GetAttr String maps (ByName ''str'')) = Inr v"
  using id_member.set_get_by_name [of maps r _ "''id''"] status_member.set_get_by_name [of maps r _ "''status''"]
    str_member.set_get_by_name [of maps r _ "''str''"] assms TestResource_attr_maps by simp_all

end
