(* ===== verification/Objects.thy ===== *)
theory Objects
  imports Common "HOL-Library.AList"
begin

text \<open>
  Objects, the ancestors of servers, engines, processors and modules (\<^verbatim>\<open>src/lib/Object.h\<close>, \<^verbatim>\<open>Object.cc\<close>), the
  registry that finds them by their ids (\<^verbatim>\<open>ObjectRegistry.h\<close>, \<^verbatim>\<open>ObjectRegistry.cc\<close>) and the tables of named
  properties (\<^verbatim>\<open>ObjectProperties.h\<close>).  An \<^verbatim>\<open>unordered_map\<close> is an association list whose order is not part of any
  statement.  The object lock makes each operation one step; \<^verbatim>\<open>log4cxx\<close> loggers are the chain of the levels set
  for a logger and its ancestors.
\<close>

section \<open>Log levels\<close>

datatype level = Trace_level | Debug_level | Info_level | Warn_level | Error_level | Fatal_level | Off_level | All_level

record logger =
  own_level :: "level option"
  ancestor_levels :: "level option list" \<comment> \<open>nearest first, the root logger last\<close>

definition level_str :: "level option \<Rightarrow> string option" where
  "level_str l =
     (if l = Some Trace_level then Some ''TRACE''
      else if l = Some Debug_level then Some ''DEBUG''
      else if l = Some Info_level then Some ''INFO''
      else if l = Some Error_level then Some ''ERROR''
      else if l = Some Fatal_level then Some ''FATAL''
      else None)"

fun GetLogLevelStr :: "level option \<Rightarrow> level option list \<Rightarrow> string" where
  "GetLogLevelStr l ancestors =
     (case level_str l of
        Some s \<Rightarrow> s
      | None \<Rightarrow> (case ancestors of [] \<Rightarrow> ''unknown'' | p # ps \<Rightarrow> GetLogLevelStr p ps))"

declare GetLogLevelStr.simps [simp del]

definition SetLogLevel :: "string \<Rightarrow> logger \<Rightarrow> bool \<times> logger" where
  "SetLogLevel s lg =
     (if s = ''TRACE'' then (True, lg\<lparr>own_level := Some Trace_level\<rparr>)
      else if s = ''DEBUG'' then (True, lg\<lparr>own_level := Some Debug_level\<rparr>)
      else if s = ''INFO'' then (True, lg\<lparr>own_level := Some Info_level\<rparr>)
      else if s = ''ERROR'' then (True, lg\<lparr>own_level := Some Error_level\<rparr>)
      else if s = ''FATAL'' then (True, lg\<lparr>own_level := Some Fatal_level\<rparr>)
      else (False, lg))"

lemma SetLogLevel_GetLogLevelStr:
  "SetLogLevel s lg = (True, lg') \<Longrightarrow> GetLogLevelStr (own_level lg') (ancestor_levels lg') = s"
  by (auto simp: SetLogLevel_def GetLogLevelStr.simps level_str_def split: if_splits)

section \<open>Tables of properties\<close>

text \<open>A getter may return null; a setter converts its text, which can fail.\<close>

type_synonym 'm getter = "string \<Rightarrow> 'm \<Rightarrow> string option"
type_synonym 'm setter = "string \<Rightarrow> string \<Rightarrow> 'm \<Rightarrow> failure + 'm"

record 'm properties =
  getters :: "(string \<times> 'm getter) list"
  setters :: "(string \<times> 'm setter) list"
  initOnly :: "(string \<times> 'm setter) list"

definition ObjectProperties_new :: "'m properties" where
  "ObjectProperties_new = \<lparr>getters = [], setters = [], initOnly = []\<rparr>"

definition Properties_Add :: "string \<Rightarrow> 'm getter \<Rightarrow> 'm setter option \<Rightarrow> bool \<Rightarrow> 'm properties \<Rightarrow> 'm properties" where
  "Properties_Add name get oset init p =
     (let p1 = p\<lparr>getters := AList.update name get (getters p)\<rparr>
      in case oset of
           None \<Rightarrow> p1
         | Some f \<Rightarrow>
             if \<not> init then p1\<lparr>setters := AList.update name f (setters p1)\<rparr>
             else p1\<lparr>initOnly := AList.update name f (initOnly p1)\<rparr>)"

fun InitProperties :: "'m properties \<Rightarrow> bool \<Rightarrow> (string \<times> string) list \<Rightarrow> 'm \<Rightarrow> failure + bool \<times> 'm" where
  "InitProperties p ignoreUnknown [] m = Inr (True, m)"
| "InitProperties p ignoreUnknown ((name, v) # params) m =
     (case map_of (setters p) name of
        Some f \<Rightarrow> bind_result (f name v m) (InitProperties p ignoreUnknown params)
      | None \<Rightarrow>
          (case map_of (initOnly p) name of
             Some f \<Rightarrow> bind_result (f name v m) (InitProperties p ignoreUnknown params)
           | None \<Rightarrow> if \<not> ignoreUnknown then Inr (False, m) else InitProperties p ignoreUnknown params m))"

text \<open>
  \<^verbatim>\<open>InitProperty\<close>: an unknown name is either logged through an iterator at the end of the table or, when
  unknown names are to be ignored, the function ends without a return value.
\<close>

definition InitProperty :: "'m properties \<Rightarrow> bool \<Rightarrow> string \<Rightarrow> string \<Rightarrow> 'm \<Rightarrow> failure + bool \<times> 'm" where
  "InitProperty p ignoreUnknown name v m =
     (case map_of (setters p) name of
        Some f \<Rightarrow> bind_result (f name v m) (\<lambda>m1. Inr (True, m1))
      | None \<Rightarrow>
          (case map_of (initOnly p) name of
             Some f \<Rightarrow> bind_result (f name v m) (\<lambda>m1. Inr (True, m1))
           | None \<Rightarrow> Inl (if \<not> ignoreUnknown then OutOfRange else Uninitialised)))"

definition Properties_GetProperty :: "'m properties \<Rightarrow> string \<Rightarrow> 'm \<Rightarrow> string option" where
  "Properties_GetProperty p name m = (case map_of (getters p) name of Some get \<Rightarrow> get name m | None \<Rightarrow> None)"

definition Properties_SetProperty :: "'m properties \<Rightarrow> string \<Rightarrow> string \<Rightarrow> 'm \<Rightarrow> failure + bool \<times> 'm" where
  "Properties_SetProperty p name v m =
     (case map_of (setters p) name of
        Some f \<Rightarrow> bind_result (f name v m) (\<lambda>m1. Inr (True, m1))
      | None \<Rightarrow> Inr (False, m))"

definition Properties_ListProperties :: "'m properties \<Rightarrow> string list" where
  "Properties_ListProperties p = map fst (getters p)"

lemma getters_Add [simp]: "getters (Properties_Add name get oset init p) = AList.update name get (getters p)"
  by (simp add: Properties_Add_def Let_def split: option.splits)

lemma setters_Add [simp]:
  "setters (Properties_Add name get oset init p) =
     (case oset of Some f \<Rightarrow> if init then setters p else AList.update name f (setters p) | None \<Rightarrow> setters p)"
  by (simp add: Properties_Add_def Let_def split: option.splits)

lemma initOnly_Add [simp]:
  "initOnly (Properties_Add name get oset init p) =
     (case oset of Some f \<Rightarrow> if init then AList.update name f (initOnly p) else initOnly p | None \<Rightarrow> initOnly p)"
  by (simp add: Properties_Add_def Let_def split: option.splits)

lemma properties_new [simp]:
  "getters ObjectProperties_new = []" "setters ObjectProperties_new = []" "initOnly ObjectProperties_new = []"
  by (simp_all add: ObjectProperties_new_def)

text \<open>What every setter keeps, the initialisation keeps.\<close>

lemma InitProperties_inv:
  assumes "\<And>f name v m m'. f \<in> snd ` (set (setters p) \<union> set (initOnly p)) \<Longrightarrow> P m \<Longrightarrow> f name v m = Inr m' \<Longrightarrow> P m'"
    and "P m" and "InitProperties p ignoreUnknown ps m = Inr (ok, m')"
  shows "P m'"
  using assms(2,3)
proof (induction ps arbitrary: m)
  case (Cons nv ps)
  obtain name v where nv: "nv = (name, v)" by fastforce
  have in_table: "map_of (setters p) name = Some f \<or> map_of (initOnly p) name = Some f \<Longrightarrow>
      f \<in> snd ` (set (setters p) \<union> set (initOnly p))" for f
    using map_of_SomeD [of "setters p" name f] map_of_SomeD [of "initOnly p" name f] by (metis UnCI image_iff snd_conv)
  have step: "f name v m = Inr m1 \<Longrightarrow> P m1" if "map_of (setters p) name = Some f \<or> map_of (initOnly p) name = Some f" for f m1
    by (rule assms(1) [OF in_table [OF that] Cons.prems(1)])
  show ?case
  proof (cases "map_of (setters p) name")
    case (Some f)
    then obtain m1 where "f name v m = Inr m1" "InitProperties p ignoreUnknown ps m1 = Inr (ok, m')"
      using Cons.prems(2) by (auto simp: nv bind_result_Inr_iff)
    then show ?thesis using Cons.IH step Some by blast
  next
    case None
    show ?thesis
    proof (cases "map_of (initOnly p) name")
      case (Some f)
      then obtain m1 where "f name v m = Inr m1" "InitProperties p ignoreUnknown ps m1 = Inr (ok, m')"
        using Cons.prems(2) None by (auto simp: nv bind_result_Inr_iff)
      then show ?thesis using Cons.IH step Some by blast
    next
      case unknown: None
      then show ?thesis using Cons.prems Cons.IH None by (auto simp: nv split: if_splits)
    qed
  qed
qed simp

section \<open>Objects\<close>

record 'm object =
  obj_id :: string
  obj_logger :: logger
  obj_state :: 'm

text \<open>The virtual functions of the base class and of a class with a table of properties.\<close>

definition Object_GetPropertySync :: "string \<Rightarrow> 'm \<Rightarrow> string option" where
  "Object_GetPropertySync name m = None"

definition Object_SetPropertySync :: "string \<Rightarrow> string \<Rightarrow> 'm \<Rightarrow> failure + bool \<times> 'm" where
  "Object_SetPropertySync name v m = Inr (False, m)"

definition Object_ListPropertiesSync :: "'m \<Rightarrow> string list" where
  "Object_ListPropertiesSync m = []"

definition Object_SaveCheckpointSync :: "string \<Rightarrow> 'm \<Rightarrow> bool \<times> 'm" where
  "Object_SaveCheckpointSync path m = (True, m)"

definition Object_RestoreCheckpointSync :: "string \<Rightarrow> 'm \<Rightarrow> bool \<times> 'm" where
  "Object_RestoreCheckpointSync path m = (True, m)"

definition Object_GetProperty :: "(string \<Rightarrow> 'm \<Rightarrow> string option) \<Rightarrow> string \<Rightarrow> 'm object \<Rightarrow> string option" where
  "Object_GetProperty getSync name ob =
     (if name = ''logLevel''
      then Some (GetLogLevelStr (own_level (obj_logger ob)) (ancestor_levels (obj_logger ob)))
      else getSync name (obj_state ob))"

definition Object_SetProperty ::
  "(string \<Rightarrow> string \<Rightarrow> 'm \<Rightarrow> failure + bool \<times> 'm) \<Rightarrow> string \<Rightarrow> string \<Rightarrow> 'm object \<Rightarrow> failure + bool \<times> 'm object" where
  "Object_SetProperty setSync name v ob =
     (if name = ''logLevel''
      then (case SetLogLevel v (obj_logger ob) of (ok, lg) \<Rightarrow> Inr (ok, ob\<lparr>obj_logger := lg\<rparr>))
      else bind_result (setSync name v (obj_state ob)) (\<lambda>(ok, m). Inr (ok, ob\<lparr>obj_state := m\<rparr>)))"

definition Object_ListProperties :: "('m \<Rightarrow> string list) \<Rightarrow> 'm object \<Rightarrow> string list" where
  "Object_ListProperties listSync ob = listSync (obj_state ob) @ [''logLevel'']"

text \<open>The contract of a property that can be changed at run time: what is set is read back in its normal form.\<close>

locale settable_property =
  fixes p :: "'m properties" and name :: string and get_fn :: "'m getter" and set_fn :: "'m setter"
    and legal :: "string \<Rightarrow> bool" and shown :: "string \<Rightarrow> string"
  assumes ordinary: "name \<noteq> ''logLevel''"
    and readable: "map_of (getters p) name = Some get_fn"
    and settable: "map_of (setters p) name = Some set_fn"
    and set_get: "legal v \<Longrightarrow> \<exists>m'. set_fn name v m = Inr m' \<and> get_fn name m' = Some (shown v)"
begin

lemma set_then_get:
  assumes "legal v"
  shows "\<exists>ob'. Object_SetProperty (Properties_SetProperty p) name v ob = Inr (True, ob') \<and>
    Object_GetProperty (Properties_GetProperty p) name ob' = Some (shown v) \<and> obj_id ob' = obj_id ob"
proof -
  obtain m' where "set_fn name v (obj_state ob) = Inr m'" "get_fn name m' = Some (shown v)"
    using set_get [OF assms] by blast
  then show ?thesis using ordinary readable settable
    by (simp add: Object_SetProperty_def Object_GetProperty_def Properties_SetProperty_def Properties_GetProperty_def)
qed

lemma listed: "name \<in> set (Object_ListProperties (\<lambda>_. Properties_ListProperties p) ob)"
  using map_of_SomeD [OF readable] by (force simp: Object_ListProperties_def Properties_ListProperties_def)

lemma init_then_get:
  assumes "legal v"
  shows "\<exists>m'. InitProperties p ignoreUnknown [(name, v)] m = Inr (True, m') \<and> Properties_GetProperty p name m' = Some (shown v)"
  using set_get [OF assms, of m] readable settable by (auto simp: Properties_GetProperty_def)

end

section \<open>The registry of objects\<close>

text \<open>
  The objects in memory and the registry.  A pointer is a number; a freed object is not in the store any more.
\<close>

type_synonym object_registry = "(string \<times> nat) list"

record 'm world =
  w_store :: "nat \<rightharpoonup> 'm object"
  w_registry :: object_registry

definition RegisterObject :: "nat \<Rightarrow> string \<Rightarrow> object_registry \<Rightarrow> bool \<times> object_registry" where
  "RegisterObject a i reg =
     (case map_of reg i of Some _ \<Rightarrow> (False, reg) | None \<Rightarrow> (True, AList.update i a reg))"

definition UnregisterObject :: "string \<Rightarrow> object_registry \<Rightarrow> bool \<times> object_registry" where
  "UnregisterObject i reg =
     (case map_of reg i of Some _ \<Rightarrow> (True, AList.delete i reg) | None \<Rightarrow> (False, reg))"

definition GetObject :: "string \<Rightarrow> object_registry \<Rightarrow> nat option" where
  "GetObject i reg = map_of reg i"

definition GetIds :: "object_registry \<Rightarrow> string list" where
  "GetIds reg = map fst reg"

text \<open>
  The constructors and the destructor.  The index of a thread is appended to the id in a buffer of 1024 bytes.
  The constructor ignores whether the registration succeeded.
\<close>

definition indexed_id :: "string \<Rightarrow> int \<Rightarrow> string" where
  "indexed_id i index = take 1023 (i @ ''['' @ show_int index @ '']'')"

definition Object_new :: "nat \<Rightarrow> string \<Rightarrow> logger \<Rightarrow> 'm \<Rightarrow> 'm world \<Rightarrow> 'm world" where
  "Object_new a i lg m w =
     w\<lparr>w_store := (w_store w)(a \<mapsto> \<lparr>obj_id = i, obj_logger = lg, obj_state = m\<rparr>),
       w_registry := snd (RegisterObject a i (w_registry w))\<rparr>"

definition Object_new_indexed :: "nat \<Rightarrow> string \<Rightarrow> int \<Rightarrow> logger \<Rightarrow> 'm \<Rightarrow> 'm world \<Rightarrow> 'm world" where
  "Object_new_indexed a i index lg m w = Object_new a (indexed_id i index) lg m w"

definition Object_delete :: "nat \<Rightarrow> 'm world \<Rightarrow> 'm world" where
  "Object_delete a w =
     (case w_store w a of
        None \<Rightarrow> w
      | Some ob \<Rightarrow>
          w\<lparr>w_store := (w_store w)(a := None), w_registry := snd (UnregisterObject (obj_id ob) (w_registry w))\<rparr>)"

text \<open>Access to a property of an object found by its id.  A registered pointer to a freed object would be a bad access.\<close>

definition GetObjectProperty ::
  "(string \<Rightarrow> 'm \<Rightarrow> string option) \<Rightarrow> string \<Rightarrow> string \<Rightarrow> 'm world \<Rightarrow> failure + string option" where
  "GetObjectProperty getSync i name w =
     (case map_of (w_registry w) i of
        None \<Rightarrow> Inr None
      | Some a \<Rightarrow>
          (case w_store w a of
             None \<Rightarrow> Inl NullDeref
           | Some ob \<Rightarrow> Inr (Object_GetProperty getSync name ob)))"

definition SetObjectProperty ::
  "(string \<Rightarrow> string \<Rightarrow> 'm \<Rightarrow> failure + bool \<times> 'm) \<Rightarrow> string \<Rightarrow> string \<Rightarrow> string \<Rightarrow> 'm world \<Rightarrow> failure + bool \<times> 'm world" where
  "SetObjectProperty setSync i name v w =
     (case map_of (w_registry w) i of
        None \<Rightarrow> Inr (False, w)
      | Some a \<Rightarrow>
          (case w_store w a of
             None \<Rightarrow> Inl NullDeref
           | Some ob \<Rightarrow>
               bind_result (Object_SetProperty setSync name v ob) (\<lambda>(ok, ob1).
                 Inr (ok, w\<lparr>w_store := (w_store w)(a \<mapsto> ob1)\<rparr>))))"

subsection \<open>Reachable registries\<close>

definition registry_sound :: "'m world \<Rightarrow> bool" where
  "registry_sound w \<longleftrightarrow>
     distinct (GetIds (w_registry w)) \<and>
     (\<forall>i a. GetObject i (w_registry w) = Some a \<longrightarrow> (\<exists>ob. w_store w a = Some ob \<and> obj_id ob = i))"

definition registry_complete :: "'m world \<Rightarrow> bool" where
  "registry_complete w \<longleftrightarrow> (\<forall>a ob. w_store w a = Some ob \<longrightarrow> GetObject (obj_id ob) (w_registry w) = Some a)"

text \<open>The second argument records whether every object was created with an id that no living object had.\<close>

inductive world_reach :: "'m world \<Rightarrow> bool \<Rightarrow> bool" where
  init: "world_reach \<lparr>w_store = Map.empty, w_registry = []\<rparr> True"
| new: "world_reach w u \<Longrightarrow> w_store w a = None \<Longrightarrow> u' = (u \<and> (\<forall>ob\<in>ran (w_store w). obj_id ob \<noteq> i)) \<Longrightarrow>
    world_reach (Object_new a i lg m w) u'"
| new_indexed: "world_reach w u \<Longrightarrow> w_store w a = None \<Longrightarrow> u' = (u \<and> (\<forall>ob\<in>ran (w_store w). obj_id ob \<noteq> indexed_id i n)) \<Longrightarrow>
    world_reach (Object_new_indexed a i n lg m w) u'"
| delete: "world_reach w u \<Longrightarrow> world_reach (Object_delete a w) u"
| set_property: "world_reach w u \<Longrightarrow> SetObjectProperty setSync i name v w = Inr (ok, w') \<Longrightarrow> world_reach w' u"

lemma Object_SetProperty_id: "Object_SetProperty setSync name v ob = Inr (ok, ob') \<Longrightarrow> obj_id ob' = obj_id ob"
  by (auto simp: Object_SetProperty_def bind_result_Inr_iff split: if_splits prod.splits)

lemma RegisterObject_lookup [simp]:
  "GetObject j (snd (RegisterObject a i reg)) = (if j = i \<and> GetObject i reg = None then Some a else GetObject j reg)"
  by (simp add: RegisterObject_def GetObject_def update_conv' split: option.splits)

lemma UnregisterObject_lookup [simp]:
  "GetObject j (snd (UnregisterObject i reg)) = (if j = i then None else GetObject j reg)"
  by (auto simp: UnregisterObject_def GetObject_def delete_conv' split: option.splits)

lemma GetIds_distinct [simp]:
  "distinct (GetIds reg) \<Longrightarrow> distinct (GetIds (snd (RegisterObject a i reg)))"
  "distinct (GetIds reg) \<Longrightarrow> distinct (GetIds (snd (UnregisterObject i reg)))"
  by (simp_all add: RegisterObject_def UnregisterObject_def GetIds_def distinct_update distinct_delete split: option.splits)

lemma Object_new_sound: "registry_sound w \<Longrightarrow> w_store w a = None \<Longrightarrow> registry_sound (Object_new a i lg m w)"
  by (fastforce simp: registry_sound_def Object_new_def split: if_splits)

lemma Object_new_complete:
  assumes "registry_sound w" "registry_complete w" "\<forall>ob\<in>ran (w_store w). obj_id ob \<noteq> i"
  shows "registry_complete (Object_new a i lg m w)"
proof -
  have "GetObject i (w_registry w) = None"
    using assms(1,3) unfolding registry_sound_def ran_def by (metis (mono_tags, lifting) mem_Collect_eq option.exhaust)
  then show ?thesis using assms(2,3) by (auto simp: registry_complete_def Object_new_def ran_def)
qed

lemma Object_delete_sound: "registry_sound w \<Longrightarrow> registry_sound (Object_delete a w)"
  by (fastforce simp: registry_sound_def Object_delete_def split: option.splits)

lemma Object_delete_complete: "registry_complete w \<Longrightarrow> registry_complete (Object_delete a w)"
  unfolding registry_complete_def Object_delete_def
  by (auto split: option.splits if_splits) (metis option.inject)

lemma SetObjectProperty_keeps:
  assumes "SetObjectProperty setSync i name v w = Inr (ok, w')"
  shows "w_registry w' = w_registry w \<and> (\<forall>a. map_option obj_id (w_store w' a) = map_option obj_id (w_store w a))"
  using assms
  by (auto simp: SetObjectProperty_def bind_result_Inr_iff dest: Object_SetProperty_id split: option.splits)

lemma registry_cong:
  assumes "w_registry w' = w_registry w" "\<forall>a. map_option obj_id (w_store w' a) = map_option obj_id (w_store w a)"
  shows "registry_sound w \<Longrightarrow> registry_sound w'" "registry_complete w \<Longrightarrow> registry_complete w'"
proof -
  have s: "(\<exists>ob. w_store w' a = Some ob \<and> obj_id ob = i) = (\<exists>ob. w_store w a = Some ob \<and> obj_id ob = i)" for a i
    using assms(2) [rule_format, of a] by (cases "w_store w a"; cases "w_store w' a") auto
  then show "registry_sound w \<Longrightarrow> registry_sound w'" using assms(1) by (simp add: registry_sound_def)
  show "registry_complete w \<Longrightarrow> registry_complete w'"
    unfolding registry_complete_def assms(1) using s by metis
qed

lemma world_reach_inv: "world_reach w u \<Longrightarrow> registry_sound w \<and> (u \<longrightarrow> registry_complete w)"
proof (induction rule: world_reach.induct)
  case init
  then show ?case by (simp add: registry_sound_def registry_complete_def GetIds_def GetObject_def)
next
  case new
  then show ?case by (simp add: Object_new_sound Object_new_complete)
next
  case new_indexed
  then show ?case by (simp add: Object_new_indexed_def Object_new_sound Object_new_complete)
next
  case delete
  then show ?case using Object_delete_sound Object_delete_complete by blast
next
  case set_property
  then show ?case using SetObjectProperty_keeps registry_cong by blast
qed

text \<open>
  C36: whatever objects are created, changed and deleted, the registry never holds a pointer to a deleted object, so
  access to properties by id never fails there; and as long as no object is created with the id of a living one,
  every living object is found under its id.
\<close>

theorem registry_never_dangles:
  assumes "world_reach w unique"
  shows "GetObjectProperty getSync i name w =
      Inr (case GetObject i (w_registry w) of None \<Rightarrow> None | Some a \<Rightarrow> Object_GetProperty getSync name (the (w_store w a))) \<and>
    (\<forall>a ob. GetObject i (w_registry w) = Some a \<and> w_store w a = Some ob \<longrightarrow> obj_id ob = i) \<and>
    (unique \<longrightarrow> (\<forall>a ob. w_store w a = Some ob \<longrightarrow> GetObject (obj_id ob) (w_registry w) = Some a))"
proof -
  have inv: "registry_sound w" "unique \<longrightarrow> registry_complete w" using world_reach_inv [OF assms] by blast+
  show ?thesis
  proof (cases "GetObject i (w_registry w)")
    case None
    then show ?thesis using inv(2) by (auto simp: GetObjectProperty_def GetObject_def registry_complete_def)
  next
    case (Some a)
    then obtain ob where "w_store w a = Some ob" "obj_id ob = i" using inv(1) by (auto simp: registry_sound_def)
    then show ?thesis using Some inv(2) by (auto simp: GetObjectProperty_def GetObject_def registry_complete_def)
  qed
qed

definition demo_logger :: logger where
  "demo_logger = \<lparr>own_level = None, ancestor_levels = [Some Warn_level, Some Info_level]\<rparr>"

theorem registry_never_dangles_witness:
  "GetObject ''a[0]'' (w_registry (Object_new_indexed 1 ''a'' 0 demo_logger () \<lparr>w_store = Map.empty, w_registry = []\<rparr>)) = Some 1 \<and>
   GetObjectProperty Object_GetPropertySync ''a[0]'' ''logLevel''
     (Object_new_indexed 1 ''a'' 0 demo_logger () \<lparr>w_store = Map.empty, w_registry = []\<rparr>) = Inr (Some ''INFO'')"
proof -
  let ?w = "Object_new_indexed 1 ''a'' 0 demo_logger () \<lparr>w_store = Map.empty, w_registry = []\<rparr>"
  have id: "indexed_id ''a'' 0 = ''a[0]''" by code_simp
  have r: "world_reach ?w True" by (rule world_reach.new_indexed [OF world_reach.init]) auto
  have st: "w_store ?w 1 = Some \<lparr>obj_id = ''a[0]'', obj_logger = demo_logger, obj_state = ()\<rparr>"
    by (simp add: Object_new_indexed_def Object_new_def id)
  then have "GetObject ''a[0]'' (w_registry ?w) = Some 1"
    using registry_never_dangles [OF r, of Object_GetPropertySync "''a[0]''" "''logLevel''"] by fastforce
  then show ?thesis
    using registry_never_dangles [OF r, of Object_GetPropertySync "''a[0]''" "''logLevel''"] st
    by (simp add: Object_GetProperty_def demo_logger_def GetLogLevelStr.simps level_str_def)
qed

text \<open>
  Deleting an object whose registration was refused removes the entry of the living object with the same id.
\<close>

lemma duplicate_unregisters_original:
  assumes "w_store w a = Some ob" "GetObject (obj_id ob) (w_registry w) = Some a" "b \<noteq> a" "w_store w b = None"
  shows "GetObject (obj_id ob) (w_registry (Object_new b (obj_id ob) lg m w)) = Some a \<and>
    (let w' = Object_delete b (Object_new b (obj_id ob) lg m w)
     in w_store w' = w_store w \<and> GetObject (obj_id ob) (w_registry w') = None)"
  using assms by (auto simp: Object_new_def Object_delete_def Let_def fun_eq_iff)

end
