(* ===== verification/Modules.thy ===== *)
theory Modules
  imports Conservation ResourceTypes Objects
begin

text \<open>
  The modules of the repository (\<^verbatim>\<open>src/lib/processing_engine/Module.h\<close>, \<^verbatim>\<open>Module.cc\<close> and \<^verbatim>\<open>Null\<close>, \<^verbatim>\<open>Dump\<close>, \<^verbatim>\<open>TestInput\<close>,
  \<^verbatim>\<open>TestOutput\<close>, \<^verbatim>\<open>TestSimple\<close>, \<^verbatim>\<open>TestMulti\<close> under \<^verbatim>\<open>module/\<close>): their members, tables of properties, initialisation and
  processing functions.  What the processor relies on is stated by locales; each module that keeps the contract
  interprets it.  Log output is left out.
\<close>

section \<open>The base class\<close>

definition Module_Init :: "(string \<times> string) list option \<Rightarrow> 'm \<Rightarrow> bool \<times> 'm" where
  "Module_Init params m = (False, m)"

definition Module_GetType :: "'m \<Rightarrow> module_type" where
  "Module_GetType m = INVALID"

definition Module_ProcessInputSync :: "bool \<Rightarrow> 'm \<Rightarrow> 'd resource option \<times> 'm" where
  "Module_ProcessInputSync sleep m = (None, m)"

definition Module_ProcessOutputSync :: "'d resource option \<Rightarrow> 'm \<Rightarrow> 'd resource option \<times> 'm" where
  "Module_ProcessOutputSync r m = (None, m)"

definition Module_ProcessSimpleSync :: "'d resource \<Rightarrow> 'm \<Rightarrow> 'd resource option \<times> 'm" where
  "Module_ProcessSimpleSync r m = (None, m)"

text \<open>
  The count of works in progress keeps the value the processor passed in; the number of expected resources is never
  set and is whatever the variable of the processor held.
\<close>

definition Module_ProcessMultiSync ::
  "int \<Rightarrow> 'd resource list \<Rightarrow> 'd resource list \<Rightarrow> int \<Rightarrow> 'm \<Rightarrow> bool \<times> 'd resource list \<times> 'd resource list \<times> int \<times> int \<times> 'm" where
  "Module_ProcessMultiSync garbage inp out processing m = (False, inp, out, garbage, processing, m)"

section \<open>Dump\<close>

definition Dump_props :: "unit properties" where
  "Dump_props = ObjectProperties_new"

definition Dump_Init :: "(string \<times> string) list option \<Rightarrow> unit \<Rightarrow> failure + bool \<times> unit" where
  "Dump_Init params m =
     (case params of
        None \<Rightarrow> Inr (True, m)
      | Some ps \<Rightarrow> bind_result (InitProperties Dump_props False ps m) (\<lambda>(ok, m1). Inr (True, m1)))"

definition Dump_ProcessSimpleSync :: "'d resource \<Rightarrow> unit \<Rightarrow> 'd resource option \<times> unit" where
  "Dump_ProcessSimpleSync r m = (Some r, m)"

section \<open>TestOutput\<close>

record test_output =
  to_items :: int

definition TestOutput_new :: test_output where
  "TestOutput_new = \<lparr>to_items = 0\<rparr>"

definition TestOutput_GetItems :: "test_output getter" where
  "TestOutput_GetItems name m = Some (int2str (to_items m))"

definition TestOutput_props :: "test_output properties" where
  "TestOutput_props = Properties_Add ''items'' TestOutput_GetItems None False ObjectProperties_new"

definition TestOutput_Init :: "(string \<times> string) list option \<Rightarrow> test_output \<Rightarrow> failure + bool \<times> test_output" where
  "TestOutput_Init params m =
     (case params of
        None \<Rightarrow> Inr (True, m)
      | Some ps \<Rightarrow> bind_result (InitProperties TestOutput_props False ps m) (\<lambda>(ok, m1). Inr (True, m1)))"

definition TestOutput_ProcessOutputSync :: "'d resource option \<Rightarrow> test_output \<Rightarrow> 'd resource option \<times> test_output" where
  "TestOutput_ProcessOutputSync r m = (r, m\<lparr>to_items := to_items m + 1\<rparr>)"

section \<open>TestSimple\<close>

record test_simple =
  ts_items :: int
  ts_foo :: "string option"
  ts_flipStatus :: bool
  ts_setStatus :: int

definition TestSimple_new :: test_simple where
  "TestSimple_new = \<lparr>ts_items = 0, ts_foo = None, ts_flipStatus = False, ts_setStatus = - 1\<rparr>"

definition TestSimple_GetItems :: "test_simple getter" where
  "TestSimple_GetItems name m = Some (int2str (ts_items m))"

definition TestSimple_GetFoo :: "test_simple getter" where
  "TestSimple_GetFoo name m = ts_foo m"

definition TestSimple_SetFoo :: "test_simple setter" where
  "TestSimple_SetFoo name v m = Inr (m\<lparr>ts_foo := Some v\<rparr>)"

definition TestSimple_GetFlipStatus :: "test_simple getter" where
  "TestSimple_GetFlipStatus name m = Some (bool2str (ts_flipStatus m))"

definition TestSimple_SetFlipStatus :: "test_simple setter" where
  "TestSimple_SetFlipStatus name v m =
     (if str2bool v = 0 then Inr (m\<lparr>ts_flipStatus := False\<rparr>)
      else if str2bool v = 1 then Inr (m\<lparr>ts_flipStatus := True\<rparr>)
      else Inr m)"

definition TestSimple_GetSetStatus :: "test_simple getter" where
  "TestSimple_GetSetStatus name m = Some (int2str (ts_setStatus m))"

text \<open>A number the type cannot hold.\<close>

definition set_int :: "string \<Rightarrow> (int \<Rightarrow> 'm) \<Rightarrow> failure + 'm" where
  "set_int v f = (case str2int v of Some n \<Rightarrow> Inr (f n) | None \<Rightarrow> Inl Overflow)"

definition TestSimple_SetSetStatus :: "test_simple setter" where
  "TestSimple_SetSetStatus name v m = set_int v (\<lambda>n. m\<lparr>ts_setStatus := n\<rparr>)"

definition TestSimple_props :: "test_simple properties" where
  "TestSimple_props =
     Properties_Add ''setStatus'' TestSimple_GetSetStatus (Some TestSimple_SetSetStatus) False
     (Properties_Add ''flipStatus'' TestSimple_GetFlipStatus (Some TestSimple_SetFlipStatus) False
     (Properties_Add ''alias'' TestSimple_GetFoo (Some TestSimple_SetFoo) False
     (Properties_Add ''foo'' TestSimple_GetFoo (Some TestSimple_SetFoo) False
     (Properties_Add ''items'' TestSimple_GetItems None False ObjectProperties_new))))"

definition TestSimple_Init :: "(string \<times> string) list option \<Rightarrow> test_simple \<Rightarrow> failure + bool \<times> test_simple" where
  "TestSimple_Init params m =
     (case params of
        None \<Rightarrow> Inr (True, m)
      | Some ps \<Rightarrow> bind_result (InitProperties TestSimple_props False ps m) (\<lambda>(ok, m1). Inr (True, m1)))"

definition TestSimple_ProcessSimpleSync :: "'d resource \<Rightarrow> test_simple \<Rightarrow> 'd resource option \<times> test_simple" where
  "TestSimple_ProcessSimpleSync r m =
     (if \<not> TestResource_IsInstance r then (Some r, m)
      else
        let r1 = (if ts_flipStatus m then r\<lparr>r_status := (if r_status r = 0 then 1 else 0)\<rparr> else r);
            r2 = (if ts_setStatus m \<ge> 0 then r1\<lparr>r_status := ts_setStatus m\<rparr> else r1)
        in (Some r2, m\<lparr>ts_items := ts_items m + 1\<rparr>))"

section \<open>TestMulti\<close>

text \<open>The answers of the next calls of \<^verbatim>\<open>select\<close> are part of the state: true is a failure, after the last one they succeed.\<close>

record 'd test_multi =
  tm_items :: int
  tm_foo :: "string option"
  tm_timeTick :: int
  tm_resources :: "'d resource list"
  tm_select :: "bool list"

definition TestMulti_MAX_RESOURCES :: nat where
  "TestMulti_MAX_RESOURCES = 100"

definition TestMulti_new :: "bool list \<Rightarrow> 'd test_multi" where
  "TestMulti_new answers = \<lparr>tm_items = 0, tm_foo = None, tm_timeTick = 100 * 1000, tm_resources = [], tm_select = answers\<rparr>"

definition TestMulti_GetItems :: "'d test_multi getter" where
  "TestMulti_GetItems name m = Some (int2str (tm_items m))"

definition TestMulti_GetFoo :: "'d test_multi getter" where
  "TestMulti_GetFoo name m = tm_foo m"

definition TestMulti_SetFoo :: "'d test_multi setter" where
  "TestMulti_SetFoo name v m = Inr (m\<lparr>tm_foo := Some v\<rparr>)"

definition TestMulti_GetTimeTick :: "'d test_multi getter" where
  "TestMulti_GetTimeTick name m = Some (int2str (tm_timeTick m))"

definition TestMulti_SetTimeTick :: "'d test_multi setter" where
  "TestMulti_SetTimeTick name v m = set_int v (\<lambda>n. m\<lparr>tm_timeTick := n\<rparr>)"

definition TestMulti_props :: "'d test_multi properties" where
  "TestMulti_props =
     Properties_Add ''timeTick'' TestMulti_GetTimeTick (Some TestMulti_SetTimeTick) False
     (Properties_Add ''alias'' TestMulti_GetFoo (Some TestMulti_SetFoo) False
     (Properties_Add ''foo'' TestMulti_GetFoo (Some TestMulti_SetFoo) False
     (Properties_Add ''items'' TestMulti_GetItems None False ObjectProperties_new)))"

definition TestMulti_Init :: "(string \<times> string) list option \<Rightarrow> 'd test_multi \<Rightarrow> failure + bool \<times> 'd test_multi" where
  "TestMulti_Init params m =
     (case params of
        None \<Rightarrow> Inr (True, m)
      | Some ps \<Rightarrow> bind_result (InitProperties TestMulti_props False ps m) (\<lambda>(ok, m1). Inr (True, m1)))"

fun TestMulti_take :: "'d resource list \<Rightarrow> 'd resource list \<Rightarrow> 'd resource list \<times> 'd resource list" where
  "TestMulti_take [] kept = ([], kept)"
| "TestMulti_take (r # inp) kept =
     (if length kept \<le> TestMulti_MAX_RESOURCES
      then TestMulti_take inp (if TestResource_IsInstance r then kept @ [r] else kept)
      else (r # inp, kept))"

definition TestMulti_ProcessMultiSync ::
  "'d resource list \<Rightarrow> 'd resource list \<Rightarrow> int \<Rightarrow> 'd test_multi
     \<Rightarrow> bool \<times> 'd resource list \<times> 'd resource list \<times> int \<times> int \<times> 'd test_multi" where
  "TestMulti_ProcessMultiSync inp out processing m =
     (case TestMulti_take inp (tm_resources m) of
        (inp1, []) \<Rightarrow> (False, inp1, out, int TestMulti_MAX_RESOURCES, 0, m\<lparr>tm_resources := []\<rparr>)
      | (inp1, r # kept) \<Rightarrow>
          if tm_select m \<noteq> [] \<and> hd (tm_select m) then
            (True, inp1, out, 0, int (length (r # kept)), m\<lparr>tm_resources := r # kept, tm_select := tl (tm_select m)\<rparr>)
          else
            (kept \<noteq> [], inp1, out @ [r], int TestMulti_MAX_RESOURCES - int (length kept), int (length kept),
             m\<lparr>tm_resources := kept, tm_select := tl (tm_select m), tm_items := tm_items m + 1\<rparr>))"

section \<open>Null\<close>

record null_module =
  nm_moduleType :: module_type
  nm_items :: int
  nm_typeId :: int

definition Null_MAX_RESOURCES :: int where
  "Null_MAX_RESOURCES = 10000"

definition Null_new :: null_module where
  "Null_new = \<lparr>nm_moduleType = INVALID, nm_items = 0, nm_typeId = - 1\<rparr>"

definition Null_GetModuleType :: "null_module getter" where
  "Null_GetModuleType name m =
     Some (case nm_moduleType m of
       INPUT \<Rightarrow> ''INPUT'' | SIMPLE \<Rightarrow> ''SIMPLE'' | MULTI \<Rightarrow> ''MULTI'' | OUTPUT \<Rightarrow> ''OUTPUT'' | INVALID \<Rightarrow> ''INVALID'')"

definition Null_SetModuleType :: "null_module setter" where
  "Null_SetModuleType name v m =
     Inr (if v = ''INPUT'' then m\<lparr>nm_moduleType := INPUT\<rparr>
          else if v = ''SIMPLE'' then m\<lparr>nm_moduleType := SIMPLE\<rparr>
          else if v = ''MULTI'' then m\<lparr>nm_moduleType := MULTI\<rparr>
          else if v = ''OUTPUT'' then m\<lparr>nm_moduleType := OUTPUT\<rparr>
          else m)"

definition Null_GetItems :: "null_module getter" where
  "Null_GetItems name m = Some (int2str (nm_items m))"

definition Null_props :: "null_module properties" where
  "Null_props =
     Properties_Add ''items'' Null_GetItems None False
     (Properties_Add ''moduleType'' Null_GetModuleType (Some Null_SetModuleType) True ObjectProperties_new)"

definition Null_Init ::
  "(string \<rightharpoonup> 'd resource_lib) \<Rightarrow> (string \<times> string) list option \<Rightarrow> null_module \<Rightarrow> 'd registry
     \<Rightarrow> failure + bool \<times> null_module \<times> 'd registry" where
  "Null_Init load params m reg =
     (case params of
        None \<Rightarrow> Inr (True, m, reg)
      | Some ps \<Rightarrow>
          bind_result (InitProperties Null_props False ps m) (\<lambda>(ok, m1).
            if \<not> ok then Inr (False, m1, reg)
            else if nm_moduleType m1 = INVALID then Inr (False, m1, reg)
            else bind_result (NameToId load ''TestResource'' reg) (\<lambda>(t, reg1).
              Inr (True, m1\<lparr>nm_typeId := t\<rparr>, reg1))))"

definition Null_ProcessInputSync ::
  "(string \<rightharpoonup> 'd resource_lib) \<Rightarrow> bool \<Rightarrow> null_module \<Rightarrow> 'd registry \<Rightarrow> failure + 'd resource option \<times> null_module \<times> 'd registry" where
  "Null_ProcessInputSync load sleep m reg =
     bind_result (AcquireResource load (nm_typeId m) reg) (\<lambda>(r, reg1).
       Inr (r, m\<lparr>nm_items := nm_items m + 1\<rparr>, reg1))"

definition Null_ProcessSimpleSync :: "'d resource \<Rightarrow> null_module \<Rightarrow> 'd resource option \<times> null_module" where
  "Null_ProcessSimpleSync r m = (Some r, m)"

fun Null_copy :: "'d resource list \<Rightarrow> 'd resource list \<Rightarrow> 'd resource list \<times> 'd resource list" where
  "Null_copy [] out = ([], out)"
| "Null_copy (r # inp) out = Null_copy inp (out @ [r])"

definition Null_ProcessMultiSync ::
  "'d resource list \<Rightarrow> 'd resource list \<Rightarrow> int \<Rightarrow> null_module
     \<Rightarrow> bool \<times> 'd resource list \<times> 'd resource list \<times> int \<times> int \<times> null_module" where
  "Null_ProcessMultiSync inp out processing m =
     (case Null_copy inp out of (inp1, out1) \<Rightarrow> (False, inp1, out1, Null_MAX_RESOURCES, 0, m))"

definition Null_ProcessOutputSync :: "'d resource option \<Rightarrow> null_module \<Rightarrow> 'd resource option \<times> null_module" where
  "Null_ProcessOutputSync r m = (r, m)"

section \<open>TestInput\<close>

record test_input =
  ti_items :: int
  ti_maxItems :: int
  ti_idPrefix :: "string option"
  ti_resourceType :: "string option"
  ti_threadIndex :: int
  ti_typeId :: int

definition TestInput_new :: "int \<Rightarrow> int \<Rightarrow> test_input" where
  "TestInput_new threadIndex garbage =
     \<lparr>ti_items = 0, ti_maxItems = 0, ti_idPrefix = None, ti_resourceType = None, ti_threadIndex = threadIndex,
      ti_typeId = garbage\<rparr>"

definition TestInput_GetItems :: "test_input getter" where
  "TestInput_GetItems name m = Some (int2str (ti_items m))"

definition TestInput_GetMaxItems :: "test_input getter" where
  "TestInput_GetMaxItems name m = Some (int2str (ti_maxItems m))"

definition TestInput_SetMaxItems :: "test_input setter" where
  "TestInput_SetMaxItems name v m = set_int v (\<lambda>n. m\<lparr>ti_maxItems := n\<rparr>)"

definition TestInput_GetIdPrefix :: "test_input getter" where
  "TestInput_GetIdPrefix name m = ti_idPrefix m"

definition TestInput_SetIdPrefix :: "test_input setter" where
  "TestInput_SetIdPrefix name v m = Inr (m\<lparr>ti_idPrefix := Some v\<rparr>)"

definition TestInput_GetResourceType :: "test_input getter" where
  "TestInput_GetResourceType name m = ti_resourceType m"

definition TestInput_SetResourceType :: "test_input setter" where
  "TestInput_SetResourceType name v m = Inr (m\<lparr>ti_resourceType := Some v\<rparr>)"

definition TestInput_props :: "test_input properties" where
  "TestInput_props =
     Properties_Add ''resourceType'' TestInput_GetResourceType (Some TestInput_SetResourceType) True
     (Properties_Add ''idPrefix'' TestInput_GetIdPrefix (Some TestInput_SetIdPrefix) False
     (Properties_Add ''maxItems'' TestInput_GetMaxItems (Some TestInput_SetMaxItems) True
     (Properties_Add ''items'' TestInput_GetItems None False ObjectProperties_new)))"

definition TestInput_Init ::
  "(string \<rightharpoonup> 'd resource_lib) \<Rightarrow> (string \<times> string) list option \<Rightarrow> test_input \<Rightarrow> 'd registry
     \<Rightarrow> failure + bool \<times> test_input \<times> 'd registry" where
  "TestInput_Init load params m reg =
     (case params of
        None \<Rightarrow> Inr (True, m, reg)
      | Some ps \<Rightarrow>
          bind_result (InitProperties TestInput_props False ps m) (\<lambda>(ok, m1).
            if \<not> ok then Inr (False, m1, reg)
            else
              let name = (case ti_resourceType m1 of None \<Rightarrow> ''TestResource'' | Some n \<Rightarrow> n);
                  m2 = m1\<lparr>ti_resourceType := Some name\<rparr>
              in bind_result (NameToId load name reg) (\<lambda>(t, reg1).
                Inr (\<not> t < 0, m2\<lparr>ti_typeId := t\<rparr>, reg1))))"

definition TestProtobufResource_typeId :: int where
  "TestProtobufResource_typeId = 2"

definition TestProtobufResource_IsInstance :: "'d resource \<Rightarrow> bool" where
  "TestProtobufResource_IsInstance r \<longleftrightarrow> r_type r = TestProtobufResource_typeId"

text \<open>
  The text of the created resource, cut to the buffer.  The arguments \<open>put\<close> and \<open>put_pb\<close> set the string in the body of
  the two test classes.
\<close>

definition TestInput_text :: "test_input \<Rightarrow> string" where
  "TestInput_text m =
     take 1023 ((case ti_idPrefix m of None \<Rightarrow> [] | Some p \<Rightarrow> p) @ show_int (ti_threadIndex m) @ ''-'' @ show_int (ti_items m))"

definition TestInput_ProcessInputSync ::
  "(string \<Rightarrow> 'd \<Rightarrow> 'd) \<Rightarrow> (string \<Rightarrow> 'd \<Rightarrow> 'd) \<Rightarrow> (string \<rightharpoonup> 'd resource_lib) \<Rightarrow> bool \<Rightarrow> test_input \<Rightarrow> 'd registry
     \<Rightarrow> failure + 'd resource option \<times> test_input \<times> 'd registry" where
  "TestInput_ProcessInputSync put put_pb load sleep m reg =
     (if ti_maxItems m \<noteq> 0 \<and> ti_items m \<ge> ti_maxItems m then Inr (None, m, reg)
      else bind_result (AcquireResource load (ti_typeId m) reg) (\<lambda>(ores, reg1).
        case ores of
          None \<Rightarrow> Inl NullDeref
        | Some r \<Rightarrow>
            let r1 = r\<lparr>r_id := ti_threadIndex m * 10000 + ti_items m\<rparr>;
                r2 = (if TestResource_IsInstance r1 then r1\<lparr>r_data := put (TestInput_text m) (r_data r1)\<rparr>
                      else if TestProtobufResource_IsInstance r1 then r1\<lparr>r_data := put_pb (TestInput_text m) (r_data r1)\<rparr>
                      else r1)
            in Inr (Some r2, m\<lparr>ti_items := ti_items m + 1\<rparr>, reg1)))"

section \<open>What the processor relies on\<close>

subsection \<open>Simple modules\<close>

locale simple_module =
  fixes process :: "'d resource \<Rightarrow> 'm \<Rightarrow> 'd resource option \<times> 'm"
  assumes keeps: "\<exists>r'. fst (process r st) = Some r' \<and> r_id r' = r_id r \<and> r_type r' = r_type r \<and> r_flags r' = r_flags r"
begin

lemma never_drops: "fst (process r st) \<noteq> None"
  using keeps [of r st] by auto

lemma lossless_if_simple:
  assumes "mi_type mi = SIMPLE" "processSimple (mi_ops mi) = process"
  shows "lossless [mi]"
  using assms never_drops by (auto simp: lossless_def careful_def intro!: exI [of _ "\<lambda>_. True"])

end

interpretation dump: simple_module Dump_ProcessSimpleSync
  by unfold_locales (simp add: Dump_ProcessSimpleSync_def)

interpretation null_simple: simple_module Null_ProcessSimpleSync
  by unfold_locales (simp add: Null_ProcessSimpleSync_def)

interpretation test_simple: simple_module TestSimple_ProcessSimpleSync
  by unfold_locales (simp add: TestSimple_ProcessSimpleSync_def Let_def)

subsection \<open>Multi modules\<close>

text \<open>
  A multi module may keep resources back but has to return all of them, in order; the number it reports is the
  number it keeps.  \<open>accepts\<close> are the resources for which the module promises that.
\<close>

locale multi_module =
  fixes process :: "'d resource list \<Rightarrow> 'd resource list \<Rightarrow> int \<Rightarrow> 'm \<Rightarrow>
      bool \<times> 'd resource list \<times> 'd resource list \<times> int \<times> int \<times> 'm"
    and kept :: "'m \<Rightarrow> 'd resource list"
    and accepts :: "'d resource \<Rightarrow> bool"
  assumes in_order: "list_all accepts inp \<Longrightarrow> process inp out k st = (busy, inp', out', n, k', st') \<Longrightarrow>
      out' @ kept st' @ inp' = out @ kept st @ inp"
    and reports: "process inp out k st = (busy, inp', out', n, k', st') \<Longrightarrow> k' = int (length (kept st'))"
begin

definition in_step :: "('d, 'm) module_info \<Rightarrow> bool" where
  "in_step mi \<longleftrightarrow> processMulti (mi_ops mi) = process \<and> mi_processing mi = int (length (kept (mi_state mi)))"

definition pipeline :: "('d, 'm) module_info \<Rightarrow> 'd resource list" where
  "pipeline mi = mi_output mi @ kept (mi_state mi) @ mi_input mi"

lemma multi_process_conserves:
  assumes "j < length (th_mis th)" "in_step (th_mis th ! j)" "list_all accepts (mi_input (th_mis th ! j))"
  shows "\<exists>minN' th'. multi_process j minN th = Continue (minN', th') \<and> in_step (th_mis th' ! j) \<and>
    pipeline (th_mis th' ! j) = pipeline (th_mis th ! j) \<and> th_env th' = th_env th"
proof -
  define mi where "mi = th_mis th ! j"
  obtain busy inp out n k st where p: "process (mi_input mi) (mi_output mi) (mi_processing mi) (mi_state mi) = (busy, inp, out, n, k, st)"
    by (metis prod_cases6)
  have ord: "out @ kept st @ inp = mi_output mi @ kept (mi_state mi) @ mi_input mi" and k: "k = int (length (kept st))"
    using in_order [OF _ p] reports [OF p] assms(3) by (simp_all add: mi_def)
  then have len: "int (length out) + int (length (kept st)) + int (length inp) =
      int (length (mi_output mi)) + int (length (kept (mi_state mi))) + int (length (mi_input mi))"
    by (metis (no_types, lifting) add.assoc length_append of_nat_add)
  show ?thesis using assms(1,2) p ord k len
    by (simp add: multi_process_def Let_def in_step_def pipeline_def flip: mi_def)
qed

end

lemma Null_copy_all: "Null_copy inp out = ([], out @ inp)"
  by (induction inp arbitrary: out) auto

interpretation null_multi: multi_module Null_ProcessMultiSync "\<lambda>_. []" "\<lambda>_. True"
  by unfold_locales (auto simp: Null_ProcessMultiSync_def Null_copy_all)

lemma TestMulti_take_order:
  "list_all TestResource_IsInstance inp \<Longrightarrow> TestMulti_take inp ks = (inp', ks') \<Longrightarrow> ks' @ inp' = ks @ inp"
  by (induction inp arbitrary: ks) (auto split: if_splits)

lemma TestMulti_take_bound:
  "TestMulti_take inp ks = (inp', ks') \<Longrightarrow> length ks \<le> Suc TestMulti_MAX_RESOURCES \<Longrightarrow> length ks' \<le> Suc TestMulti_MAX_RESOURCES"
  by (induction inp ks rule: TestMulti_take.induct) (auto split: if_splits)

interpretation test_multi: multi_module TestMulti_ProcessMultiSync tm_resources TestResource_IsInstance
proof unfold_locales
  fix inp out :: "'a resource list" and k st busy inp' out' n k' st'
  assume a: "list_all TestResource_IsInstance inp"
    and p: "TestMulti_ProcessMultiSync inp out k st = (busy, inp', out', n, k', st')"
  obtain i ks where t: "TestMulti_take inp (tm_resources st) = (i, ks)" by fastforce
  show "out' @ tm_resources st' @ inp' = out @ tm_resources st @ inp"
    using TestMulti_take_order [OF a t] p t
    by (cases ks) (auto simp: TestMulti_ProcessMultiSync_def split: if_splits)
next
  fix inp out :: "'a resource list" and k st busy inp' out' n k' st'
  assume "TestMulti_ProcessMultiSync inp out k st = (busy, inp', out', n, k', st')"
  then show "k' = int (length (tm_resources st'))"
    by (auto simp: TestMulti_ProcessMultiSync_def split: prod.splits list.splits if_splits)
qed

text \<open>
  C10: \<^verbatim>\<open>TestMulti\<close> inside a processor.  As long as it is given test resources only, the call of the processor succeeds,
  the engine's counter stays, no resource is lost or overtaken on its way from the input through the module to the
  output, and the module never keeps more than 101 resources.
\<close>

theorem TestMulti_pipeline:
  assumes "j < length (th_mis th)" and "processMulti (mi_ops (th_mis th ! j)) = TestMulti_ProcessMultiSync"
    and "mi_processing (th_mis th ! j) = int (length (tm_resources (mi_state (th_mis th ! j))))"
    and "length (tm_resources (mi_state (th_mis th ! j))) \<le> 101"
    and "list_all TestResource_IsInstance (mi_input (th_mis th ! j))"
  shows "\<exists>minN' th'. multi_process j minN th = Continue (minN', th') \<and> th_env th' = th_env th \<and>
    (let old = th_mis th ! j; new = th_mis th' ! j
     in mi_output new @ tm_resources (mi_state new) @ mi_input new = mi_output old @ tm_resources (mi_state old) @ mi_input old \<and>
        mi_processing new = int (length (tm_resources (mi_state new))) \<and> length (tm_resources (mi_state new)) \<le> 101)"
proof -
  obtain minN' th' where m: "multi_process j minN th = Continue (minN', th')" "test_multi.in_step (th_mis th' ! j)"
    "test_multi.pipeline (th_mis th' ! j) = test_multi.pipeline (th_mis th ! j)" "th_env th' = th_env th"
    using test_multi.multi_process_conserves [of j th minN] assms by (auto simp: test_multi.in_step_def)
  have "length (tm_resources (mi_state (th_mis th' ! j))) \<le> 101"
  proof -
    let ?mi = "th_mis th ! j"
    obtain i ks where t: "TestMulti_take (mi_input ?mi) (tm_resources (mi_state ?mi)) = (i, ks)" by fastforce
    have "length ks \<le> 101" using TestMulti_take_bound [OF t] assms(4) by (simp add: TestMulti_MAX_RESOURCES_def)
    then show ?thesis using m(1) assms(1,2) t
      by (cases ks) (auto simp: multi_process_def Let_def TestMulti_ProcessMultiSync_def split: if_splits)
  qed
  then show ?thesis using m by (auto simp: test_multi.pipeline_def test_multi.in_step_def)
qed

text \<open>
  \<^verbatim>\<open>TestMulti\<close> given any other resource takes it out of its queue and loses it: the assertion of the processor
  fails and the process aborts.
\<close>

theorem TestMulti_foreign_resource_aborts:
  assumes "j < length (th_mis th)" and "processMulti (mi_ops (th_mis th ! j)) = TestMulti_ProcessMultiSync"
    and "mi_processing (th_mis th ! j) = int (length (tm_resources (mi_state (th_mis th ! j))))"
    and "length (tm_resources (mi_state (th_mis th ! j))) \<le> 100"
    and "mi_input (th_mis th ! j) = [r]" and "\<not> TestResource_IsInstance r"
  shows "multi_process j minN th = Fail AssertFailed"
  using assms
  by (cases "tm_resources (mi_state (th_mis th ! j))")
    (simp_all add: multi_process_def TestMulti_ProcessMultiSync_def TestMulti_MAX_RESOURCES_def Let_def)

section \<open>TestInput and the registry of resources\<close>

subsection \<open>Known types stay known\<close>

definition names_known :: "'d registry \<Rightarrow> bool" where
  "names_known s \<longleftrightarrow> (\<forall>n t. name2id s n = Some t \<longrightarrow> id2info s t \<noteq> None)"

lemma register_library_known:
  assumes "names_known s" "register_library lib s = (info, s')"
  shows "names_known s' \<and> id2info s' (lib_typeId lib) \<noteq> None \<and> (\<forall>t. id2info s t \<noteq> None \<longrightarrow> id2info s' t \<noteq> None)"
  using assms by (auto simp: names_known_def register_library_def NextResourceId_def Let_def split: option.splits if_splits)

lemma LoadResourceLibrary_loop_known:
  assumes "names_known s" "registry_ok load s" "libs_agree load"
    and "LoadResourceLibrary_loop load name t fs s = (oinfo, s')"
  shows "names_known s' \<and> (\<forall>info. oinfo = Some info \<longrightarrow> id2info s' (lib_typeId (info_lib info)) \<noteq> None) \<and>
    (\<forall>t. id2info s t \<noteq> None \<longrightarrow> id2info s' t \<noteq> None)"
  using assms
proof (induction load name t fs s rule: LoadResourceLibrary_loop.induct)
  case (1 load name t s)
  then show ?case by (auto simp: names_known_def)
next
  case (2 load name t f fs s)
  show ?case
  proof (cases "load f")
    case None
    then show ?thesis using 2 by simp
  next
    case (Some lib)
    obtain info s1 where r: "register_library lib s = (info, s1)" by fastforce
    note ok = register_library_ok [OF 2(4,5) Some r] and known = register_library_known [OF 2(3) r]
    show ?thesis
    proof (cases "(t \<noteq> 0 \<and> lib_typeId (info_lib info) = t) \<or> name = Some (lib_typeStr (info_lib info))")
      case True
      then have "oinfo = Some info" "s' = s1\<lparr>filenames := fs\<rparr>" using 2(6) Some r by auto
      then show ?thesis using ok known by (auto simp: names_known_def info_ok_def)
    next
      case False
      then show ?thesis using 2(2) [OF Some r [symmetric] False] 2(5,6) ok known Some r by auto
    qed
  qed
qed

lemma GetInfo_known:
  assumes "names_known s" "registry_ok load s" "libs_agree load" "GetInfo load t s = Inr (oinfo, s')"
  shows "names_known s' \<and> (\<forall>t. id2info s t \<noteq> None \<longrightarrow> id2info s' t \<noteq> None)"
  using assms LoadResourceLibrary_loop_known [OF assms(1-3), of None t "filenames s"]
  by (auto simp: GetInfo_def LoadResourceLibrary_def split: option.splits if_splits prod.splits)

lemma registry_operations_known:
  assumes "names_known s" "registry_ok load s" "libs_agree load"
  shows "AcquireResource load t s = Inr (ores, s') \<Longrightarrow> names_known s' \<and> (\<forall>t. id2info s t \<noteq> None \<longrightarrow> id2info s' t \<noteq> None)"
    and "ReleaseResource load (Some r) s = Inr s' \<Longrightarrow> names_known s' \<and> (\<forall>t. id2info s t \<noteq> None \<longrightarrow> id2info s' t \<noteq> None)"
    and "NameToId load n s = Inr (i, s') \<Longrightarrow>
      names_known s' \<and> (i \<noteq> - 1 \<longrightarrow> id2info s' i \<noteq> None) \<and> (\<forall>t. id2info s t \<noteq> None \<longrightarrow> id2info s' t \<noteq> None)"
proof -
  show "AcquireResource load t s = Inr (ores, s') \<Longrightarrow> names_known s' \<and> (\<forall>t. id2info s t \<noteq> None \<longrightarrow> id2info s' t \<noteq> None)"
    using GetInfo_known [OF assms, of t] assms(1)
    by (fastforce simp: AcquireResource_def bind_result_Inr_iff names_known_def NextResourceId_def Let_def
        split: if_splits option.splits prod.splits)
  show "ReleaseResource load (Some r) s = Inr s' \<Longrightarrow> names_known s' \<and> (\<forall>t. id2info s t \<noteq> None \<longrightarrow> id2info s' t \<noteq> None)"
    using GetInfo_known [OF assms, of "r_type r"]
    by (fastforce simp: ReleaseResource_def bind_result_Inr_iff names_known_def Let_def split: if_splits option.splits prod.splits)
  show "NameToId load n s = Inr (i, s') \<Longrightarrow>
      names_known s' \<and> (i \<noteq> - 1 \<longrightarrow> id2info s' i \<noteq> None) \<and> (\<forall>t. id2info s t \<noteq> None \<longrightarrow> id2info s' t \<noteq> None)"
    using LoadResourceLibrary_loop_known [OF assms, of "Some n" 0 "filenames s"] assms(1)
    by (auto simp: NameToId_def LoadResourceLibrary_def names_known_def split: option.splits if_splits prod.splits)
qed

text \<open>What any sequence of operations of other users makes of a registry.\<close>

inductive registry_later :: "(string \<rightharpoonup> 'd resource_lib) \<Rightarrow> 'd registry \<Rightarrow> 'd registry \<Rightarrow> bool" for load s where
  later_same: "registry_later load s s"
| later_acquire: "registry_later load s s1 \<Longrightarrow> AcquireResource load t s1 = Inr (ores, s2) \<Longrightarrow> registry_later load s s2"
| later_release: "registry_later load s s1 \<Longrightarrow> ReleaseResource load (Some r) s1 = Inr s2 \<Longrightarrow> registry_later load s s2"
| later_name: "registry_later load s s1 \<Longrightarrow> NameToId load n s1 = Inr (i, s2) \<Longrightarrow> registry_later load s s2"

lemma registry_later_reach: "registry_later load s s' \<Longrightarrow> registry_reach load s \<Longrightarrow> registry_reach load s'"
  by (induction rule: registry_later.induct) (auto intro: registry_reach.intros)

lemma registry_reach_known: "registry_reach load s \<Longrightarrow> libs_agree load \<Longrightarrow> names_known s"
proof (induction rule: registry_reach.induct)
  case (registry_new files)
  then show ?case by (simp add: names_known_def ResourceRegistry_new_def)
next
  case (registry_acquire s t o' s')
  then show ?case using registry_operations_known(1) registry_reach_ok by blast
next
  case (registry_release s r s')
  then show ?case using registry_operations_known(2) registry_reach_ok by blast
next
  case (registry_name s n i s')
  then show ?case using registry_operations_known(3) registry_reach_ok by blast
qed

lemma registry_later_known:
  "registry_later load s s' \<Longrightarrow> registry_reach load s \<Longrightarrow> libs_agree load \<Longrightarrow> id2info s t \<noteq> None \<Longrightarrow> id2info s' t \<noteq> None"
proof (induction rule: registry_later.induct)
  case (later_acquire s1 t ores s2)
  then show ?case
    by (metis registry_operations_known(1) registry_later_reach registry_reach_known registry_reach_ok)
next
  case (later_release s1 r s2)
  then show ?case
    by (metis registry_operations_known(2) registry_later_reach registry_reach_known registry_reach_ok)
next
  case (later_name s1 n i s2)
  then show ?case
    by (metis registry_operations_known(3) registry_later_reach registry_reach_known registry_reach_ok)
qed

lemma AcquireResource_known_type:
  assumes "registry_reach load s" "libs_agree load" "id2info s t \<noteq> None" "0 \<le> t"
  shows "\<exists>r f lib s'. AcquireResource load t s = Inr (Some r, s') \<and> load f = Some lib \<and> lib_typeId lib = t \<and>
    r = Resource_new (r_id r) t (lib_empty lib)"
proof -
  obtain info where i: "id2info s t = Some info" using assms(3) by blast
  then have "\<exists>r s'. AcquireResource load t s = Inr (Some r, s')"
    using assms(4) by (auto simp: AcquireResource_def GetInfo_def Let_def split: prod.splits)
  then show ?thesis using AcquireResource_ok [OF registry_reach_ok [OF assms(1,2)] assms(2)] by blast
qed

lemma AcquireResource_known_fields:
  assumes "registry_reach load s" "libs_agree load" "id2info s t \<noteq> None" "0 \<le> t"
  shows "\<exists>r s'. AcquireResource load t s = Inr (Some r, s') \<and> r_type r = t \<and> r_status r = 0 \<and> r_flags r = 0"
proof -
  obtain r f lib s' where a: "AcquireResource load t s = Inr (Some r, s')" and "load f = Some lib" and "lib_typeId lib = t"
    and r: "r = Resource_new (r_id r) t (lib_empty lib)"
    using AcquireResource_known_type [OF assms] by blast
  have "r_type r = t \<and> r_status r = 0 \<and> r_flags r = 0" by (subst (1 2 3) r) (simp add: Resource_new_def)
  then show ?thesis using a by blast
qed

subsection \<open>The generated resources\<close>

text \<open>A sequence of calls; between them other users leave the registry in the given states.\<close>

fun TestInput_calls ::
  "(string \<Rightarrow> 'd \<Rightarrow> 'd) \<Rightarrow> (string \<Rightarrow> 'd \<Rightarrow> 'd) \<Rightarrow> (string \<rightharpoonup> 'd resource_lib) \<Rightarrow> test_input \<Rightarrow> 'd registry list
     \<Rightarrow> failure + 'd resource option list \<times> test_input" where
  "TestInput_calls put put_pb load m [] = Inr ([], m)"
| "TestInput_calls put put_pb load m (s # ss) =
     bind_result (TestInput_ProcessInputSync put put_pb load False m s) (\<lambda>(ores, m1, _).
       bind_result (TestInput_calls put put_pb load m1 ss) (\<lambda>(rest, m2). Inr (ores # rest, m2)))"

text \<open>The resource number \<open>n\<close> of an input module.\<close>

definition TestInput_makes ::
  "(string \<Rightarrow> 'd \<Rightarrow> 'd) \<Rightarrow> (string \<Rightarrow> 'd \<Rightarrow> 'd) \<Rightarrow> (string \<rightharpoonup> 'd resource_lib) \<Rightarrow> test_input \<Rightarrow> nat \<Rightarrow> 'd resource option \<Rightarrow> bool" where
  "TestInput_makes put put_pb load m n ores \<longleftrightarrow>
     (if ti_maxItems m = 0 \<or> int n < ti_maxItems m then
        (\<exists>f lib. load f = Some lib \<and> lib_typeId lib = ti_typeId m \<and>
           (let text = TestInput_text (m\<lparr>ti_items := int n\<rparr>); t = ti_typeId m; body = lib_empty lib
            in ores = Some (Resource_new (ti_threadIndex m * 10000 + int n) t
                 (if t = 1 then put text body else if t = 2 then put_pb text body else body))))
      else ores = None)"

lemma TestInput_call:
  assumes "registry_reach load s" "libs_agree load" "id2info s (ti_typeId m) \<noteq> None" "0 \<le> ti_typeId m" "ti_items m = int n"
  shows "\<exists>ores s'. TestInput_ProcessInputSync put put_pb load sleep m s =
      Inr (ores, m\<lparr>ti_items := (if ores = None then int n else int (Suc n))\<rparr>, s') \<and> TestInput_makes put put_pb load m n ores"
proof (cases "ti_maxItems m = 0 \<or> int n < ti_maxItems m")
  case True
  obtain r f lib s' where a: "AcquireResource load (ti_typeId m) s = Inr (Some r, s')" "load f = Some lib"
    "lib_typeId lib = ti_typeId m" "r = Resource_new (r_id r) (ti_typeId m) (lib_empty lib)"
    using AcquireResource_known_type [OF assms(1-4)] by blast
  then have "r_type r = ti_typeId m" "r_data r = lib_empty lib" "r_status r = 0" "r_flags r = 0" "r_attached r = None"
    by (metis Resource_new_def resource.select_convs)+
  then have r: "r = \<lparr>r_id = r_id r, r_status = 0, r_flags = 0, r_attached = None, r_type = ti_typeId m, r_data = lib_empty lib\<rparr>"
    by (cases r) simp
  have m: "m\<lparr>ti_items := int n\<rparr> = m" using assms(5) by (cases m) simp
  define body where "body = (if ti_typeId m = 1 then put (TestInput_text m) (lib_empty lib)
    else if ti_typeId m = 2 then put_pb (TestInput_text m) (lib_empty lib) else lib_empty lib)"
  define made where "made = Resource_new (ti_threadIndex m * 10000 + int n) (ti_typeId m) body"
  have "TestInput_ProcessInputSync put put_pb load sleep m s = Inr (Some made, m\<lparr>ti_items := int (Suc n)\<rparr>, s')"
    using True a(1) assms(5) unfolding made_def body_def
    by (subst (asm) r)
      (auto simp: TestInput_ProcessInputSync_def Let_def TestResource_IsInstance_def TestResource_typeId_def
        TestProtobufResource_IsInstance_def TestProtobufResource_typeId_def Resource_new_def)
  moreover have "TestInput_makes put put_pb load m n (Some made)"
    using True a(2,3) m by (auto simp: TestInput_makes_def Let_def made_def body_def intro!: exI [of _ f] exI [of _ lib])
  ultimately show ?thesis by auto
next
  case False
  then show ?thesis using assms(5) by (cases m) (auto simp: TestInput_ProcessInputSync_def TestInput_makes_def)
qed

lemma TestInput_calls_make:
  assumes "list_all (\<lambda>s. registry_reach load s \<and> id2info s (ti_typeId m) \<noteq> None) ss" "libs_agree load"
    and "0 \<le> ti_typeId m" "ti_items m = int n"
  shows "\<exists>rs m'. TestInput_calls put put_pb load m ss = Inr (rs, m') \<and> length rs = length ss \<and>
    (\<forall>i<length ss. TestInput_makes put put_pb load m (n + i) (rs ! i))"
  using assms
proof (induction ss arbitrary: m n)
  case (Cons s ss)
  obtain ores s' where c: "TestInput_ProcessInputSync put put_pb load False m s =
      Inr (ores, m\<lparr>ti_items := (if ores = None then int n else int (Suc n))\<rparr>, s')" "TestInput_makes put put_pb load m n ores"
    using TestInput_call [of load s m n put put_pb False] Cons(2-5) by auto
  have idem: "TestInput_makes put put_pb load (m\<lparr>ti_items := k\<rparr>) i = TestInput_makes put put_pb load m i" for i k
    by (simp add: TestInput_makes_def fun_eq_iff)
  show ?case
  proof (cases ores)
    case None
    then have stop: "\<not> (ti_maxItems m = 0 \<or> int n < ti_maxItems m)"
      using c(2) by (auto simp: TestInput_makes_def Let_def split: if_splits)
    obtain rs m' where rs: "TestInput_calls put put_pb load (m\<lparr>ti_items := int n\<rparr>) ss = Inr (rs, m')" "length rs = length ss"
      "\<forall>i<length ss. TestInput_makes put put_pb load (m\<lparr>ti_items := int n\<rparr>) (n + i) (rs ! i)"
      using Cons(1) [of "m\<lparr>ti_items := int n\<rparr>" n] Cons(2-4) by auto
    then have "\<forall>i<length ss. TestInput_makes put put_pb load m (Suc (n + i)) (rs ! i)"
      using stop by (auto simp: TestInput_makes_def)
    then show ?thesis using c rs(1,2) None
      by (auto simp: nth_Cons' less_Suc_eq_0_disj intro!: exI [of _ "None # rs"])
  next
    case (Some r)
    obtain rs m' where rs: "TestInput_calls put put_pb load (m\<lparr>ti_items := int (Suc n)\<rparr>) ss = Inr (rs, m')" "length rs = length ss"
      "\<forall>i<length ss. TestInput_makes put put_pb load (m\<lparr>ti_items := int (Suc n)\<rparr>) (Suc n + i) (rs ! i)"
      using Cons(1) [of "m\<lparr>ti_items := int (Suc n)\<rparr>" "Suc n"] Cons(2-4) by auto
    then show ?thesis using c Some
      by (auto simp: idem less_Suc_eq_0_disj intro!: exI [of _ "Some r # rs"])
  qed
qed simp

lemma TestInput_setters_items:
  assumes "f \<in> snd ` (set (setters TestInput_props) \<union> set (initOnly TestInput_props))" "f name v m = Inr m'"
  shows "ti_items m' = ti_items m \<and> ti_threadIndex m' = ti_threadIndex m"
  using assms
  by (auto simp: TestInput_props_def TestInput_SetMaxItems_def TestInput_SetIdPrefix_def TestInput_SetResourceType_def set_int_def
      split: option.splits)

lemma TestInput_Init_ok:
  assumes "registry_reach load reg" "libs_agree load"
    and "TestInput_Init load (Some ps) (TestInput_new thr garbage) reg = Inr (True, m, reg1)"
  shows "ti_items m = 0 \<and> ti_threadIndex m = thr \<and> 0 \<le> ti_typeId m \<and> registry_reach load reg1 \<and> id2info reg1 (ti_typeId m) \<noteq> None"
proof -
  obtain m1 name where i: "InitProperties TestInput_props False ps (TestInput_new thr garbage) = Inr (True, m1)"
    and n: "NameToId load name reg = Inr (ti_typeId m, reg1)" "\<not> ti_typeId m < 0"
    and m: "ti_items m = ti_items m1" "ti_threadIndex m = ti_threadIndex m1"
    using assms(3) by (auto simp: TestInput_Init_def bind_result_Inr_iff Let_def split: if_splits)
  have "ti_items m1 = 0 \<and> ti_threadIndex m1 = thr"
    by (rule InitProperties_inv [OF _ _ i], use TestInput_setters_items in metis) (simp add: TestInput_new_def)
  moreover have "id2info reg1 (ti_typeId m) \<noteq> None"
    using registry_operations_known(3) [OF registry_reach_known [OF assms(1,2)] registry_reach_ok [OF assms(1,2)] assms(2) n(1)] n(2)
    by simp
  ultimately show ?thesis using m n registry_reach.registry_name [OF assms(1) n(1)] by auto
qed

text \<open>
  The input module for tests.  After a successful initialisation no call fails, whatever other users do with the
  registry in between: the calls number 0, 1, ... return new resources of the configured type, with the number of the
  thread and of the call in the id and in the text, as many as \<open>maxItems\<close> says (without end for 0), and null afterwards.
\<close>

theorem TestInput_generates:
  assumes "registry_reach load reg" and "libs_agree load"
    and "TestInput_Init load (Some ps) (TestInput_new thr garbage) reg = Inr (True, m, reg1)"
    and "list_all (registry_later load reg1) later"
  shows "\<exists>rs m'. TestInput_calls put put_pb load m later = Inr (rs, m') \<and> length rs = length later \<and>
    (\<forall>n<length later. TestInput_makes put put_pb load m n (rs ! n))"
proof -
  note init = TestInput_Init_ok [OF assms(1-3)]
  have "list_all (\<lambda>s. registry_reach load s \<and> id2info s (ti_typeId m) \<noteq> None) later"
    using assms(4) init registry_later_reach registry_later_known [OF _ _ assms(2)] by (fastforce simp: list_all_iff)
  from TestInput_calls_make [OF this assms(2), of 0 put put_pb] init show ?thesis by simp
qed

section \<open>Chains of modules\<close>

text \<open>The classes that only work on resources passing through, with their virtual functions.\<close>

datatype 'd native =
    Dump_module
  | TestSimple_module test_simple
  | TestOutput_module test_output
  | TestMulti_module "'d test_multi"

fun native_type :: "'d native \<Rightarrow> module_type" where
  "native_type Dump_module = SIMPLE"
| "native_type (TestSimple_module _) = SIMPLE"
| "native_type (TestOutput_module _) = OUTPUT"
| "native_type (TestMulti_module _) = MULTI"

fun native_simple :: "'d resource \<Rightarrow> 'd native \<Rightarrow> 'd resource option \<times> 'd native" where
  "native_simple r Dump_module = (case Dump_ProcessSimpleSync r () of (r1, _) \<Rightarrow> (r1, Dump_module))"
| "native_simple r (TestSimple_module m) = (case TestSimple_ProcessSimpleSync r m of (r1, m1) \<Rightarrow> (r1, TestSimple_module m1))"
| "native_simple r m = Module_ProcessSimpleSync r m"

fun native_output :: "'d resource option \<Rightarrow> 'd native \<Rightarrow> 'd resource option \<times> 'd native" where
  "native_output r (TestOutput_module m) = (case TestOutput_ProcessOutputSync r m of (r1, m1) \<Rightarrow> (r1, TestOutput_module m1))"
| "native_output r m = Module_ProcessOutputSync r m"

fun native_multi ::
  "int \<Rightarrow> 'd resource list \<Rightarrow> 'd resource list \<Rightarrow> int \<Rightarrow> 'd native
     \<Rightarrow> bool \<times> 'd resource list \<times> 'd resource list \<times> int \<times> int \<times> 'd native" where
  "native_multi garbage inp out k (TestMulti_module m) =
     (case TestMulti_ProcessMultiSync inp out k m of
        (busy, inp1, out1, n, k1, m1) \<Rightarrow> (busy, inp1, out1, n, k1, TestMulti_module m1))"
| "native_multi garbage inp out k m = Module_ProcessMultiSync garbage inp out k m"

definition native_ops :: "int \<Rightarrow> ('d, 'd native) module_ops" where
  "native_ops garbage =
     \<lparr>processInput = Module_ProcessInputSync, processOutput = native_output, processSimple = native_simple,
      processMulti = native_multi garbage\<rparr>"

definition native_chain :: "int \<Rightarrow> ('d, 'd native) modules \<Rightarrow> bool" where
  "native_chain garbage mis \<longleftrightarrow> list_all (\<lambda>mi. mi_ops mi = native_ops garbage \<and> mi_type mi = native_type (mi_state mi)) mis"

text \<open>A simple module of the chain hands on the resource it was given.\<close>

lemma native_simple_keeps:
  assumes "native_type m = SIMPLE"
  shows "\<exists>r' m'. native_simple r m = (Some r', m') \<and> r_id r' = r_id r \<and> r_type r' = r_type r \<and> r_flags r' = r_flags r \<and> native_type m' = SIMPLE"
  using assms dump.keeps [of r "()"] test_simple.keeps [of r]
  by (cases m) (auto split: prod.splits, (metis fst_conv)+)

lemma native_output_type: "native_output r m = (out, m') \<Longrightarrow> native_type m' = native_type m"
  by (cases m) (auto simp: Module_ProcessOutputSync_def split: prod.splits)

lemma native_chain_nth:
  "native_chain garbage mis \<Longrightarrow> i < length mis \<Longrightarrow>
   mi_ops (mis ! i) = native_ops garbage \<and> mi_type (mis ! i) = native_type (mi_state (mis ! i))"
  by (simp add: native_chain_def list_all_length)

lemma native_types: "native_type m \<noteq> INPUT" "native_type m \<noteq> INVALID"
  by (cases m; simp)+

lemma native_chain_lossless:
  assumes "native_chain garbage mis"
  shows "lossless mis"
proof -
  have "lossless [mi]" if "mi_ops mi = native_ops garbage" "mi_type mi = native_type (mi_state mi)" for mi :: "('d, 'd native) module_info"
  proof -
    have "fst (native_simple r m) \<noteq> None \<and> native_type (snd (native_simple r m)) = SIMPLE" if "native_type m = SIMPLE"
      for r :: "'d resource" and m using native_simple_keeps [OF that, of r] by auto
    then have "careful mi (\<lambda>m. native_type m = mi_type mi)"
      using that native_types(1) [of "mi_state mi"] by (simp add: careful_def native_ops_def)
    then show ?thesis using that(2) by (auto simp: lossless_def)
  qed
  then show ?thesis using native_chain_nth [OF assms] by (subst lossless_each) blast
qed

text \<open>Every step of a chain succeeds.\<close>

lemma native_apply:
  assumes "mi_ops mi = native_ops garbage" "mi_type mi = native_type (mi_state mi)" "mi_type mi \<noteq> MULTI"
  shows "\<exists>goes_on res1 stop st env1. apply_module mi (Some r) sleep env = Continue (goes_on, res1, stop, st, env1) \<and>
    native_type st = mi_type mi \<and> (goes_on \<longrightarrow> res1 = None \<longrightarrow> mi_type mi = OUTPUT)"
proof (cases "mi_type mi")
  case SIMPLE
  obtain r' m' where "native_simple r (mi_state mi) = (Some r', m')" "native_type m' = SIMPLE"
    using native_simple_keeps [of "mi_state mi" r] assms(2) SIMPLE by auto
  then show ?thesis using assms SIMPLE by (auto simp: apply_module_def native_ops_def)
next
  case OUTPUT
  obtain out m' where o: "native_output (Some r) (mi_state mi) = (out, m')" by fastforce
  then show ?thesis using assms OUTPUT native_output_type [OF o] by (auto simp: apply_module_def native_ops_def)
qed (use assms native_types [of "mi_state mi"] in auto)

lemma native_chain_set:
  "native_chain garbage mis \<Longrightarrow> i < length mis \<Longrightarrow> native_type st = mi_type (mis ! i) \<Longrightarrow> native_chain garbage (set_module_state i st mis)"
  by (auto simp: native_chain_def list_all_length set_module_state_def nth_list_update_if)

lemma native_chain_runs:
  assumes "native_chain garbage mis" "check_modules nq nf (map mi_type mis) = None" "res \<noteq> None \<or> length mis \<le> index"
  shows "\<exists>res' stop mis' env'. ApplyModules mis res index sleep env = Continue (res', stop, mis', env') \<and> native_chain garbage mis'"
  using assms
proof (induction "length mis - index" arbitrary: mis res index env rule: less_induct)
  case less
  show ?case
  proof (cases "index < length mis \<and> mi_type (mis ! index) \<noteq> MULTI")
    case False
    then have "ApplyModules mis res index sleep env = Continue (res, False, mis, env)" by (subst ApplyModules.simps) auto
    then show ?thesis using less.prems(1) by blast
  next
    case True
    then obtain r where r: "res = Some r" using less.prems(3) by auto
    obtain goes_on res1 stop st env1 where a: "apply_module (mis ! index) (Some r) sleep env = Continue (goes_on, res1, stop, st, env1)"
      "native_type st = mi_type (mis ! index)" "goes_on \<longrightarrow> res1 = None \<longrightarrow> mi_type (mis ! index) = OUTPUT"
      using native_apply [of "mis ! index" garbage] native_chain_nth [OF less.prems(1)] True by blast
    let ?mis = "set_module_state index st mis"
    have n: "native_chain garbage ?mis" using native_chain_set [OF less.prems(1)] True a(2) by blast
    show ?thesis
    proof (cases goes_on)
      case False
      then show ?thesis using True a(1) n r by (subst ApplyModules.simps) simp
    next
      case go: True
      then have "res1 \<noteq> None \<or> length ?mis \<le> Suc index"
        using a(3) check_output_last [OF less.prems(2)] True by fastforce
      then show ?thesis using less.hyps [of ?mis "Suc index" res1 env1] less.prems(2) True go a(1) n r
        by (subst ApplyModules.simps) auto
    qed
  qed
qed


section \<open>Properties of modules at run time\<close>

lemma settable_number: "fits 32 (read_int v) \<Longrightarrow> str2int v = Some (read_int v)"
  by (simp add: str2int_def)

interpretation setStatus: settable_property TestSimple_props "''setStatus''" TestSimple_GetSetStatus TestSimple_SetSetStatus
  "\<lambda>v. fits 32 (read_int v)" "\<lambda>v. int2str (read_int v)"
  by unfold_locales
    (simp_all add: TestSimple_props_def TestSimple_SetSetStatus_def TestSimple_GetSetStatus_def set_int_def settable_number update_conv')

interpretation flipStatus: settable_property TestSimple_props "''flipStatus''" TestSimple_GetFlipStatus TestSimple_SetFlipStatus
  "\<lambda>v. str2bool v \<noteq> - 1" "\<lambda>v. bool2str (str2bool v = 1)"
  by unfold_locales
    (auto simp: TestSimple_props_def TestSimple_SetFlipStatus_def TestSimple_GetFlipStatus_def update_conv' str2bool_def Let_def)

interpretation foo: settable_property TestSimple_props "''foo''" TestSimple_GetFoo TestSimple_SetFoo "\<lambda>v. True" "\<lambda>v. v"
  by unfold_locales (simp_all add: TestSimple_props_def TestSimple_SetFoo_def TestSimple_GetFoo_def update_conv')

interpretation timeTick: settable_property TestMulti_props "''timeTick''" TestMulti_GetTimeTick TestMulti_SetTimeTick
  "\<lambda>v. fits 32 (read_int v)" "\<lambda>v. int2str (read_int v)"
  by unfold_locales
    (simp_all add: TestMulti_props_def TestMulti_SetTimeTick_def TestMulti_GetTimeTick_def set_int_def settable_number update_conv')

interpretation idPrefix: settable_property TestInput_props "''idPrefix''" TestInput_GetIdPrefix TestInput_SetIdPrefix "\<lambda>v. True" "\<lambda>v. v"
  by unfold_locales (simp_all add: TestInput_props_def TestInput_SetIdPrefix_def TestInput_GetIdPrefix_def update_conv')

text \<open>A number set as text is read back as its decimal form, for every number the type holds.\<close>

lemma setStatus_number:
  assumes "fits 32 n"
  shows "\<exists>ob'. Object_SetProperty (Properties_SetProperty TestSimple_props) ''setStatus'' (int2str n) ob = Inr (True, ob') \<and>
    Object_GetProperty (Properties_GetProperty TestSimple_props) ''setStatus'' ob' = Some (int2str n)"
  using setStatus.set_then_get [of "int2str n" ob] assms by (auto simp: int2str_def read_show_int)

text \<open>
  The properties of \<^verbatim>\<open>TestSimple\<close>.  A change at run time succeeds for a legal value and the value is read back (in the
  normal form of its type) by the next read; an illegal truth value, the read-only property and an unknown name change
  nothing, and of these only the truth value is reported as accepted.
\<close>

theorem TestSimple_properties:
  "(if fits 32 (read_int v) then
      (\<exists>ob'. Object_SetProperty (Properties_SetProperty TestSimple_props) ''setStatus'' v ob = Inr (True, ob') \<and>
         Object_GetProperty (Properties_GetProperty TestSimple_props) ''setStatus'' ob' = Some (int2str (read_int v)))
    else Object_SetProperty (Properties_SetProperty TestSimple_props) ''setStatus'' v ob = Inl Overflow) \<and>
   (\<exists>ob'. Object_SetProperty (Properties_SetProperty TestSimple_props) ''flipStatus'' v ob = Inr (True, ob') \<and>
      Object_GetProperty (Properties_GetProperty TestSimple_props) ''flipStatus'' ob' =
        Some (bool2str (if str2bool v = - 1 then ts_flipStatus (obj_state ob) else str2bool v = 1))) \<and>
   (\<exists>ob'. Object_SetProperty (Properties_SetProperty TestSimple_props) ''alias'' v ob = Inr (True, ob') \<and>
      Object_GetProperty (Properties_GetProperty TestSimple_props) ''foo'' ob' = Some v) \<and>
   Object_SetProperty (Properties_SetProperty TestSimple_props) ''items'' v ob = Inr (False, ob) \<and>
   Object_GetProperty (Properties_GetProperty TestSimple_props) ''items'' ob = Some (int2str (ts_items (obj_state ob))) \<and>
   (if name \<in> set (Object_ListProperties (\<lambda>_. Properties_ListProperties TestSimple_props) ob) then True
    else Object_SetProperty (Properties_SetProperty TestSimple_props) name v ob = Inr (False, ob) \<and>
      Object_GetProperty (Properties_GetProperty TestSimple_props) name ob = None)"
proof (intro conjI)
  show "if fits 32 (read_int v) then
      (\<exists>ob'. Object_SetProperty (Properties_SetProperty TestSimple_props) ''setStatus'' v ob = Inr (True, ob') \<and>
         Object_GetProperty (Properties_GetProperty TestSimple_props) ''setStatus'' ob' = Some (int2str (read_int v)))
    else Object_SetProperty (Properties_SetProperty TestSimple_props) ''setStatus'' v ob = Inl Overflow"
    using setStatus.set_then_get [of v ob]
    by (auto simp: Object_SetProperty_def Properties_SetProperty_def setStatus.settable TestSimple_SetSetStatus_def set_int_def str2int_def)
  show "\<exists>ob'. Object_SetProperty (Properties_SetProperty TestSimple_props) ''flipStatus'' v ob = Inr (True, ob') \<and>
      Object_GetProperty (Properties_GetProperty TestSimple_props) ''flipStatus'' ob' =
        Some (bool2str (if str2bool v = - 1 then ts_flipStatus (obj_state ob) else str2bool v = 1))"
    using flipStatus.set_then_get [of v ob]
    by (cases "str2bool v = - 1")
      (auto simp: Object_SetProperty_def Object_GetProperty_def Properties_SetProperty_def Properties_GetProperty_def flipStatus.settable
        flipStatus.readable TestSimple_SetFlipStatus_def TestSimple_GetFlipStatus_def)
qed (auto simp: Object_SetProperty_def Object_GetProperty_def Properties_SetProperty_def Properties_GetProperty_def
    Object_ListProperties_def Properties_ListProperties_def TestSimple_props_def TestSimple_SetFoo_def TestSimple_GetFoo_def
    TestSimple_GetItems_def update_conv')

section \<open>Witnesses\<close>

definition demo_native :: "unit native \<Rightarrow> unit resource list \<Rightarrow> (unit, unit native) module_info" where
  "demo_native m inp =
     \<lparr>mi_ops = native_ops 0, mi_state = m, mi_type = native_type m, mi_processing = 0, mi_input = inp, mi_output = []\<rparr>"


definition demo_multi :: "unit resource list \<Rightarrow> (unit, unit test_multi) thread" where
  "demo_multi inp =
     \<lparr>th_mis = [\<lparr>mi_ops = \<lparr>processInput = Module_ProcessInputSync, processOutput = Module_ProcessOutputSync,
          processSimple = Module_ProcessSimpleSync, processMulti = TestMulti_ProcessMultiSync\<rparr>,
        mi_state = TestMulti_new [], mi_type = MULTI, mi_processing = 0, mi_input = inp, mi_output = []\<rparr>],
      th_readMax = 1, th_outIdx = 0, th_outRes = None, th_block = True, th_env = demo_env []\<rparr>"

theorem TestMulti_pipeline_witness:
  "\<exists>minN' th'. multi_process 0 5 (demo_multi [demo_res, demo_res]) = Continue (minN', th') \<and>
     mi_output (th_mis th' ! 0) @ tm_resources (mi_state (th_mis th' ! 0)) @ mi_input (th_mis th' ! 0) = [demo_res, demo_res]"
  using TestMulti_pipeline [of 0 "demo_multi [demo_res, demo_res]" 5]
  by (auto simp: demo_multi_def TestMulti_new_def TestResource_IsInstance_def TestResource_typeId_def demo_res_def Resource_new_def Let_def)

lemma r_type_new: "r_type (Resource_new i t d) = t"
  by (simp add: Resource_new_def)

theorem TestMulti_foreign_resource_aborts_witness:
  "multi_process 0 5 (demo_multi [Resource_new 1 3 ()]) = Fail AssertFailed"
  by (rule TestMulti_foreign_resource_aborts [where r = "Resource_new 1 3 ()"])
    (simp_all add: demo_multi_def TestMulti_new_def TestResource_IsInstance_def TestResource_typeId_def r_type_new)

theorem TestInput_generates_witness:
  "\<exists>m reg1 rs m'. TestInput_Init demo_load (Some [(''maxItems'', ''1'')]) (TestInput_new 2 0) (ResourceRegistry_new [''t.la'']) = Inr (True, m, reg1) \<and>
     TestInput_calls (\<lambda>s _. s) (\<lambda>s _. s) demo_load m [reg1, reg1] = Inr (rs, m') \<and> length rs = 2 \<and> rs ! 1 = None"
proof -
  have agree: "libs_agree demo_load" by (auto simp: libs_agree_def demo_load_def split: if_splits)
  obtain m reg1 where i: "TestInput_Init demo_load (Some [(''maxItems'', ''1'')]) (TestInput_new 2 0) (ResourceRegistry_new [''t.la'']) = Inr (True, m, reg1)"
    and m: "ti_maxItems m = 1"
  proof -
    have n: "str2int ''1'' = Some 1" by code_simp
    show ?thesis using that
      by (simp add: TestInput_Init_def TestInput_props_def update_conv' TestInput_SetMaxItems_def set_int_def n TestInput_new_def Let_def
          NameToId_def ResourceRegistry_new_def LoadResourceLibrary_def demo_load_def register_library_def NextResourceId_def)
  qed
  have "list_all (registry_later demo_load reg1) [reg1, reg1]" by (simp add: later_same)
  from TestInput_generates [OF registry_new agree i this, of "\<lambda>s _. s" "\<lambda>s _. s"]
  obtain rs m' where rs: "TestInput_calls (\<lambda>s _. s) (\<lambda>s _. s) demo_load m [reg1, reg1] = Inr (rs, m')" "length rs = 2"
    "TestInput_makes (\<lambda>s _. s) (\<lambda>s _. s) demo_load m 1 (rs ! 1)" by auto
  then have "rs ! 1 = None" using m by (simp add: TestInput_makes_def)
  then show ?thesis using i rs by blast
qed

end
