(* ===== verification/SaveLoad.thy ===== *)
theory SaveLoad
  imports Modules
begin

text \<open>
  The modules that write resources to files and read them back (\<^verbatim>\<open>src/lib/processing_engine/module/Save.cc\<close>, \<^verbatim>\<open>Save.h\<close>,
  \<^verbatim>\<open>Load.cc\<close>, \<^verbatim>\<open>Load.h\<close>).  The files are a map from names to contents; whether a file can be opened, locked or opened as a
  stream is an argument, and so are the virtual functions of the resource classes and the operations of the binary
  streams.  What a stream has been given is in its file at once (it is there when the stream is closed).
\<close>

section \<open>Files\<close>

type_synonym files = "string \<rightharpoonup> string"

record system =
  can_open :: "string \<Rightarrow> bool"
  can_lock :: "string \<Rightarrow> bool"
  can_stream :: "string \<Rightarrow> bool"

text \<open>A pointer to an output stream; after \<^verbatim>\<open>delete\<close> without an assignment it still points to the freed stream.\<close>

datatype stream_ptr = NoStream | StreamTo string | FreedStream

section \<open>Save\<close>

record save_module =
  sv_isOutputModuleType :: bool
  sv_items :: int
  sv_filename :: "string option"
  sv_overwrite :: bool
  sv_saveResourceType :: bool
  sv_saveResourceIdStatus :: bool
  sv_text :: bool
  sv_compress :: bool
  sv_resourceTypeFilter :: string
  sv_filter :: "int list"
  sv_maxItemsPerFile :: int
  sv_maxSizePerFile :: int
  sv_timeTick :: int
  sv_fd :: bool \<comment> \<open>a file descriptor is open\<close>
  sv_stream :: stream_ptr
  sv_fileId :: int
  sv_savedItems :: int
  sv_savedSize :: int

definition Save_MAX_RESOURCES :: int where
  "Save_MAX_RESOURCES = 10000"

definition Save_new :: save_module where
  "Save_new =
     \<lparr>sv_isOutputModuleType = True, sv_items = 0, sv_filename = None, sv_overwrite = True, sv_saveResourceType = True,
      sv_saveResourceIdStatus = False, sv_text = False, sv_compress = False, sv_resourceTypeFilter = [], sv_filter = [],
      sv_maxItemsPerFile = 0, sv_maxSizePerFile = 0, sv_timeTick = 100 * 1000, sv_fd = False, sv_stream = NoStream,
      sv_fileId = 1, sv_savedItems = 0, sv_savedSize = 0\<rparr>"

definition Save_GetType :: "save_module \<Rightarrow> module_type" where
  "Save_GetType m = (if sv_isOutputModuleType m then OUTPUT else MULTI)"

text \<open>The file that is opened: with a limit per file the number of the file is appended.\<close>

definition Save_current_file :: "string \<Rightarrow> save_module \<Rightarrow> string" where
  "Save_current_file name m =
     name @ (if sv_maxItemsPerFile m > 0 \<or> sv_maxSizePerFile m > 0 then ''.'' @ show_int (sv_fileId m) else [])"

text \<open>
  \<^verbatim>\<open>ReopenFile\<close>.  The old stream is deleted, the file is created or truncated (or kept, to append), locked, and then the
  text stream is opened on the configured name, which truncates that file.
\<close>

definition Save_ReopenFile :: "system \<Rightarrow> save_module \<Rightarrow> files \<Rightarrow> failure + bool \<times> save_module \<times> files" where
  "Save_ReopenFile sys m fs =
     (if sv_stream m = FreedStream then Inl UseAfterFree
      else case sv_filename m of
        None \<Rightarrow> Inl NullDeref
      | Some name \<Rightarrow>
          let m1 = m\<lparr>sv_stream := (if sv_stream m = NoStream then NoStream else FreedStream)\<rparr>;
              s = Save_current_file name m
          in if \<not> can_open sys s then Inr (False, m1\<lparr>sv_fd := False\<rparr>, fs)
             else
               let m2 = m1\<lparr>sv_fd := True\<rparr>;
                   fs1 = fs(s \<mapsto> (if sv_overwrite m then [] else case fs s of None \<Rightarrow> [] | Some c \<Rightarrow> c))
               in if \<not> can_lock sys s then Inr (False, m2, fs1)
                  else if \<not> sv_text m then Inr (True, m2\<lparr>sv_stream := StreamTo s\<rparr>, fs1)
                  else if \<not> can_stream sys name then Inr (False, m2, fs1)
                  else Inr (True, m2\<lparr>sv_stream := StreamTo name\<rparr>, fs1(name \<mapsto> [])))"

subsection \<open>Properties\<close>

definition Save_GetModuleType :: "save_module getter" where
  "Save_GetModuleType name m = Some (if sv_isOutputModuleType m then ''OUTPUT'' else ''MULTI'')"

definition Save_SetModuleType :: "save_module setter" where
  "Save_SetModuleType name v m =
     Inr (if v = ''OUTPUT'' then m\<lparr>sv_isOutputModuleType := True\<rparr>
          else if v = ''MULTI'' then m\<lparr>sv_isOutputModuleType := False\<rparr> else m)"

definition Save_GetItems :: "save_module getter" where
  "Save_GetItems name m = Some (int2str (sv_items m))"

definition Save_GetFilename :: "save_module getter" where
  "Save_GetFilename name m = sv_filename m"

text \<open>\<^verbatim>\<open>SetFilename\<close> on the module, and with the file system it changes once a file is open.\<close>

definition Save_SetFilename :: "system \<Rightarrow> string \<Rightarrow> save_module \<Rightarrow> files \<Rightarrow> failure + save_module \<times> files" where
  "Save_SetFilename sys v m fs =
     (let m1 = m\<lparr>sv_filename := Some v\<rparr>
      in if sv_fd m1 then bind_result (Save_ReopenFile sys m1 fs) (\<lambda>(_, m2, fs1). Inr (m2, fs1)) else Inr (m1, fs))"

definition Save_GetOverwrite :: "save_module getter" where
  "Save_GetOverwrite name m = Some (bool2str (sv_overwrite m))"

text \<open>The int of \<^verbatim>\<open>str2bool\<close> becomes a bool: an unknown word is true.\<close>

definition str2bool_cast :: "string \<Rightarrow> bool" where
  "str2bool_cast v = (str2bool v \<noteq> 0)"

definition Save_SetOverwrite :: "save_module setter" where
  "Save_SetOverwrite name v m = Inr (m\<lparr>sv_overwrite := str2bool_cast v\<rparr>)"

definition Save_GetSaveResourceType :: "save_module getter" where
  "Save_GetSaveResourceType name m = Some (bool2str (sv_saveResourceType m))"

definition Save_SetSaveResourceType :: "save_module setter" where
  "Save_SetSaveResourceType name v m = Inr (m\<lparr>sv_saveResourceType := str2bool_cast v\<rparr>)"

definition Save_GetSaveResourceIdStatus :: "save_module getter" where
  "Save_GetSaveResourceIdStatus name m = Some (bool2str (sv_saveResourceIdStatus m))"

definition Save_SetSaveResourceIdStatus :: "save_module setter" where
  "Save_SetSaveResourceIdStatus name v m = Inr (m\<lparr>sv_saveResourceIdStatus := str2bool_cast v\<rparr>)"

definition Save_GetText :: "save_module getter" where
  "Save_GetText name m = Some (bool2str (sv_text m))"

definition Save_SetText :: "save_module setter" where
  "Save_SetText name v m = Inr (m\<lparr>sv_text := str2bool_cast v\<rparr>)"

definition Save_GetCompress :: "save_module getter" where
  "Save_GetCompress name m = Some (bool2str (sv_compress m))"

definition Save_SetCompress :: "save_module setter" where
  "Save_SetCompress name v m = Inr (m\<lparr>sv_compress := str2bool_cast v\<rparr>)"

definition Save_GetResourceTypesFilter :: "save_module getter" where
  "Save_GetResourceTypesFilter name m = Some (sv_resourceTypeFilter m)"

text \<open>The type numbers of the named types, as the registry answers for them.\<close>

definition Save_SetResourceTypesFilter :: "(string \<Rightarrow> int) \<Rightarrow> save_module setter" where
  "Save_SetResourceTypesFilter nameToId name v m =
     Inr (m\<lparr>sv_resourceTypeFilter := v,
       sv_filter := foldl (\<lambda>acc w. if nameToId w \<ge> 0 then List.insert (nameToId w) acc else acc) [] (splitOnWs v)\<rparr>)"

definition Save_GetMaxItemsPerFile :: "save_module getter" where
  "Save_GetMaxItemsPerFile name m = Some (int2str (sv_maxItemsPerFile m))"

definition Save_SetMaxItemsPerFile :: "save_module setter" where
  "Save_SetMaxItemsPerFile name v m = set_int v (\<lambda>n. m\<lparr>sv_maxItemsPerFile := n\<rparr>)"

definition Save_GetMaxSizePerFile :: "save_module getter" where
  "Save_GetMaxSizePerFile name m = Some (long2str (sv_maxSizePerFile m))"

definition Save_SetMaxSizePerFile :: "save_module setter" where
  "Save_SetMaxSizePerFile name v m =
     (case str2long v of Some n \<Rightarrow> Inr (m\<lparr>sv_maxSizePerFile := n\<rparr>) | None \<Rightarrow> Inl Overflow)"

definition Save_GetTimeTick :: "save_module getter" where
  "Save_GetTimeTick name m = Some (int2str (sv_timeTick m))"

definition Save_SetTimeTick :: "save_module setter" where
  "Save_SetTimeTick name v m = set_int v (\<lambda>n. m\<lparr>sv_timeTick := n\<rparr>)"

text \<open>The name is only set before a file is open, so that its setter does not reopen anything.\<close>

definition Save_SetFilename_init :: "save_module setter" where
  "Save_SetFilename_init name v m = Inr (m\<lparr>sv_filename := Some v\<rparr>)"

definition Save_props :: "(string \<Rightarrow> int) \<Rightarrow> save_module properties" where
  "Save_props nameToId =
     Properties_Add ''timeTick'' Save_GetTimeTick (Some Save_SetTimeTick) False
     (Properties_Add ''maxSizePerFile'' Save_GetMaxSizePerFile (Some Save_SetMaxSizePerFile) True
     (Properties_Add ''maxItemsPerFile'' Save_GetMaxItemsPerFile (Some Save_SetMaxItemsPerFile) True
     (Properties_Add ''resourceTypeFilter'' Save_GetResourceTypesFilter (Some (Save_SetResourceTypesFilter nameToId)) False
     (Properties_Add ''compress'' Save_GetCompress (Some Save_SetCompress) True
     (Properties_Add ''text'' Save_GetText (Some Save_SetText) True
     (Properties_Add ''saveResourceIdStatus'' Save_GetSaveResourceIdStatus (Some Save_SetSaveResourceIdStatus) True
     (Properties_Add ''saveResourceType'' Save_GetSaveResourceType (Some Save_SetSaveResourceType) True
     (Properties_Add ''overwrite'' Save_GetOverwrite (Some Save_SetOverwrite) True
     (Properties_Add ''filename'' Save_GetFilename (Some Save_SetFilename_init) True
     (Properties_Add ''items'' Save_GetItems None False
     (Properties_Add ''moduleType'' Save_GetModuleType (Some Save_SetModuleType) True ObjectProperties_new)))))))))))"

definition Save_Init ::
  "system \<Rightarrow> (string \<Rightarrow> int) \<Rightarrow> (string \<times> string) list option \<Rightarrow> save_module \<Rightarrow> files \<Rightarrow> failure + bool \<times> save_module \<times> files" where
  "Save_Init sys nameToId params m fs =
     (case params of
        None \<Rightarrow> Inr (True, m, fs)
      | Some ps \<Rightarrow>
          bind_result (InitProperties (Save_props nameToId) False ps m) (\<lambda>(ok, m1).
            if \<not> ok then Inr (False, m1, fs)
            else if sv_filename m1 = None then Inr (False, m1, fs)
            else bind_result (Save_ReopenFile sys m1 fs) (\<lambda>(_, m2, fs1). Inr (True, m2, fs1))))"

subsection \<open>Writing\<close>

text \<open>
  What a resource class and the streams provide: the size of a resource, its serialisation for a format, the formats of
  binary and compressed binary files.
\<close>

record 'd codec =
  cd_size :: "'d resource \<Rightarrow> int"
  cd_serialize :: "out_ops \<Rightarrow> 'd resource \<Rightarrow> bool \<times> string"
  cd_binary :: "bool \<Rightarrow> out_ops"

definition Save_outs :: "'d codec \<Rightarrow> save_module \<Rightarrow> out_ops" where
  "Save_outs c m = (if sv_text m then text_out else cd_binary c (sv_compress m))"

text \<open>A resource written to the current stream; the answer of the class says whether it could be written.\<close>

definition Save_write :: "'d codec \<Rightarrow> 'd resource \<Rightarrow> save_module \<Rightarrow> files \<Rightarrow> failure + bool \<times> files" where
  "Save_write c r m fs =
     (case sv_stream m of
        NoStream \<Rightarrow> Inl NullDeref
      | FreedStream \<Rightarrow> Inl UseAfterFree
      | StreamTo f \<Rightarrow>
          (case SerializeResource (Save_outs c m) (cd_serialize c (Save_outs c m)) (sv_saveResourceType m) (sv_saveResourceIdStatus m) r of
             (ok, out) \<Rightarrow> Inr (ok, fs(f \<mapsto> (case fs f of None \<Rightarrow> [] | Some old \<Rightarrow> old) @ out))))"

definition Save_ProcessOutputSync ::
  "system \<Rightarrow> 'd codec \<Rightarrow> 'd resource option \<Rightarrow> save_module \<Rightarrow> files \<Rightarrow> failure + 'd resource option \<times> save_module \<times> files" where
  "Save_ProcessOutputSync sys c ores m fs =
     (case ores of
        None \<Rightarrow> Inl AssertFailed
      | Some r \<Rightarrow>
          if sv_stream m = NoStream then Inr (Some r, m, fs)
          else
            let sz = (if sv_maxSizePerFile m > 0 then cd_size c r else 0);
                full = (sv_maxItemsPerFile m > 0 \<and> sv_savedItems m = sv_maxItemsPerFile m) \<or>
                       (sv_maxSizePerFile m > 0 \<and> sv_savedSize m + sz > sv_maxSizePerFile m)
            in bind_result
                 (if full then
                    bind_result (Save_ReopenFile sys (m\<lparr>sv_fileId := sv_fileId m + 1\<rparr>) fs) (\<lambda>(_, m1, fs1).
                      Inr (m1\<lparr>sv_savedItems := 0, sv_savedSize := 0\<rparr>, fs1))
                  else Inr (m, fs)) (\<lambda>(m1, fs1).
               bind_result (Save_write c r m1 fs1) (\<lambda>(ok, fs2).
                 Inr (Some r,
                   if ok then m1\<lparr>sv_items := sv_items m1 + 1, sv_savedItems := sv_savedItems m1 + 1, sv_savedSize := sv_savedSize m1 + sz\<rparr>
                   else m1, fs2))))"

text \<open>
  One pass of the loop of \<^verbatim>\<open>ProcessMultiSync\<close>.  The counter of the time check is a new variable in every pass, so that it
  never reaches 1000 and the check is never made.
\<close>

definition Save_one ::
  "system \<Rightarrow> 'd codec \<Rightarrow> 'd resource \<Rightarrow> save_module \<Rightarrow> files \<Rightarrow> failure + save_module \<times> files" where
  "Save_one sys c r m fs =
     (if (sv_filter m = [] \<or> r_type r \<in> set (sv_filter m)) \<and> sv_stream m \<noteq> NoStream then
        bind_result (Save_write c r m fs) (\<lambda>(ok, fs1).
          if ok then
            let m1 = m\<lparr>sv_items := sv_items m + 1\<rparr>
            in if sv_maxItemsPerFile m1 > 0 \<and> c_mod (sv_items m1) (sv_maxItemsPerFile m1) = 0 then
                 bind_result (Save_ReopenFile sys (m1\<lparr>sv_fileId := sv_fileId m1 + 1\<rparr>) fs1) (\<lambda>(_, m2, fs2). Inr (m2, fs2))
               else Inr (m1, fs1)
          else Inr (m, fs1))
      else Inr (m, fs))"

fun Save_multi_loop ::
  "system \<Rightarrow> 'd codec \<Rightarrow> 'd resource list \<Rightarrow> 'd resource list \<Rightarrow> save_module \<Rightarrow> files \<Rightarrow> failure + 'd resource list \<times> save_module \<times> files" where
  "Save_multi_loop sys c [] out m fs = Inr (out, m, fs)"
| "Save_multi_loop sys c (r # inp) out m fs =
     bind_result (Save_one sys c r m fs) (\<lambda>(m1, fs1). Save_multi_loop sys c inp (out @ [r]) m1 fs1)"

definition Save_ProcessMultiSync ::
  "system \<Rightarrow> 'd codec \<Rightarrow> 'd resource list \<Rightarrow> 'd resource list \<Rightarrow> save_module \<Rightarrow> files
     \<Rightarrow> failure + (bool \<times> 'd resource list \<times> 'd resource list \<times> int \<times> int \<times> save_module) \<times> files" where
  "Save_ProcessMultiSync sys c inp out m fs =
     bind_result (Save_multi_loop sys c inp out m fs) (\<lambda>(out1, m1, fs1).
       Inr ((False, [], out1, Save_MAX_RESOURCES, 0, m1), fs1))"

section \<open>Where saved resources end up\<close>

text \<open>A list of resources given to the output module one after another.\<close>

fun Save_all :: "system \<Rightarrow> 'd codec \<Rightarrow> 'd resource list \<Rightarrow> save_module \<Rightarrow> files \<Rightarrow> failure + save_module \<times> files" where
  "Save_all sys c [] m fs = Inr (m, fs)"
| "Save_all sys c (r # rs) m fs =
     bind_result (Save_ProcessOutputSync sys c (Some r) m fs) (\<lambda>(_, m1, fs1). Save_all sys c rs m1 fs1)"

definition Save_bytes :: "'d codec \<Rightarrow> save_module \<Rightarrow> 'd resource \<Rightarrow> string" where
  "Save_bytes c m r =
     snd (SerializeResource (Save_outs c m) (cd_serialize c (Save_outs c m)) (sv_saveResourceType m) (sv_saveResourceIdStatus m) r)"

definition Save_can :: "'d codec \<Rightarrow> save_module \<Rightarrow> 'd resource \<Rightarrow> bool" where
  "Save_can c m r =
     fst (SerializeResource (Save_outs c m) (cd_serialize c (Save_outs c m)) (sv_saveResourceType m) (sv_saveResourceIdStatus m) r)"

text \<open>The members that decide how resources are written.\<close>

definition same_settings :: "save_module \<Rightarrow> save_module \<Rightarrow> bool" where
  "same_settings m m' \<longleftrightarrow>
     sv_text m = sv_text m' \<and> sv_compress m = sv_compress m' \<and> sv_saveResourceType m = sv_saveResourceType m' \<and>
     sv_saveResourceIdStatus m = sv_saveResourceIdStatus m' \<and> sv_maxItemsPerFile m = sv_maxItemsPerFile m' \<and>
     sv_maxSizePerFile m = sv_maxSizePerFile m' \<and> sv_filename m = sv_filename m' \<and> sv_overwrite m = sv_overwrite m'"

lemma Save_bytes_cong: "same_settings m m' \<Longrightarrow> Save_bytes c m = Save_bytes c m' \<and> Save_can c m = Save_can c m'"
  by (simp add: same_settings_def Save_bytes_def Save_can_def Save_outs_def fun_eq_iff)

lemma Save_write_ok:
  "sv_stream m = StreamTo f \<Longrightarrow> Save_can c m r \<Longrightarrow>
   Save_write c r m fs = Inr (True, fs(f \<mapsto> (case fs f of None \<Rightarrow> [] | Some old \<Rightarrow> old) @ Save_bytes c m r))"
  by (auto simp: Save_write_def Save_can_def Save_bytes_def split: prod.splits)

definition numbered :: "string \<Rightarrow> nat \<Rightarrow> string" where
  "numbered name k = name @ ''.'' @ show_int (int (Suc k))"

lemma numbered_inj [simp]: "numbered name i = numbered name j \<longleftrightarrow> i = j"
proof
  assume "numbered name i = numbered name j"
  then have "read_int (show_int (int (Suc i))) = read_int (show_int (int (Suc j)))" by (simp add: numbered_def)
  then show "i = j" unfolding read_show_int by simp
qed simp

lemma numbered_neq [simp]: "numbered name i \<noteq> name" "name \<noteq> numbered name i"
  by (simp_all add: numbered_def)

text \<open>
  The state after \<open>rs\<close> with at most \<open>n\<close> resources per file, \<open>k\<close> files being complete.  In the text format the numbered
  files stay empty and the file with the configured name is truncated at every change of the file.
\<close>

definition chunk :: "nat \<Rightarrow> nat \<Rightarrow> 'a list \<Rightarrow> 'a list" where
  "chunk n i xs = take n (drop (i * n) xs)"

definition rotated ::
  "'d codec \<Rightarrow> string \<Rightarrow> nat \<Rightarrow> nat \<Rightarrow> 'd resource list \<Rightarrow> save_module \<Rightarrow> files \<Rightarrow> bool" where
  "rotated c name n k rs m fs \<longleftrightarrow>
     sv_filename m = Some name \<and> sv_overwrite m \<and> sv_maxItemsPerFile m = int n \<and> sv_maxSizePerFile m \<le> 0 \<and> 0 < n \<and>
     sv_fileId m = int (Suc k) \<and> k * n \<le> length rs \<and> length rs \<le> Suc k * n \<and> (rs \<noteq> [] \<longrightarrow> k * n < length rs) \<and> int (length rs) = int (k * n) + sv_savedItems m \<and>
     (if sv_text m
      then sv_stream m = StreamTo name \<and> fs name = Some (concat (map (Save_bytes c m) (chunk n k rs))) \<and>
        (\<forall>i\<le>k. fs (numbered name i) = Some [])
      else sv_stream m = StreamTo (numbered name k) \<and>
        (\<forall>i\<le>k. fs (numbered name i) = Some (concat (map (Save_bytes c m) (chunk n i rs)))))"

lemma chunk_full: "i \<le> k \<Longrightarrow> Suc k * n \<le> length rs \<Longrightarrow> chunk n i (rs @ [r]) = chunk n i rs"
proof -
  assume i: "i \<le> k" and l: "Suc k * n \<le> length rs"
  have "i * n \<le> k * n" using i by (intro mult_le_mono1) simp
  then have "n \<le> length rs - i * n" using l unfolding mult_Suc by linarith
  then show ?thesis by (simp add: chunk_def)
qed

lemma chunk_before: "i < k \<Longrightarrow> k * n \<le> length rs \<Longrightarrow> chunk n i (rs @ [r]) = chunk n i rs"
  using chunk_full [of i "k - 1" n rs r] by (cases k) auto

lemma chunk_new: "length rs = Suc k * n \<Longrightarrow> 0 < n \<Longrightarrow> chunk n (Suc k) (rs @ [r]) = [r]"
  by (simp add: chunk_def)

lemma chunk_grows: "k * n \<le> length rs \<Longrightarrow> length rs < Suc k * n \<Longrightarrow> chunk n k (rs @ [r]) = chunk n k rs @ [r]"
  by (simp add: chunk_def)

lemma rotate_same_file:
  assumes "rotated c name n k rs m fs" "length rs < Suc k * n" "Save_can c m r"
  shows "\<exists>m' fs'. Save_ProcessOutputSync sys c (Some r) m fs = Inr (Some r, m', fs') \<and> same_settings m m' \<and>
    rotated c name n k (rs @ [r]) m' fs'"
proof -
  note inv = assms(1) [unfolded rotated_def]
  have "int (length rs) = int (k * n) + sv_savedItems m" "sv_maxItemsPerFile m = int n" "length rs < n + k * n"
    using inv assms(2) by auto
  then have notfull: "sv_savedItems m \<noteq> sv_maxItemsPerFile m" by linarith
  define f where "f = (if sv_text m then name else numbered name k)"
  have f: "sv_stream m = StreamTo f" and content: "fs f = Some (concat (map (Save_bytes c m) (chunk n k rs)))"
    using inv by (auto simp: f_def split: if_splits)
  let ?m = "m\<lparr>sv_items := sv_items m + 1, sv_savedItems := sv_savedItems m + 1\<rparr>"
  let ?fs = "fs(f \<mapsto> concat (map (Save_bytes c m) (chunk n k (rs @ [r]))))"
  have grow: "chunk n k (rs @ [r]) = chunk n k rs @ [r]" using chunk_grows [of k n rs r] inv assms(2) by simp
  have "Save_ProcessOutputSync sys c (Some r) m fs = Inr (Some r, ?m, ?fs)"
    using inv f content notfull Save_write_ok [OF f assms(3), of fs] grow
    by (simp add: Save_ProcessOutputSync_def Let_def)
  moreover have "same_settings m ?m" by (simp add: same_settings_def)
  moreover have "rotated c name n k (rs @ [r]) ?m ?fs"
  proof -
    have "Save_bytes c ?m = Save_bytes c m" by (rule Save_bytes_cong [OF \<open>same_settings m ?m\<close>, THEN conjunct1, symmetric])
    moreover have "chunk n i (rs @ [r]) = (if i = k then chunk n k rs @ [r] else chunk n i rs)" if "i \<le> k" for i
      using that grow chunk_before [of i k n rs r] inv by auto
    ultimately show ?thesis using inv assms(2) grow
      by (auto simp: rotated_def f_def split: if_splits)
  qed
  ultimately show ?thesis by blast
qed

lemma rotate_next_file:
  assumes "rotated c name n k rs m fs" "length rs = Suc k * n" "Save_can c m r"
    and "\<And>f. can_open sys f \<and> can_lock sys f \<and> can_stream sys f"
  shows "\<exists>m' fs'. Save_ProcessOutputSync sys c (Some r) m fs = Inr (Some r, m', fs') \<and> same_settings m m' \<and>
    rotated c name n (Suc k) (rs @ [r]) m' fs'"
proof -
  note inv = assms(1) [unfolded rotated_def]
  have full: "sv_savedItems m = sv_maxItemsPerFile m" using inv assms(2) by auto
  define f where "f = (if sv_text m then name else numbered name (Suc k))"
  have cur: "Save_current_file name (m\<lparr>sv_fileId := sv_fileId m + 1\<rparr>) = numbered name (Suc k)"
    using inv by (simp add: Save_current_file_def numbered_def)
  let ?m1 = "m\<lparr>sv_fileId := int (Suc (Suc k)), sv_stream := StreamTo f, sv_fd := True\<rparr>"
  let ?fs1 = "fs(numbered name (Suc k) \<mapsto> [], f \<mapsto> [])"
  have re: "Save_ReopenFile sys (m\<lparr>sv_fileId := sv_fileId m + 1\<rparr>) fs = Inr (True, ?m1, ?fs1)"
    using inv assms(4) cur by (auto simp: Save_ReopenFile_def Let_def f_def split: if_splits)
  let ?m2 = "?m1\<lparr>sv_savedItems := 0, sv_savedSize := 0\<rparr>"
  let ?m = "?m2\<lparr>sv_items := sv_items m + 1, sv_savedItems := 1\<rparr>"
  let ?fs = "?fs1(f \<mapsto> Save_bytes c m r)"
  have s2: "same_settings m ?m2" by (simp add: same_settings_def)
  then have b2: "Save_bytes c ?m2 = Save_bytes c m" "Save_can c ?m2 r" using Save_bytes_cong [OF s2, of c] assms(3) by auto
  have "Save_write c r ?m2 ?fs1 = Inr (True, ?fs)"
    using Save_write_ok [of ?m2 f c r ?fs1] b2 by simp
  then have "Save_ProcessOutputSync sys c (Some r) m fs = Inr (Some r, ?m, ?fs)"
    using inv full re by (auto simp: Save_ProcessOutputSync_def Let_def split: if_splits)
  moreover have "same_settings m ?m" by (simp add: same_settings_def)
  moreover have "rotated c name n (Suc k) (rs @ [r]) ?m ?fs"
  proof -
    have "Save_bytes c ?m = Save_bytes c m" by (rule Save_bytes_cong [OF \<open>same_settings m ?m\<close>, THEN conjunct1, symmetric])
    then show ?thesis using inv assms(2) chunk_new [OF assms(2)] chunk_full [of _ k n rs r]
      by (auto simp: rotated_def f_def le_Suc_eq split: if_splits)
  qed
  ultimately show ?thesis by blast
qed

lemma Save_all_rotates:
  assumes "rotated c name n k old m fs" "list_all (Save_can c m) rs"
    and "\<And>f. can_open sys f \<and> can_lock sys f \<and> can_stream sys f"
  shows "\<exists>k' m' fs'. Save_all sys c rs m fs = Inr (m', fs') \<and> same_settings m m' \<and> rotated c name n k' (old @ rs) m' fs'"
  using assms(1,2)
proof (induction rs arbitrary: k old m fs)
  case Nil
  then show ?case by (auto simp: same_settings_def)
next
  case (Cons r rs)
  have "length old \<le> Suc k * n" using Cons.prems(1) by (simp add: rotated_def)
  then obtain k1 m1 fs1 where s: "Save_ProcessOutputSync sys c (Some r) m fs = Inr (Some r, m1, fs1)" "same_settings m m1"
    "rotated c name n k1 (old @ [r]) m1 fs1"
    using rotate_same_file [OF Cons.prems(1)] rotate_next_file [OF Cons.prems(1) _ _ assms(3)] Cons.prems(2)
    by (metis le_neq_implies_less list.pred_inject(2))
  have "list_all (Save_can c m1) rs" using Cons.prems(2) Save_bytes_cong [OF s(2), of c] by simp
  from Cons.IH [OF s(3) this] s show ?case by (auto simp: same_settings_def)
qed

lemma Save_first_file:
  assumes "sv_filename m = Some name" "sv_stream m = NoStream" "sv_fileId m = 1" "sv_savedItems m = 0" "sv_overwrite m"
    and "sv_maxItemsPerFile m = int n" "0 < n" "sv_maxSizePerFile m \<le> 0"
    and "\<And>f. can_open sys f \<and> can_lock sys f \<and> can_stream sys f"
  shows "\<exists>m' fs'. Save_ReopenFile sys m fs = Inr (True, m', fs') \<and> same_settings m m' \<and> rotated c name n 0 [] m' fs'"
proof -
  define f where "f = (if sv_text m then name else numbered name 0)"
  have "Save_current_file name m = numbered name 0" using assms by (simp add: Save_current_file_def numbered_def)
  then have "Save_ReopenFile sys m fs = Inr (True, m\<lparr>sv_fd := True, sv_stream := StreamTo f\<rparr>, fs(numbered name 0 \<mapsto> [], f \<mapsto> []))"
    using assms by (auto simp: Save_ReopenFile_def Let_def f_def)
  then show ?thesis using assms by (auto simp: rotated_def same_settings_def chunk_def f_def)
qed

text \<open>
  Rotation of files.  With a limit of \<open>n > 0\<close> resources per file, a new module that opens its first file and is then
  given \<open>rs\<close> never fails, and the binary formats put the first \<open>n\<close> resources into \<^verbatim>\<open>name.1\<close>, the next into \<^verbatim>\<open>name.2\<close> and so
  on.  The text format loses resources: the stream is opened on \<^verbatim>\<open>name\<close>, which every change of the file truncates, so
  that in the end only the last group is there, and the numbered files are empty.
\<close>

theorem Save_rotation:
  assumes "sv_filename m = Some name" and "sv_stream m = NoStream" and "sv_fileId m = 1" and "sv_savedItems m = 0"
    and "sv_overwrite m" and "sv_maxItemsPerFile m = int n" and "0 < n" and "sv_maxSizePerFile m \<le> 0"
    and "\<And>f. can_open sys f \<and> can_lock sys f \<and> can_stream sys f" and "list_all (Save_can c m) rs" and "rs \<noteq> []"
  shows "\<exists>m1 fs1 m2 fs2. Save_ReopenFile sys m fs = Inr (True, m1, fs1) \<and> Save_all sys c rs m1 fs1 = Inr (m2, fs2) \<and>
    (if sv_text m
     then fs2 name = Some (concat (map (Save_bytes c m) (chunk n ((length rs - 1) div n) rs))) \<and>
       (\<forall>i. i * n < length rs \<longrightarrow> fs2 (numbered name i) = Some [])
     else \<forall>i. i * n < length rs \<longrightarrow> fs2 (numbered name i) = Some (concat (map (Save_bytes c m) (chunk n i rs))))"
proof -
  obtain m1 fs1 where a: "Save_ReopenFile sys m fs = Inr (True, m1, fs1)" "same_settings m m1" "rotated c name n 0 [] m1 fs1"
    using Save_first_file [OF assms(1-9)] by blast
  have b: "Save_bytes c m1 = Save_bytes c m" "Save_can c m1 = Save_can c m" using Save_bytes_cong [OF a(2), of c] by simp_all
  obtain k m2 fs2 where s: "Save_all sys c rs m1 fs1 = Inr (m2, fs2)" "same_settings m1 m2" "rotated c name n k rs m2 fs2"
    using Save_all_rotates [OF a(3) _ assms(9)] assms(10) b by (metis append_Nil)
  have b2: "Save_bytes c m2 = Save_bytes c m" "sv_text m2 = sv_text m"
    using Save_bytes_cong [OF s(2), of c] b s(2) a(2) by (simp_all add: same_settings_def)
  have le: "i \<le> k" if "i * n < length rs" for i
  proof -
    have "i * n < Suc k * n" using that s(3) by (simp add: rotated_def)
    then show ?thesis using mult_less_cancel2 [of i n "Suc k"] by simp
  qed
  show ?thesis
  proof (cases "sv_text m")
    case True
    have "(length rs - 1) div n = k"
    proof (rule div_nat_eqI)
      have "k * n < length rs" "length rs \<le> n + k * n" using s(3) assms(11) by (simp_all add: rotated_def)
      then show "n * k \<le> length rs - 1" "length rs - 1 < n * Suc k" by (simp_all add: mult.commute)
    qed
    then show ?thesis using a(1) s b2 le True by (auto simp: rotated_def)
  next
    case False
    then show ?thesis using a(1) s b2 le by (auto simp: rotated_def)
  qed
qed

text \<open>
  When the next file of a rotation cannot be opened, the module keeps the pointer to the deleted stream and the next
  resource is written through it.
\<close>

theorem Save_failed_rotation:
  assumes "sv_stream m = StreamTo f" and "sv_filename m = Some name"
    and "sv_maxItemsPerFile m > 0" and "sv_savedItems m = sv_maxItemsPerFile m"
    and "\<not> can_open sys (Save_current_file name (m\<lparr>sv_fileId := sv_fileId m + 1\<rparr>))"
  shows "Save_ProcessOutputSync sys c (Some r) m fs = Inl UseAfterFree"
  using assms by (auto simp: Save_ProcessOutputSync_def Save_ReopenFile_def Save_write_def Let_def)

text \<open>A failure to open the first file is harmless: the resources pass through and nothing is written.\<close>

lemma Save_without_file:
  "sv_stream m = NoStream \<Longrightarrow> Save_all sys c rs m fs = Inr (m, fs)"
  by (induction rs) (auto simp: Save_ProcessOutputSync_def)

definition demo_codec :: "string codec" where
  "demo_codec = \<lparr>cd_size = TestResource_GetSize, cd_serialize = TestResource_Serialize, cd_binary = (\<lambda>_. text_out)\<rparr>"

definition demo_system :: "(string \<Rightarrow> bool) \<Rightarrow> system" where
  "demo_system ok = \<lparr>can_open = ok, can_lock = (\<lambda>_. True), can_stream = (\<lambda>_. True)\<rparr>"

definition demo_save :: "bool \<Rightarrow> save_module" where
  "demo_save txt = Save_new\<lparr>sv_filename := Some ''out'', sv_maxItemsPerFile := 1, sv_text := txt\<rparr>"

definition demo_test :: "string \<Rightarrow> string resource" where
  "demo_test s = Resource_new 1 1 s"

theorem Save_rotation_witness:
  "\<exists>m1 fs1 m2 fs2. Save_ReopenFile (demo_system (\<lambda>_. True)) (demo_save True) Map.empty = Inr (True, m1, fs1) \<and>
     Save_all (demo_system (\<lambda>_. True)) demo_codec [demo_test ''a'', demo_test ''b''] m1 fs1 = Inr (m2, fs2) \<and>
     fs2 ''out'' = Some (Save_bytes demo_codec (demo_save True) (demo_test ''b'')) \<and> fs2 (numbered ''out'' 0) = Some []"
proof -
  let ?rs = "[demo_test ''a'', demo_test ''b'']"
  have can: "list_all (Save_can demo_codec (demo_save True)) ?rs"
    by (simp add: Save_can_def SerializeResource_def demo_codec_def TestResource_Serialize_def Let_def split_beta)
  have "chunk 1 ((length ?rs - 1) div 1) ?rs = [demo_test ''b'']" by (simp add: chunk_def)
  then show ?thesis
    using Save_rotation [of "demo_save True" "''out''" 1 "demo_system (\<lambda>_. True)" demo_codec ?rs Map.empty] can
    by (simp add: demo_save_def Save_new_def demo_system_def) (metis mult_0 zero_less_Suc)
qed

theorem Save_failed_rotation_witness:
  "Save_ProcessOutputSync (demo_system (\<lambda>_. False)) demo_codec (Some (demo_test ''a''))
     ((demo_save False)\<lparr>sv_stream := StreamTo ''out.1'', sv_savedItems := 1\<rparr>) Map.empty = Inl UseAfterFree"
  by (rule Save_failed_rotation [where f = "''out.1''" and name = "''out''"])
    (simp_all add: demo_save_def demo_system_def)

section \<open>Load\<close>

text \<open>
  The descriptor member is never set (\<^verbatim>\<open>ReopenFile\<close> stores the descriptor in a local variable of the same name), so it is a
  constant; \<open>ld_locked\<close> says that \<^verbatim>\<open>fileCond\<close> was left locked.  The stream is the state \<open>'i\<close> of the reading operations.
\<close>

record 'i load_module =
  ld_isInputModuleType :: bool
  ld_items :: int
  ld_maxItems :: int
  ld_skipItems :: int
  ld_filename :: "string option"
  ld_wait :: bool
  ld_resourceType :: int
  ld_mark :: int
  ld_text :: bool
  ld_compress :: bool
  ld_timeTick :: int
  ld_cancel :: bool
  ld_resourceTypeName :: string
  ld_markRead :: bool
  ld_markEmmited :: bool
  ld_byteCount :: int
  ld_stream :: "'i option"
  ld_locked :: bool
  ld_markerResourceTypeId :: int

definition Load_MAX_RESOURCES :: nat where
  "Load_MAX_RESOURCES = 10000"

definition Load_new :: "'i load_module" where
  "Load_new =
     \<lparr>ld_isInputModuleType = True, ld_items = 0, ld_maxItems = 0, ld_skipItems = 0, ld_filename = None, ld_wait = False,
      ld_resourceType = 0, ld_mark = - 1, ld_text = False, ld_compress = False, ld_timeTick = 100 * 1000, ld_cancel = False,
      ld_resourceTypeName = [], ld_markRead = False, ld_markEmmited = False, ld_byteCount = 0, ld_stream = None,
      ld_locked = False, ld_markerResourceTypeId = 0\<rparr>"

definition Load_fd :: int where
  "Load_fd = - 1"

definition Load_GetType :: "'i load_module \<Rightarrow> module_type" where
  "Load_GetType m = (if ld_isInputModuleType m then INPUT else MULTI)"

text \<open>
  What reading relies on: a stream on the contents of a file in the text, binary or compressed format, the reading
  operations, the deserialisation of a resource class, the types the registry can load, and how the mark of a marker is set.
\<close>

record ('d, 'i) reader =
  rd_open :: "bool \<Rightarrow> bool \<Rightarrow> string \<Rightarrow> 'i"
  rd_ins :: "'i in_ops"
  rd_deser :: "'d resource \<Rightarrow> 'i \<Rightarrow> bool \<times> 'd resource \<times> 'i"
  rd_libs :: "string \<rightharpoonup> 'd resource_lib"
  rd_setMark :: "int \<Rightarrow> 'd \<Rightarrow> 'd"
  rd_skip :: "int \<Rightarrow> 'i \<Rightarrow> bool \<times> 'i"

definition Load_ReopenFile :: "('d, 'i) reader \<Rightarrow> system \<Rightarrow> files \<Rightarrow> 'i load_module \<Rightarrow> failure + bool \<times> 'i load_module" where
  "Load_ReopenFile rd sys fs m =
     (if ld_locked m then Inl SelfDeadlock
      else
        let m1 = m\<lparr>ld_stream := None, ld_markEmmited := False, ld_byteCount := 0\<rparr> in
        case ld_filename m of
          None \<Rightarrow> Inr (False, m1)
        | Some name \<Rightarrow>
            (case fs name of
               None \<Rightarrow> Inr (False, m1)
             | Some content \<Rightarrow>
                 if \<not> can_open sys name then Inr (False, m1)
                 else if \<not> can_lock sys name then Inr (False, m1)
                 else if ld_text m \<and> \<not> can_stream sys name then Inr (False, m1\<lparr>ld_locked := True\<rparr>)
                 else Inr (True, m1\<lparr>ld_stream := Some (rd_open rd (ld_text m) (ld_compress m) content)\<rparr>)))"

subsection \<open>Properties\<close>

definition Load_GetModuleType :: "'i load_module getter" where
  "Load_GetModuleType name m = Some (if ld_isInputModuleType m then ''INPUT'' else ''MULTI'')"

definition Load_SetModuleType :: "'i load_module setter" where
  "Load_SetModuleType name v m =
     Inr (if v = ''INPUT'' then m\<lparr>ld_isInputModuleType := True\<rparr>
          else if v = ''MULTI'' then m\<lparr>ld_isInputModuleType := False\<rparr> else m)"

definition Load_GetItems :: "'i load_module getter" where
  "Load_GetItems name m = Some (int2str (ld_items m))"

definition Load_GetMaxItems :: "'i load_module getter" where
  "Load_GetMaxItems name m = Some (int2str (ld_maxItems m))"

definition Load_SetMaxItems :: "'i load_module setter" where
  "Load_SetMaxItems name v m = set_int v (\<lambda>n. m\<lparr>ld_maxItems := n\<rparr>)"

definition Load_GetSkipItems :: "'i load_module getter" where
  "Load_GetSkipItems name m = Some (int2str (ld_skipItems m))"

definition Load_SetSkipItems :: "'i load_module setter" where
  "Load_SetSkipItems name v m = set_int v (\<lambda>n. m\<lparr>ld_skipItems := n\<rparr>)"

definition Load_GetFilename :: "'i load_module getter" where
  "Load_GetFilename name m = ld_filename m"

text \<open>The file is not reopened: the descriptor member is never set.\<close>

definition Load_SetFilename :: "('d, 'i) reader \<Rightarrow> system \<Rightarrow> files \<Rightarrow> 'i load_module setter" where
  "Load_SetFilename rd sys fs name v m =
     (let m1 = m\<lparr>ld_filename := Some v\<rparr>
      in if Load_fd \<ge> 0 then bind_result (Load_ReopenFile rd sys fs m1) (\<lambda>(_, m2). Inr m2) else Inr m1)"

definition Load_GetWait :: "'i load_module getter" where
  "Load_GetWait name m = Some (bool2str (ld_wait m))"

definition Load_SetWait :: "'i load_module setter" where
  "Load_SetWait name v m = Inr (m\<lparr>ld_wait := str2bool_cast v\<rparr>)"

definition Load_GetResourceType :: "'i load_module getter" where
  "Load_GetResourceType name m = Some (ld_resourceTypeName m)"

definition Load_SetResourceType :: "(string \<Rightarrow> int) \<Rightarrow> 'i load_module setter" where
  "Load_SetResourceType nameToId name v m =
     Inr (if v \<noteq> [] then
            (if nameToId v \<le> 0 then m else m\<lparr>ld_resourceTypeName := v, ld_resourceType := nameToId v\<rparr>)
          else m\<lparr>ld_resourceTypeName := v, ld_resourceType := 0\<rparr>)"

definition Load_GetMark :: "'i load_module getter" where
  "Load_GetMark name m = Some (int2str (ld_mark m))"

definition Load_SetMark :: "'i load_module setter" where
  "Load_SetMark name v m = set_int v (\<lambda>n. m\<lparr>ld_mark := n\<rparr>)"

definition Load_GetText :: "'i load_module getter" where
  "Load_GetText name m = Some (bool2str (ld_text m))"

definition Load_SetText :: "'i load_module setter" where
  "Load_SetText name v m = Inr (m\<lparr>ld_text := str2bool_cast v\<rparr>)"

definition Load_GetCompress :: "'i load_module getter" where
  "Load_GetCompress name m = Some (bool2str (ld_compress m))"

definition Load_SetCompress :: "'i load_module setter" where
  "Load_SetCompress name v m = Inr (m\<lparr>ld_compress := str2bool_cast v\<rparr>)"

definition Load_GetTimeTick :: "'i load_module getter" where
  "Load_GetTimeTick name m = Some (int2str (ld_timeTick m))"

definition Load_SetTimeTick :: "'i load_module setter" where
  "Load_SetTimeTick name v m = set_int v (\<lambda>n. m\<lparr>ld_timeTick := n\<rparr>)"

definition Load_props :: "('d, 'i) reader \<Rightarrow> system \<Rightarrow> files \<Rightarrow> (string \<Rightarrow> int) \<Rightarrow> 'i load_module properties" where
  "Load_props rd sys fs nameToId =
     Properties_Add ''timeTick'' Load_GetTimeTick (Some Load_SetTimeTick) False
     (Properties_Add ''compress'' Load_GetCompress (Some Load_SetCompress) True
     (Properties_Add ''text'' Load_GetText (Some Load_SetText) True
     (Properties_Add ''mark'' Load_GetMark (Some Load_SetMark) False
     (Properties_Add ''resourceType'' Load_GetResourceType (Some (Load_SetResourceType nameToId)) False
     (Properties_Add ''wait'' Load_GetWait (Some Load_SetWait) False
     (Properties_Add ''filename'' Load_GetFilename (Some (Load_SetFilename rd sys fs)) False
     (Properties_Add ''maxItems'' Load_GetMaxItems (Some Load_SetMaxItems) False
     (Properties_Add ''items'' Load_GetItems None False
     (Properties_Add ''moduleType'' Load_GetModuleType (Some Load_SetModuleType) True ObjectProperties_new)))))))))"

definition Load_Init ::
  "('d, 'i) reader \<Rightarrow> system \<Rightarrow> files \<Rightarrow> (string \<Rightarrow> int) \<Rightarrow> (string \<times> string) list option \<Rightarrow> 'i load_module
     \<Rightarrow> failure + bool \<times> 'i load_module" where
  "Load_Init rd sys fs nameToId params m =
     (case params of
        None \<Rightarrow> Inr (True, m)
      | Some ps \<Rightarrow>
          bind_result (InitProperties (Load_props rd sys fs nameToId) False ps m) (\<lambda>(ok, m1).
            if \<not> ok then Inr (False, m1)
            else
              let m2 = (if ld_mark m1 \<ge> 0 then m1\<lparr>ld_markerResourceTypeId := nameToId ''MarkerResource''\<rparr> else m1)
              in if ld_mark m1 \<ge> 0 \<and> ld_markerResourceTypeId m2 \<le> 0 then Inr (False, m2)
                 else bind_result (Load_ReopenFile rd sys fs m2) (\<lambda>(_, m3). Inr (True, m3))))"

definition Load_StartSync :: "'i load_module \<Rightarrow> 'i load_module" where
  "Load_StartSync m = m\<lparr>ld_cancel := False\<rparr>"

definition Load_StopSync :: "'i load_module \<Rightarrow> 'i load_module" where
  "Load_StopSync m = m\<lparr>ld_cancel := True\<rparr>"

subsection \<open>Reading\<close>

text \<open>
  A read either returns or waits for another file.  What wakes a waiting reader is given as a list: a spurious wake-up, or
  the module is stopped; after the last one it waits for ever.
\<close>

datatype wakeup = Spurious | Stopped

datatype 'x waits = Done 'x | Waits

type_synonym ('d, 'i) load_result = "('d resource option \<times> 'i load_module \<times> 'd registry) waits"

definition Load_read ::
  "('d, 'i) reader \<Rightarrow> bool \<Rightarrow> 'i load_module \<Rightarrow> 'd registry \<Rightarrow> failure + 'd resource option \<times> int \<times> 'i load_module \<times> 'd registry" where
  "Load_read rd wantSize m s =
     (case ld_stream m of
        None \<Rightarrow> Inr (None, 0, m, s)
      | Some i \<Rightarrow>
          bind_result (DeserializeResource (rd_ins rd) (rd_deser rd) (rd_libs rd) (ld_resourceType m) wantSize i s) (\<lambda>(ores, n, i1, s1).
            Inr (ores, case n of None \<Rightarrow> 0 | Some k \<Rightarrow> k, m\<lparr>ld_stream := Some i1\<rparr>, s1)))"

definition Load_marker :: "('d, 'i) reader \<Rightarrow> 'i load_module \<Rightarrow> 'd registry \<Rightarrow> failure + 'd resource option \<times> 'i load_module \<times> 'd registry" where
  "Load_marker rd m s =
     (if ld_mark m \<ge> 0 \<and> \<not> ld_markEmmited m then
        bind_result (AcquireResource (rd_libs rd) (ld_markerResourceTypeId m) s) (\<lambda>(ores, s1).
          case ores of
            None \<Rightarrow> Inl NullDeref
          | Some r \<Rightarrow> Inr (Some (r\<lparr>r_data := rd_setMark rd (ld_mark m) (r_data r)\<rparr>), m\<lparr>ld_markEmmited := True\<rparr>, s1))
      else Inr (None, m, s))"

text \<open>The state after a wait: whether the reader goes on.\<close>

definition Load_woken :: "wakeup \<Rightarrow> 'i load_module \<Rightarrow> 'i load_module" where
  "Load_woken w m = (case w of Spurious \<Rightarrow> m | Stopped \<Rightarrow> Load_StopSync m)"

function Load_skip ::
  "('d, 'i) reader \<Rightarrow> bool \<Rightarrow> wakeup list \<Rightarrow> 'i load_module \<Rightarrow> 'd registry
     \<Rightarrow> failure + (bool \<times> wakeup list \<times> 'i load_module \<times> 'd registry) waits" where
  "Load_skip rd sleep ws m s =
     (if ld_skipItems m > 0 then
        (case Load_read rd False m s of
           Inl e \<Rightarrow> Inl e
         | Inr (Some r, _, m1, s1) \<Rightarrow> Load_skip rd sleep ws (m1\<lparr>ld_skipItems := ld_skipItems m - 1\<rparr>) s1
         | Inr (None, _, m1, s1) \<Rightarrow>
             if \<not> sleep \<or> \<not> ld_wait m1 then Inr (Done (False, ws, m1, s1))
             else (case ws of
                     [] \<Rightarrow> Inr Waits
                   | w # ws1 \<Rightarrow>
                       if ld_cancel (Load_woken w m1) then Inr (Done (False, ws1, Load_woken w m1, s1))
                       else Load_skip rd sleep ws1 ((Load_woken w m1)\<lparr>ld_skipItems := ld_skipItems m\<rparr>) s1))
      else Inr (Done (True, ws, m, s)))"
  by pat_completeness auto
termination
  by (relation "measures [\<lambda>(rd, sleep, ws, m, s). nat (ld_skipItems m), \<lambda>(rd, sleep, ws, m, s). length ws]") auto

declare Load_skip.simps [simp del]

fun Load_next ::
  "('d, 'i) reader \<Rightarrow> bool \<Rightarrow> wakeup list \<Rightarrow> 'i load_module \<Rightarrow> 'd registry \<Rightarrow> failure + ('d, 'i) load_result" where
  "Load_next rd sleep ws m s =
     bind_result (Load_read rd True m s) (\<lambda>(ores, n, m1, s1).
       case ores of
         Some r \<Rightarrow> Inr (Done (Some r, m1\<lparr>ld_byteCount := (ld_byteCount m1 + n) mod 2 ^ 64, ld_items := ld_items m1 + 1\<rparr>, s1))
       | None \<Rightarrow>
           if \<not> sleep \<or> \<not> ld_wait m1 then bind_result (Load_marker rd m1 s1) (\<lambda>x. Inr (Done x))
           else (case ws of
                   [] \<Rightarrow> Inr Waits
                 | w # ws1 \<Rightarrow>
                     if ld_cancel (Load_woken w m1) then Inr (Done (None, Load_woken w m1, s1))
                     else Load_next rd sleep ws1 (Load_woken w m1) s1))"

declare Load_next.simps [simp del]

definition Load_ProcessInputSync ::
  "('d, 'i) reader \<Rightarrow> bool \<Rightarrow> wakeup list \<Rightarrow> 'i load_module \<Rightarrow> 'd registry \<Rightarrow> failure + ('d, 'i) load_result" where
  "Load_ProcessInputSync rd sleep ws m s =
     (if ld_maxItems m \<noteq> 0 \<and> ld_items m \<ge> ld_maxItems m then bind_result (Load_marker rd m s) (\<lambda>x. Inr (Done x))
      else bind_result (Load_skip rd sleep ws m s) (\<lambda>res.
        case res of
          Waits \<Rightarrow> Inr Waits
        | Done (go, ws1, m1, s1) \<Rightarrow> if \<not> go then Inr (Done (None, m1, s1)) else Load_next rd sleep ws1 m1 s1))"

text \<open>
  \<^verbatim>\<open>ProcessMultiSync\<close> copies its input and, once a marker has come by, reads up to 10000 resources.  Every 1000 resources
  the clock is asked; \<open>late\<close> says whether the time is up after the given number of resources.
\<close>

fun Load_copy :: "'d resource list \<Rightarrow> 'd resource list \<Rightarrow> bool \<Rightarrow> 'd resource list \<times> bool" where
  "Load_copy [] out markRead = (out, markRead)"
| "Load_copy (r # inp) out markRead = Load_copy inp (out @ [r]) (markRead \<or> r_type r = MarkerResource_typeId)"

fun Load_batch ::
  "('d, 'i) reader \<Rightarrow> (nat \<Rightarrow> bool) \<Rightarrow> nat \<Rightarrow> nat \<Rightarrow> 'd resource list \<Rightarrow> 'i load_module \<Rightarrow> 'd registry
     \<Rightarrow> failure + bool \<times> 'd resource list \<times> 'i load_module \<times> 'd registry" where
  "Load_batch rd late done 0 out m s = Inr (False, out, m, s)"
| "Load_batch rd late done (Suc left) out m s =
     bind_result (Load_ProcessInputSync rd False [] m s) (\<lambda>res.
       case res of
         Waits \<Rightarrow> Inr (False, out, m, s)
       | Done (None, m1, s1) \<Rightarrow> Inr (True, out, m1, s1)
       | Done (Some r, m1, s1) \<Rightarrow>
           if Suc done mod 1000 = 0 \<and> late (Suc done) then Inr (False, out @ [r], m1, s1)
           else Load_batch rd late (Suc done) left (out @ [r]) m1 s1)"

definition Load_ProcessMultiSync ::
  "('d, 'i) reader \<Rightarrow> (nat \<Rightarrow> bool) \<Rightarrow> 'd resource list \<Rightarrow> 'd resource list \<Rightarrow> 'i load_module \<Rightarrow> 'd registry
     \<Rightarrow> failure + (bool \<times> 'd resource list \<times> 'd resource list \<times> int \<times> int \<times> 'i load_module) \<times> 'd registry" where
  "Load_ProcessMultiSync rd late inp out m s =
     (case Load_copy inp out (ld_markRead m) of
        (out1, mark) \<Rightarrow>
          let m1 = m\<lparr>ld_markRead := mark\<rparr>
          in bind_result (if mark then Load_batch rd late 0 Load_MAX_RESOURCES out1 m1 s else Inr (False, out1, m1, s))
               (\<lambda>(fileRead, out2, m2, s2).
                 Inr ((mark \<and> \<not> fileRead, [], out2, int Load_MAX_RESOURCES, 0, m2), s2)))"

subsection \<open>Checkpoints\<close>

text \<open>
  The state of a checkpoint is the name of the file and the number of bytes read, in a buffer of 1024 bytes.  Restoring
  sets the name (which does not reopen the file) and skips the bytes in the stream that is open.
\<close>

definition Load_checkpoint_file :: "string \<Rightarrow> string \<Rightarrow> string" where
  "Load_checkpoint_file path objId = take 1023 (path @ ''.'' @ objId)"

definition Load_SaveCheckpointSync :: "system \<Rightarrow> string \<Rightarrow> string \<Rightarrow> 'i load_module \<Rightarrow> files \<Rightarrow> bool \<times> files" where
  "Load_SaveCheckpointSync sys path objId m fs =
     (let f = Load_checkpoint_file path objId in
      if \<not> can_open sys f then (False, fs)
      else (True, fs(f \<mapsto> take 1023 ((case ld_filename m of None \<Rightarrow> ''(null)'' | Some n \<Rightarrow> n) @ [newline] @ show_int (ld_byteCount m) @ [newline]))))"

text \<open>\<^verbatim>\<open>sscanf\<close> with a word and an unsigned number of 64 bits.\<close>

definition scan_word_number :: "string \<Rightarrow> (string \<times> int) option" where
  "scan_word_number s =
     (let s1 = dropWhile isspace s;
          w = takeWhile (\<lambda>c. \<not> isspace c) s1;
          s2 = dropWhile isspace (dropWhile (\<lambda>c. \<not> isspace c) s1);
          neg = (s2 \<noteq> [] \<and> hd s2 = CHR ''-'');
          s3 = (if s2 \<noteq> [] \<and> (hd s2 = CHR ''-'' \<or> hd s2 = CHR ''+'') then tl s2 else s2);
          ds = takeWhile is_digit s3;
          v = min (int (digits_value 0 ds)) (2 ^ 64 - 1)
      in if w = [] \<or> ds = [] then None else Some (w, if neg then (- v) mod 2 ^ 64 else v))"

definition Load_RestoreCheckpointSync ::
  "('d, 'i) reader \<Rightarrow> system \<Rightarrow> string \<Rightarrow> string \<Rightarrow> 'i load_module \<Rightarrow> files \<Rightarrow> failure + bool \<times> 'i load_module" where
  "Load_RestoreCheckpointSync rd sys path objId m fs =
     (let f = Load_checkpoint_file path objId in
      case (if can_open sys f then fs f else None) of
        None \<Rightarrow> Inr (False, m)
      | Some content \<Rightarrow>
          let buf = take 1023 content in
          if buf = [] then Inr (False, m)
          else
            (case scan_word_number buf of
               None \<Rightarrow> Inr (False, m)
             | Some (fn, offset) \<Rightarrow>
                 bind_result (Load_SetFilename rd sys fs [] fn m) (\<lambda>m1.
                   case ld_stream m1 of
                     None \<Rightarrow> Inl NullDeref
                   | Some i \<Rightarrow> (case rd_skip rd offset i of (ok, i1) \<Rightarrow> Inr (ok, m1\<lparr>ld_stream := Some i1\<rparr>)))))"

section \<open>What comes back\<close>

text \<open>A format whose streams also notice the end of the data.\<close>

locale resource_file = resource_codec outs ins holds keeps ser deser restored sound
  for outs :: out_ops and ins :: "'i in_ops" and holds :: "'i \<Rightarrow> string \<Rightarrow> bool" and keeps :: "string \<Rightarrow> bool"
    and ser :: "'d resource \<Rightarrow> bool \<times> string" and deser :: "'d resource \<Rightarrow> 'i \<Rightarrow> bool \<times> 'd resource \<times> 'i"
    and restored :: "'d \<Rightarrow> 'd" and sound :: "'d \<Rightarrow> bool" +
  assumes at_end: "holds i [] \<Longrightarrow> \<exists>i'. in_ReadVarint32 ins i = (None, i')"
begin

definition framed :: "bool \<Rightarrow> 'd resource \<Rightarrow> string" where
  "framed idStatus r = snd (SerializeResource outs ser True idStatus r)"

text \<open>What a saved resource becomes.\<close>

definition comes_back :: "bool \<Rightarrow> 'd resource \<Rightarrow> 'd resource \<Rightarrow> bool" where
  "comes_back idStatus r r' \<longleftrightarrow>
     r_type r' = r_type r \<and> r_data r' = restored (r_data r) \<and> r_flags r' = 0 \<and>
     (if idStatus then r_id r' = r_id r \<and> r_status r' = r_status r else r_status r' = 0)"

definition savable :: "'d resource \<Rightarrow> bool" where
  "savable r \<longleftrightarrow> 0 < r_type r \<and> r_type r < 128 \<and> fits 32 (r_id r) \<and> fits 32 (r_status r) \<and> sound (r_data r)"

lemma end_of_data:
  assumes "holds i []"
  shows "\<exists>i'. DeserializeResource ins deser load 0 wantSize i s = Inr (None, None, i', s)"
proof -
  have "holds (if wantSize then snd (in_ByteCount ins i) else i) []" using byte_count assms by simp
  then obtain i' where "in_ReadVarint32 ins (if wantSize then snd (in_ByteCount ins i) else i) = (None, i')" using at_end by blast
  then show ?thesis by (auto simp: DeserializeResource_def Deserialize_type_def Let_def split_beta)
qed

text \<open>A module that reads such a file and emits no marker.\<close>

definition reads :: "('d, 'i) reader \<Rightarrow> 'i load_module \<Rightarrow> string \<Rightarrow> bool" where
  "reads rd m text \<longleftrightarrow>
     rd_ins rd = ins \<and> rd_deser rd = deser \<and> ld_resourceType m = 0 \<and> ld_maxItems m = 0 \<and> ld_skipItems m \<le> 0 \<and>
     ld_mark m < 0 \<and> (\<exists>i. ld_stream m = Some i \<and> holds i text)"

definition types_ready :: "('d, 'i) reader \<Rightarrow> 'd resource list \<Rightarrow> 'd registry \<Rightarrow> bool" where
  "types_ready rd rs s \<longleftrightarrow>
     registry_reach (rd_libs rd) s \<and> libs_agree (rd_libs rd) \<and> list_all (\<lambda>r. id2info s (r_type r) \<noteq> None) rs"

lemma Load_one:
  assumes "reads rd m (framed idStatus r @ rest)" "savable r" "types_ready rd (r # rs) s"
  shows "\<exists>r' m' s'. Load_ProcessInputSync rd sleep ws m s = Inr (Done (Some r', m', s')) \<and> comes_back idStatus r r' \<and>
    reads rd m' rest \<and> ld_items m' = ld_items m + 1 \<and> types_ready rd rs s'"
proof -
  obtain i where i: "ld_stream m = Some i" "holds i (framed idStatus r @ rest)" using assms(1) by (auto simp: reads_def)
  have "registry_reach (rd_libs rd) s" "libs_agree (rd_libs rd)" "id2info s (r_type r) \<noteq> None" "0 \<le> r_type r"
    using assms(2,3) by (simp_all add: types_ready_def savable_def)
  from AcquireResource_known_fields [OF this] obtain r0 s' where
    a: "AcquireResource (rd_libs rd) (r_type r) s = Inr (Some r0, s')" "r_type r0 = r_type r" "r_status r0 = 0" "r_flags r0 = 0"
    by blast
  obtain i' n where d: "DeserializeResource ins deser (rd_libs rd) 0 True i s =
      Inr (Some (r0\<lparr>r_id := (if idStatus then r_id r else r_id r0), r_status := (if idStatus then r_status r else r_status r0),
        r_data := restored (r_data r)\<rparr>), n, i', s')" "holds i' rest"
    using framed_round_trip [OF i(2) [unfolded framed_def] _ _ _ _ _ a(1), of True] assms(2) by (auto simp: savable_def)
  let ?r' = "r0\<lparr>r_id := (if idStatus then r_id r else r_id r0), r_status := (if idStatus then r_status r else r_status r0),
        r_data := restored (r_data r)\<rparr>"
  have "comes_back idStatus r ?r'" using a(2-4) by (simp add: comes_back_def)
  moreover have "types_ready rd rs s'"
  proof -
    have "names_known s" "registry_ok (rd_libs rd) s" using assms(3) registry_reach_known registry_reach_ok by (auto simp: types_ready_def)
    then show ?thesis using registry_operations_known(1) [OF _ _ _ a(1)] registry_reach.registry_acquire [OF _ a(1)] assms(3)
      by (auto simp: types_ready_def list_all_iff)
  qed
  ultimately show ?thesis using assms(1) i(1) d
    by (auto simp: Load_ProcessInputSync_def Load_skip.simps Load_next.simps Load_read_def reads_def)
qed

lemma Load_end:
  assumes "reads rd m []" "\<not> sleep \<or> \<not> ld_wait m"
  shows "\<exists>m'. Load_ProcessInputSync rd sleep ws m s = Inr (Done (None, m', s)) \<and> ld_items m' = ld_items m"
proof -
  obtain i where i: "ld_stream m = Some i" "holds i []" using assms(1) by (auto simp: reads_def)
  obtain i' where "DeserializeResource ins deser (rd_libs rd) 0 True i s = Inr (None, None, i', s)" using end_of_data [OF i(2)] by blast
  then show ?thesis using assms i(1)
    by (auto simp: Load_ProcessInputSync_def Load_skip.simps Load_next.simps Load_read_def Load_marker_def reads_def)
qed

end

text \<open>A number of calls, until null is returned.\<close>

fun Load_calls ::
  "('d, 'i) reader \<Rightarrow> nat \<Rightarrow> 'i load_module \<Rightarrow> 'd registry \<Rightarrow> failure + 'd resource option list \<times> 'i load_module \<times> 'd registry" where
  "Load_calls rd 0 m s = Inr ([], m, s)"
| "Load_calls rd (Suc k) m s =
     bind_result (Load_ProcessInputSync rd False [] m s) (\<lambda>res.
       case res of
         Waits \<Rightarrow> Inr ([], m, s)
       | Done (ores, m1, s1) \<Rightarrow> bind_result (Load_calls rd k m1 s1) (\<lambda>(rs, m2, s2). Inr (ores # rs, m2, s2)))"

context resource_file
begin

lemma Load_everything:
  assumes "reads rd m (concat (map (framed idStatus) rs))" "list_all savable rs" "types_ready rd rs s"
  shows "\<exists>rs' m' s'. Load_calls rd (Suc (length rs)) m s = Inr (map Some rs' @ [None], m', s') \<and> list_all2 (comes_back idStatus) rs rs' \<and>
    ld_items m' = ld_items m + int (length rs)"
  using assms
proof (induction rs arbitrary: m s)
  case Nil
  then show ?case using Load_end [of rd m False "[]" s] by (auto intro: exI [of _ "[]"])
next
  case (Cons r rs)
  obtain r' m1 s1 where one: "Load_ProcessInputSync rd False [] m s = Inr (Done (Some r', m1, s1))" "comes_back idStatus r r'"
    "reads rd m1 (concat (map (framed idStatus) rs))" "ld_items m1 = ld_items m + 1" "types_ready rd rs s1"
    using Load_one [of rd m idStatus r "concat (map (framed idStatus) rs)" rs s False "[]"] Cons.prems by auto
  obtain rs' m' s' where "Load_calls rd (Suc (length rs)) m1 s1 = Inr (map Some rs' @ [None], m', s')" "list_all2 (comes_back idStatus) rs rs'"
    "ld_items m' = ld_items m1 + int (length rs)"
    using Cons.IH [OF one(3) _ one(5)] Cons.prems(2) by auto
  then show ?case using one by (auto intro!: exI [of _ "r' # rs'"])
qed

end

subsection \<open>Text files\<close>

lemma text_at_end: "text_holds i [] \<Longrightarrow> \<exists>i'. in_ReadVarint32 text_in_ops i = (None, i')"
  by (simp add: text_holds_def text_in_ops_def ReadNumberText_def read_unsigned_def ti_advance_def Let_def)

interpretation test_file: resource_file text_out text_in_ops text_holds text_safe
  "TestResource_Serialize text_out" "TestResource_Deserialize text_in_ops False" blank_newlines "\<lambda>s. text_safe (blank_newlines s)"
  by unfold_locales (rule text_at_end)

interpretation marker_file: resource_file text_out text_in_ops text_holds text_safe
  "MarkerResource_Serialize text_out" "MarkerResource_Deserialize text_in_ops False" id "fits 32"
  by unfold_locales (rule text_at_end)

text \<open>Without a limit every resource is appended to the one file.\<close>

lemma Save_all_one_file:
  assumes "sv_maxItemsPerFile m \<le> 0" "sv_maxSizePerFile m \<le> 0" "sv_stream m = StreamTo f" "fs f = Some old" "list_all (Save_can c m) rs"
  shows "\<exists>m' fs'. Save_all sys c rs m fs = Inr (m', fs') \<and> fs' f = Some (old @ concat (map (Save_bytes c m) rs)) \<and>
    sv_items m' = sv_items m + int (length rs)"
  using assms
proof (induction rs arbitrary: m fs old)
  case (Cons r rs)
  define m1 where "m1 = m\<lparr>sv_items := sv_items m + 1, sv_savedItems := sv_savedItems m + 1\<rparr>"
  define fs1 where "fs1 = fs(f \<mapsto> old @ Save_bytes c m r)"
  have p: "Save_ProcessOutputSync sys c (Some r) m fs = Inr (Some r, m1, fs1)"
    using Cons.prems Save_write_ok [of m f c r fs] by (simp add: Save_ProcessOutputSync_def Let_def m1_def fs1_def)
  have s: "same_settings m m1" by (simp add: same_settings_def m1_def)
  have b: "Save_bytes c m1 = Save_bytes c m" "Save_can c m1 = Save_can c m" using Save_bytes_cong [OF s, of c] by simp_all
  have "sv_maxItemsPerFile m1 \<le> 0" "sv_maxSizePerFile m1 \<le> 0" "sv_stream m1 = StreamTo f" "fs1 f = Some (old @ Save_bytes c m r)"
    "list_all (Save_can c m1) rs"
    using Cons.prems b(2) by (simp_all add: m1_def fs1_def)
  from Cons.IH [of m1 fs1 "old @ Save_bytes c m r", OF this] obtain m' fs' where "Save_all sys c rs m1 fs1 = Inr (m', fs')"
    "fs' f = Some ((old @ Save_bytes c m r) @ concat (map (Save_bytes c m1) rs))" "sv_items m' = sv_items m1 + int (length rs)"
    by blast
  then show ?case using p b(1) by (auto simp: m1_def)
qed simp

definition test_codec :: "(bool \<Rightarrow> out_ops) \<Rightarrow> string codec" where
  "test_codec binary = \<lparr>cd_size = TestResource_GetSize, cd_serialize = TestResource_Serialize, cd_binary = binary\<rparr>"

definition test_reader :: "(string \<rightharpoonup> string resource_lib) \<Rightarrow> (string, text_in) reader" where
  "test_reader libs =
     \<lparr>rd_open = (\<lambda>_ _. TextIn_new), rd_ins = text_in_ops, rd_deser = TestResource_Deserialize text_in_ops False,
      rd_libs = libs, rd_setMark = (\<lambda>_ d. d), rd_skip = (\<lambda>n. SkipText (nat n))\<rparr>"

text \<open>
  C34: what \<^verbatim>\<open>Save\<close> writes, \<^verbatim>\<open>Load\<close> reads back.  A text file written by an output module (no limit per file, types saved) from
  any list of \<^verbatim>\<open>TestResource\<close>s whose strings the text format keeps is loaded by an input module as the same list in the same
  order, followed by null: the strings with newlines blanked, ids and statuses if they were saved.
\<close>

theorem Save_Load_round_trip:
  assumes "sv_filename m = Some name" "sv_stream m = NoStream" "sv_maxItemsPerFile m \<le> 0" "sv_maxSizePerFile m \<le> 0" "sv_text m"
    and "sv_saveResourceType m"
    and "ld_filename n = Some name" "ld_text n" "ld_resourceType n = 0" "ld_maxItems n = 0" "ld_skipItems n = 0" "ld_mark n < 0" "\<not> ld_locked n"
    and "can_open sys name" "can_lock sys name" "can_stream sys name"
    and "list_all (\<lambda>r. r_type r = TestResource_typeId \<and> fits 32 (r_id r) \<and> fits 32 (r_status r) \<and> text_safe (blank_newlines (r_data r))) rs"
    and "registry_reach libs s" "libs_agree libs" "id2info s TestResource_typeId \<noteq> None"
  shows "\<exists>m1 fs1 m2 fs2 n1 rs' n2 s'. Save_ReopenFile sys m fs = Inr (True, m1, fs1) \<and>
    Save_all sys (test_codec binary) rs m1 fs1 = Inr (m2, fs2) \<and>
    Load_ReopenFile (test_reader libs) sys fs2 n = Inr (True, n1) \<and>
    Load_calls (test_reader libs) (Suc (length rs)) n1 s = Inr (map Some rs' @ [None], n2, s') \<and>
    map r_data rs' = map (\<lambda>r. map (\<lambda>c. if c = newline then CHR '' '' else c) (r_data r)) rs \<and>
    (if sv_saveResourceIdStatus m then map r_id rs' = map r_id rs \<and> map r_status rs' = map r_status rs else True)"
proof -
  let ?c = "test_codec binary"
  let ?m1 = "m\<lparr>sv_fd := True, sv_stream := StreamTo name\<rparr>"
  let ?fs1 = "fs(name \<mapsto> [])"
  have re: "Save_ReopenFile sys m fs = Inr (True, ?m1, ?fs1)"
    using assms(1-5,14-16) by (simp add: Save_ReopenFile_def Save_current_file_def Let_def)
  have bytes: "Save_bytes ?c ?m1 = test_file.framed (sv_saveResourceIdStatus m)"
    using assms(5,6) by (simp add: Save_bytes_def Save_outs_def test_codec_def test_file.framed_def fun_eq_iff)
  have "list_all (Save_can ?c ?m1) rs"
    by (simp add: list_all_iff Save_can_def SerializeResource_def test_codec_def TestResource_Serialize_def Let_def split_beta)
  then obtain m2 fs2 where sv: "Save_all sys ?c rs ?m1 ?fs1 = Inr (m2, fs2)"
    "fs2 name = Some (concat (map (test_file.framed (sv_saveResourceIdStatus m)) rs))"
    using Save_all_one_file [of ?m1 name ?fs1 "[]" ?c rs sys] assms(3,4) bytes by auto
  let ?content = "concat (map (test_file.framed (sv_saveResourceIdStatus m)) rs)"
  let ?n1 = "n\<lparr>ld_stream := Some (TextIn_new ?content), ld_markEmmited := False, ld_byteCount := 0\<rparr>"
  have ld: "Load_ReopenFile (test_reader libs) sys fs2 n = Inr (True, ?n1)"
    using sv(2) assms(7,8,13-16) by (simp add: Load_ReopenFile_def test_reader_def Let_def)
  have "test_file.reads (test_reader libs) ?n1 ?content"
    using assms(9-12) by (simp add: test_file.reads_def test_reader_def text_holds_def TextIn_new_def ti_good_def)
  moreover have "list_all test_file.savable rs"
    using assms(17) by (simp add: list_all_iff test_file.savable_def TestResource_typeId_def)
  moreover have "test_file.types_ready (test_reader libs) rs s"
    using assms(17-20) by (simp add: test_file.types_ready_def test_reader_def list_all_iff)
  ultimately obtain rs' n2 s' where all: "Load_calls (test_reader libs) (Suc (length rs)) ?n1 s = Inr (map Some rs' @ [None], n2, s')"
    "list_all2 (test_file.comes_back (sv_saveResourceIdStatus m)) rs rs'"
    using test_file.Load_everything by blast
  have "map r_data rs' = map (\<lambda>r. map (\<lambda>c. if c = newline then CHR '' '' else c) (r_data r)) rs \<and>
    (if sv_saveResourceIdStatus m then map r_id rs' = map r_id rs \<and> map r_status rs' = map r_status rs else True)"
    using all(2) by (induction rule: list_all2_induct) (auto simp: test_file.comes_back_def blank_newlines_map split: if_splits)
  then show ?thesis using re sv(1) ld all(1) by blast
qed

lemma demo_registry:
  "\<exists>s. NameToId demo_load ''TestResource'' (ResourceRegistry_new [''t.la'']) = Inr (1, s) \<and> registry_reach demo_load s \<and>
    id2info s TestResource_typeId \<noteq> None"
proof -
  have "\<exists>s. NameToId demo_load ''TestResource'' (ResourceRegistry_new [''t.la'']) = Inr (1, s)"
    by (simp add: NameToId_def ResourceRegistry_new_def LoadResourceLibrary_def demo_load_def register_library_def NextResourceId_def Let_def)
  then obtain s where n: "NameToId demo_load ''TestResource'' (ResourceRegistry_new [''t.la'']) = Inr (1, s)" by blast
  have agree: "libs_agree demo_load" by (auto simp: libs_agree_def demo_load_def split: if_splits)
  show ?thesis using n registry_reach.registry_name [OF registry_reach.registry_new n]
    registry_operations_known(3) [OF registry_reach_known [OF registry_reach.registry_new agree] registry_reach_ok [OF registry_reach.registry_new agree] agree n]
    by (simp add: TestResource_typeId_def)
qed

theorem Save_Load_round_trip_witness:
  "\<exists>s m1 fs1 m2 fs2 n1 rs' n2 s'.
     Save_ReopenFile (demo_system (\<lambda>_. True)) (Save_new\<lparr>sv_filename := Some ''f'', sv_text := True\<rparr>) Map.empty = Inr (True, m1, fs1) \<and>
     Save_all (demo_system (\<lambda>_. True)) (test_codec (\<lambda>_. text_out)) [demo_test ''a'', demo_test ''b''] m1 fs1 = Inr (m2, fs2) \<and>
     Load_ReopenFile (test_reader demo_load) (demo_system (\<lambda>_. True)) fs2 (Load_new\<lparr>ld_filename := Some ''f'', ld_text := True\<rparr>) = Inr (True, n1) \<and>
     Load_calls (test_reader demo_load) 3 n1 s = Inr (map Some rs' @ [None], n2, s') \<and> map r_data rs' = [''a'', ''b'']"
proof -
  let ?m = "Save_new\<lparr>sv_filename := Some ''f'', sv_text := True\<rparr>" and ?n = "Load_new\<lparr>ld_filename := Some ''f'', ld_text := True\<rparr> :: text_in load_module"
  let ?rs = "[demo_test ''a'', demo_test ''b'']"
  obtain s where s: "registry_reach demo_load s" "id2info s TestResource_typeId \<noteq> None" using demo_registry by blast
  have agree: "libs_agree demo_load" by (auto simp: libs_agree_def demo_load_def split: if_splits)
  have rs: "list_all (\<lambda>r. r_type r = TestResource_typeId \<and> fits 32 (r_id r) \<and> fits 32 (r_status r) \<and> text_safe (blank_newlines (r_data r))) ?rs"
    by (simp add: demo_test_def Resource_new_def TestResource_typeId_def fits_def blank_newlines_map)
  have data: "map (\<lambda>r. map (\<lambda>c. if c = newline then CHR '' '' else c) (r_data r)) ?rs = [''a'', ''b'']"
    by (simp add: demo_test_def Resource_new_def newline_def)
  have "sv_filename ?m = Some ''f''" "sv_stream ?m = NoStream" "sv_maxItemsPerFile ?m \<le> 0" "sv_maxSizePerFile ?m \<le> 0" "sv_text ?m"
    "sv_saveResourceType ?m" "ld_filename ?n = Some ''f''" "ld_text ?n" "ld_resourceType ?n = 0" "ld_maxItems ?n = 0" "ld_skipItems ?n = 0"
    "ld_mark ?n < 0" "\<not> ld_locked ?n" "can_open (demo_system (\<lambda>_. True)) ''f''" "can_lock (demo_system (\<lambda>_. True)) ''f''"
    "can_stream (demo_system (\<lambda>_. True)) ''f''"
    by (simp_all add: Save_new_def Load_new_def demo_system_def)
  note trip = Save_Load_round_trip [OF this rs s(1) agree s(2), of Map.empty "\<lambda>_. text_out"]
  have three: "Suc (length ?rs) = 3" by simp
  from trip show ?thesis unfolding three data by (elim exE conjE) (intro exI conjI, assumption+)
qed

text \<open>
  A change of the file name at run time has no effect on what is read: the stream stays the one of the first file.
\<close>

lemma Load_SetFilename_keeps_stream:
  "Load_SetFilename rd sys fs name v m = Inr (m\<lparr>ld_filename := Some v\<rparr>)"
  by (simp add: Load_SetFilename_def Load_fd_def Let_def)

text \<open>\<^verbatim>\<open>skipItems\<close> is documented but not a property: naming it in a configuration makes the initialisation fail.\<close>

lemma Load_skipItems_refused:
  "Load_Init rd sys fs nameToId (Some ((''skipItems'', v) # ps)) m = Inr (False, m)"
  by (simp add: Load_Init_def Load_props_def update_conv')

end
