(* ===== verification/CallEngine.thy ===== *)
theory CallEngine
  imports Engine
begin

text \<open>
  Calls from a multi module into another processing engine (\<^verbatim>\<open>src/lib/processing_engine/CallProcessingEngine.cc\<close>,
  \<^verbatim>\<open>CallProcessingEngine.h\<close>).  The called engine is an argument: its three operations on a state of its own.  What the caller
  relies on is a locale, which the operations of \<^verbatim>\<open>ProcessingEngine\<close> interpret.
\<close>

section \<open>The called engine\<close>

text \<open>
  \<open>eng_submit\<close> is \<^verbatim>\<open>ProcessResource\<close>, \<open>eng_fetch\<close> and \<open>eng_fetch_ordered\<close> are \<^verbatim>\<open>GetProcessedResources\<close> (which removes what it found
  from the ids) and \<^verbatim>\<open>GetProcessedResourcesOrdered\<close> (which does not).  The flag says whether a deadline is given.
\<close>

record ('d, 'e) engine_ops =
  eng_submit :: "'d resource \<Rightarrow> bool \<Rightarrow> 'e \<Rightarrow> bool \<times> 'e"
  eng_fetch :: "int list \<Rightarrow> bool \<Rightarrow> 'e \<Rightarrow> int list \<times> 'd resource list \<times> 'e"
  eng_fetch_ordered :: "int list \<Rightarrow> bool \<Rightarrow> 'e \<Rightarrow> 'd resource list \<times> 'e"

section \<open>The caller\<close>

record 'd call_engine =
  ce_maxRequests :: int
  ce_tmpInputResource :: "'d resource option"
  ce_ordered :: bool
  ce_running :: int
  ce_runningSet :: "int list"
  ce_runningVector :: "int list"

definition CallProcessingEngine_new :: "int \<Rightarrow> bool \<Rightarrow> 'd call_engine" where
  "CallProcessingEngine_new maxRequests ordered =
     \<lparr>ce_maxRequests = maxRequests, ce_tmpInputResource = None, ce_ordered = ordered, ce_running = 0, ce_runningSet = [], ce_runningVector = []\<rparr>"

text \<open>The request of the stored resource; the stored resource is kept when the engine does not take it.\<close>

definition Call_submit ::
  "('d, 'e) engine_ops \<Rightarrow> bool \<Rightarrow> 'd resource \<Rightarrow> 'd call_engine \<Rightarrow> 'e \<Rightarrow> bool \<times> 'd call_engine \<times> 'e" where
  "Call_submit ops waits r st e =
     (case eng_submit ops r (waits \<and> ce_running st = 0) e of
        (True, e1) \<Rightarrow>
          let st1 = (if ce_ordered st then st\<lparr>ce_runningSet := List.insert (r_id r) (ce_runningSet st)\<rparr>
                     else st\<lparr>ce_runningVector := ce_runningVector st @ [r_id r]\<rparr>)
          in (True, st1\<lparr>ce_running := ce_running st + 1, ce_tmpInputResource := None\<rparr>, e1)
      | (False, e1) \<Rightarrow> (False, st\<lparr>ce_tmpInputResource := Some r\<rparr>, e1))"

text \<open>The loop over the input queue; without an output queue a resource that cannot be processed has nowhere to go.\<close>

fun Call_inputs ::
  "('d, 'e) engine_ops \<Rightarrow> ('d resource \<Rightarrow> 'd resource option) \<Rightarrow> bool \<Rightarrow> bool \<Rightarrow> 'd resource list \<Rightarrow> 'd resource list option \<Rightarrow> 'd call_engine \<Rightarrow> 'e
     \<Rightarrow> failure + bool \<times> 'd resource list \<times> 'd resource list option \<times> 'd call_engine \<times> 'e" where
  "Call_inputs ops prepare waits changed [] out st e = Inr (changed, [], out, st, e)"
| "Call_inputs ops prepare waits changed (src # inp) out st e =
     (if ce_running st < ce_maxRequests st then
        (case prepare src of
           Some r \<Rightarrow>
             (case Call_submit ops waits r st e of
                (True, st1, e1) \<Rightarrow> Call_inputs ops prepare waits True inp out st1 e1
              | (False, st1, e1) \<Rightarrow> Inr (changed, inp, out, st1, e1))
         | None \<Rightarrow>
             (case out of
                None \<Rightarrow> Inl NullDeref
              | Some q \<Rightarrow> Call_inputs ops prepare waits changed inp (Some (q @ [src])) (st\<lparr>ce_tmpInputResource := None\<rparr>) e))
      else Inr (changed, src # inp, out, st, e))"

definition Call_fetch :: "('d, 'e) engine_ops \<Rightarrow> bool \<Rightarrow> 'd call_engine \<Rightarrow> 'e \<Rightarrow> 'd resource list \<times> 'd call_engine \<times> 'e" where
  "Call_fetch ops waits st e =
     (if ce_ordered st then
        (case eng_fetch ops (ce_runningSet st) waits e of
           (rest, fins, e1) \<Rightarrow> (fins, st\<lparr>ce_runningSet := rest, ce_running := int (length rest)\<rparr>, e1))
      else
        (case eng_fetch_ordered ops (ce_runningVector st) waits e of
           (fins, e1) \<Rightarrow> (fins, st\<lparr>ce_running := int (length (ce_runningVector st))\<rparr>, e1)))"

definition ReadWrite ::
  "('d, 'e) engine_ops \<Rightarrow> ('d resource \<Rightarrow> 'd resource option) \<Rightarrow> ('d resource \<Rightarrow> 'd resource) \<Rightarrow> bool \<Rightarrow> 'd resource list \<Rightarrow> 'd resource list option
     \<Rightarrow> 'd call_engine \<Rightarrow> 'e \<Rightarrow> failure + bool \<times> 'd resource list \<times> 'd resource list option \<times> 'd call_engine \<times> 'e" where
  "ReadWrite ops prepare finish waits inp out st e =
     bind_result
       (case ce_tmpInputResource st of
          Some r \<Rightarrow>
            if ce_running st \<le> ce_maxRequests st then
              (case Call_submit ops waits r st e of
                 (True, st1, e1) \<Rightarrow> Call_inputs ops prepare waits True inp out st1 e1
               | (False, st1, e1) \<Rightarrow> Inr (False, inp, out, st1, e1))
            else Call_inputs ops prepare waits False inp out st e
        | None \<Rightarrow> Call_inputs ops prepare waits False inp out st e)
       (\<lambda>(changed, inp1, out1, st1, e1).
         if ce_running st1 = 0 then Inr (changed, inp1, out1, st1, e1)
         else case out1 of
           None \<Rightarrow> Inr (changed, inp1, None, st1, e1)
         | Some q \<Rightarrow>
             (case Call_fetch ops waits st1 e1 of
                (fins, st2, e2) \<Rightarrow> Inr (changed \<or> fins \<noteq> [], inp1, Some (q @ map finish fins), st2, e2)))"

text \<open>The loops that call \<open>ReadWrite\<close> without a deadline until nothing changes.\<close>

partial_function (option) Call_repeat ::
  "('d, 'e) engine_ops \<Rightarrow> ('d resource \<Rightarrow> 'd resource option) \<Rightarrow> ('d resource \<Rightarrow> 'd resource) \<Rightarrow> 'd resource list \<Rightarrow> 'd resource list
     \<Rightarrow> 'd call_engine \<Rightarrow> 'e \<Rightarrow> (failure + 'd resource list \<times> 'd resource list \<times> 'd call_engine \<times> 'e) option" where
  "Call_repeat ops prepare finish inp out st e =
     (case ReadWrite ops prepare finish False inp (Some out) st e of
        Inl x \<Rightarrow> Some (Inl x)
      | Inr (changed, inp1, out1, st1, e1) \<Rightarrow>
          if changed then Call_repeat ops prepare finish inp1 (the out1) st1 e1
          else Some (Inr (inp1, the out1, st1, e1)))"

definition Call_expects :: "'d call_engine \<Rightarrow> int" where
  "Call_expects st = ce_maxRequests st - ce_running st - of_bool (ce_tmpInputResource st \<noteq> None)"

text \<open>\<^verbatim>\<open>Process\<close>: the number of running requests, the queues and the number of resources expected.\<close>

definition Call_Process ::
  "('d, 'e) engine_ops \<Rightarrow> ('d resource \<Rightarrow> 'd resource option) \<Rightarrow> ('d resource \<Rightarrow> 'd resource) \<Rightarrow> bool \<Rightarrow> 'd resource list \<Rightarrow> 'd resource list
     \<Rightarrow> 'd call_engine \<Rightarrow> 'e \<Rightarrow> (failure + int \<times> int \<times> 'd resource list \<times> 'd resource list \<times> 'd call_engine \<times> 'e) option" where
  "Call_Process ops prepare finish has_output inp out st e =
     (if \<not> has_output then Some (Inl AssertFailed)
      else case Call_repeat ops prepare finish inp out st e of
        None \<Rightarrow> None
      | Some (Inl x) \<Rightarrow> Some (Inl x)
      | Some (Inr (inp1, out1, st1, e1)) \<Rightarrow>
          if ce_running st1 = 0 then
            Some (Inr (0, ce_maxRequests st1 - of_bool (ce_tmpInputResource st1 \<noteq> None), inp1, out1, st1, e1))
          else
            (case ReadWrite ops prepare finish True inp1 (Some out1) st1 e1 of
               Inl x \<Rightarrow> Some (Inl x)
             | Inr (_, inp2, out2, st2, e2) \<Rightarrow>
                 (case Call_repeat ops prepare finish inp2 (the out2) st2 e2 of
                    None \<Rightarrow> None
                  | Some (Inl x) \<Rightarrow> Some (Inl x)
                  | Some (Inr (inp3, out3, st3, e3)) \<Rightarrow>
                      Some (Inr (ce_running st3, Call_expects st3, inp3, out3, st3, e3)))))"

definition Call_Pass ::
  "('d, 'e) engine_ops \<Rightarrow> ('d resource \<Rightarrow> 'd resource option) \<Rightarrow> ('d resource \<Rightarrow> 'd resource) \<Rightarrow> bool \<Rightarrow> 'd resource list
     \<Rightarrow> 'd call_engine \<Rightarrow> 'e \<Rightarrow> failure + 'd resource list \<times> 'd call_engine \<times> 'e" where
  "Call_Pass ops prepare finish has_output inp st e =
     (if has_output then Inl AssertFailed
      else bind_result (ReadWrite ops prepare finish True inp None st e) (\<lambda>(_, inp1, _, st1, e1). Inr (inp1, st1, e1)))"

section \<open>What the caller relies on\<close>

text \<open>The engine returns what was asked for: what it delivers and what is left are the requested ids.\<close>

locale result_source =
  fixes fetch :: "int list \<Rightarrow> bool \<Rightarrow> 'e \<Rightarrow> int list \<times> 'd resource list \<times> 'e"
    and submit :: "'d resource \<Rightarrow> bool \<Rightarrow> 'e \<Rightarrow> bool \<times> 'e"
    and healthy :: "'e \<Rightarrow> bool"
  assumes submitted: "healthy e \<Longrightarrow> submit r waits e = (taken, e') \<Longrightarrow> healthy e'"
    and fetched: "healthy e \<Longrightarrow> fetch ids waits e = (rest, fins, e') \<Longrightarrow>
      mset (map r_id fins) + mset rest = mset ids \<and> healthy e'"
begin

lemma fetched_length: "healthy e \<Longrightarrow> fetch ids waits e = (rest, fins, e') \<Longrightarrow> length ids = length fins + length rest"
  using fetched [of e ids waits rest fins e'] by (metis length_map size_mset size_union)

lemma fetched_distinct: "healthy e \<Longrightarrow> fetch ids waits e = (rest, fins, e') \<Longrightarrow> distinct ids \<Longrightarrow> distinct rest \<and> set rest \<subseteq> set ids"
proof -
  assume "healthy e" "fetch ids waits e = (rest, fins, e')" "distinct ids"
  then have m: "mset (map r_id fins @ rest) = mset ids" using fetched by simp
  then show ?thesis using mset_eq_imp_distinct_iff [OF m] mset_eq_setD [OF m] \<open>distinct ids\<close> by auto
qed

end

text \<open>
  The invariant of a caller that uses \<open>eng_fetch\<close>.  The ids of the stored resource and of the resources still to be
  submitted are new; the registry numbers resources that way.
\<close>

definition call_ok :: "('d resource \<Rightarrow> 'd resource option) \<Rightarrow> 'd resource list \<Rightarrow> 'd call_engine \<Rightarrow> bool" where
  "call_ok prepare inp st \<longleftrightarrow>
     ce_ordered st \<and> ce_running st = int (length (ce_runningSet st)) \<and> ce_running st \<le> ce_maxRequests st \<and>
     (ce_tmpInputResource st \<noteq> None \<longrightarrow> ce_running st < ce_maxRequests st) \<and>
     distinct (ce_runningSet st @ (case ce_tmpInputResource st of None \<Rightarrow> [] | Some r \<Rightarrow> [r_id r]) @ map r_id (List.map_filter prepare inp))"

text \<open>How many resources the caller has in all its places, and what bounds the number of changes.\<close>

definition call_total :: "'d resource list \<Rightarrow> 'd resource list \<Rightarrow> 'd call_engine \<Rightarrow> int" where
  "call_total inp out st = int (length inp) + int (length out) + ce_running st + of_bool (ce_tmpInputResource st \<noteq> None)"

definition call_work :: "'d resource list \<Rightarrow> 'd call_engine \<Rightarrow> int" where
  "call_work inp st = 3 * int (length inp) + 2 * of_bool (ce_tmpInputResource st \<noteq> None) + ce_running st"

lemma call_work_nonneg: "call_ok prepare inp st \<Longrightarrow> 0 \<le> call_work inp st"
  by (simp add: call_ok_def call_work_def)

lemma map_filter_Cons: "List.map_filter f (x # xs) = (case f x of None \<Rightarrow> List.map_filter f xs | Some y \<Rightarrow> y # List.map_filter f xs)"
  by (simp add: List.map_filter_simps split: option.splits)

lemma Call_submit_tmp:
  assumes "call_ok prepare inp st" "ce_tmpInputResource st = Some r" "Call_submit ops waits r st e = (taken, st', e')"
  shows "call_ok prepare inp st' \<and> call_total inp out st' = call_total inp out st \<and>
    (if taken then ce_tmpInputResource st' = None \<and> call_work inp st' < call_work inp st else st' = st)"
proof -
  obtain b e1 where b: "eng_submit ops r (waits \<and> ce_running st = 0) e = (b, e1)" by fastforce
  have new: "r_id r \<notin> set (ce_runningSet st)" using assms(1,2) by (auto simp: call_ok_def)
  have same: "st\<lparr>ce_tmpInputResource := Some r\<rparr> = st" using assms(2) by (cases st) simp
  define ids where "ids = map r_id (List.map_filter prepare inp)"
  show ?thesis
    using assms b new same
    by (cases b) (auto simp: Call_submit_def Let_def call_ok_def call_total_def call_work_def simp flip: ids_def)
qed

lemma Call_submit_new:
  assumes "call_ok prepare (src # inp) st" "ce_tmpInputResource st = None" "prepare src = Some r" "ce_running st < ce_maxRequests st"
    and "Call_submit ops waits r st e = (taken, st', e')"
  shows "call_ok prepare inp st' \<and> call_total inp out st' = call_total (src # inp) out st \<and> call_work inp st' < call_work (src # inp) st \<and>
    (taken \<longrightarrow> ce_tmpInputResource st' = None)"
proof -
  obtain b e1 where b: "eng_submit ops r (waits \<and> ce_running st = 0) e = (b, e1)" by fastforce
  define ids where "ids = map r_id (List.map_filter prepare inp)"
  have "map r_id (List.map_filter prepare (src # inp)) = r_id r # ids" using assms(3) by (simp add: map_filter_Cons ids_def)
  then show ?thesis
    using assms b
    by (cases b) (auto simp: Call_submit_def Let_def call_ok_def call_total_def call_work_def simp flip: ids_def)
qed

locale calls = result_source fetch submit healthy
  for fetch :: "int list \<Rightarrow> bool \<Rightarrow> 'e \<Rightarrow> int list \<times> 'd resource list \<times> 'e"
    and submit :: "'d resource \<Rightarrow> bool \<Rightarrow> 'e \<Rightarrow> bool \<times> 'e" and healthy :: "'e \<Rightarrow> bool" +
  fixes ops :: "('d, 'e) engine_ops"
  assumes fetch_op: "eng_fetch ops = fetch" and submit_op: "eng_submit ops = submit"
begin

lemma Call_submit_healthy: "healthy e \<Longrightarrow> Call_submit ops waits r st e = (taken, st', e') \<Longrightarrow> healthy e'"
  using submitted [of e r "waits \<and> ce_running st = 0"] submit_op
  by (auto simp: Call_submit_def Let_def split: prod.splits bool.splits)

lemma Call_inputs_account:
  assumes "call_ok prepare inp st" "ce_tmpInputResource st = None" "healthy e"
  shows "\<exists>changed' inp' out' st' e'. Call_inputs ops prepare waits changed inp (Some out) st e = Inr (changed', inp', Some out', st', e') \<and>
    call_ok prepare inp' st' \<and> healthy e' \<and> call_total inp' out' st' = call_total inp out st \<and>
    call_work inp' st' \<le> call_work inp st \<and> (changed' \<noteq> changed \<longrightarrow> call_work inp' st' < call_work inp st)"
  using assms
proof (induction inp arbitrary: changed out st e)
  case (Cons src inp)
  show ?case
  proof (cases "ce_running st < ce_maxRequests st")
    case False
    then show ?thesis using Cons.prems by auto
  next
    case go: True
    show ?thesis
    proof (cases "prepare src")
      case None
      let ?st = "st\<lparr>ce_tmpInputResource := None\<rparr>"
      have "call_ok prepare inp ?st" using Cons.prems(1,2) None by (simp add: call_ok_def map_filter_Cons)
      from Cons.IH [OF this _ Cons.prems(3), of changed "out @ [src]"] show ?thesis using None go Cons.prems(2)
        by (force simp: call_total_def call_work_def)
    next
      case (Some r)
      obtain taken st1 e1 where s: "Call_submit ops waits r st e = (taken, st1, e1)" by (metis prod_cases3)
      note new = Call_submit_new [OF Cons.prems(1,2) Some go s, of out]
      have h: "healthy e1" using Call_submit_healthy [OF Cons.prems(3) s] .
      show ?thesis
      proof (cases taken)
        case False
        then show ?thesis using Some go s new h by auto
      next
        case True
        have "ce_tmpInputResource st1 = None" using new True by blast
        from Cons.IH [OF _ this h, of True out] new show ?thesis using Some go s True by fastforce
      qed
    qed
  qed
qed auto

end

context calls
begin

lemma Call_fetch_account:
  assumes "call_ok prepare inp st" "healthy e" "Call_fetch ops waits st e = (fins, st', e')"
  shows "call_ok prepare inp st' \<and> healthy e' \<and> call_total inp (out @ map finish fins) st' = call_total inp out st \<and>
    call_work inp st' = call_work inp st - int (length fins)"
proof -
  obtain rest e1 where f: "fetch (ce_runningSet st) waits e = (rest, fins, e1)"
    and st': "st' = st\<lparr>ce_runningSet := rest, ce_running := int (length rest)\<rparr>" "e' = e1"
    using assms(1,3) by (auto simp: Call_fetch_def call_ok_def fetch_op split: prod.splits)
  have len: "length (ce_runningSet st) = length fins + length rest" using fetched_length [OF assms(2) f] .
  define ids where "ids = (case ce_tmpInputResource st of None \<Rightarrow> [] | Some r \<Rightarrow> [r_id r]) @ map r_id (List.map_filter prepare inp)"
  have "distinct (ce_runningSet st)" using assms(1) by (simp add: call_ok_def)
  then have "distinct rest" "set rest \<subseteq> set (ce_runningSet st)" using fetched_distinct [OF assms(2) f] by blast+
  then have d: "distinct (rest @ ids)" using assms(1) by (auto simp: call_ok_def simp flip: ids_def)
  show ?thesis using assms(1) d len fetched [OF assms(2) f] unfolding call_ok_def st'
    by (auto simp: call_total_def call_work_def ids_def)
qed

text \<open>One round: nothing is lost, and every change uses up work.\<close>

lemma ReadWrite_account:
  assumes "call_ok prepare inp st" "healthy e"
  shows "\<exists>changed inp' out' st' e'. ReadWrite ops prepare finish waits inp (Some out) st e = Inr (changed, inp', Some out', st', e') \<and>
    call_ok prepare inp' st' \<and> healthy e' \<and> call_total inp' out' st' = call_total inp out st \<and>
    call_work inp' st' \<le> call_work inp st \<and> (changed \<longrightarrow> call_work inp' st' < call_work inp st)"
proof -
  define first where "first = (case ce_tmpInputResource st of
      Some r \<Rightarrow>
        if ce_running st \<le> ce_maxRequests st then
          (case Call_submit ops waits r st e of
             (True, st1, e1) \<Rightarrow> Call_inputs ops prepare waits True inp (Some out) st1 e1
           | (False, st1, e1) \<Rightarrow> Inr (False, inp, Some out, st1, e1))
        else Call_inputs ops prepare waits False inp (Some out) st e
    | None \<Rightarrow> Call_inputs ops prepare waits False inp (Some out) st e)"
  have "\<exists>changed inp1 out1 st1 e1. first = Inr (changed, inp1, Some out1, st1, e1) \<and> call_ok prepare inp1 st1 \<and> healthy e1 \<and>
      call_total inp1 out1 st1 = call_total inp out st \<and> call_work inp1 st1 \<le> call_work inp st \<and>
      (changed \<longrightarrow> call_work inp1 st1 < call_work inp st)"
  proof (cases "ce_tmpInputResource st")
    case None
    then show ?thesis using Call_inputs_account [OF assms(1) None assms(2), of waits False out] by (auto simp: first_def)
  next
    case (Some r)
    obtain taken st1 e1 where s: "Call_submit ops waits r st e = (taken, st1, e1)" by (metis prod_cases3)
    note tmp = Call_submit_tmp [OF assms(1) Some s, of out]
    have le: "ce_running st \<le> ce_maxRequests st" and h: "healthy e1"
      using assms(1) Call_submit_healthy [OF assms(2) s] by (auto simp: call_ok_def)
    show ?thesis
    proof (cases taken)
      case False
      then show ?thesis using Some s tmp le h assms(1) by (auto simp: first_def)
    next
      case True
      then have n: "ce_tmpInputResource st1 = None" "call_work inp st1 < call_work inp st" "call_ok prepare inp st1" using tmp by auto
      from Call_inputs_account [OF n(3,1) h, of waits True out] show ?thesis using Some s True le n tmp
        by (fastforce simp: first_def)
    qed
  qed
  then obtain changed inp1 out1 st1 e1 where f: "first = Inr (changed, inp1, Some out1, st1, e1)" "call_ok prepare inp1 st1" "healthy e1"
    "call_total inp1 out1 st1 = call_total inp out st" "call_work inp1 st1 \<le> call_work inp st"
    "changed \<longrightarrow> call_work inp1 st1 < call_work inp st" by blast
  obtain fins st2 e2 where c: "Call_fetch ops waits st1 e1 = (fins, st2, e2)" by (metis prod_cases3)
  note acc = Call_fetch_account [OF f(2,3) c, of out1 finish]
  show ?thesis
  proof (cases "ce_running st1 = 0")
    case True
    then have "ReadWrite ops prepare finish waits inp (Some out) st e = Inr (changed, inp1, Some out1, st1, e1)"
      using f(1) by (simp add: ReadWrite_def first_def)
    then show ?thesis using f by blast
  next
    case False
    then have "ReadWrite ops prepare finish waits inp (Some out) st e =
        Inr (changed \<or> fins \<noteq> [], inp1, Some (out1 @ map finish fins), st2, e2)"
      using f(1) c by (simp add: ReadWrite_def first_def)
    moreover have "changed \<or> fins \<noteq> [] \<longrightarrow> call_work inp1 st2 < call_work inp st" "call_work inp1 st2 \<le> call_work inp st"
      using acc f(5,6) by (cases fins; auto)+
    ultimately show ?thesis using acc f(4) by auto
  qed
qed

lemma Call_repeat_returns:
  assumes "call_ok prepare inp st" "healthy e"
  shows "\<exists>inp' out' st' e'. Call_repeat ops prepare finish inp out st e = Some (Inr (inp', out', st', e')) \<and>
    call_ok prepare inp' st' \<and> healthy e' \<and> call_total inp' out' st' = call_total inp out st"
  using assms
proof (induction "nat (call_work inp st)" arbitrary: inp out st e rule: less_induct)
  case less
  obtain changed inp1 out1 st1 e1 where r: "ReadWrite ops prepare finish False inp (Some out) st e = Inr (changed, inp1, Some out1, st1, e1)"
    "call_ok prepare inp1 st1" "healthy e1" "call_total inp1 out1 st1 = call_total inp out st"
    "changed \<longrightarrow> call_work inp1 st1 < call_work inp st"
    using ReadWrite_account [OF less.prems, of finish False out] by blast
  show ?case
  proof (cases changed)
    case False
    then show ?thesis using r by (subst Call_repeat.simps) auto
  next
    case True
    then have "nat (call_work inp1 st1) < nat (call_work inp st)" using r(5) call_work_nonneg [OF r(2)] by linarith
    from less.hyps [OF this r(2,3), of out1] show ?thesis using r True by (subst Call_repeat.simps) auto
  qed
qed

lemma Call_Process_returns:
  assumes "call_ok prepare inp st" "healthy e"
  shows "\<exists>n expects inp' out' st' e'. Call_Process ops prepare finish True inp out st e = Some (Inr (n, expects, inp', out', st', e')) \<and>
    n = ce_running st' \<and> call_ok prepare inp' st' \<and> healthy e' \<and> 0 \<le> expects \<and>
    int (length inp') + int (length out') + n + of_bool (ce_tmpInputResource st' \<noteq> None) = call_total inp out st"
proof -
  obtain inp1 out1 st1 e1 where a: "Call_repeat ops prepare finish inp out st e = Some (Inr (inp1, out1, st1, e1))"
    "call_ok prepare inp1 st1" "healthy e1" "call_total inp1 out1 st1 = call_total inp out st"
    using Call_repeat_returns [OF assms, of finish out] by blast
  show ?thesis
  proof (cases "ce_running st1 = 0")
    case True
    then show ?thesis using a by (auto simp: Call_Process_def call_total_def call_ok_def)
  next
    case False
    obtain changed inp2 out2 st2 e2 where b: "ReadWrite ops prepare finish True inp1 (Some out1) st1 e1 = Inr (changed, inp2, Some out2, st2, e2)"
      "call_ok prepare inp2 st2" "healthy e2" "call_total inp2 out2 st2 = call_total inp1 out1 st1"
      using ReadWrite_account [OF a(2,3), of finish True out1] by blast
    obtain inp3 out3 st3 e3 where c: "Call_repeat ops prepare finish inp2 out2 st2 e2 = Some (Inr (inp3, out3, st3, e3))"
      "call_ok prepare inp3 st3" "healthy e3" "call_total inp3 out3 st3 = call_total inp2 out2 st2"
      using Call_repeat_returns [OF b(2,3), of finish out2] by blast
    show ?thesis using a b c False by (auto simp: Call_Process_def call_total_def Call_expects_def call_ok_def)
  qed
qed

end

section \<open>The processing engine as the called engine\<close>

text \<open>
  The state: the finished resources, what happens during each of the next calls that wait (before the deadline passes) with
  the finished resources found at the deadline, and whether the input queue takes the next resources.
\<close>

type_synonym 'd engine_run = "'d finished \<times> ('d answer list \<times> 'd finished) list \<times> bool list"

definition engine_fetch :: "int list \<Rightarrow> bool \<Rightarrow> 'd engine_run \<Rightarrow> int list \<times> 'd resource list \<times> 'd engine_run" where
  "engine_fetch ids waits e =
     (case e of (fin, runs, oks) \<Rightarrow>
        let (answers, fin1) = (case runs of [] \<Rightarrow> ([], fin) | x # _ \<Rightarrow> x)
        in (case GetProcessedResources True ids fin waits (answers @ [WaitEnded fin1]) of
              Some (_, rest, out, fin2) \<Rightarrow> (rest, out, (fin2, tl runs, oks))
            | None \<Rightarrow> (ids, [], e)))"

definition engine_submit :: "'d resource \<Rightarrow> bool \<Rightarrow> 'd engine_run \<Rightarrow> bool \<times> 'd engine_run" where
  "engine_submit r waits e =
     (case e of (fin, runs, oks) \<Rightarrow> (case oks of [] \<Rightarrow> (False, e) | b # bs \<Rightarrow> (b, (fin, runs, bs))))"

definition engine_healthy :: "'d engine_run \<Rightarrow> bool" where
  "engine_healthy e \<longleftrightarrow> (case e of (fin, runs, oks) \<Rightarrow> fin_ok fin \<and> list_all (\<lambda>(as, f). list_all answer_ok as \<and> fin_ok f) runs)"

text \<open>A call with a deadline returns.\<close>

lemma deadline_returns:
  "(waits \<longrightarrow> (\<exists>as f. answers = as @ [WaitEnded f])) \<Longrightarrow> GetProcessedResources_loop ids pos fin out waits result answers \<noteq> None"
proof (induction ids pos fin out waits result answers rule: GetProcessedResources_loop.induct)
  case (1 ids pos fin out waits result answers)
  show ?case
  proof (cases "pos < length ids")
    case False
    then show ?thesis by (simp add: loop_branches)
  next
    case inside: True
    show ?thesis
    proof (cases "fin (ids ! pos)")
      case (Some r)
      then show ?thesis using 1 inside by (simp add: loop_branches fun_upd_def)
    next
      case None
      show ?thesis
      proof (cases waits)
        case False
        then show ?thesis using 1 inside None by (simp add: loop_branches)
      next
        case w: True
        then obtain as f where as: "answers = as @ [WaitEnded f]" using "1.prems" by blast
        show ?thesis
        proof (cases as)
          case Nil
          then show ?thesis using 1 inside None w as by (simp add: loop_branches)
        next
          case (Cons a as')
          then have ans: "answers = a # (as' @ [WaitEnded f])" using as by simp
          show ?thesis
          proof (cases a)
            case (QueueItems fin1 q qs)
            obtain ids1 out1 fin2 found where "absorb (q # qs) ids out fin1 False = (ids1, out1, fin2, found)" by (metis prod_cases4)
            then show ?thesis using 1 inside None w ans QueueItems by (simp add: loop_branches del: absorb.simps)
          qed (use 1 inside None w ans in \<open>simp_all add: loop_branches\<close>)
        qed
      qed
    qed
  qed
qed

interpretation engine_source: result_source engine_fetch engine_submit engine_healthy
proof
  fix e e' :: "'d engine_run" and r waits taken
  assume "engine_healthy e" "engine_submit r waits e = (taken, e')"
  then show "engine_healthy e'" by (auto simp: engine_submit_def engine_healthy_def split: prod.splits list.splits)
next
  fix e e' :: "'d engine_run" and ids waits rest fins
  assume h: "engine_healthy e" and f: "engine_fetch ids waits e = (rest, fins, e')"
  obtain fin runs oks where e: "e = (fin, runs, oks)" by (metis prod_cases3)
  obtain answers fin1 where a: "(case runs of [] \<Rightarrow> ([], fin) | x # _ \<Rightarrow> x) = (answers, fin1)" by fastforce
  have ok: "fin_ok fin" "list_all answer_ok (answers @ [WaitEnded fin1])"
    using h a by (auto simp: engine_healthy_def e split: list.splits)
  obtain res rest' out fin2 where g: "GetProcessedResources_loop ids 0 fin [] waits True (answers @ [WaitEnded fin1]) = Some (res, rest', out, fin2)"
    using deadline_returns [of waits "answers @ [WaitEnded fin1]" ids 0 fin "[]" True] by fastforce
  have "rest = rest'" "fins = out" "e' = (fin2, tl runs, oks)" using f g a by (auto simp: engine_fetch_def e GetProcessedResources_def)
  then show "mset (map r_id fins) + mset rest = mset ids \<and> engine_healthy e'"
    using loop_accounts [OF g ok(1,2)] h by (cases runs) (auto simp: engine_healthy_def e)
qed

definition engine_as_ops :: "(int list \<Rightarrow> bool \<Rightarrow> 'd engine_run \<Rightarrow> 'd resource list \<times> 'd engine_run) \<Rightarrow> ('d, 'd engine_run) engine_ops" where
  "engine_as_ops ordered = \<lparr>eng_submit = engine_submit, eng_fetch = engine_fetch, eng_fetch_ordered = ordered\<rparr>"

interpretation engine_calls: calls engine_fetch engine_submit engine_healthy "engine_as_ops ordered"
  by unfold_locales (simp_all add: engine_as_ops_def)

section \<open>Properties\<close>



text \<open>
  A caller built not to keep the order never gets below the number of requests it has made: the ids of finished
  resources stay in its vector, so that after \<open>maxRequests\<close> requests it takes no input any more, however many results
  were delivered.
\<close>

theorem unordered_caller_stalls:
  assumes "\<not> ce_ordered st" and "ce_running st = int (length (ce_runningVector st))" and "ce_running st = ce_maxRequests st"
    and "ce_tmpInputResource st = None" and "0 < ce_maxRequests st"
  shows "\<exists>changed out' st' e'. ReadWrite ops prepare finish waits inp (Some out) st e = Inr (changed, inp, Some out', st', e') \<and>
    \<not> ce_ordered st' \<and> ce_running st' = int (length (ce_runningVector st')) \<and> ce_running st' = ce_maxRequests st' \<and>
    ce_tmpInputResource st' = None \<and> ce_maxRequests st' = ce_maxRequests st"
proof -
  obtain fins e1 where f: "eng_fetch_ordered ops (ce_runningVector st) waits e = (fins, e1)" by fastforce
  have "Call_inputs ops prepare waits False inp (Some out) st e = Inr (False, inp, Some out, st, e)"
    using assms(3) by (cases inp) simp_all
  then show ?thesis using assms f by (simp add: ReadWrite_def Call_fetch_def)
qed

theorem unordered_caller_stalls_witness:
  "\<exists>changed out' st' e'. ReadWrite (engine_as_ops (\<lambda>_ _ e. ([sample_resource 1], e))) Some (\<lambda>r. r) True [sample_resource 2] (Some [])
     ((CallProcessingEngine_new 1 False)\<lparr>ce_running := 1, ce_runningVector := [1]\<rparr>) (Map.empty, [], []) =
       Inr (changed, [sample_resource 2], Some out', st', e') \<and> ce_running st' = 1"
proof -
  let ?st = "(CallProcessingEngine_new 1 False)\<lparr>ce_running := 1, ce_runningVector := [1]\<rparr> :: unit call_engine"
  have "\<not> ce_ordered ?st" "ce_running ?st = int (length (ce_runningVector ?st))" "ce_running ?st = ce_maxRequests ?st"
    "ce_tmpInputResource ?st = None" "0 < ce_maxRequests ?st" and m: "ce_maxRequests ?st = 1" by (simp_all add: CallProcessingEngine_new_def)
  from unordered_caller_stalls [OF this(1-5), of "engine_as_ops (\<lambda>_ _ e. ([sample_resource 1], e))" Some "\<lambda>r. r" True "[sample_resource 2]" "[]" "(Map.empty, [], [])"]
  show ?thesis unfolding m by (elim exE conjE) (intro exI conjI, assumption, simp)
qed

text \<open>Without an output queue a resource that cannot be prepared is pushed through a null pointer.\<close>

lemma Call_Pass_null:
  assumes "prepare src = None" "ce_tmpInputResource st = None" "ce_running st < ce_maxRequests st"
  shows "Call_Pass ops prepare finish False (src # inp) st e = Inl NullDeref"
  using assms by (simp add: Call_Pass_def ReadWrite_def)

end
