(* ===== verification/Config.thy ===== *)
theory Config
  imports Common
begin

text \<open>
  The configuration (\<^verbatim>\<open>src/lib/Config.h\<close>, \<^verbatim>\<open>Config.cc\<close>): values looked up by XPath, with \<^verbatim>\<open>$1\<close>, \<^verbatim>\<open>$2\<close>, ... replaced by the arguments
  of the command line.  Parsing and XPath are \<^verbatim>\<open>libxml2\<close>; the nodes an expression selects are an argument.
\<close>

section \<open>Arguments in values\<close>

definition bslash :: char where
  "bslash = CHR 0x5C"

definition dollar :: char where
  "dollar = CHR 0x24"

text \<open>
  The loop of \<^verbatim>\<open>SubstituteArgs\<close> on what is left of the value.  \<open>None\<close> is the result false (an invalid or missing argument);
  a number beyond \<^verbatim>\<open>int\<close> is undefined.
\<close>

function SubstituteArgs_loop :: "string list \<Rightarrow> string \<Rightarrow> bool \<Rightarrow> string \<Rightarrow> failure + string option" where
  "SubstituteArgs_loop args s escape tmp =
     (case s of
        [] \<Rightarrow> Inr (Some tmp)
      | c # cs \<Rightarrow>
          if c = bslash then
            (if \<not> escape then SubstituteArgs_loop args cs True tmp
             else SubstituteArgs_loop args cs False (tmp @ [bslash]))
          else if c = dollar then
            (if \<not> escape then
               let ds = takeWhile is_digit cs; n = digits_value 0 ds in
               if int n \<ge> 2 ^ 31 then Inl Overflow
               else if n = 0 \<or> ds = [] then Inr None
               else if n > length args then Inr None
               else SubstituteArgs_loop args (drop (length ds) cs) False (tmp @ args ! (n - 1))
             else SubstituteArgs_loop args cs False (tmp @ [dollar]))
          else SubstituteArgs_loop args cs False (tmp @ [c]))"
  by pat_completeness auto
termination by (relation "measure (\<lambda>(args, s, escape, tmp). length s)") auto

declare SubstituteArgs_loop.simps [simp del]

definition SubstituteArgs :: "string list \<Rightarrow> string \<Rightarrow> failure + string option" where
  "SubstituteArgs args s = SubstituteArgs_loop args s False []"

section \<open>Values\<close>

text \<open>
  A selected node: a text or CDATA node with itself and its following siblings (whether each is a text and its content), or
  another node with the string of its children, which may be missing.
\<close>

datatype xml_node = Text_node "(bool \<times> string option) list" | Other_node "string option"

definition text_value :: "(bool \<times> string option) list \<Rightarrow> string" where
  "text_value sibs = concat (map (\<lambda>(is_text, content). if is_text then (case content of None \<Rightarrow> [] | Some t \<Rightarrow> t) else []) sibs)"

fun Config_GetValues_loop :: "string list \<Rightarrow> xml_node list \<Rightarrow> string list \<Rightarrow> failure + string list option" where
  "Config_GetValues_loop args [] result = Inr (Some result)"
| "Config_GetValues_loop args (nd # nodes) result =
     bind_result (SubstituteArgs args (case nd of Text_node sibs \<Rightarrow> text_value sibs | Other_node item \<Rightarrow> (case item of None \<Rightarrow> [] | Some t \<Rightarrow> t)))
       (\<lambda>ov. case ov of None \<Rightarrow> Inr None | Some v \<Rightarrow> Config_GetValues_loop args nodes (result @ [v]))"

text \<open>The nodes are missing when the expression is wrong.\<close>

definition Config_GetValues :: "string list \<Rightarrow> xml_node list option \<Rightarrow> failure + string list option" where
  "Config_GetValues args onodes =
     (case onodes of None \<Rightarrow> Inr None | Some [] \<Rightarrow> Inr None | Some nodes \<Rightarrow> Config_GetValues_loop args nodes [])"

definition GetFirstValue :: "string list \<Rightarrow> xml_node list option \<Rightarrow> failure + string option" where
  "GetFirstValue args onodes =
     (case onodes of
        None \<Rightarrow> Inr None
      | Some [] \<Rightarrow> Inr None
      | Some (Text_node sibs # _) \<Rightarrow> SubstituteArgs args (text_value sibs)
      | Some (Other_node None # _) \<Rightarrow> Inr None
      | Some (Other_node (Some t) # _) \<Rightarrow> SubstituteArgs args t)"

text \<open>\<^verbatim>\<open>sscanf(s, " %d")\<close>: without a digit after the space and the sign the result is \<^verbatim>\<open>INT_MAX\<close>.\<close>

definition Config_GetInt :: "string option \<Rightarrow> failure + int" where
  "Config_GetInt os =
     (case os of
        None \<Rightarrow> Inr (2 ^ 31 - 1)
      | Some s \<Rightarrow>
          let t = dropWhile isspace s;
              u = (if t \<noteq> [] \<and> (hd t = CHR ''-'' \<or> hd t = CHR ''+'') then tl t else t)
          in if takeWhile is_digit u = [] then Inr (2 ^ 31 - 1)
             else if fits 32 (read_int s) then Inr (read_int s) else Inl Overflow)"

section \<open>What a value means\<close>

text \<open>A value as a sequence of literal texts and arguments, how it is written and what it stands for.\<close>

datatype piece = Literal string | Argument nat

definition quote_char :: "char \<Rightarrow> string" where
  "quote_char c = (if c = bslash \<or> c = dollar then [bslash, c] else [c])"

fun render :: "piece list \<Rightarrow> string" where
  "render [] = []"
| "render (Literal t # ps) = concat (map quote_char t) @ render ps"
| "render (Argument n # ps) = dollar # show_nat n @ render ps"

fun meaning :: "string list \<Rightarrow> piece list \<Rightarrow> string" where
  "meaning args [] = []"
| "meaning args (Literal t # ps) = t @ meaning args ps"
| "meaning args (Argument n # ps) = args ! (n - 1) @ meaning args ps"

text \<open>Arguments exist, and no digit follows directly.\<close>

fun well_written :: "string list \<Rightarrow> piece list \<Rightarrow> bool" where
  "well_written args [] = True"
| "well_written args (Literal t # ps) = well_written args ps"
| "well_written args (Argument n # ps) =
     (0 < n \<and> n \<le> length args \<and> int n < 2 ^ 31 \<and> (case render ps of [] \<Rightarrow> True | c # _ \<Rightarrow> \<not> is_digit c) \<and> well_written args ps)"

lemma special [simp]: "bslash \<noteq> dollar" "dollar \<noteq> bslash" "\<not> is_digit bslash" "\<not> is_digit dollar"
  by (simp_all add: bslash_def dollar_def is_digit_def)

lemma loop_literal:
  "SubstituteArgs_loop args (concat (map quote_char t) @ rest) False tmp = SubstituteArgs_loop args rest False (tmp @ t)"
proof (induction t arbitrary: tmp)
  case (Cons c t)
  have "SubstituteArgs_loop args (quote_char c @ us) False tmp = SubstituteArgs_loop args us False (tmp @ [c])" for us
    by (cases "c = bslash \<or> c = dollar")
      (auto simp: quote_char_def SubstituteArgs_loop.simps [of args "bslash # _"] SubstituteArgs_loop.simps [of args "_ # _" True]
        SubstituteArgs_loop.simps [of args "c # _"])
  then show ?case using Cons by simp
qed simp

lemma loop_argument:
  assumes "0 < n" "n \<le> length args" "int n < 2 ^ 31" "case rest of [] \<Rightarrow> True | c # _ \<Rightarrow> \<not> is_digit c"
  shows "SubstituteArgs_loop args (dollar # show_nat n @ rest) False tmp = SubstituteArgs_loop args rest False (tmp @ args ! (n - 1))"
proof -
  have d: "takeWhile is_digit (show_nat n @ rest) = show_nat n"
    using assms(4) show_nat_digits [of n] by (cases rest) (simp_all add: list_all_iff takeWhile_append2)
  have ne: "show_nat n \<noteq> []" by (subst show_nat.simps) simp
  show ?thesis using assms(1-3) d ne
    by (subst SubstituteArgs_loop.simps) (simp add: digits_value_show_nat Let_def)
qed

lemma loop_pieces:
  "well_written args ps \<Longrightarrow> SubstituteArgs_loop args (render ps) False tmp = Inr (Some (tmp @ meaning args ps))"
proof (induction ps arbitrary: tmp)
  case Nil
  then show ?case by (simp add: SubstituteArgs_loop.simps [of args "[]"])
next
  case (Cons p ps)
  then show ?case by (cases p) (auto simp: loop_literal loop_argument)
qed

text \<open>
  C37: the quoting rules of configuration values.  Every sequence of literal texts and arguments can be written (a backslash
  before each backslash and dollar sign of a text, a dollar sign and the number for an argument, no digit right after it),
  and \<open>SubstituteArgs\<close> returns exactly what it stands for, whatever characters texts and arguments contain.
\<close>

theorem SubstituteArgs_render:
  assumes "well_written args ps"
  shows "SubstituteArgs args (render ps) = Inr (Some (meaning args ps))"
  using loop_pieces [OF assms, of "[]"] by (simp add: SubstituteArgs_def)

theorem SubstituteArgs_render_witness:
  "SubstituteArgs [''x$1'', ''yy''] (render [Literal [CHR ''a'', dollar], Argument 2, Literal '' b'', Argument 1])
     = Inr (Some ([CHR ''a'', dollar] @ ''yy'' @ '' b'' @ ''x$1''))"
proof -
  have sp: "\<not> is_digit (CHR '' '')" by (simp add: is_digit_def)
  show ?thesis
    using SubstituteArgs_render [of "[''x$1'', ''yy'']" "[Literal [CHR ''a'', dollar], Argument 2, Literal '' b'', Argument 1]"] sp
    by (simp add: quote_char_def bslash_def dollar_def)
qed

text \<open>A missing argument and the number 0 are refused; a backslash before any other character disappears.\<close>

lemma SubstituteArgs_missing:
  assumes "length args < n" "int n < 2 ^ 31"
  shows "SubstituteArgs args (dollar # show_nat n) = Inr None"
proof -
  have "show_nat n \<noteq> []" by (subst show_nat.simps) simp
  then show ?thesis using assms
    by (simp add: SubstituteArgs_def SubstituteArgs_loop.simps [of args "dollar # _"] digits_value_show_nat Let_def)
qed

lemma SubstituteArgs_lone_backslash:
  assumes "c \<noteq> bslash" "c \<noteq> dollar"
  shows "SubstituteArgs args (bslash # c # render [Literal t]) = Inr (Some (c # t))"
  using assms loop_literal [of args t "[]" "[c]"]
  by (simp add: SubstituteArgs_def SubstituteArgs_loop.simps [of args "bslash # _"] SubstituteArgs_loop.simps [of args "c # _"]
      SubstituteArgs_loop.simps [of args "[]"])

text \<open>\<open>Config_GetValues\<close> returns one value per selected node, or nothing at all.\<close>

lemma Config_GetValues_length:
  "Config_GetValues_loop args nodes acc = Inr (Some vs) \<Longrightarrow> length vs = length acc + length nodes"
proof (induction nodes arbitrary: acc)
  case (Cons nd nodes)
  then show ?case by (fastforce simp: bind_result_Inr_iff split: option.splits)
qed simp

end
