(* ===== verification/MemoryPool.thy ===== *)
theory MemoryPool
  imports Prelude
begin

text \<open>
  The allocator of many equal elements (\<^verbatim>\<open>src/lib/MemoryPool.h\<close>): elements are handed out from chunks and only freed all
  at once.  A chunk is known by its number, in the order of creation; the lock makes every operation one step.
\<close>

record memory_pool =
  mp_chunkSize :: int
  mp_chunks :: "nat list"
  mp_used :: int
  mp_next :: nat \<comment> \<open>the number of the next chunk the allocator returns\<close>

definition MemoryPool_new :: "int \<Rightarrow> memory_pool" where
  "MemoryPool_new chunkSize = \<lparr>mp_chunkSize = chunkSize, mp_chunks = [], mp_used = chunkSize, mp_next = 0\<rparr>"

text \<open>An element is the place in a chunk; the last chunk of an empty vector is undefined.\<close>

definition MemoryPool_Alloc :: "memory_pool \<Rightarrow> failure + (nat \<times> int) \<times> memory_pool" where
  "MemoryPool_Alloc p =
     (let p1 = (if mp_used p \<ge> mp_chunkSize p
                then p\<lparr>mp_chunks := mp_chunks p @ [mp_next p], mp_next := Suc (mp_next p), mp_used := 0\<rparr> else p);
          index = mp_used p1;
          p2 = p1\<lparr>mp_used := index + 1\<rparr>
      in if mp_chunks p2 = [] then Inl OutOfRange else Inr ((last (mp_chunks p2), index), p2))"

definition MemoryPool_Clear :: "memory_pool \<Rightarrow> memory_pool" where
  "MemoryPool_Clear p = p\<lparr>mp_chunks := []\<rparr>"

fun MemoryPool_Allocs :: "nat \<Rightarrow> memory_pool \<Rightarrow> failure + (nat \<times> int) list \<times> memory_pool" where
  "MemoryPool_Allocs 0 p = Inr ([], p)"
| "MemoryPool_Allocs (Suc n) p =
     bind_result (MemoryPool_Alloc p) (\<lambda>(x, p1). bind_result (MemoryPool_Allocs n p1) (\<lambda>(xs, p2). Inr (x # xs, p2)))"

text \<open>After \<open>k\<close> elements.\<close>

definition pool_at :: "nat \<Rightarrow> nat \<Rightarrow> memory_pool \<Rightarrow> bool" where
  "pool_at c k p \<longleftrightarrow>
     mp_chunkSize p = int c \<and> mp_chunks p = [0..<mp_next p] \<and> 0 < c \<and> mp_used p \<le> int c \<and> 0 \<le> mp_used p \<and>
     int k + int c = int (mp_next p * c) + mp_used p"

lemma div_mod_unique: "k = q * c + r \<Longrightarrow> r < c \<Longrightarrow> k div c = q \<and> k mod c = (r :: nat)"
  by simp

lemma pool_step:
  assumes "pool_at c k p"
  shows "\<exists>p'. MemoryPool_Alloc p = Inr ((k div c, int (k mod c)), p') \<and> pool_at c (Suc k) p'"
proof (cases "mp_used p \<ge> int c")
  case True
  then have u: "mp_used p = int c" using assms by (simp add: pool_at_def)
  then have "int k = int (mp_next p * c + 0)" using assms by (simp add: pool_at_def)
  then have "k = mp_next p * c + 0" by (metis of_nat_eq_iff)
  then have "k div c = mp_next p \<and> k mod c = 0" using div_mod_unique [of k "mp_next p" c 0] assms by (simp add: pool_at_def)
  then show ?thesis using assms u by (auto simp: MemoryPool_Alloc_def pool_at_def Let_def algebra_simps)
next
  case False
  obtain r where r: "mp_used p = int r" "r < c" using assms False by (metis pool_at_def nonneg_int_cases not_le of_nat_less_iff)
  then have pos: "0 < mp_next p" using assms by (cases "mp_next p") (auto simp: pool_at_def)
  then obtain q where q: "mp_next p = Suc q" by (cases "mp_next p") auto
  have "int k = int (q * c + r)" using assms r q by (simp add: pool_at_def algebra_simps)
  then have "k div c = q \<and> k mod c = r" using div_mod_unique r(2) by (metis of_nat_eq_iff)
  then show ?thesis using assms r q by (auto simp: MemoryPool_Alloc_def pool_at_def Let_def algebra_simps)
qed

lemma pool_steps:
  "pool_at c k p \<Longrightarrow>
   \<exists>p'. MemoryPool_Allocs n p = Inr (map (\<lambda>i. (i div c, int (i mod c))) [k..<k + n], p') \<and> pool_at c (k + n) p'"
proof (induction n arbitrary: k p)
  case (Suc n)
  obtain p1 where "MemoryPool_Alloc p = Inr ((k div c, int (k mod c)), p1)" "pool_at c (Suc k) p1" using pool_step [OF Suc.prems] by blast
  then show ?case using Suc.IH [of "Suc k" p1] by (auto simp: upt_rec [of k])
qed simp

text \<open>
  A new pool hands out as many elements as asked for, each one once: the elements number 0, 1, ... of consecutive
  chunks, all inside their chunk and pairwise different.
\<close>

theorem MemoryPool_elements:
  assumes "0 < c"
  shows "\<exists>xs p. MemoryPool_Allocs n (MemoryPool_new (int c)) = Inr (xs, p) \<and> length xs = n \<and> distinct xs \<and>
    list_all (\<lambda>(chunk, i). 0 \<le> i \<and> i < int c \<and> chunk \<in> set (mp_chunks p)) xs"
proof -
  have p0: "pool_at c 0 (MemoryPool_new (int c))" using assms by (simp add: pool_at_def MemoryPool_new_def)
  obtain p where p: "MemoryPool_Allocs n (MemoryPool_new (int c)) = Inr (map (\<lambda>i. (i div c, int (i mod c))) [0..<n], p)" "pool_at c n p"
    using pool_steps [OF p0, of n] by auto
  have "distinct (map (\<lambda>i. (i div c, int (i mod c))) [0..<n])"
    unfolding distinct_map inj_on_def by (metis Pair_inject distinct_upt div_mod_decomp of_nat_eq_iff)
  moreover have "i div c < mp_next p" if "i < n" for i
  proof -
    have "int n \<le> int (mp_next p * c)" using p(2) by (simp add: pool_at_def)
    then have "i < mp_next p * c" using that by (metis less_le_trans of_nat_le_iff)
    then show ?thesis using assms by (simp add: less_mult_imp_div_less)
  qed
  ultimately show ?thesis using p assms by (auto simp: pool_at_def list_all_iff)
qed

theorem MemoryPool_elements_witness:
  "\<exists>xs p. MemoryPool_Allocs 3 (MemoryPool_new (int 2)) = Inr (xs, p) \<and> length xs = 3 \<and> distinct xs"
  using MemoryPool_elements [of 2 3] by auto

text \<open>
  \<open>Clear\<close> keeps the counter: unless the last chunk was full, the next allocation takes the last chunk of an empty vector.
\<close>

lemma Alloc_after_Clear:
  "mp_used p < mp_chunkSize p \<Longrightarrow> MemoryPool_Alloc (MemoryPool_Clear p) = Inl OutOfRange"
  by (simp add: MemoryPool_Alloc_def MemoryPool_Clear_def Let_def)

end
