(* ===== verification/PerlApi.thy ===== *)
theory PerlApi
  imports Attributes
begin

text \<open>
  The embedded Perl interpreter as the C++ code sees it (\<^verbatim>\<open>src/lib/EmbeddedPerl.h\<close>, \<^verbatim>\<open>EmbeddedPerl.cc\<close>,
  \<^verbatim>\<open>PerlResourceInterpreter.h\<close>, \<^verbatim>\<open>PlainLock.h\<close>): scalars with their flags, the arrays, hashes and global scalars of the
  interpreter's memory with the functions of \<^verbatim>\<open>perlapi\<close> the code calls on them, the context of the calling thread and
  the recursive lock.  What Perl programs do (\<^verbatim>\<open>call_method\<close>, \<^verbatim>\<open>eval_pv\<close>) and what the generated SWIG runtime does are
  arguments, the fields of a record.
\<close>

section \<open>Scalars\<close>

datatype perl_ref = ArrayRef nat | HashRef nat | OtherRef nat

text \<open>
  A scalar has an integer (64 bits, signed), a number (the bits of a double), a string or a reference, or several of
  them; the flags say which ones are valid.
\<close>

record sv =
  sv_iv :: "int option"
  sv_nv :: "64 word option"
  sv_pv :: "string option"
  sv_rv :: "perl_ref option"

definition sv_undef :: sv where
  "sv_undef = \<lparr>sv_iv = None, sv_nv = None, sv_pv = None, sv_rv = None\<rparr>"

definition newSViv :: "int \<Rightarrow> sv" where
  "newSViv i = sv_undef\<lparr>sv_iv := Some i\<rparr>"

definition newSVnv :: "64 word \<Rightarrow> sv" where
  "newSVnv d = sv_undef\<lparr>sv_nv := Some d\<rparr>"

definition newSVpv :: "string \<Rightarrow> sv" where
  "newSVpv s = sv_undef\<lparr>sv_pv := Some s\<rparr>"

definition newRV :: "perl_ref \<Rightarrow> sv" where
  "newRV r = sv_undef\<lparr>sv_rv := Some r\<rparr>"

definition SvOK :: "sv \<Rightarrow> bool" where
  "SvOK s \<longleftrightarrow> sv_iv s \<noteq> None \<or> sv_nv s \<noteq> None \<or> sv_pv s \<noteq> None \<or> sv_rv s \<noteq> None"

text \<open>Reading the reference of a scalar that is none reads another member of a union.\<close>

definition SvRV :: "sv \<Rightarrow> failure + perl_ref" where
  "SvRV s = (case sv_rv s of None \<Rightarrow> Inl WrongMember | Some r \<Rightarrow> Inr r)"

section \<open>The memory of the interpreter\<close>

text \<open>The part a Perl program keeps for itself is of any type \<open>'p\<close>.\<close>

record 'p perl_mem =
  pm_arrays :: "nat \<Rightarrow> sv list"
  pm_hashes :: "nat \<Rightarrow> string \<rightharpoonup> sv"
  pm_scalars :: "string \<rightharpoonup> sv"
  pm_next :: nat
  pm_rest :: 'p

text \<open>\<open>None\<close> is the address of \<^verbatim>\<open>PL_sv_undef\<close>, which \<^verbatim>\<open>av_shift\<close> returns for an empty array.\<close>

definition av_shift :: "nat \<Rightarrow> 'p perl_mem \<Rightarrow> sv option \<times> 'p perl_mem" where
  "av_shift a m = (case pm_arrays m a of [] \<Rightarrow> (None, m) | x # xs \<Rightarrow> (Some x, m\<lparr>pm_arrays := (pm_arrays m)(a := xs)\<rparr>))"

definition av_pop :: "nat \<Rightarrow> 'p perl_mem \<Rightarrow> sv \<times> 'p perl_mem" where
  "av_pop a m =
     (if pm_arrays m a = [] then (sv_undef, m)
      else (last (pm_arrays m a), m\<lparr>pm_arrays := (pm_arrays m)(a := butlast (pm_arrays m a))\<rparr>))"

definition av_push :: "nat \<Rightarrow> sv \<Rightarrow> 'p perl_mem \<Rightarrow> 'p perl_mem" where
  "av_push a v m = m\<lparr>pm_arrays := (pm_arrays m)(a := pm_arrays m a @ [v])\<rparr>"

definition newAV :: "'p perl_mem \<Rightarrow> nat \<times> 'p perl_mem" where
  "newAV m = (pm_next m, m\<lparr>pm_arrays := (pm_arrays m)(pm_next m := []), pm_next := Suc (pm_next m)\<rparr>)"

definition hv_fetch :: "nat \<Rightarrow> string \<Rightarrow> 'p perl_mem \<Rightarrow> sv option" where
  "hv_fetch h k m = pm_hashes m h k"

definition sv_setsv :: "string \<Rightarrow> sv \<Rightarrow> 'p perl_mem \<Rightarrow> 'p perl_mem" where
  "sv_setsv v x m = m\<lparr>pm_scalars := (pm_scalars m)(v \<mapsto> x)\<rparr>"

section \<open>Programs and the SWIG runtime\<close>

text \<open>The C++ objects that are handed to Perl.  A stream keeps its contents outside of the model.\<close>

datatype 'd cpp_object = CppResource "'d resource" | CppIpAddr ip_addr | CppStream | CppThis

text \<open>
  A method gets the scalars on the stack (the object first); the results are the error in \<^verbatim>\<open>ERRSV\<close>, if any, and the scalars
  it leaves on the stack.  \<open>get_av\<close> finds a global array.  The wrapper functions of the SWIG runtime look a type up, make
  a scalar for a pointer, and get the pointer back: a negative number says that the scalar has another type, and the
  pointer may be null.
\<close>

record ('d, 'p) perl_api =
  call_method :: "string \<Rightarrow> sv list \<Rightarrow> 'p perl_mem \<Rightarrow> string option \<times> sv list \<times> 'p perl_mem"
  eval_pv :: "string \<Rightarrow> 'p perl_mem \<Rightarrow> string option \<times> 'p perl_mem"
  get_av :: "string \<Rightarrow> 'p perl_mem \<Rightarrow> nat option"
  Perl_TypeQuery :: "string \<Rightarrow> nat option"
  Perl_NewPointerObj :: "'d cpp_object \<Rightarrow> nat \<Rightarrow> 'p perl_mem \<Rightarrow> sv \<times> 'p perl_mem"
  Perl_ConvertPtr :: "sv \<Rightarrow> nat \<Rightarrow> 'p perl_mem \<Rightarrow> int \<times> 'd cpp_object option \<times> 'p perl_mem"

section \<open>An interpreter used by a thread\<close>

text \<open>
  \<open>ps_depth\<close> counts how often the calling thread holds the interpreter's recursive lock; \<open>ps_context\<close> is the current
  interpreter of the thread (\<^verbatim>\<open>PERL_GET_CONTEXT\<close>), possibly null; \<open>ps_my\<close> is the address of this interpreter.
\<close>

record 'p perl_state =
  ps_depth :: nat
  ps_context :: "nat option"
  ps_my :: nat
  ps_cache :: "string \<rightharpoonup> nat"
  ps_mem :: "'p perl_mem"

definition Lock :: "'p perl_state \<Rightarrow> 'p perl_state" where
  "Lock st = st\<lparr>ps_depth := Suc (ps_depth st)\<rparr>"

definition Unlock :: "'p perl_state \<Rightarrow> 'p perl_state" where
  "Unlock st = st\<lparr>ps_depth := ps_depth st - 1\<rparr>"

definition GetContext :: "'p perl_state \<Rightarrow> nat option" where
  "GetContext st = ps_context st"

text \<open>A null argument selects the interpreter itself.\<close>

definition SetContext :: "nat option \<Rightarrow> 'p perl_state \<Rightarrow> 'p perl_state" where
  "SetContext ctx st = (case ctx of Some c \<Rightarrow> st\<lparr>ps_context := Some c\<rparr> | None \<Rightarrow> st\<lparr>ps_context := Some (ps_my st)\<rparr>)"

definition type_info :: "('d, 'p) perl_api \<Rightarrow> string \<Rightarrow> 'p perl_state \<Rightarrow> nat option \<times> 'p perl_state" where
  "type_info api type st =
     (case ps_cache st type of
        Some info \<Rightarrow> (Some info, st)
      | None \<Rightarrow> (case Perl_TypeQuery api type of
                   None \<Rightarrow> (None, st)
                 | Some info \<Rightarrow> (Some info, st\<lparr>ps_cache := (ps_cache st)(type \<mapsto> info)\<rparr>)))"

definition NewPointerObj :: "('d, 'p) perl_api \<Rightarrow> 'd cpp_object \<Rightarrow> string \<Rightarrow> 'p perl_state \<Rightarrow> sv option \<times> 'p perl_state" where
  "NewPointerObj api ob type st =
     (case type_info api type st of
        (None, st1) \<Rightarrow> (None, st1)
      | (Some info, st1) \<Rightarrow> (let (s, m) = Perl_NewPointerObj api ob info (ps_mem st1) in (Some s, st1\<lparr>ps_mem := m\<rparr>)))"

definition ConvertPtr :: "('d, 'p) perl_api \<Rightarrow> sv \<Rightarrow> string \<Rightarrow> 'p perl_state \<Rightarrow> int \<times> 'd cpp_object option \<times> 'p perl_state" where
  "ConvertPtr api s type st =
     (case type_info api type st of
        (None, st1) \<Rightarrow> (- 1, None, st1)
      | (Some info, st1) \<Rightarrow> (let (res, ob, m) = Perl_ConvertPtr api s info (ps_mem st1) in (res, ob, st1\<lparr>ps_mem := m\<rparr>)))"

text \<open>A call of a method or an evaluation on the interpreter.\<close>

definition run_method :: "('d, 'p) perl_api \<Rightarrow> string \<Rightarrow> sv list \<Rightarrow> 'p perl_state \<Rightarrow> string option \<times> sv list \<times> 'p perl_state" where
  "run_method api name args st = (let (err, res, m) = call_method api name args (ps_mem st) in (err, res, st\<lparr>ps_mem := m\<rparr>))"

definition run_eval :: "('d, 'p) perl_api \<Rightarrow> string \<Rightarrow> 'p perl_state \<Rightarrow> string option \<times> 'p perl_state" where
  "run_eval api code st = (let (err, m) = eval_pv api code (ps_mem st) in (err, st\<lparr>ps_mem := m\<rparr>))"

text \<open>
  What almost every member function of a Perl resource does around its work: take the lock, remember the context, switch
  to the interpreter, and undo both at the end.
\<close>

definition with_perl :: "('p perl_state \<Rightarrow> failure + 'r \<times> 'p perl_state) \<Rightarrow> 'p perl_state \<Rightarrow> failure + 'r \<times> 'p perl_state" where
  "with_perl body st =
     (let st1 = Lock st; old = GetContext st1
      in bind_result (body (SetContext None st1)) (\<lambda>(r, st2). Inr (r, Unlock (SetContext old st2))))"

section \<open>What stays the same\<close>

text \<open>Two states in which the thread holds the lock as often and has the same current interpreter.\<close>

definition same_hold :: "'p perl_state \<Rightarrow> 'p perl_state \<Rightarrow> bool" where
  "same_hold st st' \<longleftrightarrow> ps_depth st' = ps_depth st \<and> ps_context st' = ps_context st \<and> ps_my st' = ps_my st"

text \<open>An operation that keeps the lock and the context whenever it returns.\<close>

definition steady :: "('p perl_state \<Rightarrow> failure + 'r \<times> 'p perl_state) \<Rightarrow> bool" where
  "steady f \<longleftrightarrow> (\<forall>st r st'. f st = Inr (r, st') \<longrightarrow> same_hold st st')"

lemma same_hold_refl [simp]: "same_hold st st"
  by (simp add: same_hold_def)

lemma same_hold_trans: "same_hold a b \<Longrightarrow> same_hold b c \<Longrightarrow> same_hold a c"
  by (simp add: same_hold_def)

lemma same_hold_mem [simp]: "same_hold st (st\<lparr>ps_mem := m\<rparr>)" "same_hold st (st\<lparr>ps_cache := c\<rparr>)"
  by (simp_all add: same_hold_def)

lemma same_hold_mem_right [simp]:
  "same_hold st (st'\<lparr>ps_mem := m\<rparr>) = same_hold st st'" "same_hold st (st'\<lparr>ps_cache := c\<rparr>) = same_hold st st'"
  by (simp_all add: same_hold_def)

named_theorems steady_intros "operations that keep the lock and the context"

lemma type_info_hold: "same_hold st (snd (type_info api t st))"
  by (auto simp: type_info_def split: option.splits)

lemma run_method_hold: "same_hold st (snd (snd (run_method api n args st)))"
  by (simp add: run_method_def case_prod_beta Let_def)

lemma run_eval_hold: "same_hold st (snd (run_eval api c st))"
  by (simp add: run_eval_def case_prod_beta Let_def)

lemma NewPointerObj_hold: "same_hold st (snd (NewPointerObj api ob t st))"
  using type_info_hold [of st api t] by (auto simp: NewPointerObj_def case_prod_beta Let_def split: prod.splits option.splits)

lemma ConvertPtr_hold: "same_hold st (snd (snd (ConvertPtr api s t st)))"
  using type_info_hold [of st api t] by (auto simp: ConvertPtr_def case_prod_beta Let_def split: prod.splits option.splits)

lemma steadyI: "(\<And>st r st'. f st = Inr (r, st') \<Longrightarrow> same_hold st st') \<Longrightarrow> steady f"
  by (simp add: steady_def)

lemma steadyD: "steady f \<Longrightarrow> f st = Inr (r, st') \<Longrightarrow> same_hold st st'"
  by (auto simp: steady_def)

lemma steady_fail [steady_intros]: "steady (\<lambda>st. Inl e)"
  by (simp add: steady_def)

lemma steady_return [steady_intros]: "steady (\<lambda>st. Inr (r, st))"
  by (simp add: steady_def)

lemma steady_bind:
  assumes "steady f" and "\<And>r. steady (g r)"
  shows "steady (\<lambda>st. bind_result (f st) (\<lambda>(r, st'). g r st'))"
  by (rule steadyI) (use assms in \<open>auto simp: bind_result_Inr_iff dest!: steadyD intro: same_hold_trans\<close>)

text \<open>
  The brackets restore what they found, unless the thread had no current interpreter: then \<^verbatim>\<open>SetContext(NULL)\<close> leaves it
  with this one.
\<close>

definition restored :: "'p perl_state \<Rightarrow> 'p perl_state \<Rightarrow> bool" where
  "restored st st' \<longleftrightarrow> ps_depth st' = ps_depth st \<and> ps_my st' = ps_my st \<and>
     ps_context st' = (case ps_context st of None \<Rightarrow> Some (ps_my st) | Some c \<Rightarrow> Some c)"

lemma with_perl_restores:
  assumes "steady body" and "with_perl body st = Inr (r, st')"
  shows "restored st st'"
proof -
  from assms(2) obtain st2 where b: "body (SetContext None (Lock st)) = Inr (r, st2)"
    and st': "st' = Unlock (SetContext (ps_context st) st2)"
    by (auto simp: with_perl_def Let_def bind_result_Inr_iff GetContext_def Lock_def)
  from steadyD [OF assms(1) b] show ?thesis
    by (auto simp: st' same_hold_def restored_def SetContext_def Lock_def Unlock_def split: option.splits)
qed

lemma with_perl_result:
  "with_perl body st = Inr (r, st') \<Longrightarrow> \<exists>st2. body (SetContext None (Lock st)) = Inr (r, st2) \<and> ps_mem st' = ps_mem st2"
  by (auto simp: with_perl_def Let_def bind_result_Inr_iff SetContext_def Unlock_def split: option.splits)

end
