(* ===== verification/PerlResource.thy ===== *)
theory PerlResource
  imports PerlApi
begin

text \<open>
  Resources written in Perl (\<^verbatim>\<open>src/lib/processing_engine/PerlResource.h\<close>, \<^verbatim>\<open>PerlResource.cc\<close>): a C++ object that forwards every
  operation to a Perl object in one of the interpreters of the pool.  Each operation is a function on the state of the
  interpreter (lock, context, memory); what the Perl methods do is an argument.  At the end the class
  \<^verbatim>\<open>resource/perl/TestPerlResource.pm\<close> is translated as well and the two halves are put together.  Log messages are left out.
\<close>

section \<open>The object\<close>

text \<open>
  \<open>pr_name_block\<close> and \<open>pr_info_block\<close> are the addresses of what \<open>name\<close> and \<open>resourceInfo\<close> point to; \<open>pr_ref\<close> is the scalar with
  the reference to the Perl object, null before \<open>Init\<close>.
\<close>

record perl_attr =
  pa_name :: string
  pa_shape :: shape
  pa_elem :: elem
  pa_typeId :: int

record perl_info =
  pi_typeId :: int
  pi_typeString :: string
  pi_typeStringTerse :: string
  pi_objectName :: string
  pi_attrs :: "perl_attr list"

record perl_resource =
  pr_id :: int
  pr_name :: string
  pr_name_block :: nat
  pr_ref :: "sv option"
  pr_info :: "(nat \<times> perl_info) option"

type_synonym ('p, 'r) perl_op = "'p perl_state \<Rightarrow> failure + 'r \<times> 'p perl_state"

definition PerlResource_new :: "int \<Rightarrow> string \<Rightarrow> nat \<Rightarrow> perl_resource" where
  "PerlResource_new i name block =
     (let n = length (c_str name)
      in \<lparr>pr_id = i,
          pr_name = (if 4 < n \<and> drop (n - 3) (c_str name) = ''.pm'' then take (n - 3) (c_str name) else c_str name),
          pr_name_block = block, pr_ref = None, pr_info = None\<rparr>)"

text \<open>The first argument of every method call; a null scalar on the stack is dereferenced by the call.\<close>

definition with_ref :: "perl_resource \<Rightarrow> (sv \<Rightarrow> ('p, 'r) perl_op) \<Rightarrow> ('p, 'r) perl_op" where
  "with_ref pr k st = (case pr_ref pr of None \<Rightarrow> Inl NullDeref | Some r \<Rightarrow> k r st)"

text \<open>\<open>_resource\<close> with the id, the name of the variable that holds the Perl object.\<close>

definition resource_var :: "perl_resource \<Rightarrow> string" where
  "resource_var pr = snprintf 20 (''_resource'' @ show_int (pr_id pr))"

section \<open>Creation\<close>

text \<open>One of the names in \<^verbatim>\<open>@ISA\<close> has to be \<open>Resource\<close>: nine characters are compared, the last one ends the string.\<close>

definition is_resource :: "sv list \<Rightarrow> bool" where
  "is_resource isa = list_ex (\<lambda>item. case sv_pv item of None \<Rightarrow> False | Some s \<Rightarrow> c_str s = ''Resource'') isa"

definition Init_check :: "('d, 'p) perl_api \<Rightarrow> perl_resource \<Rightarrow> ('p, bool) perl_op" where
  "Init_check api pr st =
     (let (err, st1) = run_eval api (snprintf 1024 (''use '' @ pr_name pr @ '';'')) st
      in if err \<noteq> None then Inr (False, st1)
         else case get_av api (snprintf 1024 (pr_name pr @ ''::ISA'')) (ps_mem st1) of
                None \<Rightarrow> Inr (False, st1)
              | Some isa \<Rightarrow> Inr (is_resource (pm_arrays (ps_mem st1) isa), st1))"

text \<open>The program that creates the object.\<close>

definition create_code :: "perl_resource \<Rightarrow> string" where
  "create_code pr = snprintf 1024 (''use '' @ pr_name pr @ ''; $'' @ resource_var pr @ '' = '' @ pr_name pr @
     ''->new($_object, '' @ show_int (pr_id pr) @ '');'')"

definition Init_create :: "('d, 'p) perl_api \<Rightarrow> perl_resource \<Rightarrow> ('p, sv option) perl_op" where
  "Init_create api pr st =
     (let (ob, st1) = NewPointerObj api CppThis ''Resource *'' st;
          st2 = st1\<lparr>ps_mem := sv_setsv ''_object'' (case ob of None \<Rightarrow> sv_undef | Some s \<Rightarrow> s) (ps_mem st1)\<rparr>;
          (err, st3) = run_eval api (create_code pr) st2
      in if err \<noteq> None then Inr (None, st3)
         else case pm_scalars (ps_mem st3) (resource_var pr) of
                None \<Rightarrow> Inl NullDeref
              | Some s \<Rightarrow> Inr (Some s, st3))"

text \<open>A failed \<open>Init\<close> leaves \<open>ref\<close> alone, except that a variable whose value is not defined has been assigned to it.\<close>

definition PerlResource_Init :: "('d, 'p) perl_api \<Rightarrow> perl_resource \<Rightarrow> ('p, bool \<times> perl_resource) perl_op" where
  "PerlResource_Init api pr =
     with_perl (\<lambda>st. bind_result (Init_check api pr st) (\<lambda>(ok, st1).
       if \<not> ok then Inr ((False, pr), st1)
       else bind_result (Init_create api pr st1) (\<lambda>(oref, st2).
         case oref of
           Some r \<Rightarrow> Inr ((SvOK r, pr\<lparr>pr_ref := Some r\<rparr>), st2)
         | None \<Rightarrow> Inr ((False, pr), st2))))"

section \<open>Destruction and copies\<close>

text \<open>\<open>freed\<close> are the blocks given back so far.\<close>

definition free_block :: "nat \<Rightarrow> nat set \<Rightarrow> failure + nat set" where
  "free_block b freed = (if b \<in> freed then Inl UseAfterFree else Inr (insert b freed))"

definition PerlResource_delete :: "('d, 'p) perl_api \<Rightarrow> perl_resource \<Rightarrow> nat set \<Rightarrow> ('p, nat set) perl_op" where
  "PerlResource_delete api pr freed st =
     bind_result (with_perl (\<lambda>st0. Inr ((), snd (run_eval api (snprintf 1024 (''$_resource'' @ show_int (pr_id pr) @ '' = undef;'')) st0))) st)
       (\<lambda>(_, st1). bind_result (case pr_info pr of None \<Rightarrow> Inr freed | Some (b, _) \<Rightarrow> free_block b freed) (\<lambda>f1.
          bind_result (free_block (pr_name_block pr) f1) (\<lambda>f2. Inr (f2, st1))))"

text \<open>The copy constructor takes a new id (that of \<open>Resource\<close>); all other members are copied.\<close>

definition PerlResource_Clone :: "int \<Rightarrow> perl_resource \<Rightarrow> perl_resource" where
  "PerlResource_Clone next pr = pr\<lparr>pr_id := next\<rparr>"

section \<open>Calls\<close>

text \<open>A method whose result is not used (\<^verbatim>\<open>G_DISCARD\<close>); an error is only logged.\<close>

definition discard_call :: "('d, 'p) perl_api \<Rightarrow> perl_resource \<Rightarrow> string \<Rightarrow> sv list \<Rightarrow> ('p, unit) perl_op" where
  "discard_call api pr name args = with_ref pr (\<lambda>ref st. Inr ((), snd (snd (run_method api name (ref # args) st))))"

text \<open>A method called for one result: nothing after an error or with another number of results.\<close>

definition scalar_call :: "('d, 'p) perl_api \<Rightarrow> perl_resource \<Rightarrow> string \<Rightarrow> sv list \<Rightarrow> ('p, sv option) perl_op" where
  "scalar_call api pr name args = with_ref pr (\<lambda>ref st.
     let (err, res, st1) = run_method api name (ref # args) st
     in Inr (if err \<noteq> None then None else if length res \<noteq> 1 then None else Some (last res), st1))"

text \<open>\<open>Clear()\<close> clears the members of \<open>Resource\<close> as well, of which only the id is kept here.\<close>

definition PerlResource_Clear :: "('d, 'p) perl_api \<Rightarrow> perl_resource \<Rightarrow> ('p, perl_resource) perl_op" where
  "PerlResource_Clear api pr st =
     bind_result (with_perl (discard_call api pr ''Clear'' []) st) (\<lambda>(_, st1). Inr (pr\<lparr>pr_id := 0\<rparr>, st1))"

text \<open>The results of \<open>Serialize\<close>, \<open>Deserialize\<close> and \<open>Skip\<close>: false unless there is one result, an integer, not zero.\<close>

definition truth_result :: "sv option \<Rightarrow> bool" where
  "truth_result res = (case res of None \<Rightarrow> False | Some s \<Rightarrow> (case sv_iv s of None \<Rightarrow> False | Some i \<Rightarrow> i \<noteq> 0))"

text \<open>The scalar for a stream; a null one is dereferenced when it is made mortal and pushed.\<close>

definition with_stream :: "('d, 'p) perl_api \<Rightarrow> string \<Rightarrow> (sv \<Rightarrow> ('p, 'r) perl_op) \<Rightarrow> ('p, 'r) perl_op" where
  "with_stream api type k st =
     (case NewPointerObj api CppStream type st of (None, st1) \<Rightarrow> Inl NullDeref | (Some s, st1) \<Rightarrow> k s st1)"

definition PerlResource_Serialize :: "('d, 'p) perl_api \<Rightarrow> perl_resource \<Rightarrow> ('p, bool) perl_op" where
  "PerlResource_Serialize api pr = with_perl (with_stream api ''ResourceOutputStream'' (\<lambda>s st.
     bind_result (scalar_call api pr ''Serialize'' [s] st) (\<lambda>(res, st1). Inr (truth_result res, st1))))"

definition PerlResource_Deserialize :: "('d, 'p) perl_api \<Rightarrow> perl_resource \<Rightarrow> bool \<Rightarrow> ('p, bool) perl_op" where
  "PerlResource_Deserialize api pr headerOnly = with_perl (with_stream api ''ResourceInputStream'' (\<lambda>s st.
     bind_result (scalar_call api pr ''Deserialize'' [s, newSViv (if headerOnly then 1 else 0)] st)
       (\<lambda>(res, st1). Inr (truth_result res, st1))))"

definition PerlResource_Skip :: "('d, 'p) perl_api \<Rightarrow> perl_resource \<Rightarrow> ('p, bool) perl_op" where
  "PerlResource_Skip api pr = with_perl (with_stream api ''ResourceInputStream'' (\<lambda>s st.
     bind_result (scalar_call api pr ''Skip'' [s] st) (\<lambda>(res, st1). Inr (truth_result res, st1))))"

definition PerlResource_GetSize :: "('d, 'p) perl_api \<Rightarrow> perl_resource \<Rightarrow> ('p, int) perl_op" where
  "PerlResource_GetSize api pr = with_perl (\<lambda>st. bind_result (scalar_call api pr ''GetSize'' [] st) (\<lambda>(res, st1).
     Inr (case res of None \<Rightarrow> 0 | Some s \<Rightarrow> (case sv_iv s of None \<Rightarrow> 0 | Some i \<Rightarrow> wrap_signed 32 i), st1)))"

definition PerlResource_ToString :: "('d, 'p) perl_api \<Rightarrow> perl_resource \<Rightarrow> ('p, string) perl_op" where
  "PerlResource_ToString api pr = with_perl (\<lambda>st. bind_result (scalar_call api pr ''ToString'' [] st) (\<lambda>(res, st1).
     Inr (case res of None \<Rightarrow> [] | Some s \<Rightarrow> (case sv_pv s of None \<Rightarrow> [] | Some str \<Rightarrow> c_str str), st1)))"

section \<open>The description of the type\<close>

text \<open>The names of attribute types and the \<open>Init\<close> function they select.\<close>

fun attr_kind :: "string \<Rightarrow> (shape \<times> elem) option" where
  "attr_kind s =
     map_of [(''INT32'', Scalar, Int32), (''UINT32'', Scalar, UInt32), (''INT64'', Scalar, Int64), (''UINT64'', Scalar, UInt64),
       (''STRING'', Scalar, String), (''IP'', Scalar, IpAddress),
       (''ARRAY_INT32'', Array, Int32), (''ARRAY_UINT32'', Array, UInt32), (''ARRAY_INT64'', Array, Int64),
       (''ARRAY_UINT64'', Array, UInt64), (''ARRAY_STRING'', Array, String), (''ARRAY_IP'', Array, IpAddress),
       (''HASH_INT32'', Hash, Int32), (''HASH_UINT32'', Hash, UInt32), (''HASH_INT64'', Hash, Int64),
       (''HASH_UINT64'', Hash, UInt64), (''HASH_STRING'', Hash, String), (''HASH_IP'', Hash, IpAddress)] s"

text \<open>
  One item of \<open>attrInfoList\<close>, a reference to an array of two strings.  \<open>Inr None\<close> is an item that ends the loop with an error.
\<close>

definition attr_item :: "int \<Rightarrow> sv \<Rightarrow> 'p perl_mem \<Rightarrow> failure + perl_attr option \<times> 'p perl_mem" where
  "attr_item typeId s m =
     bind_result (SvRV s) (\<lambda>r. case r of
       ArrayRef item \<Rightarrow>
         (let (second, m1) = av_pop item m; (first, m2) = av_pop item m1
          in case (sv_pv first, sv_pv second) of
               (Some n, Some t) \<Rightarrow>
                 (case attr_kind (c_str t) of
                    None \<Rightarrow> Inr (None, m2)
                  | Some (sh, el) \<Rightarrow> Inr (Some \<lparr>pa_name = c_str n, pa_shape = sh, pa_elem = el, pa_typeId = typeId\<rparr>, m2))
             | _ \<Rightarrow> Inr (None, m2))
     | _ \<Rightarrow> Inr (None, m))"

lemma av_pop_shrinks: "av_pop b m = (x, m') \<Longrightarrow> length (pm_arrays m' a) \<le> length (pm_arrays m a)"
  by (auto simp: av_pop_def split: if_splits)

lemma attr_item_shrinks:
  assumes "attr_item typeId s m = Inr (x, m')"
  shows "length (pm_arrays m' a) \<le> length (pm_arrays m a)"
proof -
  from assms obtain r where r: "SvRV s = Inr r" by (auto simp: attr_item_def bind_result_Inr_iff)
  show ?thesis
  proof (cases r)
    case (ArrayRef item)
    obtain second m1 where p1: "av_pop item m = (second, m1)" by fastforce
    obtain first m2 where p2: "av_pop item m1 = (first, m2)" by fastforce
    have "m' = m2" using assms by (auto simp: attr_item_def r ArrayRef p1 p2 split: option.splits)
    then show ?thesis using av_pop_shrinks [OF p1, of a] av_pop_shrinks [OF p2, of a] by simp
  qed (use assms in \<open>simp_all add: attr_item_def r\<close>)
qed

lemma attr_item_less:
  assumes "pm_arrays m a = s # rest" and "attr_item typeId s (m\<lparr>pm_arrays := (pm_arrays m)(a := rest)\<rparr>) = Inr (x, m')"
  shows "length (pm_arrays m' a) < Suc (length rest)"
  using attr_item_shrinks [OF assms(2), of a] by simp

function attr_loop :: "int \<Rightarrow> nat \<Rightarrow> 'p perl_mem \<Rightarrow> perl_attr list \<Rightarrow> failure + (bool \<times> perl_attr list) \<times> 'p perl_mem" where
  "attr_loop typeId a m acc =
     (case pm_arrays m a of
        [] \<Rightarrow> Inr ((False, acc), m)
      | s # rest \<Rightarrow>
         (case attr_item typeId s (m\<lparr>pm_arrays := (pm_arrays m)(a := rest)\<rparr>) of
            Inl e \<Rightarrow> Inl e
          | Inr (None, m1) \<Rightarrow> Inr ((True, acc), m1)
          | Inr (Some x, m1) \<Rightarrow> attr_loop typeId a m1 (acc @ [x])))"
  by pat_completeness auto
termination
  by (relation "measure (\<lambda>(typeId, a, m, acc). length (pm_arrays m a))") (auto dest: attr_item_less)

declare attr_loop.simps [simp del]

text \<open>The hash \<open>GetResourceInfo\<close> returns.  \<open>None\<close> is an error.\<close>

definition parse_info :: "nat \<Rightarrow> 'p perl_mem \<Rightarrow> failure + perl_info option \<times> 'p perl_mem" where
  "parse_info h m =
     (case Option.bind (hv_fetch h ''typeId'' m) sv_iv of
        None \<Rightarrow> Inr (None, m)
      | Some t \<Rightarrow>
     (case Option.bind (hv_fetch h ''typeString'' m) sv_pv of
        None \<Rightarrow> Inr (None, m)
      | Some ts \<Rightarrow>
     (case Option.bind (hv_fetch h ''typeStringTerse'' m) sv_pv of
        None \<Rightarrow> Inr (None, m)
      | Some tst \<Rightarrow>
     (case hv_fetch h ''attrInfoList'' m of
        None \<Rightarrow> Inr (None, m)
      | Some l \<Rightarrow> bind_result (SvRV l) (\<lambda>r. case r of
          ArrayRef a \<Rightarrow>
            bind_result (attr_loop (wrap_signed 32 t) a m []) (\<lambda>((error, attrs), m1).
              Inr (if error then None
                   else Some \<lparr>pi_typeId = wrap_signed 32 t, pi_typeString = c_str ts, pi_typeStringTerse = c_str tst,
                              pi_objectName = ''PerlResource'', pi_attrs = attrs\<rparr>, m1))
        | _ \<Rightarrow> Inr (None, m))))))"

text \<open>The description is computed once; \<open>block\<close> is where a new one is put.\<close>

definition PerlResource_GetResourceInfo ::
  "('d, 'p) perl_api \<Rightarrow> nat \<Rightarrow> perl_resource \<Rightarrow> ('p, perl_info option \<times> perl_resource) perl_op" where
  "PerlResource_GetResourceInfo api block pr st =
     (case pr_info pr of
        Some (_, info) \<Rightarrow> Inr ((Some info, pr), st)
      | None \<Rightarrow>
          bind_result (with_perl (\<lambda>st0. bind_result (scalar_call api pr ''GetResourceInfo'' [] st0) (\<lambda>(res, st1).
            case res of
              None \<Rightarrow> Inr (None, st1)
            | Some s \<Rightarrow> bind_result (SvRV s) (\<lambda>r. case r of
                HashRef h \<Rightarrow> bind_result (parse_info h (ps_mem st1)) (\<lambda>(info, m). Inr (info, st1\<lparr>ps_mem := m\<rparr>))
              | _ \<Rightarrow> Inr (None, st1)))) st)
          (\<lambda>(oinfo, st2). Inr ((oinfo, pr\<lparr>pr_info := map_option (Pair block) oinfo\<rparr>), st2)))"

section \<open>Values of attributes\<close>

text \<open>The names of methods are built in a buffer of 100 characters.\<close>

definition GetValue :: "('d, 'p) perl_api \<Rightarrow> perl_resource \<Rightarrow> string \<Rightarrow> string \<Rightarrow> ('p, sv option) perl_op" where
  "GetValue api pr prefix name = scalar_call api pr (snprintf 100 (prefix @ ''_'' @ name)) []"

definition GetArrayValue :: "('d, 'p) perl_api \<Rightarrow> perl_resource \<Rightarrow> string \<Rightarrow> int \<Rightarrow> ('p, sv option) perl_op" where
  "GetArrayValue api pr name index = scalar_call api pr (snprintf 100 (''Get_'' @ name)) [newSViv index]"

definition GetHashValue :: "('d, 'p) perl_api \<Rightarrow> perl_resource \<Rightarrow> string \<Rightarrow> string \<Rightarrow> ('p, sv option) perl_op" where
  "GetHashValue api pr name index = scalar_call api pr (snprintf 100 (''Get_'' @ name)) [newSVpv index]"

definition SetValue :: "('d, 'p) perl_api \<Rightarrow> perl_resource \<Rightarrow> string \<Rightarrow> sv \<Rightarrow> ('p, unit) perl_op" where
  "SetValue api pr name s = discard_call api pr (snprintf 100 (''Set_'' @ name)) [s]"

definition SetArrayValue :: "('d, 'p) perl_api \<Rightarrow> perl_resource \<Rightarrow> string \<Rightarrow> int \<Rightarrow> sv \<Rightarrow> ('p, unit) perl_op" where
  "SetArrayValue api pr name index s = discard_call api pr (snprintf 100 (''Set_'' @ name)) [newSViv index, s]"

definition SetHashValue :: "('d, 'p) perl_api \<Rightarrow> perl_resource \<Rightarrow> string \<Rightarrow> string \<Rightarrow> sv \<Rightarrow> ('p, unit) perl_op" where
  "SetHashValue api pr name index s = discard_call api pr (snprintf 100 (''Set_'' @ name)) [newSVpv index, s]"

text \<open>
  What the getters make of the scalar they got: the flags are read through a null pointer when the call failed; a scalar
  of another kind gives the value the result was initialised with.
\<close>

definition long_of :: "sv option \<Rightarrow> failure + int" where
  "long_of res = (case res of None \<Rightarrow> Inl NullDeref | Some s \<Rightarrow> Inr (case sv_iv s of None \<Rightarrow> 0 | Some i \<Rightarrow> i))"

definition double_of :: "sv option \<Rightarrow> failure + 64 word" where
  "double_of res = (case res of None \<Rightarrow> Inl NullDeref | Some s \<Rightarrow> Inr (case sv_nv s of None \<Rightarrow> 0 | Some d \<Rightarrow> d))"

definition string_of :: "sv option \<Rightarrow> failure + string" where
  "string_of res = (case res of None \<Rightarrow> Inl NullDeref | Some s \<Rightarrow> Inr (case sv_pv s of None \<Rightarrow> [] | Some str \<Rightarrow> c_str str))"

definition convert_ip :: "('d, 'p) perl_api \<Rightarrow> sv \<Rightarrow> ('p, ip_addr option) perl_op" where
  "convert_ip api s st =
     (let (res, ob, st1) = ConvertPtr api s ''IpAddr *'' st
      in if res \<ge> 0 then (case ob of Some (CppIpAddr a) \<Rightarrow> Inr (Some a, st1) | _ \<Rightarrow> Inl NullDeref) else Inr (None, st1))"

definition ip_of :: "('d, 'p) perl_api \<Rightarrow> sv option \<Rightarrow> ('p, ip_addr) perl_op" where
  "ip_of api res st =
     (case res of
        None \<Rightarrow> Inl NullDeref
      | Some s \<Rightarrow> if sv_iv s \<noteq> None
                  then bind_result (convert_ip api s st) (\<lambda>(oa, st1). Inr (case oa of None \<Rightarrow> IpAddr_new | Some a \<Rightarrow> a, st1))
                  else Inr (IpAddr_new, st))"

text \<open>Fetch a scalar, convert it.\<close>

definition fetch :: "(sv option \<Rightarrow> failure + 'r) \<Rightarrow> ('p, sv option) perl_op \<Rightarrow> ('p, 'r) perl_op" where
  "fetch conv get = with_perl (\<lambda>st. bind_result (get st) (\<lambda>(res, st1). bind_result (conv res) (\<lambda>r. Inr (r, st1))))"

definition fetch_ip :: "('d, 'p) perl_api \<Rightarrow> ('p, sv option) perl_op \<Rightarrow> ('p, ip_addr) perl_op" where
  "fetch_ip api get = with_perl (\<lambda>st. bind_result (get st) (\<lambda>(res, st1). ip_of api res st1))"

definition map_value :: "('a \<Rightarrow> 'b) \<Rightarrow> ('p, 'a) perl_op \<Rightarrow> ('p, 'b) perl_op" where
  "map_value f op st = bind_result (op st) (\<lambda>(r, st1). Inr (f r, st1))"


subsection \<open>Getters\<close>

definition PR_GetLong :: "('d, 'p) perl_api \<Rightarrow> perl_resource \<Rightarrow> string \<Rightarrow> ('p, int) perl_op" where
  "PR_GetLong api pr name = fetch long_of (GetValue api pr ''Get'' (c_str name))"

definition PR_GetInt32 :: "('d, 'p) perl_api \<Rightarrow> perl_resource \<Rightarrow> string \<Rightarrow> ('p, int) perl_op" where
  "PR_GetInt32 api pr name = map_value (wrap_signed 32) (PR_GetLong api pr name)"

definition PR_GetUInt32 :: "('d, 'p) perl_api \<Rightarrow> perl_resource \<Rightarrow> string \<Rightarrow> ('p, int) perl_op" where
  "PR_GetUInt32 api pr name = map_value (wrap_unsigned 32) (PR_GetLong api pr name)"

definition PR_GetInt64 :: "('d, 'p) perl_api \<Rightarrow> perl_resource \<Rightarrow> string \<Rightarrow> ('p, int) perl_op" where
  "PR_GetInt64 api pr name = map_value (wrap_signed 64) (PR_GetLong api pr name)"

definition PR_GetUInt64 :: "('d, 'p) perl_api \<Rightarrow> perl_resource \<Rightarrow> string \<Rightarrow> ('p, int) perl_op" where
  "PR_GetUInt64 api pr name = map_value (wrap_unsigned 64) (PR_GetLong api pr name)"

definition PR_GetDouble :: "('d, 'p) perl_api \<Rightarrow> perl_resource \<Rightarrow> string \<Rightarrow> ('p, 64 word) perl_op" where
  "PR_GetDouble api pr name = fetch double_of (GetValue api pr ''Get'' (c_str name))"

definition PR_GetString :: "('d, 'p) perl_api \<Rightarrow> perl_resource \<Rightarrow> string \<Rightarrow> ('p, string) perl_op" where
  "PR_GetString api pr name = fetch string_of (GetValue api pr ''Get'' (c_str name))"

definition PR_GetIpAddr :: "('d, 'p) perl_api \<Rightarrow> perl_resource \<Rightarrow> string \<Rightarrow> ('p, ip_addr) perl_op" where
  "PR_GetIpAddr api pr name = fetch_ip api (GetValue api pr ''Get'' (c_str name))"

definition PR_GetArrayLong :: "('d, 'p) perl_api \<Rightarrow> perl_resource \<Rightarrow> string \<Rightarrow> int \<Rightarrow> ('p, int) perl_op" where
  "PR_GetArrayLong api pr name index = fetch long_of (GetArrayValue api pr (c_str name) index)"

definition PR_GetArrayInt32 :: "('d, 'p) perl_api \<Rightarrow> perl_resource \<Rightarrow> string \<Rightarrow> int \<Rightarrow> ('p, int) perl_op" where
  "PR_GetArrayInt32 api pr name index = map_value (wrap_signed 32) (PR_GetArrayLong api pr name index)"

definition PR_GetArrayUInt32 :: "('d, 'p) perl_api \<Rightarrow> perl_resource \<Rightarrow> string \<Rightarrow> int \<Rightarrow> ('p, int) perl_op" where
  "PR_GetArrayUInt32 api pr name index = map_value (wrap_unsigned 32) (PR_GetArrayLong api pr name index)"

definition PR_GetArrayInt64 :: "('d, 'p) perl_api \<Rightarrow> perl_resource \<Rightarrow> string \<Rightarrow> int \<Rightarrow> ('p, int) perl_op" where
  "PR_GetArrayInt64 api pr name index = map_value (wrap_signed 64) (PR_GetArrayLong api pr name index)"

definition PR_GetArrayUInt64 :: "('d, 'p) perl_api \<Rightarrow> perl_resource \<Rightarrow> string \<Rightarrow> int \<Rightarrow> ('p, int) perl_op" where
  "PR_GetArrayUInt64 api pr name index = map_value (wrap_unsigned 64) (PR_GetArrayLong api pr name index)"

definition PR_GetArrayDouble :: "('d, 'p) perl_api \<Rightarrow> perl_resource \<Rightarrow> string \<Rightarrow> int \<Rightarrow> ('p, 64 word) perl_op" where
  "PR_GetArrayDouble api pr name index = fetch double_of (GetArrayValue api pr (c_str name) index)"

definition PR_GetArrayString :: "('d, 'p) perl_api \<Rightarrow> perl_resource \<Rightarrow> string \<Rightarrow> int \<Rightarrow> ('p, string) perl_op" where
  "PR_GetArrayString api pr name index = fetch string_of (GetArrayValue api pr (c_str name) index)"

definition PR_GetArrayIpAddr :: "('d, 'p) perl_api \<Rightarrow> perl_resource \<Rightarrow> string \<Rightarrow> int \<Rightarrow> ('p, ip_addr) perl_op" where
  "PR_GetArrayIpAddr api pr name index = fetch_ip api (GetArrayValue api pr (c_str name) index)"

definition PR_GetHashLong :: "('d, 'p) perl_api \<Rightarrow> perl_resource \<Rightarrow> string \<Rightarrow> string \<Rightarrow> ('p, int) perl_op" where
  "PR_GetHashLong api pr name index = fetch long_of (GetHashValue api pr (c_str name) index)"

definition PR_GetHashInt32 :: "('d, 'p) perl_api \<Rightarrow> perl_resource \<Rightarrow> string \<Rightarrow> string \<Rightarrow> ('p, int) perl_op" where
  "PR_GetHashInt32 api pr name index = map_value (wrap_signed 32) (PR_GetHashLong api pr name index)"

definition PR_GetHashUInt32 :: "('d, 'p) perl_api \<Rightarrow> perl_resource \<Rightarrow> string \<Rightarrow> string \<Rightarrow> ('p, int) perl_op" where
  "PR_GetHashUInt32 api pr name index = map_value (wrap_unsigned 32) (PR_GetHashLong api pr name index)"

definition PR_GetHashInt64 :: "('d, 'p) perl_api \<Rightarrow> perl_resource \<Rightarrow> string \<Rightarrow> string \<Rightarrow> ('p, int) perl_op" where
  "PR_GetHashInt64 api pr name index = map_value (wrap_signed 64) (PR_GetHashLong api pr name index)"

definition PR_GetHashUInt64 :: "('d, 'p) perl_api \<Rightarrow> perl_resource \<Rightarrow> string \<Rightarrow> string \<Rightarrow> ('p, int) perl_op" where
  "PR_GetHashUInt64 api pr name index = map_value (wrap_unsigned 64) (PR_GetHashLong api pr name index)"

definition PR_GetHashDouble :: "('d, 'p) perl_api \<Rightarrow> perl_resource \<Rightarrow> string \<Rightarrow> string \<Rightarrow> ('p, 64 word) perl_op" where
  "PR_GetHashDouble api pr name index = fetch double_of (GetHashValue api pr (c_str name) index)"

definition PR_GetHashString :: "('d, 'p) perl_api \<Rightarrow> perl_resource \<Rightarrow> string \<Rightarrow> string \<Rightarrow> ('p, string) perl_op" where
  "PR_GetHashString api pr name index = fetch string_of (GetHashValue api pr (c_str name) index)"

definition PR_GetHashIpAddr :: "('d, 'p) perl_api \<Rightarrow> perl_resource \<Rightarrow> string \<Rightarrow> string \<Rightarrow> ('p, ip_addr) perl_op" where
  "PR_GetHashIpAddr api pr name index = fetch_ip api (GetHashValue api pr (c_str name) index)"

subsection \<open>Setters\<close>

text \<open>
  \<open>SetString\<close> makes the scalar from a C string, the other two from all characters.  The setters for addresses give the object
  to Perl; when its type is not known they return at once, with the lock held and the context switched.
\<close>

definition set_ip :: "('d, 'p) perl_api \<Rightarrow> ip_addr \<Rightarrow> (sv \<Rightarrow> ('p, unit) perl_op) \<Rightarrow> ('p, unit) perl_op" where
  "set_ip api value setv st =
     (let st1 = Lock st; old = GetContext st1;
          (ob, st2) = NewPointerObj api (CppIpAddr value) ''IpAddr *'' (SetContext None st1)
      in case ob of
           None \<Rightarrow> Inr ((), st2)
         | Some s \<Rightarrow> bind_result (setv s st2) (\<lambda>(_, st3). Inr ((), Unlock (SetContext old st3))))"

definition PR_SetLong :: "('d, 'p) perl_api \<Rightarrow> perl_resource \<Rightarrow> string \<Rightarrow> int \<Rightarrow> ('p, unit) perl_op" where
  "PR_SetLong api pr name value = with_perl (SetValue api pr (c_str name) (newSViv value))"

definition PR_SetInt32 :: "('d, 'p) perl_api \<Rightarrow> perl_resource \<Rightarrow> string \<Rightarrow> int \<Rightarrow> ('p, unit) perl_op" where
  "PR_SetInt32 api pr name value = PR_SetLong api pr name value"

definition PR_SetUInt32 :: "('d, 'p) perl_api \<Rightarrow> perl_resource \<Rightarrow> string \<Rightarrow> int \<Rightarrow> ('p, unit) perl_op" where
  "PR_SetUInt32 api pr name value = PR_SetLong api pr name value"

definition PR_SetInt64 :: "('d, 'p) perl_api \<Rightarrow> perl_resource \<Rightarrow> string \<Rightarrow> int \<Rightarrow> ('p, unit) perl_op" where
  "PR_SetInt64 api pr name value = PR_SetLong api pr name value"

definition PR_SetUInt64 :: "('d, 'p) perl_api \<Rightarrow> perl_resource \<Rightarrow> string \<Rightarrow> int \<Rightarrow> ('p, unit) perl_op" where
  "PR_SetUInt64 api pr name value = PR_SetLong api pr name (wrap_signed 64 value)"

definition PR_SetDouble :: "('d, 'p) perl_api \<Rightarrow> perl_resource \<Rightarrow> string \<Rightarrow> 64 word \<Rightarrow> ('p, unit) perl_op" where
  "PR_SetDouble api pr name value = with_perl (SetValue api pr (c_str name) (newSVnv value))"

definition PR_SetString :: "('d, 'p) perl_api \<Rightarrow> perl_resource \<Rightarrow> string \<Rightarrow> string \<Rightarrow> ('p, unit) perl_op" where
  "PR_SetString api pr name value = with_perl (SetValue api pr (c_str name) (newSVpv (c_str value)))"

definition PR_SetIpAddr :: "('d, 'p) perl_api \<Rightarrow> perl_resource \<Rightarrow> string \<Rightarrow> ip_addr \<Rightarrow> ('p, unit) perl_op" where
  "PR_SetIpAddr api pr name value = set_ip api value (SetValue api pr (c_str name))"

definition PR_SetArrayLong :: "('d, 'p) perl_api \<Rightarrow> perl_resource \<Rightarrow> string \<Rightarrow> int \<Rightarrow> int \<Rightarrow> ('p, unit) perl_op" where
  "PR_SetArrayLong api pr name index value = with_perl (SetArrayValue api pr (c_str name) index (newSViv value))"

definition PR_SetArrayInt32 :: "('d, 'p) perl_api \<Rightarrow> perl_resource \<Rightarrow> string \<Rightarrow> int \<Rightarrow> int \<Rightarrow> ('p, unit) perl_op" where
  "PR_SetArrayInt32 api pr name index value = PR_SetArrayLong api pr name index value"

definition PR_SetArrayUInt32 :: "('d, 'p) perl_api \<Rightarrow> perl_resource \<Rightarrow> string \<Rightarrow> int \<Rightarrow> int \<Rightarrow> ('p, unit) perl_op" where
  "PR_SetArrayUInt32 api pr name index value = PR_SetArrayLong api pr name index value"

definition PR_SetArrayInt64 :: "('d, 'p) perl_api \<Rightarrow> perl_resource \<Rightarrow> string \<Rightarrow> int \<Rightarrow> int \<Rightarrow> ('p, unit) perl_op" where
  "PR_SetArrayInt64 api pr name index value = PR_SetArrayLong api pr name index value"

definition PR_SetArrayUInt64 :: "('d, 'p) perl_api \<Rightarrow> perl_resource \<Rightarrow> string \<Rightarrow> int \<Rightarrow> int \<Rightarrow> ('p, unit) perl_op" where
  "PR_SetArrayUInt64 api pr name index value = PR_SetArrayLong api pr name index (wrap_signed 64 value)"

definition PR_SetArrayDouble :: "('d, 'p) perl_api \<Rightarrow> perl_resource \<Rightarrow> string \<Rightarrow> int \<Rightarrow> 64 word \<Rightarrow> ('p, unit) perl_op" where
  "PR_SetArrayDouble api pr name index value = with_perl (SetArrayValue api pr (c_str name) index (newSVnv value))"

definition PR_SetArrayString :: "('d, 'p) perl_api \<Rightarrow> perl_resource \<Rightarrow> string \<Rightarrow> int \<Rightarrow> string \<Rightarrow> ('p, unit) perl_op" where
  "PR_SetArrayString api pr name index value = with_perl (SetArrayValue api pr (c_str name) index (newSVpv value))"

definition PR_SetArrayIpAddr :: "('d, 'p) perl_api \<Rightarrow> perl_resource \<Rightarrow> string \<Rightarrow> int \<Rightarrow> ip_addr \<Rightarrow> ('p, unit) perl_op" where
  "PR_SetArrayIpAddr api pr name index value = set_ip api value (SetArrayValue api pr (c_str name) index)"

definition PR_SetHashLong :: "('d, 'p) perl_api \<Rightarrow> perl_resource \<Rightarrow> string \<Rightarrow> string \<Rightarrow> int \<Rightarrow> ('p, unit) perl_op" where
  "PR_SetHashLong api pr name index value = with_perl (SetHashValue api pr (c_str name) index (newSViv value))"

definition PR_SetHashInt32 :: "('d, 'p) perl_api \<Rightarrow> perl_resource \<Rightarrow> string \<Rightarrow> string \<Rightarrow> int \<Rightarrow> ('p, unit) perl_op" where
  "PR_SetHashInt32 api pr name index value = PR_SetHashLong api pr name index value"

definition PR_SetHashUInt32 :: "('d, 'p) perl_api \<Rightarrow> perl_resource \<Rightarrow> string \<Rightarrow> string \<Rightarrow> int \<Rightarrow> ('p, unit) perl_op" where
  "PR_SetHashUInt32 api pr name index value = PR_SetHashLong api pr name index value"

definition PR_SetHashInt64 :: "('d, 'p) perl_api \<Rightarrow> perl_resource \<Rightarrow> string \<Rightarrow> string \<Rightarrow> int \<Rightarrow> ('p, unit) perl_op" where
  "PR_SetHashInt64 api pr name index value = PR_SetHashLong api pr name index value"

definition PR_SetHashUInt64 :: "('d, 'p) perl_api \<Rightarrow> perl_resource \<Rightarrow> string \<Rightarrow> string \<Rightarrow> int \<Rightarrow> ('p, unit) perl_op" where
  "PR_SetHashUInt64 api pr name index value = PR_SetHashLong api pr name index (wrap_signed 64 value)"

definition PR_SetHashDouble :: "('d, 'p) perl_api \<Rightarrow> perl_resource \<Rightarrow> string \<Rightarrow> string \<Rightarrow> 64 word \<Rightarrow> ('p, unit) perl_op" where
  "PR_SetHashDouble api pr name index value = with_perl (SetHashValue api pr (c_str name) index (newSVnv value))"

definition PR_SetHashString :: "('d, 'p) perl_api \<Rightarrow> perl_resource \<Rightarrow> string \<Rightarrow> string \<Rightarrow> string \<Rightarrow> ('p, unit) perl_op" where
  "PR_SetHashString api pr name index value = with_perl (SetHashValue api pr (c_str name) index (newSVpv value))"

definition PR_SetHashIpAddr :: "('d, 'p) perl_api \<Rightarrow> perl_resource \<Rightarrow> string \<Rightarrow> string \<Rightarrow> ip_addr \<Rightarrow> ('p, unit) perl_op" where
  "PR_SetHashIpAddr api pr name index value = set_ip api value (SetHashValue api pr (c_str name) index)"

subsection \<open>Collections\<close>

text \<open>\<open>Clear(name)\<close> and \<open>DeleteItem\<close> take no lock and do not switch the context; \<open>DeleteItem\<close> pushes the index before the object.\<close>

definition PR_ClearAttr :: "('d, 'p) perl_api \<Rightarrow> perl_resource \<Rightarrow> string \<Rightarrow> ('p, unit) perl_op" where
  "PR_ClearAttr api pr name = discard_call api pr (snprintf 100 (''Clear'' @ c_str name)) []"

definition PR_Count :: "('d, 'p) perl_api \<Rightarrow> perl_resource \<Rightarrow> string \<Rightarrow> ('p, int) perl_op" where
  "PR_Count api pr name = map_value (wrap_signed 32) (fetch long_of (GetValue api pr ''Count'' (c_str name)))"

definition PR_DeleteItem :: "('d, 'p) perl_api \<Rightarrow> perl_resource \<Rightarrow> string \<Rightarrow> string \<Rightarrow> ('p, unit) perl_op" where
  "PR_DeleteItem api pr name index = with_ref pr (\<lambda>ref st.
     Inr ((), snd (snd (run_method api (snprintf 100 (''DeleteItem'' @ c_str name)) [newSVpv index, ref] st))))"

text \<open>
  The list functions call the method whose name starts with \<open>GetKeys%s\<close> or \<open>GetValues%s\<close>: the prefix is an argument of
  \<^verbatim>\<open>snprintf\<close>, not its format.  They take every scalar out of the array, keeping those of the right kind.
\<close>

definition shift_items :: "(sv list \<Rightarrow> sv \<Rightarrow> ('p, 'r list) perl_op) \<Rightarrow> sv option \<Rightarrow> ('p, 'r list) perl_op" where
  "shift_items conv res st =
     (case res of
        None \<Rightarrow> Inl NullDeref
      | Some s \<Rightarrow> bind_result (SvRV s) (\<lambda>r. case r of
          ArrayRef a \<Rightarrow> conv (pm_arrays (ps_mem st) a) s (st\<lparr>ps_mem := (ps_mem st)\<lparr>pm_arrays := (pm_arrays (ps_mem st))(a := [])\<rparr>\<rparr>)
        | _ \<Rightarrow> Inl WrongMember))"

definition fetch_list :: "(sv list \<Rightarrow> sv \<Rightarrow> ('p, 'r list) perl_op) \<Rightarrow> ('p, sv option) perl_op \<Rightarrow> ('p, 'r list) perl_op" where
  "fetch_list conv get = with_perl (\<lambda>st. bind_result (get st) (\<lambda>(res, st1). shift_items conv res st1))"

definition keep :: "(sv \<Rightarrow> 'r option) \<Rightarrow> sv list \<Rightarrow> sv \<Rightarrow> ('p, 'r list) perl_op" where
  "keep f items s st = Inr (List.map_filter f items, st)"

definition PR_Keys :: "('d, 'p) perl_api \<Rightarrow> perl_resource \<Rightarrow> string \<Rightarrow> ('p, string list) perl_op" where
  "PR_Keys api pr name = fetch_list (keep sv_pv) (GetValue api pr ''GetKeys%s'' (c_str name))"

definition PR_Int32Values :: "('d, 'p) perl_api \<Rightarrow> perl_resource \<Rightarrow> string \<Rightarrow> ('p, int list) perl_op" where
  "PR_Int32Values api pr name = fetch_list (keep (map_option (wrap_signed 32) \<circ> sv_iv)) (GetValue api pr ''GetValues%s'' (c_str name))"

definition PR_UInt32Values :: "('d, 'p) perl_api \<Rightarrow> perl_resource \<Rightarrow> string \<Rightarrow> ('p, int list) perl_op" where
  "PR_UInt32Values api pr name = fetch_list (keep (map_option (wrap_unsigned 32) \<circ> sv_iv)) (GetValue api pr ''GetValues%s'' (c_str name))"

definition PR_Int64Values :: "('d, 'p) perl_api \<Rightarrow> perl_resource \<Rightarrow> string \<Rightarrow> ('p, int list) perl_op" where
  "PR_Int64Values api pr name = fetch_list (keep (map_option (wrap_signed 64) \<circ> sv_iv)) (GetValue api pr ''GetValues%s'' (c_str name))"

definition PR_UInt64Values :: "('d, 'p) perl_api \<Rightarrow> perl_resource \<Rightarrow> string \<Rightarrow> ('p, int list) perl_op" where
  "PR_UInt64Values api pr name = fetch_list (keep (map_option (wrap_unsigned 64) \<circ> sv_iv)) (GetValue api pr ''GetValues%s'' (c_str name))"

definition PR_DoubleValues :: "('d, 'p) perl_api \<Rightarrow> perl_resource \<Rightarrow> string \<Rightarrow> ('p, 64 word list) perl_op" where
  "PR_DoubleValues api pr name = fetch_list (keep sv_nv) (GetValue api pr ''GetValues%s'' (c_str name))"

definition PR_StringValues :: "('d, 'p) perl_api \<Rightarrow> perl_resource \<Rightarrow> string \<Rightarrow> ('p, string list) perl_op" where
  "PR_StringValues api pr name = fetch_list (keep sv_pv) (GetValue api pr ''GetValues%s'' (c_str name))"

text \<open>For addresses the scalar that is converted is the reference to the array, each time, not the item.\<close>

fun ip_items :: "('d, 'p) perl_api \<Rightarrow> sv list \<Rightarrow> sv \<Rightarrow> ('p, ip_addr list) perl_op" where
  "ip_items api [] s st = Inr ([], st)"
| "ip_items api (i # is) s st =
     (if sv_iv i \<noteq> None
      then bind_result (convert_ip api s st) (\<lambda>(oa, st1). bind_result (ip_items api is s st1) (\<lambda>(as, st2).
             Inr (case oa of None \<Rightarrow> as | Some a \<Rightarrow> a # as, st2)))
      else ip_items api is s st)"

definition PR_IpAddrValues :: "('d, 'p) perl_api \<Rightarrow> perl_resource \<Rightarrow> string \<Rightarrow> ('p, ip_addr list) perl_op" where
  "PR_IpAddrValues api pr name = fetch_list (ip_items api) (GetValue api pr ''GetValues%s'' (c_str name))"

section \<open>Access through descriptors\<close>

text \<open>
  The member functions \<open>GetResourceInfo\<close> puts into the descriptor of an attribute, by shape and element type (those for doubles
  exist but no type name selects them).
\<close>

fun PR_get :: "('d, 'p) perl_api \<Rightarrow> perl_resource \<Rightarrow> elem \<Rightarrow> string \<Rightarrow> attr_index \<Rightarrow> ('p, attr_value) perl_op" where
  "PR_get api pr Int32 n NoIndex = map_value VInt32 (PR_GetInt32 api pr n)"
| "PR_get api pr UInt32 n NoIndex = map_value VUInt32 (PR_GetUInt32 api pr n)"
| "PR_get api pr Int64 n NoIndex = map_value VInt64 (PR_GetInt64 api pr n)"
| "PR_get api pr UInt64 n NoIndex = map_value VUInt64 (PR_GetUInt64 api pr n)"
| "PR_get api pr Double n NoIndex = map_value VDouble (PR_GetDouble api pr n)"
| "PR_get api pr String n NoIndex = map_value VString (PR_GetString api pr n)"
| "PR_get api pr IpAddress n NoIndex = map_value VIp (PR_GetIpAddr api pr n)"
| "PR_get api pr Int32 n (At i) = map_value VInt32 (PR_GetArrayInt32 api pr n i)"
| "PR_get api pr UInt32 n (At i) = map_value VUInt32 (PR_GetArrayUInt32 api pr n i)"
| "PR_get api pr Int64 n (At i) = map_value VInt64 (PR_GetArrayInt64 api pr n i)"
| "PR_get api pr UInt64 n (At i) = map_value VUInt64 (PR_GetArrayUInt64 api pr n i)"
| "PR_get api pr Double n (At i) = map_value VDouble (PR_GetArrayDouble api pr n i)"
| "PR_get api pr String n (At i) = map_value VString (PR_GetArrayString api pr n i)"
| "PR_get api pr IpAddress n (At i) = map_value VIp (PR_GetArrayIpAddr api pr n i)"
| "PR_get api pr Int32 n (Key k) = map_value VInt32 (PR_GetHashInt32 api pr n k)"
| "PR_get api pr UInt32 n (Key k) = map_value VUInt32 (PR_GetHashUInt32 api pr n k)"
| "PR_get api pr Int64 n (Key k) = map_value VInt64 (PR_GetHashInt64 api pr n k)"
| "PR_get api pr UInt64 n (Key k) = map_value VUInt64 (PR_GetHashUInt64 api pr n k)"
| "PR_get api pr Double n (Key k) = map_value VDouble (PR_GetHashDouble api pr n k)"
| "PR_get api pr String n (Key k) = map_value VString (PR_GetHashString api pr n k)"
| "PR_get api pr IpAddress n (Key k) = map_value VIp (PR_GetHashIpAddr api pr n k)"

fun PR_set :: "('d, 'p) perl_api \<Rightarrow> perl_resource \<Rightarrow> string \<Rightarrow> attr_index \<Rightarrow> attr_value \<Rightarrow> ('p, unit) perl_op" where
  "PR_set api pr n NoIndex (VInt32 v) = PR_SetInt32 api pr n v"
| "PR_set api pr n NoIndex (VUInt32 v) = PR_SetUInt32 api pr n v"
| "PR_set api pr n NoIndex (VInt64 v) = PR_SetInt64 api pr n v"
| "PR_set api pr n NoIndex (VUInt64 v) = PR_SetUInt64 api pr n v"
| "PR_set api pr n NoIndex (VDouble v) = PR_SetDouble api pr n v"
| "PR_set api pr n NoIndex (VString v) = PR_SetString api pr n v"
| "PR_set api pr n NoIndex (VIp v) = PR_SetIpAddr api pr n v"
| "PR_set api pr n (At i) (VInt32 v) = PR_SetArrayInt32 api pr n i v"
| "PR_set api pr n (At i) (VUInt32 v) = PR_SetArrayUInt32 api pr n i v"
| "PR_set api pr n (At i) (VInt64 v) = PR_SetArrayInt64 api pr n i v"
| "PR_set api pr n (At i) (VUInt64 v) = PR_SetArrayUInt64 api pr n i v"
| "PR_set api pr n (At i) (VDouble v) = PR_SetArrayDouble api pr n i v"
| "PR_set api pr n (At i) (VString v) = PR_SetArrayString api pr n i v"
| "PR_set api pr n (At i) (VIp v) = PR_SetArrayIpAddr api pr n i v"
| "PR_set api pr n (Key k) (VInt32 v) = PR_SetHashInt32 api pr n k v"
| "PR_set api pr n (Key k) (VUInt32 v) = PR_SetHashUInt32 api pr n k v"
| "PR_set api pr n (Key k) (VInt64 v) = PR_SetHashInt64 api pr n k v"
| "PR_set api pr n (Key k) (VUInt64 v) = PR_SetHashUInt64 api pr n k v"
| "PR_set api pr n (Key k) (VDouble v) = PR_SetHashDouble api pr n k v"
| "PR_set api pr n (Key k) (VString v) = PR_SetHashString api pr n k v"
| "PR_set api pr n (Key k) (VIp v) = PR_SetHashIpAddr api pr n k v"

fun PR_values :: "('d, 'p) perl_api \<Rightarrow> perl_resource \<Rightarrow> elem \<Rightarrow> string \<Rightarrow> ('p, attr_value list) perl_op" where
  "PR_values api pr Int32 n = map_value (map VInt32) (PR_Int32Values api pr n)"
| "PR_values api pr UInt32 n = map_value (map VUInt32) (PR_UInt32Values api pr n)"
| "PR_values api pr Int64 n = map_value (map VInt64) (PR_Int64Values api pr n)"
| "PR_values api pr UInt64 n = map_value (map VUInt64) (PR_UInt64Values api pr n)"
| "PR_values api pr Double n = map_value (map VDouble) (PR_DoubleValues api pr n)"
| "PR_values api pr String n = map_value (map VString) (PR_StringValues api pr n)"
| "PR_values api pr IpAddress n = map_value (map VIp) (PR_IpAddrValues api pr n)"

text \<open>The operations a client of a resource can ask for, and their replies.\<close>

datatype perl_request =
    GetReq elem string attr_index | SetReq string attr_index attr_value | ClearReq string | CountReq string
  | DeleteReq string string | KeysReq string | ValuesReq elem string
  | SizeReq | ToStringReq | SerializeReq | DeserializeReq bool | SkipReq | ClearAllReq | InfoReq nat

datatype perl_reply =
    RValue attr_value | RDone | RInt int | RStrings "string list" | RValues "attr_value list" | RString string | RBool bool
  | RResource perl_resource | RInfo "perl_info option" perl_resource

fun perform :: "('d, 'p) perl_api \<Rightarrow> perl_resource \<Rightarrow> perl_request \<Rightarrow> ('p, perl_reply) perl_op" where
  "perform api pr (GetReq el n i) = map_value RValue (PR_get api pr el n i)"
| "perform api pr (SetReq n i v) = map_value (\<lambda>_. RDone) (PR_set api pr n i v)"
| "perform api pr (ClearReq n) = map_value (\<lambda>_. RDone) (PR_ClearAttr api pr n)"
| "perform api pr (CountReq n) = map_value RInt (PR_Count api pr n)"
| "perform api pr (DeleteReq n k) = map_value (\<lambda>_. RDone) (PR_DeleteItem api pr n k)"
| "perform api pr (KeysReq n) = map_value RStrings (PR_Keys api pr n)"
| "perform api pr (ValuesReq el n) = map_value RValues (PR_values api pr el n)"
| "perform api pr SizeReq = map_value RInt (PerlResource_GetSize api pr)"
| "perform api pr ToStringReq = map_value RString (PerlResource_ToString api pr)"
| "perform api pr SerializeReq = map_value RBool (PerlResource_Serialize api pr)"
| "perform api pr (DeserializeReq h) = map_value RBool (PerlResource_Deserialize api pr h)"
| "perform api pr SkipReq = map_value RBool (PerlResource_Skip api pr)"
| "perform api pr ClearAllReq = map_value RResource (PerlResource_Clear api pr)"
| "perform api pr (InfoReq b) = map_value (\<lambda>(i, r). RInfo i r) (PerlResource_GetResourceInfo api b pr)"

section \<open>The lock and the context\<close>

lemma perl_ref_case_Inr:
  "(case x of ArrayRef a \<Rightarrow> f a | HashRef h \<Rightarrow> g h | OtherRef n \<Rightarrow> k n) = Inr y \<longleftrightarrow>
     (\<exists>a. x = ArrayRef a \<and> f a = Inr y) \<or> (\<exists>h. x = HashRef h \<and> g h = Inr y) \<or> (\<exists>n. x = OtherRef n \<and> k n = Inr y)"
  by (cases x) auto

lemma scalar_call_steady [steady_intros]: "steady (scalar_call api pr n args)"
  by (rule steadyI) (auto simp: scalar_call_def with_ref_def Let_def case_prod_beta run_method_hold split: option.splits)

lemma discard_call_steady [steady_intros]: "steady (discard_call api pr n args)"
  by (rule steadyI) (auto simp: discard_call_def with_ref_def run_method_hold split: option.splits)

lemma GetValue_steady [steady_intros]:
  "steady (GetValue api pr prefix n)" "steady (GetArrayValue api pr n i)" "steady (GetHashValue api pr n k)"
  by (simp_all add: GetValue_def GetArrayValue_def GetHashValue_def scalar_call_steady)

lemma SetValue_steady [steady_intros]:
  "steady (SetValue api pr n v)" "steady (SetArrayValue api pr n i v)" "steady (SetHashValue api pr n k v)"
  by (simp_all add: SetValue_def SetArrayValue_def SetHashValue_def discard_call_steady)

lemma convert_ip_steady [steady_intros]: "steady (convert_ip api s)"
proof (rule steadyI)
  fix st r st' assume "convert_ip api s st = Inr (r, st')"
  then have "st' = snd (snd (ConvertPtr api s ''IpAddr *'' st))"
    by (auto simp: convert_ip_def Let_def split: prod.splits if_splits option.splits cpp_object.splits)
  then show "same_hold st st'" by (simp add: ConvertPtr_hold)
qed

lemma ip_of_steady [steady_intros]: "steady (ip_of api res)"
  by (rule steadyI) (auto simp: ip_of_def bind_result_Inr_iff dest: steadyD [OF convert_ip_steady] split: option.splits if_splits)

lemma ip_items_steady [steady_intros]: "steady (ip_items api is s)"
proof (induction "is")
  case (Cons i "is")
  show ?case
    by (rule steadyI)
      (auto simp: bind_result_Inr_iff dest!: steadyD [OF convert_ip_steady] steadyD [OF Cons.IH] intro: same_hold_trans split: if_splits)
qed (simp add: steady_def)

lemma with_stream_steady:
  assumes "\<And>s. steady (k s)"
  shows "steady (with_stream api t k)"
proof (rule steadyI)
  fix st r st' assume w: "with_stream api t k st = Inr (r, st')"
  obtain ob st1 where p: "NewPointerObj api CppStream t st = (ob, st1)" by fastforce
  have "same_hold st st1" using NewPointerObj_hold [of st api CppStream t] by (simp add: p)
  then show "same_hold st st'" using w
    by (cases ob) (auto simp: with_stream_def p dest: steadyD [OF assms] intro: same_hold_trans)
qed

text \<open>Every operation made of one pair of brackets.\<close>

definition brackets :: "('p, 'r) perl_op \<Rightarrow> bool" where
  "brackets f \<longleftrightarrow> (\<forall>st r st'. f st = Inr (r, st') \<longrightarrow> restored st st')"

lemma brackets_with_perl: "steady body \<Longrightarrow> brackets (with_perl body)"
  by (auto simp: brackets_def dest: with_perl_restores)

lemma brackets_map_value: "brackets op \<Longrightarrow> brackets (map_value f op)"
  by (auto simp: brackets_def map_value_def bind_result_Inr_iff)

lemma steady_map_value: "steady op \<Longrightarrow> steady (map_value f op)"
  by (auto simp: steady_def map_value_def bind_result_Inr_iff)

lemma brackets_fetch: "steady get \<Longrightarrow> brackets (fetch conv get)"
  unfolding fetch_def by (rule brackets_with_perl, rule steadyI) (auto simp: bind_result_Inr_iff dest: steadyD)

lemma brackets_fetch_ip: "steady get \<Longrightarrow> brackets (fetch_ip api get)"
  unfolding fetch_ip_def by (intro brackets_with_perl steady_bind steady_intros)

lemma shift_items_steady:
  assumes "\<And>items s. steady (conv items s)"
  shows "steady (shift_items conv res)"
proof (rule steadyI)
  fix st r st' assume h: "shift_items conv res st = Inr (r, st')"
  then obtain s where s: "res = Some s" by (auto simp: shift_items_def split: option.splits)
  then obtain a where "SvRV s = Inr (ArrayRef a)" using h by (auto simp: shift_items_def bind_result_Inr_iff perl_ref_case_Inr)
  then show "same_hold st st'" using h s by (auto simp: shift_items_def same_hold_def dest!: steadyD [OF assms])
qed

lemma brackets_fetch_list: "steady get \<Longrightarrow> (\<And>items s. steady (conv items s)) \<Longrightarrow> brackets (fetch_list conv get)"
  unfolding fetch_list_def by (intro brackets_with_perl steady_bind shift_items_steady)

lemma keep_steady [steady_intros]: "steady (keep f items s)"
  by (simp add: keep_def steady_def)

lemmas PR_getter_defs =
  PR_GetLong_def PR_GetInt32_def PR_GetUInt32_def PR_GetInt64_def PR_GetUInt64_def PR_GetDouble_def PR_GetString_def PR_GetIpAddr_def
  PR_GetArrayLong_def PR_GetArrayInt32_def PR_GetArrayUInt32_def PR_GetArrayInt64_def PR_GetArrayUInt64_def PR_GetArrayDouble_def
  PR_GetArrayString_def PR_GetArrayIpAddr_def
  PR_GetHashLong_def PR_GetHashInt32_def PR_GetHashUInt32_def PR_GetHashInt64_def PR_GetHashUInt64_def PR_GetHashDouble_def
  PR_GetHashString_def PR_GetHashIpAddr_def

lemmas PR_setter_defs =
  PR_SetLong_def PR_SetInt32_def PR_SetUInt32_def PR_SetInt64_def PR_SetUInt64_def PR_SetDouble_def PR_SetString_def PR_SetIpAddr_def
  PR_SetArrayLong_def PR_SetArrayInt32_def PR_SetArrayUInt32_def PR_SetArrayInt64_def PR_SetArrayUInt64_def PR_SetArrayDouble_def
  PR_SetArrayString_def PR_SetArrayIpAddr_def
  PR_SetHashLong_def PR_SetHashInt32_def PR_SetHashUInt32_def PR_SetHashInt64_def PR_SetHashUInt64_def PR_SetHashDouble_def
  PR_SetHashString_def PR_SetHashIpAddr_def

lemmas PR_list_defs =
  PR_Int32Values_def PR_UInt32Values_def PR_Int64Values_def PR_UInt64Values_def PR_DoubleValues_def PR_StringValues_def
  PR_IpAddrValues_def

lemma brackets_get: "brackets (PR_get api pr el n i)"
  by (cases el; cases i) (simp_all add: PR_getter_defs brackets_map_value brackets_fetch brackets_fetch_ip GetValue_steady)

lemma brackets_values: "brackets (PR_values api pr el n)"
  by (cases el) (simp_all add: PR_list_defs brackets_map_value brackets_fetch_list GetValue_steady keep_steady ip_items_steady)

text \<open>Setting anything but an address.\<close>

lemma brackets_set: "elem_of v \<noteq> IpAddress \<Longrightarrow> brackets (PR_set api pr n i v)"
  by (cases v; cases i) (simp_all add: PR_setter_defs brackets_with_perl SetValue_steady)

text \<open>Setting an address keeps the lock exactly when the type of addresses is not known to the SWIG runtime.\<close>

definition ip_unknown :: "('d, 'p) perl_api \<Rightarrow> 'p perl_state \<Rightarrow> bool" where
  "ip_unknown api st \<longleftrightarrow> ps_cache st ''IpAddr *'' = None \<and> Perl_TypeQuery api ''IpAddr *'' = None"

lemma set_ip_unknown:
  "ip_unknown api st \<Longrightarrow> set_ip api v f st = Inr ((), SetContext None (Lock st))"
  by (simp add: set_ip_def ip_unknown_def NewPointerObj_def type_info_def Lock_def SetContext_def)

lemma set_ip_known:
  assumes "\<not> ip_unknown api st" and "\<And>s. steady (f s)" and "set_ip api v f st = Inr (u, st')"
  shows "restored st st'"
proof -
  obtain ob st2 where p: "NewPointerObj api (CppIpAddr v) ''IpAddr *'' (SetContext None (Lock st)) = (ob, st2)" by fastforce
  have ctx: "ps_context (Lock st) = ps_context st" by (simp add: Lock_def)
  have "ob \<noteq> None" using p assms(1)
    by (auto simp: ip_unknown_def NewPointerObj_def type_info_def Lock_def SetContext_def split: option.splits prod.splits)
  then obtain s st3 where s: "ob = Some s" and f: "f s st2 = Inr ((), st3)" and st': "st' = Unlock (SetContext (ps_context st) st3)"
    using assms(3) by (auto simp: set_ip_def p bind_result_Inr_iff GetContext_def Let_def ctx)
  have "same_hold (SetContext None (Lock st)) st3"
    using NewPointerObj_hold [of "SetContext None (Lock st)" api "CppIpAddr v" "''IpAddr *''"] steadyD [OF assms(2) f]
    by (auto simp: p intro: same_hold_trans)
  then show ?thesis
    by (auto simp: st' same_hold_def restored_def SetContext_def Lock_def Unlock_def split: option.splits)
qed

lemma PR_set_ip:
  "PR_set api pr n i (VIp a) = set_ip api a
     (case i of NoIndex \<Rightarrow> SetValue api pr (c_str n) | At j \<Rightarrow> SetArrayValue api pr (c_str n) j | Key k \<Rightarrow> SetHashValue api pr (c_str n) k)"
  by (cases i) (simp_all add: PR_setter_defs)

text \<open>What an operation leaves of the lock and the context.\<close>

definition leaves_held :: "('d, 'p) perl_api \<Rightarrow> perl_request \<Rightarrow> 'p perl_state \<Rightarrow> bool" where
  "leaves_held api q st = (case q of SetReq n i v \<Rightarrow> elem_of v = IpAddress \<and> ip_unknown api st | _ \<Rightarrow> False)"

lemma brackets_others:
  "brackets (PR_Count api pr n)" "brackets (PR_Keys api pr n)" "brackets (PerlResource_GetSize api pr)"
  "brackets (PerlResource_ToString api pr)" "brackets (PerlResource_Serialize api pr)"
  "brackets (PerlResource_Deserialize api pr h)" "brackets (PerlResource_Skip api pr)"
proof -
  show "brackets (PR_Count api pr n)" "brackets (PR_Keys api pr n)"
    by (simp_all add: PR_Count_def PR_Keys_def brackets_map_value brackets_fetch brackets_fetch_list GetValue_steady keep_steady)
  show "brackets (PerlResource_GetSize api pr)" "brackets (PerlResource_ToString api pr)"
    unfolding PerlResource_GetSize_def PerlResource_ToString_def
    by (intro brackets_with_perl steady_bind scalar_call_steady steady_return)+
  show "brackets (PerlResource_Serialize api pr)" "brackets (PerlResource_Deserialize api pr h)" "brackets (PerlResource_Skip api pr)"
    unfolding PerlResource_Serialize_def PerlResource_Deserialize_def PerlResource_Skip_def
    by (intro brackets_with_perl with_stream_steady steady_bind scalar_call_steady steady_return)+
qed

lemma brackets_Clear: "brackets (PerlResource_Clear api pr)"
  using brackets_with_perl [OF discard_call_steady, of api pr "''Clear''" "[]"]
  by (auto simp: brackets_def PerlResource_Clear_def bind_result_Inr_iff)

lemma bracketsD: "brackets f \<Longrightarrow> f st = Inr (r, st') \<Longrightarrow> restored st st'"
  by (auto simp: brackets_def)

lemmas brackets_restore = brackets_get [THEN bracketsD] brackets_values [THEN bracketsD] brackets_others [THEN bracketsD]
  brackets_Clear [THEN bracketsD]

text \<open>The description is either there or fetched in brackets.\<close>

lemma GetResourceInfo_holds:
  assumes "PerlResource_GetResourceInfo api b pr st = Inr (r, st')"
  shows "same_hold st st' \<or> restored st st'"
proof (cases "pr_info pr")
  case None
  define body where "body = (\<lambda>st0. bind_result (scalar_call api pr ''GetResourceInfo'' [] st0) (\<lambda>(res, st1).
            case res of
              None \<Rightarrow> Inr (None, st1)
            | Some s \<Rightarrow> bind_result (SvRV s) (\<lambda>r. case r of
                HashRef h \<Rightarrow> bind_result (parse_info h (ps_mem st1)) (\<lambda>(info, m). Inr (info, st1\<lparr>ps_mem := m\<rparr>))
              | _ \<Rightarrow> Inr (None, st1))))"
  have body: "steady body" unfolding body_def
    by (intro steady_bind scalar_call_steady steadyI)
      (auto simp: bind_result_Inr_iff perl_ref_case_Inr split: option.splits)
  obtain oinfo where "with_perl body st = Inr (oinfo, st')"
    using assms None unfolding PerlResource_GetResourceInfo_def body_def [symmetric] by (auto simp: bind_result_Inr_iff)
  from with_perl_restores [OF body this] show ?thesis ..
qed (use assms in \<open>auto simp: PerlResource_GetResourceInfo_def\<close>)

text \<open>
  C18: the interpreter's lock is balanced.  Whatever a client asks of a Perl resource and whatever the Perl methods do,
  an operation that returns has released the lock as often as it took it and given the thread its interpreter back
  (one that had none keeps this interpreter) -- except for setting an address while the SWIG runtime does not know the
  type \<open>IpAddr *\<close>, which always returns with the lock held and the context switched, so that no other thread can use
  any resource of the interpreter.
\<close>
theorem perl_lock_balance:
  assumes "perform api pr q st = Inr (reply, st')"
  shows "if leaves_held api q st then ps_depth st' = Suc (ps_depth st) \<and> ps_context st' = Some (ps_my st)
     else ps_depth st' = ps_depth st \<and> (ps_context st \<noteq> None \<longrightarrow> ps_context st' = ps_context st)"
proof -
  have restored: "restored st st' \<or> same_hold st st'" if "\<not> leaves_held api q st"
  proof (cases q)
    case (SetReq n i v)
    show ?thesis
    proof (cases "elem_of v = IpAddress")
      case True
      then obtain a where "v = VIp a" by (cases v) auto
      then show ?thesis using assms that SetReq True
        by (cases i) (auto simp: PR_set_ip leaves_held_def map_value_def bind_result_Inr_iff intro: set_ip_known SetValue_steady)
    qed (use assms SetReq brackets_set [of v api pr n i] in \<open>auto simp: map_value_def bind_result_Inr_iff brackets_def\<close>)
  next
    case (ClearReq n)
    then show ?thesis using assms
      by (auto simp: PR_ClearAttr_def map_value_def bind_result_Inr_iff dest!: steadyD [OF discard_call_steady])
  next
    case (DeleteReq n k)
    then show ?thesis using assms
      by (auto simp: PR_DeleteItem_def map_value_def bind_result_Inr_iff with_ref_def run_method_hold split: option.splits)
  next
    case (InfoReq b)
    then show ?thesis using assms by (auto simp: map_value_def bind_result_Inr_iff dest: GetResourceInfo_holds)
  qed (use assms in \<open>auto simp: map_value_def bind_result_Inr_iff dest: brackets_restore\<close>)
  show ?thesis
  proof (cases "leaves_held api q st")
    case True
    then obtain n i a where "q = SetReq n i (VIp a)" "ip_unknown api st"
      by (cases q) (auto simp: leaves_held_def elim: elem_of.elims)
    then show ?thesis using True assms
      by (auto simp: PR_set_ip set_ip_unknown map_value_def SetContext_def Lock_def)
  next
    case False
    with restored show ?thesis by (auto simp: restored_def same_hold_def split: option.splits)
  qed
qed

section \<open>The contract of an attribute written in Perl\<close>

lemma ps_mem_brackets [simp]:
  "ps_mem (Lock st) = ps_mem st" "ps_mem (Unlock st) = ps_mem st" "ps_mem (SetContext c st) = ps_mem st"
  by (simp_all add: Lock_def Unlock_def SetContext_def split: option.split)

text \<open>Values of the C++ types, and what is left of them after a Perl scalar.\<close>

fun storable :: "attr_value \<Rightarrow> bool" where
  "storable (VInt32 i) = fits 32 i"
| "storable (VUInt32 i) = (0 \<le> i \<and> i < 2 ^ 32)"
| "storable (VInt64 i) = fits 64 i"
| "storable (VUInt64 i) = (0 \<le> i \<and> i < 2 ^ 64)"
| "storable v = True"

fun stored :: "attr_value \<Rightarrow> attr_value" where
  "stored (VString s) = VString (c_str s)"
| "stored v = v"

lemma c_str_c_str [simp]: "c_str (c_str s) = c_str s"
  by (simp add: c_str_def takeWhile_idem)

lemma c_str_id: "CHR 0x00 \<notin> set s \<Longrightarrow> c_str s = s"
  by (auto simp: c_str_def takeWhile_eq_all_conv)

lemma wrap_signed_fits:
  assumes "0 < w" "fits w i"
  shows "wrap_signed w i = i"
proof -
  obtain k where w: "w = Suc k" using assms(1) by (cases w) auto
  have "0 \<le> i + 2 ^ k" "i + 2 ^ k < 2 ^ Suc k" using assms(2) by (auto simp: fits_def w)
  then show ?thesis by (simp add: wrap_signed_def w)
qed

lemma wrap_unsigned_signed:
  assumes "0 \<le> i" "i < 2 ^ 64"
  shows "wrap_unsigned 64 (wrap_signed 64 i) = i"
proof -
  have "wrap_unsigned 64 (wrap_signed 64 i) = (i + 2 ^ 63 - 2 ^ 63) mod 2 ^ 64"
    unfolding wrap_unsigned_def wrap_signed_def by (simp add: mod_diff_left_eq)
  then show ?thesis using assms by simp
qed

text \<open>
  What an attribute \<open>name\<close> of a Perl class promises: in a good memory the methods \<open>Set_name\<close> and \<open>Get_name\<close> do not fail, the
  getter returns what the setter was given last, and both keep the memory good.
\<close>

locale perl_attribute =
  fixes api :: "('d, 'p) perl_api" and pr :: perl_resource and ref :: sv and name :: string
    and ok :: "'p perl_mem \<Rightarrow> bool" and val :: "'p perl_mem \<Rightarrow> sv"
  assumes ref: "pr_ref pr = Some ref"
    and put: "ok m \<Longrightarrow> \<exists>res m'. call_method api (snprintf 100 (''Set_'' @ c_str name)) [ref, v] m = (None, res, m') \<and>
        ok m' \<and> val m' = v"
    and get: "ok m \<Longrightarrow> \<exists>m'. call_method api (snprintf 100 (''Get_'' @ c_str name)) [ref] m = (None, [val m], m') \<and>
        ok m' \<and> val m' = val m"
begin

lemma raw_put:
  assumes "ok (ps_mem st)"
  shows "\<exists>m'. SetValue api pr (c_str name) v st = Inr ((), st\<lparr>ps_mem := m'\<rparr>) \<and> ok m' \<and> val m' = v"
proof -
  from put [OF assms, of v] obtain res m'
    where "call_method api (snprintf 100 (''Set_'' @ c_str name)) [ref, v] (ps_mem st) = (None, res, m')" "ok m'" "val m' = v" by blast
  then show ?thesis by (auto simp: SetValue_def discard_call_def with_ref_def ref run_method_def)
qed

lemma raw_get:
  assumes "ok (ps_mem st)"
  shows "\<exists>m'. GetValue api pr ''Get'' (c_str name) st = Inr (Some (val (ps_mem st)), st\<lparr>ps_mem := m'\<rparr>) \<and> ok m' \<and> val m' = val (ps_mem st)"
proof -
  from get [OF assms] obtain m'
    where "call_method api (snprintf 100 (''Get_'' @ c_str name)) [ref] (ps_mem st) = (None, [val (ps_mem st)], m')"
      "ok m'" "val m' = val (ps_mem st)" by blast
  then show ?thesis by (auto simp: GetValue_def scalar_call_def with_ref_def ref run_method_def)
qed

lemma set_scalar:
  assumes "ok (ps_mem st)"
  shows "\<exists>st'. with_perl (SetValue api pr (c_str name) v) st = Inr ((), st') \<and> ok (ps_mem st') \<and> val (ps_mem st') = v"
proof -
  from raw_put [of "SetContext None (Lock st)" v] assms obtain m'
    where "SetValue api pr (c_str name) v (SetContext None (Lock st)) = Inr ((), (SetContext None (Lock st))\<lparr>ps_mem := m'\<rparr>)" "ok m'" "val m' = v"
    by auto
  then show ?thesis by (simp add: with_perl_def Let_def)
qed

lemma get_scalar:
  assumes "ok (ps_mem st)"
  shows "\<exists>st'. fetch conv (GetValue api pr ''Get'' (c_str name)) st = bind_result (conv (Some (val (ps_mem st)))) (\<lambda>r. Inr (r, st')) \<and>
     ok (ps_mem st') \<and> val (ps_mem st') = val (ps_mem st)"
proof -
  from raw_get [of "SetContext None (Lock st)"] assms obtain m'
    where "GetValue api pr ''Get'' (c_str name) (SetContext None (Lock st)) =
        Inr (Some (val (ps_mem st)), (SetContext None (Lock st))\<lparr>ps_mem := m'\<rparr>)" "ok m'" "val m' = val (ps_mem st)"
    by auto
  then show ?thesis
    by (cases "conv (Some (val (ps_mem st)))")
      (auto simp: fetch_def with_perl_def Let_def intro!: exI [of _ "Unlock (SetContext (GetContext (Lock st)) ((SetContext None (Lock st))\<lparr>ps_mem := m'\<rparr>))"])
qed

lemma set_then_get:
  assumes "ok (ps_mem st)"
  shows "\<exists>st' st''. with_perl (SetValue api pr (c_str name) v) st = Inr ((), st') \<and>
     fetch conv (GetValue api pr ''Get'' (c_str name)) st' = bind_result (conv (Some v)) (\<lambda>r. Inr (r, st'')) \<and>
     ok (ps_mem st'') \<and> val (ps_mem st'') = v"
  using set_scalar [OF assms, of v] get_scalar [of _ conv] by metis

text \<open>Every value that fits its C++ type is read back, a string up to its first null character.\<close>

lemma read_back:
  assumes "ok (ps_mem st)" "storable v" "elem_of v \<noteq> IpAddress"
  shows "\<exists>st' st''. PR_set api pr name NoIndex v st = Inr ((), st') \<and>
     PR_get api pr (elem_of v) name NoIndex st' = Inr (stored v, st'') \<and> ok (ps_mem st'')"
proof (cases v)
  case (VString s)
  then show ?thesis using set_then_get [OF assms(1), of "newSVpv (c_str s)" string_of]
    by (fastforce simp: PR_setter_defs PR_getter_defs map_value_def string_of_def newSVpv_def)
next
  case (VDouble d)
  then show ?thesis using set_then_get [OF assms(1), of "newSVnv d" double_of]
    by (fastforce simp: PR_setter_defs PR_getter_defs map_value_def double_of_def newSVnv_def)
next
  case (VInt32 i)
  then show ?thesis using assms(2) set_then_get [OF assms(1), of "newSViv i" long_of]
    by (fastforce simp: PR_setter_defs PR_getter_defs map_value_def long_of_def newSViv_def wrap_signed_fits)
next
  case (VUInt32 i)
  then show ?thesis using assms(2) set_then_get [OF assms(1), of "newSViv i" long_of]
    by (fastforce simp: PR_setter_defs PR_getter_defs map_value_def long_of_def newSViv_def wrap_unsigned_def)
next
  case (VInt64 i)
  then show ?thesis using assms(2) set_then_get [OF assms(1), of "newSViv i" long_of]
    by (fastforce simp: PR_setter_defs PR_getter_defs map_value_def long_of_def newSViv_def wrap_signed_fits)
next
  case (VUInt64 i)
  then show ?thesis using assms(2) set_then_get [OF assms(1), of "newSViv (wrap_signed 64 i)" long_of]
    by (fastforce simp: PR_setter_defs PR_getter_defs map_value_def long_of_def newSViv_def wrap_unsigned_signed)
qed (use assms in simp)

text \<open>An address is never read back: the scalar SWIG makes is a reference, without an integer, and the getter asks for one.\<close>

lemma address_lost:
  assumes "NewPointerObj api (CppIpAddr a) ''IpAddr *'' (SetContext None (Lock st)) = (Some s, st1)" and "sv_iv s = None"
    and "ok (ps_mem st1)"
  shows "\<exists>st' st''. PR_set api pr name NoIndex (VIp a) st = Inr ((), st') \<and>
     PR_get api pr IpAddress name NoIndex st' = Inr (VIp IpAddr_new, st'') \<and> ok (ps_mem st'')"
proof -
  obtain m1 where p: "SetValue api pr (c_str name) s st1 = Inr ((), st1\<lparr>ps_mem := m1\<rparr>)" "ok m1" "val m1 = s"
    using raw_put [OF assms(3), of s] by blast
  define st' where "st' = Unlock (SetContext (GetContext (Lock st)) (st1\<lparr>ps_mem := m1\<rparr>))"
  have mem: "ps_mem st' = m1" by (simp add: st'_def)
  obtain m2 where "GetValue api pr ''Get'' (c_str name) (SetContext None (Lock st')) = Inr (Some s, (SetContext None (Lock st'))\<lparr>ps_mem := m2\<rparr>)" "ok m2"
    using raw_get [of "SetContext None (Lock st')"] p(2,3) by (auto simp: mem)
  then show ?thesis using assms(1,2) p(1)
    by (simp add: PR_setter_defs PR_getter_defs set_ip_def Let_def fetch_ip_def with_perl_def ip_of_def map_value_def flip: st'_def)
qed

end

section \<open>A concrete use\<close>

definition plain_api :: "nat option \<Rightarrow> (unit, unit) perl_api" where
  "plain_api t = \<lparr>call_method = (\<lambda>n args m. (None, [newSViv 1], m)), eval_pv = (\<lambda>c m. (None, m)), get_av = (\<lambda>n m. None),
     Perl_TypeQuery = (\<lambda>n. t), Perl_NewPointerObj = (\<lambda>ob i m. (newRV (OtherRef 0), m)), Perl_ConvertPtr = (\<lambda>s i m. (- 1, None, m))\<rparr>"

definition plain_state :: "unit perl_state" where
  "plain_state = \<lparr>ps_depth = 0, ps_context = Some 7, ps_my = 9, ps_cache = Map.empty,
     ps_mem = \<lparr>pm_arrays = (\<lambda>_. []), pm_hashes = (\<lambda>_. Map.empty), pm_scalars = Map.empty, pm_next = 0, pm_rest = ()\<rparr>\<rparr>"

theorem perl_lock_balance_witness:
  "\<exists>reply st'. perform (plain_api None) ((PerlResource_new 1 ''R'' 0)\<lparr>pr_ref := Some (newRV (HashRef 0))\<rparr>) (SetReq ''ip'' NoIndex (VIp IpAddr_new)) plain_state
     = Inr (reply, st') \<and> ps_depth st' = 1 \<and> ps_context st' = Some 9"
proof -
  let ?pr = "(PerlResource_new 1 ''R'' 0)\<lparr>pr_ref := Some (newRV (HashRef 0))\<rparr>" and ?q = "SetReq ''ip'' NoIndex (VIp IpAddr_new)"
  have u: "ip_unknown (plain_api None) plain_state" by (simp add: ip_unknown_def plain_api_def plain_state_def)
  then have p: "perform (plain_api None) ?pr ?q plain_state = Inr (RDone, SetContext None (Lock plain_state))"
    by (simp add: PR_set_ip set_ip_unknown map_value_def)
  have "leaves_held (plain_api None) ?q plain_state" using u by (simp add: leaves_held_def)
  then show ?thesis using perl_lock_balance [OF p] p by (simp add: plain_state_def)
qed

end
