(* ===== verification/TestPerlResource.thy ===== *)
theory TestPerlResource
  imports PerlResource
begin

text \<open>
  The Perl class \<^verbatim>\<open>src/lib/processing_engine/resource/perl/TestPerlResource.pm\<close> (on \<^verbatim>\<open>Resource.pm\<close>) under the C++ class
  \<^verbatim>\<open>PerlResource\<close>: its methods are translated as functions on the interpreter's memory, where the object and its attributes
  are hashes, and put together with the operations of theory \<open>PerlResource\<close>.  Arguments are: the order in which \<^verbatim>\<open>keys\<close> lists
  a hash, the string \<^verbatim>\<open>freeze\<close> makes, the string a reference is converted to, what \<^verbatim>\<open>thaw\<close> does to the object, and the
  status of the C++ resource.
\<close>

section \<open>The class\<close>

record perl_lib =
  key_order :: "string list"
  freeze :: "unit perl_mem \<Rightarrow> string"
  ref_string :: "sv \<Rightarrow> string"
  thaw_into :: "sv \<Rightarrow> unit perl_mem \<Rightarrow> string option \<times> sv list \<times> unit perl_mem"
  shown_status :: "unit perl_mem \<Rightarrow> int"

definition newHV :: "(string \<rightharpoonup> sv) \<Rightarrow> 'p perl_mem \<Rightarrow> nat \<times> 'p perl_mem" where
  "newHV h m = (pm_next m, m\<lparr>pm_hashes := (pm_hashes m)(pm_next m := h), pm_next := Suc (pm_next m)\<rparr>)"

definition hv_store :: "nat \<Rightarrow> string \<Rightarrow> sv \<Rightarrow> 'p perl_mem \<Rightarrow> 'p perl_mem" where
  "hv_store h k v m = m\<lparr>pm_hashes := (pm_hashes m)(h := (pm_hashes m h)(k \<mapsto> v))\<rparr>"

text \<open>The address of the hash \<open>$self->{key}\<close> refers to.\<close>

definition field :: "nat \<Rightarrow> string \<Rightarrow> 'p perl_mem \<Rightarrow> nat option" where
  "field self key m = (case pm_hashes m self key of None \<Rightarrow> None | Some s \<Rightarrow> (case sv_rv s of Some (HashRef h) \<Rightarrow> Some h | _ \<Rightarrow> None))"

text \<open>\<open>new\<close>: the object has the members \<open>_resource\<close> and \<open>_id\<close> and the attributes \<open>a\<close>, \<open>b\<close> and \<open>c\<close>, each with a type and a value.\<close>

definition TestPerl_new :: "sv \<Rightarrow> int \<Rightarrow> unit perl_mem \<Rightarrow> sv \<times> unit perl_mem" where
  "TestPerl_new resource i m =
     (let (self, m) = newHV [''_resource'' \<mapsto> resource, ''_id'' \<mapsto> newSViv i] m;
          (a, m) = newHV [''type'' \<mapsto> newSVpv ''STRING'', ''value'' \<mapsto> newSVpv []] m;
          m = hv_store self ''a'' (newRV (HashRef a)) m;
          (bv, m) = newHV Map.empty m;
          (b, m) = newHV [''type'' \<mapsto> newSVpv ''HASH_INT32'', ''value'' \<mapsto> newRV (HashRef bv)] m;
          m = hv_store self ''b'' (newRV (HashRef b)) m;
          (cv, m) = newAV m;
          (c, m) = newHV [''type'' \<mapsto> newSVpv ''ARRAY_STRING'', ''value'' \<mapsto> newRV (ArrayRef cv)] m;
          m = hv_store self ''c'' (newRV (HashRef c)) m
      in (newRV (HashRef self), m))"

definition TestPerl_Clear :: "nat \<Rightarrow> unit perl_mem \<Rightarrow> unit perl_mem" where
  "TestPerl_Clear self m =
     (case (field self ''a'' m, field self ''b'' m, field self ''c'' m) of
        (Some a, Some b, Some c) \<Rightarrow>
          (let m = hv_store a ''value'' (newSVpv []) m;
               (bv, m) = newHV Map.empty m; m = hv_store b ''value'' (newRV (HashRef bv)) m;
               (cv, m) = newAV m
           in hv_store c ''value'' (newRV (ArrayRef cv)) m)
      | _ \<Rightarrow> m)"

text \<open>\<open>$self->{key}->{'type'}\<close>\<close>

definition type_scalar :: "nat \<Rightarrow> string \<Rightarrow> unit perl_mem \<Rightarrow> sv" where
  "type_scalar self k m =
     (case field self k m of None \<Rightarrow> sv_undef | Some h \<Rightarrow> (case pm_hashes m h ''type'' of None \<Rightarrow> sv_undef | Some t \<Rightarrow> t))"

text \<open>The list of pairs \<open>[name, type]\<close>, for the keys that do not start with an underscore.\<close>

fun TestPerl_attrs :: "nat \<Rightarrow> string list \<Rightarrow> nat \<Rightarrow> unit perl_mem \<Rightarrow> unit perl_mem" where
  "TestPerl_attrs self [] a m = m"
| "TestPerl_attrs self (k # ks) a m =
     (if take 1 k = ''_'' then TestPerl_attrs self ks a m
      else let (pair, m1) = newAV m;
               m2 = av_push pair (newSVpv k) m1;
               m3 = av_push pair (type_scalar self k m2) m2
           in TestPerl_attrs self ks a (av_push a (newRV (ArrayRef pair)) m3))"

definition TestPerl_info :: "perl_lib \<Rightarrow> nat \<Rightarrow> unit perl_mem \<Rightarrow> sv \<times> unit perl_mem" where
  "TestPerl_info lib self m =
     (let (a, m) = newAV m;
          m = TestPerl_attrs self (key_order lib) a m;
          (info, m) = newHV [''typeId'' \<mapsto> newSViv 4, ''typeString'' \<mapsto> newSVpv ''TestPerlResource'',
             ''typeStringTerse'' \<mapsto> newSVpv ''TPerlR'', ''attrInfoList'' \<mapsto> newRV (ArrayRef a)] m
      in (newRV (HashRef info), m))"

definition TestPerl_ToString :: "perl_lib \<Rightarrow> nat \<Rightarrow> unit perl_mem \<Rightarrow> string" where
  "TestPerl_ToString lib self m =
     ''[TPerlR '' @ (case Option.bind (pm_hashes m self ''_id'') sv_iv of None \<Rightarrow> ''0'' | Some i \<Rightarrow> show_int i) @ '' '' @
     show_int (shown_status lib m) @ ''] ''"

text \<open>A method that neither the class nor \<open>Resource\<close> has is an error, as is a call on something that is not an object.\<close>

definition TestPerl_call :: "perl_lib \<Rightarrow> string \<Rightarrow> sv list \<Rightarrow> unit perl_mem \<Rightarrow> string option \<times> sv list \<times> unit perl_mem" where
  "TestPerl_call lib name args m =
     (case args of
        [] \<Rightarrow> (Some ''no object'', [], m)
      | ref # rest \<Rightarrow>
          (case sv_rv ref of
             Some (HashRef self) \<Rightarrow>
               (if name = ''Clear'' then (None, [], TestPerl_Clear self m)
                else if name = ''Serialize'' then (None, [newSVpv (freeze lib m)], m)
                else if name = ''Deserialize'' then
                  (case rest of
                     [] \<Rightarrow> (None, [newSViv 0], m)
                   | data # _ \<Rightarrow> if CHR 0x0A \<notin> set (ref_string lib data) then (None, [newSViv 0], m) else thaw_into lib data m)
                else if name = ''GetSize'' then (None, [newSViv 1], m)
                else if name = ''GetResourceInfo'' then (let (s, m1) = TestPerl_info lib self m in (None, [s], m1))
                else if name = ''ToString'' then (None, [newSVpv (TestPerl_ToString lib self m)], m)
                else if name = ''Get_a'' then
                  (case field self ''a'' m of
                     None \<Rightarrow> (Some ''not a HASH reference'', [], m)
                   | Some a \<Rightarrow> (None, [case pm_hashes m a ''value'' of None \<Rightarrow> sv_undef | Some v \<Rightarrow> v], m))
                else if name = ''Set_a'' then
                  (case field self ''a'' m of
                     None \<Rightarrow> (Some ''not a HASH reference'', [], m)
                   | Some a \<Rightarrow> (let v = (case rest of [] \<Rightarrow> sv_undef | x # _ \<Rightarrow> x) in (None, [v], hv_store a ''value'' v m)))
                else (Some (''Can't locate object method \"'' @ name @ ''\"''), [], m))
           | _ \<Rightarrow> (Some ''Can't call method on an unblessed value'', [], m)))"

text \<open>
  The three programs \<^verbatim>\<open>PerlResource\<close> evaluates: loading of the class, creation of an object (the id is read from the text)
  and assignment of \<open>undef\<close>.
\<close>

definition TestPerl_eval :: "string \<Rightarrow> unit perl_mem \<Rightarrow> string option \<times> unit perl_mem" where
  "TestPerl_eval code m =
     (if code = ''use TestPerlResource;'' then (None, m)
      else if take 23 code = ''use TestPerlResource; $'' then
        (let var = takeWhile (\<lambda>c. c \<noteq> CHR 0x20) (drop 23 code);
             i = read_int (drop (length '' = TestPerlResource->new($_object, '') (drop (length var) (drop 23 code)));
             (s, m1) = TestPerl_new (case pm_scalars m ''_object'' of None \<Rightarrow> sv_undef | Some x \<Rightarrow> x) i m
         in (None, sv_setsv var s m1))
      else if take 1 code = ''$'' then (None, sv_setsv (takeWhile (\<lambda>c. c \<noteq> CHR 0x20) (drop 1 code)) sv_undef m)
      else (Some ''syntax error'', m))"

text \<open>The interpreter with this class: \<^verbatim>\<open>@TestPerlResource::ISA\<close> is the array at address 0; the SWIG runtime is an argument.\<close>

record 'd swig =
  type_query :: "string \<Rightarrow> nat option"
  new_pointer_obj :: "'d cpp_object \<Rightarrow> nat \<Rightarrow> unit perl_mem \<Rightarrow> sv \<times> unit perl_mem"
  convert_ptr :: "sv \<Rightarrow> nat \<Rightarrow> unit perl_mem \<Rightarrow> int \<times> 'd cpp_object option \<times> unit perl_mem"

definition TestPerl_api :: "perl_lib \<Rightarrow> 'd swig \<Rightarrow> ('d, unit) perl_api" where
  "TestPerl_api lib swig =
     \<lparr>call_method = TestPerl_call lib, eval_pv = TestPerl_eval,
      get_av = (\<lambda>n m. if n = ''TestPerlResource::ISA'' then Some 0 else None),
      Perl_TypeQuery = type_query swig, Perl_NewPointerObj = new_pointer_obj swig, Perl_ConvertPtr = convert_ptr swig\<rparr>"

definition TestPerl_start :: "unit perl_mem" where
  "TestPerl_start = \<lparr>pm_arrays = (\<lambda>_. [])(0 := [newSVpv ''Resource'']), pm_hashes = (\<lambda>_. Map.empty), pm_scalars = Map.empty,
     pm_next = 1, pm_rest = ()\<rparr>"

section \<open>Objects of the class\<close>

text \<open>The object at \<open>self\<close> is as \<open>new\<close> left it, up to the values: three different hashes below the allocation pointer.\<close>

definition TestPerl_object :: "nat \<Rightarrow> unit perl_mem \<Rightarrow> bool" where
  "TestPerl_object self m \<longleftrightarrow>
     (\<exists>a b c. field self ''a'' m = Some a \<and> field self ''b'' m = Some b \<and> field self ''c'' m = Some c \<and>
        distinct [self, a, b, c] \<and> self < pm_next m \<and> a < pm_next m \<and> b < pm_next m \<and> c < pm_next m \<and>
        pm_hashes m a ''type'' = Some (newSVpv ''STRING'') \<and> pm_hashes m b ''type'' = Some (newSVpv ''HASH_INT32'') \<and>
        pm_hashes m c ''type'' = Some (newSVpv ''ARRAY_STRING''))"

definition TestPerl_value :: "nat \<Rightarrow> unit perl_mem \<Rightarrow> sv" where
  "TestPerl_value self m =
     (case field self ''a'' m of None \<Rightarrow> sv_undef | Some a \<Rightarrow> (case pm_hashes m a ''value'' of None \<Rightarrow> sv_undef | Some v \<Rightarrow> v))"

lemma fresh_alloc [simp]:
  "pm_arrays (snd (newHV h m)) = pm_arrays m" "pm_scalars (snd (newHV h m)) = pm_scalars m" "pm_next (snd (newHV h m)) = Suc (pm_next m)"
  "pm_hashes (snd (newHV h m)) = (pm_hashes m)(pm_next m := h)" "fst (newHV h m) = pm_next m"
  "pm_hashes (snd (newAV m)) = pm_hashes m" "pm_scalars (snd (newAV m)) = pm_scalars m" "pm_next (snd (newAV m)) = Suc (pm_next m)"
  "pm_arrays (snd (newAV m)) = (pm_arrays m)(pm_next m := [])" "fst (newAV m) = pm_next m"
  by (simp_all add: newHV_def newAV_def)

lemma hv_store_simps [simp]:
  "pm_arrays (hv_store h k v m) = pm_arrays m" "pm_scalars (hv_store h k v m) = pm_scalars m" "pm_next (hv_store h k v m) = pm_next m"
  "pm_hashes (hv_store h k v m) = (pm_hashes m)(h := (pm_hashes m h)(k \<mapsto> v))"
  by (simp_all add: hv_store_def)

lemma newRV_simps [simp]: "sv_rv (newRV r) = Some r" "sv_iv (newRV r) = None" "sv_pv (newRV r) = None" "sv_nv (newRV r) = None" "SvOK (newRV r)"
  by (simp_all add: newRV_def SvOK_def sv_undef_def)

lemma TestPerl_setsv [simp]:
  "TestPerl_object self (sv_setsv v x m) = TestPerl_object self m" "TestPerl_value self (sv_setsv v x m) = TestPerl_value self m"
  by (simp_all add: sv_setsv_def TestPerl_object_def TestPerl_value_def field_def cong: option.case_cong)

lemma TestPerl_new_object:
  "TestPerl_new r i m = (s, m') \<Longrightarrow> s = newRV (HashRef (pm_next m)) \<and> TestPerl_object (pm_next m) m' \<and>
     TestPerl_value (pm_next m) m' = newSVpv []"
  by (auto simp: TestPerl_new_def Let_def case_prod_beta TestPerl_object_def TestPerl_value_def field_def)

lemma TestPerl_set_a:
  assumes "TestPerl_object self m"
  shows "\<exists>m'. TestPerl_call lib ''Set_a'' [newRV (HashRef self), v] m = (None, [v], m') \<and> TestPerl_object self m' \<and> TestPerl_value self m' = v"
proof -
  from assms obtain a b c where o: "field self ''a'' m = Some a" "field self ''b'' m = Some b" "field self ''c'' m = Some c"
    "distinct [self, a, b, c]" "self < pm_next m" "a < pm_next m" "b < pm_next m" "c < pm_next m"
    "pm_hashes m a ''type'' = Some (newSVpv ''STRING'')" "pm_hashes m b ''type'' = Some (newSVpv ''HASH_INT32'')"
    "pm_hashes m c ''type'' = Some (newSVpv ''ARRAY_STRING'')" by (auto simp: TestPerl_object_def)
  define m' where "m' = hv_store a ''value'' v m"
  have f: "field self k m' = field self k m" for k using o(4) by (simp add: m'_def field_def)
  have "TestPerl_object self m'" unfolding TestPerl_object_def
    by (rule exI [of _ a], rule exI [of _ b], rule exI [of _ c]) (use o in \<open>simp add: f, simp add: m'_def\<close>)
  moreover have "TestPerl_value self m' = v" by (simp add: TestPerl_value_def f o(1)) (simp add: m'_def)
  moreover have "TestPerl_call lib ''Set_a'' [newRV (HashRef self), v] m = (None, [v], m')"
    by (simp add: TestPerl_call_def o(1) m'_def)
  ultimately show ?thesis by blast
qed

lemma TestPerl_get_a:
  assumes "TestPerl_object self m"
  shows "TestPerl_call lib ''Get_a'' [newRV (HashRef self)] m = (None, [TestPerl_value self m], m)"
  using assms by (auto simp: TestPerl_call_def TestPerl_object_def TestPerl_value_def)

lemma TestPerl_api_simps [simp]:
  "call_method (TestPerl_api lib swig) = TestPerl_call lib" "eval_pv (TestPerl_api lib swig) = TestPerl_eval"
  "get_av (TestPerl_api lib swig) n m = (if n = ''TestPerlResource::ISA'' then Some 0 else None)"
  "Perl_TypeQuery (TestPerl_api lib swig) = type_query swig" "Perl_NewPointerObj (TestPerl_api lib swig) = new_pointer_obj swig"
  by (simp_all add: TestPerl_api_def)

text \<open>The attribute \<open>a\<close> keeps the contract of theory \<open>PerlResource\<close>.\<close>

interpretation test_perl: perl_attribute "TestPerl_api lib swig" "pr\<lparr>pr_ref := Some (newRV (HashRef self))\<rparr>" "newRV (HashRef self)" "''a''"
    "TestPerl_object self" "TestPerl_value self"
proof
  fix m v assume "TestPerl_object self m"
  from TestPerl_set_a [OF this, of lib v]
  show "\<exists>res m'. call_method (TestPerl_api lib swig) (snprintf 100 (''Set_'' @ c_str ''a'')) [newRV (HashRef self), v] m = (None, res, m') \<and>
      TestPerl_object self m' \<and> TestPerl_value self m' = v"
    by (auto simp: c_str_def snprintf_def)
qed (simp_all add: c_str_def snprintf_def TestPerl_get_a)

section \<open>Creation through the interpreter\<close>

text \<open>What SWIG keeps of the memory when it makes a scalar for a pointer: everything that was allocated before.\<close>

definition swig_keeps :: "'d swig \<Rightarrow> bool" where
  "swig_keeps swig \<longleftrightarrow> (\<forall>ob t m. pm_next m \<le> pm_next (snd (new_pointer_obj swig ob t m)) \<and>
     (\<forall>x<pm_next m. pm_arrays (snd (new_pointer_obj swig ob t m)) x = pm_arrays m x \<and>
        pm_hashes (snd (new_pointer_obj swig ob t m)) x = pm_hashes m x))"

lemma NewPointerObj_keeps:
  assumes "swig_keeps swig" and "NewPointerObj (TestPerl_api lib swig) ob t st = (s, st')"
  shows "pm_next (ps_mem st) \<le> pm_next (ps_mem st') \<and>
    (\<forall>x<pm_next (ps_mem st). pm_arrays (ps_mem st') x = pm_arrays (ps_mem st) x \<and> pm_hashes (ps_mem st') x = pm_hashes (ps_mem st) x)"
proof (cases "type_info (TestPerl_api lib swig) t st")
  case (Pair info st1)
  have mem: "ps_mem st1 = ps_mem st" using Pair by (auto simp: type_info_def split: option.splits)
  show ?thesis
  proof (cases info)
    case (Some i)
    then have "ps_mem st' = snd (new_pointer_obj swig ob i (ps_mem st))" using assms(2)
      by (auto simp: NewPointerObj_def Pair mem Let_def split: prod.splits)
    then show ?thesis using assms(1) by (simp add: swig_keeps_def)
  qed (use assms(2) mem in \<open>simp add: NewPointerObj_def Pair\<close>)
qed

text \<open>A state in which the class can be loaded.\<close>

definition TestPerl_ready :: "unit perl_state \<Rightarrow> bool" where
  "TestPerl_ready st \<longleftrightarrow> 0 < pm_next (ps_mem st) \<and> pm_arrays (ps_mem st) 0 = [newSVpv ''Resource'']"

lemma eval_new:
  assumes "CHR 0x20 \<notin> set var"
  shows "\<exists>i. TestPerl_eval (''use TestPerlResource; $'' @ var @ '' = TestPerlResource->new($_object, '' @ rest) m =
     (let (s, m1) = TestPerl_new (case pm_scalars m ''_object'' of None \<Rightarrow> sv_undef | Some x \<Rightarrow> x) i m in (None, sv_setsv var s m1))"
proof -
  have "takeWhile (\<lambda>c. c \<noteq> CHR 0x20) (var @ '' = TestPerlResource->new($_object, '' @ rest) = var"
    using assms by (subst takeWhile_append2) auto
  then show ?thesis by (simp add: TestPerl_eval_def Let_def) blast
qed

lemma TestPerl_Init:
  assumes "swig_keeps swig" and "TestPerl_ready st" and "0 \<le> i" "i < 2 ^ 31"
  shows "\<exists>self st'. PerlResource_Init (TestPerl_api lib swig) (PerlResource_new i ''TestPerlResource.pm'' blk) st =
      Inr ((True, (PerlResource_new i ''TestPerlResource.pm'' blk)\<lparr>pr_ref := Some (newRV (HashRef self))\<rparr>), st') \<and>
    TestPerl_object self (ps_mem st') \<and> TestPerl_value self (ps_mem st') = newSVpv []"
proof -
  let ?pr = "PerlResource_new i ''TestPerlResource.pm'' blk" and ?api = "TestPerl_api lib swig"
  have name: "pr_name ?pr = ''TestPerlResource''" "pr_id ?pr = i" by (simp_all add: PerlResource_new_def c_str_def)
  define st0 where "st0 = SetContext None (Lock st)"
  have mem0: "ps_mem st0 = ps_mem st" by (simp add: st0_def)
  have check: "Init_check ?api ?pr st0 = Inr (True, st0)"
    using assms(2) by (simp add: Init_check_def run_eval_def name snprintf_def TestPerl_eval_def mem0 TestPerl_ready_def is_resource_def newSVpv_def c_str_def)
  obtain ob st1 where ob: "NewPointerObj ?api CppThis ''Resource *'' st0 = (ob, st1)" by fastforce
  define var where "var = resource_var ?pr"
  have len: "length (show_int i) \<le> 10" "CHR 0x20 \<notin> set (show_int i)" using show_id [OF assms(3,4)] by auto
  have var: "var = ''_resource'' @ show_int i" "CHR 0x20 \<notin> set var" using len
    by (simp_all add: var_def resource_var_def name snprintf_def)
  define m2 where "m2 = sv_setsv ''_object'' (case ob of None \<Rightarrow> sv_undef | Some s \<Rightarrow> s) (ps_mem st1)"
  define code where "code = ''use TestPerlResource; $'' @ var @ '' = TestPerlResource->new($_object, '' @ show_int i @ '');''"
  have code: "create_code ?pr = code" using len by (simp add: create_code_def name snprintf_def code_def flip: var_def) (simp add: var)
  obtain k s m3 where new: "TestPerl_new (case pm_scalars m2 ''_object'' of None \<Rightarrow> sv_undef | Some x \<Rightarrow> x) k m2 = (s, m3)"
    and ev: "TestPerl_eval code m2 = (None, sv_setsv var s m3)"
    using eval_new [OF var(2), of "show_int i @ '');''" m2] by (fastforce simp: code_def Let_def split: prod.splits)
  have s: "s = newRV (HashRef (pm_next m2))" "TestPerl_object (pm_next m2) m3" "TestPerl_value (pm_next m2) m3 = newSVpv []"
    using TestPerl_new_object [OF new] by auto
  have create: "Init_create ?api ?pr st0 = Inr (Some s, st1\<lparr>ps_mem := sv_setsv var s m3\<rparr>)"
    using ev by (simp add: Init_create_def ob run_eval_def code Let_def flip: var_def m2_def) (simp add: sv_setsv_def)
  show ?thesis using check create s
    by (auto simp: PerlResource_Init_def with_perl_def Let_def simp flip: st0_def)
qed

section \<open>The description of the class\<close>

lemma av_push_simps [simp]:
  "pm_hashes (av_push a v m) = pm_hashes m" "pm_next (av_push a v m) = pm_next m"
  "pm_arrays (av_push a v m) = (pm_arrays m)(a := pm_arrays m a @ [v])"
  by (simp_all add: av_push_def)

lemma type_scalar_cong: "pm_hashes m = pm_hashes m' \<Longrightarrow> type_scalar self k m = type_scalar self k m'"
  by (simp add: type_scalar_def field_def cong: option.case_cong)

abbreviation listed :: "string list \<Rightarrow> string list" where
  "listed ks \<equiv> filter (\<lambda>k. take 1 k \<noteq> ''_'') ks"

lemma TestPerl_attrs_items:
  fixes self :: nat and ks :: "string list"
  assumes "a < pm_next m"
  defines "m' \<equiv> TestPerl_attrs self ks a m" and "n \<equiv> length (listed ks)"
  shows "pm_hashes m' = pm_hashes m \<and> pm_next m' = pm_next m + n \<and>
    pm_arrays m' a = pm_arrays m a @ map (\<lambda>p. newRV (ArrayRef p)) [pm_next m..<pm_next m + n] \<and>
    (\<forall>j<n. pm_arrays m' (pm_next m + j) = [newSVpv (listed ks ! j), type_scalar self (listed ks ! j) m]) \<and>
    (\<forall>x<pm_next m. x \<noteq> a \<longrightarrow> pm_arrays m' x = pm_arrays m x)"
  using assms(1) unfolding m'_def n_def
proof (induction ks arbitrary: m)
  case (Cons k ks)
  show ?case
  proof (cases "take 1 k = ''_''")
    case False
    define m1 where "m1 = snd (newAV m)"
    define m2 where "m2 = av_push (pm_next m) (newSVpv k) m1"
    define m3 where "m3 = av_push (pm_next m) (type_scalar self k m) m2"
    define m4 where "m4 = av_push a (newRV (ArrayRef (pm_next m))) m3"
    have ts: "type_scalar self k m2 = type_scalar self k m"
      by (rule type_scalar_cong) (simp add: m2_def m1_def)
    have step: "TestPerl_attrs self (k # ks) a m = TestPerl_attrs self ks a m4"
      using False by (simp add: Let_def case_prod_beta m4_def m3_def flip: m1_def) (simp add: ts flip: m2_def)
    have m4: "pm_hashes m4 = pm_hashes m" "pm_next m4 = Suc (pm_next m)" "pm_arrays m4 a = pm_arrays m a @ [newRV (ArrayRef (pm_next m))]"
      "pm_arrays m4 (pm_next m) = [newSVpv k, type_scalar self k m]" "\<forall>x<pm_next m. x \<noteq> a \<longrightarrow> pm_arrays m4 x = pm_arrays m x"
      using Cons.prems by (auto simp: m4_def m3_def m2_def m1_def)
    have ts4: "type_scalar self q m4 = type_scalar self q m" for q by (rule type_scalar_cong) (rule m4(1))
    note IH = Cons.IH [of m4, unfolded m4(2), OF less_SucI [OF Cons.prems]]
    have items: "pm_arrays (TestPerl_attrs self ks a m4) (pm_next m + j) = [newSVpv (listed (k # ks) ! j), type_scalar self (listed (k # ks) ! j) m]"
      if "j < length (listed (k # ks))" for j
    proof (cases j)
      case 0
      then show ?thesis using IH Cons.prems m4(4) False by auto
    next
      case (Suc i)
      then have "i < length (listed ks)" using that False by simp
      then show ?thesis using IH Suc False by (auto simp: ts4)
    qed
    have n: "length (listed (k # ks)) = Suc (length (listed ks))" using False by simp
    have upt: "[pm_next m..<pm_next m + length (listed (k # ks))] = pm_next m # [Suc (pm_next m)..<Suc (pm_next m) + length (listed ks)]"
      unfolding n by (simp add: upt_conv_Cons del: upt_Suc)
    show ?thesis unfolding step upt
      using IH m4 Cons.prems items n by (intro conjI) (simp_all del: upt_Suc filter.simps)
  qed (use Cons in \<open>auto\<close>)
qed simp

lemma pop_pair:
  assumes "pm_arrays m p = [x, y]"
  shows "av_pop p m = (y, m\<lparr>pm_arrays := (pm_arrays m)(p := [x])\<rparr>)"
    "av_pop p (m\<lparr>pm_arrays := (pm_arrays m)(p := [x])\<rparr>) = (x, m\<lparr>pm_arrays := (pm_arrays m)(p := [])\<rparr>)"
  using assms by (simp_all add: av_pop_def)

text \<open>The loop of \<open>GetResourceInfo\<close> on an array of references to different pairs.\<close>

lemma attr_loop_pairs:
  assumes "pm_arrays m a = map (\<lambda>p. newRV (ArrayRef p)) ps" and "distinct ps" and "a \<notin> set ps"
    and "list_all2 (\<lambda>p (k, t). pm_arrays m p = [newSVpv k, newSVpv t] \<and> attr_kind (c_str t) \<noteq> None) ps kts"
  shows "\<exists>m'. attr_loop typeId a m acc = Inr ((False, acc @ map (\<lambda>(k, t). \<lparr>pa_name = c_str k,
     pa_shape = fst (the (attr_kind (c_str t))), pa_elem = snd (the (attr_kind (c_str t))), pa_typeId = typeId\<rparr>) kts), m')"
  using assms
proof (induction ps arbitrary: m kts acc)
  case Nil
  then show ?case by (subst attr_loop.simps) auto
next
  case (Cons p ps)
  from Cons.prems(4) obtain k t rest where kts: "kts = (k, t) # rest"
    and p: "pm_arrays m p = [newSVpv k, newSVpv t]" and kind: "attr_kind (c_str t) \<noteq> None"
    and rest: "list_all2 (\<lambda>p (k, t). pm_arrays m p = [newSVpv k, newSVpv t] \<and> attr_kind (c_str t) \<noteq> None) ps rest"
    by (auto simp: list_all2_Cons1)
  obtain sh el where "attr_kind (c_str t) = Some (sh, el)" using kind by fastforce
  define m1 where "m1 = m\<lparr>pm_arrays := (pm_arrays m)(a := map (\<lambda>p. newRV (ArrayRef p)) ps)\<rparr>"
  define m2 where "m2 = m1\<lparr>pm_arrays := (pm_arrays m1)(p := [])\<rparr>"
  have p1: "pm_arrays m1 p = [newSVpv k, newSVpv t]" using p Cons.prems(3) by (simp add: m1_def)
  have item: "attr_item typeId (newRV (ArrayRef p)) m1 = Inr (Some \<lparr>pa_name = c_str k, pa_shape = sh, pa_elem = el, pa_typeId = typeId\<rparr>, m2)"
    using pop_pair [OF p1] \<open>attr_kind (c_str t) = Some (sh, el)\<close>
    by (simp add: attr_item_def SvRV_def newSVpv_def m2_def del: attr_kind.simps)
  have "pm_arrays m2 a = map (\<lambda>p. newRV (ArrayRef p)) ps" using Cons.prems(3) by (simp add: m2_def m1_def)
  moreover have "list_all2 (\<lambda>p (k, t). pm_arrays m2 p = [newSVpv k, newSVpv t] \<and> attr_kind (c_str t) \<noteq> None) ps rest"
    using rest by (rule list.rel_mono_strong) (use Cons.prems(2,3) in \<open>auto simp: m2_def m1_def simp del: attr_kind.simps\<close>)
  ultimately show ?case
    using Cons.IH [of m2 rest "acc @ [\<lparr>pa_name = c_str k, pa_shape = sh, pa_elem = el, pa_typeId = typeId\<rparr>]"] Cons.prems
      \<open>attr_kind (c_str t) = Some (sh, el)\<close>
    by (subst attr_loop.simps) (simp add: item kts flip: m1_def del: attr_kind.simps)
qed

text \<open>The attributes the class declares.\<close>

definition TestPerl_attr :: "string \<Rightarrow> perl_attr" where
  "TestPerl_attr k =
     \<lparr>pa_name = k, pa_shape = (if k = ''a'' then Scalar else if k = ''b'' then Hash else Array),
      pa_elem = (if k = ''b'' then Int32 else String), pa_typeId = 4\<rparr>"

definition TestPerl_type :: "string \<Rightarrow> string" where
  "TestPerl_type k = (if k = ''a'' then ''STRING'' else if k = ''b'' then ''HASH_INT32'' else ''ARRAY_STRING'')"

lemma TestPerl_info_parsed:
  assumes ob: "TestPerl_object self m" and keys: "set (listed (key_order lib)) \<subseteq> {''a'', ''b'', ''c''}"
    and info: "TestPerl_info lib self m = (s, m1)"
  shows "\<exists>h m2. s = newRV (HashRef h) \<and> parse_info h m1 = Inr (Some \<lparr>pi_typeId = 4, pi_typeString = ''TestPerlResource'',
     pi_typeStringTerse = ''TPerlR'', pi_objectName = ''PerlResource'', pi_attrs = map TestPerl_attr (listed (key_order lib))\<rparr>, m2)"
proof -
  define ks where "ks = listed (key_order lib)"
  define m0 where "m0 = snd (newAV m)"
  define a where "a = pm_next m"
  define m' where "m' = TestPerl_attrs self (key_order lib) a m0"
  have a0: "a < pm_next m0" "pm_arrays m0 a = []" "pm_next m0 = Suc a" by (simp_all add: a_def m0_def)
  note items = TestPerl_attrs_items [OF a0(1), of self "key_order lib", folded ks_def m'_def, unfolded a0]
  have type: "type_scalar self k m0 = newSVpv (TestPerl_type k)" if "k \<in> set ks" for k
    using that keys ob type_scalar_cong [of m0 m self k]
    by (fastforce simp: ks_def m0_def TestPerl_object_def type_scalar_def TestPerl_type_def)
  have kinds: "attr_kind (c_str (TestPerl_type k)) \<noteq> None" "c_str k = k" if "k \<in> set ks" for k
    using that keys by (auto simp: ks_def TestPerl_type_def c_str_def)
  have s: "s = newRV (HashRef (pm_next m'))" and m1: "pm_arrays m1 = pm_arrays m'" "pm_hashes m1 (pm_next m') =
      [''typeId'' \<mapsto> newSViv 4, ''typeString'' \<mapsto> newSVpv ''TestPerlResource'', ''typeStringTerse'' \<mapsto> newSVpv ''TPerlR'',
       ''attrInfoList'' \<mapsto> newRV (ArrayRef a)]"
    using info by (auto simp: TestPerl_info_def Let_def case_prod_beta m'_def a_def m0_def)
  have "list_all2 (\<lambda>p (k, t). pm_arrays m1 p = [newSVpv k, newSVpv t] \<and> attr_kind (c_str t) \<noteq> None)
      [Suc a..<Suc a + length ks] (map (\<lambda>k. (k, TestPerl_type k)) ks)"
    unfolding list_all2_conv_all_nth using items type kinds by (auto simp: m1 simp del: attr_kind.simps upt_Suc)
  then obtain m2 where loop: "attr_loop 4 a m1 [] = Inr ((False, map ((\<lambda>(k, t). \<lparr>pa_name = c_str k,
       pa_shape = fst (the (attr_kind (c_str t))), pa_elem = snd (the (attr_kind (c_str t))), pa_typeId = 4\<rparr>) \<circ> (\<lambda>k. (k, TestPerl_type k))) ks), m2)"
    using attr_loop_pairs [of m1 a "[Suc a..<Suc a + length ks]" "map (\<lambda>k. (k, TestPerl_type k)) ks" 4 "[]"] items
    by (auto simp: m1 simp del: attr_kind.simps upt_Suc)
  have "map ((\<lambda>(k, t). \<lparr>pa_name = c_str k, pa_shape = fst (the (attr_kind (c_str t))), pa_elem = snd (the (attr_kind (c_str t))),
      pa_typeId = 4\<rparr>) \<circ> (\<lambda>k. (k, TestPerl_type k))) ks = map TestPerl_attr ks"
    using keys by (auto simp: ks_def TestPerl_type_def TestPerl_attr_def c_str_def)
  then show ?thesis using loop
    by (auto simp: s parse_info_def hv_fetch_def m1 newSViv_def newSVpv_def SvRV_def wrap_signed_def c_str_def ks_def simp del: attr_kind.simps)
qed

section \<open>Properties\<close>

text \<open>
  C38: a resource of the class \<open>TestPerlResource\<close> from its creation on.  \<open>Init\<close> succeeds in every interpreter that can load the
  class, for every id; then every value of every C++ type except addresses that is set as attribute \<open>a\<close> is read back, a
  string up to its first null character, through C++, the Perl stack and the Perl object.
\<close>
theorem TestPerl_round_trip:
  assumes "swig_keeps swig" and "TestPerl_ready st" and "0 \<le> i" and "i < 2 ^ 31"
    and "storable v" and "elem_of v \<noteq> IpAddress"
  shows "\<exists>pr st1 st2 st3.
    PerlResource_Init (TestPerl_api lib swig) (PerlResource_new i ''TestPerlResource.pm'' blk) st = Inr ((True, pr), st1) \<and>
    PR_set (TestPerl_api lib swig) pr ''a'' NoIndex v st1 = Inr ((), st2) \<and>
    PR_get (TestPerl_api lib swig) pr (elem_of v) ''a'' NoIndex st2 = Inr (stored v, st3)"
proof -
  obtain self st1 where init: "PerlResource_Init (TestPerl_api lib swig) (PerlResource_new i ''TestPerlResource.pm'' blk) st =
      Inr ((True, (PerlResource_new i ''TestPerlResource.pm'' blk)\<lparr>pr_ref := Some (newRV (HashRef self))\<rparr>), st1)"
    and ob: "TestPerl_object self (ps_mem st1)"
    using TestPerl_Init [OF assms(1-4)] by blast
  from test_perl.read_back [OF ob assms(5,6)] init show ?thesis by blast
qed

definition sample_swig :: "unit swig" where
  "sample_swig = \<lparr>type_query = (\<lambda>_. Some 1), new_pointer_obj = (\<lambda>ob t m. (newRV (OtherRef 0), m)), convert_ptr = (\<lambda>s t m. (- 1, None, m))\<rparr>"

definition sample_lib :: perl_lib where
  "sample_lib = \<lparr>key_order = [''c'', ''_id'', ''a'', ''_resource'', ''b''], freeze = (\<lambda>m. ''frozen''), ref_string = (\<lambda>s. ''REF(0x1)''),
     thaw_into = (\<lambda>s m. (None, [newSViv 1], m)), shown_status = (\<lambda>m. 0)\<rparr>"

definition sample_interp :: "unit perl_state" where
  "sample_interp = \<lparr>ps_depth = 0, ps_context = Some 7, ps_my = 9, ps_cache = Map.empty, ps_mem = TestPerl_start\<rparr>"

lemma sample_ready [simp]: "TestPerl_ready sample_interp" "swig_keeps sample_swig"
  by (simp_all add: TestPerl_ready_def sample_interp_def TestPerl_start_def swig_keeps_def sample_swig_def)

theorem TestPerl_round_trip_witness:
  "\<exists>pr st1 st2 st3.
    PerlResource_Init (TestPerl_api sample_lib sample_swig) (PerlResource_new 17 ''TestPerlResource.pm'' 0) sample_interp = Inr ((True, pr), st1) \<and>
    PR_set (TestPerl_api sample_lib sample_swig) pr ''a'' NoIndex (VUInt64 18446744073709551615) st1 = Inr ((), st2) \<and>
    PR_get (TestPerl_api sample_lib sample_swig) pr UInt64 ''a'' NoIndex st2 = Inr (VUInt64 18446744073709551615, st3)"
  using TestPerl_round_trip [of sample_swig sample_interp 17 "VUInt64 18446744073709551615" sample_lib 0] by simp

text \<open>
  A copy has the same reference: what is done to it is done to the original.
\<close>

lemma Clone_accesses:
  "PR_set api (PerlResource_Clone k pr) n i v = PR_set api pr n i v" "PR_get api (PerlResource_Clone k pr) el n i = PR_get api pr el n i"
proof -
  have c: "scalar_call api (PerlResource_Clone k pr) = scalar_call api pr" "discard_call api (PerlResource_Clone k pr) = discard_call api pr"
    by (simp_all add: fun_eq_iff scalar_call_def discard_call_def with_ref_def PerlResource_Clone_def)
  show "PR_set api (PerlResource_Clone k pr) n i v = PR_set api pr n i v"
    by (cases v; cases i) (simp_all add: PR_setter_defs SetValue_def [abs_def] SetArrayValue_def [abs_def] SetHashValue_def [abs_def] c)
  show "PR_get api (PerlResource_Clone k pr) el n i = PR_get api pr el n i"
    by (cases el; cases i) (simp_all add: PR_getter_defs GetValue_def GetArrayValue_def GetHashValue_def c)
qed

text \<open>
  A clone of a Perl resource is no copy.  A value set in the clone is what the original returns afterwards, since both
  refer to one Perl object, and when the original and its clone have both been deleted the memory of the name has been
  freed twice.
\<close>
theorem TestPerl_clone_aliases:
  assumes "swig_keeps swig" and "TestPerl_ready st" and "0 \<le> i" and "i < 2 ^ 31"
    and "storable v" and "elem_of v \<noteq> IpAddress"
  shows "\<exists>pr st1 st2 st3.
    PerlResource_Init (TestPerl_api lib swig) (PerlResource_new i ''TestPerlResource.pm'' blk) st = Inr ((True, pr), st1) \<and>
    PR_set (TestPerl_api lib swig) (PerlResource_Clone k pr) ''a'' NoIndex v st1 = Inr ((), st2) \<and>
    PR_get (TestPerl_api lib swig) pr (elem_of v) ''a'' NoIndex st2 = Inr (stored v, st3) \<and>
    bind_result (PerlResource_delete (TestPerl_api lib swig) pr {} st3)
      (\<lambda>(freed, st4). PerlResource_delete (TestPerl_api lib swig) (PerlResource_Clone k pr) freed st4) = Inl UseAfterFree"
proof -
  obtain self st1 where init: "PerlResource_Init (TestPerl_api lib swig) (PerlResource_new i ''TestPerlResource.pm'' blk) st =
      Inr ((True, (PerlResource_new i ''TestPerlResource.pm'' blk)\<lparr>pr_ref := Some (newRV (HashRef self))\<rparr>), st1)"
    and ob: "TestPerl_object self (ps_mem st1)"
    using TestPerl_Init [OF assms(1-4)] by blast
  define pr where "pr = (PerlResource_new i ''TestPerlResource.pm'' blk)\<lparr>pr_ref := Some (newRV (HashRef self))\<rparr>"
  have "pr_info pr = None" "pr_name_block pr = blk" by (simp_all add: pr_def PerlResource_new_def Let_def)
  then have "bind_result (PerlResource_delete (TestPerl_api lib swig) pr {} st3)
      (\<lambda>(freed, st4). PerlResource_delete (TestPerl_api lib swig) (PerlResource_Clone k pr) freed st4) = Inl UseAfterFree" for st3
    by (simp add: PerlResource_delete_def with_perl_def Let_def free_block_def PerlResource_Clone_def)
  then show ?thesis using test_perl.read_back [OF ob assms(5,6)] init
    by (metis (no_types, lifting) Clone_accesses(1) pr_def)
qed

theorem TestPerl_clone_aliases_witness:
  "\<exists>pr st1 st2 st3.
    PerlResource_Init (TestPerl_api sample_lib sample_swig) (PerlResource_new 17 ''TestPerlResource.pm'' 0) sample_interp = Inr ((True, pr), st1) \<and>
    PR_set (TestPerl_api sample_lib sample_swig) (PerlResource_Clone 18 pr) ''a'' NoIndex (VString ''changed'') st1 = Inr ((), st2) \<and>
    PR_get (TestPerl_api sample_lib sample_swig) pr String ''a'' NoIndex st2 = Inr (VString ''changed'', st3) \<and>
    bind_result (PerlResource_delete (TestPerl_api sample_lib sample_swig) pr {} st3)
      (\<lambda>(freed, st4). PerlResource_delete (TestPerl_api sample_lib sample_swig) (PerlResource_Clone 18 pr) freed st4) = Inl UseAfterFree"
  using TestPerl_clone_aliases [of sample_swig sample_interp 17 "VString ''changed''" sample_lib 0 18] by (simp add: c_str_def)

lemma no_method:
  assumes "name \<notin> {''Clear'', ''Serialize'', ''Deserialize'', ''GetSize'', ''GetResourceInfo'', ''ToString'', ''Get_a'', ''Set_a''}"
    and "pr_ref pr = Some (newRV (HashRef self))"
  shows "scalar_call (TestPerl_api lib swig) pr name args st = Inr (None, st\<lparr>ps_mem := ps_mem st\<rparr>)"
  using assms by (simp add: scalar_call_def with_ref_def run_method_def TestPerl_call_def)

lemma fetch_none: "get (SetContext None (Lock st)) = Inr (None, st') \<Longrightarrow> conv None = Inl e \<Longrightarrow> fetch conv get st = Inl e"
  by (simp add: fetch_def with_perl_def Let_def)

lemma fetch_list_none: "get (SetContext None (Lock st)) = Inr (None, st') \<Longrightarrow> fetch_list conv get st = Inl NullDeref"
  by (simp add: fetch_list_def with_perl_def Let_def shift_items_def)

text \<open>
  The class declares three attributes, of which only \<open>a\<close> has methods.  The description C++ builds lists them all, with
  their types, in the order of \<^verbatim>\<open>keys\<close>; reading an element of \<open>b\<close> or \<open>c\<close>, counting them or listing keys or values of any
  attribute dereferences a null pointer, and \<open>Serialize\<close> and \<open>Skip\<close> always report failure: the class returns a string where
  C++ expects an integer, and has no \<open>Skip\<close>.
\<close>
theorem TestPerl_declared_unreadable:
  fixes swig :: "'d swig"
  assumes "TestPerl_object self (ps_mem st)" and "set (listed (key_order lib)) \<subseteq> {''a'', ''b'', ''c''}" and "pr_info pr = None"
  defines "pr1 \<equiv> pr\<lparr>pr_ref := Some (newRV (HashRef self))\<rparr>" and "api \<equiv> TestPerl_api lib swig"
  shows "(\<exists>pr2 st2. PerlResource_GetResourceInfo api blk pr1 st = Inr ((Some \<lparr>pi_typeId = 4, pi_typeString = ''TestPerlResource'',
       pi_typeStringTerse = ''TPerlR'', pi_objectName = ''PerlResource'', pi_attrs = map TestPerl_attr (listed (key_order lib))\<rparr>, pr2), st2)) \<and>
    PR_get api pr1 Int32 ''b'' (Key k) st = Inl NullDeref \<and> PR_get api pr1 String ''c'' (At i) st = Inl NullDeref \<and>
    PR_Count api pr1 n st = Inl NullDeref \<and> PR_Keys api pr1 n st = Inl NullDeref \<and> PR_values api pr1 el n st = Inl NullDeref \<and>
    (\<forall>b st2. PerlResource_Serialize api pr1 st = Inr (b, st2) \<or> PerlResource_Skip api pr1 st = Inr (b, st2) \<longrightarrow> \<not> b)"
proof -
  have ref: "pr_ref pr1 = Some (newRV (HashRef self))" "pr_info pr1 = None" by (simp_all add: pr1_def assms(3))
  have absent: "scalar_call api pr1 name args st' = Inr (None, st'\<lparr>ps_mem := ps_mem st'\<rparr>)"
    if "name \<notin> {''Clear'', ''Serialize'', ''Deserialize'', ''GetSize'', ''GetResourceInfo'', ''ToString'', ''Get_a'', ''Set_a''}" for name args st'
    unfolding api_def by (rule no_method [OF that ref(1)])
  have b: "PR_get api pr1 Int32 ''b'' (Key k) st = Inl NullDeref"
    by (simp add: PR_getter_defs map_value_def)
      (subst fetch_none [of _ _ "SetContext None (Lock st)\<lparr>ps_mem := ps_mem (SetContext None (Lock st))\<rparr>"],
        simp_all add: GetHashValue_def absent c_str_def snprintf_def long_of_def)
  have c: "PR_get api pr1 String ''c'' (At i) st = Inl NullDeref"
    by (simp add: PR_getter_defs map_value_def)
      (subst fetch_none [of _ _ "SetContext None (Lock st)\<lparr>ps_mem := ps_mem (SetContext None (Lock st))\<rparr>"],
        simp_all add: GetArrayValue_def absent c_str_def snprintf_def string_of_def)
  have count: "PR_Count api pr1 n st = Inl NullDeref"
    unfolding PR_Count_def map_value_def
    by (subst fetch_none [of _ _ "SetContext None (Lock st)\<lparr>ps_mem := ps_mem (SetContext None (Lock st))\<rparr>"])
      (simp_all add: GetValue_def absent snprintf_def long_of_def)
  have list: "fetch_list conv (GetValue api pr1 p n') st = Inl NullDeref"
    if "p = ''GetKeys%s'' \<or> p = ''GetValues%s''" for conv :: "sv list \<Rightarrow> sv \<Rightarrow> (unit, 'r list) perl_op" and p n'
    by (rule fetch_list_none) (use that in \<open>auto simp: GetValue_def absent snprintf_def\<close>)
  have keys: "PR_Keys api pr1 n st = Inl NullDeref" by (simp add: PR_Keys_def list)
  have vals: "PR_values api pr1 el n st = Inl NullDeref" by (cases el) (simp_all add: PR_list_defs map_value_def list)
  have ser: "\<not> r" if "PerlResource_Serialize api pr1 st = Inr (r, st2) \<or> PerlResource_Skip api pr1 st = Inr (r, st2)" for r st2
    using that ref(1)
    by (auto simp: PerlResource_Serialize_def PerlResource_Skip_def with_perl_def Let_def with_stream_def bind_result_Inr_iff absent
        scalar_call_def with_ref_def run_method_def api_def TestPerl_call_def truth_result_def newSVpv_def sv_undef_def split: prod.splits option.splits)
  have info: "\<exists>pr2 st2. PerlResource_GetResourceInfo api blk pr1 st = Inr ((Some \<lparr>pi_typeId = 4, pi_typeString = ''TestPerlResource'',
       pi_typeStringTerse = ''TPerlR'', pi_objectName = ''PerlResource'', pi_attrs = map TestPerl_attr (listed (key_order lib))\<rparr>, pr2), st2)"
  proof -
    obtain s m1 where i: "TestPerl_info lib self (ps_mem st) = (s, m1)" by fastforce
    from TestPerl_info_parsed [OF assms(1,2) i] obtain h m2 where "s = newRV (HashRef h)" "parse_info h m1 = Inr (Some \<lparr>pi_typeId = 4,
       pi_typeString = ''TestPerlResource'', pi_typeStringTerse = ''TPerlR'', pi_objectName = ''PerlResource'',
       pi_attrs = map TestPerl_attr (listed (key_order lib))\<rparr>, m2)" by blast
    then show ?thesis using ref i
      by (simp add: PerlResource_GetResourceInfo_def with_perl_def Let_def scalar_call_def with_ref_def run_method_def api_def TestPerl_call_def SvRV_def)
  qed
  show ?thesis using b c count keys vals ser info by blast
qed

theorem TestPerl_declared_unreadable_witness:
  "PR_get (TestPerl_api sample_lib sample_swig) ((PerlResource_new 3 ''TestPerlResource.pm'' 0)\<lparr>pr_ref := Some (newRV (HashRef 1))\<rparr>)
     Int32 ''b'' (Key ''x'') (sample_interp\<lparr>ps_mem := snd (TestPerl_new sv_undef 3 TestPerl_start)\<rparr>) = Inl NullDeref \<and>
   set (listed (key_order sample_lib)) \<subseteq> {''a'', ''b'', ''c''}"
proof -
  have "TestPerl_object 1 (snd (TestPerl_new sv_undef 3 TestPerl_start))"
    using TestPerl_new_object [of sv_undef 3 TestPerl_start] by (cases "TestPerl_new sv_undef 3 TestPerl_start") (auto simp: TestPerl_start_def)
  moreover have "set (listed (key_order sample_lib)) \<subseteq> {''a'', ''b'', ''c''}" by (simp add: sample_lib_def)
  ultimately show ?thesis
    using TestPerl_declared_unreadable [of 1 "sample_interp\<lparr>ps_mem := snd (TestPerl_new sv_undef 3 TestPerl_start)\<rparr>" sample_lib
        "PerlResource_new 3 ''TestPerlResource.pm'' 0" sample_swig 0 "''x''" 0 "[]" Int32]
    by (simp add: PerlResource_new_def Let_def)
qed

end
