(* ===== verification/PerlModule.thy ===== *)
theory PerlModule
  imports PerlApi Modules
begin

text \<open>
  Modules written in Perl (\<^verbatim>\<open>src/lib/processing_engine/PerlModule.h\<close>, \<^verbatim>\<open>PerlModule.cc\<close>): a module with an interpreter of its own
  whose functions call methods of a Perl object.  Resources are handed over as SWIG pointers that Perl owns; what the
  methods return is taken back.  \<open>GetObjectName\<close> of a resource is an argument.  At the end the classes
  \<^verbatim>\<open>module/perl/Module.pm\<close>, \<^verbatim>\<open>TestSimple.pm\<close> and \<^verbatim>\<open>TestMulti.pm\<close> are translated and run inside a processor.  Log messages
  are left out; \<open>ObjectLockWrite\<close> makes every function one step.
\<close>

section \<open>The object\<close>

record 'p perl_module =
  pmo_id :: string
  pmo_threadIndex :: int
  pmo_name :: string
  pmo_ref :: "sv option"
  pmo_perl :: "'p perl_state"

type_synonym ('d, 'p) named_api = "('d resource \<Rightarrow> string) \<times> ('d, 'p) perl_api"

text \<open>The name up to its last dot.\<close>

definition strip_extension :: "string \<Rightarrow> string" where
  "strip_extension name =
     (if CHR 0x2E \<in> set name then butlast (rev (dropWhile (\<lambda>c. c \<noteq> CHR 0x2E) (rev name))) else name)"

definition PerlModule_new :: "string \<Rightarrow> int \<Rightarrow> string \<Rightarrow> 'p perl_state \<Rightarrow> 'p perl_module" where
  "PerlModule_new i threadIndex name interp =
     \<lparr>pmo_id = i, pmo_threadIndex = threadIndex, pmo_name = strip_extension (c_str name), pmo_ref = None, pmo_perl = interp\<rparr>"

definition set_perl :: "'p perl_state \<Rightarrow> 'p perl_module \<Rightarrow> 'p perl_module" where
  "set_perl st m = m\<lparr>pmo_perl := st\<rparr>"

text \<open>Every function starts with \<^verbatim>\<open>SetContext\<close> and pushes the object, which is null before \<open>Init\<close> has created it.\<close>

definition with_object :: "'p perl_module \<Rightarrow> (sv \<Rightarrow> 'p perl_state \<Rightarrow> failure + 'r) \<Rightarrow> failure + 'r" where
  "with_object m k = (case pmo_ref m of None \<Rightarrow> Inl NullDeref | Some r \<Rightarrow> k r (SetContext None (pmo_perl m)))"

definition discard_method :: "('d, 'p) perl_api \<Rightarrow> string \<Rightarrow> sv list \<Rightarrow> 'p perl_module \<Rightarrow> failure + 'p perl_module" where
  "discard_method api name args m =
     with_object m (\<lambda>ref st. Inr (set_perl (snd (snd (run_method api name (ref # args) st))) m))"

text \<open>One result, or nothing after an error or with another number of results.\<close>

definition scalar_method :: "('d, 'p) perl_api \<Rightarrow> string \<Rightarrow> sv list \<Rightarrow> sv \<Rightarrow> 'p perl_state \<Rightarrow> sv option \<times> 'p perl_state" where
  "scalar_method api name args ref st =
     (let (err, res, st1) = run_method api name (ref # args) st
      in (if err \<noteq> None then None else if length res \<noteq> 1 then None else Some (last res), st1))"

definition PerlModule_delete :: "('d, 'p) perl_api \<Rightarrow> 'p perl_module \<Rightarrow> failure + 'p perl_module" where
  "PerlModule_delete api m = discard_method api ''Finish'' [] m"

section \<open>Initialisation\<close>

text \<open>The table of parameters as an array of references to arrays of two strings.\<close>

fun param_rows :: "(string \<times> string) list \<Rightarrow> nat \<Rightarrow> 'p perl_mem \<Rightarrow> 'p perl_mem" where
  "param_rows [] table m = m"
| "param_rows ((k, v) # ps) table m =
     (let (row, m1) = newAV m; m2 = av_push row (newSVpv (c_str k)) m1; m3 = av_push row (newSVpv (c_str v)) m2
      in param_rows ps table (av_push table (newRV (ArrayRef row)) m3))"

definition module_code :: "'p perl_module \<Rightarrow> string" where
  "module_code m = snprintf 1024 (''use '' @ pmo_name m @ ''; $_module = '' @ pmo_name m @ ''->new($_object, '' @ [CHR 0x27] @
     pmo_id m @ [CHR 0x27] @ '', '' @ show_int (pmo_threadIndex m) @ '');'')"

text \<open>The first stage: \<open>started\<close> says whether \<^verbatim>\<open>EmbeddedPerl::Init\<close> succeeded.  The result is the object, if it was created.\<close>

definition PerlModule_create :: "('d, 'p) perl_api \<Rightarrow> bool \<Rightarrow> 'p perl_module \<Rightarrow> failure + bool \<times> 'p perl_module" where
  "PerlModule_create api started m =
     (let st0 = SetContext None (pmo_perl m)
      in if \<not> started then Inr (False, set_perl st0 m)
         else let (ob, st1) = NewPointerObj api CppThis ''Object *'' st0;
                  st2 = st1\<lparr>ps_mem := sv_setsv ''_object'' (case ob of None \<Rightarrow> sv_undef | Some s \<Rightarrow> s) (ps_mem st1)\<rparr>;
                  (err, st3) = run_eval api (module_code m) st2
              in if err \<noteq> None then Inr (False, set_perl st3 m)
                 else case pm_scalars (ps_mem st3) ''_module'' of
                        None \<Rightarrow> Inl NullDeref
                      | Some s \<Rightarrow> Inr (SvOK s, (set_perl st3 m)\<lparr>pmo_ref := Some s\<rparr>))"

definition truth_of :: "sv option \<Rightarrow> bool" where
  "truth_of res = (case res of None \<Rightarrow> False | Some s \<Rightarrow> (case sv_iv s of None \<Rightarrow> False | Some i \<Rightarrow> i \<noteq> 0))"

definition call_Init :: "('d, 'p) perl_api \<Rightarrow> sv \<Rightarrow> 'p perl_module \<Rightarrow> failure + bool \<times> 'p perl_module" where
  "call_Init api arg m = with_object m (\<lambda>ref st.
     let (res, st1) = scalar_method api ''Init'' [arg] ref st in Inr (truth_of res, set_perl st1 m))"

definition PerlModule_Init ::
  "('d, 'p) perl_api \<Rightarrow> bool \<Rightarrow> (string \<times> string) list option \<Rightarrow> 'p perl_module \<Rightarrow> failure + bool \<times> 'p perl_module" where
  "PerlModule_Init api started params m =
     (case params of
        None \<Rightarrow> call_Init api sv_undef m
      | Some ps \<Rightarrow>
          bind_result (PerlModule_create api started m) (\<lambda>(ok, m1).
            if \<not> ok then Inr (False, m1)
            else let (table, mem) = newAV (ps_mem (pmo_perl m1));
                     m2 = set_perl ((pmo_perl m1)\<lparr>ps_mem := param_rows ps table mem\<rparr>) m1
                 in call_Init api (newRV (ArrayRef table)) m2))"

text \<open>A result of \<open>GetType\<close> that is no integer leaves \<open>INVALID\<close>; a number outside of the enumeration, on which the switch statements do nothing, is read as \<open>INVALID\<close>.\<close>

definition type_of_number :: "int \<Rightarrow> module_type" where
  "type_of_number i = (if i = 1 then INPUT else if i = 2 then OUTPUT else if i = 3 then SIMPLE else if i = 4 then MULTI else INVALID)"

definition PerlModule_GetType :: "('d, 'p) perl_api \<Rightarrow> 'p perl_module \<Rightarrow> failure + module_type \<times> 'p perl_module" where
  "PerlModule_GetType api m = with_object m (\<lambda>ref st.
     let (res, st1) = scalar_method api ''GetType'' [] ref st
     in Inr (case res of None \<Rightarrow> INVALID | Some s \<Rightarrow> (case sv_iv s of None \<Rightarrow> INVALID | Some i \<Rightarrow> type_of_number i), set_perl st1 m))"

section \<open>Running\<close>

definition PerlModule_StartSync :: "('d, 'p) perl_api \<Rightarrow> 'p perl_module \<Rightarrow> failure + 'p perl_module" where
  "PerlModule_StartSync api m = discard_method api ''Start'' [] m"

definition PerlModule_StopSync :: "('d, 'p) perl_api \<Rightarrow> 'p perl_module \<Rightarrow> failure + 'p perl_module" where
  "PerlModule_StopSync api m = discard_method api ''Stop'' [] m"

definition PerlModule_PauseSync :: "('d, 'p) perl_api \<Rightarrow> 'p perl_module \<Rightarrow> failure + 'p perl_module" where
  "PerlModule_PauseSync api m = discard_method api ''Pause'' [] m"

definition PerlModule_ResumeSync :: "('d, 'p) perl_api \<Rightarrow> 'p perl_module \<Rightarrow> failure + 'p perl_module" where
  "PerlModule_ResumeSync api m = discard_method api ''Resume'' [] m"

text \<open>Taking a resource back; a pointer to something else than a resource cannot come back under this type.\<close>

definition take_resource :: "('d, 'p) perl_api \<Rightarrow> sv \<Rightarrow> 'p perl_state \<Rightarrow> 'd resource option option \<times> 'p perl_state" where
  "take_resource api s st =
     (let (res, ob, st1) = ConvertPtr api s ''Resource *'' st
      in (if res \<ge> 0 then Some (case ob of Some (CppResource r) \<Rightarrow> Some r | _ \<Rightarrow> None) else None, st1))"

definition take_result :: "('d, 'p) perl_api \<Rightarrow> sv option \<Rightarrow> 'p perl_state \<Rightarrow> 'd resource option \<times> 'p perl_state" where
  "take_result api res st =
     (case res of
        None \<Rightarrow> (None, st)
      | Some s \<Rightarrow> (let (got, st1) = take_resource api s st in (case got of None \<Rightarrow> None | Some r \<Rightarrow> r, st1)))"

text \<open>The scalar for a resource: its class name and an asterisk name the type.\<close>

definition give_resource :: "('d, 'p) named_api \<Rightarrow> 'd resource \<Rightarrow> 'p perl_state \<Rightarrow> sv option \<times> 'p perl_state" where
  "give_resource napi r st = NewPointerObj (snd napi) (CppResource r) (snprintf 100 (fst napi r @ '' *'')) st"

text \<open>
  The three functions for one resource, on the object and the interpreter of a module that has been initialised.  \<open>sleep\<close>
  is not handed on.
\<close>

definition process_input :: "('d, 'p) named_api \<Rightarrow> sv \<Rightarrow> bool \<Rightarrow> 'p perl_state \<Rightarrow> 'd resource option \<times> 'p perl_state" where
  "process_input napi ref sleep st =
     (let (res, st1) = scalar_method (snd napi) ''ProcessInput'' [] ref (SetContext None st) in take_result (snd napi) res st1)"

definition process_one :: "('d, 'p) named_api \<Rightarrow> string \<Rightarrow> sv \<Rightarrow> 'd resource option \<Rightarrow> 'p perl_state \<Rightarrow> 'd resource option \<times> 'p perl_state" where
  "process_one napi method ref resource st =
     (let (arg, st1) = (case resource of
            None \<Rightarrow> (Some sv_undef, SetContext None st)
          | Some r \<Rightarrow> give_resource napi r (SetContext None st))
      in case arg of
           None \<Rightarrow> (None, st1)
         | Some a \<Rightarrow> (let (res, st2) = scalar_method (snd napi) method [a] ref st1 in take_result (snd napi) res st2))"

definition PerlModule_ProcessInputSync ::
  "('d, 'p) named_api \<Rightarrow> bool \<Rightarrow> 'p perl_module \<Rightarrow> failure + 'd resource option \<times> 'p perl_module" where
  "PerlModule_ProcessInputSync napi sleep m = with_object m (\<lambda>ref st.
     let (r, st1) = process_input napi ref sleep st in Inr (r, set_perl st1 m))"

definition PerlModule_ProcessOutputSync ::
  "('d, 'p) named_api \<Rightarrow> 'd resource option \<Rightarrow> 'p perl_module \<Rightarrow> failure + 'd resource option \<times> 'p perl_module" where
  "PerlModule_ProcessOutputSync napi resource m = with_object m (\<lambda>ref st.
     let (r, st1) = process_one napi ''ProcessOutput'' ref resource st in Inr (r, set_perl st1 m))"

definition PerlModule_ProcessSimpleSync ::
  "('d, 'p) named_api \<Rightarrow> 'd resource option \<Rightarrow> 'p perl_module \<Rightarrow> failure + 'd resource option \<times> 'p perl_module" where
  "PerlModule_ProcessSimpleSync napi resource m = with_object m (\<lambda>ref st.
     let (r, st1) = process_one napi ''ProcessSimple'' ref resource st in Inr (r, set_perl st1 m))"

subsection \<open>Several resources\<close>

text \<open>
  The input queue is emptied into an array; a resource whose type is not known ends the function, with the resources
  before it gone from the queue.
\<close>

fun give_inputs :: "('d, 'p) named_api \<Rightarrow> nat \<Rightarrow> 'd resource list \<Rightarrow> 'p perl_state \<Rightarrow> bool \<times> 'd resource list \<times> 'p perl_state" where
  "give_inputs napi a [] st = (True, [], st)"
| "give_inputs napi a (r # rs) st =
     (case give_resource napi r st of
        (None, st1) \<Rightarrow> (False, r # rs, st1)
      | (Some s, st1) \<Rightarrow> give_inputs napi a rs (st1\<lparr>ps_mem := av_push a s (ps_mem st1)\<rparr>))"

text \<open>Taking resources back from an array; scalars that are no resources are dropped.\<close>

fun take_back :: "('d, 'p) perl_api \<Rightarrow> sv list \<Rightarrow> 'p perl_state \<Rightarrow> 'd resource option list \<times> 'p perl_state" where
  "take_back api [] st = ([], st)"
| "take_back api (s # ss) st =
     (let (got, st1) = take_resource api s st; (rest, st2) = take_back api ss st1
      in (case got of None \<Rightarrow> rest | Some r \<Rightarrow> r # rest, st2))"

definition empty_array :: "nat \<Rightarrow> 'p perl_state \<Rightarrow> sv list \<times> 'p perl_state" where
  "empty_array a st = (pm_arrays (ps_mem st) a, st\<lparr>ps_mem := (ps_mem st)\<lparr>pm_arrays := (pm_arrays (ps_mem st))(a := [])\<rparr>\<rparr>)"

text \<open>
  The method returns three numbers: whether the module is busy, how many resources it expects and how many it works on; they
  are popped from the last one on, and the two counters keep what was read when a later check fails.  Before the call they
  are 1 and 0.  The result has the queues, the two counters and whether the module is busy; a null pointer would be pushed
  to a queue as it is, here it is dropped.
\<close>

definition read_counters :: "sv list \<Rightarrow> bool option \<times> int \<times> int" where
  "read_counters res =
     (if length res \<noteq> 3 then (None, 1, 0)
      else case sv_iv (res ! 2) of
             None \<Rightarrow> (None, 1, 0)
           | Some k \<Rightarrow>
          (case sv_iv (res ! 1) of
             None \<Rightarrow> (None, 1, wrap_signed 32 k)
           | Some n \<Rightarrow>
          (case sv_iv (res ! 0) of
             None \<Rightarrow> (None, wrap_signed 32 n, wrap_signed 32 k)
           | Some b \<Rightarrow> (Some (b \<noteq> 0), wrap_signed 32 n, wrap_signed 32 k))))"

definition process_multi ::
  "('d, 'p) named_api \<Rightarrow> sv \<Rightarrow> 'd resource list \<Rightarrow> 'd resource list \<Rightarrow> 'p perl_state \<Rightarrow>
     bool \<times> 'd resource list \<times> 'd resource list \<times> int \<times> int \<times> 'p perl_state" where
  "process_multi napi ref inp out st =
     (let st0 = SetContext None st;
          (a, mem) = newAV (ps_mem st0);
          (ok, inp1, st1) = give_inputs napi a inp (st0\<lparr>ps_mem := mem\<rparr>)
      in if \<not> ok then (False, inp1, out, 1, 0, st1)
         else let (b, mem2) = newAV (ps_mem st1);
                  (err, res, st2) = run_method (snd napi) ''ProcessMulti'' [ref, newRV (ArrayRef a), newRV (ArrayRef b)] (st1\<lparr>ps_mem := mem2\<rparr>)
              in if err \<noteq> None then (False, [], out, 1, 0, st2)
                 else case read_counters res of
                        (None, n, k) \<Rightarrow> (False, [], out, n, k, st2)
                      | (Some busy, n, k) \<Rightarrow>
                          (let (ins, st3) = empty_array a st2; (inp2, st4) = take_back (snd napi) ins st3;
                               (outs, st5) = empty_array b st4; (out2, st6) = take_back (snd napi) outs st5
                           in (busy, List.map_filter id inp2, out @ List.map_filter id out2, n, k, st6)))"

definition PerlModule_ProcessMultiSync ::
  "('d, 'p) named_api \<Rightarrow> 'd resource list \<Rightarrow> 'd resource list \<Rightarrow> 'p perl_module \<Rightarrow>
     failure + (bool \<times> 'd resource list \<times> 'd resource list \<times> int \<times> int) \<times> 'p perl_module" where
  "PerlModule_ProcessMultiSync napi inp out m = with_object m (\<lambda>ref st.
     let (busy, inp1, out1, n, k, st1) = process_multi napi ref inp out st in Inr ((busy, inp1, out1, n, k), set_perl st1 m))"

section \<open>Properties and checkpoints\<close>

text \<open>The text of a number with \<^verbatim>\<open>%lf\<close> is an argument.\<close>

definition PerlModule_GetPropertySync ::
  "('d, 'p) perl_api \<Rightarrow> (64 word \<Rightarrow> string) \<Rightarrow> string \<Rightarrow> 'p perl_module \<Rightarrow> failure + string option \<times> 'p perl_module" where
  "PerlModule_GetPropertySync api show_double name m = with_object m (\<lambda>ref st.
     let (res, st1) = scalar_method api ''GetProperty'' [newSVpv (c_str name)] ref st
     in Inr (case res of
               None \<Rightarrow> None
             | Some s \<Rightarrow> (case sv_pv s of
                 Some str \<Rightarrow> Some (c_str str)
               | None \<Rightarrow> (case sv_iv s of
                   Some i \<Rightarrow> Some (show_int (wrap_signed 32 i))
                 | None \<Rightarrow> map_option (\<lambda>d. snprintf 1024 (show_double d)) (sv_nv s))), set_perl st1 m))"

definition PerlModule_SetPropertySync :: "('d, 'p) perl_api \<Rightarrow> string \<Rightarrow> string \<Rightarrow> 'p perl_module \<Rightarrow> failure + bool \<times> 'p perl_module" where
  "PerlModule_SetPropertySync api name value m = with_object m (\<lambda>ref st.
     let (res, st1) = scalar_method api ''SetProperty'' [newSVpv (c_str name), newSVpv (c_str value)] ref st
     in Inr (truth_of res, set_perl st1 m))"

text \<open>The conversion of a scalar to a string (\<^verbatim>\<open>SvPV\<close>) is an argument.\<close>

definition PerlModule_ListPropertiesSync ::
  "('d, 'p) perl_api \<Rightarrow> (sv \<Rightarrow> string) \<Rightarrow> 'p perl_module \<Rightarrow> failure + string list option \<times> 'p perl_module" where
  "PerlModule_ListPropertiesSync api str m = with_object m (\<lambda>ref st.
     let (res, st1) = scalar_method api ''ListProperties'' [] ref st
     in case res of
          None \<Rightarrow> Inr (None, set_perl st1 m)
        | Some s \<Rightarrow> bind_result (SvRV s) (\<lambda>r. case r of
            ArrayRef a \<Rightarrow> Inr (Some (map (c_str \<circ> str) (pm_arrays (ps_mem st1) a)), set_perl st1 m)
          | _ \<Rightarrow> Inr (None, set_perl st1 m)))"

definition PerlModule_SaveCheckpointSync :: "('d, 'p) perl_api \<Rightarrow> string \<Rightarrow> string \<Rightarrow> 'p perl_module \<Rightarrow> failure + 'p perl_module" where
  "PerlModule_SaveCheckpointSync api path i m = discard_method api ''SaveCheckpoint'' [newSVpv (c_str path), newSVpv (c_str i)] m"

definition PerlModule_RestoreCheckpointSync :: "('d, 'p) perl_api \<Rightarrow> string \<Rightarrow> string \<Rightarrow> 'p perl_module \<Rightarrow> failure + 'p perl_module" where
  "PerlModule_RestoreCheckpointSync api path i m = discard_method api ''RestoreCheckpoint'' [newSVpv (c_str path), newSVpv (c_str i)] m"

section \<open>A Perl module inside a processor\<close>

text \<open>The virtual functions of a module whose object has been created, on the object and the interpreter.\<close>

definition perl_ops :: "('d, 'p) named_api \<Rightarrow> ('d, sv \<times> 'p perl_state) module_ops" where
  "perl_ops napi =
     \<lparr>processInput = (\<lambda>sleep (ref, st). let (r, st1) = process_input napi ref sleep st in (r, ref, st1)),
      processOutput = (\<lambda>res (ref, st). let (r, st1) = process_one napi ''ProcessOutput'' ref res st in (r, ref, st1)),
      processSimple = (\<lambda>r (ref, st). let (r1, st1) = process_one napi ''ProcessSimple'' ref (Some r) st in (r1, ref, st1)),
      processMulti = (\<lambda>inp out k (ref, st).
        let (busy, inp1, out1, n, k1, st1) = process_multi napi ref inp out st in (busy, inp1, out1, n, k1, ref, st1))\<rparr>"

text \<open>
  What a Perl class has to promise to be a good simple module: handed a resource, its method \<open>ProcessSimple\<close> does not die and
  returns a resource that can be taken back.
\<close>

locale perl_simple =
  fixes napi :: "('d, 'p) named_api" and ref :: sv and ok :: "'p perl_state \<Rightarrow> bool"
    and result :: "'p perl_state \<Rightarrow> 'd resource \<Rightarrow> 'd resource"
  assumes handed: "ok st \<Longrightarrow> \<exists>s st1 s' st2 st3. give_resource napi r (SetContext None st) = (Some s, st1) \<and>
      scalar_method (snd napi) ''ProcessSimple'' [s] ref st1 = (Some s', st2) \<and>
      take_resource (snd napi) s' st2 = (Some (Some (result st r)), st3) \<and> ok st3"
begin

lemma process_keeps:
  assumes "ok st"
  shows "\<exists>st'. process_one napi ''ProcessSimple'' ref (Some r) st = (Some (result st r), st') \<and> ok st'"
proof -
  from handed [OF assms, of r] obtain s st1 s' st2 st3 where "give_resource napi r (SetContext None st) = (Some s, st1)"
    "scalar_method (snd napi) ''ProcessSimple'' [s] ref st1 = (Some s', st2)"
    "take_resource (snd napi) s' st2 = (Some (Some (result st r)), st3)" "ok st3" by blast
  then show ?thesis by (simp add: process_one_def take_result_def)
qed

lemma careful_simple:
  assumes "mi_type mi = SIMPLE" "mi_ops mi = perl_ops napi"
  shows "careful mi (\<lambda>(r, st). r = ref \<and> ok st)"
proof -
  have "fst (processSimple (perl_ops napi) r (ref, st)) \<noteq> None \<and>
      (case snd (processSimple (perl_ops napi) r (ref, st)) of (r', st') \<Rightarrow> r' = ref \<and> ok st')" if "ok st" for r st
    using process_keeps [OF that, of r] by (auto simp: perl_ops_def)
  then show ?thesis using assms by (auto simp: careful_def)
qed

lemma lossless_simple:
  assumes "mi_type mi = SIMPLE" "mi_ops mi = perl_ops napi" "mi_state mi = (ref, st)" "ok st"
  shows "lossless [mi]"
  using careful_simple [OF assms(1,2)] assms(3,4)
  by (simp add: lossless_def) (rule exI [of _ "\<lambda>(r, st). r = ref \<and> ok st"], simp)

end

section \<open>The classes of the repository\<close>

text \<open>
  The SWIG runtime of these programs: a table of the pointers that were handed over, in the interpreter's own part of the
  memory.  \<open>to_number\<close> (the number of a scalar) and \<open>type_string\<close> (\<^verbatim>\<open>GetTypeString\<close>) are arguments.
\<close>

type_synonym 'd pointers = "nat \<rightharpoonup> 'd cpp_object"

definition pointer_new :: "'d cpp_object \<Rightarrow> nat \<Rightarrow> 'd pointers perl_mem \<Rightarrow> sv \<times> 'd pointers perl_mem" where
  "pointer_new ob t m = (newRV (OtherRef (pm_next m)), m\<lparr>pm_next := Suc (pm_next m), pm_rest := (pm_rest m)(pm_next m \<mapsto> ob)\<rparr>)"

definition pointer_of :: "sv \<Rightarrow> 'd pointers perl_mem \<Rightarrow> 'd cpp_object option" where
  "pointer_of s m = (case sv_rv s of Some (OtherRef k) \<Rightarrow> pm_rest m k | _ \<Rightarrow> None)"

definition pointer_convert :: "sv \<Rightarrow> nat \<Rightarrow> 'd pointers perl_mem \<Rightarrow> int \<times> 'd cpp_object option \<times> 'd pointers perl_mem" where
  "pointer_convert s t m = (case pointer_of s m of Some ob \<Rightarrow> (0, Some ob, m) | None \<Rightarrow> (if SvOK s then - 1 else 0, None, m))"

record 'd script_env =
  to_number :: "sv \<Rightarrow> int"
  type_string :: "'d resource \<Rightarrow> string"

definition self_get :: "nat \<Rightarrow> string \<Rightarrow> 'p perl_mem \<Rightarrow> sv" where
  "self_get self k m = (case pm_hashes m self k of None \<Rightarrow> sv_undef | Some v \<Rightarrow> v)"

definition self_set :: "nat \<Rightarrow> string \<Rightarrow> sv \<Rightarrow> 'p perl_mem \<Rightarrow> 'p perl_mem" where
  "self_set self k v m = m\<lparr>pm_hashes := (pm_hashes m)(self := (pm_hashes m self)(k \<mapsto> v))\<rparr>"

text \<open>\<^verbatim>\<open>Module.pm\<close>: parameters are assigned to members that exist; the functions of the base class.\<close>

definition row_strings :: "sv \<Rightarrow> 'p perl_mem \<Rightarrow> (string \<times> sv) option" where
  "row_strings s m =
     (case sv_rv s of
        Some (ArrayRef a) \<Rightarrow> (case pm_arrays m a of k # v # _ \<Rightarrow> (case sv_pv k of Some n \<Rightarrow> Some (n, v) | None \<Rightarrow> None) | _ \<Rightarrow> None)
      | _ \<Rightarrow> None)"

fun Module_pm_params :: "(string \<times> string) list \<Rightarrow> nat \<Rightarrow> sv list \<Rightarrow> 'p perl_mem \<Rightarrow> 'p perl_mem" where
  "Module_pm_params aliases self [] m = m"
| "Module_pm_params aliases self (s # ss) m =
     Module_pm_params aliases self ss
       (case row_strings s m of
          None \<Rightarrow> m
        | Some (k, v) \<Rightarrow> if pm_hashes m self k \<noteq> None then self_set self k v m
                         else (case map_of aliases k of Some k' \<Rightarrow> self_set self k' v m | None \<Rightarrow> m))"

text \<open>\<open>aliases\<close> are other names of members, which the class \<open>TestSimple\<close> has and the base class has not.\<close>

definition Module_pm_Init :: "(string \<times> string) list \<Rightarrow> nat \<Rightarrow> sv list \<Rightarrow> 'p perl_mem \<Rightarrow> string option \<times> sv list \<times> 'p perl_mem" where
  "Module_pm_Init aliases self args m =
     (case args of
        [] \<Rightarrow> (None, [newSViv 1], m)
      | params # _ \<Rightarrow>
          if \<not> SvOK params then (None, [newSViv 1], m)
          else (case sv_rv params of
                  Some (ArrayRef a) \<Rightarrow> (None, [newSViv 1], Module_pm_params aliases self (pm_arrays m a) m)
                | _ \<Rightarrow> (Some ''Not an ARRAY reference'', [], m)))"

definition Module_pm_call :: "nat \<Rightarrow> string \<Rightarrow> sv list \<Rightarrow> 'p perl_mem \<Rightarrow> string option \<times> sv list \<times> 'p perl_mem" where
  "Module_pm_call self name args m =
     (if name = ''Init'' then Module_pm_Init [] self args m
      else if name = ''GetType'' then (None, [self_get self ''_type'' m], m)
      else if name \<in> {''Finish'', ''Start'', ''Stop'', ''Pause'', ''Resume'', ''SaveCheckpoint'', ''RestoreCheckpoint''} then (None, [], m)
      else if name = ''ProcessSimple'' then (None, [case args of [] \<Rightarrow> sv_undef | r # _ \<Rightarrow> r], m)
      else if name = ''GetValue'' then (None, [case args of k # _ \<Rightarrow> self_get self (case sv_pv k of None \<Rightarrow> [] | Some n \<Rightarrow> n) m | [] \<Rightarrow> sv_undef], m)
      else if name = ''SetValue'' then
        (case args of
           k # v # _ \<Rightarrow> (case sv_pv k of
              Some n \<Rightarrow> if pm_hashes m self n \<noteq> None then (None, [newSViv 1], self_set self n v m) else (None, [newSViv 0], m)
            | None \<Rightarrow> (None, [newSViv 0], m))
         | _ \<Rightarrow> (None, [newSViv 0], m))
      else (Some (''Can't locate object method '' @ name), [], m))"

text \<open>\<^verbatim>\<open>TestSimple.pm\<close>.  The constructor makes the member \<open>filpStatus\<close>; the method reads \<open>flipStatus\<close>.\<close>

definition TestSimple_pm_new :: "string \<rightharpoonup> sv" where
  "TestSimple_pm_new = [''_type'' \<mapsto> newSViv 3, ''items'' \<mapsto> newSViv 0, ''foo'' \<mapsto> newSViv 0, ''filpStatus'' \<mapsto> newSViv 0, ''setStatus'' \<mapsto> newSViv (- 1)]"

definition TestSimple_pm_resource :: "'d script_env \<Rightarrow> nat \<Rightarrow> 'p perl_mem \<Rightarrow> 'd resource \<Rightarrow> 'd resource" where
  "TestSimple_pm_resource env self m r =
     (if type_string env r \<noteq> ''TestResource'' then r
      else let r1 = (if to_number env (self_get self ''flipStatus'' m) \<noteq> 0 then r\<lparr>r_status := (if r_status r = 0 then 1 else 0)\<rparr> else r);
               n = to_number env (self_get self ''setStatus'' m)
           in if n \<ge> 0 then r1\<lparr>r_status := n\<rparr> else r1)"

text \<open>A status that is no \<^verbatim>\<open>int\<close> is refused by the wrapper of \<open>SetStatus\<close>, which dies.\<close>

definition status_fits :: "'d script_env \<Rightarrow> nat \<Rightarrow> 'p perl_mem \<Rightarrow> bool" where
  "status_fits env self m \<longleftrightarrow> to_number env (self_get self ''setStatus'' m) < 2 ^ 31"

definition TestSimple_pm_ProcessSimple ::
  "'d script_env \<Rightarrow> nat \<Rightarrow> sv list \<Rightarrow> 'd pointers perl_mem \<Rightarrow> string option \<times> sv list \<times> 'd pointers perl_mem" where
  "TestSimple_pm_ProcessSimple env self args m =
     (case args of
        [] \<Rightarrow> (Some ''Can't call method'', [], m)
      | s # _ \<Rightarrow>
          (case (sv_rv s, pointer_of s m) of
             (Some (OtherRef k), Some (CppResource r)) \<Rightarrow>
               if type_string env r \<noteq> ''TestResource'' then (None, [s], m)
               else if \<not> status_fits env self m then (Some ''OverflowError'', [], m)
               else (None, [s],
                 self_set self ''items'' (newSViv (to_number env (self_get self ''items'' m) + 1))
                   (m\<lparr>pm_rest := (pm_rest m)(k \<mapsto> CppResource (TestSimple_pm_resource env self m r))\<rparr>))
           | _ \<Rightarrow> (Some ''Can't call method'', [], m)))"

definition TestSimple_pm_call ::
  "'d script_env \<Rightarrow> string \<Rightarrow> sv list \<Rightarrow> 'd pointers perl_mem \<Rightarrow> string option \<times> sv list \<times> 'd pointers perl_mem" where
  "TestSimple_pm_call env name args m =
     (case args of
        ref # rest \<Rightarrow>
          (case sv_rv ref of
             Some (HashRef self) \<Rightarrow>
               if name = ''Init'' then Module_pm_Init [(''alias'', ''foo'')] self rest m
               else if name = ''ProcessSimple'' then TestSimple_pm_ProcessSimple env self rest m
               else Module_pm_call self name rest m
           | _ \<Rightarrow> (Some ''Can't call method'', [], m))
      | [] \<Rightarrow> (Some ''Can't call method'', [], m))"

definition TestSimple_pm :: "'d script_env \<Rightarrow> ('d, 'd pointers) named_api" where
  "TestSimple_pm env = (type_string env,
     \<lparr>call_method = TestSimple_pm_call env, eval_pv = (\<lambda>code m. (None, m)), get_av = (\<lambda>n m. None),
      Perl_TypeQuery = (\<lambda>t. Some 1), Perl_NewPointerObj = pointer_new, Perl_ConvertPtr = pointer_convert\<rparr>)"

text \<open>The class \<open>TestSimple\<close> keeps the contract, in every interpreter that has an object of the class.\<close>

text \<open>An interface with this SWIG runtime; all classes here have one.\<close>

definition table_api :: "('d, 'd pointers) perl_api \<Rightarrow> bool" where
  "table_api api \<longleftrightarrow> Perl_TypeQuery api = (\<lambda>t. Some 1) \<and> Perl_NewPointerObj api = pointer_new \<and> Perl_ConvertPtr api = pointer_convert"

lemma table_type_info:
  assumes "table_api api"
  obtains i c where "type_info api t st = (Some i, st\<lparr>ps_cache := c\<rparr>)"
  using assms that by (cases "ps_cache st t") (auto simp: type_info_def table_api_def dest: meta_spec [of _ "ps_cache st"])

lemma table_give:
  assumes "table_api (snd napi)"
  obtains c where "give_resource napi r st = (Some (newRV (OtherRef (pm_next (ps_mem st)))),
     st\<lparr>ps_cache := c, ps_mem := snd (pointer_new (CppResource r) 0 (ps_mem st))\<rparr>)"
proof -
  obtain i c where "type_info (snd napi) (snprintf 100 (fst napi r @ '' *'')) st = (Some i, st\<lparr>ps_cache := c\<rparr>)"
    using table_type_info [OF assms] .
  then have "give_resource napi r st = (Some (newRV (OtherRef (pm_next (ps_mem st)))),
     st\<lparr>ps_cache := c, ps_mem := snd (pointer_new (CppResource r) 0 (ps_mem st))\<rparr>)"
    using assms by (simp add: give_resource_def NewPointerObj_def table_api_def pointer_new_def)
  then show thesis by (rule that)
qed

lemma table_take:
  assumes "table_api api" and "pointer_of s (ps_mem st) = Some (CppResource r)"
  obtains c where "take_resource api s st = (Some (Some r), st\<lparr>ps_cache := c\<rparr>)"
proof -
  obtain i c where "type_info api ''Resource *'' st = (Some i, st\<lparr>ps_cache := c\<rparr>)" using table_type_info [OF assms(1)] .
  then have "take_resource api s st = (Some (Some r), st\<lparr>ps_cache := c\<rparr>)"
    using assms by (simp add: take_resource_def ConvertPtr_def table_api_def pointer_convert_def)
  then show thesis by (rule that)
qed

lemma TestSimple_pm_table [simp]: "table_api (snd (TestSimple_pm env))" "call_method (snd (TestSimple_pm env)) = TestSimple_pm_call env"
  by (simp_all add: table_api_def TestSimple_pm_def)

text \<open>The class \<open>TestSimple\<close> keeps the contract, in every interpreter that has an object of the class.\<close>

interpretation test_simple_pm: perl_simple "TestSimple_pm env" "newRV (HashRef self)" "\<lambda>st. status_fits env self (ps_mem st)"
    "\<lambda>st r. TestSimple_pm_resource env self (ps_mem st) r"
proof
  fix st :: "'a pointers perl_state" and r
  assume fits: "status_fits env self (ps_mem st)"
  define st0 where "st0 = SetContext None st"
  define k where "k = pm_next (ps_mem st)"
  have mem0: "ps_mem st0 = ps_mem st" by (simp add: st0_def SetContext_def)
  obtain c where give: "give_resource (TestSimple_pm env) r st0 = (Some (newRV (OtherRef k)),
      st0\<lparr>ps_cache := c, ps_mem := snd (pointer_new (CppResource r) 0 (ps_mem st))\<rparr>)"
    using table_give [of "TestSimple_pm env" r st0] by (metis TestSimple_pm_table(1) mem0 k_def)
  define st1 where "st1 = st0\<lparr>ps_cache := c, ps_mem := snd (pointer_new (CppResource r) 0 (ps_mem st))\<rparr>"
  have hashes: "self_get self key (ps_mem st1) = self_get self key (ps_mem st)" for key
    by (simp add: st1_def self_get_def pointer_new_def)
  have fits1: "status_fits env self (ps_mem st1)" using fits by (simp add: status_fits_def hashes)
  have res: "TestSimple_pm_resource env self (ps_mem st1) r = TestSimple_pm_resource env self (ps_mem st) r"
    by (simp add: TestSimple_pm_resource_def hashes)
  have ptr: "pointer_of (newRV (OtherRef k)) (ps_mem st1) = Some (CppResource r)"
    by (simp add: pointer_of_def newRV_def st1_def pointer_new_def k_def)
  obtain m2 where call: "TestSimple_pm_call env ''ProcessSimple'' [newRV (HashRef self), newRV (OtherRef k)] (ps_mem st1) = (None, [newRV (OtherRef k)], m2)"
    and ptr2: "pointer_of (newRV (OtherRef k)) m2 = Some (CppResource (TestSimple_pm_resource env self (ps_mem st) r))" and fits2: "status_fits env self m2"
  proof (cases "type_string env r = ''TestResource''")
    case True
    show thesis
      by (rule that [of "self_set self ''items'' (newSViv (to_number env (self_get self ''items'' (ps_mem st1)) + 1))
          ((ps_mem st1)\<lparr>pm_rest := (pm_rest (ps_mem st1))(k \<mapsto> CppResource (TestSimple_pm_resource env self (ps_mem st1) r))\<rparr>)"])
        (use True ptr fits1 in \<open>simp_all add: TestSimple_pm_call_def TestSimple_pm_ProcessSimple_def newRV_def pointer_of_def self_set_def res
           status_fits_def self_get_def\<close>)
  next
    case False
    show thesis
      by (rule that [of "ps_mem st1"])
        (use False ptr fits1 in \<open>simp_all add: TestSimple_pm_call_def TestSimple_pm_ProcessSimple_def newRV_def pointer_of_def TestSimple_pm_resource_def\<close>)
  qed
  have scalar: "scalar_method (snd (TestSimple_pm env)) ''ProcessSimple'' [newRV (OtherRef k)] (newRV (HashRef self)) st1 =
      (Some (newRV (OtherRef k)), st1\<lparr>ps_mem := m2\<rparr>)"
    using call by (simp add: scalar_method_def run_method_def)
  obtain d where "take_resource (snd (TestSimple_pm env)) (newRV (OtherRef k)) (st1\<lparr>ps_mem := m2\<rparr>) =
      (Some (Some (TestSimple_pm_resource env self (ps_mem st) r)), st1\<lparr>ps_mem := m2\<rparr>\<lparr>ps_cache := d\<rparr>)"
    using table_take [of "snd (TestSimple_pm env)" _ "st1\<lparr>ps_mem := m2\<rparr>"] ptr2 by auto
  moreover have "status_fits env self (ps_mem (st1\<lparr>ps_mem := m2\<rparr>\<lparr>ps_cache := d\<rparr>))" using fits2 by simp
  ultimately show "\<exists>s st1 s' st2 st3. give_resource (TestSimple_pm env) r (SetContext None st) = (Some s, st1) \<and>
      scalar_method (snd (TestSimple_pm env)) ''ProcessSimple'' [s] (newRV (HashRef self)) st1 = (Some s', st2) \<and>
      take_resource (snd (TestSimple_pm env)) s' st2 = (Some (Some (TestSimple_pm_resource env self (ps_mem st) r)), st3) \<and> status_fits env self (ps_mem st3)"
    using give scalar unfolding st0_def [symmetric] st1_def [symmetric] by blast
qed

text \<open>\<^verbatim>\<open>TestMulti.pm\<close>.  The member \<open>_resources\<close> is a reference to the array \<open>keep\<close>.\<close>

definition TestMulti_pm_MAX :: nat where
  "TestMulti_pm_MAX = 100"

fun TestMulti_pm_take :: "('a \<Rightarrow> bool) \<Rightarrow> 'a list \<Rightarrow> 'a list \<Rightarrow> 'a list \<Rightarrow> 'a list \<times> 'a list \<times> 'a list" where
  "TestMulti_pm_take ok [] kept out = ([], kept, out)"
| "TestMulti_pm_take ok (s # ss) kept out =
     (if length kept \<le> TestMulti_pm_MAX
      then (if ok s then TestMulti_pm_take ok ss (kept @ [s]) out else TestMulti_pm_take ok ss kept (out @ [s]))
      else (s # ss, kept, out))"

definition is_test :: "'d script_env \<Rightarrow> 'd pointers perl_mem \<Rightarrow> sv \<Rightarrow> bool" where
  "is_test env m s = (case pointer_of s m of Some (CppResource r) \<Rightarrow> type_string env r = ''TestResource'' | _ \<Rightarrow> False)"

definition TestMulti_pm_ProcessMulti ::
  "'d script_env \<Rightarrow> nat \<Rightarrow> sv list \<Rightarrow> 'd pointers perl_mem \<Rightarrow> string option \<times> sv list \<times> 'd pointers perl_mem" where
  "TestMulti_pm_ProcessMulti env self args m =
     (case (map sv_rv args, sv_rv (self_get self ''_resources'' m)) of
        ([Some (ArrayRef a), Some (ArrayRef b)], Some (ArrayRef c)) \<Rightarrow>
          (let (ins, kept, outs) = TestMulti_pm_take (is_test env m) (pm_arrays m a) (pm_arrays m c) (pm_arrays m b);
               m1 = m\<lparr>pm_arrays := (pm_arrays m)(a := ins, c := kept, b := outs)\<rparr>
           in case kept of
                [] \<Rightarrow> (None, [newSViv 0, newSViv 0, newSViv (int TestMulti_pm_MAX)], m1)
              | s # rest \<Rightarrow>
                  (None, [newSViv (if rest \<noteq> [] then 1 else 0), newSViv (int TestMulti_pm_MAX - int (length rest)), newSViv (int (length rest))],
                   self_set self ''items'' (newSViv (to_number env (self_get self ''items'' m1) + 1))
                     (m1\<lparr>pm_arrays := (pm_arrays m1)(c := rest, b := outs @ [s])\<rparr>)))
      | _ \<Rightarrow> (None, [newSViv 0, newSViv 0, newSViv (int TestMulti_pm_MAX)], m))"

definition TestMulti_pm_call ::
  "'d script_env \<Rightarrow> string \<Rightarrow> sv list \<Rightarrow> 'd pointers perl_mem \<Rightarrow> string option \<times> sv list \<times> 'd pointers perl_mem" where
  "TestMulti_pm_call env name args m =
     (case args of
        ref # rest \<Rightarrow>
          (case sv_rv ref of
             Some (HashRef self) \<Rightarrow>
               if name = ''ProcessMulti'' then TestMulti_pm_ProcessMulti env self rest m else Module_pm_call self name rest m
           | _ \<Rightarrow> (Some ''Can't call method'', [], m))
      | [] \<Rightarrow> (Some ''Can't call method'', [], m))"

definition TestMulti_pm :: "'d script_env \<Rightarrow> ('d, 'd pointers) named_api" where
  "TestMulti_pm env = (type_string env,
     \<lparr>call_method = TestMulti_pm_call env, eval_pv = (\<lambda>code m. (None, m)), get_av = (\<lambda>n m. None),
      Perl_TypeQuery = (\<lambda>t. Some 1), Perl_NewPointerObj = pointer_new, Perl_ConvertPtr = pointer_convert\<rparr>)"

section \<open>Properties\<close>


definition sample_env :: "unit script_env" where
  "sample_env = \<lparr>to_number = (\<lambda>s. case sv_iv s of Some i \<Rightarrow> i | None \<Rightarrow> (case sv_pv s of Some t \<Rightarrow> read_int t | None \<Rightarrow> 0)),
     type_string = (\<lambda>r. ''TestResource'')\<rparr>"

definition sample_perl :: "(string \<rightharpoonup> sv) \<Rightarrow> unit pointers perl_state" where
  "sample_perl h = \<lparr>ps_depth = 0, ps_context = None, ps_my = 3, ps_cache = Map.empty,
     ps_mem = \<lparr>pm_arrays = (\<lambda>_. []), pm_hashes = (\<lambda>_. Map.empty)(0 := h), pm_scalars = Map.empty, pm_next = 2, pm_rest = Map.empty\<rparr>\<rparr>"


text \<open>A method that dies loses the resource: Perl owns it, and nothing is returned or marked as deleted.\<close>

lemma perl_error_loses_resource:
  assumes "mi_type mi = SIMPLE" and "mi_ops mi = perl_ops napi" and "mi_state mi = (ref, st)" and "\<not> IsSetFlag SKIP r"
    and "\<And>args m. \<exists>e res m'. call_method (snd napi) ''ProcessSimple'' args m = (Some e, res, m')"
  shows "\<exists>st'. apply_module mi (Some r) sleep env = Continue (False, None, False, (ref, st'), env)"
proof -
  obtain a st1 where g: "give_resource napi r (SetContext None st) = (a, st1)" by fastforce
  have err: "\<exists>st2. scalar_method (snd napi) ''ProcessSimple'' [s] ref st1 = (None, st2)" for s
    using assms(5) [of "[ref, s]" "ps_mem st1"] by (auto simp: scalar_method_def run_method_def)
  have "\<exists>st'. process_one napi ''ProcessSimple'' ref (Some r) st = (None, st')"
  proof (cases a)
    case (Some s)
    from err [of s] obtain st2 where "scalar_method (snd napi) ''ProcessSimple'' [s] ref st1 = (None, st2)" ..
    then show ?thesis by (simp add: process_one_def g Some take_result_def)
  qed (simp add: process_one_def g)
  then show ?thesis using assms(1-4) by (auto simp: apply_module_def perl_ops_def)
qed

text \<open>An object of the class \<open>TestMulti\<close> that keeps no resource.\<close>

definition multi_idle :: "nat \<Rightarrow> nat \<Rightarrow> 'd pointers perl_state \<Rightarrow> bool" where
  "multi_idle self c st \<longleftrightarrow> self_get self ''_resources'' (ps_mem st) = newRV (ArrayRef c) \<and> pm_arrays (ps_mem st) c = [] \<and> c < pm_next (ps_mem st)"

lemma TestMulti_pm_table [simp]: "table_api (snd (TestMulti_pm env))" "call_method (snd (TestMulti_pm env)) = TestMulti_pm_call env"
  by (simp_all add: table_api_def TestMulti_pm_def)

lemma counters_simps [simp]: "read_counters [newSViv b, newSViv n, newSViv k] = (Some (b \<noteq> 0), wrap_signed 32 n, wrap_signed 32 k)"
  by (simp add: read_counters_def newSViv_def)

lemma sv_rv_newRV [simp]: "sv_rv (newRV r) = Some r"
  by (simp add: newRV_def)

lemma TestMulti_pm_idle:
  assumes "multi_idle self c st"
  shows "\<exists>st'. process_multi (TestMulti_pm env) (newRV (HashRef self)) [] out st = (False, [], out, 0, 100, st') \<and> multi_idle self c st'"
proof -
  define m where "m = ps_mem st"
  define a where "a = pm_next m"
  define m1 where "m1 = snd (newAV (snd (newAV m)))"
  have m: "self_get self ''_resources'' m1 = newRV (ArrayRef c)" "pm_arrays m1 c = []" "pm_arrays m1 a = []" "pm_arrays m1 (Suc a) = []" "pm_next m1 = Suc (Suc a)"
    using assms by (auto simp: multi_idle_def m1_def newAV_def self_get_def a_def m_def)
  have "c < a" using assms by (simp add: multi_idle_def a_def m_def)
  define m2 where "m2 = m1\<lparr>pm_arrays := (pm_arrays m1)(a := [], c := [], Suc a := [])\<rparr>"
  have call: "TestMulti_pm_call env ''ProcessMulti'' [newRV (HashRef self), newRV (ArrayRef a), newRV (ArrayRef (Suc a))] m1 =
      (None, [newSViv 0, newSViv 0, newSViv 100], m2)"
    by (simp add: TestMulti_pm_call_def TestMulti_pm_ProcessMulti_def m TestMulti_pm_MAX_def m2_def)
  have av: "newAV (ps_mem (SetContext None st)) = (a, snd (newAV m))" "newAV (snd (newAV m)) = (Suc a, m1)"
    by (simp_all add: newAV_def a_def m_def m1_def SetContext_def)
  define st' where "st' = (SetContext None st)\<lparr>ps_mem := m2\<lparr>pm_arrays := (pm_arrays m2)(a := [], Suc a := [])\<rparr>\<rparr>"
  have "process_multi (TestMulti_pm env) (newRV (HashRef self)) [] out st = (False, [], out, 0, 100, st')"
    by (simp add: process_multi_def av run_method_def call wrap_signed_def empty_array_def List.map_filter_simps st'_def m2_def)
  moreover have "multi_idle self c st'" using m \<open>c < a\<close> by (simp add: multi_idle_def st'_def m2_def self_get_def)
  ultimately show ?thesis by blast
qed

lemma TestMulti_pm_one:
  assumes "multi_idle self c st" and "type_string env r = ''TestResource''"
  shows "\<exists>st'. process_multi (TestMulti_pm env) (newRV (HashRef self)) [r] out st = (False, [], out @ [r], 100, 0, st')"
proof -
  define m where "m = ps_mem st"
  define a where "a = pm_next m"
  define p where "p = newRV (OtherRef (Suc a))"
  define st0 where "st0 = (SetContext None st)\<lparr>ps_mem := snd (newAV m)\<rparr>"
  obtain d where give: "give_resource (TestMulti_pm env) r st0 = (Some p, st0\<lparr>ps_cache := d, ps_mem := snd (pointer_new (CppResource r) 0 (snd (newAV m)))\<rparr>)"
    using table_give [of "TestMulti_pm env" r st0] by (auto simp: st0_def p_def newAV_def a_def)
  define m1 where "m1 = snd (newAV (av_push a p (snd (pointer_new (CppResource r) 0 (snd (newAV m))))))"
  have "c < a" using assms(1) by (simp add: multi_idle_def a_def m_def)
  have m: "self_get self ''_resources'' m1 = newRV (ArrayRef c)" "pm_arrays m1 c = []" "pm_arrays m1 a = [p]" "pm_arrays m1 (Suc (Suc a)) = []"
    "pm_rest m1 (Suc a) = Some (CppResource r)"
    using assms(1) \<open>c < a\<close> by (auto simp: multi_idle_def m1_def newAV_def self_get_def a_def m_def pointer_new_def av_push_def)
  have test: "is_test env m1 p" using assms(2) m(5) by (simp add: is_test_def pointer_of_def p_def)
  obtain m2 where call: "TestMulti_pm_call env ''ProcessMulti'' [newRV (HashRef self), newRV (ArrayRef a), newRV (ArrayRef (Suc (Suc a)))] m1 =
      (None, [newSViv 0, newSViv 100, newSViv 0], m2)" and m2: "pm_arrays m2 a = []" "pm_arrays m2 (Suc (Suc a)) = [p]" "pm_rest m2 = pm_rest m1"
    using \<open>c < a\<close> test by (simp add: TestMulti_pm_call_def TestMulti_pm_ProcessMulti_def m TestMulti_pm_MAX_def self_set_def Let_def)
  have av: "newAV (ps_mem (SetContext None st)) = (a, snd (newAV m))"
    "newAV (av_push a p (snd (pointer_new (CppResource r) 0 (snd (newAV m))))) = (Suc (Suc a), m1)"
    by (simp_all add: newAV_def a_def m_def m1_def SetContext_def pointer_new_def av_push_def)
  define st2 where "st2 = st0\<lparr>ps_cache := d, ps_mem := m2\<lparr>pm_arrays := (pm_arrays m2)(a := [])\<rparr>\<lparr>pm_arrays := (pm_arrays m2)(a := [], Suc (Suc a) := [])\<rparr>\<rparr>"
  have ptr: "pointer_of p (ps_mem st2) = Some (CppResource r)" using m(5) m2(3) by (simp add: pointer_of_def p_def st2_def)
  obtain e where take: "take_resource (snd (TestMulti_pm env)) p st2 = (Some (Some r), st2\<lparr>ps_cache := e\<rparr>)"
    using table_take [OF _ ptr, of "snd (TestMulti_pm env)"] by auto
  have st0: "(SetContext None st)\<lparr>ps_mem := snd (newAV m)\<rparr> = st0" by (simp add: st0_def)
  show ?thesis
    using take by (simp add: process_multi_def av st0 give run_method_def call wrap_signed_def empty_array_def m2 List.map_filter_simps st2_def)
qed

text \<open>
  The Perl module \<open>TestMulti\<close> brings the server down.  With nothing to do it returns its three numbers in the wrong order
  and so claims to work on 100 resources it does not have: the resource counter grows by 100, and when the first resource
  has passed through the assertion of the processor fails.
\<close>
theorem perl_TestMulti_aborts:
  assumes "j < length (th_mis th)" and "th_mis th ! j = \<lparr>mi_ops = perl_ops (TestMulti_pm env), mi_state = (newRV (HashRef self), st),
      mi_type = MULTI, mi_processing = 0, mi_input = [], mi_output = []\<rparr>"
    and "multi_idle self c st" and "type_string env r = ''TestResource''"
  shows "\<exists>minN' th'. multi_process j minN th = Continue (minN', th') \<and> env_count (th_env th') = env_count (th_env th) + 100 \<and>
    multi_process j minN'' (th'\<lparr>th_mis := (th_mis th')[j := (th_mis th' ! j)\<lparr>mi_input := [r]\<rparr>]\<rparr>) = Fail AssertFailed"
proof -
  obtain st' where idle: "process_multi (TestMulti_pm env) (newRV (HashRef self)) [] [] st = (False, [], [], 0, 100, st')" "multi_idle self c st'"
    using TestMulti_pm_idle [OF assms(3)] by blast
  obtain st'' where one: "process_multi (TestMulti_pm env) (newRV (HashRef self)) [r] [] st' = (False, [], [r], 100, 0, st'')"
    using TestMulti_pm_one [OF idle(2) assms(4), of "[]"] by auto
  define th' where "th' = th\<lparr>th_mis := (th_mis th)[j := \<lparr>mi_ops = perl_ops (TestMulti_pm env), mi_state = (newRV (HashRef self), st'),
      mi_type = MULTI, mi_processing = 100, mi_input = [], mi_output = []\<rparr>], th_env := UpdateResourceCount 100 (th_env th)\<rparr>"
  have "multi_process j minN th = Continue (min minN 0, th')"
    using assms(1,2) idle(1) by (simp add: multi_process_def perl_ops_def th'_def)
  moreover have "env_count (th_env th') = env_count (th_env th) + 100" by (simp add: th'_def UpdateResourceCount_def)
  moreover have "multi_process j minN'' (th'\<lparr>th_mis := (th_mis th')[j := (th_mis th' ! j)\<lparr>mi_input := [r]\<rparr>]\<rparr>) = Fail AssertFailed"
    using assms(1) one by (simp add: multi_process_def perl_ops_def th'_def)
  ultimately show ?thesis by blast
qed

definition sample_thread :: "(unit, sv \<times> unit pointers perl_state) thread" where
  "sample_thread = \<lparr>th_mis = [\<lparr>mi_ops = perl_ops (TestMulti_pm sample_env),
        mi_state = (newRV (HashRef 0), sample_perl [''_type'' \<mapsto> newSViv 4, ''_resources'' \<mapsto> newRV (ArrayRef 1), ''items'' \<mapsto> newSViv 0]),
        mi_type = MULTI, mi_processing = 0, mi_input = [], mi_output = []\<rparr>],
      th_readMax = 1, th_outIdx = 0, th_outRes = None, th_block = True, th_env = demo_env []\<rparr>"

theorem perl_TestMulti_aborts_witness:
  "\<exists>minN' th'. multi_process 0 5 sample_thread = Continue (minN', th') \<and> env_count (th_env th') = env_count (th_env sample_thread) + 100 \<and>
    multi_process 0 5 (th'\<lparr>th_mis := (th_mis th')[0 := (th_mis th' ! 0)\<lparr>mi_input := [Resource_new 1 10 ()]\<rparr>]\<rparr>) = Fail AssertFailed"
proof (rule perl_TestMulti_aborts [where env = sample_env and self = 0 and c = 1])
  show "multi_idle 0 1 (sample_perl [''_type'' \<mapsto> newSViv 4, ''_resources'' \<mapsto> newRV (ArrayRef 1), ''items'' \<mapsto> newSViv 0])"
    by (simp add: multi_idle_def sample_perl_def self_get_def)
  show "th_mis sample_thread ! 0 = \<lparr>mi_ops = perl_ops (TestMulti_pm sample_env),
      mi_state = (newRV (HashRef 0), sample_perl [''_type'' \<mapsto> newSViv 4, ''_resources'' \<mapsto> newRV (ArrayRef 1), ''items'' \<mapsto> newSViv 0]),
      mi_type = MULTI, mi_processing = 0, mi_input = [], mi_output = []\<rparr>"
    by (simp add: sample_thread_def)
qed (simp_all add: sample_thread_def sample_env_def)

text \<open>
  The properties of a Perl module cannot be reached.  C++ calls \<open>GetProperty\<close>, \<open>SetProperty\<close> and \<open>ListProperties\<close>, while
  \<^verbatim>\<open>Module.pm\<close> and its classes define \<open>GetValue\<close>, \<open>SetValue\<close> and \<open>ListNames\<close>: every property reads as null, every assignment
  is refused and the list is null, with the memory of the interpreter unchanged.  The switch \<open>flipStatus\<close> of \<open>TestSimple\<close> has
  no effect as a parameter either, because the constructor makes a member of another name.
\<close>
theorem perl_properties_unreachable:
  assumes "pmo_ref m = Some (newRV (HashRef self))" and "api \<in> {snd (TestSimple_pm env), snd (TestMulti_pm env)}"
  shows "(\<exists>m'. PerlModule_GetPropertySync api sd name m = Inr (None, m') \<and> ps_mem (pmo_perl m') = ps_mem (pmo_perl m)) \<and>
    (\<exists>m'. PerlModule_SetPropertySync api name value m = Inr (False, m') \<and> ps_mem (pmo_perl m') = ps_mem (pmo_perl m)) \<and>
    (\<exists>m'. PerlModule_ListPropertiesSync api str m = Inr (None, m') \<and> ps_mem (pmo_perl m') = ps_mem (pmo_perl m)) \<and>
    (row_strings s mem = Some (''flipStatus'', v) \<and> pm_hashes mem self = TestSimple_pm_new \<longrightarrow>
      Module_pm_params [(''alias'', ''foo'')] self [s] mem = mem)"
proof (intro conjI impI)
  have call: "scalar_method api n args (newRV (HashRef self)) st = (None, st\<lparr>ps_mem := ps_mem st\<rparr>)"
    if "n \<in> {''GetProperty'', ''SetProperty'', ''ListProperties''}" for n args st
    using assms(2) that
    by (auto simp: scalar_method_def run_method_def TestSimple_pm_call_def TestMulti_pm_call_def Module_pm_call_def)
  have ctx: "ps_mem (SetContext None st) = ps_mem st" for st :: "'a pointers perl_state" by (simp add: SetContext_def)
  show "\<exists>m'. PerlModule_GetPropertySync api sd name m = Inr (None, m') \<and> ps_mem (pmo_perl m') = ps_mem (pmo_perl m)"
    by (simp add: PerlModule_GetPropertySync_def with_object_def assms(1) call set_perl_def ctx)
  show "\<exists>m'. PerlModule_SetPropertySync api name value m = Inr (False, m') \<and> ps_mem (pmo_perl m') = ps_mem (pmo_perl m)"
    by (simp add: PerlModule_SetPropertySync_def with_object_def assms(1) call set_perl_def ctx truth_of_def)
  show "\<exists>m'. PerlModule_ListPropertiesSync api str m = Inr (None, m') \<and> ps_mem (pmo_perl m') = ps_mem (pmo_perl m)"
    by (simp add: PerlModule_ListPropertiesSync_def with_object_def assms(1) call set_perl_def ctx)
  assume "row_strings s mem = Some (''flipStatus'', v) \<and> pm_hashes mem self = TestSimple_pm_new"
  then show "Module_pm_params [(''alias'', ''foo'')] self [s] mem = mem" by (simp add: TestSimple_pm_new_def)
qed

theorem perl_properties_unreachable_witness:
  "\<exists>m'. PerlModule_GetPropertySync (snd (TestSimple_pm sample_env)) (\<lambda>_. []) ''foo''
      ((PerlModule_new ''m'' 0 ''TestSimple.pm'' (sample_perl TestSimple_pm_new))\<lparr>pmo_ref := Some (newRV (HashRef 0))\<rparr>) = Inr (None, m')"
  using perl_properties_unreachable [of "(PerlModule_new ''m'' 0 ''TestSimple.pm'' (sample_perl TestSimple_pm_new))\<lparr>pmo_ref := Some (newRV (HashRef 0))\<rparr>"
      0 "snd (TestSimple_pm sample_env)" sample_env "\<lambda>_. []" "''foo''" "[]" "\<lambda>_. []" sv_undef
      "ps_mem (sample_perl TestSimple_pm_new)" sv_undef] by auto

end
