(* ===== verification/PythonApi.thy ===== *)
theory PythonApi
  imports PerlModule
begin

text \<open>
  The embedded Python 2 interpreter as the C++ code sees it (\<^verbatim>\<open>src/lib/EmbeddedPython.h\<close>, \<^verbatim>\<open>EmbeddedPython.cc\<close>): objects
  with their addresses, the references the C++ code owns, the pending exception, the global interpreter lock, the counter of
  users and the cache of SWIG types, and the functions of the Python C interface the code calls.  What Python programs do
  (imports, attributes, calls, conversions of objects of other classes) and the generated SWIG runtime are arguments, the
  fields of a record.  Objects are not removed from the memory when their last reference goes.  Log messages are left out.
\<close>

section \<open>Objects\<close>

text \<open>An \<^verbatim>\<open>int\<close> of Python 2 is a \<^verbatim>\<open>long\<close> of C++, a \<^verbatim>\<open>long\<close> is unbounded.  Objects of other classes are instances.\<close>

datatype py_object = PyNone | PyBool bool | PyInt int | PyLong int | PyString string | PyTuple "nat list" | PyList "nat list"
  | PyMethod nat string | PyInstance

record 'p py_mem =
  po_objs :: "nat \<Rightarrow> py_object"
  po_next :: nat
  po_rest :: 'p

text \<open>The addresses of the objects that exist once.\<close>

definition Py_None :: nat where
  "Py_None = 0"

definition Py_False :: nat where
  "Py_False = 1"

definition Py_True :: nat where
  "Py_True = 2"

definition py_alloc :: "py_object \<Rightarrow> 'p py_mem \<Rightarrow> nat \<times> 'p py_mem" where
  "py_alloc ob m = (po_next m, m\<lparr>po_objs := (po_objs m)(po_next m := ob), po_next := Suc (po_next m)\<rparr>)"

text \<open>
  Importing a module, reading an attribute, calling an object with a tuple; the number and the string of an instance; the
  wrapper functions of the SWIG runtime, which accept an unknown type.  A null result means that an exception was raised.
\<close>

record ('d, 'p) py_api =
  py_import :: "string \<Rightarrow> 'p py_mem \<Rightarrow> nat option \<times> 'p py_mem"
  py_getattr :: "nat \<Rightarrow> string \<Rightarrow> 'p py_mem \<Rightarrow> nat option \<times> 'p py_mem"
  py_call :: "nat \<Rightarrow> nat list \<Rightarrow> 'p py_mem \<Rightarrow> nat option \<times> 'p py_mem"
  py_number :: "nat \<Rightarrow> 'p py_mem \<Rightarrow> int option"
  py_text :: "nat \<Rightarrow> 'p py_mem \<Rightarrow> string option"
  Python_TypeQuery :: "string \<Rightarrow> nat option"
  Python_NewPointerObj :: "'d cpp_object \<Rightarrow> nat option \<Rightarrow> 'p py_mem \<Rightarrow> nat \<times> 'p py_mem"
  Python_ConvertPtr :: "nat \<Rightarrow> nat option \<Rightarrow> 'p py_mem \<Rightarrow> int \<times> 'd cpp_object option \<times> 'p py_mem"

section \<open>The process and its interpreter\<close>

text \<open>
  There is one interpreter for the process.  \<open>py_gil\<close> counts how often the calling thread has entered it, \<open>py_refs\<close> are the
  references the C++ code owns, \<open>py_err\<close> says whether an exception is pending.
\<close>

record 'p py_state =
  py_used :: int
  py_initialized :: bool
  py_cache :: "string \<rightharpoonup> nat option"
  py_running :: bool
  py_gil :: nat
  py_refs :: "nat \<Rightarrow> int"
  py_err :: bool
  py_mem :: "'p py_mem"

definition Python_Lock :: "'p py_state \<Rightarrow> 'p py_state" where
  "Python_Lock st = st\<lparr>py_gil := Suc (py_gil st)\<rparr>"

definition Python_Unlock :: "'p py_state \<Rightarrow> 'p py_state" where
  "Python_Unlock st = st\<lparr>py_gil := py_gil st - 1\<rparr>"

definition Py_ref :: "nat \<Rightarrow> int \<Rightarrow> 'p py_state \<Rightarrow> 'p py_state" where
  "Py_ref a d st = st\<lparr>py_refs := (\<lambda>x. py_refs st x + (if x = a then d else 0))\<rparr>"

definition Py_INCREF :: "nat \<Rightarrow> 'p py_state \<Rightarrow> 'p py_state" where
  "Py_INCREF a st = Py_ref a 1 st"

definition Py_DECREF :: "nat \<Rightarrow> 'p py_state \<Rightarrow> 'p py_state" where
  "Py_DECREF a st = Py_ref a (- 1) st"

text \<open>A function of the interface that returns a new reference, or null with an exception pending.\<close>

definition new_ref :: "('p py_mem \<Rightarrow> nat option \<times> 'p py_mem) \<Rightarrow> 'p py_state \<Rightarrow> nat option \<times> 'p py_state" where
  "new_ref f st =
     (case f (py_mem st) of
        (None, m) \<Rightarrow> (None, st\<lparr>py_mem := m, py_err := True\<rparr>)
      | (Some a, m) \<Rightarrow> (Some a, Py_INCREF a (st\<lparr>py_mem := m\<rparr>)))"

text \<open>Making an object does not fail.\<close>

definition new_object :: "py_object \<Rightarrow> 'p py_state \<Rightarrow> nat \<times> 'p py_state" where
  "new_object ob st = (let (a, m) = py_alloc ob (py_mem st) in (a, Py_INCREF a (st\<lparr>py_mem := m\<rparr>)))"

text \<open>\<^verbatim>\<open>LogError\<close> fetches the pending exception, which is so cleared.\<close>

definition LogError :: "'p py_state \<Rightarrow> 'p py_state" where
  "LogError st = st\<lparr>py_err := False\<rparr>"

text \<open>
  The first object starts the interpreter with the memory \<open>start\<close>; the last one that is deleted enters it and ends it.  The
  flag \<open>initialized\<close> and the cache are kept.
\<close>

definition EmbeddedPython_new :: "'p py_mem \<Rightarrow> 'p py_state \<Rightarrow> 'p py_state" where
  "EmbeddedPython_new start st =
     (let st1 = (if py_used st = 0 then st\<lparr>py_running := True, py_mem := start, py_refs := (\<lambda>_. 0), py_err := False, py_gil := 0\<rparr> else st)
      in st1\<lparr>py_used := py_used st1 + 1\<rparr>)"

definition EmbeddedPython_delete :: "'p py_state \<Rightarrow> 'p py_state" where
  "EmbeddedPython_delete st =
     (let st1 = st\<lparr>py_used := py_used st - 1\<rparr>
      in if py_used st1 = 0 then (Python_Lock st1)\<lparr>py_running := False\<rparr> else st1)"

text \<open>\<open>symbol\<close> says which functions of \<^verbatim>\<open>_Hector.so\<close> \<^verbatim>\<open>LibraryLoader::LoadLibrary\<close> finds.\<close>

definition EmbeddedPython_Init :: "('d, 'p) py_api \<Rightarrow> (string \<Rightarrow> bool) \<Rightarrow> 'p py_state \<Rightarrow> bool \<times> 'p py_state" where
  "EmbeddedPython_Init api symbol st =
     (if py_initialized st then (True, st)
      else case new_ref (py_import api ''Hector'') (Python_Lock st) of
             (None, st1) \<Rightarrow> (False, Python_Unlock (LogError st1))
           | (Some h, st1) \<Rightarrow>
               (let st2 = Python_Unlock st1
                in if \<not> symbol ''Python_TypeQuery_Wrapper'' then (False, st2)
                   else if \<not> symbol ''Python_NewPointerObj_Wrapper'' then (False, st2)
                   else if \<not> symbol ''Python_ConvertPtr_Wrapper'' then (False, st2)
                   else (True, st2\<lparr>py_initialized := True\<rparr>)))"

text \<open>The type of a name; a name that is not known is kept as null.\<close>

definition py_type_info :: "('d, 'p) py_api \<Rightarrow> string \<Rightarrow> 'p py_state \<Rightarrow> nat option \<times> 'p py_state" where
  "py_type_info api type st =
     (case py_cache st type of
        Some info \<Rightarrow> (info, st)
      | None \<Rightarrow> (Python_TypeQuery api type, st\<lparr>py_cache := (py_cache st)(type \<mapsto> Python_TypeQuery api type)\<rparr>))"

definition PyNewPointerObj :: "('d, 'p) py_api \<Rightarrow> 'd cpp_object \<Rightarrow> string \<Rightarrow> 'p py_state \<Rightarrow> nat \<times> 'p py_state" where
  "PyNewPointerObj api ob type st =
     (let (info, st1) = py_type_info api type st; (a, m) = Python_NewPointerObj api ob info (py_mem st1)
      in (a, Py_INCREF a (st1\<lparr>py_mem := m\<rparr>)))"

definition PyConvertPtr :: "('d, 'p) py_api \<Rightarrow> nat \<Rightarrow> string \<Rightarrow> 'p py_state \<Rightarrow> int \<times> 'd cpp_object option \<times> 'p py_state" where
  "PyConvertPtr api a type st =
     (let (info, st1) = py_type_info api type st; (res, ob, m) = Python_ConvertPtr api a info (py_mem st1)
      in (res, ob, st1\<lparr>py_mem := m\<rparr>))"

subsection \<open>Calls\<close>

text \<open>
  The arguments of \<^verbatim>\<open>Py_VaBuildValue\<close>: objects, strings and integers.  A null object is an error.
\<close>

datatype py_arg = AO "nat option" | AS string | AI int

fun build_items :: "py_arg list \<Rightarrow> 'p py_mem \<Rightarrow> nat list option \<times> 'p py_mem" where
  "build_items [] m = (Some [], m)"
| "build_items (AO None # as) m = (None, m)"
| "build_items (AO (Some a) # as) m = (let (rest, m1) = build_items as m in (map_option ((#) a) rest, m1))"
| "build_items (AS s # as) m =
     (let (a, m1) = py_alloc (PyString (c_str s)) m; (rest, m2) = build_items as m1 in (map_option ((#) a) rest, m2))"
| "build_items (AI i # as) m =
     (let (a, m1) = py_alloc (PyInt i) m; (rest, m2) = build_items as m1 in (map_option ((#) a) rest, m2))"

definition Py_VaBuildValue :: "py_arg list \<Rightarrow> 'p py_mem \<Rightarrow> nat option \<times> 'p py_mem" where
  "Py_VaBuildValue as m =
     (case build_items as m of
        (None, m1) \<Rightarrow> (None, m1)
      | (Some xs, m1) \<Rightarrow> (let (t, m2) = py_alloc (PyTuple xs) m1 in (Some t, m2)))"

definition PyEval_CallObject :: "('d, 'p) py_api \<Rightarrow> nat \<Rightarrow> nat \<Rightarrow> 'p py_mem \<Rightarrow> nat option \<times> 'p py_mem" where
  "PyEval_CallObject api f t m = (case po_objs m t of PyTuple xs \<Rightarrow> py_call api f xs m | _ \<Rightarrow> (None, m))"

definition PyLoadModule :: "('d, 'p) py_api \<Rightarrow> string \<Rightarrow> py_arg list \<Rightarrow> 'p py_state \<Rightarrow> nat option \<times> 'p py_state" where
  "PyLoadModule api name as st =
     (case new_ref (py_import api name) st of
        (None, st1) \<Rightarrow> (None, LogError st1)
      | (Some md, st1) \<Rightarrow>
     (case new_ref (py_getattr api md name) st1 of
        (None, st2) \<Rightarrow> (None, LogError (Py_DECREF md st2))
      | (Some cl, st2) \<Rightarrow>
     (case new_ref (Py_VaBuildValue as) (Py_DECREF md st2) of
        (None, st3) \<Rightarrow> (None, LogError (Py_DECREF cl st3))
      | (Some args, st3) \<Rightarrow>
     (case new_ref (PyEval_CallObject api cl args) st3 of
        (None, st4) \<Rightarrow> (None, LogError (Py_DECREF args (Py_DECREF cl st4)))
      | (Some ob, st4) \<Rightarrow> (Some ob, Py_DECREF args (Py_DECREF cl st4))))))"

text \<open>Reading an attribute of a null pointer is a crash.\<close>

definition PyCallMethod1 :: "('d, 'p) py_api \<Rightarrow> nat option \<Rightarrow> string \<Rightarrow> nat \<Rightarrow> 'p py_state \<Rightarrow> failure + nat option \<times> 'p py_state" where
  "PyCallMethod1 api md name args st =
     (case md of
        None \<Rightarrow> Inl NullDeref
      | Some self \<Rightarrow>
     (case new_ref (py_getattr api self name) st of
        (None, st1) \<Rightarrow> Inr (None, LogError st1)
      | (Some f, st1) \<Rightarrow>
     (case new_ref (PyEval_CallObject api f args) st1 of
        (None, st2) \<Rightarrow> Inr (None, LogError (Py_DECREF f st2))
      | (Some r, st2) \<Rightarrow> Inr (Some r, Py_DECREF f st2))))"

definition PyCallMethod :: "('d, 'p) py_api \<Rightarrow> nat option \<Rightarrow> string \<Rightarrow> py_arg list \<Rightarrow> 'p py_state \<Rightarrow> failure + nat option \<times> 'p py_state" where
  "PyCallMethod api md name as st =
     (case new_ref (Py_VaBuildValue as) st of
        (None, st1) \<Rightarrow> Inr (None, LogError st1)
      | (Some args, st1) \<Rightarrow>
          bind_result (PyCallMethod1 api md name args st1) (\<lambda>(r, st2). Inr (r, Py_DECREF args st2)))"

subsection \<open>Values\<close>

text \<open>
  \<^verbatim>\<open>PyInt_AsLong\<close> and \<^verbatim>\<open>PyLong_AsLong\<close> accept the same objects and return -1 with an exception pending for the others.
\<close>

definition fits_long :: "int \<Rightarrow> bool" where
  "fits_long i \<longleftrightarrow> - (2 ^ 63) \<le> i \<and> i < 2 ^ 63"

definition number_of :: "('d, 'p) py_api \<Rightarrow> nat \<Rightarrow> 'p py_mem \<Rightarrow> int option" where
  "number_of api a m =
     (case po_objs m a of
        PyInt i \<Rightarrow> Some i
      | PyBool b \<Rightarrow> Some (if b then 1 else 0)
      | PyLong i \<Rightarrow> (if fits_long i then Some i else None)
      | PyInstance \<Rightarrow> (case py_number api a m of Some i \<Rightarrow> (if fits_long i then Some i else None) | None \<Rightarrow> None)
      | _ \<Rightarrow> None)"

definition as_long :: "('d, 'p) py_api \<Rightarrow> nat \<Rightarrow> 'p py_state \<Rightarrow> int \<times> 'p py_state" where
  "as_long api a st = (case number_of api a (py_mem st) of Some i \<Rightarrow> (i, st) | None \<Rightarrow> (- 1, st\<lparr>py_err := True\<rparr>))"

definition PyInt_Check :: "py_object \<Rightarrow> bool" where
  "PyInt_Check ob = (case ob of PyInt i \<Rightarrow> True | PyBool b \<Rightarrow> True | _ \<Rightarrow> False)"

definition string_value :: "('d, 'p) py_api \<Rightarrow> nat \<Rightarrow> 'p py_mem \<Rightarrow> string option" where
  "string_value api a m = (case po_objs m a of PyString s \<Rightarrow> Some s | PyInstance \<Rightarrow> py_text api a m | _ \<Rightarrow> None)"

text \<open>\<^verbatim>\<open>PyString_AsString\<close> returns null for an object that is no string; the callers copy the result without a look at it.\<close>

definition copy_string :: "('d, 'p) py_api \<Rightarrow> nat \<Rightarrow> 'p py_state \<Rightarrow> failure + string" where
  "copy_string api a st = (case string_value api a (py_mem st) of None \<Rightarrow> Inl NullDeref | Some s \<Rightarrow> Inr (c_str s))"

section \<open>References and the lock\<close>

text \<open>The second state has the same lock, and owns the references \<open>D\<close> more.\<close>

definition owes :: "'p py_state \<Rightarrow> (nat \<Rightarrow> int) \<Rightarrow> 'p py_state \<Rightarrow> bool" where
  "owes st D st' \<longleftrightarrow> py_gil st' = py_gil st \<and> py_refs st' = (\<lambda>x. py_refs st x + D x) \<and> py_used st' = py_used st \<and>
     py_running st' = py_running st \<and> py_initialized st' = py_initialized st"

definition one :: "nat \<Rightarrow> nat \<Rightarrow> int" where
  "one a x = (if x = a then 1 else 0)"

definition owned :: "nat option \<Rightarrow> nat \<Rightarrow> int" where
  "owned r = (case r of None \<Rightarrow> (\<lambda>_. 0) | Some a \<Rightarrow> one a)"

lemma owned_simps [simp]: "owned None = (\<lambda>_. 0)" "owned (Some a) = one a"
  by (simp_all add: owned_def)

lemma DECREF_fields [simp]:
  "py_refs (Py_DECREF a st) = (\<lambda>x. py_refs st x - one a x)" "py_gil (Py_DECREF a st) = py_gil st" "py_used (Py_DECREF a st) = py_used st"
  "py_running (Py_DECREF a st) = py_running st" "py_initialized (Py_DECREF a st) = py_initialized st" "py_mem (Py_DECREF a st) = py_mem st"
  "py_err (Py_DECREF a st) = py_err st" "py_cache (Py_DECREF a st) = py_cache st"
  by (auto simp: Py_DECREF_def Py_ref_def one_def fun_eq_iff)

lemma INCREF_fields [simp]:
  "py_refs (Py_INCREF a st) = (\<lambda>x. py_refs st x + one a x)" "py_gil (Py_INCREF a st) = py_gil st" "py_used (Py_INCREF a st) = py_used st"
  "py_running (Py_INCREF a st) = py_running st" "py_initialized (Py_INCREF a st) = py_initialized st" "py_mem (Py_INCREF a st) = py_mem st"
  "py_err (Py_INCREF a st) = py_err st" "py_cache (Py_INCREF a st) = py_cache st"
  by (auto simp: Py_INCREF_def Py_ref_def one_def fun_eq_iff)

lemma owes_refl [simp]: "owes st (\<lambda>_. 0) st"
  by (simp add: owes_def)

lemma owes_trans: "owes a D b \<Longrightarrow> owes b E c \<Longrightarrow> (\<And>x. F x = D x + E x) \<Longrightarrow> owes a F c"
  by (auto simp: owes_def fun_eq_iff)

lemma owes_mem [simp]:
  "owes st D (st'\<lparr>py_mem := m\<rparr>) = owes st D st'" "owes st D (st'\<lparr>py_err := e\<rparr>) = owes st D st'" "owes st D (st'\<lparr>py_cache := c\<rparr>) = owes st D st'"
  "owes st D (LogError st') = owes st D st'"
  by (simp_all add: owes_def LogError_def)

lemma owes_DECREF [simp]: "owes st D (Py_DECREF a st') = owes st (\<lambda>x. D x + one a x) st'"
  by (auto simp: owes_def fun_eq_iff algebra_simps)

lemma owes_INCREF [simp]: "owes st D (Py_INCREF a st') = owes st (\<lambda>x. D x - one a x) st'"
  by (auto simp: owes_def fun_eq_iff algebra_simps)

lemma new_ref_owes: "new_ref f st = (r, st') \<Longrightarrow> owes st (owned r) st'"
  by (auto simp: new_ref_def split: prod.splits option.splits)

lemma new_object_owes: "new_object ob st = (a, st') \<Longrightarrow> owes st (one a) st'"
  by (auto simp: new_object_def py_alloc_def)

lemma type_info_owes: "owes st (\<lambda>_. 0) (snd (py_type_info api t st))"
  by (auto simp: py_type_info_def split: option.splits)

lemma NewPointer_owes: "PyNewPointerObj api ob t st = (a, st') \<Longrightarrow> owes st (one a) st'"
  using type_info_owes [of st api t] by (auto simp: PyNewPointerObj_def case_prod_beta Let_def)

lemma ConvertPtr_owes: "PyConvertPtr api a t st = (res, ob, st') \<Longrightarrow> owes st (\<lambda>_. 0) st'"
  using type_info_owes [of st api t] by (auto simp: PyConvertPtr_def case_prod_beta Let_def)

lemma as_long_owes: "as_long api a st = (i, st') \<Longrightarrow> owes st (\<lambda>_. 0) st'"
  by (auto simp: as_long_def split: option.splits)

text \<open>After the facts about the calls are collected, the sums of references are compared.\<close>

lemmas owes_facts = new_ref_owes new_object_owes NewPointer_owes ConvertPtr_owes as_long_owes

lemmas owes_sum = owes_def fun_eq_iff

lemma CallMethod1_owes: "PyCallMethod1 api md name args st = Inr (r, st') \<Longrightarrow> owes st (owned r) st'"
  by (auto simp: PyCallMethod1_def split: option.splits prod.splits dest!: owes_facts) (auto simp: owes_sum)

lemma CallMethod_owes: "PyCallMethod api md name as st = Inr (r, st') \<Longrightarrow> owes st (owned r) st'"
  by (auto simp: PyCallMethod_def bind_result_Inr_iff split: option.splits prod.splits dest!: owes_facts CallMethod1_owes) (auto simp: owes_sum)

lemma LoadModule_owes: "PyLoadModule api name as st = (r, st') \<Longrightarrow> owes st (owned r) st'"
  by (auto simp: PyLoadModule_def split: option.splits prod.splits dest!: owes_facts) (auto simp: owes_sum)

end
