(* ===== verification/PythonModule.thy ===== *)
theory PythonModule
  imports PythonApi
begin

text \<open>
  Modules written in Python (\<^verbatim>\<open>src/lib/processing_engine/PythonModule.h\<close>, \<^verbatim>\<open>PythonModule.cc\<close>): a module whose functions call
  methods of a Python object under the global interpreter lock.  Resources are handed over as SWIG pointers that Python
  owns; what the methods return is taken back.  \<open>GetObjectName\<close> of a resource is an argument.  At the end the classes
  \<^verbatim>\<open>module/python/TestSimple.py\<close> and \<^verbatim>\<open>TestMulti.py\<close> are translated.  Log messages are left out.
\<close>

section \<open>The object\<close>

record python_module =
  pyo_id :: string
  pyo_threadIndex :: int
  pyo_name :: string
  pyo_module :: "nat option"
  pyo_obj :: "nat option"

type_synonym ('d, 'p) named_py_api = "('d resource \<Rightarrow> string) \<times> ('d, 'p) py_api"

definition PythonModule_new :: "'p py_mem \<Rightarrow> string \<Rightarrow> int \<Rightarrow> string \<Rightarrow> 'p py_state \<Rightarrow> python_module \<times> 'p py_state" where
  "PythonModule_new start i threadIndex name st =
     (\<lparr>pyo_id = i, pyo_threadIndex = threadIndex, pyo_name = strip_extension (c_str name), pyo_module = None, pyo_obj = None\<rparr>,
      EmbeddedPython_new start st)"

definition drop_ref :: "nat option \<Rightarrow> 'p py_state \<Rightarrow> 'p py_state" where
  "drop_ref r st = (case r of None \<Rightarrow> st | Some a \<Rightarrow> Py_DECREF a st)"

definition PythonModule_delete :: "python_module \<Rightarrow> 'p py_state \<Rightarrow> 'p py_state" where
  "PythonModule_delete m st =
     EmbeddedPython_delete (Python_Unlock (drop_ref (pyo_obj m) (drop_ref (pyo_module m) (Python_Lock st))))"

text \<open>Every function enters the interpreter and leaves it at the end.\<close>

definition with_gil :: "('p py_state \<Rightarrow> failure + 'r \<times> 'p py_state) \<Rightarrow> 'p py_state \<Rightarrow> failure + 'r \<times> 'p py_state" where
  "with_gil body st = bind_result (body (Python_Lock st)) (\<lambda>(r, st1). Inr (r, Python_Unlock st1))"

text \<open>A list takes over a reference.\<close>

definition list_append :: "nat \<Rightarrow> nat \<Rightarrow> 'p py_state \<Rightarrow> 'p py_state" where
  "list_append l a st =
     (let m = py_mem st; xs = (case po_objs m l of PyList ys \<Rightarrow> ys | _ \<Rightarrow> [])
      in Py_DECREF a (st\<lparr>py_mem := m\<lparr>po_objs := (po_objs m)(l := PyList (xs @ [a]))\<rparr>\<rparr>))"

text \<open>\<^verbatim>\<open>PyTuple_Pack\<close> adds references of its own, and the strings are not released.\<close>

fun param_list :: "nat \<Rightarrow> (string \<times> string) list \<Rightarrow> 'p py_state \<Rightarrow> 'p py_state" where
  "param_list l [] st = st"
| "param_list l ((k, v) # ps) st =
     (let (a, st1) = new_object (PyString (c_str k)) st;
          (b, st2) = new_object (PyString (c_str v)) st1;
          (t, st3) = new_object (PyTuple [a, b]) st2
      in param_list l ps (list_append l t st3))"

text \<open>The result of \<open>Init\<close>, which has to be the object \<^verbatim>\<open>True\<close>.\<close>

definition init_result :: "nat option \<Rightarrow> 'p py_state \<Rightarrow> bool \<times> 'p py_state" where
  "init_result r st =
     (case r of
        None \<Rightarrow> (False, st)
      | Some a \<Rightarrow> ((case po_objs (py_mem st) a of PyBool b \<Rightarrow> True | _ \<Rightarrow> False) \<and> a = Py_True, Py_DECREF a st))"

definition PythonModule_Init ::
  "('d, 'p) py_api \<Rightarrow> (string \<Rightarrow> bool) \<Rightarrow> (string \<times> string) list option \<Rightarrow> python_module \<Rightarrow> 'p py_state
     \<Rightarrow> failure + (bool \<times> python_module) \<times> 'p py_state" where
  "PythonModule_Init api symbol params m st =
     (let (ok, st0) = EmbeddedPython_Init api symbol st in
      if \<not> ok then Inr ((False, m), st0)
      else with_gil (\<lambda>st1.
        case params of
          Some ps \<Rightarrow>
            (let (ob, st2) = PyNewPointerObj api CppThis ''Object *'' st1;
                 (md, st3) = PyLoadModule api (pyo_name m) [AO (Some ob), AS (pyo_id m), AI (pyo_threadIndex m)] st2;
                 m1 = m\<lparr>pyo_obj := Some ob, pyo_module := md\<rparr>
             in if md = None then Inr ((False, m1), st3)
                else let (l, st4) = new_object (PyList []) st3
                     in bind_result (PyCallMethod api md ''Init'' [AO (Some l)] (param_list l ps st4)) (\<lambda>(r, st5).
                          let (b, st6) = init_result r (Py_DECREF l st5) in Inr ((b, m1), st6)))
        | None \<Rightarrow>
            bind_result (PyCallMethod api (pyo_module m) ''Init'' [AO (Some Py_None)] (Py_INCREF Py_None st1)) (\<lambda>(r, st2).
              let (b, st3) = init_result r (Py_DECREF Py_None st2) in Inr ((b, m), st3))) st0)"

definition PythonModule_GetType :: "('d, 'p) py_api \<Rightarrow> python_module \<Rightarrow> 'p py_state \<Rightarrow> failure + module_type \<times> 'p py_state" where
  "PythonModule_GetType api m = with_gil (\<lambda>st.
     bind_result (PyCallMethod api (pyo_module m) ''GetType'' [] st) (\<lambda>(r, st1).
       case r of
         None \<Rightarrow> Inr (INVALID, st1)
       | Some a \<Rightarrow> (if \<not> PyInt_Check (po_objs (py_mem st1) a) then Inr (INVALID, Py_DECREF a st1)
                    else let (i, st2) = as_long api a st1 in Inr (type_of_number i, Py_DECREF a st2))))"

section \<open>Running\<close>

text \<open>
  A call whose result is read as a number.  The check of the type of the result, \<^verbatim>\<open>PyInt_Check(out) >= 0\<close>, is always true.
\<close>

definition number_call ::
  "('d, 'p) py_api \<Rightarrow> string \<Rightarrow> py_arg list \<Rightarrow> python_module \<Rightarrow> 'p py_state \<Rightarrow> failure + int option \<times> 'p py_state" where
  "number_call api method as m = with_gil (\<lambda>st.
     bind_result (PyCallMethod api (pyo_module m) method as st) (\<lambda>(out, st1).
       case out of
         None \<Rightarrow> Inr (None, st1)
       | Some a \<Rightarrow> (let (i, st2) = as_long api a st1 in Inr (Some i, Py_DECREF a st2))))"

definition forget_result :: "(failure + 'r \<times> 'p py_state) \<Rightarrow> failure + unit \<times> 'p py_state" where
  "forget_result res = bind_result res (\<lambda>(i, st). Inr ((), st))"

definition PythonModule_StartSync :: "('d, 'p) py_api \<Rightarrow> python_module \<Rightarrow> 'p py_state \<Rightarrow> failure + unit \<times> 'p py_state" where
  "PythonModule_StartSync api m st = forget_result (number_call api ''Start'' [] m st)"

definition PythonModule_StopSync :: "('d, 'p) py_api \<Rightarrow> python_module \<Rightarrow> 'p py_state \<Rightarrow> failure + unit \<times> 'p py_state" where
  "PythonModule_StopSync api m st = forget_result (number_call api ''Stop'' [] m st)"

definition PythonModule_PauseSync :: "('d, 'p) py_api \<Rightarrow> python_module \<Rightarrow> 'p py_state \<Rightarrow> failure + unit \<times> 'p py_state" where
  "PythonModule_PauseSync api m st = forget_result (number_call api ''Pause'' [] m st)"

definition PythonModule_ResumeSync :: "('d, 'p) py_api \<Rightarrow> python_module \<Rightarrow> 'p py_state \<Rightarrow> failure + unit \<times> 'p py_state" where
  "PythonModule_ResumeSync api m st = forget_result (number_call api ''Resume'' [] m st)"

text \<open>Taking a resource back; a negative number says that the object is no resource.\<close>

definition py_take_resource :: "('d, 'p) py_api \<Rightarrow> nat \<Rightarrow> 'p py_state \<Rightarrow> 'd resource option option \<times> 'p py_state" where
  "py_take_resource api a st =
     (let (res, ob, st1) = PyConvertPtr api a ''Resource *'' st
      in (if res \<ge> 0 then Some (case ob of Some (CppResource r) \<Rightarrow> Some r | _ \<Rightarrow> None) else None, st1))"

definition py_take_result :: "('d, 'p) py_api \<Rightarrow> nat option \<Rightarrow> 'p py_state \<Rightarrow> 'd resource option \<times> 'p py_state" where
  "py_take_result api out st =
     (case out of
        None \<Rightarrow> (None, st)
      | Some a \<Rightarrow> (let (got, st1) = py_take_resource api a st in (case got of None \<Rightarrow> None | Some r \<Rightarrow> r, Py_DECREF a st1)))"

definition py_give_resource :: "('d, 'p) named_py_api \<Rightarrow> 'd resource \<Rightarrow> 'p py_state \<Rightarrow> nat \<times> 'p py_state" where
  "py_give_resource napi r st = PyNewPointerObj (snd napi) (CppResource r) (snprintf 100 (fst napi r @ '' *'')) st"

definition PythonModule_ProcessInputSync ::
  "('d, 'p) named_py_api \<Rightarrow> bool \<Rightarrow> python_module \<Rightarrow> 'p py_state \<Rightarrow> failure + 'd resource option \<times> 'p py_state" where
  "PythonModule_ProcessInputSync napi sleep m = with_gil (\<lambda>st.
     bind_result (PyCallMethod (snd napi) (pyo_module m) ''ProcessInput'' [] st) (\<lambda>(out, st1).
       Inr (py_take_result (snd napi) out st1)))"

text \<open>The two functions with a resource as argument; a null pointer is handed over as \<^verbatim>\<open>None\<close>.\<close>

definition py_process_one ::
  "('d, 'p) named_py_api \<Rightarrow> string \<Rightarrow> 'd resource option \<Rightarrow> python_module \<Rightarrow> 'p py_state \<Rightarrow> failure + 'd resource option \<times> 'p py_state" where
  "py_process_one napi method resource m = with_gil (\<lambda>st.
     let (a, st1) = (case resource of None \<Rightarrow> (Py_None, Py_INCREF Py_None st) | Some r \<Rightarrow> py_give_resource napi r st)
     in bind_result (PyCallMethod (snd napi) (pyo_module m) method [AO (Some a)] st1) (\<lambda>(out, st2).
          Inr (py_take_result (snd napi) out (Py_DECREF a st2))))"

definition PythonModule_ProcessOutputSync ::
  "('d, 'p) named_py_api \<Rightarrow> 'd resource option \<Rightarrow> python_module \<Rightarrow> 'p py_state \<Rightarrow> failure + 'd resource option \<times> 'p py_state" where
  "PythonModule_ProcessOutputSync napi resource m st = py_process_one napi ''ProcessOutput'' resource m st"

definition PythonModule_ProcessSimpleSync ::
  "('d, 'p) named_py_api \<Rightarrow> 'd resource option \<Rightarrow> python_module \<Rightarrow> 'p py_state \<Rightarrow> failure + 'd resource option \<times> 'p py_state" where
  "PythonModule_ProcessSimpleSync napi resource m st = py_process_one napi ''ProcessSimple'' resource m st"

subsection \<open>Several resources\<close>

text \<open>A queue is emptied into a list, and filled again from the list; objects that are no resources are dropped, \<^verbatim>\<open>None\<close> is a null pointer.\<close>

fun py_give_list :: "('d, 'p) named_py_api \<Rightarrow> nat \<Rightarrow> 'd resource list \<Rightarrow> 'p py_state \<Rightarrow> 'p py_state" where
  "py_give_list napi l [] st = st"
| "py_give_list napi l (r # rs) st = (let (a, st1) = py_give_resource napi r st in py_give_list napi l rs (list_append l a st1))"

fun py_take_items :: "('d, 'p) py_api \<Rightarrow> nat list \<Rightarrow> 'p py_state \<Rightarrow> 'd resource option list \<times> 'p py_state" where
  "py_take_items api [] st = ([], st)"
| "py_take_items api (a # as) st =
     (let (got, st1) = py_take_resource api a st; (rest, st2) = py_take_items api as st1
      in (case got of None \<Rightarrow> rest | Some r \<Rightarrow> r # rest, st2))"

definition list_items :: "nat \<Rightarrow> 'p py_state \<Rightarrow> nat list" where
  "list_items l st = (case po_objs (py_mem st) l of PyList xs \<Rightarrow> xs | _ \<Rightarrow> [])"

definition tuple_item :: "nat \<Rightarrow> nat \<Rightarrow> 'p py_state \<Rightarrow> nat option" where
  "tuple_item t i st = (case po_objs (py_mem st) t of PyTuple xs \<Rightarrow> (if i < length xs then Some (xs ! i) else None) | _ \<Rightarrow> None)"

text \<open>
  The three numbers of the result.  The condition around them, \<^verbatim>\<open>PyTuple_Check(out) >= 0 || ...\<close>, is always true, and the
  checks of the items read the type of an item through a pointer that is null when there is no such item.
\<close>

definition item_long :: "('d, 'p) py_api \<Rightarrow> nat \<Rightarrow> nat \<Rightarrow> 'p py_state \<Rightarrow> failure + int \<times> 'p py_state" where
  "item_long api t i st = (case tuple_item t i st of None \<Rightarrow> Inl NullDeref | Some a \<Rightarrow> Inr (as_long api a st))"

definition multi_result :: "('d, 'p) py_api \<Rightarrow> nat \<Rightarrow> 'p py_state \<Rightarrow> failure + (bool \<times> int \<times> int) \<times> 'p py_state" where
  "multi_result api t st =
     bind_result (item_long api t 0 st) (\<lambda>(b, st1).
     bind_result (item_long api t 1 st1) (\<lambda>(n, st2).
     bind_result (item_long api t 2 st2) (\<lambda>(k, st3).
       Inr ((b \<noteq> 0, wrap_signed 32 n, wrap_signed 32 k), st3))))"

text \<open>\<open>n\<close> and \<open>k\<close> are the values of the two counters before the call.\<close>

definition PythonModule_ProcessMultiSync ::
  "('d, 'p) named_py_api \<Rightarrow> 'd resource list \<Rightarrow> 'd resource list \<Rightarrow> int \<Rightarrow> int \<Rightarrow> python_module \<Rightarrow> 'p py_state \<Rightarrow>
     failure + (bool \<times> 'd resource option list \<times> 'd resource option list \<times> int \<times> int) \<times> 'p py_state" where
  "PythonModule_ProcessMultiSync napi inp outp n k m = with_gil (\<lambda>st.
     let (inRes, st1) = new_object (PyList []) st;
         st2 = py_give_list napi inRes inp st1;
         (outRes, st3) = new_object (PyList []) st2;
         st4 = py_give_list napi outRes outp st3
     in bind_result (PyCallMethod (snd napi) (pyo_module m) ''ProcessMulti'' [AO (Some inRes), AO (Some outRes)] st4) (\<lambda>(out, st5).
          let (inp1, st6) = py_take_items (snd napi) (list_items inRes st5) st5;
              (outp1, st7) = py_take_items (snd napi) (list_items outRes st6) st6;
              st8 = Py_DECREF outRes (Py_DECREF inRes st7)
          in case out of
               None \<Rightarrow> Inr ((False, inp1, outp1, n, k), st8)
             | Some t \<Rightarrow> bind_result (multi_result (snd napi) t st8) (\<lambda>((b, n1, k1), st9).
                           Inr ((b, inp1, outp1, n1, k1), Py_DECREF t st9))))"

section \<open>Properties and checkpoints\<close>

definition PythonModule_GetPropertySync ::
  "('d, 'p) py_api \<Rightarrow> string \<Rightarrow> python_module \<Rightarrow> 'p py_state \<Rightarrow> failure + string option \<times> 'p py_state" where
  "PythonModule_GetPropertySync api name m = with_gil (\<lambda>st.
     bind_result (PyCallMethod api (pyo_module m) ''GetProperty'' [AS name] st) (\<lambda>(out, st1).
       case out of
         None \<Rightarrow> Inr (None, st1)
       | Some a \<Rightarrow> bind_result (copy_string api a st1) (\<lambda>s. Inr (Some s, Py_DECREF a st1))))"

definition PythonModule_SetPropertySync ::
  "('d, 'p) py_api \<Rightarrow> string \<Rightarrow> string \<Rightarrow> python_module \<Rightarrow> 'p py_state \<Rightarrow> failure + bool \<times> 'p py_state" where
  "PythonModule_SetPropertySync api name value m st =
     bind_result (number_call api ''SetProperty'' [AS name, AS value] m st) (\<lambda>(i, st1).
       Inr (case i of None \<Rightarrow> False | Some j \<Rightarrow> j \<noteq> 0, st1))"

fun copy_strings :: "('d, 'p) py_api \<Rightarrow> nat list \<Rightarrow> 'p py_state \<Rightarrow> failure + string list" where
  "copy_strings api [] st = Inr []"
| "copy_strings api (a # as) st =
     bind_result (copy_string api a st) (\<lambda>s. bind_result (copy_strings api as st) (\<lambda>ss. Inr (s # ss)))"

text \<open>The size of an object that is no list is -1, with an exception pending.\<close>

definition PythonModule_ListPropertiesSync ::
  "('d, 'p) py_api \<Rightarrow> python_module \<Rightarrow> 'p py_state \<Rightarrow> failure + string list \<times> 'p py_state" where
  "PythonModule_ListPropertiesSync api m = with_gil (\<lambda>st.
     bind_result (PyCallMethod api (pyo_module m) ''ListProperties'' [] st) (\<lambda>(out, st1).
       case out of
         None \<Rightarrow> Inr ([], st1)
       | Some a \<Rightarrow>
           (case po_objs (py_mem st1) a of
              PyList xs \<Rightarrow> bind_result (copy_strings api xs st1) (\<lambda>ss. Inr (ss, Py_DECREF a st1))
            | _ \<Rightarrow> Inr ([], Py_DECREF a (st1\<lparr>py_err := True\<rparr>)))))"

definition PythonModule_SaveCheckpointSync ::
  "('d, 'p) py_api \<Rightarrow> string \<Rightarrow> string \<Rightarrow> python_module \<Rightarrow> 'p py_state \<Rightarrow> failure + unit \<times> 'p py_state" where
  "PythonModule_SaveCheckpointSync api path i m st = forget_result (number_call api ''SaveCheckpoint'' [AS path, AS i] m st)"

definition PythonModule_RestoreCheckpointSync ::
  "('d, 'p) py_api \<Rightarrow> string \<Rightarrow> string \<Rightarrow> python_module \<Rightarrow> 'p py_state \<Rightarrow> failure + unit \<times> 'p py_state" where
  "PythonModule_RestoreCheckpointSync api path i m st = forget_result (number_call api ''RestoreCheckpoint'' [AS path, AS i] m st)"

section \<open>The lock and the references\<close>

lemma with_gil_Inr_iff: "with_gil f st = Inr (r, st') \<longleftrightarrow> (\<exists>st1. f (Python_Lock st) = Inr (r, st1) \<and> st' = Python_Unlock st1)"
  by (auto simp: with_gil_def bind_result_Inr_iff)

lemma owes_Lock: "owes (Python_Lock st) D st1 \<Longrightarrow> owes st D (Python_Unlock st1)"
  by (simp add: owes_def Python_Lock_def Python_Unlock_def)

text \<open>A function that leaves the lock and all references as they were.\<close>

definition balanced :: "('p py_state \<Rightarrow> failure + 'r \<times> 'p py_state) \<Rightarrow> bool" where
  "balanced f \<longleftrightarrow> (\<forall>st r st'. f st = Inr (r, st') \<longrightarrow> owes st (\<lambda>_. 0) st')"

lemma balancedI: "(\<And>st r st'. f st = Inr (r, st') \<Longrightarrow> owes st (\<lambda>_. 0) st') \<Longrightarrow> balanced f"
  by (simp add: balanced_def)

lemma balancedD: "balanced f \<Longrightarrow> f st = Inr (r, st') \<Longrightarrow> owes st (\<lambda>_. 0) st'"
  by (auto simp: balanced_def)

lemma balanced_gil: "balanced f \<Longrightarrow> balanced (with_gil f)"
  by (auto intro!: balancedI owes_Lock simp: with_gil_Inr_iff dest: balancedD)

text \<open>A call, and then a function that releases the result.\<close>

lemma balanced_call:
  assumes "\<And>out st r st'. g out st = Inr (r, st') \<Longrightarrow> owes st (\<lambda>x. - owned out x) st'"
  shows "balanced (\<lambda>st. bind_result (PyCallMethod api md name as st) (\<lambda>(out, st1). g out st1))"
  by (auto intro!: balancedI simp: bind_result_Inr_iff dest!: CallMethod_owes assms) (auto simp: owes_sum)

lemma balanced_number_call: "balanced (number_call api method as m)"
  unfolding number_call_def
  by (rule balanced_gil, rule balanced_call) (auto split: option.splits prod.splits dest!: as_long_owes simp: owes_sum)

lemma balanced_ignore: "balanced (\<lambda>st. forget_result (number_call api method as m st))"
  by (auto intro!: balancedI simp: forget_result_def bind_result_Inr_iff dest: balancedD [OF balanced_number_call])

lemma take_resource_owes: "py_take_resource api a st = (got, st') \<Longrightarrow> owes st (\<lambda>_. 0) st'"
  by (auto simp: py_take_resource_def split: prod.splits dest!: ConvertPtr_owes)

lemma take_result_owes: "py_take_result api out st = (r, st') \<Longrightarrow> owes st (\<lambda>x. - owned out x) st'"
  by (auto simp: py_take_result_def split: option.splits prod.splits dest!: take_resource_owes)

lemma give_resource_owes: "py_give_resource napi r st = (a, st') \<Longrightarrow> owes st (one a) st'"
  unfolding py_give_resource_def by (rule NewPointer_owes)

lemma list_append_owes: "owes st (\<lambda>x. - one a x) (list_append l a st)"
  by (auto simp: list_append_def Let_def owes_sum)

lemma give_list_owes: "owes st (\<lambda>_. 0) (py_give_list napi l rs st)"
proof (induction rs arbitrary: st)
  case (Cons r rs)
  obtain a st1 where g: "py_give_resource napi r st = (a, st1)" by fastforce
  show ?case using give_resource_owes [OF g] list_append_owes [of st1 a l] Cons.IH [of "list_append l a st1"]
    by (simp add: g) (auto simp: owes_sum)
qed simp

lemma take_items_owes: "py_take_items api as st = (rs, st') \<Longrightarrow> owes st (\<lambda>_. 0) st'"
proof (induction as arbitrary: st rs st')
  case (Cons a as)
  obtain got st1 where t: "py_take_resource api a st = (got, st1)" by fastforce
  obtain rest st2 where u: "py_take_items api as st1 = (rest, st2)" by fastforce
  show ?case using take_resource_owes [OF t] Cons.IH [OF u] Cons.prems by (simp add: t u owes_sum)
qed simp

lemma multi_result_owes: "multi_result api t st = Inr (r, st') \<Longrightarrow> owes st (\<lambda>_. 0) st'"
  by (auto simp: multi_result_def bind_result_Inr_iff item_long_def split: option.splits dest!: as_long_owes) (auto simp: owes_sum)

lemma balanced_process_one: "balanced (py_process_one napi method resource m)"
  unfolding py_process_one_def
  by (rule balanced_gil, rule balancedI)
    (auto simp: bind_result_Inr_iff split: option.splits prod.splits dest!: CallMethod_owes take_result_owes give_resource_owes, auto simp: owes_sum)

lemma balanced_multi: "balanced (PythonModule_ProcessMultiSync napi inp outp n k m)"
  unfolding PythonModule_ProcessMultiSync_def
proof (rule balanced_gil, rule balancedI, goal_cases)
  case (1 st r st')
  obtain a st1 where a: "new_object (PyList []) st = (a, st1)" by fastforce
  obtain b st3 where b: "new_object (PyList []) (py_give_list napi a inp st1) = (b, st3)" by fastforce
  define st4 where "st4 = py_give_list napi b outp st3"
  obtain out st5 where c: "PyCallMethod (snd napi) (pyo_module m) ''ProcessMulti'' [AO (Some a), AO (Some b)] st4 = Inr (out, st5)"
    using 1 by (auto simp: a b st4_def bind_result_Inr_iff)
  obtain i st6 where d: "py_take_items (snd napi) (list_items a st5) st5 = (i, st6)" by fastforce
  obtain j st7 where e: "py_take_items (snd napi) (list_items b st6) st6 = (j, st7)" by fastforce
  have "owes st (\<lambda>x. one a x + one b x + owned out x) st7"
    using new_object_owes [OF a] give_list_owes [of st1 napi a inp] new_object_owes [OF b] give_list_owes [of st3 napi b outp]
      CallMethod_owes [OF c] take_items_owes [OF d] take_items_owes [OF e] by (simp add: st4_def owes_sum)
  then show ?case using 1
    by (auto simp: a b c d e st4_def [symmetric] bind_result_Inr_iff Let_def split: option.splits dest!: multi_result_owes) (auto simp: owes_sum)
qed

lemma balanced_forget: "balanced f \<Longrightarrow> balanced (\<lambda>st. forget_result (f st))"
  by (auto intro!: balancedI simp: forget_result_def bind_result_Inr_iff dest: balancedD)

lemma balanced_strings: "balanced (PythonModule_GetPropertySync api name m)" "balanced (PythonModule_ListPropertiesSync api m)"
  unfolding PythonModule_GetPropertySync_def PythonModule_ListPropertiesSync_def
  by (rule balanced_gil, rule balanced_call, auto simp: bind_result_Inr_iff split: option.splits py_object.splits)+

lemma balanced_GetType: "balanced (PythonModule_GetType api m)"
  unfolding PythonModule_GetType_def
  by (rule balanced_gil, rule balanced_call) (auto split: option.splits if_splits prod.splits dest!: as_long_owes)

lemma balanced_input: "balanced (PythonModule_ProcessInputSync napi sleep m)"
  unfolding PythonModule_ProcessInputSync_def
  by (rule balanced_gil, rule balanced_call) (auto dest!: take_result_owes)

lemma balanced_SetProperty: "balanced (PythonModule_SetPropertySync api name value m)"
  unfolding PythonModule_SetPropertySync_def
  by (rule balancedI) (auto simp: bind_result_Inr_iff dest: balancedD [OF balanced_number_call])

text \<open>The calls the processor and the server make after the initialisation.\<close>

datatype 'd py_request = AskType | AskStart | AskStop | AskPause | AskResume
  | AskInput bool | AskOutput "'d resource option" | AskSimple "'d resource option"
  | AskMulti "'d resource list" "'d resource list" int int
  | AskGet string | AskSet string string | AskList | AskSave string string | AskRestore string string

fun python_perform :: "('d, 'p) named_py_api \<Rightarrow> python_module \<Rightarrow> 'd py_request \<Rightarrow> 'p py_state \<Rightarrow> failure + unit \<times> 'p py_state" where
  "python_perform napi m AskType st = forget_result (PythonModule_GetType (snd napi) m st)"
| "python_perform napi m AskStart st = PythonModule_StartSync (snd napi) m st"
| "python_perform napi m AskStop st = PythonModule_StopSync (snd napi) m st"
| "python_perform napi m AskPause st = PythonModule_PauseSync (snd napi) m st"
| "python_perform napi m AskResume st = PythonModule_ResumeSync (snd napi) m st"
| "python_perform napi m (AskInput sleep) st = forget_result (PythonModule_ProcessInputSync napi sleep m st)"
| "python_perform napi m (AskOutput r) st = forget_result (PythonModule_ProcessOutputSync napi r m st)"
| "python_perform napi m (AskSimple r) st = forget_result (PythonModule_ProcessSimpleSync napi r m st)"
| "python_perform napi m (AskMulti inp outp n k) st = forget_result (PythonModule_ProcessMultiSync napi inp outp n k m st)"
| "python_perform napi m (AskGet name) st = forget_result (PythonModule_GetPropertySync (snd napi) name m st)"
| "python_perform napi m (AskSet name v) st = forget_result (PythonModule_SetPropertySync (snd napi) name v m st)"
| "python_perform napi m AskList st = forget_result (PythonModule_ListPropertiesSync (snd napi) m st)"
| "python_perform napi m (AskSave path i) st = PythonModule_SaveCheckpointSync (snd napi) path i m st"
| "python_perform napi m (AskRestore path i) st = PythonModule_RestoreCheckpointSync (snd napi) path i m st"

lemmas python_defs = PythonModule_StartSync_def PythonModule_StopSync_def PythonModule_PauseSync_def PythonModule_ResumeSync_def
  PythonModule_ProcessOutputSync_def PythonModule_ProcessSimpleSync_def PythonModule_SaveCheckpointSync_def PythonModule_RestoreCheckpointSync_def

lemmas balanced_calls = balanced_number_call balanced_process_one balanced_multi balanced_strings balanced_GetType balanced_input balanced_SetProperty

lemma balanced_perform: "balanced (python_perform napi m req)"
proof (cases req)
  case (AskOutput r)
  have "python_perform napi m req = (\<lambda>st. forget_result (py_process_one napi ''ProcessOutput'' r m st))"
    by (simp add: AskOutput fun_eq_iff python_defs)
  then show ?thesis using balanced_forget [OF balanced_process_one] by metis
next
  case (AskSimple r)
  have "python_perform napi m req = (\<lambda>st. forget_result (py_process_one napi ''ProcessSimple'' r m st))"
    by (simp add: AskSimple fun_eq_iff python_defs)
  then show ?thesis using balanced_forget [OF balanced_process_one] by metis
qed (auto intro!: balancedI simp: python_defs dest: balancedD [OF balanced_forget [OF balanced_number_call]]
      balancedD [OF balanced_forget [OF balanced_multi]] balancedD [OF balanced_forget [OF balanced_strings(1)]]
      balancedD [OF balanced_forget [OF balanced_strings(2)]] balancedD [OF balanced_forget [OF balanced_GetType]]
      balancedD [OF balanced_forget [OF balanced_input]] balancedD [OF balanced_forget [OF balanced_SetProperty]])

text \<open>
  The references of the parameter table: two strings of every parameter are never released.
\<close>

lemma param_list_owes: "\<exists>leaked. length leaked = 2 * length ps \<and> owes st (\<lambda>x. int (count_list leaked x)) (param_list l ps st)"
proof (induction ps arbitrary: st)
  case (Cons p ps)
  obtain k v where p: "p = (k, v)" by fastforce
  obtain a st1 where a: "new_object (PyString (c_str k)) st = (a, st1)" by fastforce
  obtain b st2 where b: "new_object (PyString (c_str v)) st1 = (b, st2)" by fastforce
  obtain t st3 where t: "new_object (PyTuple [a, b]) st2 = (t, st3)" by fastforce
  obtain leaked where l: "length leaked = 2 * length ps"
    "owes (list_append l t st3) (\<lambda>x. int (count_list leaked x)) (param_list l ps (list_append l t st3))" using Cons.IH by blast
  have "owes st (\<lambda>x. int (count_list (a # b # leaked) x)) (param_list l ps (list_append l t st3))"
    using new_object_owes [OF a] new_object_owes [OF b] new_object_owes [OF t] list_append_owes [of st3 t l] l(2)
    by (auto simp: owes_sum one_def)
  then show ?case using l(1) by (intro exI [of _ "a # b # leaked"]) (simp add: p a b t)
qed (rule exI [of _ "[]"], simp)

lemma init_result_owes: "init_result r st = (b, st') \<Longrightarrow> owes st (\<lambda>x. - owned r x) st'"
  by (auto simp: init_result_def split: option.splits)

text \<open>
  The initialisation keeps the module and the object, and with them two references for each parameter that are never
  released.
\<close>

lemma python_init_leaks:
  assumes "py_initialized st \<and> PythonModule_Init api symbol (Some ps) m st = Inr ((b, m1), st') \<and> pyo_module m1 \<noteq> None"
  shows "py_gil st' = py_gil st \<and>
      (\<exists>ob md leaked. pyo_obj m1 = Some ob \<and> pyo_module m1 = Some md \<and> length leaked = 2 * length ps \<and>
         py_refs st' = (\<lambda>x. py_refs st x + one ob x + one md x + int (count_list leaked x)))"
proof -
  obtain ob st2 where n: "PyNewPointerObj api CppThis ''Object *'' (Python_Lock st) = (ob, st2)" by fastforce
  obtain r0 st3 where l: "PyLoadModule api (pyo_name m) [AO (Some ob), AS (pyo_id m), AI (pyo_threadIndex m)] st2 = (r0, st3)" by fastforce
  from assms obtain md where md: "r0 = Some md"
    by (cases r0) (auto simp: PythonModule_Init_def EmbeddedPython_Init_def with_gil_Inr_iff n l)
  obtain t st4 where t: "new_object (PyList []) st3 = (t, st4)" by fastforce
  obtain leaked where leaked: "length leaked = 2 * length ps" "owes st4 (\<lambda>x. int (count_list leaked x)) (param_list t ps st4)"
    using param_list_owes by blast
  from assms obtain r st5 where c: "PyCallMethod api (Some md) ''Init'' [AO (Some t)] (param_list t ps st4) = Inr (r, st5)"
    by (auto simp: PythonModule_Init_def EmbeddedPython_Init_def with_gil_Inr_iff n l md t bind_result_Inr_iff)
  obtain b' st6 where i: "init_result r (Py_DECREF t st5) = (b', st6)" by fastforce
  have "owes (Python_Lock st) (\<lambda>x. one ob x + one md x + int (count_list leaked x)) st6"
    using NewPointer_owes [OF n] LoadModule_owes [OF l] new_object_owes [OF t] leaked(2) CallMethod_owes [OF c] init_result_owes [OF i]
    by (auto simp: owes_sum md)
  then have refs: "owes st (\<lambda>x. one ob x + one md x + int (count_list leaked x)) (Python_Unlock st6)" by (rule owes_Lock)
  have "st' = Python_Unlock st6" "m1 = m\<lparr>pyo_obj := Some ob, pyo_module := Some md\<rparr>"
    using assms by (auto simp: PythonModule_Init_def EmbeddedPython_Init_def with_gil_Inr_iff n l md t c i)
  then have "py_gil st' = py_gil st" "pyo_obj m1 = Some ob" "pyo_module m1 = Some md"
    "py_refs st' = (\<lambda>x. py_refs st x + one ob x + one md x + int (count_list leaked x))"
    using refs by (simp_all add: owes_def fun_eq_iff)
  then show ?thesis using leaked(1) by blast
qed

text \<open>
  C20: the lock and the references of a Python module.  Every call after the initialisation that returns has left the
  interpreter as often as it entered it and owns the same references as before, whatever the Python program did and whether
  or not it raised an exception.
\<close>
theorem python_reference_balance:
  assumes "python_perform napi m req st = Inr ((), st')"
  shows "py_gil st' = py_gil st \<and> py_refs st' = py_refs st"
  using balancedD [OF balanced_perform assms] by (simp add: owes_def)

end
