(* ===== verification/PythonScripts.thy ===== *)
theory PythonScripts
  imports PythonModule
begin

text \<open>
  Python programs under a module: what the C++ code relies on is stated by two locales (the SWIG runtime keeps pointers; a
  simple module gives its resource back), and the classes \<^verbatim>\<open>TestSimple.py\<close> and \<^verbatim>\<open>TestMulti.py\<close> of
  \<^verbatim>\<open>src/lib/processing_engine/module/python\<close> are translated and interpret them.
\<close>

section \<open>Calls on the memory\<close>

definition method_call :: "('d, 'p) py_api \<Rightarrow> nat \<Rightarrow> string \<Rightarrow> py_arg list \<Rightarrow> 'p py_mem \<Rightarrow> nat option \<times> 'p py_mem" where
  "method_call api md name as m =
     (case Py_VaBuildValue as m of
        (None, m1) \<Rightarrow> (None, m1)
      | (Some t, m1) \<Rightarrow>
     (case py_getattr api md name m1 of
        (None, m2) \<Rightarrow> (None, m2)
      | (Some f, m2) \<Rightarrow> PyEval_CallObject api f t m2))"

lemma LogError_mem [simp]: "py_mem (LogError st) = py_mem st" "py_cache (LogError st) = py_cache st"
  by (simp_all add: LogError_def)

lemma Lock_mem [simp]: "py_mem (Python_Lock st) = py_mem st" "py_mem (Python_Unlock st) = py_mem st"
  "py_cache (Python_Lock st) = py_cache st" "py_cache (Python_Unlock st) = py_cache st"
  by (simp_all add: Python_Lock_def Python_Unlock_def)

text \<open>A call of a method of an object returns, with the result of the Python program.\<close>

lemma CallMethod_runs:
  "\<exists>st'. PyCallMethod api (Some md) name as st = Inr (fst (method_call api md name as (py_mem st)), st') \<and>
     py_mem st' = snd (method_call api md name as (py_mem st)) \<and> py_cache st' = py_cache st"
  by (auto simp: PyCallMethod_def PyCallMethod1_def method_call_def new_ref_def split: prod.splits option.splits)

lemma type_info_mem: "py_mem (snd (py_type_info api t st)) = py_mem st"
  by (auto simp: py_type_info_def split: option.splits)

lemma give_resource_runs:
  "\<exists>t c. py_give_resource napi r st =
     (let (a, m) = Python_NewPointerObj (snd napi) (CppResource r) t (py_mem st) in (a, Py_INCREF a (st\<lparr>py_cache := c, py_mem := m\<rparr>)))"
proof -
  obtain t st1 where t: "py_type_info (snd napi) (snprintf 100 (fst napi r @ '' *'')) st = (t, st1)" by fastforce
  then obtain c where "st1 = st\<lparr>py_cache := c\<rparr>" by (auto simp: py_type_info_def split: option.splits intro: that [of "py_cache st"])
  then show ?thesis using t by (auto simp: py_give_resource_def PyNewPointerObj_def case_prod_beta Let_def)
qed

section \<open>The runtime keeps pointers\<close>

text \<open>
  \<open>ptr m a\<close> is the C++ object behind the object at address \<open>a\<close>.  A new pointer gets a new address and leaves the other
  pointers and objects alone, a conversion gives the pointer back, and making or changing objects of Python does not change pointers.
\<close>

locale py_pointers =
  fixes napi :: "('d, 'p) named_py_api" and ptr :: "'p py_mem \<Rightarrow> nat \<Rightarrow> 'd cpp_object option"
  assumes new: "Python_NewPointerObj (snd napi) ob t m = (a, m') \<Longrightarrow>
      ptr m' a = Some ob \<and> (\<forall>b ob'. ptr m b = Some ob' \<longrightarrow> ptr m' b = Some ob') \<and> po_next m \<le> a \<and> a < po_next m' \<and>
      (\<forall>b < po_next m. po_objs m' b = po_objs m b)"
    and convert: "ptr m a = Some ob \<Longrightarrow> Python_ConvertPtr (snd napi) a t m = (res, ob', m') \<Longrightarrow> 0 \<le> res \<and> ob' = Some ob \<and> m' = m"
    and objects: "ptr (m\<lparr>po_objs := f\<rparr>) a = ptr m a"
    and alloc: "ptr m a = Some ob \<Longrightarrow> ptr (snd (py_alloc x m)) a = Some ob"
begin

lemma take_resource_ptr:
  assumes "ptr (py_mem st) a = Some (CppResource r)"
  shows "\<exists>st'. py_take_resource (snd napi) a st = (Some (Some r), st') \<and> py_mem st' = py_mem st"
proof -
  obtain t st1 where t: "py_type_info (snd napi) ''Resource *'' st = (t, st1)" by fastforce
  then have m: "py_mem st1 = py_mem st" using type_info_mem by (metis snd_conv)
  obtain res ob m' where c: "Python_ConvertPtr (snd napi) a t (py_mem st1) = (res, ob, m')" by (metis prod_cases3)
  have "0 \<le> res \<and> ob = Some (CppResource r) \<and> m' = py_mem st1" by (rule convert [OF _ c]) (simp add: m assms)
  then show ?thesis using m c by (simp add: py_take_resource_def PyConvertPtr_def t)
qed

lemma take_items_ptr:
  assumes "list_all2 (\<lambda>a r. ptr (py_mem st) a = Some (CppResource r)) as rs"
  shows "\<exists>st'. py_take_items (snd napi) as st = (map Some rs, st') \<and> py_mem st' = py_mem st"
  using assms
proof (induction as arbitrary: st rs)
  case (Cons a as)
  then obtain r rs' where rs: "rs = r # rs'" "ptr (py_mem st) a = Some (CppResource r)"
    "list_all2 (\<lambda>a r. ptr (py_mem st) a = Some (CppResource r)) as rs'" by (auto simp: list_all2_Cons1)
  obtain st1 where a: "py_take_resource (snd napi) a st = (Some (Some r), st1)" "py_mem st1 = py_mem st" using take_resource_ptr [OF rs(2)] by blast
  then obtain st2 where "py_take_items (snd napi) as st1 = (map Some rs', st2)" "py_mem st2 = py_mem st1" using Cons.IH [of st1 rs'] rs(3) by auto
  then show ?case using a rs(1) by simp
qed simp

text \<open>A list filled from a queue holds pointers to its resources, after what it held before; other objects stay.\<close>

lemma give_resource_ptr:
  assumes "py_give_resource napi r st = (a, st')"
  shows "ptr (py_mem st') a = Some (CppResource r)" "\<And>b ob. ptr (py_mem st) b = Some ob \<Longrightarrow> ptr (py_mem st') b = Some ob"
    "\<And>b. b < po_next (py_mem st) \<Longrightarrow> po_objs (py_mem st') b = po_objs (py_mem st) b" "po_next (py_mem st) \<le> a" "a < po_next (py_mem st')"
proof -
  obtain t c where "py_give_resource napi r st =
     (let (a, m) = Python_NewPointerObj (snd napi) (CppResource r) t (py_mem st) in (a, Py_INCREF a (st\<lparr>py_cache := c, py_mem := m\<rparr>)))"
    using give_resource_runs by blast
  moreover obtain a' m where "Python_NewPointerObj (snd napi) (CppResource r) t (py_mem st) = (a', m)" by fastforce
  ultimately have n: "Python_NewPointerObj (snd napi) (CppResource r) t (py_mem st) = (a, m)" "py_mem st' = m" using assms by auto
  note l = new [OF n(1)]
  show "ptr (py_mem st') a = Some (CppResource r)" "\<And>b. b < po_next (py_mem st) \<Longrightarrow> po_objs (py_mem st') b = po_objs (py_mem st) b"
    "po_next (py_mem st) \<le> a" "a < po_next (py_mem st')" "\<And>b ob. ptr (py_mem st) b = Some ob \<Longrightarrow> ptr (py_mem st') b = Some ob" using l n(2) by auto
qed

lemma append_ptr: "ptr (py_mem (list_append l a st)) b = ptr (py_mem st) b"
  by (simp add: list_append_def Let_def objects)

lemma give_list_ptr:
  assumes "l < po_next (py_mem st)" and "list_all2 (\<lambda>a r. ptr (py_mem st) a = Some (CppResource r)) (list_items l st) qs" and "po_objs (py_mem st) l = PyList xs"
  shows "list_all2 (\<lambda>a r. ptr (py_mem (py_give_list napi l rs st)) a = Some (CppResource r)) (list_items l (py_give_list napi l rs st)) (qs @ rs) \<and>
    (\<forall>b ob. ptr (py_mem st) b = Some ob \<longrightarrow> ptr (py_mem (py_give_list napi l rs st)) b = Some ob) \<and>
    (\<forall>b < po_next (py_mem st). b \<noteq> l \<longrightarrow> po_objs (py_mem (py_give_list napi l rs st)) b = po_objs (py_mem st) b) \<and>
    po_next (py_mem st) \<le> po_next (py_mem (py_give_list napi l rs st)) \<and>
    (\<exists>ys. po_objs (py_mem (py_give_list napi l rs st)) l = PyList ys)"
  using assms
proof (induction rs arbitrary: st qs xs)
  case (Cons r rs)
  obtain a st1 where g: "py_give_resource napi r st = (a, st1)" by fastforce
  note p = give_resource_ptr [OF g]
  define st2 where "st2 = list_append l a st1"
  have l1: "po_objs (py_mem st1) l = PyList xs" using p(3) Cons.prems(1,3) by simp
  have m2: "py_mem st2 = (py_mem st1)\<lparr>po_objs := (po_objs (py_mem st1))(l := PyList (xs @ [a]))\<rparr>"
    by (simp add: st2_def list_append_def Let_def l1)
  have items: "list_items l st2 = list_items l st @ [a]" using Cons.prems(3) by (simp add: list_items_def m2)
  have "list_all2 (\<lambda>a r. ptr (py_mem st2) a = Some (CppResource r)) (list_items l st) qs"
    using Cons.prems(2) by (rule list.rel_mono_strong) (simp add: st2_def append_ptr p(2))
  moreover have "ptr (py_mem st2) a = Some (CppResource r)" using p(1) by (simp add: st2_def append_ptr)
  ultimately have all: "list_all2 (\<lambda>a r. ptr (py_mem st2) a = Some (CppResource r)) (list_items l st2) (qs @ [r])"
    by (simp add: items list_all2_appendI)
  have next2: "po_next (py_mem st) \<le> po_next (py_mem st2)" using p(4,5) by (simp add: m2)
  have IH: "list_all2 (\<lambda>a r. ptr (py_mem (py_give_list napi l rs st2)) a = Some (CppResource r)) (list_items l (py_give_list napi l rs st2)) ((qs @ [r]) @ rs) \<and>
    (\<forall>b ob. ptr (py_mem st2) b = Some ob \<longrightarrow> ptr (py_mem (py_give_list napi l rs st2)) b = Some ob) \<and>
    (\<forall>b < po_next (py_mem st2). b \<noteq> l \<longrightarrow> po_objs (py_mem (py_give_list napi l rs st2)) b = po_objs (py_mem st2) b) \<and>
    po_next (py_mem st2) \<le> po_next (py_mem (py_give_list napi l rs st2)) \<and> (\<exists>ys. po_objs (py_mem (py_give_list napi l rs st2)) l = PyList ys)"
    by (rule Cons.IH [of st2 "qs @ [r]" "xs @ [a]"]) (use Cons.prems next2 all in \<open>simp_all add: m2\<close>)
  have eq: "py_give_list napi l (r # rs) st = py_give_list napi l rs st2" by (simp add: g st2_def)
  show ?case unfolding eq
  proof (intro conjI allI impI)
    fix b ob assume "ptr (py_mem st) b = Some ob"
    then show "ptr (py_mem (py_give_list napi l rs st2)) b = Some ob" using IH p(2) by (simp add: st2_def append_ptr)
  next
    fix b assume "b < po_next (py_mem st)" "b \<noteq> l"
    then show "po_objs (py_mem (py_give_list napi l rs st2)) b = po_objs (py_mem st) b" using IH p(3) next2 by (simp add: m2)
  qed (use IH next2 in auto)
qed auto

text \<open>
  When \<open>ProcessMulti\<close> raises an exception and has left the lists alone, both queues are as before the call.
\<close>

lemma multi_error_keeps:
  assumes md: "pyo_module m = Some md"
    and raises: "\<And>as m0. fst (method_call (snd napi) md ''ProcessMulti'' as m0) = None"
    and lists: "\<And>as m0 b. b < po_next m0 \<Longrightarrow> po_objs (snd (method_call (snd napi) md ''ProcessMulti'' as m0)) b = po_objs m0 b"
    and pointers: "\<And>as m0 b ob. ptr m0 b = Some ob \<Longrightarrow> ptr (snd (method_call (snd napi) md ''ProcessMulti'' as m0)) b = Some ob"
  shows "\<exists>st'. PythonModule_ProcessMultiSync napi inp outp n k m st = Inr ((False, map Some inp, map Some outp, n, k), st')"
proof -
  obtain a st1 where a: "new_object (PyList []) (Python_Lock st) = (a, st1)" by fastforce
  then have a1: "a < po_next (py_mem st1)" "po_objs (py_mem st1) a = PyList []" "list_items a st1 = []" by (auto simp: new_object_def py_alloc_def list_items_def)
  define st2 where "st2 = py_give_list napi a inp st1"
  have g: "list_all2 (\<lambda>a r. ptr (py_mem st2) a = Some (CppResource r)) (list_items a st2) inp"
    "po_next (py_mem st1) \<le> po_next (py_mem st2)"
    using give_list_ptr [OF a1(1) _ a1(2), of "[]" inp] a1(3) by (auto simp: st2_def)
  obtain b st3 where b: "new_object (PyList []) st2 = (b, st3)" by fastforce
  then have b1: "b < po_next (py_mem st3)" "po_objs (py_mem st3) b = PyList []" "list_items b st3 = []" "b = po_next (py_mem st2)"
      "py_mem st3 = snd (py_alloc (PyList []) (py_mem st2))"
    by (auto simp: new_object_def py_alloc_def list_items_def)
  have ab: "a < b" using a1(1) g(2) b1(4) by simp
  define st4 where "st4 = py_give_list napi b outp st3"
  have h: "list_all2 (\<lambda>a r. ptr (py_mem st4) a = Some (CppResource r)) (list_items b st4) outp"
    "\<And>c ob. ptr (py_mem st3) c = Some ob \<Longrightarrow> ptr (py_mem st4) c = Some ob" "po_objs (py_mem st4) a = po_objs (py_mem st3) a"
    "po_next (py_mem st3) \<le> po_next (py_mem st4)"
    using give_list_ptr [OF b1(1) _ b1(2), of "[]" outp] b1(1,3) ab by (auto simp: st4_def)
  have "list_items a st4 = list_items a st2" using h(3) ab b1(4,5) by (simp add: list_items_def py_alloc_def)
  then have g4: "list_all2 (\<lambda>a r. ptr (py_mem st4) a = Some (CppResource r)) (list_items a st4) inp"
    using g(1) h(2) alloc b1(5) by (auto elim!: list_all2_mono)
  obtain st5 where c: "PyCallMethod (snd napi) (Some md) ''ProcessMulti'' [AO (Some a), AO (Some b)] st4 = Inr (None, st5)"
    "py_mem st5 = snd (method_call (snd napi) md ''ProcessMulti'' [AO (Some a), AO (Some b)] (py_mem st4))"
    using CallMethod_runs [of "snd napi" md "''ProcessMulti''" "[AO (Some a), AO (Some b)]" st4] raises by auto
  have items: "list_items a st5 = list_items a st4" "list_items b st5 = list_items b st4"
    using lists ab b1(1) h(4) by (simp_all add: list_items_def c(2))
  have keep: "list_all2 (\<lambda>a r. ptr (py_mem st5) a = Some (CppResource r)) xs rs"
    if "list_all2 (\<lambda>a r. ptr (py_mem st4) a = Some (CppResource r)) xs rs" for xs rs
    using that pointers by (auto simp: c(2) elim!: list_all2_mono)
  obtain st6 where d: "py_take_items (snd napi) (list_items a st5) st5 = (map Some inp, st6)" "py_mem st6 = py_mem st5"
    using take_items_ptr [of st5 "list_items a st5" inp] keep [OF g4] items by auto
  have "list_items b st6 = list_items b st5" by (simp add: list_items_def d(2))
  then obtain st7 where e: "py_take_items (snd napi) (list_items b st6) st6 = (map Some outp, st7)"
    using take_items_ptr [of st6 "list_items b st6" outp] keep [OF h(1)] items d(2) by auto
  show ?thesis by (simp add: PythonModule_ProcessMultiSync_def with_gil_def a st2_def [symmetric] b st4_def [symmetric] md c(1) d(1) e)
qed

end

section \<open>A simple module inside a processor\<close>

text \<open>
  The virtual functions for one resource, on the interpreter.  A call of a module that has been initialised does not fail
  (\<open>CallMethod_runs\<close>).  \<open>ProcessMulti\<close> is the one of the base class: the processor calls it for modules of the type MULTI only,
  which are not run with these functions.
\<close>

definition returned :: "'p py_state \<Rightarrow> (failure + 'r option \<times> 'p py_state) \<Rightarrow> 'r option \<times> 'p py_state" where
  "returned st res = (case res of Inr (r, st1) \<Rightarrow> (r, st1) | Inl e \<Rightarrow> (None, st))"

definition python_ops :: "('d, 'p) named_py_api \<Rightarrow> python_module \<Rightarrow> ('d, 'p py_state) module_ops" where
  "python_ops napi m =
     \<lparr>processInput = (\<lambda>sleep st. returned st (PythonModule_ProcessInputSync napi sleep m st)),
      processOutput = (\<lambda>r st. returned st (PythonModule_ProcessOutputSync napi r m st)),
      processSimple = (\<lambda>r st. returned st (PythonModule_ProcessSimpleSync napi (Some r) m st)),
      processMulti = Module_ProcessMultiSync 0\<rparr>"

text \<open>What a class has to promise: handed a resource, \<open>ProcessSimple\<close> raises nothing and returns a resource.\<close>

locale python_simple =
  fixes napi :: "('d, 'p) named_py_api" and md :: nat and ok :: "'p py_mem \<Rightarrow> bool"
    and result :: "'p py_mem \<Rightarrow> 'd resource \<Rightarrow> 'd resource"
  assumes handed: "ok m \<Longrightarrow> \<exists>a m1 x m2 res m3. Python_NewPointerObj (snd napi) (CppResource r) t m = (a, m1) \<and>
      method_call (snd napi) md ''ProcessSimple'' [AO (Some a)] m1 = (Some x, m2) \<and>
      Python_ConvertPtr (snd napi) x t' m2 = (res, Some (CppResource (result m r)), m3) \<and> 0 \<le> res \<and> ok m3"
begin

lemma process_keeps:
  assumes "ok (py_mem st)" and "pyo_module m = Some md"
  shows "\<exists>st'. PythonModule_ProcessSimpleSync napi (Some r) m st = Inr (Some (result (py_mem st) r), st') \<and> ok (py_mem st')"
proof -
  obtain t c where g: "py_give_resource napi r (Python_Lock st) =
     (let (a, m) = Python_NewPointerObj (snd napi) (CppResource r) t (py_mem st) in (a, Py_INCREF a ((Python_Lock st)\<lparr>py_cache := c, py_mem := m\<rparr>)))"
    using give_resource_runs [of napi r "Python_Lock st"] by auto
  obtain t' where t': "\<And>s. py_cache s = c \<Longrightarrow> fst (py_type_info (snd napi) ''Resource *'' s) = t'"
    by (cases "c ''Resource *''") (auto simp: py_type_info_def)
  from handed [OF assms(1), of r t t'] obtain a m1 x m2 res m3 where h: "Python_NewPointerObj (snd napi) (CppResource r) t (py_mem st) = (a, m1)"
    "method_call (snd napi) md ''ProcessSimple'' [AO (Some a)] m1 = (Some x, m2)"
    "Python_ConvertPtr (snd napi) x t' m2 = (res, Some (CppResource (result (py_mem st) r)), m3)" "0 \<le> res" "ok m3" by blast
  define st1 where "st1 = Py_INCREF a ((Python_Lock st)\<lparr>py_cache := c, py_mem := m1\<rparr>)"
  have st1: "py_mem st1 = m1" "py_cache st1 = c" by (simp_all add: st1_def)
  obtain st2 where call: "PyCallMethod (snd napi) (Some md) ''ProcessSimple'' [AO (Some a)] st1 = Inr (Some x, st2)" "py_mem st2 = m2" "py_cache st2 = c"
    using CallMethod_runs [of "snd napi" md "''ProcessSimple''" "[AO (Some a)]" st1] h(2) by (auto simp: st1)
  obtain st3 where ti: "py_type_info (snd napi) ''Resource *'' (Py_DECREF a st2) = (t', st3)" "py_mem st3 = m2"
    using t' [of "Py_DECREF a st2"] type_info_mem [of "snd napi" "''Resource *''" "Py_DECREF a st2"] call(2,3)
    by (cases "py_type_info (snd napi) ''Resource *'' (Py_DECREF a st2)") auto
  show ?thesis
    using h call by (simp add: PythonModule_ProcessSimpleSync_def py_process_one_def with_gil_def g st1_def [symmetric] assms(2) py_take_result_def
      py_take_resource_def PyConvertPtr_def ti)
qed

lemma lossless_simple:
  assumes "mi_type mi = SIMPLE" "mi_ops mi = python_ops napi m" "mi_state mi = st" "pyo_module m = Some md" "ok (py_mem st)"
  shows "lossless [mi]"
proof -
  have "fst (processSimple (python_ops napi m) r s) \<noteq> None \<and> ok (py_mem (snd (processSimple (python_ops napi m) r s)))" if "ok (py_mem s)" for r s
    using process_keeps [OF that assms(4), of r] by (auto simp: python_ops_def returned_def)
  then have "careful mi (\<lambda>s. ok (py_mem s))" using assms(1,2) by (auto simp: careful_def)
  then show ?thesis using assms(3,5) by (simp add: lossless_def) (rule exI [of _ "\<lambda>s. ok (py_mem s)"], simp)
qed

end

section \<open>The classes of the repository\<close>

text \<open>
  The memory of a program with one object of a class: its pointers, its table \<open>values\<close> and its list \<open>resources\<close>.  The number a
  string denotes, if any, and \<^verbatim>\<open>GetTypeString\<close> are arguments.
\<close>

datatype py_val = VInt int | VStr string

record 'd py_script =
  ps_ptrs :: "nat \<rightharpoonup> 'd cpp_object"
  ps_values :: "(string \<times> py_val) list"
  ps_kept :: "nat list"

record 'd py_env =
  int_of :: "string \<Rightarrow> int option"
  res_type :: "'d resource \<Rightarrow> string"

definition script_ptr :: "'d py_script py_mem \<Rightarrow> nat \<Rightarrow> 'd cpp_object option" where
  "script_ptr m a = (if a < po_next m then ps_ptrs (po_rest m) a else None)"

definition script_new :: "'d cpp_object \<Rightarrow> nat option \<Rightarrow> 'd py_script py_mem \<Rightarrow> nat \<times> 'd py_script py_mem" where
  "script_new ob t m =
     (let (a, m1) = py_alloc PyInstance m in (a, m1\<lparr>po_rest := (po_rest m1)\<lparr>ps_ptrs := (ps_ptrs (po_rest m1))(a \<mapsto> ob)\<rparr>\<rparr>))"

definition script_convert :: "nat \<Rightarrow> nat option \<Rightarrow> 'd py_script py_mem \<Rightarrow> int \<times> 'd cpp_object option \<times> 'd py_script py_mem" where
  "script_convert a t m = (case script_ptr m a of Some ob \<Rightarrow> (0, Some ob, m) | None \<Rightarrow> (if a = Py_None then 0 else - 1, None, m))"

text \<open>A class is the list of its methods with what they do; an attribute that is a method is bound to the object.\<close>

type_synonym 'd py_class = "(string \<times> (nat list \<Rightarrow> 'd py_script py_mem \<Rightarrow> nat option \<times> 'd py_script py_mem)) list"

definition class_getattr :: "'d py_class \<Rightarrow> nat \<Rightarrow> string \<Rightarrow> 'd py_script py_mem \<Rightarrow> nat option \<times> 'd py_script py_mem" where
  "class_getattr cls self name m =
     (case map_of cls name of None \<Rightarrow> (None, m) | Some f \<Rightarrow> (let (a, m1) = py_alloc (PyMethod self name) m in (Some a, m1)))"

definition class_call :: "'d py_class \<Rightarrow> nat \<Rightarrow> nat list \<Rightarrow> 'd py_script py_mem \<Rightarrow> nat option \<times> 'd py_script py_mem" where
  "class_call cls f xs m =
     (case po_objs m f of
        PyMethod self name \<Rightarrow> (case map_of cls name of None \<Rightarrow> (None, m) | Some g \<Rightarrow> g xs m)
      | _ \<Rightarrow> (None, m))"

definition class_api :: "'d py_env \<Rightarrow> 'd py_class \<Rightarrow> ('d, 'd py_script) named_py_api" where
  "class_api env cls = (res_type env,
     \<lparr>py_import = (\<lambda>n m. (None, m)), py_getattr = class_getattr cls, py_call = class_call cls, py_number = (\<lambda>a m. None), py_text = (\<lambda>a m. None),
      Python_TypeQuery = (\<lambda>t. Some 1), Python_NewPointerObj = script_new, Python_ConvertPtr = script_convert\<rparr>)"

lemma class_api_simps [simp]:
  "py_getattr (snd (class_api env cls)) = class_getattr cls" "py_call (snd (class_api env cls)) = class_call cls"
  "Python_NewPointerObj (snd (class_api env cls)) = script_new" "Python_ConvertPtr (snd (class_api env cls)) = script_convert"
  by (simp_all add: class_api_def)

text \<open>The runtime of these programs keeps pointers.\<close>

interpretation script_pointers: py_pointers "class_api env cls" script_ptr
  by unfold_locales (auto simp: script_new_def script_convert_def script_ptr_def py_alloc_def split: if_splits)

text \<open>The value of a member as a number, and the methods the classes have in common.\<close>

definition val_int :: "string \<Rightarrow> 'd py_script py_mem \<Rightarrow> int" where
  "val_int k m = (case map_of (ps_values (po_rest m)) k of Some (VInt i) \<Rightarrow> i | _ \<Rightarrow> 0)"

definition set_val :: "string \<Rightarrow> py_val \<Rightarrow> 'd py_script py_mem \<Rightarrow> 'd py_script py_mem" where
  "set_val k v m =
     m\<lparr>po_rest := (po_rest m)\<lparr>ps_values := map (\<lambda>(k', v'). (k', if k' = k then v else v')) (ps_values (po_rest m))\<rparr>\<rparr>"

definition py_row :: "nat \<Rightarrow> 'p py_mem \<Rightarrow> (string \<times> string) option" where
  "py_row a m =
     (case po_objs m a of
        PyTuple (k # v # _) \<Rightarrow> (case (po_objs m k, po_objs m v) of (PyString s, PyString t) \<Rightarrow> Some (s, t) | _ \<Rightarrow> None)
      | _ \<Rightarrow> None)"

text \<open>Another name of a member is used when there is no member of that name.\<close>

definition resolve :: "(string \<times> string) list \<Rightarrow> string \<Rightarrow> 'd py_script py_mem \<Rightarrow> string" where
  "resolve aliases k m =
     (if map_of (ps_values (po_rest m)) k = None then (case map_of aliases k of Some k' \<Rightarrow> k' | None \<Rightarrow> k) else k)"

text \<open>Assigning a parameter: a member that is an integer takes an integer; the result is false after an exception.\<close>

fun script_params :: "'d py_env \<Rightarrow> (string \<times> string) list \<Rightarrow> nat list \<Rightarrow> 'd py_script py_mem \<Rightarrow> bool \<times> 'd py_script py_mem" where
  "script_params env aliases [] m = (True, m)"
| "script_params env aliases (p # ps) m =
     (case py_row p m of
        None \<Rightarrow> (False, m)
      | Some (k0, s) \<Rightarrow>
          (let k = resolve aliases k0 m
           in case map_of (ps_values (po_rest m)) k of
             None \<Rightarrow> script_params env aliases ps m
           | Some (VInt i) \<Rightarrow> (case int_of env s of None \<Rightarrow> (False, m) | Some j \<Rightarrow> script_params env aliases ps (set_val k (VInt j) m))
           | Some (VStr t) \<Rightarrow> script_params env aliases ps (set_val k (VStr s) m)))"

definition script_Init :: "'d py_env \<Rightarrow> (string \<times> string) list \<Rightarrow> nat list \<Rightarrow> 'd py_script py_mem \<Rightarrow> nat option \<times> 'd py_script py_mem" where
  "script_Init env aliases xs m =
     (case xs of
        [params] \<Rightarrow>
          (if params = Py_None then (Some Py_True, m)
           else let (ok, m1) = (case po_objs m params of PyList ps \<Rightarrow> script_params env aliases ps m | _ \<Rightarrow> (False, m))
                in (Some (if ok then Py_True else Py_False), m1))
      | _ \<Rightarrow> (None, m))"

definition script_pass :: "nat list \<Rightarrow> 'd py_script py_mem \<Rightarrow> nat option \<times> 'd py_script py_mem" where
  "script_pass xs m = (Some Py_None, m)"

definition script_type :: "int \<Rightarrow> nat list \<Rightarrow> 'd py_script py_mem \<Rightarrow> nat option \<times> 'd py_script py_mem" where
  "script_type n xs m = (let (a, m1) = py_alloc (PyInt n) m in (Some a, m1))"

text \<open>\<open>GetValue\<close> and \<open>SetValue\<close>; the latter names a variable that does not exist when the member is an integer, and so refuses.\<close>

definition val_string :: "py_val \<Rightarrow> string" where
  "val_string v = (case v of VInt i \<Rightarrow> show_int i | VStr s \<Rightarrow> s)"

definition arg_string :: "nat \<Rightarrow> 'd py_script py_mem \<Rightarrow> string" where
  "arg_string a m = (case po_objs m a of PyString s \<Rightarrow> s | _ \<Rightarrow> [])"

definition script_GetValue :: "(string \<times> string) list \<Rightarrow> nat list \<Rightarrow> 'd py_script py_mem \<Rightarrow> nat option \<times> 'd py_script py_mem" where
  "script_GetValue aliases xs m =
     (case xs of
        [a] \<Rightarrow> (case map_of (ps_values (po_rest m)) (resolve aliases (arg_string a m) m) of
            Some v \<Rightarrow> (let (s, m1) = py_alloc (PyString (val_string v)) m in (Some s, m1))
          | None \<Rightarrow> (Some Py_None, m))
      | _ \<Rightarrow> (None, m))"

definition script_SetValue :: "(string \<times> string) list \<Rightarrow> nat list \<Rightarrow> 'd py_script py_mem \<Rightarrow> nat option \<times> 'd py_script py_mem" where
  "script_SetValue aliases xs m =
     (case xs of
        [a, v] \<Rightarrow> (case map_of (ps_values (po_rest m)) (resolve aliases (arg_string a m) m) of
            None \<Rightarrow> (Some Py_True, m)
          | Some (VInt i) \<Rightarrow> (Some Py_False, m)
          | Some (VStr s) \<Rightarrow> (Some Py_True, set_val (resolve aliases (arg_string a m) m) (VStr (arg_string v m)) m))
      | _ \<Rightarrow> (None, m))"

definition script_base :: "'d py_env \<Rightarrow> (string \<times> string) list \<Rightarrow> int \<Rightarrow> 'd py_class" where
  "script_base env aliases n =
     [(''Init'', script_Init env aliases), (''GetType'', script_type n), (''Start'', script_pass), (''Stop'', script_pass),
      (''Pause'', script_pass), (''Resume'', script_pass), (''GetValue'', script_GetValue aliases), (''SetValue'', script_SetValue aliases),
      (''SaveCheckpoint'', script_pass), (''RestoreCheckpoint'', script_pass)]"

subsection \<open>TestSimple.py\<close>

definition TestSimple_py_values :: "(string \<times> py_val) list" where
  "TestSimple_py_values = [(''items'', VInt 0), (''foo'', VStr []), (''flipStatus'', VInt 0), (''setStatus'', VInt (- 1))]"

definition TestSimple_py_resource :: "'d py_env \<Rightarrow> 'd py_script py_mem \<Rightarrow> 'd resource \<Rightarrow> 'd resource" where
  "TestSimple_py_resource env m r =
     (if res_type env r \<noteq> ''TestResource'' then r
      else let r1 = (if val_int ''flipStatus'' m \<noteq> 0 then r\<lparr>r_status := (if r_status r = 0 then 1 else 0)\<rparr> else r)
           in if val_int ''setStatus'' m \<ge> 0 then r1\<lparr>r_status := val_int ''setStatus'' m\<rparr> else r1)"

text \<open>A status that is no \<^verbatim>\<open>int\<close> is refused by the wrapper of \<open>SetStatus\<close> with an exception.\<close>

definition TestSimple_py_ProcessSimple :: "'d py_env \<Rightarrow> nat list \<Rightarrow> 'd py_script py_mem \<Rightarrow> nat option \<times> 'd py_script py_mem" where
  "TestSimple_py_ProcessSimple env xs m =
     (case xs of
        [a] \<Rightarrow> (case script_ptr m a of
            Some (CppResource r) \<Rightarrow>
              (if res_type env r \<noteq> ''TestResource'' then (Some a, m)
               else if val_int ''setStatus'' m \<ge> 2 ^ 31 then (None, m)
               else (Some a, set_val ''items'' (VInt (val_int ''items'' m + 1))
                  (m\<lparr>po_rest := (po_rest m)\<lparr>ps_ptrs := (ps_ptrs (po_rest m))(a \<mapsto> CppResource (TestSimple_py_resource env m r))\<rparr>\<rparr>)))
          | _ \<Rightarrow> (None, m))
      | _ \<Rightarrow> (None, m))"

definition TestSimple_py :: "'d py_env \<Rightarrow> 'd py_class" where
  "TestSimple_py env = script_base env [] 3 @ [(''ProcessSimple'', TestSimple_py_ProcessSimple env)]"

lemma TestSimple_py_methods [simp]:
  "map_of (TestSimple_py env) ''ProcessSimple'' = Some (TestSimple_py_ProcessSimple env)" "map_of (TestSimple_py env) ''ProcessMulti'' = None"
  "map_of (TestSimple_py env) ''GetProperty'' = None" "map_of (TestSimple_py env) ''SetProperty'' = None" "map_of (TestSimple_py env) ''ListProperties'' = None"
  by (simp_all add: TestSimple_py_def script_base_def)

text \<open>A method of a class is called with the objects in the tuple, in a memory with the tuple and the bound method added.\<close>

lemma class_method_call:
  assumes "map_of cls name = Some g"
  shows "\<exists>f n. (\<forall>b < po_next m. f b = po_objs m b) \<and> po_next m \<le> n \<and>
    method_call (snd (class_api env cls)) md name [AO (Some a)] m = g [a] (m\<lparr>po_objs := f, po_next := n\<rparr>)"
proof (intro exI conjI)
  let ?f = "(po_objs m)(po_next m := PyTuple [a], Suc (po_next m) := PyMethod md name)"
  show "\<forall>b < po_next m. ?f b = po_objs m b" by simp
  show "method_call (snd (class_api env cls)) md name [AO (Some a)] m = g [a] (m\<lparr>po_objs := ?f, po_next := Suc (Suc (po_next m))\<rparr>)"
    using assms by (simp add: method_call_def Py_VaBuildValue_def py_alloc_def class_getattr_def class_call_def PyEval_CallObject_def)
qed simp

lemma val_int_simps [simp]:
  "val_int k (m\<lparr>po_objs := f\<rparr>) = val_int k m" "val_int k (m\<lparr>po_next := n\<rparr>) = val_int k m"
  "val_int k (m\<lparr>po_rest := (po_rest m)\<lparr>ps_ptrs := p\<rparr>\<rparr>) = val_int k m"
  by (simp_all add: val_int_def)

lemma val_int_set_val: "k \<noteq> k' \<Longrightarrow> val_int k (set_val k' v m) = val_int k m"
proof -
  assume "k \<noteq> k'"
  then have "map_of (map (\<lambda>(k'', v'). (k'', if k'' = k' then v else v')) xs) k = map_of xs k" for xs by (induction xs) auto
  then show ?thesis by (simp add: val_int_def set_val_def)
qed

lemma script_ptr_set_val [simp]: "script_ptr (set_val k v m) a = script_ptr m a"
  by (simp add: script_ptr_def set_val_def)

text \<open>The class keeps the contract of a simple module.\<close>

interpretation test_simple_py: python_simple "class_api env (TestSimple_py env)" md "\<lambda>m. val_int ''setStatus'' m < 2 ^ 31" "TestSimple_py_resource env"
proof
  fix m :: "'a py_script py_mem" and r t t'
  assume fits: "val_int ''setStatus'' m < 2 ^ 31"
  obtain a m1 where n: "script_new (CppResource r) t m = (a, m1)" by fastforce
  then have n1: "script_ptr m1 a = Some (CppResource r)" "a < po_next m1" "\<And>k. val_int k m1 = val_int k m"
    by (auto simp: script_new_def py_alloc_def script_ptr_def val_int_def)
  obtain f k where c: "po_next m1 \<le> k" "method_call (snd (class_api env (TestSimple_py env))) md ''ProcessSimple'' [AO (Some a)] m1 =
      TestSimple_py_ProcessSimple env [a] (m1\<lparr>po_objs := f, po_next := k\<rparr>)"
    using class_method_call [of "TestSimple_py env" "''ProcessSimple''"] by (metis TestSimple_py_methods(1))
  let ?m = "m1\<lparr>po_objs := f, po_next := k\<rparr>"
  have p: "script_ptr ?m a = Some (CppResource r)" using n1(1,2) c(1) by (simp add: script_ptr_def split: if_splits)
  have res: "TestSimple_py_resource env ?m r = TestSimple_py_resource env m r" by (simp add: TestSimple_py_resource_def n1(3))
  obtain m2 where m2: "TestSimple_py_ProcessSimple env [a] ?m = (Some a, m2)" "script_ptr m2 a = Some (CppResource (TestSimple_py_resource env m r))"
    "val_int ''setStatus'' m2 = val_int ''setStatus'' m"
  proof (cases "res_type env r = ''TestResource''")
    case True
    let ?m2 = "?m\<lparr>po_rest := (po_rest ?m)\<lparr>ps_ptrs := (ps_ptrs (po_rest ?m))(a \<mapsto> CppResource (TestSimple_py_resource env ?m r))\<rparr>\<rparr>"
    have "script_ptr ?m2 a = Some (CppResource (TestSimple_py_resource env m r))" using n1(2) c(1) by (simp add: script_ptr_def res)
    moreover have "TestSimple_py_ProcessSimple env [a] ?m = (Some a, set_val ''items'' (VInt (val_int ''items'' ?m + 1)) ?m2)"
      using True p fits by (simp add: TestSimple_py_ProcessSimple_def n1(3))
    moreover have "val_int ''setStatus'' ?m2 = val_int ''setStatus'' m" using n1(3) [of "''setStatus''"] by (simp add: val_int_def)
    ultimately show thesis using that by (simp add: val_int_set_val)
  next
    case False
    then show thesis using that [of ?m] p n1(3) by (simp add: TestSimple_py_ProcessSimple_def TestSimple_py_resource_def)
  qed
  have "script_convert a t' m2 = (0, Some (CppResource (TestSimple_py_resource env m r)), m2)" using m2(2) by (simp add: script_convert_def)
  then show "\<exists>a m1 x m2 res m3. Python_NewPointerObj (snd (class_api env (TestSimple_py env))) (CppResource r) t m = (a, m1) \<and>
      method_call (snd (class_api env (TestSimple_py env))) md ''ProcessSimple'' [AO (Some a)] m1 = (Some x, m2) \<and>
      Python_ConvertPtr (snd (class_api env (TestSimple_py env))) x t' m2 = (res, Some (CppResource (TestSimple_py_resource env m r)), m3) \<and>
      0 \<le> res \<and> val_int ''setStatus'' m3 < 2 ^ 31"
    using n c(2) m2 fits by (intro exI [of _ a] exI [of _ m1] exI [of _ m2] exI [of _ 0]) (auto intro!: exI [of _ a] exI [of _ m2])
qed

subsection \<open>TestMulti.py\<close>

definition TestMulti_py_values :: "(string \<times> py_val) list" where
  "TestMulti_py_values = [(''items'', VInt 0), (''foo'', VStr []), (''timeTick'', VInt 1000)]"

definition py_is_test :: "'d py_env \<Rightarrow> 'd py_script py_mem \<Rightarrow> nat \<Rightarrow> bool" where
  "py_is_test env m a = (case script_ptr m a of Some (CppResource r) \<Rightarrow> res_type env r = ''TestResource'' | _ \<Rightarrow> False)"

definition py_list :: "nat \<Rightarrow> 'p py_mem \<Rightarrow> nat list" where
  "py_list l m = (case po_objs m l of PyList xs \<Rightarrow> xs | _ \<Rightarrow> [])"

text \<open>The three results; comparisons give the objects \<^verbatim>\<open>True\<close> and \<^verbatim>\<open>False\<close>.\<close>

definition three :: "bool \<Rightarrow> int \<Rightarrow> int \<Rightarrow> 'd py_script py_mem \<Rightarrow> nat option \<times> 'd py_script py_mem" where
  "three b n k m =
     (let (x, m1) = py_alloc (PyInt n) m; (y, m2) = py_alloc (PyInt k) m1;
          (t, m3) = py_alloc (PyTuple [if b then Py_True else Py_False, x, y]) m2
      in (Some t, m3))"

text \<open>
  Resources of the class \<open>TestResource\<close> are kept, others passed on; with a negative \<open>timeTick\<close> the call of \<^verbatim>\<open>select\<close> raises an
  exception.  Items of the lists are resources.
\<close>

definition TestMulti_py_ProcessMulti :: "'d py_env \<Rightarrow> nat list \<Rightarrow> 'd py_script py_mem \<Rightarrow> nat option \<times> 'd py_script py_mem" where
  "TestMulti_py_ProcessMulti env xs m =
     (case xs of
        [a, b] \<Rightarrow>
          (if a = Py_None \<or> b = Py_None then three False 0 (int TestMulti_pm_MAX) m
           else let (ins, kept, outs) = TestMulti_pm_take (py_is_test env m) (py_list a m) (ps_kept (po_rest m)) (py_list b m);
                    m1 = m\<lparr>po_objs := (po_objs m)(a := PyList ins, b := PyList outs), po_rest := (po_rest m)\<lparr>ps_kept := kept\<rparr>\<rparr>
                in case kept of
                     [] \<Rightarrow> three False 0 (int TestMulti_pm_MAX) m1
                   | s # rest \<Rightarrow>
                       (if val_int ''timeTick'' m1 div 1000000 < 0 then (None, m1)
                        else three (rest \<noteq> []) (int TestMulti_pm_MAX - int (length rest)) (int (length rest))
                          (set_val ''items'' (VInt (val_int ''items'' m1 + 1))
                            (m1\<lparr>po_objs := (po_objs m1)(b := PyList (outs @ [s])), po_rest := (po_rest m1)\<lparr>ps_kept := rest\<rparr>\<rparr>))))
      | _ \<Rightarrow> (None, m))"

definition TestMulti_py :: "'d py_env \<Rightarrow> 'd py_class" where
  "TestMulti_py env = script_base env [(''alias'', ''foo'')] 4 @ [(''ProcessMulti'', TestMulti_py_ProcessMulti env)]"

lemma TestMulti_py_methods [simp]:
  "map_of (TestMulti_py env) ''ProcessMulti'' = Some (TestMulti_py_ProcessMulti env)"
  "map_of (TestMulti_py env) ''GetProperty'' = None" "map_of (TestMulti_py env) ''SetProperty'' = None" "map_of (TestMulti_py env) ''ListProperties'' = None"
  by (simp_all add: TestMulti_py_def script_base_def)

section \<open>Properties\<close>

text \<open>
  A processor with the Python module \<open>TestSimple\<close> conserves resources: as long as \<open>setStatus\<close> is an \<^verbatim>\<open>int\<close> the module is
  lossless, whatever resources it gets, and each comes back from Python with at most its status changed, set as the two
  parameters say.
\<close>
theorem python_TestSimple_lossless:
  assumes "mi_type mi = SIMPLE" and "mi_ops mi = python_ops (class_api env (TestSimple_py env)) m" and "mi_state mi = st"
    and "pyo_module m = Some md" and "val_int ''setStatus'' (py_mem st) < 2 ^ 31"
  shows "lossless [mi] \<and>
    (\<exists>st'. processSimple (mi_ops mi) r (mi_state mi) = (Some (TestSimple_py_resource env (py_mem st) r), st')) \<and>
    (TestSimple_py_resource env (py_mem st) r)\<lparr>r_status := s\<rparr> = r\<lparr>r_status := s\<rparr>"
proof (intro conjI)
  show "lossless [mi]" using test_simple_py.lossless_simple assms by blast
  show "\<exists>st'. processSimple (mi_ops mi) r (mi_state mi) = (Some (TestSimple_py_resource env (py_mem st) r), st')"
    using test_simple_py.process_keeps [OF assms(5,4), of env r] assms(2,3) by (auto simp: python_ops_def returned_def)
  show "(TestSimple_py_resource env (py_mem st) r)\<lparr>r_status := s\<rparr> = r\<lparr>r_status := s\<rparr>"
    by (simp add: TestSimple_py_resource_def Let_def)
qed

definition py_sample_env :: "unit py_env" where
  "py_sample_env = \<lparr>int_of = (\<lambda>s. Some (read_int s)), res_type = (\<lambda>r. ''TestResource'')\<rparr>"

definition py_sample_mem :: "(string \<times> py_val) list \<Rightarrow> unit py_script py_mem" where
  "py_sample_mem vs = \<lparr>po_objs = (\<lambda>a. if a = Py_None then PyNone else if a = Py_False then PyBool False else if a = Py_True then PyBool True else PyInstance),
     po_next = 4, po_rest = \<lparr>ps_ptrs = Map.empty, ps_values = vs, ps_kept = []\<rparr>\<rparr>"

definition py_sample :: "(string \<times> py_val) list \<Rightarrow> unit py_script py_state" where
  "py_sample vs = \<lparr>py_used = 1, py_initialized = True, py_cache = Map.empty, py_running = True, py_gil = 0, py_refs = (\<lambda>_. 0), py_err = False,
     py_mem = py_sample_mem vs\<rparr>"

definition py_sample_module :: python_module where
  "py_sample_module = \<lparr>pyo_id = ''m'', pyo_threadIndex = 0, pyo_name = ''TestSimple'', pyo_module = Some 3, pyo_obj = None\<rparr>"

theorem python_TestSimple_lossless_witness:
  "lossless [\<lparr>mi_ops = python_ops (class_api py_sample_env (TestSimple_py py_sample_env)) py_sample_module, mi_state = py_sample TestSimple_py_values,
     mi_type = SIMPLE, mi_processing = 0, mi_input = [], mi_output = []\<rparr>]"
  using python_TestSimple_lossless [of "\<lparr>mi_ops = python_ops (class_api py_sample_env (TestSimple_py py_sample_env)) py_sample_module,
      mi_state = py_sample TestSimple_py_values, mi_type = SIMPLE, mi_processing = 0, mi_input = [], mi_output = []\<rparr>" py_sample_env py_sample_module
      "py_sample TestSimple_py_values" 3]
  by (simp add: py_sample_module_def py_sample_def py_sample_mem_def val_int_def TestSimple_py_values_def)

lemma build_grows:
  "(\<forall>b < po_next m. po_objs (snd (build_items as m)) b = po_objs m b) \<and> po_next m \<le> po_next (snd (build_items as m)) \<and>
     po_rest (snd (build_items as m)) = po_rest m"
  by (induction as m rule: build_items.induct) (auto simp: py_alloc_def case_prod_beta Let_def intro: Suc_leD)

lemma build_value_grows:
  "(\<forall>b < po_next m. po_objs (snd (Py_VaBuildValue as m)) b = po_objs m b) \<and> po_next m \<le> po_next (snd (Py_VaBuildValue as m)) \<and>
     po_rest (snd (Py_VaBuildValue as m)) = po_rest m"
  using build_grows [of m as] by (auto simp: Py_VaBuildValue_def py_alloc_def split: prod.splits option.splits)

text \<open>
  An exception in a Python module of type MULTI loses nothing.  When the class has no method \<open>ProcessMulti\<close>, or the method
  raises an exception before it changes anything, the function returns, both queues have the resources they had, in the same
  order, and the two counters keep their values.
\<close>
theorem python_multi_error_keeps:
  assumes "pyo_module m = Some md" and "\<And>g xs mem. map_of cls ''ProcessMulti'' = Some g \<Longrightarrow> g xs mem = (None, mem)"
  shows "\<exists>st'. PythonModule_ProcessMultiSync (class_api env cls) inp outp n k m st = Inr ((False, map Some inp, map Some outp, n, k), st')"
proof (rule script_pointers.multi_error_keeps [OF assms(1)])
  have call: "fst (method_call (snd (class_api env cls)) md ''ProcessMulti'' as mem) = None \<and>
      (\<forall>b < po_next mem. po_objs (snd (method_call (snd (class_api env cls)) md ''ProcessMulti'' as mem)) b = po_objs mem b) \<and>
      po_next mem \<le> po_next (snd (method_call (snd (class_api env cls)) md ''ProcessMulti'' as mem)) \<and>
      po_rest (snd (method_call (snd (class_api env cls)) md ''ProcessMulti'' as mem)) = po_rest mem" for as and mem :: "'a py_script py_mem"
  proof (cases "map_of cls ''ProcessMulti''")
    case None
    then show ?thesis using build_value_grows [of mem as] by (auto simp: method_call_def class_getattr_def split: prod.splits option.splits)
  next
    case (Some g)
    then have "class_call cls (po_next m1) xs (snd (py_alloc (PyMethod md ''ProcessMulti'') m1)) = (None, snd (py_alloc (PyMethod md ''ProcessMulti'') m1))" for xs m1
      using assms(2) by (simp add: class_call_def py_alloc_def)
    then show ?thesis using build_value_grows [of mem as]
      by (auto simp: method_call_def class_getattr_def Some PyEval_CallObject_def py_alloc_def split: prod.splits option.splits py_object.splits)
  qed
  show "fst (method_call (snd (class_api env cls)) md ''ProcessMulti'' as mem) = None" for as and mem :: "'a py_script py_mem" using call by blast
  show "b < po_next mem \<Longrightarrow> po_objs (snd (method_call (snd (class_api env cls)) md ''ProcessMulti'' as mem)) b = po_objs mem b"
    for as b and mem :: "'a py_script py_mem" using call by blast
  show "script_ptr mem b = Some ob \<Longrightarrow> script_ptr (snd (method_call (snd (class_api env cls)) md ''ProcessMulti'' as mem)) b = Some ob"
    for as b ob and mem :: "'a py_script py_mem"
    using call [of as mem] by (auto simp: script_ptr_def split: if_splits)
qed

theorem python_multi_error_keeps_witness:
  "\<exists>st'. PythonModule_ProcessMultiSync (class_api py_sample_env (TestSimple_py py_sample_env)) [Resource_new 1 10 ()] [Resource_new 2 10 ()] 7 5
     py_sample_module (py_sample TestSimple_py_values) = Inr ((False, [Some (Resource_new 1 10 ())], [Some (Resource_new 2 10 ())], 7, 5), st')"
  using python_multi_error_keeps [of py_sample_module 3 "TestSimple_py py_sample_env" py_sample_env "[Resource_new 1 10 ()]" "[Resource_new 2 10 ()]" 7 5
      "py_sample TestSimple_py_values"] by (simp add: py_sample_module_def)

text \<open>
  With nothing to do the class \<open>TestMulti\<close> returns its numbers in the wrong order: it expects no resources and claims to
  work on 100.
\<close>

lemma python_TestMulti_claims:
  "\<exists>st'. PythonModule_ProcessMultiSync (class_api py_sample_env (TestMulti_py py_sample_env)) [] [] 0 0 py_sample_module (py_sample TestMulti_py_values) =
     Inr ((False, [], [], 0, 100), st')"
  by (simp add: PythonModule_ProcessMultiSync_def with_gil_def new_object_def py_alloc_def py_sample_def py_sample_mem_def py_sample_module_def
      PyCallMethod_def PyCallMethod1_def new_ref_def Py_VaBuildValue_def class_getattr_def class_call_def PyEval_CallObject_def list_items_def
      TestMulti_py_ProcessMulti_def Py_None_def three_def py_list_def multi_result_def item_long_def tuple_item_def as_long_def number_of_def
      Py_False_def Py_True_def TestMulti_pm_MAX_def wrap_signed_def Let_def)

text \<open>
  Results of a Python method that are of a wrong type are taken for good ones, because the checks compare a truth value with
  zero.  An answer \<^verbatim>\<open>None\<close> of \<open>SetProperty\<close> counts as success and leaves an exception pending; one of \<open>GetProperty\<close> brings the
  server down, and so does one of \<open>ProcessMulti\<close>.
\<close>
theorem python_wrong_results:
  assumes "pyo_module m = Some md" and "\<And>name as mem. name \<in> {''SetProperty'', ''GetProperty'', ''ProcessMulti''} \<Longrightarrow> AO None \<notin> set as \<Longrightarrow>
      fst (method_call (snd napi) md name as mem) = Some Py_None \<and> po_objs (snd (method_call (snd napi) md name as mem)) Py_None = PyNone"
    and "\<And>a t mem. po_objs (snd (snd (Python_ConvertPtr (snd napi) a t mem))) Py_None = po_objs mem Py_None"
  shows "(\<exists>st'. PythonModule_SetPropertySync (snd napi) name v m st = Inr (True, st') \<and> py_err st') \<and>
    PythonModule_GetPropertySync (snd napi) name m st = Inl NullDeref \<and>
    PythonModule_ProcessMultiSync napi inp outp n k m st = Inl NullDeref"
proof (intro conjI)
  have call: "\<exists>st'. PyCallMethod (snd napi) (Some md) meth as s = Inr (Some Py_None, st') \<and> po_objs (py_mem st') Py_None = PyNone"
    if "meth \<in> {''SetProperty'', ''GetProperty'', ''ProcessMulti''}" "AO None \<notin> set as" for meth as s
    using CallMethod_runs [of "snd napi" md meth as s] assms(2) [OF that] by metis
  show "\<exists>st'. PythonModule_SetPropertySync (snd napi) name v m st = Inr (True, st') \<and> py_err st'"
    using call [of "''SetProperty''" "[AS name, AS v]" "Python_Lock st"] assms(1)
    by (auto simp: PythonModule_SetPropertySync_def number_call_def with_gil_def as_long_def number_of_def Python_Unlock_def)
  show "PythonModule_GetPropertySync (snd napi) name m st = Inl NullDeref"
    using call [of "''GetProperty''" "[AS name]" "Python_Lock st"] assms(1)
    by (auto simp: PythonModule_GetPropertySync_def with_gil_def copy_string_def string_value_def)
  have take: "po_objs (py_mem (snd (py_take_items (snd napi) as s))) Py_None = po_objs (py_mem s) Py_None" for as s
  proof (induction as arbitrary: s)
    case (Cons a as)
    have "po_objs (py_mem (snd (py_take_resource (snd napi) a s))) Py_None = po_objs (py_mem s) Py_None"
      using assms(3) type_info_mem [of "snd napi" "''Resource *''" s] by (simp add: py_take_resource_def PyConvertPtr_def case_prod_beta Let_def)
    then show ?case using Cons.IH by (simp add: case_prod_beta Let_def)
  qed simp
  show "PythonModule_ProcessMultiSync napi inp outp n k m st = Inl NullDeref"
  proof -
    obtain a st1 where a: "new_object (PyList []) (Python_Lock st) = (a, st1)" by fastforce
    obtain b st3 where b: "new_object (PyList []) (py_give_list napi a inp st1) = (b, st3)" by fastforce
    obtain st5 where c: "PyCallMethod (snd napi) (Some md) ''ProcessMulti'' [AO (Some a), AO (Some b)] (py_give_list napi b outp st3) = Inr (Some Py_None, st5)"
      "po_objs (py_mem st5) Py_None = PyNone" using call [of "''ProcessMulti''" "[AO (Some a), AO (Some b)]"] by auto
    show ?thesis
      using take [of "list_items a st5" st5] take c(2)
      by (simp add: PythonModule_ProcessMultiSync_def with_gil_def a b assms(1) c(1) case_prod_beta Let_def multi_result_def item_long_def tuple_item_def)
  qed
qed

text \<open>A class whose methods return \<^verbatim>\<open>None\<close>.\<close>

definition none_method :: "nat list \<Rightarrow> 'd py_script py_mem \<Rightarrow> nat option \<times> 'd py_script py_mem" where
  "none_method xs m = (Some Py_None, m\<lparr>po_objs := (po_objs m)(Py_None := PyNone)\<rparr>)"

definition none_class :: "'d py_class" where
  "none_class = [(''SetProperty'', none_method), (''GetProperty'', none_method), (''ProcessMulti'', none_method)]"

lemma build_items_total: "AO None \<notin> set as \<Longrightarrow> \<exists>xs m'. build_items as m = (Some xs, m')"
proof (induction as arbitrary: m)
  case (Cons a as)
  then have some: "fst (build_items as m0) \<noteq> None" for m0 :: "'a py_mem" by (metis fst_conv list.set_intros(2) option.simps(3))
  have "fst (build_items (a # as) m) \<noteq> None"
  proof (cases a)
    case (AO x)
    then show ?thesis using Cons.prems some by (cases x) (auto simp: case_prod_beta Let_def)
  qed (use some in \<open>auto simp: case_prod_beta Let_def\<close>)
  then show ?case by (metis not_None_eq prod.collapse)
qed simp

lemma none_class_methods: "name \<in> {''SetProperty'', ''GetProperty'', ''ProcessMulti''} \<Longrightarrow> map_of none_class name = Some none_method"
  by (auto simp: none_class_def)

lemma none_class_call:
  assumes "name \<in> {''SetProperty'', ''GetProperty'', ''ProcessMulti''}" and "AO None \<notin> set as"
  shows "fst (method_call (snd (class_api env none_class)) md name as mem) = Some Py_None \<and>
    po_objs (snd (method_call (snd (class_api env none_class)) md name as mem)) Py_None = PyNone"
proof -
  obtain xs m' where b: "build_items as mem = (Some xs, m')" using build_items_total [OF assms(2)] by blast
  show ?thesis
    by (simp add: none_class_methods [OF assms(1)] method_call_def Py_VaBuildValue_def b py_alloc_def class_getattr_def class_call_def PyEval_CallObject_def none_method_def)
qed

theorem python_wrong_results_witness:
  "(\<exists>st'. PythonModule_SetPropertySync (snd (class_api py_sample_env none_class)) ''foo'' ''x'' py_sample_module (py_sample []) = Inr (True, st') \<and> py_err st') \<and>
    PythonModule_GetPropertySync (snd (class_api py_sample_env none_class)) ''foo'' py_sample_module (py_sample []) = Inl NullDeref \<and>
    PythonModule_ProcessMultiSync (class_api py_sample_env none_class) [Resource_new 1 10 ()] [] 7 5 py_sample_module (py_sample []) = Inl NullDeref"
  by (rule python_wrong_results [of _ 3, OF _ none_class_call])
    (simp_all add: py_sample_module_def script_convert_def split: option.splits)

text \<open>
  The properties of a Python module cannot be reached: C++ calls \<open>GetProperty\<close>, \<open>SetProperty\<close> and \<open>ListProperties\<close>, the classes
  define \<open>GetValue\<close>, \<open>SetValue\<close> and \<open>ListNames\<close>.
\<close>

lemma missing_method:
  assumes "map_of cls name = None" and "pyo_module m = Some md" and "AO None \<notin> set as"
  shows "\<exists>st'. PyCallMethod (snd (class_api env cls)) (pyo_module m) name as st = Inr (None, st')"
  using CallMethod_runs [of "snd (class_api env cls)" md name as st] assms build_items_total [OF assms(3), of "py_mem st"]
  by (auto simp: method_call_def Py_VaBuildValue_def py_alloc_def class_getattr_def)

lemma python_properties_unreachable:
  assumes "pyo_module m = Some md" and "cls \<in> {TestSimple_py env, TestMulti_py env}"
  shows "(\<exists>st'. PythonModule_GetPropertySync (snd (class_api env cls)) name m st = Inr (None, st')) \<and>
    (\<exists>st'. PythonModule_SetPropertySync (snd (class_api env cls)) name v m st = Inr (False, st')) \<and>
    (\<exists>st'. PythonModule_ListPropertiesSync (snd (class_api env cls)) m st = Inr ([], st'))"
  using missing_method [of cls "''GetProperty''" m md "[AS name]" env "Python_Lock st"]
    missing_method [of cls "''SetProperty''" m md "[AS name, AS v]" env "Python_Lock st"]
    missing_method [of cls "''ListProperties''" m md "[]" env "Python_Lock st"] assms
  by (auto simp: PythonModule_GetPropertySync_def PythonModule_SetPropertySync_def PythonModule_ListPropertiesSync_def number_call_def with_gil_def)

text \<open>The interpreter is started again after the last module is gone, with the types of the interpreter that was ended.\<close>

lemma EmbeddedPython_restart:
  assumes "py_used st = 1" and "py_initialized st"
  shows "EmbeddedPython_Init api symbol (EmbeddedPython_new start (EmbeddedPython_delete st)) = (True, EmbeddedPython_new start (EmbeddedPython_delete st)) \<and>
    py_cache (EmbeddedPython_new start (EmbeddedPython_delete st)) = py_cache st \<and> \<not> py_running (EmbeddedPython_delete st)"
  using assms by (simp add: EmbeddedPython_delete_def EmbeddedPython_new_def EmbeddedPython_Init_def Python_Lock_def)

lemma sample_start: "\<exists>st'. python_perform (class_api py_sample_env (TestSimple_py py_sample_env)) py_sample_module AskStart (py_sample TestSimple_py_values) = Inr ((), st')"
  using CallMethod_runs [of "snd (class_api py_sample_env (TestSimple_py py_sample_env))" 3 "''Start''" "[]" "Python_Lock (py_sample TestSimple_py_values)"]
  by (auto simp: PythonModule_StartSync_def number_call_def forget_result_def with_gil_def py_sample_module_def case_prod_beta Let_def split: option.splits)

theorem python_reference_balance_witness:
  "\<exists>st'. python_perform (class_api py_sample_env (TestSimple_py py_sample_env)) py_sample_module AskStart (py_sample TestSimple_py_values) = Inr ((), st') \<and>
     py_gil st' = 0 \<and> py_refs st' = (\<lambda>_. 0)"
  using sample_start python_reference_balance [of "class_api py_sample_env (TestSimple_py py_sample_env)" py_sample_module AskStart "py_sample TestSimple_py_values"]
  by (auto simp: py_sample_def)

end
