(* ===== verification/HttpConn.thy ===== *)
theory HttpConn
  imports Common
begin

text \<open>
  One connection of the management server (\<^verbatim>\<open>src/lib/server/SimpleHTTPConn.h\<close>, \<^verbatim>\<open>SimpleHTTPConn.cc\<close>): reading a request, its
  parser, the response and keep-alive.  What the socket answers to \<^verbatim>\<open>select\<close>, \<^verbatim>\<open>read\<close> and \<^verbatim>\<open>write\<close> is a list of answers the
  loops consume; a loop that has used all of them still waits.  Log messages are left out.
\<close>

datatype request_ready = INCOMPLETE | PARSED | FAILED

record http_conn =
  hc_keep_alive :: bool
  hc_body_length :: int
  hc_method :: string
  hc_args :: string
  hc_protocol :: string
  hc_buffer :: string
  hc_body_offset :: int
  hc_header_offset :: int
  hc_fields :: "(string \<rightharpoonup> string) option"
  hc_code :: int
  hc_str :: string
  hc_header :: string
  hc_body :: string

definition SimpleHTTPConn_new :: http_conn where
  "SimpleHTTPConn_new = \<lparr>hc_keep_alive = False, hc_body_length = - 1, hc_method = [], hc_args = [], hc_protocol = [], hc_buffer = [],
     hc_body_offset = - 1, hc_header_offset = - 1, hc_fields = None, hc_code = 200, hc_str = ''OK'', hc_header = [], hc_body = []\<rparr>"

text \<open>What is left of the buffer for the next request: the characters from the position \<open>preserve\<close> on.\<close>

definition Conn_Clear :: "http_conn \<Rightarrow> http_conn" where
  "Conn_Clear c =
     (let preserve = (if hc_body_length c \<ge> 0 then int (length (hc_buffer c)) - hc_body_offset c - hc_body_length c else 0)
      in SimpleHTTPConn_new\<lparr>hc_buffer := (if preserve > 0 then drop (nat preserve) (hc_buffer c) else [])\<rparr>)"

definition IsKeepAlive :: "http_conn \<Rightarrow> bool" where
  "IsKeepAlive c = hc_keep_alive c"

section \<open>The parser\<close>

definition CR :: char where
  "CR = CHR 0x0D"

definition LF :: char where
  "LF = CHR 0x0A"

text \<open>A position that is negative is the largest one as an unsigned number: nothing is found from there.\<close>

definition find_at :: "string \<Rightarrow> string \<Rightarrow> int \<Rightarrow> nat option" where
  "find_at s sub off = (if off < 0 then None else find_from s sub (nat off))"

definition not_after :: "nat \<Rightarrow> nat option \<Rightarrow> nat option" where
  "not_after eol p = (case p of Some i \<Rightarrow> (if i > eol then None else Some i) | None \<Rightarrow> None)"

text \<open>The line end without a carriage return before it.\<close>

definition line_end :: "string \<Rightarrow> nat \<Rightarrow> nat" where
  "line_end buf eol = (if eol > 0 \<and> buf ! (eol - 1) = CR then eol - 1 else eol)"

text \<open>The first line; nothing as long as there is no line end.\<close>

definition parse_first_line :: "http_conn \<Rightarrow> http_conn option" where
  "parse_first_line c =
     (let buf = hc_buffer c in
      case find_from buf [LF] 0 of
        None \<Rightarrow> None
      | Some nl \<Rightarrow>
          (let eol = line_end buf nl; c1 = c\<lparr>hc_header_offset := int nl + 1\<rparr>
           in Some (case not_after eol (find_from buf '' '' 0) of
                None \<Rightarrow> c1\<lparr>hc_method := substr buf 0 eol\<rparr>
              | Some sp1 \<Rightarrow>
                  (let c2 = c1\<lparr>hc_method := substr buf 0 sp1\<rparr>
                   in case not_after eol (find_from buf '' '' (sp1 + 1)) of
                        None \<Rightarrow> c2\<lparr>hc_args := substr buf (sp1 + 1) (eol - (sp1 + 1))\<rparr>
                      | Some sp2 \<Rightarrow> c2\<lparr>hc_args := substr buf (sp1 + 1) (sp2 - (sp1 + 1)), hc_protocol := substr buf (sp2 + 1) (eol - (sp2 + 1))\<rparr>))))"

definition header_complete :: "http_conn \<Rightarrow> nat option" where
  "header_complete c =
     (case find_at (hc_buffer c) [CR, LF, CR, LF] (hc_header_offset c - 2) of
        Some p \<Rightarrow> Some (p + 4)
      | None \<Rightarrow> (case find_at (hc_buffer c) [LF, LF] (hc_header_offset c - 1) of Some p \<Rightarrow> Some (p + 2) | None \<Rightarrow> None))"

text \<open>
  One line of the header: a line that starts with a blank continues the value, one without a colon is skipped.  A field is
  stored when the next one starts.
\<close>

definition store_field :: "string \<Rightarrow> string \<Rightarrow> (string \<rightharpoonup> string) \<Rightarrow> string \<rightharpoonup> string" where
  "store_field var val fs = (if var \<noteq> [] then fs(var \<mapsto> val) else fs)"

definition is_blank :: "char \<Rightarrow> bool" where
  "is_blank ch \<longleftrightarrow> ch = CHR 0x20 \<or> ch = CHR 0x09"

definition header_field :: "string \<Rightarrow> string \<times> string \<times> (string \<rightharpoonup> string) \<Rightarrow> string \<times> string \<times> (string \<rightharpoonup> string)" where
  "header_field field st =
     (case st of (var, val, fs) \<Rightarrow>
        let i = length (takeWhile is_blank field)
        in if i = 0 then
             (case find_from field '': '' 0 of
                None \<Rightarrow> ([], [], store_field var val fs)
              | Some col \<Rightarrow> (take col field, drop (col + 2) field, store_field var val fs))
           else (var, val @ drop (i - 1) field, fs))"

text \<open>The lines up to the empty one; nothing when there is no line end.  The character before \<open>offset\<close> is a line end, so \<open>nl\<close> is not before \<open>offset\<close>.\<close>

lemma find_from_ge: "find_from s sub off = Some p \<Longrightarrow> off \<le> p \<and> p \<le> length s \<and> take (length sub) (drop p s) = sub"
proof (induction s sub off rule: find_from.induct)
  case (1 s sub off)
  show ?case
  proof (cases "off \<le> length s \<and> take (length sub) (drop off s) \<noteq> sub")
    case True
    then have "find_from s sub (Suc off) = Some p" using 1(2) by (subst (asm) find_from.simps) simp
    with 1(1) True show ?thesis by fastforce
  next
    case False
    then show ?thesis using 1(2) by (subst (asm) find_from.simps) (auto split: if_splits)
  qed
qed

function header_lines ::
  "string \<Rightarrow> nat \<Rightarrow> nat \<Rightarrow> string \<times> string \<times> (string \<rightharpoonup> string) \<Rightarrow> (string \<times> string \<times> (string \<rightharpoonup> string)) option" where
  "header_lines buf stop offset st =
     (if offset < stop then
        (case find_from buf [LF] offset of
           None \<Rightarrow> None
         | Some p \<Rightarrow>
             (let nl = line_end buf p
              in if nl - offset = 0 then Some st
                 else header_lines buf stop (p + 1) (header_field (substr buf offset (nl - offset)) st)))
      else Some st)"
  by pat_completeness auto
termination
  by (relation "measure (\<lambda>(buf, stop, offset, st). stop - offset)") (auto dest!: find_from_ge)

declare header_lines.simps [simp del]

definition atol :: "string \<Rightarrow> int" where
  "atol s = max (- (2 ^ 63)) (min (2 ^ 63 - 1) (read_int (c_str s)))"

text \<open>The length of the body, and keep-alive, which needs one.\<close>

definition header_values :: "(string \<rightharpoonup> string) \<Rightarrow> http_conn \<Rightarrow> http_conn" where
  "header_values fs c =
     (let c1 = (case fs ''Content-Length'' of Some v \<Rightarrow> c\<lparr>hc_body_length := wrap_signed 32 (atol v)\<rparr> | None \<Rightarrow> c);
          c2 = c1\<lparr>hc_fields := Some fs\<rparr>
      in case fs ''Connection'' of
           Some v \<Rightarrow>
             (if \<not> strcasecmp v ''keep-alive'' then
                if hc_body_length c2 \<ge> 0 then c2\<lparr>hc_keep_alive := True\<rparr> else c2\<lparr>hc_fields := Some (fs(''Connection'' := None))\<rparr>
              else c2)
         | None \<Rightarrow> c2)"

definition ParseRequestHeader :: "http_conn \<Rightarrow> request_ready \<times> http_conn" where
  "ParseRequestHeader c =
     (if hc_fields c \<noteq> None then (PARSED, c)
      else if length (hc_buffer c) = 0 then (INCOMPLETE, c)
      else case (if hc_header_offset c < 0 then parse_first_line c else Some c) of
             None \<Rightarrow> (INCOMPLETE, c)
           | Some c1 \<Rightarrow>
               (case header_complete c1 of
                  None \<Rightarrow> (INCOMPLETE, c1)
                | Some body \<Rightarrow>
                    (let c2 = c1\<lparr>hc_body_offset := int body\<rparr>
                     in case header_lines (hc_buffer c2) body (nat (hc_header_offset c2)) ([], [], Map.empty) of
                          None \<Rightarrow> (FAILED, c2\<lparr>hc_fields := Some Map.empty\<rparr>)
                        | Some (var, val, fs) \<Rightarrow> (PARSED, header_values (store_field var val fs) c2))))"

definition RequestReady :: "http_conn \<Rightarrow> request_ready \<times> http_conn" where
  "RequestReady c =
     (let (r, c1) = (if hc_fields c = None then ParseRequestHeader c else (PARSED, c))
      in if r \<noteq> PARSED then (r, c1)
         else if (hc_keep_alive c1 \<or> hc_body_length c1 \<ge> 0) \<and> int (length (hc_buffer c1)) - hc_body_offset c1 < hc_body_length c1
              then (INCOMPLETE, c1)
         else (PARSED, c1))"

section \<open>Reading\<close>

text \<open>What the socket answers: an error or a timeout of \<^verbatim>\<open>select\<close>, an error of \<^verbatim>\<open>read\<close>, or data; no data means that the peer has closed the connection.\<close>

datatype read_answer = SelectError | SelectTimeout | ReadError | Data string

fun ReadRequest :: "read_answer list \<Rightarrow> http_conn \<Rightarrow> (bool \<times> read_answer list \<times> http_conn) option" where
  "ReadRequest [] c = None"
| "ReadRequest (SelectError # as) c = Some (False, as, c)"
| "ReadRequest (SelectTimeout # as) c = Some (False, as, c)"
| "ReadRequest (ReadError # as) c = Some (False, as, c)"
| "ReadRequest (Data d # as) c =
     (case RequestReady (c\<lparr>hc_buffer := hc_buffer c @ d\<rparr>) of
        (PARSED, c1) \<Rightarrow> Some (True, as, c1)
      | (FAILED, c1) \<Rightarrow> Some (False, as, c1)
      | (INCOMPLETE, c1) \<Rightarrow> ReadRequest as c1)"

definition GetRequestMethod :: "http_conn \<Rightarrow> string" where
  "GetRequestMethod c = hc_method c"

definition GetRequestArgs :: "http_conn \<Rightarrow> string" where
  "GetRequestArgs c = hc_args c"

text \<open>A string made from a null pointer.\<close>

definition GetRequestHeaderField :: "string \<Rightarrow> http_conn \<Rightarrow> failure + string" where
  "GetRequestHeaderField field c =
     (case hc_fields c of None \<Rightarrow> Inl NullDeref | Some fs \<Rightarrow> (case fs field of Some v \<Rightarrow> Inr v | None \<Rightarrow> Inl NullDeref))"

definition GetRequestBody :: "http_conn \<Rightarrow> failure + string" where
  "GetRequestBody c =
     (if hc_body_offset c < 0 then Inl NullDeref
      else if hc_body_length c \<ge> 0 then Inr (substr (hc_buffer c) (nat (hc_body_offset c)) (nat (hc_body_length c)))
      else Inr (drop (nat (hc_body_offset c)) (hc_buffer c)))"

section \<open>The response\<close>

definition SetResponseCode :: "int \<Rightarrow> string \<Rightarrow> http_conn \<Rightarrow> http_conn" where
  "SetResponseCode code description c = c\<lparr>hc_code := code, hc_str := description\<rparr>"

definition ClearResponseHeader :: "http_conn \<Rightarrow> http_conn" where
  "ClearResponseHeader c = c\<lparr>hc_header := []\<rparr>"

definition AppendResponseHeader :: "string \<Rightarrow> http_conn \<Rightarrow> http_conn" where
  "AppendResponseHeader s c = c\<lparr>hc_header := hc_header c @ s @ [CR, LF]\<rparr>"

definition ClearResponseBody :: "http_conn \<Rightarrow> http_conn" where
  "ClearResponseBody c = c\<lparr>hc_body := []\<rparr>"

definition AppendResponseBody :: "string \<Rightarrow> http_conn \<Rightarrow> http_conn" where
  "AppendResponseBody s c = c\<lparr>hc_body := hc_body c @ s\<rparr>"

definition ErrorResponse :: "int \<Rightarrow> string \<Rightarrow> string \<Rightarrow> http_conn \<Rightarrow> http_conn" where
  "ErrorResponse code description message c =
     AppendResponseBody (snprintf 1000 (''<html><head><title>'' @ show_int code @ '' - '' @ description @ ''</title></head><body>'' @ message @
        ''</body></html>'' @ [CR, LF])) (ClearResponseBody (SetResponseCode code description c))"

definition response_text :: "http_conn \<Rightarrow> string" where
  "response_text c =
     snprintf 1024 (''HTTP/1.0 '' @ show_int (hc_code c) @ '' '' @ c_str (hc_str c) @ [CR, LF]) @ hc_header c @
     (if hc_keep_alive c then ''Connection: keep-alive'' @ [CR, LF] else []) @
     snprintf 1024 (''Content-Length: '' @ show_int (wrap_signed 32 (int (length (hc_body c)))) @ [CR, LF, CR, LF]) @ hc_body c"

text \<open>
  What the socket answers to writing: an error or a timeout, or how many of the characters offered were taken.  Every call
  of \<^verbatim>\<open>write\<close> offers the text from its start.  The result is what was sent.
\<close>

datatype write_answer = WriteSelectError | WriteTimeout | WriteError | Written nat

fun send_loop :: "write_answer list \<Rightarrow> string \<Rightarrow> nat \<Rightarrow> string \<Rightarrow> (string \<times> write_answer list) option" where
  "send_loop [] text send sent = None"
| "send_loop (Written w # as) text send sent =
     (let send1 = send + w; sent1 = sent @ take w text
      in if send1 \<ge> length text then Some (sent1, as) else send_loop as text send1 sent1)"
| "send_loop (a # as) text send sent = Some (sent, as)"

definition SendResponse :: "write_answer list \<Rightarrow> http_conn \<Rightarrow> (string \<times> write_answer list) option" where
  "SendResponse as c = send_loop as (response_text c) 0 []"

section \<open>Searching in parts of a text\<close>

abbreviation at :: "string \<Rightarrow> string \<Rightarrow> nat \<Rightarrow> bool" where
  "at s sub p \<equiv> take (length sub) (drop p s) = sub"

lemma find_from_None: "find_from s sub off = None \<longleftrightarrow> (\<forall>p. off \<le> p \<longrightarrow> p \<le> length s \<longrightarrow> \<not> at s sub p)"
proof (induction s sub off rule: find_from.induct)
  case (1 s sub off)
  have next_pos: "(\<forall>p. off \<le> p \<longrightarrow> P p) \<longleftrightarrow> P off \<and> (\<forall>p. Suc off \<le> p \<longrightarrow> P p)" for P by (metis Suc_leD le_eq_less_or_eq less_eq_Suc_le)
  show ?case
    using 1 by (subst find_from.simps, subst next_pos) auto
qed

lemma find_from_Some:
  "find_from s sub off = Some p \<longleftrightarrow> off \<le> p \<and> p \<le> length s \<and> at s sub p \<and> (\<forall>q. off \<le> q \<longrightarrow> q < p \<longrightarrow> \<not> at s sub q)"
proof (induction s sub off rule: find_from.induct)
  case (1 s sub off)
  show ?case
  proof (cases "off \<le> length s \<and> \<not> at s sub off")
    case True
    then have "find_from s sub off = find_from s sub (Suc off)" by (subst find_from.simps) simp
    moreover have "off \<le> p \<and> at s sub p \<longleftrightarrow> Suc off \<le> p \<and> at s sub p" using True by (auto simp: le_less)
    moreover have "(\<forall>q. off \<le> q \<longrightarrow> q < p \<longrightarrow> \<not> at s sub q) \<longleftrightarrow> (\<forall>q. Suc off \<le> q \<longrightarrow> q < p \<longrightarrow> \<not> at s sub q)"
      using True by (metis Suc_leD le_neq_implies_less Suc_leI)
    ultimately show ?thesis using 1 True by auto
  next
    case False
    then show ?thesis by (subst find_from.simps) auto
  qed
qed

text \<open>A text of which only the first characters have arrived.\<close>

lemma at_take: "sub \<noteq> [] \<Longrightarrow> at (take n s) sub p \<longleftrightarrow> at s sub p \<and> p + length sub \<le> n"
proof
  assume a: "sub \<noteq> []" "at (take n s) sub p"
  then have "length (take (length sub) (drop p (take n s))) = length sub" by simp
  moreover have "0 < length sub" using a(1) by simp
  ultimately have n: "p + length sub \<le> n" by (simp add: min_def split: if_splits; linarith)
  then have "take (length sub) (drop p (take n s)) = take (length sub) (drop p s)" by (simp add: drop_take min_def)
  then show "at s sub p \<and> p + length sub \<le> n" using a n by simp
next
  assume "at s sub p \<and> p + length sub \<le> n"
  then show "at (take n s) sub p" by (auto simp: drop_take min_def)
qed

lemma find_from_take:
  assumes "find_from s sub off = Some p" and "sub \<noteq> []"
  shows "find_from (take n s) sub off = (if p + length sub \<le> n then Some p else None)"
proof -
  have p: "off \<le> p" "at s sub p" "\<And>q. off \<le> q \<Longrightarrow> q < p \<Longrightarrow> \<not> at s sub q" using assms(1) by (auto simp: find_from_Some)
  show ?thesis
  proof (cases "p + length sub \<le> n")
    case True
    have "length (take (length sub) (drop p s)) = length sub" using p(2) by simp
    then have "p \<le> length s" using assms(2) by (cases "p \<le> length s") auto
    then show ?thesis using True p assms(2) by (auto simp: find_from_Some at_take)
  next
    case False
    have "\<not> at (take n s) sub q" if "off \<le> q" for q
      using that p(3) [of q] False by (auto simp: at_take [OF assms(2)])
    then show ?thesis using False by (simp add: find_from_None)
  qed
qed

lemma find_from_shift: "find_from (xs @ s) sub (length xs + k) = map_option ((+) (length xs)) (find_from s sub k)"
proof -
  have at: "at (xs @ s) sub (length xs + q) = at s sub q" for q by simp
  show ?thesis
  proof (cases "find_from s sub k")
    case None
    then have none: "\<not> at s sub q" if "k \<le> q" "q \<le> length s" for q using that by (simp add: find_from_None)
    have "\<not> at (xs @ s) sub q" if "length xs + k \<le> q" "q \<le> length (xs @ s)" for q
    proof -
      from that obtain r where "q = length xs + r" by (metis le_Suc_ex add_leD1)
      then show ?thesis using that none [of r] at by simp
    qed
    then have "find_from (xs @ s) sub (length xs + k) = None" unfolding find_from_None by blast
    then show ?thesis using None by simp
  next
    case (Some p)
    then have p: "k \<le> p" "p \<le> length s" "at s sub p" "\<And>q. k \<le> q \<Longrightarrow> q < p \<Longrightarrow> \<not> at s sub q" by (auto simp: find_from_Some)
    have "\<not> at (xs @ s) sub q" if "length xs + k \<le> q" "q < length xs + p" for q
    proof -
      from that obtain r where "q = length xs + r" by (metis le_Suc_ex add_leD1)
      then show ?thesis using that p(4) [of r] at by simp
    qed
    then have "find_from (xs @ s) sub (length xs + k) = Some (length xs + p)" using p by (simp add: find_from_Some)
    then show ?thesis using Some by simp
  qed
qed

lemma find_from_skip:
  assumes "\<And>q. q < length xs \<Longrightarrow> \<not> at (xs @ s) sub q"
  shows "find_from (xs @ s) sub 0 = map_option ((+) (length xs)) (find_from s sub 0)"
proof -
  have eq: "find_from t sub' 0 = find_from t sub' n" if "\<And>q. q < n \<Longrightarrow> \<not> at t sub' q" "n \<le> length t" for t sub' n
    using that
  proof (induction n)
    case (Suc n)
    then have "find_from t sub' n = find_from t sub' (Suc n)" by (subst find_from.simps) simp
    then show ?case using Suc by simp
  qed simp
  have "find_from (xs @ s) sub 0 = find_from (xs @ s) sub (length xs)" by (rule eq) (use assms in simp_all)
  then show ?thesis using find_from_shift [of xs s sub 0] by simp
qed

lemma at_nth: "at s (c # sub) q \<Longrightarrow> s ! q = c"
  by (cases "drop q s") (auto dest: nth_via_drop)

text \<open>A text without the first character of what is searched is skipped.\<close>

lemma find_from_skip_char:
  assumes "c \<notin> set xs"
  shows "find_from (xs @ s) (c # sub) 0 = map_option ((+) (length xs)) (find_from s (c # sub) 0)"
proof (rule find_from_skip)
  fix q assume q: "q < length xs"
  then have "drop q (xs @ s) = xs ! q # drop (Suc q) xs @ s" by (simp add: Cons_nth_drop_Suc [symmetric])
  then show "\<not> at (xs @ s) (c # sub) q" using assms q nth_mem [of q xs] by auto
qed

lemma find_from_here: "find_from (sub @ s) sub 0 = Some 0"
  by (subst find_from.simps) simp

section \<open>Requests\<close>

text \<open>A request with lines ended by a carriage return and a line feed.\<close>

definition crlf :: string where
  "crlf = [CR, LF]"

definition header_text :: "string list \<Rightarrow> string" where
  "header_text hs = concat (map (\<lambda>h. h @ crlf) hs)"

definition plain :: "string \<Rightarrow> bool" where
  "plain s \<longleftrightarrow> CR \<notin> set s \<and> LF \<notin> set s"

definition request :: "string \<Rightarrow> string list \<Rightarrow> string \<Rightarrow> string" where
  "request line hs body = line @ crlf @ header_text hs @ crlf @ body"

lemma CR_LF [simp]: "CR \<noteq> LF" "LF \<noteq> CR"
  by (simp_all add: CR_def LF_def)

lemma header_text_simps [simp]: "header_text [] = []" "header_text (h # hs) = h @ crlf @ header_text hs"
  by (simp_all add: header_text_def)

lemma plain_find_LF: "plain l \<Longrightarrow> find_from (l @ crlf @ s) [LF] 0 = Some (Suc (length l))"
  using find_from_skip_char [of LF "l @ [CR]" s "[]"] find_from_skip_char [of LF "l @ [CR]" "LF # s" "[]"] find_from_here [of "[LF]" s]
  by (simp add: plain_def crlf_def)

text \<open>The end of the header, seen from the line end before it.\<close>

lemma find_header_end:
  assumes "\<And>h. h \<in> set hs \<Longrightarrow> plain h \<and> h \<noteq> []"
  shows "find_from (crlf @ header_text hs @ crlf @ body) [CR, LF, CR, LF] 0 = Some (length (header_text hs))"
  using assms
proof (induction hs)
  case Nil
  show ?case using find_from_here [of "[CR, LF, CR, LF]" body] by (simp add: crlf_def)
next
  case (Cons h hs)
  let ?rest = "crlf @ header_text hs @ crlf @ body"
  have h: "plain h" "h \<noteq> []" using Cons.prems by auto
  then obtain c cs where c: "h = c # cs" "c \<noteq> CR" by (cases h) (auto simp: plain_def)
  have "find_from (crlf @ h @ ?rest) [CR, LF, CR, LF] 0 = map_option ((+) (length (crlf @ h))) (find_from ?rest [CR, LF, CR, LF] 0)"
    unfolding append_assoc [symmetric, of crlf h]
  proof (rule find_from_skip)
    fix q assume q: "q < length (crlf @ h)"
    consider "q = 0" | "q = 1" | k where "q = k + 2" "k < length h" using q by (cases q; cases "q - 1") (auto simp: crlf_def)
    then show "\<not> at ((crlf @ h) @ ?rest) [CR, LF, CR, LF] q"
    proof cases
      case 3
      then have "drop q ((crlf @ h) @ ?rest) = h ! k # drop (Suc k) h @ ?rest" by (simp add: crlf_def Cons_nth_drop_Suc [symmetric])
      then show ?thesis using h(1) nth_mem [OF 3(2)] by (auto simp: plain_def)
    qed (simp_all add: crlf_def c)
  qed
  then show ?case using Cons by (simp add: crlf_def)
qed

text \<open>There is no empty line ended by a single line feed in the header.\<close>

lemma no_double_LF:
  assumes "\<And>h. h \<in> set hs \<Longrightarrow> plain h"
  shows "find_from (LF # header_text hs @ crlf) [LF, LF] 0 = None"
  using assms
proof (induction hs)
  case Nil
  show ?case by (auto simp: find_from_None crlf_def) (metis CR_LF(1) drop_Cons' drop_Nil list.inject take_Suc_Cons list.distinct(1) take_Nil)
next
  case (Cons h hs)
  have "find_from ((LF # h @ [CR]) @ LF # header_text hs @ crlf) [LF, LF] 0 =
      map_option ((+) (length (LF # h @ [CR]))) (find_from (LF # header_text hs @ crlf) [LF, LF] 0)"
  proof (rule find_from_skip)
    fix q assume q: "q < length (LF # h @ [CR])"
    then consider "q = 0" | k where "q = Suc k" "k < length (h @ [CR])" by (cases q) auto
    then show "\<not> at ((LF # h @ [CR]) @ LF # header_text hs @ crlf) [LF, LF] q"
    proof cases
      case 1
      then show ?thesis using Cons.prems [of h] by (cases h) (auto simp: plain_def)
    next
      case 2
      have "(h @ [CR]) ! k \<noteq> LF" using Cons.prems [of h] nth_mem [OF 2(2)] by (auto simp: plain_def)
      moreover have "((LF # h @ [CR]) @ LF # header_text hs @ crlf) ! q = (h @ [CR]) ! k"
        using 2 nth_append [of "h @ [CR]" "LF # header_text hs @ crlf" k] by simp
      ultimately show ?thesis using at_nth by metis
    qed
  qed
  then show ?case using Cons by (simp add: crlf_def)
qed

text \<open>The lines of the header are handled one after the other.\<close>

lemma header_lines_request:
  assumes "\<And>h. h \<in> set hs \<Longrightarrow> plain h \<and> h \<noteq> []"
  shows "header_lines (pre @ header_text hs @ crlf @ rest) (length pre + length (header_text hs) + 2) (length pre) st = Some (fold header_field hs st)"
  using assms
proof (induction hs arbitrary: pre st)
  case Nil
  have "find_from (pre @ crlf @ rest) [LF] (length pre) = Some (length pre + 1)"
    using find_from_shift [of pre "crlf @ rest" "[LF]" 0] plain_find_LF [of "[]" rest] by (simp add: plain_def)
  then show ?case by (subst header_lines.simps) (simp add: line_end_def crlf_def nth_append)
next
  case (Cons h hs)
  have h: "plain h" "h \<noteq> []" using Cons.prems by auto
  let ?buf = "pre @ header_text (h # hs) @ crlf @ rest"
  have "find_from ?buf [LF] (length pre) = Some (length pre + Suc (length h))"
    using find_from_shift [of pre "header_text (h # hs) @ crlf @ rest" "[LF]" 0] plain_find_LF [OF h(1)] by simp
  moreover have "line_end ?buf (length pre + Suc (length h)) = length pre + length h" by (simp add: line_end_def crlf_def nth_append)
  moreover have "substr ?buf (length pre) (length h) = h" by (simp add: substr_def)
  ultimately have "header_lines ?buf (length pre + length (header_text (h # hs)) + 2) (length pre) st =
      header_lines ?buf (length pre + length (header_text (h # hs)) + 2) (length (pre @ h @ crlf)) (header_field h st)"
    using h(2) by (subst header_lines.simps) (simp add: crlf_def)
  then show ?case using Cons.IH [of "pre @ h @ crlf" "header_field h st"] Cons.prems by (simp add: crlf_def add.assoc)
qed

section \<open>A request that arrives in pieces\<close>

lemma find_from_None_take: "find_from s sub off = None \<Longrightarrow> sub \<noteq> [] \<Longrightarrow> find_from (take n s) sub off = None"
  by (auto simp: find_from_None at_take)

text \<open>The parts of a request: method, arguments and protocol, the lines of the header and the body.\<close>

record http_request =
  rq_method :: string
  rq_args :: string
  rq_protocol :: string
  rq_headers :: "string list"
  rq_body :: string

definition request_line :: "http_request \<Rightarrow> string" where
  "request_line q = rq_method q @ '' '' @ rq_args q @ '' '' @ rq_protocol q"

definition request_text :: "http_request \<Rightarrow> string" where
  "request_text q = request (request_line q) (rq_headers q) (rq_body q)"

definition header_start :: "http_request \<Rightarrow> nat" where
  "header_start q = length (request_line q) + 2"

definition body_start :: "http_request \<Rightarrow> nat" where
  "body_start q = header_start q + length (header_text (rq_headers q)) + 2"

definition request_ok :: "http_request \<Rightarrow> bool" where
  "request_ok q \<longleftrightarrow> plain (request_line q) \<and> CHR 0x20 \<notin> set (rq_method q) \<and> CHR 0x20 \<notin> set (rq_args q) \<and>
     (\<forall>h \<in> set (rq_headers q). plain h \<and> h \<noteq> [])"

definition header_map :: "string list \<Rightarrow> string \<rightharpoonup> string" where
  "header_map hs = (case fold header_field hs ([], [], Map.empty) of (var, val, fs) \<Rightarrow> store_field var val fs)"

text \<open>The state of the connection when \<open>n\<close> characters have arrived.\<close>

definition line_parsed :: "http_request \<Rightarrow> http_conn \<Rightarrow> http_conn" where
  "line_parsed q c = c\<lparr>hc_header_offset := int (header_start q), hc_method := rq_method q, hc_args := rq_args q, hc_protocol := rq_protocol q\<rparr>"

definition conn_at :: "http_request \<Rightarrow> nat \<Rightarrow> http_conn" where
  "conn_at q n =
     (let c = SimpleHTTPConn_new\<lparr>hc_buffer := take n (request_text q)\<rparr>
      in if n < header_start q then c
         else if n < body_start q then line_parsed q c
         else header_values (header_map (rq_headers q)) ((line_parsed q c)\<lparr>hc_body_offset := int (body_start q)\<rparr>))"

lemma spaces:
  assumes "request_ok q"
  shows "find_from (request_text q) '' '' 0 = Some (length (rq_method q))"
    "find_from (request_text q) '' '' (length (rq_method q) + 1) = Some (length (rq_method q) + 1 + length (rq_args q))"
proof -
  let ?rest = "rq_args q @ '' '' @ rq_protocol q @ crlf @ header_text (rq_headers q) @ crlf @ rq_body q"
  have whole: "request_text q = rq_method q @ '' '' @ ?rest" by (simp add: request_text_def request_def request_line_def)
  show "find_from (request_text q) '' '' 0 = Some (length (rq_method q))"
    using assms find_from_skip_char [of "CHR 0x20" "rq_method q" "'' '' @ ?rest" "[]"] find_from_here [of "'' ''" ?rest]
    by (simp add: whole request_ok_def)
  have "find_from ?rest '' '' 0 = Some (length (rq_args q))"
    using assms find_from_skip_char [of "CHR 0x20" "rq_args q" "'' '' @ rq_protocol q @ crlf @ header_text (rq_headers q) @ crlf @ rq_body q" "[]"]
      find_from_here [of "'' ''"] by (simp add: request_ok_def)
  then show "find_from (request_text q) '' '' (length (rq_method q) + 1) = Some (length (rq_method q) + 1 + length (rq_args q))"
    using find_from_shift [of "rq_method q @ '' ''" ?rest "'' ''" 0] by (simp add: whole)
qed

lemma request_LF: "request_ok q \<Longrightarrow> find_from (request_text q) [LF] 0 = Some (length (request_line q) + 1)"
  using plain_find_LF [of "request_line q"] by (simp add: request_ok_def request_text_def request_def)

lemma first_line_missing:
  assumes "request_ok q" and "n < header_start q"
  shows "parse_first_line (c\<lparr>hc_buffer := take n (request_text q)\<rparr>) = None"
  using find_from_take [OF request_LF [OF assms(1)], of n] assms(2) by (simp add: parse_first_line_def header_start_def)

lemma request_take:
  assumes "header_start q \<le> n"
  shows "take n (request_text q) = request_line q @ crlf @ take (n - header_start q) (header_text (rq_headers q) @ crlf @ rq_body q)"
proof -
  have "n = length (request_line q @ crlf) + (n - header_start q)" using assms by (simp add: header_start_def crlf_def)
  then show ?thesis by (metis request_text_def request_def append_assoc take_append take_all_iff le_add1 add_diff_cancel_left')
qed

lemma first_line_parsed:
  assumes "request_ok q" and "header_start q \<le> n"
  shows "parse_first_line (c\<lparr>hc_buffer := take n (request_text q)\<rparr>) = Some (line_parsed q (c\<lparr>hc_buffer := take n (request_text q)\<rparr>))"
proof -
  let ?t = "take n (request_text q)" and ?l = "request_line q"
  have t: "?t = ?l @ crlf @ take (n - header_start q) (header_text (rq_headers q) @ crlf @ rq_body q)" using request_take [OF assms(2)] .
  have len: "length ?l = length (rq_method q) + 1 + length (rq_args q) + 1 + length (rq_protocol q)" by (simp add: request_line_def)
  have lf: "find_from ?t [LF] 0 = Some (length ?l + 1)"
    using find_from_take [OF request_LF [OF assms(1)], of n] assms(2) by (simp add: header_start_def)
  have sp: "find_from ?t '' '' 0 = Some (length (rq_method q))"
      "find_from ?t '' '' (length (rq_method q) + 1) = Some (length (rq_method q) + 1 + length (rq_args q))"
    using find_from_take [OF spaces(1) [OF assms(1)], of n] find_from_take [OF spaces(2) [OF assms(1)], of n] assms(2) len by (simp_all add: header_start_def)
  have eol: "line_end ?t (length ?l + 1) = length ?l" by (simp add: line_end_def t nth_append crlf_def)
  have parts: "substr ?t 0 (length (rq_method q)) = rq_method q" "substr ?t (length (rq_method q) + 1) (length (rq_args q)) = rq_args q"
      "substr ?t (length (rq_method q) + 1 + length (rq_args q) + 1) (length (rq_protocol q)) = rq_protocol q"
    by (simp_all add: substr_def t request_line_def)
  have le: "\<not> length ?l < length (rq_method q)" "\<not> length ?l < length (rq_method q) + 1 + length (rq_args q)"
      "length ?l - (length (rq_method q) + 1 + length (rq_args q) + 1) = length (rq_protocol q)" using len by simp_all
  show ?thesis using parts le unfolding parse_first_line_def Let_def
    by (simp add: lf [simplified] eol [simplified] not_after_def sp [simplified] line_parsed_def header_start_def)
qed

lemma header_end:
  assumes "request_ok q" and "header_start q \<le> n" and "hc_header_offset c = int (header_start q)"
  shows "header_complete (c\<lparr>hc_buffer := take n (request_text q)\<rparr>) = (if body_start q \<le> n then Some (body_start q) else None)"
proof -
  let ?T = "request_text q" and ?l = "request_line q" and ?h = "header_text (rq_headers q)"
  have whole: "?T = ?l @ crlf @ ?h @ crlf @ rq_body q" by (simp add: request_text_def request_def)
  have start: "header_start q = length ?l + 2" by (simp add: header_start_def)
  have "find_from ?T [CR, LF, CR, LF] (length ?l) = Some (length ?l + length ?h)"
    using find_from_shift [of ?l "crlf @ ?h @ crlf @ rq_body q" "[CR, LF, CR, LF]" 0] find_header_end [of "rq_headers q" "rq_body q"] assms(1)
    by (simp add: whole request_ok_def)
  from find_from_take [OF this, of n] have end4: "find_from (take n ?T) [CR, LF, CR, LF] (length ?l) =
      (if body_start q \<le> n then Some (length ?l + length ?h) else None)" by (simp add: body_start_def start)
  have "find_from (take n ?T) [LF, LF] (length ?l + 1) = None" if "n < body_start q"
  proof -
    have "find_from (?l @ crlf @ ?h @ crlf) [LF, LF] (length ?l + 1) = None"
      using find_from_shift [of "?l @ [CR]" "LF # ?h @ crlf" "[LF, LF]" 0] no_double_LF [of "rq_headers q"] assms(1) by (simp add: request_ok_def crlf_def)
    moreover have "n \<le> length (?l @ crlf @ ?h @ crlf)" using that by (simp add: body_start_def start crlf_def)
    then have "take n ?T = take n (?l @ crlf @ ?h @ crlf)"
      using take_append [of n "?l @ crlf @ ?h @ crlf" "rq_body q"] by (simp add: whole del: take_append)
    ultimately show ?thesis by (simp add: find_from_None_take del: take_append)
  qed
  then show ?thesis using end4 assms(3) by (simp add: header_complete_def find_at_def start body_start_def nat_add_distrib)
qed

lemma header_values_buffer: "header_values fs (c\<lparr>hc_buffer := b\<rparr>) = (header_values fs c)\<lparr>hc_buffer := b\<rparr>"
  by (simp add: header_values_def Let_def split: option.splits)

lemma header_values_same [simp]:
  "hc_buffer (header_values fs c) = hc_buffer c" "hc_body_offset (header_values fs c) = hc_body_offset c" "hc_fields (header_values fs c) \<noteq> None"
  "hc_method (header_values fs c) = hc_method c" "hc_args (header_values fs c) = hc_args c" "hc_protocol (header_values fs c) = hc_protocol c"
  by (simp_all add: header_values_def Let_def split: option.splits)

lemma header_values_fields [simp]: "\<exists>y. hc_fields (header_values fs c) = Some y"
  by (simp add: header_values_def Let_def split: option.splits)

lemma header_values_length: "hc_body_length (header_values fs c) =
    (case fs ''Content-Length'' of Some v \<Rightarrow> wrap_signed 32 (atol v) | None \<Rightarrow> hc_body_length c)"
  by (simp add: header_values_def Let_def split: option.splits)

lemma header_values_sized:
  assumes "fs ''Content-Length'' = Some v" and "0 \<le> wrap_signed 32 (atol v)" and "\<not> hc_keep_alive c"
  shows "hc_fields (header_values fs c) = Some fs"
    "hc_keep_alive (header_values fs c) \<longleftrightarrow> (\<exists>w. fs ''Connection'' = Some w \<and> \<not> strcasecmp w ''keep-alive'')"
  using assms by (simp_all add: header_values_def Let_def split: option.splits)

lemma conn_at_buffer: "conn_at q n = (conn_at q n)\<lparr>hc_buffer := take n (request_text q)\<rparr>"
  by (simp add: conn_at_def Let_def line_parsed_def header_values_buffer [symmetric])

lemma ParseRequestHeader_step:
  assumes "hc_fields c = None" and "length (hc_buffer c) \<noteq> 0" and "(if hc_header_offset c < 0 then parse_first_line c else Some c) = Some c1"
  shows "ParseRequestHeader c =
    (case header_complete c1 of
       None \<Rightarrow> (INCOMPLETE, c1)
     | Some body \<Rightarrow>
         (let c2 = c1\<lparr>hc_body_offset := int body\<rparr>
          in case header_lines (hc_buffer c2) body (nat (hc_header_offset c2)) ([], [], Map.empty) of
               None \<Rightarrow> (FAILED, c2\<lparr>hc_fields := Some Map.empty\<rparr>)
             | Some (var, val, fs) \<Rightarrow> (PARSED, header_values (store_field var val fs) c2)))"
  unfolding ParseRequestHeader_def using assms by simp

text \<open>The parser brings the connection from the state for \<open>n\<close> characters to the one for more characters.\<close>

lemma ParseRequestHeader_at:
  assumes "request_ok q" and "n \<le> n'" and "n < body_start q"
  shows "ParseRequestHeader ((conn_at q n)\<lparr>hc_buffer := take n' (request_text q)\<rparr>) =
    (if n' < body_start q then INCOMPLETE else PARSED, conn_at q n')"
proof -
  let ?c = "(conn_at q n)\<lparr>hc_buffer := take n' (request_text q)\<rparr>" and ?new = "SimpleHTTPConn_new\<lparr>hc_buffer := take n' (request_text q)\<rparr>"
  have c: "?c = (if n < header_start q then ?new else line_parsed q ?new)"
    using assms(3) by (simp add: conn_at_def Let_def line_parsed_def)
  have none: "hc_fields ?c = None" using c by (simp add: line_parsed_def SimpleHTTPConn_new_def)
  have pos: "0 < header_start q" "header_start q < body_start q" by (simp_all add: header_start_def body_start_def)
  show ?thesis
  proof (cases "n' < header_start q")
    case True
    then have "?c = ?new" "conn_at q n' = ?new" using assms(2) c by (simp_all add: conn_at_def)
    then show ?thesis using first_line_missing [OF assms(1) True, of SimpleHTTPConn_new] True pos
      by (simp add: ParseRequestHeader_def) (simp add: SimpleHTTPConn_new_def)
  next
    case False
    have step: "(if hc_header_offset ?c < 0 then parse_first_line ?c else Some ?c) = Some (line_parsed q ?new)"
      using c first_line_parsed [OF assms(1), of n' SimpleHTTPConn_new] False
      by (cases "n < header_start q") (simp_all add: line_parsed_def SimpleHTTPConn_new_def)
    have ne: "length (hc_buffer ?c) \<noteq> 0" using False pos by (simp add: request_take crlf_def)
    have off: "hc_header_offset (line_parsed q SimpleHTTPConn_new) = int (header_start q)" by (simp add: line_parsed_def)
    have "line_parsed q ?new = (line_parsed q SimpleHTTPConn_new)\<lparr>hc_buffer := take n' (request_text q)\<rparr>" by (simp add: line_parsed_def)
    then have complete: "header_complete (line_parsed q ?new) = (if body_start q \<le> n' then Some (body_start q) else None)"
      using header_end [OF assms(1) _ off, of n'] False by simp
    show ?thesis
    proof (cases "n' < body_start q")
      case True
      then have "conn_at q n' = line_parsed q ?new" using False by (simp add: conn_at_def)
      then show ?thesis using True complete unfolding ParseRequestHeader_step [OF none ne step] by simp
    next
      case done': False
      let ?c2 = "(line_parsed q ?new)\<lparr>hc_body_offset := int (body_start q)\<rparr>"
      let ?pre = "request_line q @ crlf" and ?rest = "take (n' - body_start q) (rq_body q)"
      have "take n' (request_text q) = ?pre @ header_text (rq_headers q) @ crlf @ ?rest"
        using done' False by (simp add: request_take) (simp add: body_start_def header_start_def crlf_def)
      moreover have "hc_buffer ?c2 = take n' (request_text q)" "nat (hc_header_offset ?c2) = header_start q" by (simp_all add: line_parsed_def)
      moreover have "header_start q = length ?pre" "body_start q = length ?pre + length (header_text (rq_headers q)) + 2"
        by (simp_all add: header_start_def body_start_def crlf_def)
      ultimately have "header_lines (hc_buffer ?c2) (body_start q) (nat (hc_header_offset ?c2)) ([], [], Map.empty) =
          Some (fold header_field (rq_headers q) ([], [], Map.empty))"
        using header_lines_request [of "rq_headers q" ?pre ?rest] assms(1) by (simp only: request_ok_def) simp
      moreover have "conn_at q n' = header_values (header_map (rq_headers q)) ?c2" using done' False by (simp add: conn_at_def)
      ultimately show ?thesis using complete done' unfolding ParseRequestHeader_step [OF none ne step]
        by (simp add: header_map_def split: prod.splits)
    qed
  qed
qed

definition request_total :: "http_request \<Rightarrow> nat" where
  "request_total q = body_start q + length (rq_body q)"

lemma request_text_length: "length (request_text q) = request_total q"
  by (simp add: request_text_def request_def request_total_def body_start_def header_start_def crlf_def)

text \<open>A request whose header has the length of its body.\<close>

definition sized :: "http_request \<Rightarrow> bool" where
  "sized q \<longleftrightarrow> request_ok q \<and> header_map (rq_headers q) ''Content-Length'' = Some (show_int (int (length (rq_body q)))) \<and> length (rq_body q) < 2 ^ 31"

lemma digit_not_null: "c \<in> set (show_nat n) \<Longrightarrow> c \<noteq> CHR 0x00"
proof (induction n rule: show_nat.induct)
  case (1 n)
  have "digit_of d \<noteq> CHR 0x00" if "d < 10" for d
  proof -
    have "(of_char (digit_of d) :: nat) = 48 + d" using that by (simp add: digit_of_def)
    then show ?thesis by auto
  qed
  then have "digit_of (n mod 10) \<noteq> CHR 0x00" "n < 10 \<Longrightarrow> digit_of n \<noteq> CHR 0x00" by simp_all
  then show ?case using 1 by (subst (asm) (2) show_nat.simps) (auto split: if_splits)
qed

lemma atol_show: "n < 2 ^ 31 \<Longrightarrow> atol (show_int (int n)) = int n"
proof -
  assume n: "n < 2 ^ 31"
  have "c_str (show_int (int n)) = show_int (int n)" using digit_not_null by (auto simp: c_str_def show_int_def takeWhile_eq_all_conv)
  then show ?thesis using n by (simp add: atol_def read_show_int)
qed

lemma sized_length: "sized q \<Longrightarrow> body_start q \<le> n \<Longrightarrow> hc_body_length (conn_at q n) = int (length (rq_body q))"
  by (simp add: sized_def conn_at_def body_start_def Let_def header_values_length atol_show wrap_signed_def)

lemma RequestReady_at:
  assumes "sized q" and "n \<le> n'" and "n < request_total q" and "n' \<le> request_total q"
  shows "RequestReady ((conn_at q n)\<lparr>hc_buffer := take n' (request_text q)\<rparr>) = (if n' < request_total q then INCOMPLETE else PARSED, conn_at q n')"
proof -
  let ?c = "(conn_at q n)\<lparr>hc_buffer := take n' (request_text q)\<rparr>"
  have ok: "request_ok q" using assms(1) by (simp add: sized_def)
  have pos: "header_start q < body_start q" "body_start q \<le> request_total q" by (simp_all add: body_start_def request_total_def)
  have parsed: "(if hc_fields ?c = None then ParseRequestHeader ?c else (PARSED, ?c)) = (if n' < body_start q then INCOMPLETE else PARSED, conn_at q n')"
  proof (cases "n < body_start q")
    case True
    then have "hc_fields ?c = None" by (simp add: conn_at_def Let_def line_parsed_def SimpleHTTPConn_new_def)
    then show ?thesis using ParseRequestHeader_at [OF ok assms(2) True] by simp
  next
    case False
    then have "?c = conn_at q n'" using assms(2) pos
      by (simp add: conn_at_def Let_def line_parsed_def header_values_buffer [symmetric] SimpleHTTPConn_new_def)
    moreover have "hc_fields (conn_at q n') \<noteq> None" using False assms(2) pos by (simp add: conn_at_def Let_def)
    ultimately show ?thesis using False assms(2) by auto
  qed
  show ?thesis
  proof (cases "n' < body_start q")
    case True
    then show ?thesis using pos unfolding RequestReady_def parsed by simp
  next
    case False
    have "hc_body_offset (conn_at q n') = int (body_start q)" "length (hc_buffer (conn_at q n')) = n'"
      using False pos assms(4) by (simp_all add: conn_at_def Let_def line_parsed_def request_text_length)
    then show ?thesis using False sized_length [OF assms(1), of n'] unfolding RequestReady_def parsed
      by (auto simp: request_total_def)
  qed
qed

lemma ReadRequest_pieces:
  assumes "sized q" and "take n (request_text q) @ concat ds = request_text q" and "n < request_total q" and "\<And>d. d \<in> set ds \<Longrightarrow> d \<noteq> []"
  shows "ReadRequest (map Data ds @ as) (conn_at q n) = Some (True, as, conn_at q (request_total q))"
  using assms(2-4)
proof (induction ds arbitrary: n)
  case Nil
  then have "length (take n (request_text q)) = request_total q" by (simp add: request_text_length)
  then show ?case using Nil(2) by (simp add: request_text_length)
next
  case (Cons d ds)
  have n: "length (take n (request_text q)) = n" using Cons.prems(2) by (simp add: request_text_length)
  define n' where "n' = n + length d"
  have d: "d \<noteq> []" using Cons.prems(3) by simp
  have split: "request_text q = (take n (request_text q) @ d) @ concat ds" using Cons.prems(1) by simp
  have len: "length (take n (request_text q) @ d) = n'" using n n'_def by simp
  have next_text: "take n (request_text q) @ d = take n' (request_text q)" by (metis append_eq_conv_conj len split)
  have le: "n' \<le> request_total q" using split len by (metis le_add1 length_append request_text_length)
  have "hc_buffer (conn_at q n) = take n (request_text q)" by (subst conn_at_buffer) simp
  then have "RequestReady ((conn_at q n)\<lparr>hc_buffer := hc_buffer (conn_at q n) @ d\<rparr>) = (if n' < request_total q then INCOMPLETE else PARSED, conn_at q n')"
    using RequestReady_at [OF assms(1), of n n'] Cons.prems(2) le n'_def by (simp add: next_text)
  moreover have "ds = []" if "n' = request_total q"
  proof -
    have "concat ds = []" using split len that by (metis append_self_conv append_eq_append_conv length_append add_cancel_left_right length_0_conv request_text_length)
    then show ?thesis using Cons.prems(3) by (cases ds) auto
  qed
  moreover have "ReadRequest (map Data ds @ as) (conn_at q n') = Some (True, as, conn_at q (request_total q))" if "n' < request_total q"
    by (rule Cons.IH) (use that split next_text Cons.prems(3) in auto)
  ultimately show ?case using le by (cases "n' = request_total q") auto
qed

text \<open>The fields of a header of lines with a name, a colon and a value.\<close>

definition field_line :: "string \<times> string \<Rightarrow> string" where
  "field_line kv = fst kv @ '': '' @ snd kv"

definition field_ok :: "string \<times> string \<Rightarrow> bool" where
  "field_ok kv \<longleftrightarrow> plain (fst kv) \<and> plain (snd kv) \<and> fst kv \<noteq> [] \<and> CHR '':'' \<notin> set (fst kv) \<and> \<not> is_blank (hd (fst kv))"

lemma header_field_line:
  assumes "field_ok kv"
  shows "header_field (field_line kv) (var, val, fs) = (fst kv, snd kv, store_field var val fs)"
proof -
  obtain k v where kv: "kv = (k, v)" by fastforce
  have "takeWhile is_blank (field_line kv) = []" using assms by (cases k) (auto simp: field_line_def field_ok_def kv)
  moreover have "find_from (field_line kv) '': '' 0 = Some (length k)"
    using assms find_from_skip_char [of "CHR '':''" k "'': '' @ v" "'' ''"] find_from_here [of "'': ''" v] by (simp add: field_line_def field_ok_def kv)
  ultimately show ?thesis by (simp add: header_field_def Let_def kv field_line_def)
qed

lemma fold_fields:
  assumes "\<And>kv. kv \<in> set kvs \<Longrightarrow> field_ok kv"
  shows "(case fold header_field (map field_line kvs) (var, val, fs) of (var', val', fs') \<Rightarrow> store_field var' val' fs') =
    store_field var val fs ++ map_of (rev kvs)"
  using assms
proof (induction kvs arbitrary: var val fs)
  case (Cons kv kvs)
  have "fst kv \<noteq> []" using Cons.prems by (simp add: field_ok_def)
  then have "store_field (fst kv) (snd kv) (store_field var val fs) = store_field var val fs ++ map_of [kv]"
    by (cases kv) (simp add: store_field_def)
  then show ?case using Cons by (simp add: header_field_line)
qed simp

lemma header_map_fields:
  assumes "\<And>kv. kv \<in> set kvs \<Longrightarrow> field_ok kv"
  shows "header_map (map field_line kvs) = map_of (rev kvs)"
  using fold_fields [OF assms, of kvs "[]" "[]" Map.empty] by (simp add: header_map_def store_field_def)

text \<open>
  C13: requests are read as they were sent.  A request with a method, arguments, a protocol, any fields (the last one of a
  name counts) and a body of the announced length is read completely and exactly, in whatever non-empty pieces it arrives,
  and what the socket answers later is not touched: the parts and the body come out as they went in, and the connection is
  kept alive if and only if the client asked for it.
\<close>
theorem http_request_round_trip:
  assumes "plain method" and "plain args" and "plain protocol" and "CHR 0x20 \<notin> set method" and "CHR 0x20 \<notin> set args"
    and "\<And>kv. kv \<in> set kvs \<Longrightarrow> field_ok kv" and "map_of (rev kvs) ''Content-Length'' = Some (show_int (int (length body)))" and "length body < 2 ^ 31"
    and "concat ds = request (method @ '' '' @ args @ '' '' @ protocol) (map field_line kvs) body" and "\<And>d. d \<in> set ds \<Longrightarrow> d \<noteq> []"
  shows "\<exists>c. ReadRequest (map Data ds @ as) SimpleHTTPConn_new = Some (True, as, c) \<and> GetRequestMethod c = method \<and> GetRequestArgs c = args \<and>
    hc_protocol c = protocol \<and> hc_fields c = Some (map_of (rev kvs)) \<and> GetRequestBody c = Inr body \<and>
    (IsKeepAlive c \<longleftrightarrow> (\<exists>v. map_of (rev kvs) ''Connection'' = Some v \<and> \<not> strcasecmp v ''keep-alive''))"
proof -
  define q where "q = \<lparr>rq_method = method, rq_args = args, rq_protocol = protocol, rq_headers = map field_line kvs, rq_body = body\<rparr>"
  have lines: "plain h \<and> h \<noteq> []" if "h \<in> set (map field_line kvs)" for h
    using that assms(6) by (fastforce simp: field_line_def field_ok_def plain_def CR_def LF_def)
  have sp: "plain (method @ '' '' @ args @ '' '' @ protocol)" using assms(1-3) by (simp add: plain_def CR_def LF_def)
  have sized: "sized q"
    using assms lines sp by (simp add: sized_def request_ok_def q_def request_line_def header_map_fields)
  have hdr: "request_text q = concat ds" using assms(9) by (simp add: request_text_def request_line_def q_def)
  have pos: "0 < request_total q" "header_start q < body_start q" "body_start q \<le> request_total q" "0 < header_start q"
    by (simp_all add: request_total_def body_start_def header_start_def)
  have start: "conn_at q 0 = SimpleHTTPConn_new" using pos(4) by (simp add: conn_at_def SimpleHTTPConn_new_def)
  let ?c = "conn_at q (request_total q)"
  have read: "ReadRequest (map Data ds @ as) SimpleHTTPConn_new = Some (True, as, ?c)"
    using ReadRequest_pieces [OF sized, of 0 ds as] pos(1) assms(10) hdr start by simp
  have c: "?c = header_values (map_of (rev kvs)) ((line_parsed q (SimpleHTTPConn_new\<lparr>hc_buffer := request_text q\<rparr>))\<lparr>hc_body_offset := int (body_start q)\<rparr>)"
    using pos assms(6) by (simp add: conn_at_def Let_def q_def [symmetric] request_text_length [symmetric])
       (simp add: q_def header_map_fields)
  have len: "hc_body_length ?c = int (length body)" using sized_length [OF sized, of "request_total q"] pos by (simp add: q_def)
  have "request_text q = (request_line q @ crlf @ header_text (rq_headers q) @ crlf) @ body"
      "body_start q = length (request_line q @ crlf @ header_text (rq_headers q) @ crlf)"
    by (simp_all add: request_text_def request_def body_start_def header_start_def crlf_def q_def)
  then have "drop (body_start q) (request_text q) = body" by (metis append_eq_conv_conj)
  then have "GetRequestBody ?c = Inr body" using len by (simp add: GetRequestBody_def c substr_def line_parsed_def)
  moreover have "hc_fields ?c = Some (map_of (rev kvs))" "IsKeepAlive ?c \<longleftrightarrow> (\<exists>v. map_of (rev kvs) ''Connection'' = Some v \<and> \<not> strcasecmp v ''keep-alive'')"
    using header_values_sized [of "map_of (rev kvs)", OF assms(7)] atol_show [OF assms(8)] assms(8) unfolding c IsKeepAlive_def
    by (simp_all add: wrap_signed_def line_parsed_def SimpleHTTPConn_new_def)
  moreover have "hc_method ?c = method" "hc_args ?c = args" "hc_protocol ?c = protocol"
    unfolding c by (simp_all add: line_parsed_def) (simp_all add: q_def)
  ultimately show ?thesis using read by (intro exI [of _ ?c]) (simp add: GetRequestMethod_def GetRequestArgs_def)
qed

theorem http_request_round_trip_witness:
  "\<exists>c. ReadRequest (map Data [''SET o.p X'', [CR, LF] @ ''Content-Length: 2'' @ [CR], LF # [CR, LF] @ ''a'', ''b''] @ []) SimpleHTTPConn_new =
     Some (True, [], c) \<and> GetRequestMethod c = ''SET'' \<and> GetRequestArgs c = ''o.p'' \<and> GetRequestBody c = Inr ''ab'' \<and> \<not> IsKeepAlive c"
proof -
  have l: "show_int (int (length ''ab'')) = ''2''" by (simp add: show_int_def digit_of_def) code_simp
  have "\<exists>c. ReadRequest (map Data [''SET o.p X'', [CR, LF] @ ''Content-Length: 2'' @ [CR], LF # [CR, LF] @ ''a'', ''b''] @ []) SimpleHTTPConn_new = Some (True, [], c) \<and>
      GetRequestMethod c = ''SET'' \<and> GetRequestArgs c = ''o.p'' \<and> hc_protocol c = ''X'' \<and> hc_fields c = Some (map_of (rev [(''Content-Length'', ''2'')])) \<and>
      GetRequestBody c = Inr ''ab'' \<and> (IsKeepAlive c \<longleftrightarrow> (\<exists>v. map_of (rev [(''Content-Length'', ''2'')]) ''Connection'' = Some v \<and> \<not> strcasecmp v ''keep-alive''))"
    by (rule http_request_round_trip)
      (auto simp: plain_def field_ok_def is_blank_def CR_def LF_def l [simplified] request_def crlf_def header_text_def field_line_def)
  then show ?thesis by auto
qed

section \<open>Other behaviours of a connection\<close>

lemma at_last:
  assumes "at buf sub p" and "sub \<noteq> []"
  shows "p + length sub \<le> length buf \<and> buf ! (p + length sub - 1) = last sub"
proof -
  have "length (take (length sub) (drop p buf)) = length sub" using assms(1) by simp
  then have le: "p + length sub \<le> length buf" using assms(2) by (cases "p \<le> length buf") auto
  have "last sub = take (length sub) (drop p buf) ! (length sub - 1)" using assms by (simp add: last_conv_nth)
  then show ?thesis using le assms(2) by (cases sub) simp_all
qed

lemma header_lines_found:
  assumes "stop \<le> length buf" and "0 < stop" and "buf ! (stop - 1) = LF"
  shows "header_lines buf stop offset st \<noteq> None"
  using assms
proof (induction buf stop offset st rule: header_lines.induct)
  case (1 buf stop offset st)
  show ?case
  proof (cases "offset < stop")
    case True
    have "drop (stop - 1) buf = LF # drop stop buf" using 1(2-4) by (metis Cons_nth_drop_Suc Suc_diff_1 Suc_le_eq)
    then have "at buf [LF] (stop - 1)" by simp
    then obtain p where "find_from buf [LF] offset = Some p"
      using True 1(2) find_from_None [of buf "[LF]" offset] by (cases "find_from buf [LF] offset") force+
    then show ?thesis using 1 True by (subst header_lines.simps) (cases st; simp add: Let_def)
  next
    case False
    then show ?thesis by (subst header_lines.simps) simp
  qed
qed

lemma header_complete_LF:
  assumes "header_complete c = Some stop"
  shows "stop \<le> length (hc_buffer c) \<and> 0 < stop \<and> hc_buffer c ! (stop - 1) = LF"
proof -
  have found: "at (hc_buffer c) sub p" if "find_at (hc_buffer c) sub off = Some p" for sub off p
    using that by (simp add: find_at_def find_from_Some split: if_splits)
  show ?thesis
  proof (cases "find_at (hc_buffer c) [CR, LF, CR, LF] (hc_header_offset c - 2)")
    case None
    then obtain p where "find_at (hc_buffer c) [LF, LF] (hc_header_offset c - 1) = Some p" "stop = p + 2"
      using assms by (auto simp: header_complete_def split: option.splits)
    then show ?thesis using at_last [OF found, of "[LF, LF]"] by fastforce
  next
    case (Some p)
    then have "stop = p + 4" using assms by (simp add: header_complete_def)
    then show ?thesis using at_last [OF found [OF Some]] by (simp add: numeral_eq_Suc)
  qed
qed

lemma ParseRequestHeader_accepts: "fst (ParseRequestHeader c) \<noteq> FAILED"
proof (cases "hc_fields c = None \<and> length (hc_buffer c) \<noteq> 0")
  case True
  show ?thesis
  proof (cases "if hc_header_offset c < 0 then parse_first_line c else Some c")
    case None
    then show ?thesis using True unfolding ParseRequestHeader_def by simp
  next
    case (Some c1)
    note step = ParseRequestHeader_step [OF conjunct1 [OF True] conjunct2 [OF True] Some]
    show ?thesis
    proof (cases "header_complete c1")
      case None
      then show ?thesis unfolding step by simp
    next
      case (Some stop)
      then obtain var val fs where "header_lines (hc_buffer c1) stop (nat (hc_header_offset c1)) ([], [], Map.empty) = Some (var, val, fs)"
        using header_complete_LF [OF Some] header_lines_found by (metis not_None_eq prod_cases3)
      then show ?thesis using Some unfolding step by (simp add: Let_def)
    qed
  qed
qed (auto simp: ParseRequestHeader_def)

lemma RequestReady_accepts: "fst (RequestReady c) \<noteq> FAILED"
  using ParseRequestHeader_accepts [of c] by (auto simp: RequestReady_def Let_def split: prod.splits if_splits)

text \<open>A request that is not complete stays so when nothing arrives.\<close>

lemma first_line_again:
  "parse_first_line c = Some c1 \<Longrightarrow> 0 \<le> hc_header_offset c1 \<and> hc_fields c1 = hc_fields c \<and> hc_buffer c1 = hc_buffer c"
  by (auto simp: parse_first_line_def Let_def split: option.splits)

lemma ParseRequestHeader_again:
  assumes "ParseRequestHeader c = (INCOMPLETE, c1)"
  shows "ParseRequestHeader c1 = (INCOMPLETE, c1) \<and> hc_fields c1 = None"
proof -
  have c: "hc_fields c = None" using assms by (auto simp: ParseRequestHeader_def split: if_splits)
  consider "c1 = c" | c2 where "(if hc_header_offset c < 0 then parse_first_line c else Some c) = Some c2" "length (hc_buffer c) \<noteq> 0"
    using assms c by (cases "if hc_header_offset c < 0 then parse_first_line c else Some c") (auto simp: ParseRequestHeader_def split: if_splits)
  then show ?thesis
  proof cases
    case 2
    have "c1 = c2" "header_complete c2 = None"
      using assms unfolding ParseRequestHeader_step [OF c 2(2,1)] by (auto simp: Let_def split: option.splits prod.splits)
    moreover have "0 \<le> hc_header_offset c2 \<and> hc_fields c2 = None \<and> hc_buffer c2 = hc_buffer c"
      using 2(1) c first_line_again [of c c2] by (auto split: if_splits)
    ultimately show ?thesis using 2(2) by (simp add: ParseRequestHeader_def)
  qed (use assms c in simp)
qed

lemma RequestReady_again:
  assumes "RequestReady c = (INCOMPLETE, c1)"
  shows "RequestReady c1 = (INCOMPLETE, c1)"
proof (cases "hc_fields c = None")
  case True
  obtain r c2 where p: "ParseRequestHeader c = (r, c2)" by fastforce
  show ?thesis
  proof (cases "r = PARSED")
    case False
    then have "ParseRequestHeader c = (INCOMPLETE, c1)" using assms True p by (simp add: RequestReady_def)
    then show ?thesis using ParseRequestHeader_again [of c c1] by (simp add: RequestReady_def)
  next
    case parsed: True
    have "hc_fields c2 \<noteq> None"
      using p parsed True by (auto simp: ParseRequestHeader_def Let_def header_values_same split: option.splits if_splits prod.splits)
    then show ?thesis using assms True p parsed by (auto simp: RequestReady_def split: if_splits)
  qed
qed (use assms in \<open>auto simp: RequestReady_def split: if_splits\<close>)

text \<open>
  A request is never rejected, and a closed connection is not noticed.  Whatever has arrived, the parser does not report a
  failure.  When the peer closes the connection before its request is complete, \<^verbatim>\<open>read\<close> keeps returning no data, and reading
  the request does not end after any number of such answers.
\<close>
theorem http_close_not_noticed:
  assumes "fst (RequestReady c) \<noteq> PARSED"
  shows "ReadRequest (replicate n (Data [])) c = None"
proof -
  obtain c1 where r: "RequestReady c = (INCOMPLETE, c1)"
    using assms RequestReady_accepts [of c] by (cases "RequestReady c", cases "fst (RequestReady c)") auto
  have "ReadRequest (replicate k (Data [])) c1 = None" for k
    using RequestReady_again [OF r] by (induction k) simp_all
  then show ?thesis using r by (cases n) simp_all
qed

theorem http_close_not_noticed_witness: "ReadRequest (replicate 1000 (Data [])) (SimpleHTTPConn_new\<lparr>hc_buffer := ''GET /''\<rparr>) = None"
  by (rule http_close_not_noticed) code_simp

text \<open>
  A response is sent completely when the socket takes it at once.  When it takes only a part of it, the rest is filled with
  the text from its start: what arrives has the right length but is not the response.
\<close>
theorem http_partial_write:
  "SendResponse (Written (length (response_text c)) # as) c = Some (response_text c, as) \<and>
   (0 < w \<and> w < length (response_text c) \<and> response_text c ! w \<noteq> CHR ''H'' \<longrightarrow>
      (\<exists>sent. SendResponse [Written w, Written (length (response_text c) - w)] c = Some (sent, []) \<and>
         length sent = length (response_text c) \<and> sent \<noteq> response_text c))"
proof -
  let ?t = "response_text c"
  have first: "?t ! 0 = CHR ''H''" by (simp add: response_text_def snprintf_def)
  have "take w ?t @ take (length ?t - w) ?t \<noteq> ?t" if "0 < w" "w < length ?t" "?t ! w \<noteq> CHR ''H''"
  proof
    assume eq: "take w ?t @ take (length ?t - w) ?t = ?t"
    have "(take w ?t @ take (length ?t - w) ?t) ! w = take (length ?t - w) ?t ! 0" using that(2) by (simp add: nth_append)
    also have "\<dots> = ?t ! 0" using that(2) by simp
    finally show False using eq first that(3) by simp
  qed
  then show ?thesis by (auto simp: SendResponse_def Let_def)
qed

theorem http_partial_write_witness:
  "\<exists>sent. SendResponse [Written 4, Written (length (response_text SimpleHTTPConn_new) - 4)] SimpleHTTPConn_new = Some (sent, []) \<and>
     length sent = length (response_text SimpleHTTPConn_new) \<and> sent \<noteq> response_text SimpleHTTPConn_new"
proof -
  have "4 < length (response_text SimpleHTTPConn_new) \<and> response_text SimpleHTTPConn_new ! 4 \<noteq> CHR ''H''" by code_simp
  then show ?thesis using http_partial_write [of SimpleHTTPConn_new "[]" 4] by simp
qed

text \<open>
  Between two requests the connection is as new when nothing of the next request has arrived; otherwise the buffer is not cut
  at the end of the request.
\<close>

lemma Clear_between_requests:
  assumes "hc_buffer c = req @ extra" and "int (length req) = hc_body_offset c + hc_body_length c" and "0 \<le> hc_body_length c"
  shows "extra = [] \<Longrightarrow> Conn_Clear c = SimpleHTTPConn_new" and "hc_buffer (Conn_Clear c) = (if extra = [] then [] else drop (length extra) (req @ extra))"
proof -
  have preserve: "int (length (hc_buffer c)) - hc_body_offset c - hc_body_length c = int (length extra)" using assms by simp
  show "extra = [] \<Longrightarrow> Conn_Clear c = SimpleHTTPConn_new" "hc_buffer (Conn_Clear c) = (if extra = [] then [] else drop (length extra) (req @ extra))"
    unfolding Conn_Clear_def preserve using assms(1,3) by (simp_all add: SimpleHTTPConn_new_def)
qed

end
