(* ===== verification/HttpServer.thy ===== *)
theory HttpServer
  imports HttpConn "HOL-Library.Sublist"
begin

text \<open>
  The management server (\<^verbatim>\<open>src/lib/server/SimpleHTTPServer.cc\<close>, \<^verbatim>\<open>SimpleServer.h\<close>, \<^verbatim>\<open>SimpleServer.cc\<close>): the loop over the
  requests of a connection, and the thread that accepts connections with the switch that ends it.  \<open>HandleRequest\<close> is an
  argument, a function on a state of its own; what the loop relies on is a locale.
\<close>

section \<open>The requests of a connection\<close>

text \<open>A handler that does not return is \<open>None\<close>.\<close>

type_synonym 's handler = "http_conn \<Rightarrow> 's \<Rightarrow> (failure + bool \<times> http_conn \<times> 's) option"

definition not_implemented :: "bool \<Rightarrow> http_conn \<Rightarrow> http_conn" where
  "not_implemented ok c =
     (if ok then c
      else ErrorResponse 501 ''Not implemented'' (snprintf 1000 (''Method '' @ c_str (GetRequestMethod c) @ '' not implemented'')) c)"

lemma ReadRequest_consumes: "ReadRequest as c = Some (b, as', c') \<Longrightarrow> length as' < length as"
  by (induction as c rule: ReadRequest.induct) (auto split: prod.splits request_ready.splits)

text \<open>
  \<open>None\<close> is a loop that still waits, for an answer of the socket or for the handler.  The result has the texts that were sent.
\<close>

function Request :: "'s handler \<Rightarrow> read_answer list \<Rightarrow> write_answer list \<Rightarrow> http_conn \<Rightarrow> string list \<Rightarrow> 's \<Rightarrow> (failure + string list \<times> 's) option" where
  "Request handle as ws c sent s =
     (case ReadRequest as c of
        None \<Rightarrow> None
      | Some (ok, as1, c1) \<Rightarrow>
          if \<not> ok then Some (Inr (sent, s))
          else case handle c1 s of
                 None \<Rightarrow> None
               | Some (Inl e) \<Rightarrow> Some (Inl e)
               | Some (Inr (done, c2, s1)) \<Rightarrow>
                   (let c3 = not_implemented done c2
                    in case SendResponse ws c3 of
                         None \<Rightarrow> None
                       | Some (t, ws1) \<Rightarrow>
                           if \<not> IsKeepAlive c3 then Some (Inr (sent @ [t], s1))
                           else Request handle as1 ws1 (Conn_Clear c3) (sent @ [t]) s1))"
  by pat_completeness auto
termination
  by (relation "measure (\<lambda>(handle, as, ws, c, sent, s). length as)") (auto dest: ReadRequest_consumes)

declare Request.simps [simp del]

text \<open>What a handler must leave alone: the part of the connection that reading has filled.\<close>

definition same_request :: "http_conn \<Rightarrow> http_conn \<Rightarrow> bool" where
  "same_request c c' \<longleftrightarrow> hc_keep_alive c' = hc_keep_alive c \<and> hc_buffer c' = hc_buffer c \<and> hc_body_offset c' = hc_body_offset c \<and>
     hc_body_length c' = hc_body_length c"

named_theorems keeps_request "operations that leave the request alone"

lemma same_request_refl [keeps_request]: "same_request c c"
  by (simp add: same_request_def)

lemma same_request_ops [keeps_request]:
  "same_request c c' \<Longrightarrow> same_request c (SetResponseCode code d c')" "same_request c c' \<Longrightarrow> same_request c (AppendResponseBody t c')"
  "same_request c c' \<Longrightarrow> same_request c (ClearResponseBody c')" "same_request c c' \<Longrightarrow> same_request c (AppendResponseHeader t c')"
  "same_request c c' \<Longrightarrow> same_request c (ErrorResponse code d t c')"
  by (simp_all add: same_request_def SetResponseCode_def AppendResponseBody_def ClearResponseBody_def AppendResponseHeader_def ErrorResponse_def)

lemma same_request_not_implemented [keeps_request]: "same_request c c' \<Longrightarrow> same_request c (not_implemented ok c')"
  by (simp add: not_implemented_def same_request_ops)

text \<open>The answers to a list of requests, one after the other, if the handler returns on each of them.\<close>

fun answers :: "'s handler \<Rightarrow> http_request list \<Rightarrow> 's \<Rightarrow> (string list \<times> 's) option" where
  "answers handle [] s = Some ([], s)"
| "answers handle (q # qs) s =
     (case handle (conn_at q (request_total q)) s of
        Some (Inr (ok, c, s1)) \<Rightarrow>
          (case answers handle qs s1 of Some (ts, s2) \<Rightarrow> Some (response_text (not_implemented ok c) # ts, s2) | None \<Rightarrow> None)
      | _ \<Rightarrow> None)"

definition keeps_alive :: "http_request \<Rightarrow> bool" where
  "keeps_alive q = hc_keep_alive (conn_at q (request_total q))"

text \<open>The text of a request and the pieces in which it arrives.\<close>

definition arrives :: "http_request \<Rightarrow> string list \<Rightarrow> bool" where
  "arrives q ds \<longleftrightarrow> sized q \<and> concat ds = request_text q \<and> (\<forall>d \<in> set ds. d \<noteq> [])"

lemma ReadRequest_arrives:
  assumes "arrives q ds"
  shows "ReadRequest (map Data ds @ as) SimpleHTTPConn_new = Some (True, as, conn_at q (request_total q))"
proof -
  have "0 < request_total q" "0 < header_start q" by (simp_all add: request_total_def body_start_def header_start_def)
  then show ?thesis using ReadRequest_pieces [of q 0 ds as] assms by (simp add: arrives_def conn_at_def SimpleHTTPConn_new_def)
qed

lemma conn_at_total:
  assumes "sized q"
  shows "hc_buffer (conn_at q (request_total q)) = request_text q"
    "hc_body_offset (conn_at q (request_total q)) + hc_body_length (conn_at q (request_total q)) = int (length (request_text q))"
    "0 \<le> hc_body_length (conn_at q (request_total q))"
proof -
  have pos: "header_start q < body_start q" "body_start q \<le> request_total q" by (simp_all add: request_total_def body_start_def)
  show "hc_buffer (conn_at q (request_total q)) = request_text q" by (subst conn_at_buffer) (simp add: request_text_length)
  have "hc_body_offset (conn_at q (request_total q)) = int (body_start q)" using pos by (simp add: conn_at_def Let_def)
  then show "hc_body_offset (conn_at q (request_total q)) + hc_body_length (conn_at q (request_total q)) = int (length (request_text q))"
      "0 \<le> hc_body_length (conn_at q (request_total q))"
    using sized_length [OF assms pos(2)] by (simp_all add: request_text_length request_total_def)
qed

lemma conn_at_parts:
  assumes "sized q"
  shows "GetRequestMethod (conn_at q (request_total q)) = rq_method q" "GetRequestArgs (conn_at q (request_total q)) = rq_args q"
    "GetRequestBody (conn_at q (request_total q)) = Inr (rq_body q)"
    "keeps_alive q \<longleftrightarrow> (\<exists>w. header_map (rq_headers q) ''Connection'' = Some w \<and> \<not> strcasecmp w ''keep-alive'')"
    "hc_code (conn_at q (request_total q)) = 200" "hc_str (conn_at q (request_total q)) = ''OK''"
    "hc_header (conn_at q (request_total q)) = []" "hc_body (conn_at q (request_total q)) = []"
proof -
  have pos: "header_start q < body_start q" "body_start q \<le> request_total q" by (simp_all add: request_total_def body_start_def)
  let ?c0 = "(line_parsed q (SimpleHTTPConn_new\<lparr>hc_buffer := request_text q\<rparr>))\<lparr>hc_body_offset := int (body_start q)\<rparr>"
  have c: "conn_at q (request_total q) = header_values (header_map (rq_headers q)) ?c0"
    using pos by (simp add: conn_at_def Let_def request_text_length [symmetric])
  show "GetRequestMethod (conn_at q (request_total q)) = rq_method q" "GetRequestArgs (conn_at q (request_total q)) = rq_args q"
    by (simp_all add: c GetRequestMethod_def GetRequestArgs_def line_parsed_def)
  have "request_text q = (request_line q @ crlf @ header_text (rq_headers q) @ crlf) @ rq_body q"
      "body_start q = length (request_line q @ crlf @ header_text (rq_headers q) @ crlf)"
    by (simp_all add: request_text_def request_def body_start_def header_start_def crlf_def)
  then have "drop (body_start q) (request_text q) = rq_body q" by (metis append_eq_conv_conj)
  then show "GetRequestBody (conn_at q (request_total q)) = Inr (rq_body q)"
    using sized_length [OF assms pos(2)] by (simp add: GetRequestBody_def substr_def c line_parsed_def)
  show "keeps_alive q \<longleftrightarrow> (\<exists>w. header_map (rq_headers q) ''Connection'' = Some w \<and> \<not> strcasecmp w ''keep-alive'')"
    using assms header_values_sized(2) [of "header_map (rq_headers q)" "show_int (int (length (rq_body q)))" ?c0]
    by (simp add: keeps_alive_def c sized_def atol_show wrap_signed_def line_parsed_def SimpleHTTPConn_new_def)
  show "hc_code (conn_at q (request_total q)) = 200" "hc_str (conn_at q (request_total q)) = ''OK''"
      "hc_header (conn_at q (request_total q)) = []" "hc_body (conn_at q (request_total q)) = []"
    by (simp_all add: c header_values_def Let_def line_parsed_def SimpleHTTPConn_new_def split: option.splits)
qed

locale http_handler =
  fixes handle :: "'s handler"
  assumes keeps: "handle c s = Some (Inr (ok, c', s')) \<Longrightarrow> same_request c c'"
begin

lemma Clear_after:
  assumes "sized q" and "handle (conn_at q (request_total q)) s = Some (Inr (ok, c, s'))"
  shows "Conn_Clear (not_implemented ok c) = SimpleHTTPConn_new" and "IsKeepAlive (not_implemented ok c) = keeps_alive q"
proof -
  have same: "same_request (conn_at q (request_total q)) (not_implemented ok c)" using keeps [OF assms(2)] by (rule same_request_not_implemented)
  then show "Conn_Clear (not_implemented ok c) = SimpleHTTPConn_new"
    using conn_at_total [OF assms(1)] by (intro Clear_between_requests(1) [of _ "request_text q" "[]"]) (auto simp: same_request_def)
  show "IsKeepAlive (not_implemented ok c) = keeps_alive q" using same by (simp add: same_request_def IsKeepAlive_def keeps_alive_def)
qed

lemma serves_in_order:
  assumes "list_all2 arrives qs dss" and "qs \<noteq> []" and "\<forall>q \<in> set (butlast qs). keeps_alive q" and "\<not> keeps_alive (last qs)"
    and "answers handle qs s = Some (ts, s')"
  shows "Request handle (concat (map (map Data) dss) @ as) (map (Written \<circ> length) ts @ ws) SimpleHTTPConn_new sent s = Some (Inr (sent @ ts, s'))"
  using assms
proof (induction qs dss arbitrary: s ts sent rule: list_all2_induct)
  case (Cons q qs ds dss)
  obtain ok c s1 us where h: "handle (conn_at q (request_total q)) s = Some (Inr (ok, c, s1))" "answers handle qs s1 = Some (us, s')"
    "ts = response_text (not_implemented ok c) # us" using Cons.prems(4) by (auto split: option.splits sum.splits)
  have q: "sized q" using Cons.hyps(1) by (simp add: arrives_def)
  let ?c3 = "not_implemented ok c" and ?rest = "concat (map (map Data) dss) @ as" and ?ws = "map (Written \<circ> length) us @ ws"
  have send: "SendResponse (map (Written \<circ> length) ts @ ws) ?c3 = Some (response_text ?c3, ?ws)" by (simp add: SendResponse_def h(3))
  have read: "ReadRequest (concat (map (map Data) (ds # dss)) @ as) SimpleHTTPConn_new = Some (True, ?rest, conn_at q (request_total q))"
    using ReadRequest_arrives [OF Cons.hyps(1), of ?rest] by simp
  have once: "Request handle (concat (map (map Data) (ds # dss)) @ as) (map (Written \<circ> length) ts @ ws) SimpleHTTPConn_new sent s =
      (if keeps_alive q then Request handle ?rest ?ws SimpleHTTPConn_new (sent @ [response_text ?c3]) s1 else Some (Inr (sent @ [response_text ?c3], s1)))"
    using Clear_after [OF q h(1)] by (subst Request.simps) (simp add: read [simplified] h(1) send)
  show ?case
  proof (cases "qs = []")
    case True
    then show ?thesis using once Cons.prems(3) h by simp
  next
    case False
    then show ?thesis using once Cons.IH [OF False _ _ h(2)] Cons.prems(2,3) h(3) by (simp add: comp_def)
  qed
qed simp

end

text \<open>Requests as a client makes them, with the length of the body.\<close>

definition make_request :: "string \<Rightarrow> string \<Rightarrow> (string \<times> string) list \<Rightarrow> string \<Rightarrow> http_request" where
  "make_request method args kvs body =
     \<lparr>rq_method = method, rq_args = args, rq_protocol = ''HTTP/1.0'',
      rq_headers = map field_line ((''Content-Length'', show_int (int (length body))) # kvs), rq_body = body\<rparr>"

lemma make_request_parts [simp]:
  "rq_method (make_request method args kvs body) = method" "rq_args (make_request method args kvs body) = args"
  "rq_body (make_request method args kvs body) = body"
  by (simp_all add: make_request_def)

lemma show_int_plain: "plain (show_int (int n))"
proof -
  have "is_digit c" if "c \<in> set (show_nat n)" for c using that show_nat_digits by (auto simp: list_all_iff)
  moreover have "\<not> is_digit CR" "\<not> is_digit LF" by (simp_all add: is_digit_def CR_def LF_def)
  ultimately show ?thesis by (auto simp: plain_def show_int_def)
qed

lemma make_request_sized:
  assumes "plain method" "CHR 0x20 \<notin> set method" "plain args" "CHR 0x20 \<notin> set args" "list_all field_ok kvs" "''Content-Length'' \<notin> fst ` set kvs" "length body < 2 ^ 31"
  shows "sized (make_request method args kvs body)" and
    "keeps_alive (make_request method args kvs body) \<longleftrightarrow> (\<exists>w. map_of (rev kvs) ''Connection'' = Some w \<and> \<not> strcasecmp w ''keep-alive'')"
proof -
  let ?kvs = "(''Content-Length'', show_int (int (length body))) # kvs"
  have ok: "field_ok kv" if "kv \<in> set ?kvs" for kv
    using that assms(5) show_int_plain by (auto simp: field_ok_def list_all_iff plain_def is_blank_def CR_def LF_def)
  have lines: "plain h \<and> h \<noteq> []" if "h \<in> set (map field_line ?kvs)" for h
    using that ok by (fastforce simp: field_line_def field_ok_def plain_def CR_def LF_def)
  have map: "header_map (map field_line ?kvs) = map_of (rev ?kvs)" by (rule header_map_fields [OF ok])
  have none: "map_of (rev kvs) ''Content-Length'' = None" using assms(6) by (simp add: map_of_eq_None_iff)
  show sized: "sized (make_request method args kvs body)"
    using assms lines map none by (simp add: sized_def request_ok_def make_request_def request_line_def plain_def CR_def LF_def map_add_def)
  show "keeps_alive (make_request method args kvs body) \<longleftrightarrow> (\<exists>w. map_of (rev kvs) ''Connection'' = Some w \<and> \<not> strcasecmp w ''keep-alive'')"
    using conn_at_parts(4) [OF sized] map by (simp add: make_request_def map_add_def split: option.splits)
qed

section \<open>Accepting connections\<close>

text \<open>
  What happens while the main thread waits for a connection: whether the server is still running afterwards, what \<^verbatim>\<open>accept\<close>
  returned, the text of the client's address if it has one, and whether the queue took the descriptor.
\<close>

record accepted =
  ac_running :: bool
  ac_fd :: "nat option"
  ac_ip :: "string option"
  ac_queued :: bool

text \<open>Where the descriptors of accepted connections are: waiting for a service thread, closed, or in nobody's hands.\<close>

record descriptors =
  fd_queue :: "nat list"
  fd_closed :: "nat list"
  fd_lost :: "nat list"

text \<open>An empty set of allowed clients allows everyone.\<close>

definition RestrictAccess :: "string \<Rightarrow> string set \<Rightarrow> string set" where
  "RestrictAccess addr allowed = insert addr allowed"

definition client_allowed :: "string set \<Rightarrow> string \<Rightarrow> bool" where
  "client_allowed allowed ip \<longleftrightarrow> allowed = {} \<or> ip \<in> allowed"

text \<open>One turn of the loop; the second component says whether the loop goes on.\<close>

definition accept_one :: "string set \<Rightarrow> accepted \<Rightarrow> descriptors \<Rightarrow> descriptors \<times> bool" where
  "accept_one allowed a d =
     (case ac_fd a of
        None \<Rightarrow> (d, False)
      | Some fd \<Rightarrow>
          if \<not> ac_running a then (d\<lparr>fd_lost := fd # fd_lost d\<rparr>, False)
          else case ac_ip a of
                 None \<Rightarrow> (d\<lparr>fd_lost := fd # fd_lost d\<rparr>, True)
               | Some ip \<Rightarrow>
                   if \<not> client_allowed allowed ip then (d\<lparr>fd_closed := fd # fd_closed d\<rparr>, True)
                   else if ac_queued a then (d\<lparr>fd_queue := fd_queue d @ [fd]\<rparr>, True)
                   else (d\<lparr>fd_lost := fd # fd_lost d\<rparr>, False))"

fun accept_loop :: "string set \<Rightarrow> accepted list \<Rightarrow> descriptors \<Rightarrow> descriptors" where
  "accept_loop allowed [] d = d"
| "accept_loop allowed (a # as) d = (case accept_one allowed a d of (d1, go) \<Rightarrow> if go then accept_loop allowed as d1 else d1)"

text \<open>A service thread takes a descriptor, serves the connection and closes the descriptor.\<close>

definition service_one :: "(nat \<Rightarrow> 's \<Rightarrow> 's) \<Rightarrow> descriptors \<Rightarrow> 's \<Rightarrow> descriptors \<times> 's" where
  "service_one serve d s =
     (case fd_queue d of [] \<Rightarrow> (d, s) | fd # rest \<Rightarrow> (d\<lparr>fd_queue := rest, fd_closed := fd # fd_closed d\<rparr>, serve fd s))"

text \<open>
  Its loop: for every turn, whether the server is running and whether the queue has been cancelled.  When there are no more
  turns the thread still waits.
\<close>

fun ServiceThread :: "(nat \<Rightarrow> 's \<Rightarrow> 's) \<Rightarrow> (bool \<times> bool) list \<Rightarrow> descriptors \<Rightarrow> 's \<Rightarrow> descriptors \<times> 's" where
  "ServiceThread serve [] d s = (d, s)"
| "ServiceThread serve ((running, cancelled) # es) d s =
     (if \<not> running \<or> cancelled then (d, s) else case service_one serve d s of (d1, s1) \<Rightarrow> ServiceThread serve es d1 s1)"

text \<open>The listening socket: the switch closes it and keeps its number, unless the caller is \<open>Stop\<close>; the main thread closes it at its end.\<close>

record listener =
  li_running :: bool
  li_socket :: "nat option"
  li_closes :: "nat list"

definition close_socket :: "bool \<Rightarrow> listener \<Rightarrow> listener" where
  "close_socket forget l =
     (case li_socket l of
        None \<Rightarrow> l
      | Some fd \<Rightarrow> l\<lparr>li_closes := fd # li_closes l, li_socket := (if forget then None else Some fd)\<rparr>)"

definition GetRunning :: "listener \<Rightarrow> bool" where
  "GetRunning l = li_running l"

definition SetRunning :: "bool \<Rightarrow> listener \<Rightarrow> listener" where
  "SetRunning running l = (let l1 = l\<lparr>li_running := running\<rparr> in if \<not> running then close_socket False l1 else l1)"

definition MainThread_end :: "listener \<Rightarrow> listener" where
  "MainThread_end l = close_socket True (l\<lparr>li_running := False\<rparr>)"

text \<open>\<open>Stop\<close> up to the wait for the main thread.\<close>

definition Server_Stop :: "listener \<Rightarrow> listener" where
  "Server_Stop l = (if li_running l then close_socket True (l\<lparr>li_running := False\<rparr>) else l)"

text \<open>
  The server: the listening socket, the clients that are allowed, the number of service threads it starts, those that were started
  and not joined, the descriptors and whether the queue has been stopped.  The main thread starts the service threads first; when the
  listening socket cannot be made it returns at once.
\<close>

record simple_server =
  sv_addr :: "nat option"
  sv_port :: int
  sv_listener :: listener
  sv_allowed :: "string set"
  sv_nThreads :: nat
  sv_threads :: nat
  sv_fds :: descriptors
  sv_stopped :: bool

definition SimpleServer_new :: simple_server where
  "SimpleServer_new = \<lparr>sv_addr = None, sv_port = 0, sv_listener = \<lparr>li_running = False, li_socket = None, li_closes = []\<rparr>, sv_allowed = {}, sv_nThreads = 10, sv_threads = 0,
     sv_fds = \<lparr>fd_queue = [], fd_closed = [], fd_lost = []\<rparr>, sv_stopped = False\<rparr>"

text \<open>
  The address is what \<^verbatim>\<open>inet_aton\<close> makes of the text; \<open>None\<close> is \<^verbatim>\<open>INADDR_ANY\<close>.  Waiting for the main thread is left out.
\<close>

definition Server_Start :: "(string \<Rightarrow> nat option) \<Rightarrow> string option \<Rightarrow> int \<Rightarrow> nat \<Rightarrow> simple_server \<Rightarrow> simple_server" where
  "Server_Start inet_aton addr port max_threads s =
     s\<lparr>sv_addr := Option.bind addr inet_aton, sv_port := port, sv_nThreads := max_threads, sv_listener := (sv_listener s)\<lparr>li_running := True\<rparr>\<rparr>"

datatype socket_setup = NoSocket | Unusable nat | Listening nat

definition MainThread :: "socket_setup \<Rightarrow> accepted list \<Rightarrow> simple_server \<Rightarrow> simple_server" where
  "MainThread setup as s =
     (let s1 = s\<lparr>sv_threads := sv_nThreads s\<rparr>
      in case setup of
           NoSocket \<Rightarrow> s1\<lparr>sv_listener := (sv_listener s1)\<lparr>li_socket := None\<rparr>\<rparr>
         | Unusable fd \<Rightarrow> s1\<lparr>sv_listener := (sv_listener s1)\<lparr>li_socket := Some fd\<rparr>\<rparr>
         | Listening fd \<Rightarrow>
             s1\<lparr>sv_listener := MainThread_end ((sv_listener s1)\<lparr>li_socket := Some fd\<rparr>), sv_fds := accept_loop (sv_allowed s1) as (sv_fds s1),
                sv_stopped := True, sv_threads := 0\<rparr>)"

section \<open>Properties of the server\<close>

definition taken :: "accepted list \<Rightarrow> nat list" where
  "taken as = List.map_filter ac_fd as"

text \<open>The descriptor a connection puts into the queue, if any.\<close>

definition queued_fd :: "string set \<Rightarrow> accepted \<Rightarrow> nat option" where
  "queued_fd allowed a =
     (case (ac_fd a, ac_ip a) of
        (Some fd, Some ip) \<Rightarrow> (if ac_running a \<and> client_allowed allowed ip \<and> ac_queued a then Some fd else None)
      | _ \<Rightarrow> None)"

definition given_up :: "accepted list \<Rightarrow> nat set" where
  "given_up as = {fd. \<exists>a \<in> set as. ac_fd a = Some fd \<and> (\<not> ac_running a \<or> ac_ip a = None \<or> \<not> ac_queued a)}"

definition accounted :: "string set \<Rightarrow> accepted list \<Rightarrow> descriptors \<Rightarrow> descriptors \<Rightarrow> bool" where
  "accounted allowed as d d1 \<longleftrightarrow>
     mset (fd_queue d1) + mset (fd_closed d1) + mset (fd_lost d1) = mset (fd_queue d) + mset (fd_closed d) + mset (fd_lost d) + mset (taken as) \<and>
     fd_queue d1 = fd_queue d @ List.map_filter (queued_fd allowed) as \<and> set (fd_lost d1) \<subseteq> set (fd_lost d) \<union> given_up as"

lemma accept_one_accounted: "accept_one allowed a d = (d1, go) \<Longrightarrow> accounted allowed [a] d d1"
  by (auto simp: accounted_def accept_one_def taken_def queued_fd_def given_up_def List.map_filter_simps split: option.splits if_splits)

lemma accounted_trans: "accounted allowed as d d1 \<Longrightarrow> accounted allowed bs d1 d2 \<Longrightarrow> accounted allowed (as @ bs) d d2"
  by (auto simp: accounted_def taken_def given_up_def List.map_filter_def)

lemma accept_loop_accounted: "\<exists>k \<le> length as. accounted allowed (take k as) d (accept_loop allowed as d)"
proof (induction as arbitrary: d)
  case Nil
  show ?case by (simp add: accounted_def taken_def List.map_filter_def)
next
  case (Cons a as)
  obtain d1 go where one: "accept_one allowed a d = (d1, go)" by fastforce
  note acc = accept_one_accounted [OF one]
  show ?case
  proof (cases go)
    case True
    obtain k where "k \<le> length as" "accounted allowed (take k as) d1 (accept_loop allowed as d1)" using Cons.IH by blast
    then show ?thesis using accounted_trans [OF acc] one True by (intro exI [of _ "Suc k"]) simp
  next
    case False
    then show ?thesis using acc one by (intro exI [of _ 1]) simp
  qed
qed

text \<open>
  C28: no connection is forgotten.  In every run of the accepting loop, the descriptors that were accepted are exactly those
  that wait for a service thread (in the order of their arrival), that were closed because the client is not allowed, and that
  were given up without being closed; the last happens only when the server is being stopped, when the queue has been
  cancelled or when the client's address has no text.
\<close>
theorem accepted_accounted:
  "\<exists>k \<le> length as. let d = accept_loop allowed as \<lparr>fd_queue = [], fd_closed = [], fd_lost = []\<rparr> in
     mset (fd_queue d) + mset (fd_closed d) + mset (fd_lost d) = mset (taken (take k as)) \<and>
     fd_queue d = List.map_filter (queued_fd allowed) (take k as) \<and> set (fd_lost d) \<subseteq> given_up as"
proof -
  obtain k where k: "k \<le> length as"
      "accounted allowed (take k as) \<lparr>fd_queue = [], fd_closed = [], fd_lost = []\<rparr> (accept_loop allowed as \<lparr>fd_queue = [], fd_closed = [], fd_lost = []\<rparr>)"
    using accept_loop_accounted by blast
  have "given_up (take k as) \<subseteq> given_up as" using set_take_subset [of k as] by (auto simp: given_up_def)
  then show ?thesis using k unfolding accounted_def Let_def by (intro exI [of _ k]) auto
qed

text \<open>Switching the server off by \<open>SetRunning\<close> closes the listening socket twice, stopping it once.\<close>

lemma socket_closed_twice:
  assumes "li_socket l = Some fd" and "li_running l"
  shows "li_closes (MainThread_end (SetRunning False l)) = fd # fd # li_closes l" and "li_closes (MainThread_end (Server_Stop l)) = fd # li_closes l"
  using assms by (simp_all add: MainThread_end_def SetRunning_def Server_Stop_def close_socket_def)

text \<open>
  A server whose main thread could not listen still says that it runs; its service threads wait for a queue that nobody stops.
\<close>

lemma MainThread_early_return:
  assumes "setup = NoSocket \<or> setup = Unusable fd"
  shows "li_running (sv_listener (MainThread setup as s)) = li_running (sv_listener s)" and "sv_threads (MainThread setup as s) = sv_nThreads s"
    and "sv_stopped (MainThread setup as s) = sv_stopped s" and "li_closes (sv_listener (MainThread setup as s)) = li_closes (sv_listener s)"
  using assms by (auto simp: MainThread_def)

text \<open>Service threads only move descriptors from the queue to the closed ones.\<close>

lemma ServiceThread_accounted:
  "ServiceThread serve es d s = (d1, s1) \<Longrightarrow>
     mset (fd_queue d1) + mset (fd_closed d1) = mset (fd_queue d) + mset (fd_closed d) \<and> fd_lost d1 = fd_lost d \<and> suffix (fd_queue d1) (fd_queue d)"
proof (induction serve es d s arbitrary: d1 s1 rule: ServiceThread.induct)
  case (2 serve running cancelled es d s)
  show ?case
  proof (cases "\<not> running \<or> cancelled")
    case False
    obtain d2 s2 where one: "service_one serve d s = (d2, s2)" by fastforce
    then have "mset (fd_queue d2) + mset (fd_closed d2) = mset (fd_queue d) + mset (fd_closed d) \<and> fd_lost d2 = fd_lost d \<and> suffix (fd_queue d2) (fd_queue d)"
      by (auto simp: service_one_def suffix_Cons split: list.splits)
    moreover have "mset (fd_queue d1) + mset (fd_closed d1) = mset (fd_queue d2) + mset (fd_closed d2) \<and> fd_lost d1 = fd_lost d2 \<and> suffix (fd_queue d1) (fd_queue d2)"
      using False one 2(2) by (intro 2(1) [OF False one [symmetric]]) simp
    ultimately show ?thesis using suffix_order.trans by metis
  qed (use 2(2) in auto)
qed auto

end
