(* ===== verification/BaseServer.thy ===== *)
theory BaseServer
  imports HttpServer Objects Streams
begin

text \<open>
  The requests of the management server (\<^verbatim>\<open>src/lib/processing_engine/BaseServer.h\<close>, \<^verbatim>\<open>BaseServer.cc\<close>): reading and changing
  properties of objects, passing resources to a processing engine and returning them, checkpoints and shutdown.  The property
  functions of the objects, the operations of an engine and the streams of resources are arguments.
\<close>

section \<open>The server and what it uses\<close>

text \<open>
  An engine: whether it has an output queue, \<^verbatim>\<open>ProcessResource\<close> and \<^verbatim>\<open>GetProcessedResources\<close> without a deadline, and the
  functions for checkpoints.
\<close>

record ('d, 'e) engine_access =
  ea_output :: "'e \<Rightarrow> bool"
  ea_submit :: "'d resource \<Rightarrow> 'e \<Rightarrow> bool \<times> 'e"
  ea_fetch :: "int list \<Rightarrow> 'e \<Rightarrow> 'd resource list \<times> 'e"
  ea_save :: "string \<Rightarrow> 'e \<Rightarrow> bool \<times> 'e"
  ea_restore :: "string \<Rightarrow> 'e \<Rightarrow> bool \<times> 'e"

record ('m, 'd, 'e, 'i) server_env =
  se_get :: "string \<Rightarrow> 'm \<Rightarrow> string option"
  se_set :: "string \<Rightarrow> string \<Rightarrow> 'm \<Rightarrow> failure + bool \<times> 'm"
  se_list :: "'m \<Rightarrow> string list"
  se_engine :: "('d, 'e) engine_access"
  se_open :: "string \<Rightarrow> 'i"
  se_ins :: "'i in_ops"
  se_deser :: "'d resource \<Rightarrow> 'i \<Rightarrow> bool \<times> 'd resource \<times> 'i"
  se_load :: "string \<rightharpoonup> 'd resource_lib"
  se_outs :: out_ops
  se_ser :: "'d resource \<Rightarrow> bool \<times> string"

record ('m, 'd, 'e) base_server =
  bs_world :: "'m world"
  bs_engines :: "(string \<times> 'e) list"
  bs_name2engine :: "string \<rightharpoonup> nat"
  bs_registry :: "'d registry"
  bs_listener :: listener

definition BaseServer_new :: "'m world \<Rightarrow> (string \<times> 'e) list \<Rightarrow> 'd registry \<Rightarrow> listener \<Rightarrow> ('m, 'd, 'e) base_server" where
  "BaseServer_new w es reg l = \<lparr>bs_world = w, bs_engines = es, bs_name2engine = Map.empty, bs_registry = reg, bs_listener = l\<rparr>"

definition BaseServer_Init :: "(string \<times> string) list option \<Rightarrow> ('m, 'd, 'e) base_server \<Rightarrow> bool \<times> ('m, 'd, 'e) base_server" where
  "BaseServer_Init params s =
     (case params of
        None \<Rightarrow> (True, s)
      | Some ps \<Rightarrow>
          if length (bs_engines s) = 0 then (False, s)
          else (True, s\<lparr>bs_name2engine := fold (\<lambda>(i, n) m. m(n \<mapsto> i)) (enumerate 0 (map fst (bs_engines s))) (bs_name2engine s)\<rparr>))"

section \<open>Properties of objects\<close>

definition strip_slash :: "string \<Rightarrow> string" where
  "strip_slash args = (if take 1 args = ''/'' then drop 1 args else args)"

text \<open>Object and property, separated by the first dot.\<close>

definition split_dot :: "string \<Rightarrow> (string \<times> string) option" where
  "split_dot args =
     (if CHR ''.'' \<in> set args
      then Some (takeWhile (\<lambda>ch. ch \<noteq> CHR ''.'') args, tl (dropWhile (\<lambda>ch. ch \<noteq> CHR ''.'') args)) else None)"

definition append_lines :: "string list \<Rightarrow> http_conn \<Rightarrow> http_conn" where
  "append_lines names c = fold (\<lambda>n c. AppendResponseBody [CR, LF] (AppendResponseBody (c_str n) c)) names c"

definition handle_get :: "('m, 'd, 'e, 'i) server_env \<Rightarrow> string \<Rightarrow> http_conn \<Rightarrow> ('m, 'd, 'e) base_server \<Rightarrow> failure + http_conn" where
  "handle_get env args c s =
     (if args \<noteq> [] then
        (case split_dot args of
           Some (ob, name) \<Rightarrow>
             bind_result (GetObjectProperty (se_get env) (c_str ob) (c_str name) (bs_world s)) (\<lambda>value.
               Inr (case value of
                      Some v \<Rightarrow> AppendResponseBody v (SetResponseCode 200 ''OK'' c)
                    | None \<Rightarrow> ErrorResponse 400 ''Object/property not found'' [] c))
         | None \<Rightarrow>
             (case GetObject (c_str args) (w_registry (bs_world s)) of
                Some a \<Rightarrow> (case w_store (bs_world s) a of
                    None \<Rightarrow> Inl NullDeref
                  | Some ob \<Rightarrow> Inr (append_lines (Object_ListProperties (se_list env) ob) c))
              | None \<Rightarrow> Inr (ErrorResponse 400 ''Object not found'' [] c)))
      else Inr (append_lines (GetIds (w_registry (bs_world s))) (SetResponseCode 200 ''OK'' c)))"

text \<open>The value is the first line of the body.  Arguments without a dot are only logged.\<close>

definition first_line :: "string \<Rightarrow> string" where
  "first_line body = takeWhile (\<lambda>ch. ch \<noteq> CR \<and> ch \<noteq> LF) body"

definition handle_set ::
  "('m, 'd, 'e, 'i) server_env \<Rightarrow> string \<Rightarrow> http_conn \<Rightarrow> ('m, 'd, 'e) base_server \<Rightarrow> failure + http_conn \<times> ('m, 'd, 'e) base_server" where
  "handle_set env args c s =
     (if args \<noteq> [] then
        (case split_dot args of
           Some (ob, name) \<Rightarrow>
             bind_result (GetRequestBody c) (\<lambda>body.
             bind_result (SetObjectProperty (se_set env) (c_str ob) (c_str name) (c_str (first_line body)) (bs_world s)) (\<lambda>(ok, w).
               Inr (if ok then SetResponseCode 200 ''OK'' c else ErrorResponse 400 ''Object/property not found'' [] c, s\<lparr>bs_world := w\<rparr>)))
         | None \<Rightarrow> Inr (c, s))
      else Inr (ErrorResponse 400 ''No object.property argument given'' [] c, s))"

section \<open>Resources\<close>

text \<open>
  The loop over the resources in the body.  It ends at the end of the stream, at a resource that cannot be read, or when the
  engine does not take one.  The type is handed on as it was read, with the bit that says that the number and the status follow.
\<close>

datatype ('d, 'e, 'i) received = Unreadable int "'e" "'d registry" | Received "int list" "'e" "'d registry" 'i

partial_function (option) receive ::
  "('m, 'd, 'e, 'i) server_env \<Rightarrow> 'i \<Rightarrow> int list \<Rightarrow> 'e \<Rightarrow> 'd registry \<Rightarrow> (failure + ('d, 'e, 'i) received) option" where
  "receive env i ids e reg =
     (case in_ReadVarint32 (se_ins env) i of
        (None, i1) \<Rightarrow> Some (Inr (Received ids e reg i1))
      | (Some t, i1) \<Rightarrow>
          (case DeserializeResource (se_ins env) (se_deser env) (se_load env) (to_int32 t) False i1 reg of
             Inl f \<Rightarrow> Some (Inl f)
           | Inr (None, _, i2, reg1) \<Rightarrow> Some (Inr (Unreadable (to_int32 t) e reg1))
           | Inr (Some r, _, i2, reg1) \<Rightarrow>
               (case ea_submit (se_engine env) r e of
                  (took, e1) \<Rightarrow>
                    if \<not> took then Some (Inr (Received ids e1 reg1 i2)) else receive env i2 (ids @ [r_id r]) e1 reg1)))"

text \<open>The answer: the resources in the order in which they came; one that is missing is a null pointer.\<close>

fun reply_text ::
  "('m, 'd, 'e, 'i) server_env \<Rightarrow> (int \<rightharpoonup> 'd resource) \<Rightarrow> int list \<Rightarrow> 'd registry \<Rightarrow> failure + string \<times> 'd registry" where
  "reply_text env found [] reg = Inr ([], reg)"
| "reply_text env found (i # ids) reg =
     (case found i of
        None \<Rightarrow> Inl NullDeref
      | Some r \<Rightarrow>
          bind_result (ReleaseResource (se_load env) (Some r) reg) (\<lambda>reg1.
          bind_result (reply_text env found ids reg1) (\<lambda>(t, reg2).
            Inr (snd (SerializeResource (se_outs env) (se_ser env) True False r) @ t, reg2))))"

definition by_id :: "'d resource list \<Rightarrow> int \<rightharpoonup> 'd resource" where
  "by_id rs = map_of (rev (map (\<lambda>r. (r_id r, r)) rs))"

definition reply ::
  "('m, 'd, 'e, 'i) server_env \<Rightarrow> int list \<Rightarrow> http_conn \<Rightarrow> 'e \<Rightarrow> 'd registry \<Rightarrow> failure + http_conn \<times> 'e \<times> 'd registry" where
  "reply env ids c e reg =
     (let (rs, e1) = ea_fetch (se_engine env) (remdups ids) e
      in bind_result (reply_text env (by_id rs) ids reg) (\<lambda>(t, reg1).
           let c1 = AppendResponseBody t c
           in Inr (if length rs = length ids then SetResponseCode 200 ''OK'' c1
                   else SetResponseCode 500 ''Error getting data from ProcessingEngine'' c1, e1, reg1)))"

definition with_engine :: "nat \<Rightarrow> 'e \<Rightarrow> 'd registry \<Rightarrow> ('m, 'd, 'e) base_server \<Rightarrow> ('m, 'd, 'e) base_server" where
  "with_engine k e reg s = s\<lparr>bs_engines := (bs_engines s)[k := (fst (bs_engines s ! k), e)], bs_registry := reg\<rparr>"

definition handle_process ::
  "('m, 'd, 'e, 'i) server_env \<Rightarrow> bool \<Rightarrow> string \<Rightarrow> http_conn \<Rightarrow> ('m, 'd, 'e) base_server \<Rightarrow>
     (failure + http_conn \<times> ('m, 'd, 'e) base_server) option" where
  "handle_process env process args c s =
     (case bs_name2engine s (chomp (skipWs args)) of
        None \<Rightarrow> Some (Inr (SetResponseCode 500 ''ProcessorEngine not found'' c, s))
      | Some k \<Rightarrow>
          if process \<noteq> ea_output (se_engine env) (snd (bs_engines s ! k))
          then Some (Inr (SetResponseCode 500 ''Invalid method for ProcessorEngine'' c, s))
          else case GetRequestBody c of
                 Inl f \<Rightarrow> Some (Inl f)
               | Inr body \<Rightarrow>
                   (case receive env (se_open env body) [] (snd (bs_engines s ! k)) (bs_registry s) of
                      None \<Rightarrow> None
                    | Some (Inl f) \<Rightarrow> Some (Inl f)
                    | Some (Inr (Unreadable t e reg)) \<Rightarrow>
                        Some (Inr (SetResponseCode 500 (snprintf 1024 (''Cannot deserialize resource of type '' @ show_int t)) c, with_engine k e reg s))
                    | Some (Inr (Received ids e reg i)) \<Rightarrow>
                        if fst (in_ByteCount (se_ins env) i) < int (length body)
                        then Some (Inr (SetResponseCode 500 ''Error passing data to ProcessingEngine'' c, with_engine k e reg s))
                        else if process
                        then Some (bind_result (reply env ids c e reg) (\<lambda>(c1, e1, reg1). Inr (c1, with_engine k e1 reg1 s)))
                        else Some (Inr (SetResponseCode 200 ''OK'' c, with_engine k e reg s))))"

section \<open>Checkpoints and shutdown\<close>

text \<open>The engines up to the first one that fails.\<close>

fun checkpoint_all :: "('e \<Rightarrow> bool \<times> 'e) \<Rightarrow> (string \<times> 'e) list \<Rightarrow> bool \<times> (string \<times> 'e) list" where
  "checkpoint_all f [] = (True, [])"
| "checkpoint_all f ((n, e) # es) =
     (case f e of
        (False, e1) \<Rightarrow> (False, (n, e1) # es)
      | (True, e1) \<Rightarrow> (case checkpoint_all f es of (ok, es1) \<Rightarrow> (ok, (n, e1) # es1)))"

definition handle_checkpoint ::
  "('e \<Rightarrow> bool \<times> 'e) \<Rightarrow> string \<Rightarrow> http_conn \<Rightarrow> ('m, 'd, 'e) base_server \<Rightarrow> http_conn \<times> ('m, 'd, 'e) base_server" where
  "handle_checkpoint f message c s =
     (case checkpoint_all f (bs_engines s) of
        (ok, es) \<Rightarrow> (if ok then SetResponseCode 200 ''OK'' c else SetResponseCode 500 message c, s\<lparr>bs_engines := es\<rparr>))"

definition handle_shutdown :: "http_conn \<Rightarrow> ('m, 'd, 'e) base_server \<Rightarrow> http_conn \<times> ('m, 'd, 'e) base_server" where
  "handle_shutdown c s =
     (AppendResponseBody [CR, LF] (AppendResponseBody (c_str (GetRequestArgs c)) (AppendResponseBody (''Shutting down'' @ [CR, LF]) (SetResponseCode 200 ''OK'' c))),
      s\<lparr>bs_listener := SetRunning False (bs_listener s)\<rparr>)"

definition HandleExtension :: "http_conn \<Rightarrow> bool" where
  "HandleExtension c = False"

definition handled :: "http_conn \<times> 's \<Rightarrow> (failure + bool \<times> http_conn \<times> 's) option" where
  "handled r = Some (Inr (True, r))"

definition HandleRequest :: "('m, 'd, 'e, 'i) server_env \<Rightarrow> ('m, 'd, 'e) base_server handler" where
  "HandleRequest env c s =
     (let method = GetRequestMethod c; args = strip_slash (GetRequestArgs c)
      in if method = ''GET'' then Some (bind_result (handle_get env args c s) (\<lambda>c1. Inr (True, c1, s)))
         else if method = ''SET'' then Some (bind_result (handle_set env args c s) (\<lambda>r. Inr (True, r)))
         else if method = ''PROCESS'' \<or> method = ''PASS''
         then map_option (\<lambda>res. bind_result res (\<lambda>r. Inr (True, r))) (handle_process env (method = ''PROCESS'') args c s)
         else if method = ''SAVE_CHECKPOINT'' then handled (handle_checkpoint (ea_save (se_engine env) (c_str args)) ''Error saving checkpoint'' c s)
         else if method = ''RESTORE_CHECKPOINT'' then handled (handle_checkpoint (ea_restore (se_engine env) (c_str args)) ''Error restoring checkpoint'' c s)
         else if method = ''SHUTDOWN'' then handled (handle_shutdown c s)
         else Some (Inr (HandleExtension c, c, s)))"

section \<open>The handler keeps its contract\<close>

lemma append_lines_keeps [keeps_request]: "same_request c c' \<Longrightarrow> same_request c (append_lines names c')"
  unfolding append_lines_def by (induction names arbitrary: c') (simp_all add: same_request_ops)

lemma handle_get_keeps: "handle_get env args c s = Inr c' \<Longrightarrow> same_request c c'"
  by (auto simp: handle_get_def bind_result_Inr_iff split: if_splits option.splits intro!: keeps_request)

lemma handle_set_keeps: "handle_set env args c s = Inr (c', s') \<Longrightarrow> same_request c c'"
  by (auto simp: handle_set_def bind_result_Inr_iff split: if_splits option.splits intro!: keeps_request)

lemma reply_keeps: "reply env ids c e reg = Inr (c', r) \<Longrightarrow> same_request c c'"
  by (auto simp: reply_def bind_result_Inr_iff Let_def split: if_splits prod.splits intro!: keeps_request)

lemma handle_process_keeps: "handle_process env p args c s = Some (Inr (c', s')) \<Longrightarrow> same_request c c'"
  by (auto simp: handle_process_def bind_result_Inr_iff split: if_splits option.splits sum.splits received.splits intro!: keeps_request dest!: reply_keeps)

lemma handle_rest_keeps:
  "handle_checkpoint f msg c s = (c', s') \<Longrightarrow> same_request c c'" "handle_shutdown c s = (c', s') \<Longrightarrow> same_request c c'"
  by (auto simp: handle_checkpoint_def handle_shutdown_def split: prod.splits if_splits intro!: keeps_request)

interpretation base_server: http_handler "HandleRequest env"
proof
  fix c s ok c' s'
  assume "HandleRequest env c s = Some (Inr (ok, c', s'))"
  then show "same_request c c'"
    by (auto simp: HandleRequest_def handled_def bind_result_Inr_iff Let_def split: if_splits
        dest!: handle_get_keeps handle_set_keeps handle_process_keeps handle_rest_keeps intro: keeps_request)
qed

section \<open>Resources come back in order\<close>

lemma ReleaseResource_total: "r_type r \<noteq> 0 \<Longrightarrow> \<exists>reg'. ReleaseResource load (Some r) reg = Inr reg'"
  by (cases "LoadResourceLibrary_loop load None (r_type r) (filenames reg) reg")
    (auto simp: ReleaseResource_def GetInfo_def LoadResourceLibrary_def split: option.splits)

lemma by_id_found:
  assumes "distinct (map r_id rs)" and "r \<in> set rs"
  shows "by_id rs (r_id r) = Some r"
proof -
  have "distinct (map fst (rev (map (\<lambda>r. (r_id r, r)) rs)))" using assms(1) by (simp add: rev_map [symmetric] comp_def)
  moreover have "(r_id r, r) \<in> set (rev (map (\<lambda>r. (r_id r, r)) rs))" using assms(2) by simp
  ultimately show ?thesis unfolding by_id_def by (rule map_of_is_SomeI)
qed

lemma reply_text_order:
  assumes "\<And>i. i \<in> set ids \<Longrightarrow> \<exists>r. found i = Some r \<and> r_type r \<noteq> 0"
  shows "\<exists>reg'. reply_text env found ids reg =
    Inr (concat (map (\<lambda>i. snd (SerializeResource (se_outs env) (se_ser env) True False (the (found i)))) ids), reg')"
  using assms
proof (induction ids arbitrary: reg)
  case (Cons i ids)
  obtain r where r: "found i = Some r" "r_type r \<noteq> 0" using Cons.prems by auto
  obtain reg1 where "ReleaseResource (se_load env) (Some r) reg = Inr reg1" using ReleaseResource_total [OF r(2)] by blast
  moreover obtain reg2 where "reply_text env found ids reg1 =
      Inr (concat (map (\<lambda>i. snd (SerializeResource (se_outs env) (se_ser env) True False (the (found i)))) ids), reg2)"
    using Cons.IH [of reg1] Cons.prems by auto
  ultimately show ?case using r(1) by simp
qed simp


text \<open>A result the engine does not return is a crash, before the code for that case is set.\<close>

lemma missing_result_crashes:
  assumes "i \<in> set ids" and "ea_fetch (se_engine env) (remdups ids) e = (rs, e1)" and "i \<notin> r_id ` set rs"
    and "\<And>r. r \<in> set rs \<Longrightarrow> r_type r \<noteq> 0"
  shows "reply env ids c e reg = Inl NullDeref"
proof -
  have none: "by_id rs i = None" using assms(3) by (force simp: by_id_def map_of_eq_None_iff)
  have typed: "r_type r \<noteq> 0" if "by_id rs j = Some r" for j r using that assms(4) by (auto simp: by_id_def dest!: map_of_SomeD)
  have "reply_text env (by_id rs) js reg0 = Inl NullDeref" if "i \<in> set js" for js reg0
    using that
  proof (induction js arbitrary: reg0)
    case (Cons j js)
    show ?case
    proof (cases "by_id rs j")
      case (Some r)
      then obtain reg1 where "ReleaseResource (se_load env) (Some r) reg0 = Inr reg1" using ReleaseResource_total typed by blast
      then show ?thesis using Cons Some none by auto
    qed simp
  qed simp
  then show ?thesis using assms(1,2) by (simp add: reply_def)
qed

text \<open>A type with the bit for number and status is taken for another type, and the number and the status for the body.\<close>

lemma flagged_type_misread: "t \<noteq> 0 \<Longrightarrow> Deserialize_type ins t i = (Some (t, False), i)"
  by (simp add: Deserialize_type_def)


text \<open>Concrete arguments: one engine that gives back what it got in the opposite order, and streams of one letter.\<close>

definition demo_engine :: "(unit, unit resource list) engine_access" where
  "demo_engine = \<lparr>ea_output = (\<lambda>e. True), ea_submit = (\<lambda>r e. (True, r # e)), ea_fetch = (\<lambda>ids e. (e, [])),
     ea_save = (\<lambda>path e. (True, e)), ea_restore = (\<lambda>path e. (True, e))\<rparr>"

definition demo_server_env :: "(unit, unit, unit resource list, string) server_env" where
  "demo_server_env = \<lparr>se_get = (\<lambda>n m. None), se_set = (\<lambda>n v m. Inr (False, m)), se_list = (\<lambda>m. []), se_engine = demo_engine, se_open = id,
     se_ins = \<lparr>in_ReadString = (\<lambda>i. (None, i)), in_ReadVarint32 = (\<lambda>i. (None, i)), in_ByteCount = (\<lambda>i. (0, i)), in_Refresh = id\<rparr>,
     se_deser = (\<lambda>r i. (True, r, i)), se_load = Map.empty,
     se_outs = \<lparr>out_WriteString = id, out_WriteVarint32 = show_int\<rparr>, se_ser = (\<lambda>r. (True, show_int (r_id r)))\<rparr>"


text \<open>A request that arrives at once, and two requests of which the second ends the connection and the server.\<close>

lemma arrives_whole: "sized q \<Longrightarrow> arrives q [request_text q]"
  using request_text_length [of q] by (auto simp: arrives_def request_total_def body_start_def)

definition demo_requests :: "http_request list" where
  "demo_requests = [make_request ''GET'' ''/'' [(''Connection'', ''Keep-Alive'')] [], make_request ''SHUTDOWN'' ''/'' [] []]"

definition demo_server :: "(unit, unit, unit resource list) base_server" where
  "demo_server = BaseServer_new \<lparr>w_store = Map.empty, w_registry = []\<rparr> [] (ResourceRegistry_new []) \<lparr>li_running = True, li_socket = Some 3, li_closes = []\<rparr>"

lemma keep_alive_word: "\<not> strcasecmp ''Keep-Alive'' ''keep-alive''"
  by code_simp

lemma demo_requests_ok:
  "sized (make_request ''GET'' ''/'' [(''Connection'', ''Keep-Alive'')] [])" "keeps_alive (make_request ''GET'' ''/'' [(''Connection'', ''Keep-Alive'')] [])"
  "sized (make_request ''SHUTDOWN'' ''/'' [] [])" "\<not> keeps_alive (make_request ''SHUTDOWN'' ''/'' [] [])"
  using make_request_sized [of "''GET''" "''/''" "[(''Connection'', ''Keep-Alive'')]" "[]"] make_request_sized [of "''SHUTDOWN''" "''/''" "[]" "[]"] keep_alive_word
  by (simp_all add: plain_def field_ok_def is_blank_def CR_def LF_def)

lemma demo_answers:
  "\<exists>ts s'. answers (HandleRequest demo_server_env) demo_requests demo_server = Some (ts, s') \<and> \<not> GetRunning (bs_listener s')"
  by (simp add: demo_requests_def HandleRequest_def conn_at_parts [OF demo_requests_ok(1)] conn_at_parts [OF demo_requests_ok(3)] Let_def
      strip_slash_def handle_get_def handled_def handle_shutdown_def SetRunning_def GetRunning_def close_socket_def demo_server_def BaseServer_new_def)


end
