(* ===== verification/Management.thy ===== *)
theory Management
  imports BaseServer Modules
begin

text \<open>
  The management protocol from the client's side: requests that set and read a property of an object, the answers, and what the
  property functions of an object (\<^verbatim>\<open>Object.h\<close>), the requests (\<^verbatim>\<open>BaseServer.cc\<close>) and the connection (\<^verbatim>\<open>SimpleHTTPConn.cc\<close>)
  give together.  Every property that keeps the contract of a settable property can be changed and read back over one connection.
\<close>

definition ok_response :: "bool \<Rightarrow> string \<Rightarrow> string" where
  "ok_response keep body = ''HTTP/1.0 200 OK'' @ crlf @ (if keep then ''Connection: keep-alive'' @ crlf else []) @
     ''Content-Length: '' @ show_int (int (length body)) @ crlf @ crlf @ body"

definition member_path :: "string \<Rightarrow> string \<Rightarrow> string" where
  "member_path i name = ''/'' @ i @ ''.'' @ name"

definition set_request :: "string \<Rightarrow> string \<Rightarrow> string \<Rightarrow> http_request" where
  "set_request i name v = make_request ''SET'' (member_path i name) [(''Connection'', ''keep-alive'')] v"

definition get_request :: "string \<Rightarrow> string \<Rightarrow> http_request" where
  "get_request i name = make_request ''GET'' (member_path i name) [] []"

text \<open>A word that can be the name of an object or of a property in a request.\<close>

definition path_word :: "string \<Rightarrow> bool" where
  "path_word i \<longleftrightarrow> plain i \<and> CHR 0x20 \<notin> set i \<and> CHR ''.'' \<notin> set i \<and> CHR 0x00 \<notin> set i"

lemma c_str_plain: "CHR 0x00 \<notin> set s \<Longrightarrow> c_str s = s"
  unfolding c_str_def by (simp add: takeWhile_eq_all_conv) metis

lemma response_text_ok:
  assumes "hc_code c = 200" "hc_str c = ''OK''" "hc_header c = []" "int (length (hc_body c)) < 2 ^ 31"
  shows "response_text c = ok_response (hc_keep_alive c) (hc_body c)"
proof -
  have n: "length (show_int (int (length (hc_body c)))) \<le> 10" using assms(4) by (intro show_id) simp_all
  have w: "wrap_signed 32 (int (length (hc_body c))) = int (length (hc_body c))" using assms(4) by (simp add: wrap_signed_def)
  have "show_int 200 = ''200''" by code_simp
  moreover have "c_str ''OK'' = ''OK''" by code_simp
  ultimately show ?thesis using n assms(1-3) w by (simp add: response_text_def ok_response_def snprintf_def crlf_def)
qed

lemma split_dot_path:
  assumes "path_word i"
  shows "split_dot (i @ CHR ''.'' # name) = Some (i, name)"
  using assms by (simp add: split_dot_def path_word_def takeWhile_append dropWhile_append)

lemma strip_path: "strip_slash (member_path i name) = i @ CHR ''.'' # name"
  by (simp add: strip_slash_def member_path_def)

lemma requests_sized:
  assumes "path_word i" "path_word name"
  shows "length v < 2 ^ 31 \<Longrightarrow> sized (set_request i name v)" "length v < 2 ^ 31 \<Longrightarrow> keeps_alive (set_request i name v)"
    "sized (get_request i name)" "\<not> keeps_alive (get_request i name)"
proof -
  have "plain (member_path i name)" "CHR 0x20 \<notin> set (member_path i name)" using assms by (auto simp: path_word_def member_path_def plain_def CR_def LF_def)
  moreover have "\<not> strcasecmp ''keep-alive'' ''keep-alive''" by code_simp
  ultimately show "length v < 2 ^ 31 \<Longrightarrow> sized (set_request i name v)" "length v < 2 ^ 31 \<Longrightarrow> keeps_alive (set_request i name v)"
    "sized (get_request i name)" "\<not> keeps_alive (get_request i name)"
    using make_request_sized [of "''SET''" "member_path i name" "[(''Connection'', ''keep-alive'')]" v]
      make_request_sized [of "''GET''" "member_path i name" "[]" "[]"]
    by (simp_all add: set_request_def get_request_def plain_def field_ok_def is_blank_def CR_def LF_def)
qed

lemma conn_keep_alive: "hc_keep_alive (conn_at q (request_total q)) = keeps_alive q"
  by (simp add: keeps_alive_def)

lemma HandleRequest_set:
  assumes "path_word i" "path_word name" "plain v" "CHR 0x00 \<notin> set v" "length v < 2 ^ 31"
    and "SetObjectProperty (se_set env) i name v (bs_world s) = Inr (True, w)"
  defines "c \<equiv> conn_at (set_request i name v) (request_total (set_request i name v))"
  shows "HandleRequest env c s = Some (Inr (True, SetResponseCode 200 ''OK'' c, s\<lparr>bs_world := w\<rparr>))"
proof -
  note parts = conn_at_parts [OF requests_sized(1) [OF assms(1,2,5)], folded c_def]
  have "first_line v = v" using assms(3) by (auto simp: first_line_def plain_def takeWhile_eq_all_conv)
  then show ?thesis using assms(1,2,4,6) split_dot_path [OF assms(1)]
    by (simp add: HandleRequest_def parts strip_path handle_set_def set_request_def c_str_plain path_word_def)
qed

lemma HandleRequest_get:
  assumes "path_word i" "path_word name"
    and "GetObjectProperty (se_get env) i name (bs_world s) = Inr (Some v)"
  defines "c \<equiv> conn_at (get_request i name) (request_total (get_request i name))"
  shows "HandleRequest env c s = Some (Inr (True, AppendResponseBody v (SetResponseCode 200 ''OK'' c), s))"
proof -
  note parts = conn_at_parts [OF requests_sized(3) [OF assms(1,2)], folded c_def]
  show ?thesis using assms(1,2,3) split_dot_path [OF assms(1)]
    by (simp add: HandleRequest_def parts strip_path handle_get_def get_request_def c_str_plain path_word_def)
qed

context settable_property
begin

lemma set_then_get_http:
  assumes "path_word i" "path_word name" "plain v" "CHR 0x00 \<notin> set v" "length v < 2 ^ 31" "legal v" "length (shown v) < 2 ^ 31"
    and "GetObject i (w_registry (bs_world s)) = Some a" and "w_store (bs_world s) a = Some ob"
    and "se_set env = Properties_SetProperty p" and "se_get env = Properties_GetProperty p"
    and "arrives (set_request i name v) ds" and "arrives (get_request i name) ds'"
  shows "\<exists>s'. Request (HandleRequest env) (map Data ds @ map Data ds' @ as)
      (map (Written \<circ> length) [ok_response True [], ok_response False (shown v)] @ ws) SimpleHTTPConn_new [] s =
    Some (Inr ([ok_response True [], ok_response False (shown v)], s'))"
proof -
  obtain ob' where ob': "Object_SetProperty (Properties_SetProperty p) name v ob = Inr (True, ob')"
      "Object_GetProperty (Properties_GetProperty p) name ob' = Some (shown v)" using set_then_get [OF assms(6)] by blast
  define s1 where "s1 = s\<lparr>bs_world := (bs_world s)\<lparr>w_store := (w_store (bs_world s))(a \<mapsto> ob')\<rparr>\<rparr>"
  have set: "SetObjectProperty (se_set env) i name v (bs_world s) = Inr (True, bs_world s1)"
    using assms(8-10) ob'(1) by (simp add: SetObjectProperty_def GetObject_def s1_def)
  have get: "GetObjectProperty (se_get env) i name (bs_world s1) = Inr (Some (shown v))"
    using assms(8,11) ob'(2) by (simp add: GetObjectProperty_def GetObject_def s1_def)
  let ?c1 = "conn_at (set_request i name v) (request_total (set_request i name v))"
    and ?c2 = "conn_at (get_request i name) (request_total (get_request i name))"
  have h1: "HandleRequest env ?c1 s = Some (Inr (True, SetResponseCode 200 ''OK'' ?c1, s1))"
    using HandleRequest_set [OF assms(1-5) set] by (simp add: s1_def)
  note h2 = HandleRequest_get [OF assms(1,2) get]
  note sized = requests_sized(1,2) [OF assms(1,2,5)] requests_sized(3,4) [OF assms(1,2)]
  have "response_text (SetResponseCode 200 ''OK'' ?c1) = ok_response True []"
    using conn_at_parts [OF sized(1)] sized(2) by (subst response_text_ok) (simp_all add: SetResponseCode_def conn_keep_alive)
  moreover have "response_text (AppendResponseBody (shown v) (SetResponseCode 200 ''OK'' ?c2)) = ok_response False (shown v)"
    using conn_at_parts [OF sized(3)] sized(4) assms(7) by (subst response_text_ok) (simp_all add: SetResponseCode_def AppendResponseBody_def conn_keep_alive)
  ultimately have "answers (HandleRequest env) [set_request i name v, get_request i name] s = Some ([ok_response True [], ok_response False (shown v)], s1)"
    by (simp add: h1 h2 not_implemented_def)
  then show ?thesis
    using base_server.serves_in_order [of "[set_request i name v, get_request i name]" "[ds, ds']" env s _ s1 as ws "[]"] assms(12,13) sized by auto
qed

end


text \<open>A server with one module, and a client that sends each request at once.\<close>

definition simple_world :: "test_simple world" where
  "simple_world = Object_new 0 ''m1'' \<lparr>own_level = None, ancestor_levels = []\<rparr> TestSimple_new \<lparr>w_store = Map.empty, w_registry = []\<rparr>"

definition simple_env :: "(test_simple, unit, unit resource list, string) server_env" where
  "simple_env = \<lparr>se_get = Properties_GetProperty TestSimple_props, se_set = Properties_SetProperty TestSimple_props,
     se_list = (\<lambda>m. Properties_ListProperties TestSimple_props), se_engine = demo_engine, se_open = id, se_ins = se_ins demo_server_env,
     se_deser = (\<lambda>r i. (True, r, i)), se_load = Map.empty, se_outs = se_outs demo_server_env, se_ser = se_ser demo_server_env\<rparr>"

definition simple_server_state :: "(test_simple, unit, unit resource list) base_server" where
  "simple_server_state = BaseServer_new simple_world [] (ResourceRegistry_new []) \<lparr>li_running = True, li_socket = Some 3, li_closes = []\<rparr>"


end
