(* ===== verification/Startup.thy ===== *)
theory Startup
  imports Config Processor
begin

text \<open>
  The start of the program: how processors are built from the configuration (\<^verbatim>\<open>Processor::Init\<close> in
  \<^verbatim>\<open>src/lib/processing_engine/Processor.cc\<close>).  The configuration is the arguments of the command line and the nodes every XPath expression
  selects.  What a library provides (the classes of modules) is an argument.  A step that returns false ends the initialisation; the
  state it leaves is dropped by the callers.
\<close>

section \<open>Reading values\<close>

record config =
  cf_args :: "string list"
  cf_nodes :: "string \<Rightarrow> xml_node list option"

definition first_value :: "config \<Rightarrow> string \<Rightarrow> failure + string option" where
  "first_value cfg xpath = GetFirstValue (cf_args cfg) (cf_nodes cfg xpath)"

definition all_values :: "config \<Rightarrow> string \<Rightarrow> failure + string list option" where
  "all_values cfg xpath = Config_GetValues (cf_args cfg) (cf_nodes cfg xpath)"

text \<open>\<^verbatim>\<open>sscanf(s, "%d", ...)\<close>; \<open>None\<close> when there is no number.\<close>

definition scan_int :: "string \<Rightarrow> failure + int option" where
  "scan_int s =
     (let t = dropWhile isspace s;
          u = (if t \<noteq> [] \<and> (hd t = CHR ''-'' \<or> hd t = CHR ''+'') then tl t else t)
      in if takeWhile is_digit u = [] then Inr None
         else if fits 32 (read_int s) then Inr (Some (read_int s)) else Inl Overflow)"

text \<open>Sequencing with an early return of false.\<close>

fun bind_ok :: "failure + 'a option \<Rightarrow> ('a \<Rightarrow> failure + 'b option) \<Rightarrow> failure + 'b option" where
  "bind_ok (Inl e) f = Inl e"
| "bind_ok (Inr None) f = Inr None"
| "bind_ok (Inr (Some x)) f = f x"

lemma bind_ok_Some_iff: "bind_ok m f = Inr (Some y) \<longleftrightarrow> (\<exists>x. m = Inr (Some x) \<and> f x = Inr (Some y))"
  by (cases "(m, f)" rule: bind_ok.cases) auto

text \<open>A step for every element; the results in order.\<close>

fun all_ok :: "('a \<Rightarrow> failure + 'b option) \<Rightarrow> 'a list \<Rightarrow> failure + 'b list option" where
  "all_ok f [] = Inr (Some [])"
| "all_ok f (x # xs) = bind_ok (f x) (\<lambda>y. bind_ok (all_ok f xs) (\<lambda>ys. Inr (Some (y # ys))))"

lemma all_ok_Some_iff: "all_ok f xs = Inr (Some ys) \<longleftrightarrow> list_all2 (\<lambda>x y. f x = Inr (Some y)) xs ys"
  by (induction xs arbitrary: ys) (auto simp: bind_ok_Some_iff list_all2_Cons1)

lemma all_ok_map: "(\<And>x. x \<in> set xs \<Longrightarrow> f x = Inr (Some (g x))) \<Longrightarrow> all_ok f xs = Inr (Some (map g xs))"
  by (simp add: all_ok_Some_iff list_all2_conv_all_nth)

text \<open>A number that is optional but must be one when it is given.\<close>

definition optional_int :: "config \<Rightarrow> string \<Rightarrow> int \<Rightarrow> failure + int option" where
  "optional_int cfg xpath dflt =
     bind_result (first_value cfg xpath) (\<lambda>v. case v of None \<Rightarrow> Inr (Some dflt) | Some s \<Rightarrow> scan_int s)"

section \<open>The paths\<close>

definition quoted :: "string \<Rightarrow> string" where
  "quoted s = CHR 0x27 # s @ [CHR 0x27]"

record place =
  pl_server :: string
  pl_engine :: string
  pl_processor :: string

text \<open>The expressions are written to a buffer of 1024 characters.\<close>

definition processor_path :: "place \<Rightarrow> string \<Rightarrow> string" where
  "processor_path pl rest =
     snprintf 1024 (''//Server[@id='' @ quoted (pl_server pl) @ '']/ProcessingEngine[@id='' @ quoted (pl_engine pl) @ '']/Processor[@id='' @
       quoted (pl_processor pl) @ '']/'' @ rest)"

definition module_path :: "place \<Rightarrow> string \<Rightarrow> string \<Rightarrow> string" where
  "module_path pl mid rest = processor_path pl (''modules/Module[@id='' @ quoted mid @ '']/'' @ rest)"

definition indexed :: "string \<Rightarrow> nat \<Rightarrow> string \<Rightarrow> string" where
  "indexed elem i rest = elem @ ''['' @ show_int (int i + 1) @ '']/'' @ rest"

section \<open>Modules\<close>

text \<open>
  A class of modules: its virtual functions, the constructor (for an id and the index of a thread) and the functions of an object
  that the initialisation and the checkpoints call.
\<close>

record ('d, 'm) module_class =
  mc_ops :: "('d, 'm) module_ops"
  mc_new :: "string \<Rightarrow> nat \<Rightarrow> 'm"
  mc_Init :: "(string \<times> string) list option \<Rightarrow> 'm \<Rightarrow> failure + bool \<times> 'm"
  mc_type :: "'m \<Rightarrow> module_type"
  mc_SetLogLevel :: "string \<Rightarrow> 'm \<Rightarrow> 'm"
  mc_Save :: "string \<Rightarrow> 'm \<Rightarrow> bool \<times> 'm"
  mc_Restore :: "string \<Rightarrow> 'm \<Rightarrow> bool \<times> 'm"

text \<open>What \<^verbatim>\<open>LibraryLoader::LoadLibrary\<close> finds, and the classes for modules in Perl and Python.\<close>

record ('d, 'm) module_lib =
  ml_native :: "string \<Rightarrow> ('d, 'm) module_class option"
  ml_perl :: "string \<Rightarrow> ('d, 'm) module_class"
  ml_python :: "string \<Rightarrow> ('d, 'm) module_class"

text \<open>All three use the name as a string, so a missing one is a null pointer.\<close>

definition module_class_of :: "('d, 'm) module_lib \<Rightarrow> string option \<Rightarrow> string option \<Rightarrow> failure + ('d, 'm) module_class option" where
  "module_class_of lib ty name =
     (if ty = None \<or> ty = Some ''native'' then (case name of None \<Rightarrow> Inl NullDeref | Some n \<Rightarrow> Inr (ml_native lib n))
      else if ty = Some ''perl'' then (case name of None \<Rightarrow> Inl NullDeref | Some n \<Rightarrow> Inr (Some (ml_perl lib n)))
      else if ty = Some ''python'' then (case name of None \<Rightarrow> Inl NullDeref | Some n \<Rightarrow> Inr (Some (ml_python lib n)))
      else Inr None)"

text \<open>
  The parameters: the names that are given, and for the \<open>i\<close>-th name the value of the \<open>i\<close>-th parameter, an attribute or a text.
\<close>

definition module_param :: "config \<Rightarrow> place \<Rightarrow> string \<Rightarrow> nat \<times> string \<Rightarrow> failure + (string \<times> string) option" where
  "module_param cfg pl mid p =
     (case p of (i, name) \<Rightarrow>
        bind_result (first_value cfg (module_path pl mid (indexed ''param'' i ''@value''))) (\<lambda>v.
          case v of
            Some val \<Rightarrow> Inr (Some (name, val))
          | None \<Rightarrow>
              bind_result (first_value cfg (module_path pl mid (indexed ''param'' i ''text()''))) (\<lambda>v.
                Inr (map_option (Pair name) v))))"

definition module_params :: "config \<Rightarrow> place \<Rightarrow> string \<Rightarrow> failure + (string \<times> string) list option" where
  "module_params cfg pl mid =
     bind_result (all_values cfg (module_path pl mid ''param/@name'')) (\<lambda>names.
       all_ok (module_param cfg pl mid) (enumerate 0 (case names of None \<Rightarrow> [] | Some ns \<Rightarrow> ns)))"

text \<open>The log level is no parameter of the module; the last one counts.\<close>

definition log_level_of :: "(string \<times> string) list \<Rightarrow> string" where
  "log_level_of ps = fold (\<lambda>(n, v) l. if n = ''logLevel'' then v else l) ps []"

definition init_params :: "(string \<times> string) list \<Rightarrow> (string \<times> string) list" where
  "init_params ps = filter (\<lambda>(n, v). n \<noteq> ''logLevel'') ps"

text \<open>
  One module of one thread.  The queues of a module that is not a \<open>MULTI\<close> module are null pointers and its number of resources is not set;
  the thread function does not use them.
\<close>

record ('d, 'm) loaded =
  lm_class :: "('d, 'm) module_class"
  lm_info :: "('d, 'm) module_info"

definition init_module :: "('d, 'm) module_class \<Rightarrow> (string \<times> string) list \<Rightarrow> string \<Rightarrow> nat \<Rightarrow> failure + ('d, 'm) loaded option" where
  "init_module cls ps mid i =
     bind_result (mc_Init cls (Some (init_params ps)) (mc_new cls mid i)) (\<lambda>(ok, m).
       if \<not> ok then Inr None
       else let m1 = (if log_level_of ps \<noteq> [] then mc_SetLogLevel cls (log_level_of ps) m else m)
            in Inr (Some \<lparr>lm_class = cls, lm_info = \<lparr>mi_ops = mc_ops cls, mi_state = m1, mi_type = mc_type cls m1, mi_processing = 0, mi_input = [], mi_output = []\<rparr>\<rparr>))"

text \<open>A module for all threads.\<close>

definition configure_module :: "config \<Rightarrow> ('d, 'm) module_lib \<Rightarrow> place \<Rightarrow> nat \<Rightarrow> string \<Rightarrow> failure + ('d, 'm) loaded list option" where
  "configure_module cfg lib pl n mid =
     bind_result (first_value cfg (module_path pl mid ''@lib'')) (\<lambda>name.
     bind_result (first_value cfg (module_path pl mid ''@type'')) (\<lambda>ty.
     bind_ok (module_class_of lib ty name) (\<lambda>cls.
     bind_ok (module_params cfg pl mid) (\<lambda>ps.
       all_ok (init_module cls ps mid) [0..<n]))))"

section \<open>Queues and filters\<close>

record queue_desc =
  qd_priority :: int
  qd_maxItems :: int
  qd_maxSize :: int

definition input_queue_desc :: "config \<Rightarrow> place \<Rightarrow> nat \<Rightarrow> failure + queue_desc option" where
  "input_queue_desc cfg pl i =
     bind_ok (optional_int cfg (processor_path pl (indexed ''input/queue'' i ''@priority'')) 0) (\<lambda>priority.
     bind_ok (optional_int cfg (processor_path pl (indexed ''input/queue'' i ''@maxItems'')) 0) (\<lambda>maxItems.
     bind_ok (optional_int cfg (processor_path pl (indexed ''input/queue'' i ''@maxSize'')) 0) (\<lambda>maxSize.
       Inr (Some \<lparr>qd_priority = priority, qd_maxItems = maxItems, qd_maxSize = maxSize\<rparr>))))"

text \<open>Every queue is added at once, and a property for its size.\<close>

definition queue_property :: "int \<Rightarrow> string" where
  "queue_property priority = snprintf 1024 (''queue_size.'' @ show_int priority)"

fun input_queues :: "config \<Rightarrow> place \<Rightarrow> nat list \<Rightarrow> 'd rqueue \<Rightarrow> string list \<Rightarrow> failure + ('d rqueue \<times> string list) option" where
  "input_queues cfg pl [] q props = Inr (Some (q, props))"
| "input_queues cfg pl (i # is) q props =
     bind_ok (input_queue_desc cfg pl i) (\<lambda>d.
     bind_result (SyncQueue_addQueue (qd_priority d) (qd_maxItems d) (qd_maxSize d) q) (\<lambda>q1.
       input_queues cfg pl is q1 (props @ [queue_property (qd_priority d)])))"

definition copy_value :: "string \<Rightarrow> bool" where
  "copy_value s \<longleftrightarrow> c_str s = ''1'' \<or> \<not> strcasecmp s ''true''"

definition output_filter_of :: "config \<Rightarrow> place \<Rightarrow> nat \<Rightarrow> failure + output_filter option" where
  "output_filter_of cfg pl i =
     bind_ok (first_value cfg (processor_path pl (indexed ''output/nextProcessor'' i ''@ref''))) (\<lambda>ref.
     bind_ok (optional_int cfg (processor_path pl (indexed ''output/nextProcessor'' i ''@priority'')) 0) (\<lambda>priority.
     bind_result (first_value cfg (processor_path pl (indexed ''output/nextProcessor'' i ''@copy''))) (\<lambda>copy.
     bind_result (first_value cfg (processor_path pl (indexed ''output/nextProcessor'' i ''@filter''))) (\<lambda>filter.
       let f = OutputFilter_new\<lparr>of_processor := Some ref, of_priority := priority, of_copy := (case copy of None \<Rightarrow> False | Some s \<Rightarrow> copy_value s)\<rparr>
       in case filter of
            None \<Rightarrow> Inr (Some f)
          | Some s \<Rightarrow> bind_ok (scan_int s) (\<lambda>v. Inr (Some (OutputFilter_SetFilter v f)))))))"

section \<open>A processor\<close>

record ('d, 'm) processor =
  pr_nThreads :: nat
  pr_modules :: "('d, 'm) loaded list list"
  pr_queue :: "'d rqueue"
  pr_props :: "string list"
  pr_filters :: "output_filter list"

definition count_of :: "'a list option \<Rightarrow> nat" where
  "count_of v = (case v of None \<Rightarrow> 0 | Some xs \<Rightarrow> length xs)"

definition read_threads :: "config \<Rightarrow> place \<Rightarrow> failure + nat option" where
  "read_threads cfg pl =
     bind_ok (first_value cfg (processor_path pl ''threads'')) (\<lambda>s.
     bind_ok (scan_int s) (\<lambda>n. if n \<le> 0 \<or> n > 100 then Inr None else Inr (Some (nat n))))"

text \<open>The modules of thread \<open>i\<close> are the \<open>i\<close>-th copies of all modules.\<close>

definition of_threads :: "nat \<Rightarrow> 'x list list \<Rightarrow> 'x list list" where
  "of_threads n mods = map (\<lambda>i. map (\<lambda>ms. ms ! i) mods) [0..<n]"

definition Processor_Init :: "config \<Rightarrow> ('d, 'm) module_lib \<Rightarrow> place \<Rightarrow> failure + ('d, 'm) processor option" where
  "Processor_Init cfg lib pl =
     bind_ok (read_threads cfg pl) (\<lambda>n.
     bind_result (all_values cfg (processor_path pl ''modules/Module/@id'')) (\<lambda>mids.
     bind_ok (all_ok (configure_module cfg lib pl n) (case mids of None \<Rightarrow> [] | Some ids \<Rightarrow> ids)) (\<lambda>mods.
     bind_result (all_values cfg (processor_path pl ''input/queue'')) (\<lambda>qs.
     bind_ok (input_queues cfg pl [0..<count_of qs] SyncQueue_new []) (\<lambda>(q, props).
     bind_result (all_values cfg (processor_path pl ''output/nextProcessor'')) (\<lambda>nexts.
     bind_ok (all_ok (output_filter_of cfg pl) [0..<count_of nexts]) (\<lambda>filters.
       let ms = of_threads n mods
       in if check_modules (length (queues q)) (length filters) (map (mi_type \<circ> lm_info) (ms ! 0)) \<noteq> None then Inr None
          else Inr (Some \<lparr>pr_nThreads = n, pr_modules = ms, pr_queue = q, pr_props = props, pr_filters = filters\<rparr>))))))))"

text \<open>The second stage: all modules once more, without parameters, then the connection of the filters.\<close>

definition init_again :: "('d, 'm) loaded \<Rightarrow> failure + ('d, 'm) loaded option" where
  "init_again l =
     bind_result (mc_Init (lm_class l) None (mi_state (lm_info l))) (\<lambda>(ok, m).
       if ok then Inr (Some (l\<lparr>lm_info := (lm_info l)\<lparr>mi_state := m\<rparr>\<rparr>)) else Inr None)"

definition Processor_Init_second ::
  "(string \<Rightarrow> endpoint) \<Rightarrow> (nat \<Rightarrow> int \<Rightarrow> bool) \<Rightarrow> ('d, 'm) processor \<Rightarrow> failure + ('d, 'm) processor option" where
  "Processor_Init_second obj has p =
     bind_ok (all_ok (all_ok init_again) (pr_modules p)) (\<lambda>ms.
     bind_ok (Connect obj has (pr_filters p)) (\<lambda>fs. Inr (Some (p\<lparr>pr_modules := ms, pr_filters := fs\<rparr>))))"

section \<open>Checkpoints and the size of a queue\<close>

text \<open>The modules of all threads up to the first one that fails.\<close>

fun checkpoint_modules :: "(('d, 'm) loaded \<Rightarrow> bool \<times> 'm) \<Rightarrow> ('d, 'm) loaded list \<Rightarrow> bool \<times> ('d, 'm) loaded list" where
  "checkpoint_modules f [] = (True, [])"
| "checkpoint_modules f (l # ls) =
     (case f l of (ok, m) \<Rightarrow>
        let l1 = l\<lparr>lm_info := (lm_info l)\<lparr>mi_state := m\<rparr>\<rparr>
        in if \<not> ok then (False, l1 # ls) else case checkpoint_modules f ls of (ok1, ls1) \<Rightarrow> (ok1, l1 # ls1))"

fun checkpoint_threads :: "(('d, 'm) loaded \<Rightarrow> bool \<times> 'm) \<Rightarrow> ('d, 'm) loaded list list \<Rightarrow> bool \<times> ('d, 'm) loaded list list" where
  "checkpoint_threads f [] = (True, [])"
| "checkpoint_threads f (ms # mss) =
     (case checkpoint_modules f ms of (ok, ms1) \<Rightarrow>
        if \<not> ok then (False, ms1 # mss) else case checkpoint_threads f mss of (ok1, mss1) \<Rightarrow> (ok1, ms1 # mss1))"

definition Processor_SaveCheckpointSync :: "string \<Rightarrow> ('d, 'm) processor \<Rightarrow> bool \<times> ('d, 'm) processor" where
  "Processor_SaveCheckpointSync path p =
     (case checkpoint_threads (\<lambda>l. mc_Save (lm_class l) path (mi_state (lm_info l))) (pr_modules p) of (ok, ms) \<Rightarrow> (ok, p\<lparr>pr_modules := ms\<rparr>))"

definition Processor_RestoreCheckpointSync :: "string \<Rightarrow> ('d, 'm) processor \<Rightarrow> bool \<times> ('d, 'm) processor" where
  "Processor_RestoreCheckpointSync path p =
     (case checkpoint_threads (\<lambda>l. mc_Restore (lm_class l) path (mi_state (lm_info l))) (pr_modules p) of (ok, ms) \<Rightarrow> (ok, p\<lparr>pr_modules := ms\<rparr>))"

text \<open>The property that shows how many resources wait with a priority, which is what follows the last dot of the name.\<close>

definition after_last_dot :: "string \<Rightarrow> string option" where
  "after_last_dot name = (if CHR ''.'' \<in> set name then Some (rev (takeWhile (\<lambda>c. c \<noteq> CHR ''.'') (rev name))) else None)"

definition GetInputQueueItems :: "'d rqueue \<Rightarrow> string \<Rightarrow> failure + string option" where
  "GetInputQueueItems q name =
     (case after_last_dot name of
        None \<Rightarrow> Inr None
      | Some s \<Rightarrow>
          bind_ok (scan_int s) (\<lambda>priority.
          bind_result (SyncQueue_queueItems priority q) (\<lambda>items. Inr (Some (snprintf 1024 (show_int items))))))"

section \<open>What a configuration describes\<close>

text \<open>A processor as somebody who writes a configuration thinks of it.\<close>

record module_desc =
  md_id :: string
  md_type :: "string option"
  md_lib :: string
  md_params :: "(string \<times> string) list"

record filter_desc =
  fl_ref :: string
  fl_priority :: int
  fl_copy :: "string option"
  fl_filter :: "int option"

record processor_desc =
  pd_threads :: nat
  pd_modules :: "module_desc list"
  pd_queues :: "queue_desc list"
  pd_filters :: "filter_desc list"

text \<open>A list of values, which is missing when it is empty, and a number, which may be missing when it is the default.\<close>

definition gives_list :: "config \<Rightarrow> string \<Rightarrow> string list \<Rightarrow> bool" where
  "gives_list cfg xpath vs \<longleftrightarrow> all_values cfg xpath = Inr (if vs = [] then None else Some vs)"

definition gives_number :: "config \<Rightarrow> string \<Rightarrow> int \<Rightarrow> int \<Rightarrow> bool" where
  "gives_number cfg xpath dflt v \<longleftrightarrow>
     fits 32 v \<and> (first_value cfg xpath = Inr (Some (show_int v)) \<or> first_value cfg xpath = Inr None \<and> v = dflt)"

definition gives_param :: "config \<Rightarrow> place \<Rightarrow> string \<Rightarrow> nat \<Rightarrow> string \<Rightarrow> bool" where
  "gives_param cfg pl mid i v \<longleftrightarrow>
     first_value cfg (module_path pl mid (indexed ''param'' i ''@value'')) = Inr (Some v) \<or>
     first_value cfg (module_path pl mid (indexed ''param'' i ''@value'')) = Inr None \<and>
     first_value cfg (module_path pl mid (indexed ''param'' i ''text()'')) = Inr (Some v)"

definition describes_module :: "config \<Rightarrow> place \<Rightarrow> module_desc \<Rightarrow> bool" where
  "describes_module cfg pl m \<longleftrightarrow>
     first_value cfg (module_path pl (md_id m) ''@lib'') = Inr (Some (md_lib m)) \<and>
     first_value cfg (module_path pl (md_id m) ''@type'') = Inr (md_type m) \<and>
     gives_list cfg (module_path pl (md_id m) ''param/@name'') (map fst (md_params m)) \<and>
     (\<forall>i < length (md_params m). gives_param cfg pl (md_id m) i (snd (md_params m ! i)))"

definition describes_queue :: "config \<Rightarrow> place \<Rightarrow> nat \<Rightarrow> queue_desc \<Rightarrow> bool" where
  "describes_queue cfg pl i d \<longleftrightarrow>
     gives_number cfg (processor_path pl (indexed ''input/queue'' i ''@priority'')) 0 (qd_priority d) \<and>
     gives_number cfg (processor_path pl (indexed ''input/queue'' i ''@maxItems'')) 0 (qd_maxItems d) \<and>
     gives_number cfg (processor_path pl (indexed ''input/queue'' i ''@maxSize'')) 0 (qd_maxSize d)"

definition describes_filter :: "config \<Rightarrow> place \<Rightarrow> nat \<Rightarrow> filter_desc \<Rightarrow> bool" where
  "describes_filter cfg pl i d \<longleftrightarrow>
     first_value cfg (processor_path pl (indexed ''output/nextProcessor'' i ''@ref'')) = Inr (Some (fl_ref d)) \<and>
     gives_number cfg (processor_path pl (indexed ''output/nextProcessor'' i ''@priority'')) 0 (fl_priority d) \<and>
     first_value cfg (processor_path pl (indexed ''output/nextProcessor'' i ''@copy'')) = Inr (fl_copy d) \<and>
     first_value cfg (processor_path pl (indexed ''output/nextProcessor'' i ''@filter'')) = Inr (map_option show_int (fl_filter d)) \<and>
     pred_option (fits 32) (fl_filter d)"

definition describes :: "config \<Rightarrow> place \<Rightarrow> processor_desc \<Rightarrow> bool" where
  "describes cfg pl d \<longleftrightarrow>
     first_value cfg (processor_path pl ''threads'') = Inr (Some (show_int (int (pd_threads d)))) \<and>
     gives_list cfg (processor_path pl ''modules/Module/@id'') (map md_id (pd_modules d)) \<and>
     list_all (describes_module cfg pl) (pd_modules d) \<and>
     (\<exists>qs. all_values cfg (processor_path pl ''input/queue'') = Inr qs \<and> count_of qs = length (pd_queues d)) \<and>
     (\<forall>i < length (pd_queues d). describes_queue cfg pl i (pd_queues d ! i)) \<and>
     (\<exists>ns. all_values cfg (processor_path pl ''output/nextProcessor'') = Inr ns \<and> count_of ns = length (pd_filters d)) \<and>
     (\<forall>i < length (pd_filters d). describes_filter cfg pl i (pd_filters d ! i))"

text \<open>What is built of a description.\<close>

definition built_filter :: "filter_desc \<Rightarrow> output_filter" where
  "built_filter d =
     \<lparr>of_filter = (case fl_filter d of None \<Rightarrow> 0 | Some v \<Rightarrow> v), of_emptyFilter = (fl_filter d = None), of_priority = fl_priority d,
      of_processor = Some (fl_ref d), of_copy = pred_option copy_value (fl_copy d) \<and> fl_copy d \<noteq> None, of_queue = None\<rparr>"

lemma scan_show_int:
  assumes "fits 32 v"
  shows "scan_int (show_int v) = Inr (Some v)"
proof (cases "v < 0")
  case True
  then have "takeWhile is_digit (show_nat (nat (- v))) \<noteq> []" using show_nat_digits by simp
  then show ?thesis using True assms read_show_int [of v] by (simp add: scan_int_def show_int_def isspace_def)
next
  case False
  obtain c cs where d: "show_nat (nat v) = c # cs" "is_digit c"
    using show_nat_digits [of "nat v"] by (cases "show_nat (nat v)") auto
  then show ?thesis using False assms is_digit_not_space [OF d(2)] read_show_int [of v] by (simp add: scan_int_def show_int_def)
qed

lemma optional_number: "gives_number cfg xpath dflt v \<Longrightarrow> optional_int cfg xpath dflt = Inr (Some v)"
  by (auto simp: gives_number_def optional_int_def scan_show_int)

lemma input_queue_desc_reads: "describes_queue cfg pl i d \<Longrightarrow> input_queue_desc cfg pl i = Inr (Some d)"
  by (auto simp: describes_queue_def input_queue_desc_def dest!: optional_number)

lemma output_filter_reads: "describes_filter cfg pl i d \<Longrightarrow> output_filter_of cfg pl i = Inr (Some (built_filter d))"
  by (auto simp: describes_filter_def output_filter_of_def built_filter_def OutputFilter_new_def OutputFilter_SetFilter_def scan_show_int
      split: option.splits dest!: optional_number)

lemma module_params_read:
  assumes "describes_module cfg pl m"
  shows "module_params cfg pl (md_id m) = Inr (Some (md_params m))"
proof -
  have "all_ok (module_param cfg pl (md_id m)) (enumerate 0 (map fst (md_params m))) = Inr (Some (md_params m))"
    using assms by (auto simp: all_ok_Some_iff list_all2_conv_all_nth describes_module_def nth_enumerate_eq module_param_def gives_param_def)
  then show ?thesis using assms by (auto simp: describes_module_def module_params_def gives_list_def)
qed

lemma input_queues_reads:
  assumes "list_all2 (describes_queue cfg pl) is ds" and "sync_queue_wf q" and "distinct (map qd_priority ds)"
    and "\<forall>d \<in> set ds. priority2queue q (qd_priority d) = None"
  shows "\<exists>q'. input_queues cfg pl is q props = Inr (Some (q', props @ map (queue_property \<circ> qd_priority) ds)) \<and> sync_queue_wf q' \<and>
    objs q' = objs q @ map (\<lambda>d. SimpleQueue_new (qd_priority d) (qd_maxItems d) (qd_maxSize d)) ds"
  using assms
proof (induction "is" ds arbitrary: q props rule: list_all2_induct)
  case (Cons i "is" d ds)
  obtain q1 where q1: "SyncQueue_addQueue (qd_priority d) (qd_maxItems d) (qd_maxSize d) q = Inr q1"
      "objs q1 = objs q @ [SimpleQueue_new (qd_priority d) (qd_maxItems d) (qd_maxSize d)]"
      "priority2queue q1 = (priority2queue q)(qd_priority d \<mapsto> length (objs q))"
    using Cons.prems(3) by (simp add: SyncQueue_addQueue_def Let_def)
  have "sync_queue_wf q1" using addQueue_wf [OF Cons.prems(1) q1(1)] .
  moreover have "\<forall>d' \<in> set ds. priority2queue q1 (qd_priority d') = None" using Cons.prems(2,3) q1(3) by (auto simp: image_iff)
  ultimately show ?case
    using Cons.IH [of q1 "props @ [queue_property (qd_priority d)]"] Cons.prems(2) input_queue_desc_reads [OF Cons.hyps(1)] q1(1,2) by simp
qed simp

text \<open>A module of a description as it is built for thread \<open>i\<close>, when its class is found and its \<open>Init\<close> succeeds.\<close>

definition built_module :: "('d, 'm) module_lib \<Rightarrow> module_desc \<Rightarrow> nat \<Rightarrow> ('d, 'm) loaded option" where
  "built_module lib m i =
     (case module_class_of lib (md_type m) (Some (md_lib m)) of
        Inr (Some cls) \<Rightarrow> (case init_module cls (md_params m) (md_id m) i of Inr (Some l) \<Rightarrow> Some l | _ \<Rightarrow> None)
      | _ \<Rightarrow> None)"

definition built_modules :: "('d, 'm) module_lib \<Rightarrow> processor_desc \<Rightarrow> nat \<Rightarrow> ('d, 'm) loaded list" where
  "built_modules lib d i = map (\<lambda>m. the (built_module lib m i)) (pd_modules d)"

lemma configure_module_reads:
  assumes "describes_module cfg pl m" and "0 < n" and "\<forall>i < n. built_module lib m i \<noteq> None"
  shows "configure_module cfg lib pl n (md_id m) = Inr (Some (map (\<lambda>i. the (built_module lib m i)) [0..<n]))"
proof -
  obtain cls where cls: "module_class_of lib (md_type m) (Some (md_lib m)) = Inr (Some cls)"
    using assms(3) [rule_format, OF assms(2)] by (auto simp: built_module_def split: sum.splits option.splits)
  have "init_module cls (md_params m) (md_id m) i = Inr (Some (the (built_module lib m i)))" if "i < n" for i
    using assms(3) that by (auto simp: built_module_def cls split: sum.splits option.splits)
  then have "all_ok (init_module cls (md_params m) (md_id m)) [0..<n] = Inr (Some (map (\<lambda>i. the (built_module lib m i)) [0..<n]))"
    by (intro all_ok_map) simp
  then show ?thesis using assms(1) module_params_read [OF assms(1)] cls by (simp add: configure_module_def describes_module_def)
qed

lemma gives_list_values: "gives_list cfg xpath vs \<Longrightarrow> \<exists>ov. all_values cfg xpath = Inr ov \<and> (case ov of None \<Rightarrow> [] | Some xs \<Rightarrow> xs) = vs"
  by (auto simp: gives_list_def)

lemma sync_queue_wf_new: "sync_queue_wf SyncQueue_new"
  by (simp add: sync_queue_wf_def SyncQueue_new_def)


text \<open>A processor with two threads, one module with a parameter, an input queue for ten resources and one filter.\<close>

definition demo_class :: "(unit, (string \<times> string) list) module_class" where
  "demo_class = \<lparr>mc_ops = \<lparr>processInput = (\<lambda>sleep m. (None, m)), processOutput = (\<lambda>r m. (r, m)), processSimple = (\<lambda>r m. (Some r, m)),
       processMulti = (\<lambda>ins outs n m. (False, ins, outs, 0, n, m))\<rparr>,
     mc_new = (\<lambda>mid i. []), mc_Init = (\<lambda>ps m. Inr (True, case ps of None \<Rightarrow> m | Some kvs \<Rightarrow> kvs)), mc_type = (\<lambda>m. SIMPLE),
     mc_SetLogLevel = (\<lambda>l m. m), mc_Save = (\<lambda>path m. (True, m)), mc_Restore = (\<lambda>path m. (True, m))\<rparr>"

definition demo_lib :: "(unit, (string \<times> string) list) module_lib" where
  "demo_lib = \<lparr>ml_native = (\<lambda>n. if n = ''simple.la'' then Some demo_class else None), ml_perl = (\<lambda>n. demo_class), ml_python = (\<lambda>n. demo_class)\<rparr>"

definition demo_place :: place where
  "demo_place = \<lparr>pl_server = ''S'', pl_engine = ''E'', pl_processor = ''P''\<rparr>"

definition demo_desc :: processor_desc where
  "demo_desc = \<lparr>pd_threads = 2, pd_modules = [\<lparr>md_id = ''m'', md_type = None, md_lib = ''simple.la'', md_params = [(''foo'', ''$1'')]\<rparr>],
     pd_queues = [\<lparr>qd_priority = 0, qd_maxItems = 10, qd_maxSize = 0\<rparr>],
     pd_filters = [\<lparr>fl_ref = ''Q'', fl_priority = 0, fl_copy = Some ''True'', fl_filter = Some (- 3)\<rparr>]\<rparr>"

text \<open>The expressions without their common start, and the value each selects.\<close>

definition demo_prefix :: string where
  "demo_prefix = ''//Server[@id='' @ quoted ''S'' @ '']/ProcessingEngine[@id='' @ quoted ''E'' @ '']/Processor[@id='' @ quoted ''P'' @ '']/''"

definition demo_nodes :: "(string \<times> string) list" where
  "demo_nodes =
     [(''threads'', ''2''), (''modules/Module/@id'', ''m''), (''modules/Module[@id='' @ quoted ''m'' @ '']/@lib'', ''simple.la''),
      (''modules/Module[@id='' @ quoted ''m'' @ '']/param/@name'', ''foo''),
      (''modules/Module[@id='' @ quoted ''m'' @ '']/param[1]/@value'', bslash # ''$1''),
      (''input/queue'', []), (''input/queue[1]/@maxItems'', ''10''), (''output/nextProcessor'', []), (''output/nextProcessor[1]/@ref'', ''Q''),
      (''output/nextProcessor[1]/@copy'', ''True''), (''output/nextProcessor[1]/@filter'', ''-3'')]"

definition demo_select :: "string \<Rightarrow> xml_node list option" where
  "demo_select rest = map_option (\<lambda>v. [Other_node (Some v)]) (map_of demo_nodes rest)"

definition demo_config :: config where
  "demo_config = \<lparr>cf_args = [], cf_nodes = (\<lambda>xpath. demo_select (drop (length demo_prefix) xpath))\<rparr>"

lemma demo_lookup:
  assumes "length rest < 100"
  shows "first_value demo_config (processor_path demo_place rest) = GetFirstValue [] (demo_select rest)"
    "all_values demo_config (processor_path demo_place rest) = Config_GetValues [] (demo_select rest)"
proof -
  have "length demo_prefix < 100" by (simp add: demo_prefix_def quoted_def)
  then have "processor_path demo_place rest = demo_prefix @ rest"
    using assms by (simp add: processor_path_def snprintf_def demo_place_def demo_prefix_def)
  then show "first_value demo_config (processor_path demo_place rest) = GetFirstValue [] (demo_select rest)"
    "all_values demo_config (processor_path demo_place rest) = Config_GetValues [] (demo_select rest)"
    by (simp_all add: first_value_def all_values_def demo_config_def)
qed

lemma demo_values:
  "first_value demo_config (processor_path demo_place ''threads'') = Inr (Some (show_int 2))"
  "all_values demo_config (processor_path demo_place ''modules/Module/@id'') = Inr (Some [''m''])"
  "first_value demo_config (module_path demo_place ''m'' ''@lib'') = Inr (Some ''simple.la'')"
  "first_value demo_config (module_path demo_place ''m'' ''@type'') = Inr None"
  "all_values demo_config (module_path demo_place ''m'' ''param/@name'') = Inr (Some [''foo''])"
  "first_value demo_config (module_path demo_place ''m'' (indexed ''param'' 0 ''@value'')) = Inr (Some ''$1'')"
  "all_values demo_config (processor_path demo_place ''input/queue'') = Inr (Some [[]])"
  "first_value demo_config (processor_path demo_place (indexed ''input/queue'' 0 ''@priority'')) = Inr None"
  "first_value demo_config (processor_path demo_place (indexed ''input/queue'' 0 ''@maxItems'')) = Inr (Some (show_int 10))"
  "first_value demo_config (processor_path demo_place (indexed ''input/queue'' 0 ''@maxSize'')) = Inr None"
  "all_values demo_config (processor_path demo_place ''output/nextProcessor'') = Inr (Some [[]])"
  "first_value demo_config (processor_path demo_place (indexed ''output/nextProcessor'' 0 ''@ref'')) = Inr (Some ''Q'')"
  "first_value demo_config (processor_path demo_place (indexed ''output/nextProcessor'' 0 ''@priority'')) = Inr None"
  "first_value demo_config (processor_path demo_place (indexed ''output/nextProcessor'' 0 ''@copy'')) = Inr (Some ''True'')"
  "first_value demo_config (processor_path demo_place (indexed ''output/nextProcessor'' 0 ''@filter'')) = Inr (Some (show_int (- 3)))"
  unfolding module_path_def by (subst demo_lookup, (simp add: indexed_def quoted_def show_int_def show_nat.simps; fail), code_simp)+

lemma demo_describes: "describes demo_config demo_place demo_desc"
  by (simp add: describes_def demo_desc_def describes_module_def describes_queue_def describes_filter_def gives_list_def gives_number_def gives_param_def
      demo_values count_of_def fits_def)


end
