(* ===== verification/ServerStart.thy ===== *)
theory ServerStart
  imports Startup Engine HttpServer Objects
begin

text \<open>
  Building and running the server (\<^verbatim>\<open>ProcessingEngine::Init\<close> in \<^verbatim>\<open>src/lib/processing_engine/ProcessingEngine.cc\<close>, \<^verbatim>\<open>Server.h\<close>, \<^verbatim>\<open>Server.cc\<close>): the
  engines and processors of the configuration with the registry of objects, the second stage that connects them, and start and stop.
  The class of the HTTP server is an argument.
\<close>

section \<open>Objects\<close>

text \<open>
  The objects in the order of their creation; an address is a position in this list.  A processor has the number of its engine and its
  own number in the engine.
\<close>

datatype object_kind = ServerObject | EngineObject nat | ProcessorObject nat nat | ModuleObject

record boot =
  bt_registry :: object_registry
  bt_kinds :: "object_kind list"

definition new_object :: "object_kind \<Rightarrow> string \<Rightarrow> boot \<Rightarrow> boot" where
  "new_object kind i b = \<lparr>bt_registry = snd (RegisterObject (length (bt_kinds b)) i (bt_registry b)), bt_kinds = bt_kinds b @ [kind]\<rparr>"

definition object_of :: "boot \<Rightarrow> string \<Rightarrow> (nat \<times> object_kind) option" where
  "object_of b ref = map_option (\<lambda>a. (a, bt_kinds b ! a)) (GetObject ref (bt_registry b))"

text \<open>The modules of a processor, one after the other, each for all threads.\<close>

definition new_modules :: "string list \<Rightarrow> nat \<Rightarrow> boot \<Rightarrow> boot" where
  "new_modules mids n b = fold (\<lambda>mid b. fold (\<lambda>i b. new_object ModuleObject (indexed_id mid (int i)) b) [0..<n] b) mids b"

section \<open>Engines\<close>

record ('d, 'm) engine_conf =
  ec_id :: string
  ec_processors :: "('d, 'm) processor list"
  ec_input :: "(nat \<times> nat) option"

definition engine_path :: "string \<Rightarrow> string \<Rightarrow> string \<Rightarrow> string" where
  "engine_path sid eid rest = snprintf 1024 (''//Server[@id='' @ quoted sid @ '']/ProcessingEngine[@id='' @ quoted eid @ '']/'' @ rest)"

definition module_ids :: "config \<Rightarrow> place \<Rightarrow> string list" where
  "module_ids cfg pl = (case all_values cfg (processor_path pl ''modules/Module/@id'') of Inr (Some ids) \<Rightarrow> ids | _ \<Rightarrow> [])"

text \<open>Every processor is registered before it is initialised.\<close>

fun init_processors ::
  "config \<Rightarrow> ('d, 'm) module_lib \<Rightarrow> string \<Rightarrow> string \<Rightarrow> nat \<Rightarrow> string list \<Rightarrow> boot \<Rightarrow> ('d, 'm) processor list \<Rightarrow> failure + (boot \<times> ('d, 'm) processor list) option" where
  "init_processors cfg lib sid eid e [] b ps = Inr (Some (b, ps))"
| "init_processors cfg lib sid eid e (pid # pids) b ps =
     (let pl = \<lparr>pl_server = sid, pl_engine = eid, pl_processor = pid\<rparr>; b1 = new_object (ProcessorObject e (length ps)) pid b
      in bind_ok (Processor_Init cfg lib pl) (\<lambda>p.
           init_processors cfg lib sid eid e pids (new_modules (module_ids cfg pl) (pr_nThreads p) b1) (ps @ [p])))"

text \<open>The processor whose input queue the engine uses.  A processor that was initialised has an input queue, possibly without sub-queues.\<close>

definition input_processor :: "config \<Rightarrow> string \<Rightarrow> string \<Rightarrow> boot \<Rightarrow> failure + (nat \<times> nat) option option" where
  "input_processor cfg sid eid b =
     bind_result (first_value cfg (engine_path sid eid ''inputProcessor/@ref'')) (\<lambda>ref.
       case ref of
         None \<Rightarrow> Inr (Some None)
       | Some r \<Rightarrow> (case object_of b r of Some (_, ProcessorObject e k) \<Rightarrow> Inr (Some (Some (e, k))) | _ \<Rightarrow> Inr None))"

definition ProcessingEngine_Init ::
  "config \<Rightarrow> ('d, 'm) module_lib \<Rightarrow> string \<Rightarrow> string \<Rightarrow> nat \<Rightarrow> boot \<Rightarrow> failure + (boot \<times> ('d, 'm) engine_conf) option" where
  "ProcessingEngine_Init cfg lib sid eid e b =
     bind_result (all_values cfg (engine_path sid eid ''Processor/@id'')) (\<lambda>pids.
     bind_ok (init_processors cfg lib sid eid e (case pids of None \<Rightarrow> [] | Some ids \<Rightarrow> ids) b []) (\<lambda>(b1, ps).
     bind_ok (input_processor cfg sid eid b1) (\<lambda>inp.
       Inr (Some (b1, \<lparr>ec_id = eid, ec_processors = ps, ec_input = inp\<rparr>)))))"

section \<open>The second stage\<close>

text \<open>
  An engine gets an output queue, with one sub-queue of priority 0, when the first filter that names it is connected.  Every processor
  remembers, after its own filters are connected, the output queue its engine has at that moment.
\<close>

record ('d, 'm) connected =
  cn_processor :: "('d, 'm) processor"
  cn_engineOut :: bool

definition queue_at :: "('d, 'm) engine_conf list \<Rightarrow> nat \<Rightarrow> nat \<Rightarrow> 'd rqueue" where
  "queue_at es e k = pr_queue (ec_processors (es ! e) ! k)"

definition endpoint_of :: "boot \<Rightarrow> string \<Rightarrow> endpoint" where
  "endpoint_of b ref =
     (case object_of b ref of
        Some (a, ProcessorObject e k) \<Rightarrow> ProcessorQueue a
      | Some (a, EngineObject e) \<Rightarrow> EngineQueue a
      | _ \<Rightarrow> NoObject)"

definition has_queue :: "boot \<Rightarrow> ('d, 'm) engine_conf list \<Rightarrow> nat \<Rightarrow> int \<Rightarrow> bool" where
  "has_queue b es a priority \<longleftrightarrow>
     (case bt_kinds b ! a of
        ProcessorObject e k \<Rightarrow> SyncQueue_hasQueue priority (queue_at es e k)
      | EngineObject e \<Rightarrow> priority = 0
      | _ \<Rightarrow> False)"

text \<open>The engines whose output queue the filters name.\<close>

definition output_named :: "boot \<Rightarrow> output_filter \<Rightarrow> nat option" where
  "output_named b f =
     (case of_processor f of None \<Rightarrow> None | Some ref \<Rightarrow> (case object_of b ref of Some (a, EngineObject e) \<Rightarrow> Some e | _ \<Rightarrow> None))"

definition outputs_named :: "boot \<Rightarrow> output_filter list \<Rightarrow> nat set" where
  "outputs_named b fs = set (List.map_filter (output_named b) fs)"

lemma outputs_namedI: "f \<in> set fs \<Longrightarrow> output_named b f = Some e \<Longrightarrow> e \<in> outputs_named b fs"
  by (force simp: outputs_named_def List.map_filter_def)

definition connect_processor ::
  "boot \<Rightarrow> ('d, 'm) engine_conf list \<Rightarrow> nat \<Rightarrow> nat set \<Rightarrow> ('d, 'm) processor \<Rightarrow> failure + (nat set \<times> ('d, 'm) connected) option" where
  "connect_processor b es e outs p =
     bind_ok (Processor_Init_second (endpoint_of b) (has_queue b es) p) (\<lambda>p1.
       let outs1 = outs \<union> outputs_named b (pr_filters p)
       in Inr (Some (outs1, \<lparr>cn_processor = p1, cn_engineOut = (e \<in> outs1)\<rparr>)))"

fun connect_processors ::
  "boot \<Rightarrow> ('d, 'm) engine_conf list \<Rightarrow> (nat \<times> ('d, 'm) processor) list \<Rightarrow> nat set \<Rightarrow> failure + (nat set \<times> ('d, 'm) connected list) option" where
  "connect_processors b es [] outs = Inr (Some (outs, []))"
| "connect_processors b es ((e, p) # ps) outs =
     bind_ok (connect_processor b es e outs p) (\<lambda>(outs1, c).
     bind_ok (connect_processors b es ps outs1) (\<lambda>(outs2, cs). Inr (Some (outs2, c # cs))))"

text \<open>All processors of all engines, in their order.\<close>

definition processors_in_order :: "('d, 'm) engine_conf list \<Rightarrow> (nat \<times> ('d, 'm) processor) list" where
  "processors_in_order es = concat (map (\<lambda>(e, ec). map (Pair e) (ec_processors ec)) (enumerate 0 es))"

section \<open>The server\<close>

record http_conf =
  ht_threads :: int
  ht_host :: string
  ht_port :: int

record ('d, 'm) server_conf =
  sc_engines :: "('d, 'm) engine_conf list"
  sc_http :: "http_conf option"
  sc_boot :: boot
  sc_outputs :: "nat set"
  sc_connected :: "('d, 'm) connected list"

definition Server_new :: "string \<Rightarrow> boot" where
  "Server_new sid = new_object ServerObject sid \<lparr>bt_registry = [], bt_kinds = []\<rparr>"

definition server_path :: "string \<Rightarrow> string \<Rightarrow> string" where
  "server_path sid rest = snprintf 1024 (''//Server[@id='' @ quoted sid @ '']/'' @ rest)"

fun init_engines ::
  "config \<Rightarrow> ('d, 'm) module_lib \<Rightarrow> string \<Rightarrow> string list \<Rightarrow> boot \<Rightarrow> ('d, 'm) engine_conf list \<Rightarrow> failure + (boot \<times> ('d, 'm) engine_conf list) option" where
  "init_engines cfg lib sid [] b es = Inr (Some (b, es))"
| "init_engines cfg lib sid (eid # eids) b es =
     bind_ok (ProcessingEngine_Init cfg lib sid eid (length es) (new_object (EngineObject (length es)) eid b)) (\<lambda>(b1, ec).
       init_engines cfg lib sid eids b1 (es @ [ec]))"

text \<open>
  The HTTP server: without a valid number of threads there is one; host, port and library are necessary.  \<open>start_lib\<close> says for a library
  whether it has the function that creates a server, and what the two calls of \<open>Init\<close> of that server return.
\<close>

definition init_http :: "config \<Rightarrow> (string \<Rightarrow> (bool \<times> bool) option) \<Rightarrow> string \<Rightarrow> failure + (http_conf \<times> bool) option" where
  "init_http cfg start_lib sid =
     bind_result (first_value cfg (server_path sid ''threads'')) (\<lambda>t.
     bind_result (case t of None \<Rightarrow> Inr None | Some s \<Rightarrow> scan_int s) (\<lambda>threads.
     bind_ok (first_value cfg (server_path sid ''serverHost'')) (\<lambda>host.
     bind_ok (first_value cfg (server_path sid ''serverPort'')) (\<lambda>p.
     bind_ok (scan_int p) (\<lambda>port.
     bind_ok (first_value cfg (server_path sid ''@lib'')) (\<lambda>name.
       case start_lib name of
         None \<Rightarrow> Inr None
       | Some (first, second) \<Rightarrow>
           if first then Inr (Some (\<lparr>ht_threads = (case threads of None \<Rightarrow> 1 | Some n \<Rightarrow> n), ht_host = host, ht_port = port\<rparr>, second)) else Inr None))))))"

definition Server_Init ::
  "config \<Rightarrow> ('d, 'm) module_lib \<Rightarrow> (string \<Rightarrow> (bool \<times> bool) option) \<Rightarrow> string \<Rightarrow> bool \<Rightarrow> failure + ('d, 'm) server_conf option" where
  "Server_Init cfg lib start_lib sid batch =
     bind_result (all_values cfg (server_path sid ''ProcessingEngine/@id'')) (\<lambda>eids.
     bind_ok (init_engines cfg lib sid (case eids of None \<Rightarrow> [] | Some ids \<Rightarrow> ids) (Server_new sid) []) (\<lambda>(b, es).
     bind_ok (if batch then Inr (Some None) else bind_ok (init_http cfg start_lib sid) (\<lambda>h. Inr (Some (Some h)))) (\<lambda>http.
     bind_ok (connect_processors b es (processors_in_order es) {}) (\<lambda>(outs, cs).
       if (case http of Some (_, second) \<Rightarrow> \<not> second | None \<Rightarrow> False) then Inr None
       else Inr (Some \<lparr>sc_engines = es, sc_http = map_option fst http, sc_boot = b, sc_outputs = outs, sc_connected = cs\<rparr>)))))"

section \<open>The registry while the server is built\<close>

text \<open>Every name leads to an object, and every engine and processor among the objects exists; \<open>ns\<close> has the numbers of processors.\<close>

definition boot_ok :: "nat list \<Rightarrow> boot \<Rightarrow> bool" where
  "boot_ok ns b \<longleftrightarrow>
     (\<forall>ref a. GetObject ref (bt_registry b) = Some a \<longrightarrow> a < length (bt_kinds b)) \<and>
     (\<forall>e k. ProcessorObject e k \<in> set (bt_kinds b) \<longrightarrow> e < length ns \<and> k < ns ! e) \<and>
     (\<forall>e. EngineObject e \<in> set (bt_kinds b) \<longrightarrow> e < length ns)"

abbreviation sizes :: "('d, 'm) engine_conf list \<Rightarrow> nat list" where
  "sizes es \<equiv> map (\<lambda>ec. length (ec_processors ec)) es"

lemma boot_ok_new:
  assumes "boot_ok ns b" and "case kind of ProcessorObject e k \<Rightarrow> e < length ns \<and> k < ns ! e | EngineObject e \<Rightarrow> e < length ns | _ \<Rightarrow> True"
  shows "boot_ok ns (new_object kind i b)"
proof -
  have "a < length (bt_kinds b)" if "GetObject ref (bt_registry b) = Some a" for ref a using assms(1) that by (auto simp: boot_ok_def)
  then show ?thesis using assms by (auto simp: boot_ok_def new_object_def split: if_splits object_kind.splits intro: less_SucI)
qed

lemma boot_ok_modules: "boot_ok ns b \<Longrightarrow> boot_ok ns (new_modules mids n b)"
proof -
  have one: "boot_ok ns b \<Longrightarrow> boot_ok ns (fold (\<lambda>i b. new_object ModuleObject (indexed_id mid (int i)) b) is b)" for mid "is" b
    by (induction "is" arbitrary: b) (simp_all add: boot_ok_new)
  show "boot_ok ns b \<Longrightarrow> boot_ok ns (new_modules mids n b)"
    unfolding new_modules_def by (induction mids arbitrary: b) (simp_all add: one)
qed

text \<open>More processors and more engines do no harm.\<close>

lemma boot_ok_mono:
  assumes "boot_ok ns b" and "length ns \<le> length ms" and "\<And>e. e < length ns \<Longrightarrow> ns ! e \<le> ms ! e"
  shows "boot_ok ms b"
proof -
  have "e < length ms \<and> k < ms ! e" if "ProcessorObject e k \<in> set (bt_kinds b)" for e k
    using that assms(1) assms(2) assms(3) [of e] unfolding boot_ok_def by (meson order_less_le_trans)
  moreover have "e < length ms" if "EngineObject e \<in> set (bt_kinds b)" for e
    using that assms(1,2) unfolding boot_ok_def by (meson order_less_le_trans)
  ultimately show ?thesis using assms(1) unfolding boot_ok_def by blast
qed

lemma init_processors_ok:
  assumes "init_processors cfg lib sid eid e pids b ps = Inr (Some (b1, ps1))" and "boot_ok (ns @ [length ps]) b" and "e = length ns"
  shows "boot_ok (ns @ [length ps1]) b1"
  using assms
proof (induction pids arbitrary: b ps)
  case (Cons pid pids)
  let ?pl = "\<lparr>pl_server = sid, pl_engine = eid, pl_processor = pid\<rparr>" and ?b = "new_object (ProcessorObject e (length ps)) pid b"
  obtain p where p: "Processor_Init cfg lib ?pl = Inr (Some p)"
      "init_processors cfg lib sid eid e pids (new_modules (module_ids cfg ?pl) (pr_nThreads p) ?b) (ps @ [p]) = Inr (Some (b1, ps1))"
    using Cons.prems(1) by (auto simp: bind_ok_Some_iff Let_def)
  have "boot_ok (ns @ [length (ps @ [p])]) b" by (rule boot_ok_mono [OF Cons.prems(2)]) (auto simp: nth_append)
  then have "boot_ok (ns @ [length (ps @ [p])]) ?b" using Cons.prems(3) by (intro boot_ok_new) auto
  then show ?case using Cons.IH [OF p(2) _ Cons.prems(3)] boot_ok_modules by blast
qed simp

lemma init_engines_ok:
  assumes "init_engines cfg lib sid eids b es = Inr (Some (b1, es1))" and "boot_ok (sizes es) b"
  shows "boot_ok (sizes es1) b1"
  using assms
proof (induction eids arbitrary: b es)
  case (Cons eid eids)
  let ?b = "new_object (EngineObject (length es)) eid b"
  obtain b2 ec where ec: "ProcessingEngine_Init cfg lib sid eid (length es) ?b = Inr (Some (b2, ec))" "init_engines cfg lib sid eids b2 (es @ [ec]) = Inr (Some (b1, es1))"
    using Cons.prems(1) by (auto simp: bind_ok_Some_iff)
  obtain pids where "init_processors cfg lib sid eid (length es) pids ?b [] = Inr (Some (b2, ec_processors ec))"
    using ec(1) by (auto simp: ProcessingEngine_Init_def bind_ok_Some_iff bind_result_Inr_iff)
  moreover have "boot_ok (sizes es @ [length ([] :: ('a, 'b) processor list)]) ?b"
    by (rule boot_ok_new [OF boot_ok_mono [OF Cons.prems(2)]]) (auto simp: nth_append)
  ultimately have "boot_ok (sizes es @ [length (ec_processors ec)]) b2" using init_processors_ok [of cfg lib sid eid "length es" pids ?b "[]"] by simp
  then show ?case using Cons.IH [OF ec(2)] by simp
qed simp

section \<open>Connected processors\<close>

lemma Connect_connects:
  "Connect obj has fs = Inr (Some gs) \<Longrightarrow>
     list_all2 (\<lambda>f g. \<exists>ref a. of_processor f = Some ref \<and> (obj ref = ProcessorQueue a \<or> obj ref = EngineQueue a) \<and> has a (of_priority f) \<and>
       g = OutputFilter_SetQueue a f) fs gs"
  by (induction fs arbitrary: gs) (auto simp: bind_result_Inr_iff split: option.splits endpoint.splits if_splits)

lemma connect_processors_split:
  assumes "connect_processors b es ps outs = Inr (Some (outs', cs))"
  shows "outs' = outs \<union> (\<Union>(e, p) \<in> set ps. outputs_named b (pr_filters p))" and "length cs = length ps"
    and "\<And>j. j < length ps \<Longrightarrow> cn_engineOut (cs ! j) \<longleftrightarrow> fst (ps ! j) \<in> outs \<or> (\<exists>i \<le> j. fst (ps ! j) \<in> outputs_named b (pr_filters (snd (ps ! i))))"
    and "\<And>j. j < length ps \<Longrightarrow> Processor_Init_second (endpoint_of b) (has_queue b es) (snd (ps ! j)) = Inr (Some (cn_processor (cs ! j)))"
proof -
  have "outs' = outs \<union> (\<Union>(e, p) \<in> set ps. outputs_named b (pr_filters p)) \<and> length cs = length ps \<and>
      (\<forall>j < length ps. (cn_engineOut (cs ! j) \<longleftrightarrow> fst (ps ! j) \<in> outs \<or> (\<exists>i \<le> j. fst (ps ! j) \<in> outputs_named b (pr_filters (snd (ps ! i))))) \<and>
        Processor_Init_second (endpoint_of b) (has_queue b es) (snd (ps ! j)) = Inr (Some (cn_processor (cs ! j))))"
    using assms
  proof (induction ps arbitrary: outs cs)
    case (Cons ep ps)
    obtain e p where ep: "ep = (e, p)" by fastforce
    let ?outs = "outs \<union> outputs_named b (pr_filters p)"
    obtain p1 cs1 where c: "Processor_Init_second (endpoint_of b) (has_queue b es) p = Inr (Some p1)" "connect_processors b es ps ?outs = Inr (Some (outs', cs1))"
        "cs = \<lparr>cn_processor = p1, cn_engineOut = (e \<in> ?outs)\<rparr> # cs1"
      using Cons.prems by (auto simp: ep bind_ok_Some_iff connect_processor_def Let_def)
    note IH = Cons.IH [OF c(2)]
    have ex: "(\<exists>i \<le> Suc j. Q i) \<longleftrightarrow> Q 0 \<or> (\<exists>i \<le> j. Q (Suc i))" for j and Q :: "nat \<Rightarrow> bool"
      by (metis Suc_le_mono le0 not0_implies_Suc)
    show ?case
    proof (intro conjI allI impI)
      fix j assume j: "j < length (ep # ps)"
      show "cn_engineOut (cs ! j) \<longleftrightarrow> fst ((ep # ps) ! j) \<in> outs \<or> (\<exists>i \<le> j. fst ((ep # ps) ! j) \<in> outputs_named b (pr_filters (snd ((ep # ps) ! i))))"
        using IH j by (cases j) (auto simp: ep c(3) ex)
      show "Processor_Init_second (endpoint_of b) (has_queue b es) (snd ((ep # ps) ! j)) = Inr (Some (cn_processor (cs ! j)))"
        using IH j by (cases j) (auto simp: ep c)
    qed (use IH c(3) in \<open>auto simp: ep\<close>)
  qed simp
  then show "outs' = outs \<union> (\<Union>(e, p) \<in> set ps. outputs_named b (pr_filters p))" and "length cs = length ps"
    and "\<And>j. j < length ps \<Longrightarrow> cn_engineOut (cs ! j) \<longleftrightarrow> fst (ps ! j) \<in> outs \<or> (\<exists>i \<le> j. fst (ps ! j) \<in> outputs_named b (pr_filters (snd (ps ! i))))"
    and "\<And>j. j < length ps \<Longrightarrow> Processor_Init_second (endpoint_of b) (has_queue b es) (snd (ps ! j)) = Inr (Some (cn_processor (cs ! j)))"
    by blast+
qed

text \<open>What is true of a server whose initialisation succeeded.\<close>

lemma Server_InitD:
  assumes "Server_Init cfg lib start_lib sid batch = Inr (Some s)"
  shows "boot_ok (sizes (sc_engines s)) (sc_boot s)"
    and "connect_processors (sc_boot s) (sc_engines s) (processors_in_order (sc_engines s)) {} = Inr (Some (sc_outputs s, sc_connected s))"
proof -
  obtain eids b es outs cs where i: "init_engines cfg lib sid eids (Server_new sid) [] = Inr (Some (b, es))"
      "connect_processors b es (processors_in_order es) {} = Inr (Some (outs, cs))"
      "sc_engines s = es" "sc_boot s = b" "sc_outputs s = outs" "sc_connected s = cs"
    using assms by (auto simp: Server_Init_def bind_ok_Some_iff bind_result_Inr_iff split: if_splits)
  have "boot_ok (sizes ([] :: ('a, 'b) engine_conf list)) (Server_new sid)"
    by (auto simp: Server_new_def boot_ok_def new_object_def GetObject_def RegisterObject_def)
  then show "boot_ok (sizes (sc_engines s)) (sc_boot s)" using init_engines_ok [OF i(1)] i(3,4) by simp
  show "connect_processors (sc_boot s) (sc_engines s) (processors_in_order (sc_engines s)) {} = Inr (Some (sc_outputs s, sc_connected s))" using i by simp
qed

lemma Init_second_filters:
  assumes "Processor_Init_second obj has p = Inr (Some p')"
  shows "Connect obj has (pr_filters p) = Inr (Some (pr_filters p'))" and "pr_queue p' = pr_queue p"
  using assms by (auto simp: Processor_Init_second_def bind_ok_Some_iff)

text \<open>A queue that exists and has a sub-queue of the priority.\<close>

definition queue_ready :: "('d, 'm) server_conf \<Rightarrow> nat \<Rightarrow> int \<Rightarrow> bool" where
  "queue_ready s a priority \<longleftrightarrow> a < length (bt_kinds (sc_boot s)) \<and>
     (case bt_kinds (sc_boot s) ! a of
        ProcessorObject e k \<Rightarrow> e < length (sc_engines s) \<and> k < length (ec_processors (sc_engines s ! e)) \<and>
          SyncQueue_hasQueue priority (queue_at (sc_engines s) e k)
      | EngineObject e \<Rightarrow> e < length (sc_engines s) \<and> e \<in> sc_outputs s \<and> priority = 0
      | _ \<Rightarrow> False)"

lemma endpoint_ready:
  assumes "Server_Init cfg lib start_lib sid batch = Inr (Some s)" and "p \<in> snd ` set (processors_in_order (sc_engines s))" and "f \<in> set (pr_filters p)"
    and "of_processor f = Some ref" and "endpoint_of (sc_boot s) ref = ProcessorQueue a \<or> endpoint_of (sc_boot s) ref = EngineQueue a"
    and "has_queue (sc_boot s) (sc_engines s) a priority"
  shows "queue_ready s a priority"
proof -
  note ok = Server_InitD(1) [OF assms(1)] and conn = connect_processors_split(1) [OF Server_InitD(2) [OF assms(1)]]
  obtain kind where k: "object_of (sc_boot s) ref = Some (a, kind)" "(\<exists>e k. kind = ProcessorObject e k) \<or> (\<exists>e. kind = EngineObject e)"
    using assms(5) by (auto simp: endpoint_of_def split: option.splits object_kind.splits)
  then have a: "a < length (bt_kinds (sc_boot s))" "kind = bt_kinds (sc_boot s) ! a" using ok by (auto simp: object_of_def boot_ok_def)
  then have mem: "kind \<in> set (bt_kinds (sc_boot s))" by simp
  have "e < length (sc_engines s) \<and> k < length (ec_processors (sc_engines s ! e))" if "kind = ProcessorObject e k" for e k
    using that mem ok unfolding boot_ok_def by (metis length_map nth_map)
  moreover have "e < length (sc_engines s)" if "kind = EngineObject e" for e
    using that mem ok unfolding boot_ok_def by (metis length_map)
  moreover have "e \<in> sc_outputs s" if "kind = EngineObject e" for e
    using that assms(2-4) k(1) outputs_namedI [OF assms(3), of "sc_boot s" e] by (force simp: conn output_named_def)
  ultimately show ?thesis using k(2) a assms(6) by (auto simp: queue_ready_def has_queue_def)
qed

text \<open>
  C23: a server that starts has no loose ends.  When the initialisation succeeds, every output filter of every processor has a queue: the input
  queue of a processor that exists and has a sub-queue of the filter's priority, or the output queue, which has been created, of an
  engine that exists, with priority 0.
\<close>
theorem Server_Init_connects:
  assumes "Server_Init cfg lib start_lib sid batch = Inr (Some s)" and "c \<in> set (sc_connected s)" and "g \<in> set (pr_filters (cn_processor c))"
  shows "\<exists>a. of_queue g = Some a \<and> queue_ready s a (of_priority g)"
proof -
  note conn = connect_processors_split [OF Server_InitD(2) [OF assms(1)]]
  let ?ps = "processors_in_order (sc_engines s)"
  obtain j where j: "j < length ?ps" "sc_connected s ! j = c" using assms(2) conn(2) by (metis in_set_conv_nth)
  let ?p = "snd (?ps ! j)"
  have second: "Processor_Init_second (endpoint_of (sc_boot s)) (has_queue (sc_boot s) (sc_engines s)) ?p = Inr (Some (cn_processor c))"
    using conn(4) [OF j(1)] j(2) by simp
  from Connect_connects [OF Init_second_filters(1) [OF this]] assms(3) obtain f ref a where
    f: "f \<in> set (pr_filters ?p)" "of_processor f = Some ref" "endpoint_of (sc_boot s) ref = ProcessorQueue a \<or> endpoint_of (sc_boot s) ref = EngineQueue a"
      "has_queue (sc_boot s) (sc_engines s) a (of_priority f)" "g = OutputFilter_SetQueue a f"
    by (auto simp: list_all2_conv_all_nth in_set_conv_nth) metis
  have "?p \<in> snd ` set ?ps" using j(1) by auto
  from endpoint_ready [OF assms(1) this f(1-4)] f(5) show ?thesis by (simp add: OutputFilter_SetQueue_def)
qed

text \<open>
  C25: which processors return deleted resources.  A processor knows the output queue of its engine exactly when a filter of its own or of
  a processor that was connected before it names the engine: in an engine whose last processor writes to the output queue, the
  processors before it do not know the queue, and release the resources their modules delete instead of returning them to the caller.
\<close>
theorem engine_output_captured:
  assumes "Server_Init cfg lib start_lib sid batch = Inr (Some s)" and "j < length (sc_connected s)"
  shows "cn_engineOut (sc_connected s ! j) \<longleftrightarrow>
    (\<exists>i \<le> j. fst (processors_in_order (sc_engines s) ! j) \<in> outputs_named (sc_boot s) (pr_filters (snd (processors_in_order (sc_engines s) ! i))))"
  using connect_processors_split(2,3) [OF Server_InitD(2) [OF assms(1)]] assms(2) by simp

text \<open>
  A server for batch mode with one engine of two processors: the first hands its resources to the second, the second to the output
  queue of the engine.  An expression selects the value of the first of these endings it has.
\<close>

definition pair_values :: "(string \<times> string) list" where
  "pair_values =
     [(''ProcessingEngine/@id'', ''E''), (''threads'', ''1''), (''Module/@id'', ''m''), (''@lib'', ''simple.la''), (''input/queue'', []),
      (''output/nextProcessor'', []), (CHR ''P'' # CHR 0x27 # '']/output/nextProcessor[1]/@ref'', ''R''),
      (CHR ''R'' # CHR 0x27 # '']/output/nextProcessor[1]/@ref'', ''E'')]"

definition pair_nodes :: "string \<Rightarrow> xml_node list option" where
  "pair_nodes xpath =
     (if suffix ''Processor/@id'' xpath then Some [Other_node (Some ''P''), Other_node (Some ''R'')]
      else case filter (\<lambda>(k, v). suffix k xpath) pair_values of [] \<Rightarrow> None | (k, v) # _ \<Rightarrow> Some [Other_node (Some v)])"

definition pair_config :: config where
  "pair_config = \<lparr>cf_args = [], cf_nodes = pair_nodes\<rparr>"

lemma pair_server:
  "case Server_Init pair_config demo_lib (\<lambda>n. None) ''S'' True of
     Inr (Some s) \<Rightarrow> map cn_engineOut (sc_connected s) = [False, True] \<and>
       map (\<lambda>c. map of_queue (pr_filters (cn_processor c))) (sc_connected s) = [[Some 4], [Some 1]]
   | _ \<Rightarrow> False"
  by code_simp

theorem Server_Init_connects_witness:
  "\<exists>s c g a. Server_Init pair_config demo_lib (\<lambda>n. None) ''S'' True = Inr (Some s) \<and> c \<in> set (sc_connected s) \<and>
     g \<in> set (pr_filters (cn_processor c)) \<and> of_queue g = Some a \<and> queue_ready s a (of_priority g)"
proof -
  obtain s where s: "Server_Init pair_config demo_lib (\<lambda>n. None) ''S'' True = Inr (Some s)"
      "map (\<lambda>c. map of_queue (pr_filters (cn_processor c))) (sc_connected s) = [[Some 4], [Some 1]]"
    using pair_server by (auto split: sum.splits option.splits)
  then obtain c cs where c: "sc_connected s = c # cs" "map of_queue (pr_filters (cn_processor c)) = [Some 4]" by auto
  then obtain g where g: "g \<in> set (pr_filters (cn_processor c))" by auto
  from Server_Init_connects [OF s(1) _ g] c(1) s(1) g show ?thesis by fastforce
qed

theorem engine_output_captured_witness:
  "\<exists>s. Server_Init pair_config demo_lib (\<lambda>n. None) ''S'' True = Inr (Some s) \<and> \<not> cn_engineOut (sc_connected s ! 0) \<and>
     (\<forall>i \<le> 0. fst (processors_in_order (sc_engines s) ! 0) \<notin> outputs_named (sc_boot s) (pr_filters (snd (processors_in_order (sc_engines s) ! i))))"
proof -
  obtain s where s: "Server_Init pair_config demo_lib (\<lambda>n. None) ''S'' True = Inr (Some s)" "map cn_engineOut (sc_connected s) = [False, True]"
    using pair_server by (auto split: sum.splits option.splits)
  then have n: "0 < length (sc_connected s)" "\<not> cn_engineOut (sc_connected s ! 0)" by auto
  then show ?thesis using engine_output_captured [OF s(1) n(1)] s(1) by auto
qed

section \<open>Start and stop\<close>

text \<open>
  In batch mode the main thread waits on a condition variable without looking at any state.  \<open>Ready\<close> is the moment it starts to wait,
  \<open>Signal\<close> a broadcast; the result says whether the main thread has been woken.
\<close>

datatype batch_event = Ready | Signal

fun batch_wait :: "batch_event list \<Rightarrow> bool \<Rightarrow> bool" where
  "batch_wait [] waiting = False"
| "batch_wait (Ready # ws) waiting = batch_wait ws True"
| "batch_wait (Signal # ws) waiting = (if waiting then True else batch_wait ws False)"

record running_server =
  rn_batch :: bool
  rn_http :: http_conf
  rn_engines :: "engine list"
  rn_server :: simple_server
  rn_signals :: nat

text \<open>Stopping an engine waits for its threads; \<open>None\<close> is an engine that has not stopped.\<close>

fun stop_engines :: "nat list list \<Rightarrow> engine list \<Rightarrow> engine list option" where
  "stop_engines rounds [] = Some []"
| "stop_engines rounds (e # es) =
     (case StopSync (case rounds of [] \<Rightarrow> [] | r # _ \<Rightarrow> r) e of
        None \<Rightarrow> None
      | Some e1 \<Rightarrow> map_option ((#) e1) (stop_engines (tl rounds) es))"

text \<open>
  \<open>main\<close> is what the main thread of the HTTP server does until it ends; with \<open>wait\<close> the caller waits for that.  The number of threads is
  not checked; one that is negative makes the allocation of the array fail and is taken for 0 here.
\<close>

definition Hector_Start ::
  "(string \<Rightarrow> nat option) \<Rightarrow> (simple_server \<Rightarrow> simple_server) \<Rightarrow> batch_event list \<Rightarrow> nat list list \<Rightarrow> bool \<Rightarrow> running_server \<Rightarrow> running_server option" where
  "Hector_Start inet_aton main ws rounds wait s =
     (let s1 = (if \<not> rn_batch s then
                  let h = rn_http s; v = Server_Start inet_aton (Some (ht_host h)) (ht_port h) (nat (ht_threads h)) (rn_server s)
                  in s\<lparr>rn_server := (if wait then main v else v)\<rparr>
                else s\<lparr>rn_engines := map StartSync (rn_engines s)\<rparr>)
      in if \<not> wait then Some s1
         else if rn_batch s1 \<and> \<not> batch_wait ws False then None
         else map_option (\<lambda>es. s1\<lparr>rn_engines := es\<rparr>) (stop_engines rounds (rn_engines s1)))"

definition Hector_Stop :: "nat list list \<Rightarrow> running_server \<Rightarrow> running_server option" where
  "Hector_Stop rounds s =
     map_option (\<lambda>es.
       let s1 = s\<lparr>rn_engines := es\<rparr>
       in if \<not> rn_batch s1 then s1\<lparr>rn_server := (rn_server s1)\<lparr>sv_listener := Server_Stop (sv_listener (rn_server s1))\<rparr>\<rparr>
          else s1\<lparr>rn_signals := rn_signals s1 + 1\<rparr>)
       (stop_engines rounds (rn_engines s))"

lemma batch_wait_iff: "batch_wait ws waiting \<longleftrightarrow> (if waiting then Signal \<in> set ws else (\<exists>us vs. ws = us @ Ready # vs \<and> Signal \<in> set vs))"
proof (induction ws waiting rule: batch_wait.induct)
  case (2 ws waiting)
  have "(\<exists>us vs. Ready # ws = us @ Ready # vs \<and> Signal \<in> set vs) \<longleftrightarrow> Signal \<in> set ws"
    by (metis append_Nil in_set_conv_decomp list.set_intros(2) append_Cons set_ConsD Un_iff set_append batch_event.distinct(1) list.inject append_eq_Cons_conv)
  then show ?case using 2 by auto
next
  case (3 ws waiting)
  then show ?case by (auto simp: Cons_eq_append_conv)
qed simp

text \<open>
  The end of the work that is reported before the main thread waits is lost: the program does not end, whatever the engines do.
\<close>

lemma batch_signal_lost:
  assumes "rn_batch s" and "Signal \<notin> set vs"
  shows "Hector_Start inet_aton main (replicate n Signal @ Ready # vs) rounds True s = None"
proof -
  have "\<not> batch_wait (replicate n Signal @ Ready # vs) False" using assms(2) by (induction n) (simp_all add: batch_wait_iff [of vs True])
  then show ?thesis using assms(1) by (simp add: Hector_Start_def Let_def)
qed

section \<open>Checkpoints of an engine\<close>

fun checkpoint_processors ::
  "(('d, 'm) processor \<Rightarrow> bool \<times> ('d, 'm) processor) \<Rightarrow> ('d, 'm) processor list \<Rightarrow> bool \<times> ('d, 'm) processor list" where
  "checkpoint_processors f [] = (True, [])"
| "checkpoint_processors f (p # ps) =
     (case f p of (ok, p1) \<Rightarrow>
        if \<not> ok then (False, p1 # ps) else case checkpoint_processors f ps of (ok1, ps1) \<Rightarrow> (ok1, p1 # ps1))"

definition Engine_SaveCheckpointSync :: "string \<Rightarrow> ('d, 'm) engine_conf \<Rightarrow> bool \<times> ('d, 'm) engine_conf" where
  "Engine_SaveCheckpointSync path ec =
     (case checkpoint_processors (Processor_SaveCheckpointSync path) (ec_processors ec) of (ok, ps) \<Rightarrow> (ok, ec\<lparr>ec_processors := ps\<rparr>))"

definition Engine_RestoreCheckpointSync :: "string \<Rightarrow> ('d, 'm) engine_conf \<Rightarrow> bool \<times> ('d, 'm) engine_conf" where
  "Engine_RestoreCheckpointSync path ec =
     (case checkpoint_processors (Processor_RestoreCheckpointSync path) (ec_processors ec) of (ok, ps) \<Rightarrow> (ok, ec\<lparr>ec_processors := ps\<rparr>))"

text \<open>The modules of an engine in the order in which a checkpoint visits them.\<close>

definition engine_modules :: "('d, 'm) engine_conf \<Rightarrow> ('d, 'm) loaded list" where
  "engine_modules ec = concat (map (concat \<circ> pr_modules) (ec_processors ec))"

lemma checkpoint_modules_append:
  "checkpoint_modules f (ls @ ms) =
     (case checkpoint_modules f ls of (ok, ls1) \<Rightarrow> if ok then (case checkpoint_modules f ms of (ok1, ms1) \<Rightarrow> (ok1, ls1 @ ms1)) else (False, ls1 @ ms))"
  by (induction ls) (auto split: prod.splits simp: Let_def)

lemma checkpoint_threads_flat:
  "checkpoint_threads f mss = (ok, mss1) \<Longrightarrow> checkpoint_modules f (concat mss) = (ok, concat mss1)"
  by (induction mss arbitrary: ok mss1) (auto simp: checkpoint_modules_append split: prod.splits if_splits)

lemma checkpoint_processors_flat:
  assumes "\<And>p ok p1. f p = (ok, p1) \<Longrightarrow> checkpoint_modules g (concat (pr_modules p)) = (ok, concat (pr_modules p1))"
  shows "checkpoint_processors f ps = (ok, ps1) \<Longrightarrow>
    checkpoint_modules g (concat (map (concat \<circ> pr_modules) ps)) = (ok, concat (map (concat \<circ> pr_modules) ps1))"
proof (induction ps arbitrary: ok ps1)
  case (Cons p ps)
  obtain ok1 p1 where p: "f p = (ok1, p1)" by fastforce
  then show ?case using Cons assms [OF p] by (auto simp: checkpoint_modules_append split: if_splits prod.splits)
qed simp

lemma Processor_checkpoint_flat:
  "Processor_SaveCheckpointSync path p = (ok, p1) \<Longrightarrow>
     checkpoint_modules (\<lambda>l. mc_Save (lm_class l) path (mi_state (lm_info l))) (concat (pr_modules p)) = (ok, concat (pr_modules p1))"
  "Processor_RestoreCheckpointSync path p = (ok, p1) \<Longrightarrow>
     checkpoint_modules (\<lambda>l. mc_Restore (lm_class l) path (mi_state (lm_info l))) (concat (pr_modules p)) = (ok, concat (pr_modules p1))"
  by (auto simp: Processor_SaveCheckpointSync_def Processor_RestoreCheckpointSync_def split: prod.splits intro: checkpoint_threads_flat)

text \<open>
  A checkpoint of an engine visits all modules of all threads of all processors in their order, up to the first that fails, and is
  saved exactly when none fails.
\<close>

lemma Engine_checkpoint_visits:
  "Engine_SaveCheckpointSync path ec = (ok, ec1) \<Longrightarrow>
     checkpoint_modules (\<lambda>l. mc_Save (lm_class l) path (mi_state (lm_info l))) (engine_modules ec) = (ok, engine_modules ec1)"
  "Engine_RestoreCheckpointSync path ec = (ok, ec1) \<Longrightarrow>
     checkpoint_modules (\<lambda>l. mc_Restore (lm_class l) path (mi_state (lm_info l))) (engine_modules ec) = (ok, engine_modules ec1)"
  using checkpoint_processors_flat [of "Processor_SaveCheckpointSync path" "\<lambda>l. mc_Save (lm_class l) path (mi_state (lm_info l))", OF Processor_checkpoint_flat(1), of "ec_processors ec"]
    checkpoint_processors_flat [of "Processor_RestoreCheckpointSync path" "\<lambda>l. mc_Restore (lm_class l) path (mi_state (lm_info l))", OF Processor_checkpoint_flat(2), of "ec_processors ec"]
  by (auto simp: Engine_SaveCheckpointSync_def Engine_RestoreCheckpointSync_def engine_modules_def split: prod.splits)

lemma checkpoint_modules_all:
  "fst (checkpoint_modules f ls) \<longleftrightarrow> (\<forall>l \<in> set ls. fst (f l))"
  by (induction ls) (auto split: prod.splits simp: Let_def)

end
