(* ===== verification/HectorMain.thy ===== *)
theory HectorMain
  imports ServerStart
begin

text \<open>
  The program \<^verbatim>\<open>src/src/hector_server.cc\<close>: options, environment, the lines of the logging set-up and the order of the steps from the command
  line to the end of the server.  The options in the order in which \<^verbatim>\<open>getopt_long\<close> returns them, the parsed configuration file and what the
  system calls answer are arguments.
\<close>

section \<open>Options\<close>

datatype cmd_option = Opt_config string | Opt_base string | Opt_batch | Opt_foreground | Opt_verbose | Opt_help | Opt_version | Opt_unknown

record cmd =
  cm_config :: "string option"
  cm_base :: "string option"
  cm_batch :: bool
  cm_foreground :: bool
  cm_help :: bool
  cm_verbose :: nat

definition cmd_new :: cmd where
  "cmd_new = \<lparr>cm_config = None, cm_base = None, cm_batch = False, cm_foreground = False, cm_help = False, cm_verbose = 0\<rparr>"

text \<open>The option for the version ends the program: \<open>None\<close>.\<close>

fun option_loop :: "cmd_option list \<Rightarrow> cmd \<Rightarrow> cmd option" where
  "option_loop [] c = Some c"
| "option_loop (Opt_config s # os) c = option_loop os (c\<lparr>cm_config := Some s\<rparr>)"
| "option_loop (Opt_base s # os) c = option_loop os (c\<lparr>cm_base := Some s\<rparr>)"
| "option_loop (Opt_batch # os) c = option_loop os (c\<lparr>cm_batch := True\<rparr>)"
| "option_loop (Opt_foreground # os) c = option_loop os (c\<lparr>cm_foreground := True\<rparr>)"
| "option_loop (Opt_verbose # os) c = option_loop os (c\<lparr>cm_verbose := cm_verbose c + 1\<rparr>)"
| "option_loop (Opt_help # os) c = option_loop os (c\<lparr>cm_help := True\<rparr>)"
| "option_loop (Opt_version # os) c = None"
| "option_loop (Opt_unknown # os) c = option_loop os c"

definition or_default :: "string \<Rightarrow> string option \<Rightarrow> string option" where
  "or_default d v = (case v of None \<Rightarrow> Some d | Some s \<Rightarrow> Some s)"

definition processOptions :: "string \<Rightarrow> cmd_option list \<Rightarrow> cmd option" where
  "processOptions inst os =
     map_option (\<lambda>c. c\<lparr>cm_config := or_default ''config.xml'' (cm_config c), cm_base := or_default (inst @ ''/lib/hector'') (cm_base c)\<rparr>) (option_loop os cmd_new)"

section \<open>Environment\<close>

definition library_path :: "string \<Rightarrow> string option \<Rightarrow> string" where
  "library_path base path =
     snprintf 10240 (base @ '':'' @ base @ ''/module:'' @ base @ ''/resource:'' @ (case path of None \<Rightarrow> [] | Some p \<Rightarrow> p))"

definition language_path :: "string \<Rightarrow> string \<Rightarrow> string option \<Rightarrow> string" where
  "language_path lang base path =
     snprintf 10240 (base @ ''/module/'' @ lang @ '':'' @ base @ ''/resource/'' @ lang @ '':'' @ (case path of None \<Rightarrow> [] | Some p \<Rightarrow> p))"

definition set_environment :: "string \<Rightarrow> (string \<rightharpoonup> string) \<Rightarrow> string \<rightharpoonup> string" where
  "set_environment base env =
     (let e1 = env(''LD_LIBRARY_PATH'' \<mapsto> library_path base (env ''LD_LIBRARY_PATH''));
          e2 = e1(''PERL5LIB'' \<mapsto> language_path ''perl'' base (e1 ''PERL5LIB''))
      in e2(''PYTHONPATH'' \<mapsto> language_path ''python'' base (e2 ''PYTHONPATH'')))"

section \<open>The logging set-up\<close>

definition newline_char :: char where
  "newline_char = CHR 0x0A"

text \<open>\<^verbatim>\<open>getline\<close>: the parts between line ends; nothing after the last one.\<close>

fun getlines :: "string \<Rightarrow> string \<Rightarrow> string list" where
  "getlines line [] = (if line = [] then [] else [line])"
| "getlines line (c # cs) = (if c = newline_char then line # getlines [] cs else getlines (line @ [c]) cs)"

definition trim :: "string \<Rightarrow> string" where
  "trim s = chomp (skipWs s)"

text \<open>A line without an equals sign is ignored.\<close>

definition log_line :: "string \<Rightarrow> (string \<times> string) option" where
  "log_line raw =
     (let line = trim raw
      in if length line = 0 \<or> CHR ''='' \<notin> set line then None
         else Some (trim (takeWhile (\<lambda>c. c \<noteq> CHR ''='') line), trim (tl (dropWhile (\<lambda>c. c \<noteq> CHR ''='') line))))"

definition log_properties :: "string \<Rightarrow> string \<rightharpoonup> string" where
  "log_properties text = fold (\<lambda>line m. case log_line line of None \<Rightarrow> m | Some (n, v) \<Rightarrow> m(n \<mapsto> v)) (getlines [] text) Map.empty"

section \<open>The program\<close>

text \<open>How the program ends, or that it still runs; with the properties of the logging set-up or the file that has them.\<close>

datatype log_setup = LogFile string | LogProperties "string \<rightharpoonup> string"

datatype exit = Success | Failure | Runs

record 's main_system =
  sy_parse :: "string \<Rightarrow> string list \<Rightarrow> config option"
  sy_init :: "(string \<rightharpoonup> string) \<Rightarrow> config \<Rightarrow> string \<Rightarrow> bool \<Rightarrow> failure + 's option"
  sy_start :: "'s \<Rightarrow> 's option"
  sy_fork :: "int"
  sy_setsid :: "int"

definition root_path :: "string \<Rightarrow> string \<Rightarrow> string" where
  "root_path sid rest = snprintf 1024 (''/Config/Server[@id='' @ quoted sid @ '']'' @ rest)"

definition log_setup_of :: "config \<Rightarrow> string \<Rightarrow> failure + log_setup option" where
  "log_setup_of cfg sid =
     bind_result (first_value cfg (root_path sid ''/logConfig/@filename'')) (\<lambda>file.
       case file of
         Some f \<Rightarrow> Inr (Some (LogFile f))
       | None \<Rightarrow>
           bind_result (first_value cfg (root_path sid ''/logConfig'')) (\<lambda>text.
             Inr (map_option (\<lambda>t. LogProperties (log_properties (c_str t))) text)))"

text \<open>The server in the foreground, or in a child whose parent ends at once.\<close>

definition run_server :: "'s main_system \<Rightarrow> bool \<Rightarrow> 's \<Rightarrow> exit" where
  "run_server sys foreground s =
     (if \<not> foreground \<and> sy_fork sys < 0 then Failure
      else if \<not> foreground \<and> sy_fork sys > 0 then Success
      else if \<not> foreground \<and> sy_setsid sys < 0 then Failure
      else case sy_start sys s of None \<Rightarrow> Runs | Some s1 \<Rightarrow> Success)"

text \<open>The libraries are loaded in the environment that was set.  \<open>operands\<close> are the words after the options: the id of the server and the arguments of the configuration.\<close>

definition hector_main :: "'s main_system \<Rightarrow> (string \<rightharpoonup> string) \<Rightarrow> string \<Rightarrow> cmd_option list \<Rightarrow> string list \<Rightarrow> failure + exit" where
  "hector_main sys env inst os operands =
     (case processOptions inst os of
        None \<Rightarrow> Inr Success
      | Some c \<Rightarrow>
          (case operands of
             [] \<Rightarrow> Inr Success
           | sid # args \<Rightarrow>
               (case sy_parse sys (the (cm_config c)) args of
                  None \<Rightarrow> Inr Failure
                | Some cfg \<Rightarrow>
                    bind_result (first_value cfg (root_path sid [])) (\<lambda>s.
                    if s = None then Inr Failure
                    else bind_result (log_setup_of cfg sid) (\<lambda>lg.
                    if lg = None then Inr Failure
                    else bind_result (sy_init sys (set_environment (the (cm_base c)) env) cfg sid (cm_batch c)) (\<lambda>init.
                    case init of
                      None \<Rightarrow> Inr Failure
                    | Some srv \<Rightarrow> Inr (run_server sys (cm_foreground c) srv)))))))"

section \<open>Properties\<close>

text \<open>The option for help only sets a variable nobody reads.\<close>

lemma help_last:
  "c\<lparr>cm_help := True, cm_config := a\<rparr> = c\<lparr>cm_config := a, cm_help := True\<rparr>" "c\<lparr>cm_help := True, cm_base := a\<rparr> = c\<lparr>cm_base := a, cm_help := True\<rparr>"
  "c\<lparr>cm_help := True, cm_batch := b\<rparr> = c\<lparr>cm_batch := b, cm_help := True\<rparr>" "c\<lparr>cm_help := True, cm_foreground := b\<rparr> = c\<lparr>cm_foreground := b, cm_help := True\<rparr>"
  "c\<lparr>cm_help := True, cm_verbose := n\<rparr> = c\<lparr>cm_verbose := n, cm_help := True\<rparr>"
  by (cases c; simp)+

lemma option_loop_help: "option_loop (os @ Opt_help # os') c = map_option (\<lambda>d. d\<lparr>cm_help := True\<rparr>) (option_loop (os @ os') c)"
proof -
  have "option_loop os' (c\<lparr>cm_help := True\<rparr>) = map_option (\<lambda>d. d\<lparr>cm_help := True\<rparr>) (option_loop os' c)" for c
    by (induction os' c rule: option_loop.induct) (simp_all add: help_last)
  then show ?thesis by (induction os c rule: option_loop.induct) simp_all
qed

lemma help_is_ignored: "hector_main sys env inst (os @ Opt_help # os') operands = hector_main sys env inst (os @ os') operands"
  by (cases "option_loop (os @ os') cmd_new")
    (simp_all add: hector_main_def processOptions_def option_loop_help help_last cong: if_cong option.case_cong list.case_cong)

text \<open>Words of a line of the logging set-up: no blanks at the ends, no line ends.\<close>

definition trimmed :: "string \<Rightarrow> bool" where
  "trimmed s \<longleftrightarrow> (s \<noteq> [] \<longrightarrow> hd s \<notin> set ws_chars \<and> last s \<notin> set ws_chars) \<and> newline_char \<notin> set s"

lemma trim_strip:
  assumes "trimmed s" and "set xs \<subseteq> set ws_chars" and "set ys \<subseteq> set ws_chars"
  shows "trim (xs @ s @ ys) = s"
proof -
  have "skipWs (xs @ s @ ys) = (if s = [] then [] else s @ ys)"
  proof (cases s)
    case Nil
    then have "dropWhile (\<lambda>c. c \<in> set ws_chars) (xs @ s @ ys) = []" using assms(2,3) by (auto simp: dropWhile_eq_Nil_conv)
    then show ?thesis using Nil by (simp add: skipWs_dropWhile)
  next
    case (Cons a as)
    have "dropWhile (\<lambda>c. c \<in> set ws_chars) (xs @ s @ ys) = s @ ys" using Cons assms(1,2) by (subst dropWhile_append2) (auto simp: trimmed_def)
    then show ?thesis using Cons by (simp add: skipWs_dropWhile)
  qed
  moreover have "chomp (s @ ys) = s" if "s \<noteq> []"
  proof -
    have "dropWhile (\<lambda>c. c \<in> set ws_chars) (rev ys @ rev s) = dropWhile (\<lambda>c. c \<in> set ws_chars) (rev s)"
      using assms(3) by (intro dropWhile_append2) auto
    also have "\<dots> = rev s" using assms(1) that by (cases "rev s") (auto simp: trimmed_def last_rev hd_rev rev_eq_Cons_iff)
    finally show ?thesis by (simp add: chomp_rev)
  qed
  ultimately show ?thesis by (auto simp: trim_def chomp_rev)
qed

definition log_text :: "(string \<times> string) list \<Rightarrow> string" where
  "log_text kvs = concat (map (\<lambda>(n, v). n @ '' = '' @ v @ [newline_char]) kvs)"

definition log_entry :: "string \<times> string \<Rightarrow> bool" where
  "log_entry kv \<longleftrightarrow> trimmed (fst kv) \<and> fst kv \<noteq> [] \<and> CHR ''='' \<notin> set (fst kv) \<and> trimmed (snd kv)"

lemma getlines_line: "newline_char \<notin> set s \<Longrightarrow> getlines line (s @ newline_char # rest) = (line @ s) # getlines [] rest"
  by (induction s arbitrary: line) auto

lemma log_line_entry:
  assumes "log_entry (n, v)"
  shows "log_line (n @ '' = '' @ v) = Some (n, v)"
proof -
  have blank: "set '' '' \<subseteq> set ws_chars" by (simp add: ws_chars_def)
  define w where "w = (if v = [] then n @ '' ='' else n @ '' = '' @ v)"
  have w: "n @ '' = '' @ v = [] @ w @ (if v = [] then '' '' else [])" by (simp add: w_def)
  have "trimmed w" using assms by (auto simp: w_def trimmed_def log_entry_def ws_chars_def newline_char_def)
  then have "trim (n @ '' = '' @ v) = w" unfolding w by (intro trim_strip) (auto simp: ws_chars_def)
  moreover have "takeWhile (\<lambda>c. c \<noteq> CHR ''='') w = n @ '' ''" "tl (dropWhile (\<lambda>c. c \<noteq> CHR ''='') w) = (if v = [] then [] else '' '' @ v)" "CHR ''='' \<in> set w" "w \<noteq> []"
    using assms by (auto simp: w_def log_entry_def takeWhile_append dropWhile_append)
  moreover have "trim (n @ '' '') = n" using trim_strip [of n "[]" "'' ''"] assms blank by (simp add: log_entry_def)
  moreover have "trim (if v = [] then [] else '' '' @ v) = v"
    using trim_strip [of v "'' ''" "[]"] trim_strip [of v "[]" "[]"] assms blank by (auto simp: log_entry_def)
  ultimately show ?thesis by (simp add: log_line_def Let_def)
qed

text \<open>
  The logging set-up is read as it is written.  A text with a line \<open>name = value\<close> for every entry gives exactly these properties; of
  two entries with the same name the later one counts.
\<close>
theorem log_properties_read:
  assumes "list_all log_entry kvs"
  shows "log_properties (log_text kvs) = map_of (rev kvs)"
proof -
  have lines: "getlines [] (log_text kvs) = map (\<lambda>(n, v). n @ '' = '' @ v) kvs"
    using assms
  proof (induction kvs)
    case (Cons kv kvs)
    obtain n v where kv: "kv = (n, v)" by fastforce
    have "newline_char \<notin> set (n @ '' = '' @ v)" using Cons.prems by (auto simp: kv log_entry_def trimmed_def newline_char_def)
    from getlines_line [OF this, of "[]" "log_text kvs"] show ?case using Cons by (simp add: log_text_def kv)
  qed (simp add: log_text_def)
  have "fold (\<lambda>line m. case log_line line of None \<Rightarrow> m | Some (n, v) \<Rightarrow> m(n \<mapsto> v)) (map (\<lambda>(n, v). n @ '' = '' @ v) kvs) m = m ++ map_of (rev kvs)" for m
    using assms
  proof (induction kvs arbitrary: m)
    case (Cons kv kvs)
    obtain n v where kv: "kv = (n, v)" by fastforce
    then have "log_line (n @ '' = '' @ v) = Some (n, v)" using Cons.prems by (intro log_line_entry) simp
    then show ?case using Cons by (simp add: kv)
  qed simp
  then show ?thesis by (simp add: log_properties_def lines)
qed

theorem log_properties_read_witness:
  "log_properties (log_text [(''log4j.rootLogger'', ''INFO, A''), (''log4j.x'', ''a=b'')]) =
     map_of (rev [(''log4j.rootLogger'', ''INFO, A''), (''log4j.x'', ''a=b'')])"
  by (rule log_properties_read) (simp add: log_entry_def trimmed_def ws_chars_def newline_char_def)

end
