(* ===== verification/Connections.thy ===== *)
theory Connections
  imports Common
begin

text \<open>
  Connections to a child process and to standard input and output (\<^verbatim>\<open>src/lib/ProcessConnection.cc\<close>, \<^verbatim>\<open>StdioConnection.cc\<close>, \<^verbatim>\<open>Connection.h\<close>): the
  loop that writes a buffer and reads another one, and the buffer for the error output of the child.  What \<^verbatim>\<open>select\<close>, \<^verbatim>\<open>read\<close> and \<^verbatim>\<open>write\<close>
  answer is a list the loop consumes.  Creating the child is a sequence of system calls whose answers are arguments.
\<close>

section \<open>The loop\<close>

text \<open>
  One answer of \<^verbatim>\<open>select\<close>: an error, a time-out, or the descriptors that are ready with what the calls on them return: how many
  characters were written, the characters read from the output and from the error output of the child (none at the end of the file).  A
  missing value inside is an error of the call.
\<close>

datatype select_answer = SelectFailed | SelectTimedOut | SelectReady "nat option option" "string option option" "string option option"

record rw =
  rw_out :: string
  rw_written :: nat
  rw_write_done :: bool
  rw_size :: nat
  rw_read :: string
  rw_read_done :: bool
  rw_timeout :: bool
  rw_err :: string
  rw_log :: "string list"

text \<open>A missing or empty buffer is done.\<close>

definition rw_new :: "string option \<Rightarrow> nat option \<Rightarrow> string \<Rightarrow> rw" where
  "rw_new out len err =
     \<lparr>rw_out = (case out of None \<Rightarrow> [] | Some s \<Rightarrow> s), rw_written = 0, rw_write_done = (out = None \<or> out = Some []),
      rw_size = (case len of None \<Rightarrow> 0 | Some n \<Rightarrow> n), rw_read = [], rw_read_done = (len = None \<or> len = Some 0), rw_timeout = False, rw_err = err, rw_log = []\<rparr>"

definition write_step :: "nat option option \<Rightarrow> rw \<Rightarrow> rw" where
  "write_step a s =
     (if rw_write_done s then s
      else case a of
             None \<Rightarrow> s
           | Some None \<Rightarrow> s\<lparr>rw_write_done := True\<rparr>
           | Some (Some w) \<Rightarrow>
               if w > 0 then s\<lparr>rw_written := rw_written s + w, rw_write_done := (rw_written s + w = length (rw_out s))\<rparr> else s)"

definition read_step :: "string option option \<Rightarrow> rw \<Rightarrow> rw" where
  "read_step a s =
     (if rw_read_done s then s
      else case a of
             None \<Rightarrow> s
           | Some None \<Rightarrow> s\<lparr>rw_read_done := True\<rparr>
           | Some (Some t) \<Rightarrow>
               if t \<noteq> [] then s\<lparr>rw_read := rw_read s @ t, rw_read_done := (length (rw_read s @ t) = rw_size s)\<rparr> else s)"

text \<open>
  The error output: complete lines are logged, the rest stays in a buffer of 1023 characters and a null.  When the buffer is full the rest
  to keep has the length -1, which \<^verbatim>\<open>memcpy\<close> takes for the largest number.
\<close>

definition last_pos :: "char \<Rightarrow> string \<Rightarrow> nat option" where
  "last_pos c s = (if c \<in> set s then Some (length s - Suc (length (takeWhile (\<lambda>x. x \<noteq> c) (rev s)))) else None)"

definition last_line_end :: "string \<Rightarrow> nat option" where
  "last_line_end s =
     (case (last_pos (CHR 0x0D) s, last_pos (CHR 0x0A) s) of
        (None, lf) \<Rightarrow> lf
      | (Some i, None) \<Rightarrow> Some i
      | (Some i, Some j) \<Rightarrow> Some (if i > j then i else j))"

definition err_step :: "string option option \<Rightarrow> rw \<Rightarrow> failure + rw" where
  "err_step a s =
     (case a of
        Some (Some t) \<Rightarrow>
          if t = [] then Inr s
          else let buf = rw_err s @ t
               in if length buf = 1023 then Inl OutOfRange
                  else (case last_line_end buf of
                          None \<Rightarrow> Inr (s\<lparr>rw_err := buf\<rparr>)
                        | Some p \<Rightarrow> Inr (s\<lparr>rw_err := drop (p + 1) buf, rw_log := rw_log s @ [c_str (take p buf)]\<rparr>))
      | _ \<Rightarrow> Inr s)"

definition rw_continues :: "bool \<Rightarrow> rw \<Rightarrow> bool" where
  "rw_continues waitForRead s \<longleftrightarrow> \<not> rw_write_done s \<or> waitForRead \<and> \<not> rw_read_done s \<or> \<not> rw_timeout s"

text \<open>The result is the number of characters, or -1; \<open>None\<close> is a loop that still waits.\<close>

fun rw_loop :: "bool \<Rightarrow> select_answer list \<Rightarrow> rw \<Rightarrow> (failure + int \<times> rw) option" where
  "rw_loop wait [] s = (if rw_continues wait s then None else Some (Inr (int (length (rw_read s)) + int (rw_written s), s)))"
| "rw_loop wait (a # as) s =
     (if \<not> rw_continues wait s then Some (Inr (int (length (rw_read s)) + int (rw_written s), s))
      else case a of
             SelectFailed \<Rightarrow> Some (Inr (- 1, s))
           | SelectTimedOut \<Rightarrow> rw_loop wait as (s\<lparr>rw_timeout := True\<rparr>)
           | SelectReady w r e \<Rightarrow>
               (case err_step e (read_step r (write_step w (s\<lparr>rw_timeout := False\<rparr>))) of
                  Inl f \<Rightarrow> Some (Inl f)
                | Inr s1 \<Rightarrow> rw_loop wait as s1))"

definition ProcessConnection_ReadWrite ::
  "select_answer list \<Rightarrow> string option \<Rightarrow> nat option \<Rightarrow> bool \<Rightarrow> string \<Rightarrow> (failure + int \<times> rw) option" where
  "ProcessConnection_ReadWrite as out len wait err = rw_loop wait as (rw_new out len err)"

text \<open>The same loop on standard output and input, where there is no error output to read.\<close>

definition no_err :: "select_answer \<Rightarrow> select_answer" where
  "no_err a = (case a of SelectReady w r e \<Rightarrow> SelectReady w r None | _ \<Rightarrow> a)"

definition StdioConnection_ReadWrite :: "select_answer list \<Rightarrow> string option \<Rightarrow> nat option \<Rightarrow> bool \<Rightarrow> (failure + int \<times> rw) option" where
  "StdioConnection_ReadWrite as out len wait = rw_loop wait (map no_err as) (rw_new out len [])"

section \<open>The child\<close>

text \<open>
  The pipes and the child: the answers of the three calls of \<^verbatim>\<open>pipe\<close> (reading and writing end) and of \<^verbatim>\<open>fork\<close>.  Pipes that were opened before
  an error stay open.
\<close>

record process_conn =
  pc_pid :: int
  pc_fdin :: "nat option"
  pc_fdout :: "nat option"
  pc_fderr :: "nat option"
  pc_open :: "nat list"

definition ProcessConnection_new :: process_conn where
  "ProcessConnection_new = \<lparr>pc_pid = 0, pc_fdin = None, pc_fdout = None, pc_fderr = None, pc_open = []\<rparr>"

definition ProcessConnection_Init ::
  "(nat \<times> nat) option \<Rightarrow> (nat \<times> nat) option \<Rightarrow> (nat \<times> nat) option \<Rightarrow> int \<Rightarrow> process_conn \<Rightarrow> bool \<times> process_conn" where
  "ProcessConnection_Init pin pout perr pid c =
     (case pin of
        None \<Rightarrow> (False, c)
      | Some (i0, i1) \<Rightarrow>
          (let c1 = c\<lparr>pc_open := i0 # i1 # pc_open c\<rparr>
           in (case pout of
                 None \<Rightarrow> (False, c1)
               | Some (o0, o1) \<Rightarrow>
                   (let c2 = c1\<lparr>pc_open := o0 # o1 # pc_open c1\<rparr>
                    in (case perr of
                          None \<Rightarrow> (False, c2)
                        | Some (e0, e1) \<Rightarrow>
                            (let c3 = c2\<lparr>pc_open := e0 # e1 # pc_open c2, pc_pid := pid\<rparr>
                             in if pid < 0 then (False, c3)
                                else (True, c3\<lparr>pc_fdin := Some i1, pc_fdout := Some o0, pc_fderr := Some e0,
                                               pc_open := remove1 i0 (remove1 o1 (remove1 e1 (pc_open c3)))\<rparr>)))))))"

text \<open>The destructor closes the descriptors before it reads once more, so that \<^verbatim>\<open>select\<close> can only fail, and kills the group of the child.\<close>

definition close_fd :: "nat option \<Rightarrow> process_conn \<Rightarrow> process_conn" where
  "close_fd fd c = (case fd of None \<Rightarrow> c | Some n \<Rightarrow> c\<lparr>pc_open := remove1 n (pc_open c)\<rparr>)"

definition ProcessConnection_delete :: "process_conn \<Rightarrow> process_conn \<times> int option" where
  "ProcessConnection_delete c =
     (close_fd (pc_fderr c) (close_fd (pc_fdout c) (close_fd (pc_fdin c) c)), if pc_pid c \<noteq> 0 then Some (- pc_pid c) else None)"

section \<open>Properties\<close>

text \<open>After a failed \<^verbatim>\<open>fork\<close> the destructor kills the process with the number 1.\<close>

lemma failed_fork_kills:
  assumes "ProcessConnection_Init (Some p) (Some q) (Some r) (- 1) ProcessConnection_new = (ok, c)"
  shows "\<not> ok" and "snd (ProcessConnection_delete c) = Some 1"
  using assms by (auto simp: ProcessConnection_Init_def ProcessConnection_delete_def Let_def split: prod.splits)

text \<open>
  What the system guarantees: a time-out only when \<^verbatim>\<open>select\<close> was called with a limit, and never more characters than were asked for.
\<close>

fun legal :: "select_answer list \<Rightarrow> rw \<Rightarrow> bool" where
  "legal [] s = True"
| "legal (SelectFailed # as) s = True"
| "legal (SelectTimedOut # as) s = (rw_write_done s \<and> rw_read_done s \<and> legal as (s\<lparr>rw_timeout := True\<rparr>))"
| "legal (SelectReady w r e # as) s =
     ((case w of Some (Some k) \<Rightarrow> k \<le> length (rw_out s) - rw_written s | _ \<Rightarrow> True) \<and>
      (case r of Some (Some t) \<Rightarrow> length t \<le> rw_size s - length (rw_read s) | _ \<Rightarrow> True) \<and>
      (case e of Some (Some t) \<Rightarrow> length t \<le> 1023 - length (rw_err s) | _ \<Rightarrow> True) \<and>
      (case err_step e (read_step r (write_step w (s\<lparr>rw_timeout := False\<rparr>))) of Inl f \<Rightarrow> True | Inr s1 \<Rightarrow> legal as s1))"

text \<open>No time-out before both buffers are done, and the counters within their bounds.\<close>

definition rw_ok :: "rw \<Rightarrow> bool" where
  "rw_ok s \<longleftrightarrow> (rw_timeout s \<longrightarrow> rw_write_done s \<and> rw_read_done s) \<and> rw_written s \<le> length (rw_out s) \<and> length (rw_read s) \<le> rw_size s"

lemma err_step_keeps:
  assumes "err_step e s = Inr s1"
  shows "rw_out s1 = rw_out s" "rw_written s1 = rw_written s" "rw_write_done s1 = rw_write_done s" "rw_size s1 = rw_size s" "rw_read s1 = rw_read s"
    "rw_read_done s1 = rw_read_done s" "rw_timeout s1 = rw_timeout s"
  using assms by (auto simp: err_step_def Let_def split: option.splits if_splits)

lemma write_step_ok:
  assumes "rw_ok s" "\<not> rw_timeout s" "case w of Some (Some k) \<Rightarrow> k \<le> length (rw_out s) - rw_written s | _ \<Rightarrow> True"
  shows "rw_ok (write_step w s) \<and> \<not> rw_timeout (write_step w s) \<and> rw_size (write_step w s) = rw_size s \<and> rw_read (write_step w s) = rw_read s"
  using assms by (cases w; cases "the w") (auto simp: rw_ok_def write_step_def)

lemma read_step_ok:
  assumes "rw_ok s" "\<not> rw_timeout s" "case r of Some (Some t) \<Rightarrow> length t \<le> rw_size s - length (rw_read s) | _ \<Rightarrow> True"
  shows "rw_ok (read_step r s)"
  using assms by (cases r; cases "the r") (auto simp: rw_ok_def read_step_def)

lemma rw_ok_step:
  assumes "rw_ok s" and "err_step e (read_step r (write_step w (s\<lparr>rw_timeout := False\<rparr>))) = Inr s1"
    and "case w of Some (Some k) \<Rightarrow> k \<le> length (rw_out s) - rw_written s | _ \<Rightarrow> True"
    and "case r of Some (Some t) \<Rightarrow> length t \<le> rw_size s - length (rw_read s) | _ \<Rightarrow> True"
  shows "rw_ok s1"
proof -
  have "rw_ok (s\<lparr>rw_timeout := False\<rparr>)" using assms(1) by (simp add: rw_ok_def)
  then have w: "rw_ok (write_step w (s\<lparr>rw_timeout := False\<rparr>)) \<and> \<not> rw_timeout (write_step w (s\<lparr>rw_timeout := False\<rparr>)) \<and>
      rw_size (write_step w (s\<lparr>rw_timeout := False\<rparr>)) = rw_size s \<and> rw_read (write_step w (s\<lparr>rw_timeout := False\<rparr>)) = rw_read s"
    using write_step_ok [of "s\<lparr>rw_timeout := False\<rparr>" w] assms(3) by (simp cong: option.case_cong)
  then have "rw_ok (read_step r (write_step w (s\<lparr>rw_timeout := False\<rparr>)))" using assms(4) by (intro read_step_ok) (simp_all cong: option.case_cong)
  then show ?thesis using err_step_keeps [OF assms(2)] by (simp add: rw_ok_def)
qed

lemma rw_ok_new: "rw_ok (rw_new out len err)"
  by (simp add: rw_ok_def rw_new_def)

lemma rw_loop_wait:
  assumes "rw_ok s" and "legal as s"
  shows "rw_loop True as s = rw_loop False as s"
  using assms
proof (induction as s rule: legal.induct)
  case (4 w r e as s)
  have c: "rw_continues True s = rw_continues False s" using 4(2) by (auto simp: rw_continues_def rw_ok_def)
  show ?case
  proof (cases "err_step e (read_step r (write_step w (s\<lparr>rw_timeout := False\<rparr>)))")
    case (Inr s1)
    have "rw_ok s1" using rw_ok_step [OF 4(2) Inr] 4(3) by simp
    then have "rw_loop True as s1 = rw_loop False as s1" using 4(1) [OF Inr] 4(3) Inr by simp
    then show ?thesis using c Inr by simp
  qed (use c in simp)
qed (auto simp: rw_continues_def rw_ok_def)



text \<open>The answers without an error of a call; what was sent and received is then complete when the loop returns.\<close>

definition no_errors :: "select_answer \<Rightarrow> bool" where
  "no_errors a \<longleftrightarrow> (case a of SelectReady w r e \<Rightarrow> w \<noteq> Some None \<and> r \<noteq> Some None | _ \<Rightarrow> True)"

definition rw_complete :: "rw \<Rightarrow> bool" where
  "rw_complete s \<longleftrightarrow> (rw_write_done s \<longrightarrow> rw_written s = length (rw_out s)) \<and> (rw_read_done s \<longrightarrow> length (rw_read s) = rw_size s)"

lemma rw_complete_steps:
  "rw_complete s \<Longrightarrow> w \<noteq> Some None \<Longrightarrow> rw_complete (write_step w s) \<and> rw_out (write_step w s) = rw_out s \<and> rw_size (write_step w s) = rw_size s"
  "rw_complete s \<Longrightarrow> r \<noteq> Some None \<Longrightarrow> rw_complete (read_step r s) \<and> rw_out (read_step r s) = rw_out s \<and> rw_size (read_step r s) = rw_size s"
  by (simp_all add: rw_complete_def write_step_def read_step_def split: option.splits)

lemma rw_complete_step:
  assumes "rw_complete s" and "w \<noteq> Some None" and "r \<noteq> Some None" and "err_step e (read_step r (write_step w (s\<lparr>rw_timeout := False\<rparr>))) = Inr s1"
  shows "rw_complete s1 \<and> rw_out s1 = rw_out s \<and> rw_size s1 = rw_size s"
proof -
  have "rw_complete (s\<lparr>rw_timeout := False\<rparr>)" using assms(1) by (simp add: rw_complete_def)
  from rw_complete_steps(1) [OF this assms(2)] show ?thesis
    using rw_complete_steps(2) [OF _ assms(3), of "write_step w (s\<lparr>rw_timeout := False\<rparr>)"] err_step_keeps [OF assms(4)] by (simp add: rw_complete_def)
qed

lemma rw_loop_complete:
  assumes "rw_loop True as s = Some (Inr (n, s'))" and "list_all no_errors as" and "rw_complete s" and "0 \<le> n"
  shows "n = int (rw_size s + length (rw_out s)) \<and> rw_size s' = rw_size s \<and> length (rw_read s') = rw_size s \<and> rw_written s' = length (rw_out s)"
  using assms
proof (induction as arbitrary: s)
  case (Cons a as)
  have stop: ?case if "\<not> rw_continues True s" using that Cons.prems by (auto simp: rw_continues_def rw_complete_def)
  show ?case
  proof (cases "rw_continues True s")
    case True
    show ?thesis
    proof (cases a)
      case (SelectReady w r e)
      then obtain s1 where s1: "err_step e (read_step r (write_step w (s\<lparr>rw_timeout := False\<rparr>))) = Inr s1" "rw_loop True as s1 = Some (Inr (n, s'))"
        using Cons.prems(1) True by (auto split: sum.splits)
      have "rw_complete s1 \<and> rw_out s1 = rw_out s \<and> rw_size s1 = rw_size s"
        using rw_complete_step [OF Cons.prems(3) _ _ s1(1)] Cons.prems(2) SelectReady by (simp add: no_errors_def)
      then show ?thesis using Cons.IH [OF s1(2)] Cons.prems(2,4) by simp
    next
      case SelectTimedOut
      then show ?thesis using Cons.IH [of "s\<lparr>rw_timeout := True\<rparr>"] Cons.prems True by (simp add: rw_complete_def)
    qed (use Cons.prems True in auto)
  qed (rule stop)
qed (auto simp: rw_continues_def rw_complete_def split: if_splits)

text \<open>
  A transfer is complete.  When no call fails and \<^verbatim>\<open>select\<close> does not fail, a loop that returns has written the whole buffer and has filled the
  buffer for reading, and returns the sum of both lengths.
\<close>
theorem ReadWrite_complete:
  assumes "ProcessConnection_ReadWrite as (Some out) (Some len) wait err = Some (Inr (n, s'))" and "legal as (rw_new (Some out) (Some len) err)"
    and "list_all no_errors as" and "0 \<le> n"
  shows "n = int (len + length out) \<and> rw_written s' = length out \<and> length (rw_read s') = len"
proof -
  have "rw_loop True as (rw_new (Some out) (Some len) err) = Some (Inr (n, s'))"
    using assms(1) rw_loop_wait [OF rw_ok_new assms(2)] by (cases wait) (simp_all add: ProcessConnection_ReadWrite_def)
  from rw_loop_complete [OF this assms(3) _ assms(4)] show ?thesis by (simp add: rw_new_def rw_complete_def)
qed

theorem ReadWrite_complete_witness:
  "\<exists>n s'. ProcessConnection_ReadWrite [SelectReady (Some (Some 2)) None None, SelectReady None (Some (Some ''ok'')) (Some (Some ''warn'')), SelectTimedOut]
     (Some ''hi'') (Some 2) False [] = Some (Inr (n, s')) \<and> n = int (2 + length ''hi'') \<and> rw_written s' = length ''hi'' \<and> length (rw_read s') = 2"
proof -
  let ?as = "[SelectReady (Some (Some 2)) None None, SelectReady None (Some (Some ''ok'')) (Some (Some ''warn'')), SelectTimedOut]"
  have "case ProcessConnection_ReadWrite ?as (Some ''hi'') (Some 2) False [] of Some (Inr (n, s')) \<Rightarrow> 0 \<le> n | _ \<Rightarrow> False" by code_simp
  then obtain n s' where r: "ProcessConnection_ReadWrite ?as (Some ''hi'') (Some 2) False [] = Some (Inr (n, s'))" "0 \<le> n"
    by (auto split: option.splits sum.splits)
  have l: "legal ?as (rw_new (Some ''hi'') (Some 2) [])" by code_simp
  have "list_all no_errors ?as" by (simp add: no_errors_def)
  from ReadWrite_complete [OF r(1) l this r(2)] r(1) show ?thesis by blast
qed

text \<open>A child that fills the buffer of its error output makes the program copy a block of the largest size.\<close>

lemma full_error_buffer: "t \<noteq> [] \<Longrightarrow> length (rw_err s) + length t = 1023 \<Longrightarrow> err_step (Some (Some t)) s = Inl OutOfRange"
  by (simp add: err_step_def)

text \<open>
  When a child closes its error output, as it does when it ends, the loop never ends: with an error output that is always ready
  and empty no number of rounds is enough, even when there is nothing to write and nothing to read.
\<close>
theorem closed_error_output_spins:
  assumes "list_all (\<lambda>a. \<exists>w r. a = SelectReady w r (Some (Some []))) as"
  shows "ProcessConnection_ReadWrite as out len wait err = None"
proof -
  have "rw_loop wait as s = None" if "\<not> rw_timeout s" for s
    using assms that
  proof (induction as arbitrary: s)
    case (Cons a as)
    obtain w r where a: "a = SelectReady w r (Some (Some []))" using Cons.prems(1) by auto
    let ?s = "read_step r (write_step w (s\<lparr>rw_timeout := False\<rparr>))"
    have step: "err_step (Some (Some [])) ?s = Inr ?s" by (simp add: err_step_def)
    have "\<not> rw_timeout ?s" by (simp add: read_step_def write_step_def split: option.splits)
    then show ?case using Cons a step by (simp add: rw_continues_def)
  qed (simp add: rw_continues_def)
  then show ?thesis by (simp add: ProcessConnection_ReadWrite_def rw_new_def)
qed

theorem closed_error_output_spins_witness:
  "ProcessConnection_ReadWrite [SelectReady None None (Some (Some [])), SelectReady None None (Some (Some []))] None None False [] = None"
  by (rule closed_error_output_spins) simp

end
