(* ===== verification/LibraryLoader.thy ===== *)
theory LibraryLoader
  imports Prelude "HOL-Library.AList"
begin

text \<open>
  The loader of libraries (\<^verbatim>\<open>src/lib/LibraryLoader.h\<close>, \<^verbatim>\<open>LibraryLoader.cc\<close>): a table of the libraries that are open.  What \<^verbatim>\<open>lt_dlinit\<close>, \<^verbatim>\<open>lt_dlopen\<close> and
  \<^verbatim>\<open>lt_dlsym\<close> answer are arguments; the lock makes every call one step.
\<close>

record loader =
  ll_initialized :: bool
  ll_handles :: "(string \<times> nat) list"
  ll_opened :: "nat list"
  ll_closed :: "nat list"

definition LibraryLoader_new :: loader where
  "LibraryLoader_new = \<lparr>ll_initialized = False, ll_handles = [], ll_opened = [], ll_closed = []\<rparr>"

record libtool =
  lt_dlinit :: bool
  lt_dlopen :: "string \<Rightarrow> nat option"
  lt_dlsym :: "nat \<Rightarrow> string \<Rightarrow> nat option"

text \<open>The address of a symbol, or nothing: no libtool, no library or no symbol.\<close>

definition LoadLibrary :: "libtool \<Rightarrow> string \<Rightarrow> string \<Rightarrow> loader \<Rightarrow> nat option \<times> loader" where
  "LoadLibrary lt lib symb st =
     (if \<not> ll_initialized st \<and> \<not> lt_dlinit lt then (None, st)
      else let st1 = st\<lparr>ll_initialized := True\<rparr>
           in case map_of (ll_handles st1) lib of
                Some h \<Rightarrow> (lt_dlsym lt h symb, st1)
              | None \<Rightarrow>
                  (case lt_dlopen lt lib of
                     None \<Rightarrow> (None, st1)
                   | Some h \<Rightarrow> (lt_dlsym lt h symb, st1\<lparr>ll_handles := AList.update lib h (ll_handles st1), ll_opened := ll_opened st1 @ [h]\<rparr>)))"

text \<open>The destructor, unless a variable of the environment forbids it.  The order of the table is not specified in the code; here it is the order of opening.\<close>

definition LibraryLoader_delete :: "bool \<Rightarrow> loader \<Rightarrow> loader" where
  "LibraryLoader_delete no_unload st =
     (if no_unload then st else st\<lparr>ll_closed := ll_closed st @ map snd (ll_handles st), ll_initialized := False\<rparr>)"

section \<open>Properties\<close>

fun loads :: "(libtool \<times> string \<times> string) list \<Rightarrow> loader \<Rightarrow> loader" where
  "loads [] st = st"
| "loads ((lt, lib, symb) # qs) st = loads qs (snd (LoadLibrary lt lib symb st))"

text \<open>Every open library is in the table once, with its handle.\<close>

definition loader_ok :: "loader \<Rightarrow> bool" where
  "loader_ok st \<longleftrightarrow> distinct (map fst (ll_handles st)) \<and> map snd (ll_handles st) = ll_opened st"

lemma update_new: "map_of al k = None \<Longrightarrow> AList.update k v al = al @ [(k, v)]"
  by (induction al) (auto split: if_splits)

lemma LoadLibrary_ok: "loader_ok st \<Longrightarrow> loader_ok (snd (LoadLibrary lt lib symb st)) \<and> ll_closed (snd (LoadLibrary lt lib symb st)) = ll_closed st"
  by (auto simp: LoadLibrary_def loader_ok_def update_new Let_def map_of_eq_None_iff split: option.splits)

lemma loads_ok: "loader_ok st \<Longrightarrow> loader_ok (loads qs st) \<and> ll_closed (loads qs st) = ll_closed st"
  using LoadLibrary_ok by (induction qs st rule: loads.induct) (simp, metis loads.simps(2))

text \<open>A library that was loaded once is not opened again, and gives the symbols of the same handle.\<close>

lemma LoadLibrary_again:
  assumes "LoadLibrary lt lib symb st = (Some a, st1)"
  shows "\<exists>h. lt_dlsym lt h symb = Some a \<and> LoadLibrary lt' lib symb' st1 = (lt_dlsym lt' h symb', st1)"
  using assms by (auto simp: LoadLibrary_def Let_def update_conv' split: if_splits option.splits)

text \<open>
  Every library that is opened is closed exactly once.  After any sequence of requests, with any answers of libtool, no name is in the
  table twice and the destructor closes exactly the handles that were opened, each once.
\<close>
theorem libraries_closed_once:
  "distinct (map fst (ll_handles (loads qs LibraryLoader_new))) \<and>
   ll_closed (LibraryLoader_delete False (loads qs LibraryLoader_new)) = ll_opened (loads qs LibraryLoader_new)"
proof -
  have "loader_ok LibraryLoader_new" by (simp add: loader_ok_def LibraryLoader_new_def)
  from loads_ok [OF this, of qs] show ?thesis by (simp add: loader_ok_def LibraryLoader_delete_def LibraryLoader_new_def)
qed

end
