(* ===== verification/Spec2Isabelle.thy ===== *)
theory Spec2Isabelle
  imports SyncQueueThreads Common PerlInterpreters Conservation Engine MD5 SaveLoad CallEngine Config MemoryPool TestPerlResource PythonScripts Management HectorMain Connections LibraryLoader
begin

text \<open>
  A verification of hector, a server that lets resources flow through processors.  A server has processing engines, an engine
  has processors, a processor has threads and, for every thread, a chain of modules.  A processor reads resources from its
  input queue (or makes them by an input module), applies its modules and hands the results to the input queues of other
  processors or to the output queue of the engine.  Modules and resources are written in C++, Perl or Python.  A small HTTP
  server reads and changes the properties of all objects, lets resources be processed and stops the program; in batch mode the
  program ends by itself when nothing is left to do.

  \<^bold>\<open>The theories and what they model\<close> (files under \<^verbatim>\<open>src/\<close>)

  \<^item> \<open>Prelude\<close>, \<open>Common\<close> (\<^verbatim>\<open>lib/common.cc\<close>, \<^verbatim>\<open>common.h\<close>): results that may fail (\<open>failure + 'a\<close>), collections of simplification rules,
    strings as the helpers split, join and replace them, numbers as text, C conversions, deadlines, complete reads and writes.
  \<^item> \<open>SyncQueue\<close>, \<open>QueueInterface\<close>, \<open>SyncQueueThreads\<close> (\<^verbatim>\<open>lib/SyncQueue.h\<close>, \<^verbatim>\<open>CondLock.h\<close>): the queue with priorities and limits.  Each part that runs
    under the lock is a function on the state; \<open>SyncQueueThreads\<close> lets any number of threads take these steps in any order, with
    time-outs and spurious wake-ups.  \<open>QueueInterface\<close> states what the clients of a queue rely on.
  \<^item> \<open>HeapPlus\<close>, \<open>PerlInterpreters\<close> (\<^verbatim>\<open>heapplus.h\<close>, \<^verbatim>\<open>PerlInterpreters.cc\<close>): heap algorithms that report positions, and the pool of
    interpreters ordered by them.
  \<^item> \<open>Resources\<close>, \<open>Attributes\<close>, \<open>Streams\<close>, \<open>ResourceTypes\<close> (\<^verbatim>\<open>Resource.h\<close>, \<^verbatim>\<open>ResourceRegistry.cc\<close>, \<^verbatim>\<open>ResourceAttrInfo*.h\<close>, the stream classes,
    \<^verbatim>\<open>TestResource\<close>, \<^verbatim>\<open>MarkerResource\<close>): resources, their numbering and recycling, attributes by description, text and binary form.
  \<^item> \<open>BatchSleep\<close> (\<^verbatim>\<open>Processor.cc\<close>, \<^verbatim>\<open>ProcessingEngine.cc\<close>, \<^verbatim>\<open>Server.cc\<close>): the three levels of counters that detect the end of the work.
  \<^item> \<open>Processor\<close>, \<open>Conservation\<close> (\<^verbatim>\<open>Processor.cc\<close>, \<^verbatim>\<open>OutputFilter.h\<close>): routing, the chain of modules and the whole thread function; what
    happens to every resource.
  \<^item> \<open>Engine\<close>, \<open>CallEngine\<close> (\<^verbatim>\<open>ProcessingEngine.cc\<close>, \<^verbatim>\<open>CallProcessingEngine.cc\<close>): start, stop, pause and resume, fetching of results, and a
    module that lets another engine do the work.
  \<^item> \<open>Objects\<close>, \<open>Modules\<close>, \<open>SaveLoad\<close> (\<^verbatim>\<open>Object.cc\<close>, \<^verbatim>\<open>ObjectRegistry.cc\<close>, \<^verbatim>\<open>ObjectProperties.h\<close>, \<^verbatim>\<open>module/*.cc\<close>): objects with named properties and the
    modules written in C++.
  \<^item> \<open>PerlApi\<close>, \<open>PerlResource\<close>, \<open>TestPerlResource\<close>, \<open>PerlModule\<close>, \<open>PythonApi\<close>, \<open>PythonModule\<close>, \<open>PythonScripts\<close> (\<^verbatim>\<open>EmbeddedPerl.cc\<close>, \<^verbatim>\<open>PerlResource.cc\<close>,
    \<^verbatim>\<open>PerlModule.cc\<close>, \<^verbatim>\<open>EmbeddedPython.cc\<close>, \<^verbatim>\<open>PythonModule.cc\<close> and the scripts): the two embedded interpreters as C++ uses them, and programs in them.
  \<^item> \<open>HttpConn\<close>, \<open>HttpServer\<close>, \<open>BaseServer\<close>, \<open>Management\<close> (\<^verbatim>\<open>lib/server\<close>, \<^verbatim>\<open>BaseServer.cc\<close>): connections, the server's threads, the requests, and the
    protocol from the client's side.
  \<^item> \<open>Startup\<close>, \<open>ServerStart\<close>, \<open>HectorMain\<close> (\<^verbatim>\<open>Processor::Init\<close>, \<^verbatim>\<open>ProcessingEngine::Init\<close>, \<^verbatim>\<open>Server.cc\<close>, \<^verbatim>\<open>src/hector_server.cc\<close>): how the program is built
    from its configuration, connected, started and stopped, and checkpoints.
  \<^item> \<open>MD5\<close>, \<open>IpAddr\<close>, \<open>Config\<close>, \<open>MemoryPool\<close>, \<open>Connections\<close>, \<open>LibraryLoader\<close>: the remaining library classes.

  \<^bold>\<open>How code corresponds to definitions.\<close>  A class is a record with its members, a function is a definition of the same name (with the
  class in front where two would clash) that takes and returns the state, every early return and assertion is a branch; an
  assertion, a null pointer and signed overflow are values of the type \<open>failure\<close>.  Virtual functions are records of functions.  Pointers
  to shared objects are addresses in a store where two names may reach the same object (the sub-queues of a queue, objects in the
  registry, the values of the interpreters).  Object locks make an operation one step.

  \<^bold>\<open>What is an argument.\<close>  Code outside the sources: the Perl and Python interpreters and the SWIG runtime, the coded streams of protocol
  buffers, libxml2, \<^verbatim>\<open>inet_pton\<close>, sockets, files and the clock.  System calls and other threads answer from lists.  What a theorem relies
  on is a locale (a queue, a codec, an attribute, a settable property, a lossless module, a request handler) that is interpreted on the
  definitions of the code.

  \<^bold>\<open>Loops and waiting.\<close>  Loops over data are total functions.  A loop that waits consumes a list of answers and is \<open>None\<close>, or \<open>Waits\<close>,
  when the list is used up: it still waits.  \<open>Processor.input_loop\<close> and \<open>BaseServer.receive\<close> may run for ever and are partial functions
  with the value \<open>None\<close> for that case.  \<open>RunThread\<close> takes the number of turns; every theorem about it holds for all numbers.  No result depends
  on a bound that was chosen.

  \<^bold>\<open>What the lemmas show\<close>
  \<^item> Queues: limits, order within and between priorities, no lost wake-up, every waiting thread ends after \<open>Stop\<close>.
  \<^item> Resources in processors: routing delivers every clone exactly where the filters say, nothing is lost or duplicated by module chains
    of native, Perl and Python modules, and the counter of an engine says how many resources it has.
  \<^item> Engines: the switches stay consistent, results are complete and in order, calls to other engines terminate and conserve resources;
    batch mode ends exactly when all counters agree, and can end too early or never under schedules that are given.
  \<^item> Representation: round trips of resources, attributes, configuration values and requests, the digest of any pieces equals the one
    of the whole and the unrolled rounds are those of the specification.
  \<^item> Interpreters: locks and references are balanced on every path, errors in a script lose no resource except where stated.
  \<^item> Management: requests that arrive in any pieces are parsed back and answered in order, properties that are set are read back,
    resources come back in the order in which they were sent, and no accepted connection is forgotten.
  \<^item> Start: processors are built exactly as the configuration describes them, and after a successful start every filter has a queue.
  Where the code does something else than it means to, a lemma states what it does.

  \<^bold>\<open>Not modelled.\<close>  Log messages; \<open>PlainLock\<close>, \<open>RWLock\<close> (single library calls); \<open>SharedResource\<close> and \<open>CyclicBuffer\<close> (not used, the
  second cannot be compiled); \<open>TestProtobufResource\<close> (its functions are generated); \<open>TestCall\<close> (a driver); SWIG interface files; the shell script of the client; the tests.
\<close>

end
